(* ===== verification/Srs_Prelude.thy ===== *)
theory Srs_Prelude
  imports Main "HOL-Library.Word" "HOL-Library.Signed_Division"
begin

text \<open>
  Shared vocabulary of the development: the machine integer types, the error values that the
  C++ code returns through \<open>srs_error_t\<close>, the result type with its sequencing operator, the byte
  order conversions, and generic lemmas about lists and words.

  An \<open>srs_error_t\<close> is either \<open>srs_success\<close> or an error object with a code and a text. The model
  keeps the code (\<open>srs_error_wrap\<close> keeps it too) and drops the text. Further values stand for
  executions that never return an error object: \<open>ASSERT_FAILED\<close> for a failing \<open>srs_assert\<close>, which
  aborts the process, and \<open>UNDEFINED_READ\<close> and \<open>UNDEFINED_WRITE\<close> for an access outside of an array. \<open>DIVISION_BY_ZERO\<close>,
  \<open>OUT_OF_RANGE\<close> (the exception of \<open>std::string::substr\<close>) and \<open>DEADLOCK\<close> (a thread that locks a
  \<open>std::mutex\<close> it holds) are of the same kind.
\<close>

unbundle bit_operations_syntax

type_synonym u8 = "8 word"
type_synonym u16 = "16 word"
type_synonym u32 = "32 word"
type_synonym u64 = "64 word"

datatype srs_error =
    ASSERT_FAILED
  | UNDEFINED_READ
  | UNDEFINED_WRITE
  | DIVISION_BY_ZERO
  | OUT_OF_RANGE
  | DEADLOCK
  | ERROR_SYSTEM_STREAM_BUSY
  | ERROR_SYSTEM_TIME
  | ERROR_SYSTEM_IO_INVALID
  | ERROR_SYSTEM_IP_INVALID
  | ERROR_SOCKET_TIMEOUT
  | ERROR_SOCKET_CLOSED
  | ERROR_RTMP_MESSAGE_DECODE
  | ERROR_RTMP_MESSAGE_CREATE
  | ERROR_NO_SOURCE
  | ERROR_SOURCE_NOT_FOUND
  | ERROR_SYSTEM_FILE_WRITE
  | ERROR_HEVC_DECODE_ERROR
  | ERROR_HEVC_NALU_UEV
  | ERROR_HEVC_NALU_SEV
  | ERROR_H264_API_NO_PREFIXED
  | ERROR_HEVC_API_NO_PREFIXED
  | ERROR_H264_DROP_BEFORE_SPS_PPS
  | ERROR_STREAM_CASTER_AVC_PPS
  | ERROR_STREAM_CASTER_HEVC_VPS
  | ERROR_STREAM_CASTER_HEVC_PPS
  | ERROR_STREAM_CASTER_TS_HEADER
  | ERROR_STREAM_CASTER_TS_SYNC_BYTE
  | ERROR_STREAM_CASTER_TS_AF
  | ERROR_STREAM_CASTER_TS_PSI
  | ERROR_STREAM_CASTER_TS_PAT
  | ERROR_STREAM_CASTER_TS_PMT
  | ERROR_STREAM_CASTER_TS_PSE
  | ERROR_STREAM_CASTER_TS_CODEC
  | ERROR_GB_PS_PSE
  | ERROR_HLS_NO_STREAM
  | ERROR_TS_CONTEXT_NOT_READY
  | ERROR_AAC_ADTS_HEADER
  | ERROR_AAC_REQUIRED_ADTS
  | ERROR_AAC_DATA_INVALID
  | ERROR_HLS_DECODE_ERROR
  | ERROR_HLS_AAC_FRAME_LENGTH
  | ERROR_HLS_AVC_SAMPLE_SIZE
  | ERROR_HLS_TRY_MP3
  | ERROR_RTC_RTP_MUXER
  | ERROR_NOT_IMPLEMENTED
  | ERROR_NALU_EMPTY
  | ERROR_AVC_NALU_UEV
  | ERROR_AVC_NALU_EMPTY
  | ERROR_TLS_KEY_CRT
  | ERROR_TLS_HANDSHAKE
  | ERROR_SOCKET_READ

type_synonym 'a res = "srs_error + 'a"

text \<open>\<open>srs_success\<close> of the sources.\<close>

abbreviation srs_success :: "unit res" where
  "srs_success \<equiv> Inr ()"

definition res_bind :: "'a res \<Rightarrow> ('a \<Rightarrow> 'b res) \<Rightarrow> 'b res" where
  "res_bind r f = (case r of Inl e \<Rightarrow> Inl e | Inr x \<Rightarrow> f x)"

lemma res_bind_simps [simp]:
  "res_bind (Inl e) f = Inl e"
  "res_bind (Inr x) f = f x"
  by (simp_all add: res_bind_def)

lemma res_bind_Inr_iff:
  "res_bind r f = Inr y \<longleftrightarrow> (\<exists>x. r = Inr x \<and> f x = Inr y)"
  by (cases r) auto

lemma res_bind_cong [fundef_cong]:
  "r = r' \<Longrightarrow> (\<And>x. r' = Inr x \<Longrightarrow> f x = g x) \<Longrightarrow> res_bind r f = res_bind r' g"
  by (cases r') auto

lemma res_bind_assoc: "res_bind (res_bind r f) g = res_bind r (\<lambda>x. res_bind (f x) g)"
  by (cases r) auto

text \<open>Sequencing: an error ends the operation, the changes made to the state so far stay.\<close>

type_synonym 's outcome = "unit res \<times> 's"

definition and_then :: "'s outcome \<Rightarrow> ('s \<Rightarrow> 's outcome) \<Rightarrow> 's outcome" where
  "and_then p k = (case p of (Inl e, s) \<Rightarrow> (Inl e, s) | (Inr _, s) \<Rightarrow> k s)"

lemma and_then_simps [simp]:
  "and_then (Inl e, s) k = (Inl e, s)"
  "and_then (Inr u, s) k = k s"
  by (simp_all add: and_then_def)

lemma and_then_prop: "P (snd p) \<Longrightarrow> P (snd (k (snd p))) \<Longrightarrow> P (snd (and_then p k))"
  by (cases p; cases "fst p") (auto simp: and_then_def)

text \<open>A result without effect in front of a stateful operation.\<close>

definition with_res :: "'a res \<Rightarrow> 's \<Rightarrow> ('a \<Rightarrow> 'b res \<times> 's) \<Rightarrow> 'b res \<times> 's" where
  "with_res r s k = (case r of Inl e \<Rightarrow> (Inl e, s) | Inr x \<Rightarrow> k x)"

lemma with_res_simps [simp]:
  "with_res (Inl e) s k = (Inl e, s)"
  "with_res (Inr x) s k = k x"
  by (simp_all add: with_res_def)

lemma with_res_prop: "P s \<Longrightarrow> (\<And>x. r = Inr x \<Longrightarrow> P (snd (k x))) \<Longrightarrow> P (snd (with_res r s k))"
  by (cases r) auto

lemma and_then_ok: "and_then p k = (Inr u, s) \<longleftrightarrow> fst p = srs_success \<and> k (snd p) = (Inr u, s)"
  by (cases p; cases "fst p") (auto simp: and_then_def)

subsection \<open>Byte order\<close>

text \<open>
  The code assembles a value byte by byte through a pointer to it, on a little-endian host:
  \<open>pp[i]\<close> is byte \<open>i\<close> counted from the least significant one.
\<close>

definition byte_of :: "'a::len word \<Rightarrow> nat \<Rightarrow> u8" where
  "byte_of w i = ucast (drop_bit (8 * i) w)"

fun le_word :: "u8 list \<Rightarrow> 'a::len word" where
  "le_word [] = 0"
| "le_word (b # bs) = ucast b OR push_bit 8 (le_word bs)"

definition be_word :: "u8 list \<Rightarrow> 'a::len word" where
  "be_word bs = le_word (rev bs)"

definition le_bytes :: "nat \<Rightarrow> 'a::len word \<Rightarrow> u8 list" where
  "le_bytes n w = map (byte_of w) [0..<n]"

definition be_bytes :: "nat \<Rightarrow> 'a::len word \<Rightarrow> u8 list" where
  "be_bytes n w = rev (le_bytes n w)"

lemma length_le_bytes [simp]: "length (le_bytes n w) = n"
  by (simp add: le_bytes_def)

lemma length_be_bytes [simp]: "length (be_bytes n w) = n"
  by (simp add: be_bytes_def)

lemma bit_le_word:
  "bit (le_word bs :: 'a::len word) k \<longleftrightarrow>
     k < LENGTH('a) \<and> k div 8 < length bs \<and> bit (bs ! (k div 8)) (k mod 8)"
proof (induction bs arbitrary: k)
  case Nil
  then show ?case by simp
next
  case (Cons b bs)
  have small: "bit b k \<Longrightarrow> k < 8"
    using bit_imp_le_length by fastforce
  show ?case
  proof (cases "k < 8")
    case True
    then show ?thesis
      by (auto simp: bit_or_iff bit_ucast_iff bit_push_bit_iff)
  next
    case False
    then have "k div 8 = Suc ((k - 8) div 8)" and "k mod 8 = (k - 8) mod 8"
      by (simp_all add: le_div_geq le_mod_geq)
    with False small show ?thesis
      by (auto simp: bit_or_iff bit_ucast_iff bit_push_bit_iff Cons.IH)
  qed
qed

lemma bit_byte_of: "bit (byte_of w i) k \<longleftrightarrow> k < 8 \<and> bit w (8 * i + k)"
  for w :: "'a::len word"
  by (auto simp: byte_of_def bit_ucast_iff bit_drop_bit_eq)

lemma le_word_le_bytes:
  "le_word (le_bytes n w) = (take_bit (8 * n) w :: 'a::len word)"
proof (rule bit_word_eqI)
  fix k :: nat
  assume "k < LENGTH('a)"
  moreover have "k div 8 < n \<longleftrightarrow> k < 8 * n"
    by (simp add: div_less_iff_less_mult mult.commute)
  moreover have "8 * (k div 8) + k mod 8 = k"
    by simp
  ultimately show "bit (le_word (le_bytes n w) :: 'a word) k \<longleftrightarrow> bit (take_bit (8 * n) w) k"
    by (auto simp: bit_le_word le_bytes_def bit_byte_of bit_take_bit_iff)
qed

lemma be_word_be_bytes:
  "be_word (be_bytes n w) = (take_bit (8 * n) w :: 'a::len word)"
  by (simp add: be_word_def be_bytes_def le_word_le_bytes)

lemma le_bytes_le_word:
  assumes "length bs = n" and "8 * n \<le> LENGTH('a)"
  shows "le_bytes n (le_word bs :: 'a::len word) = bs"
proof (rule nth_equalityI)
  show "length (le_bytes n (le_word bs :: 'a word)) = length bs"
    using assms by simp
next
  fix i
  assume "i < length (le_bytes n (le_word bs :: 'a word))"
  then have i: "i < n" by simp
  show "le_bytes n (le_word bs :: 'a word) ! i = bs ! i"
  proof (rule bit_word_eqI)
    fix k :: nat
    assume "k < LENGTH(8)"
    then have "k < 8" by simp
    then have "(8 * i + k) div 8 = i" and "(8 * i + k) mod 8 = k" and "8 * i + k < 8 * n"
      using i by auto
    then show "bit (le_bytes n (le_word bs :: 'a word) ! i) k \<longleftrightarrow> bit (bs ! i) k"
      using i assms \<open>k < 8\<close> by (auto simp: le_bytes_def bit_byte_of bit_le_word)
  qed
qed

lemma be_bytes_be_word:
  assumes "length bs = n" and "8 * n \<le> LENGTH('a)"
  shows "be_bytes n (be_word bs :: 'a::len word) = bs"
  using assms by (simp add: be_bytes_def be_word_def le_bytes_le_word)

subsection \<open>Lists\<close>

lemma take_append_drop_take: "take m xs @ take n (drop m xs) = take (m + n) xs"
  by (simp add: take_add)

lemma sorted_wrt_filter_mono: "sorted_wrt P xs \<Longrightarrow> sorted_wrt P (filter Q xs)"
  by (induction xs) auto

end
