(* ===== verification/Kernel_Buffer.thy ===== *)
theory Kernel_Buffer
  imports Srs_Prelude
begin

text \<open>
  The byte buffer and the bit reader of \<open>kernel/srs_kernel_buffer.cpp\<close>.

  \<open>SrsBuffer\<close> is a cursor \<open>p_\<close> into a block of \<open>nb_bytes_\<close> bytes that it does not own. The record
  keeps the block as a list, the cursor as its offset from the start of the block and the declared
  size; a byte outside of the block is an \<open>UNDEFINED_READ\<close>. A value of a signed type is the word
  of its bits; its sign is read with \<open>sint\<close> where it matters. The buffer is built on a non-null
  pointer.
\<close>

section \<open>SrsBuffer\<close>

record SrsBuffer =
  buf_bytes :: "u8 list"
  buf_p :: int
  buf_nb :: int

definition SrsBuffer_new :: "u8 list \<Rightarrow> SrsBuffer" where
  "SrsBuffer_new b = \<lparr>buf_bytes = b, buf_p = 0, buf_nb = int (length b)\<rparr>"

definition buf_copy :: "SrsBuffer \<Rightarrow> SrsBuffer" where
  "buf_copy b = \<lparr>buf_bytes = buf_bytes b, buf_p = buf_p b, buf_nb = buf_nb b\<rparr>"

definition set_size :: "int \<Rightarrow> SrsBuffer \<Rightarrow> SrsBuffer" where
  "set_size v b = b\<lparr>buf_nb := v\<rparr>"

definition pos :: "SrsBuffer \<Rightarrow> int" where
  "pos b = buf_p b"

definition left :: "SrsBuffer \<Rightarrow> int" where
  "left b = buf_nb b - buf_p b"

definition buf_empty :: "SrsBuffer \<Rightarrow> bool" where
  "buf_empty b \<longleftrightarrow> buf_p b \<ge> buf_nb b"

definition require :: "int \<Rightarrow> SrsBuffer \<Rightarrow> bool" where
  "require required_size b \<longleftrightarrow>
     (if required_size < 0 then False else required_size \<le> buf_nb b - buf_p b)"

definition skip :: "int \<Rightarrow> SrsBuffer \<Rightarrow> SrsBuffer res" where
  "skip sz b =
     (if \<not> buf_p b + sz \<ge> 0 then Inl ASSERT_FAILED
      else if \<not> buf_p b + sz \<le> buf_nb b then Inl ASSERT_FAILED
      else Inr (b\<lparr>buf_p := buf_p b + sz\<rparr>))"

text \<open>The bytes at the cursor, \<open>*p_++\<close> repeated \<open>n\<close> times after \<open>srs_assert(require(n))\<close>.\<close>

definition next_bytes :: "nat \<Rightarrow> SrsBuffer \<Rightarrow> (u8 list \<times> SrsBuffer) res" where
  "next_bytes n b =
     (if \<not> require (int n) b then Inl ASSERT_FAILED
      else if buf_p b < 0 \<or> nat (buf_p b) + n > length (buf_bytes b) then Inl UNDEFINED_READ
      else Inr (take n (drop (nat (buf_p b)) (buf_bytes b)), b\<lparr>buf_p := buf_p b + int n\<rparr>))"

text \<open>\<open>*p_++ = \<dots>\<close> repeated for the bytes given, after the same assertion.\<close>

definition put_bytes :: "u8 list \<Rightarrow> SrsBuffer \<Rightarrow> SrsBuffer res" where
  "put_bytes vs b =
     (if \<not> require (int (length vs)) b then Inl ASSERT_FAILED
      else if buf_p b < 0 \<or> nat (buf_p b) + length vs > length (buf_bytes b) then Inl UNDEFINED_READ
      else Inr (b\<lparr>buf_bytes := take (nat (buf_p b)) (buf_bytes b) @ vs @
                              drop (nat (buf_p b) + length vs) (buf_bytes b),
                  buf_p := buf_p b + int (length vs)\<rparr>))"

definition read_be :: "nat \<Rightarrow> SrsBuffer \<Rightarrow> ('a::len word \<times> SrsBuffer) res" where
  "read_be n b = res_bind (next_bytes n b) (\<lambda>(bs, b'). Inr (be_word bs, b'))"

definition read_le :: "nat \<Rightarrow> SrsBuffer \<Rightarrow> ('a::len word \<times> SrsBuffer) res" where
  "read_le n b = res_bind (next_bytes n b) (\<lambda>(bs, b'). Inr (le_word bs, b'))"

definition read_1bytes :: "SrsBuffer \<Rightarrow> (u8 \<times> SrsBuffer) res" where
  "read_1bytes b = read_be 1 b"

definition read_2bytes :: "SrsBuffer \<Rightarrow> (u16 \<times> SrsBuffer) res" where
  "read_2bytes b = read_be 2 b"

definition read_le2bytes :: "SrsBuffer \<Rightarrow> (u16 \<times> SrsBuffer) res" where
  "read_le2bytes b = read_le 2 b"

definition read_3bytes :: "SrsBuffer \<Rightarrow> (u32 \<times> SrsBuffer) res" where
  "read_3bytes b = read_be 3 b"

definition read_le3bytes :: "SrsBuffer \<Rightarrow> (u32 \<times> SrsBuffer) res" where
  "read_le3bytes b = read_le 3 b"

definition read_4bytes :: "SrsBuffer \<Rightarrow> (u32 \<times> SrsBuffer) res" where
  "read_4bytes b = read_be 4 b"

definition read_le4bytes :: "SrsBuffer \<Rightarrow> (u32 \<times> SrsBuffer) res" where
  "read_le4bytes b = read_le 4 b"

definition read_8bytes :: "SrsBuffer \<Rightarrow> (u64 \<times> SrsBuffer) res" where
  "read_8bytes b = read_be 8 b"

definition read_le8bytes :: "SrsBuffer \<Rightarrow> (u64 \<times> SrsBuffer) res" where
  "read_le8bytes b = read_le 8 b"

text \<open>\<open>read_string(len)\<close> and \<open>read_bytes(data, size)\<close> take an \<open>int\<close>; a negative one fails \<open>require\<close>.\<close>

definition read_string :: "int \<Rightarrow> SrsBuffer \<Rightarrow> (u8 list \<times> SrsBuffer) res" where
  "read_string len b = (if len < 0 then Inl ASSERT_FAILED else next_bytes (nat len) b)"

definition read_bytes :: "int \<Rightarrow> SrsBuffer \<Rightarrow> (u8 list \<times> SrsBuffer) res" where
  "read_bytes sz b = (if sz < 0 then Inl ASSERT_FAILED else next_bytes (nat sz) b)"

definition write_1bytes :: "u8 \<Rightarrow> SrsBuffer \<Rightarrow> SrsBuffer res" where
  "write_1bytes v b = put_bytes [v] b"

definition write_2bytes :: "u16 \<Rightarrow> SrsBuffer \<Rightarrow> SrsBuffer res" where
  "write_2bytes v b = put_bytes [byte_of v 1, byte_of v 0] b"

definition write_le2bytes :: "u16 \<Rightarrow> SrsBuffer \<Rightarrow> SrsBuffer res" where
  "write_le2bytes v b = put_bytes [byte_of v 0, byte_of v 1] b"

definition write_3bytes :: "u32 \<Rightarrow> SrsBuffer \<Rightarrow> SrsBuffer res" where
  "write_3bytes v b = put_bytes [byte_of v 2, byte_of v 1, byte_of v 0] b"

definition write_le3bytes :: "u32 \<Rightarrow> SrsBuffer \<Rightarrow> SrsBuffer res" where
  "write_le3bytes v b = put_bytes [byte_of v 0, byte_of v 1, byte_of v 2] b"

definition write_4bytes :: "u32 \<Rightarrow> SrsBuffer \<Rightarrow> SrsBuffer res" where
  "write_4bytes v b = put_bytes [byte_of v 3, byte_of v 2, byte_of v 1, byte_of v 0] b"

definition write_le4bytes :: "u32 \<Rightarrow> SrsBuffer \<Rightarrow> SrsBuffer res" where
  "write_le4bytes v b = put_bytes [byte_of v 0, byte_of v 1, byte_of v 2, byte_of v 3] b"

definition write_8bytes :: "u64 \<Rightarrow> SrsBuffer \<Rightarrow> SrsBuffer res" where
  "write_8bytes v b =
     put_bytes [byte_of v 7, byte_of v 6, byte_of v 5, byte_of v 4,
                byte_of v 3, byte_of v 2, byte_of v 1, byte_of v 0] b"

definition write_le8bytes :: "u64 \<Rightarrow> SrsBuffer \<Rightarrow> SrsBuffer res" where
  "write_le8bytes v b =
     put_bytes [byte_of v 0, byte_of v 1, byte_of v 2, byte_of v 3,
                byte_of v 4, byte_of v 5, byte_of v 6, byte_of v 7] b"

definition write_string :: "u8 list \<Rightarrow> SrsBuffer \<Rightarrow> SrsBuffer res" where
  "write_string value b = (if value = [] then Inr b else put_bytes value b)"

text \<open>\<open>write_bytes(data, size)\<close> copies the first \<open>size\<close> bytes of \<open>data\<close>.\<close>

definition write_bytes :: "u8 list \<Rightarrow> int \<Rightarrow> SrsBuffer \<Rightarrow> SrsBuffer res" where
  "write_bytes data sz b =
     (if sz \<le> 0 then Inr b
      else if \<not> require sz b then Inl ASSERT_FAILED
      else if nat sz > length data then Inl UNDEFINED_READ
      else put_bytes (take (nat sz) data) b)"

subsection \<open>Well-formed buffers\<close>

text \<open>The cursor lies inside the declared size, and the declared size inside the block.\<close>

definition buf_inv :: "SrsBuffer \<Rightarrow> bool" where
  "buf_inv b \<longleftrightarrow> 0 \<le> buf_p b \<and> buf_p b \<le> buf_nb b \<and> buf_nb b = int (length (buf_bytes b))"

text \<open>What is still to be read.\<close>

definition remaining :: "SrsBuffer \<Rightarrow> u8 list" where
  "remaining b = drop (nat (buf_p b)) (buf_bytes b)"

lemma buf_inv_new [simp]: "buf_inv (SrsBuffer_new bs)"
  by (simp add: buf_inv_def SrsBuffer_new_def)

lemma remaining_new [simp]: "remaining (SrsBuffer_new bs) = bs"
  by (simp add: remaining_def SrsBuffer_new_def)

lemma left_remaining: "buf_inv b \<Longrightarrow> left b = int (length (remaining b))"
  by (auto simp: buf_inv_def left_def remaining_def)

lemma buf_empty_remaining: "buf_inv b \<Longrightarrow> buf_empty b \<longleftrightarrow> remaining b = []"
  by (auto simp: buf_inv_def buf_empty_def remaining_def)

lemma require_remaining:
  "buf_inv b \<Longrightarrow> require n b \<longleftrightarrow> 0 \<le> n \<and> n \<le> int (length (remaining b))"
  by (auto simp: buf_inv_def require_def remaining_def)

lemma next_bytes_ok:
  assumes "buf_inv b" and "n \<le> length (remaining b)"
  shows "next_bytes n b = Inr (take n (remaining b), b\<lparr>buf_p := buf_p b + int n\<rparr>)"
    and "buf_inv (b\<lparr>buf_p := buf_p b + int n\<rparr>)"
    and "remaining (b\<lparr>buf_p := buf_p b + int n\<rparr>) = drop n (remaining b)"
  using assms
  by (auto simp: next_bytes_def require_def buf_inv_def remaining_def nat_add_distrib add.commute)

lemma next_bytes_short:
  "buf_inv b \<Longrightarrow> n > length (remaining b) \<Longrightarrow> next_bytes n b = Inl ASSERT_FAILED"
  by (simp add: next_bytes_def require_remaining)

lemma next_bytes_InrE:
  assumes "next_bytes n b = Inr (bs, b')" and "buf_inv b"
  obtains "n \<le> length (remaining b)" "bs = take n (remaining b)" "buf_inv b'"
    "remaining b' = drop n (remaining b)" "b' = b\<lparr>buf_p := buf_p b + int n\<rparr>"
  using assms next_bytes_ok [of b n] next_bytes_short [of b n] by (cases "n \<le> length (remaining b)") auto

lemma skip_ok:
  assumes "buf_inv b" and "n \<le> length (remaining b)"
  shows "skip (int n) b = Inr (b\<lparr>buf_p := buf_p b + int n\<rparr>)"
  using assms by (auto simp: skip_def buf_inv_def remaining_def)

lemma read_be_ok:
  assumes "buf_inv b" and "remaining b = be_bytes n w @ rest" and "8 * n = LENGTH('a)"
  shows "read_be n b = Inr (w :: 'a::len word, b\<lparr>buf_p := buf_p b + int n\<rparr>)"
  using assms next_bytes_ok(1) [of b n]
  by (simp add: read_be_def be_word_be_bytes take_bit_length_eq)

subsection \<open>Safety of every access\<close>

text \<open>
  A read of \<open>n\<close> bytes either delivers them, moving the cursor by \<open>n\<close> and leaving the block alone, or
  aborts on its assertion because fewer than \<open>n\<close> bytes are left. A write is dual.
\<close>

definition read_safe :: "int \<Rightarrow> SrsBuffer \<Rightarrow> ('v \<times> SrsBuffer) res \<Rightarrow> bool" where
  "read_safe n b r \<longleftrightarrow>
     (case r of Inr (v, b') \<Rightarrow> n \<le> left b \<and> buf_inv b' \<and> left b' = left b - n \<and> buf_bytes b' = buf_bytes b
      | Inl e \<Rightarrow> e = ASSERT_FAILED \<and> (n < 0 \<or> left b < n))"

definition write_safe :: "u8 list \<Rightarrow> SrsBuffer \<Rightarrow> SrsBuffer res \<Rightarrow> bool" where
  "write_safe vs b r \<longleftrightarrow>
     (case r of Inr b' \<Rightarrow> int (length vs) \<le> left b \<and> buf_inv b' \<and> pos b' = pos b + int (length vs) \<and>
        buf_bytes b' = take (nat (pos b)) (buf_bytes b) @ vs @ drop (nat (pos b) + length vs) (buf_bytes b)
      | Inl e \<Rightarrow> e = ASSERT_FAILED \<and> left b < int (length vs))"

lemma next_bytes_safe: "buf_inv b \<Longrightarrow> read_safe (int n) b (next_bytes n b)"
  using next_bytes_ok [of b n] next_bytes_short [of b n]
  by (cases "n \<le> length (remaining b)") (auto simp: read_safe_def left_remaining)

lemma read_safe_bind:
  "read_safe n b r \<Longrightarrow> read_safe n b (res_bind r (\<lambda>(bs, b'). Inr (f bs, b')))"
  by (cases r) (auto simp: read_safe_def split: prod.splits)

lemma read_be_safe: "buf_inv b \<Longrightarrow> read_safe (int n) b (read_be n b)"
  unfolding read_be_def by (intro read_safe_bind next_bytes_safe)

lemma read_le_safe: "buf_inv b \<Longrightarrow> read_safe (int n) b (read_le n b)"
  unfolding read_le_def by (intro read_safe_bind next_bytes_safe)

lemma put_bytes_safe: "buf_inv b \<Longrightarrow> write_safe vs b (put_bytes vs b)"
  by (auto simp: write_safe_def put_bytes_def require_def buf_inv_def left_def pos_def)

lemmas read_op_defs = read_1bytes_def read_2bytes_def read_le2bytes_def read_3bytes_def
  read_le3bytes_def read_4bytes_def read_le4bytes_def read_8bytes_def read_le8bytes_def
lemmas write_op_defs = write_1bytes_def write_2bytes_def write_le2bytes_def write_3bytes_def
  write_le3bytes_def write_4bytes_def write_le4bytes_def write_8bytes_def write_le8bytes_def

text \<open>
  Every read of an \<open>SrsBuffer\<close> with the cursor inside its block stays inside the block: it
  returns exactly the requested number of bytes and moves the cursor past them, or it stops at the
  assertion when too few bytes are left; it never reads outside of the block.
\<close>

theorem buffer_reads_in_bounds:
  assumes "buf_inv b"
  shows "read_safe 1 b (read_1bytes b) \<and> read_safe 2 b (read_2bytes b) \<and>
    read_safe 2 b (read_le2bytes b) \<and> read_safe 3 b (read_3bytes b) \<and>
    read_safe 3 b (read_le3bytes b) \<and> read_safe 4 b (read_4bytes b) \<and>
    read_safe 4 b (read_le4bytes b) \<and> read_safe 8 b (read_8bytes b) \<and>
    read_safe 8 b (read_le8bytes b) \<and> read_safe n b (read_string n b) \<and>
    read_safe n b (read_bytes n b)"
proof -
  have "read_safe n b (next_bytes (nat n) b)" if "0 \<le> n"
    using next_bytes_safe [OF assms, of "nat n"] that by simp
  then have "read_safe n b (read_string n b)" "read_safe n b (read_bytes n b)"
    by (auto simp: read_string_def read_bytes_def read_safe_def)
  then show ?thesis
    using read_be_safe [OF assms, of 1] read_be_safe [OF assms, of 2] read_be_safe [OF assms, of 3]
      read_be_safe [OF assms, of 4] read_be_safe [OF assms, of 8] read_le_safe [OF assms, of 2]
      read_le_safe [OF assms, of 3] read_le_safe [OF assms, of 4] read_le_safe [OF assms, of 8]
    by (simp add: read_op_defs)
qed

theorem buffer_reads_in_bounds_witness:
  "read_safe 4 (SrsBuffer_new [1, 2, 3, 4, 5]) (read_4bytes (SrsBuffer_new [1, 2, 3, 4, 5]))
   \<and> read_safe 8 (SrsBuffer_new [1, 2, 3, 4, 5]) (read_8bytes (SrsBuffer_new [1, 2, 3, 4, 5]))"
  using buffer_reads_in_bounds [of "SrsBuffer_new [1, 2, 3, 4, 5]" 0] by simp

subsection \<open>Round trips\<close>

lemma put_then_back:
  assumes "buf_inv b" and "int (length vs) \<le> left b"
  obtains b' b'' where "put_bytes vs b = Inr b'" "skip (- int (length vs)) b' = Inr b''"
    "next_bytes (length vs) b'' = Inr (vs, b')"
proof -
  let ?i = "nat (buf_p b)"
  let ?mem = "take ?i (buf_bytes b) @ vs @ drop (?i + length vs) (buf_bytes b)"
  let ?b' = "b\<lparr>buf_bytes := ?mem, buf_p := buf_p b + int (length vs)\<rparr>"
  let ?b'' = "b\<lparr>buf_bytes := ?mem\<rparr>"
  have "put_bytes vs b = Inr ?b'" and "skip (- int (length vs)) ?b' = Inr ?b''"
    and "next_bytes (length vs) ?b'' = Inr (vs, ?b')"
    using assms by (auto simp: put_bytes_def skip_def next_bytes_def require_def buf_inv_def left_def min_def)
  then show ?thesis using that by blast
qed

text \<open>Writing the bytes of a value, stepping back over them and reading with \<open>f\<close> gives \<open>w\<close>.\<close>

definition reads_back :: "SrsBuffer res \<Rightarrow> int \<Rightarrow> (SrsBuffer \<Rightarrow> ('v \<times> SrsBuffer) res) \<Rightarrow> 'v \<Rightarrow> bool" where
  "reads_back r n f w \<longleftrightarrow> (\<exists>b' b''. r = Inr b' \<and> skip (- n) b' = Inr b'' \<and> f b'' = Inr (w, b'))"

lemma reads_back_be:
  assumes "buf_inv b" and "int n \<le> left b"
  shows "reads_back (put_bytes (be_bytes n v) b) (int n) (read_be n) (take_bit (8 * n) v)"
  by (rule put_then_back [OF assms(1), of "be_bytes n v"])
     (use assms(2) in \<open>auto simp: reads_back_def read_be_def be_word_be_bytes\<close>)

lemma reads_back_le:
  assumes "buf_inv b" and "int n \<le> left b"
  shows "reads_back (put_bytes (le_bytes n v) b) (int n) (read_le n) (take_bit (8 * n) v)"
  by (rule put_then_back [OF assms(1), of "le_bytes n v"])
     (use assms(2) in \<open>auto simp: reads_back_def read_le_def le_word_le_bytes\<close>)

lemma upt_widths:
  "[0..<1] = [0]" "[0..<2] = [0, 1]" "[0..<3] = [0, 1, 2]" "[0..<4] = [0, 1, 2, 3]"
  "[0..<8] = [0, 1, 2, 3, 4, 5, 6, 7]"
  by (simp_all add: upt_rec)

lemma byte_of_u8: "byte_of (v :: u8) 0 = v"
  by (simp add: byte_of_def)

lemma take_bit_full: "take_bit 8 (v1 :: u8) = v1" "take_bit 16 (v2 :: u16) = v2"
  "take_bit 32 (v4 :: u32) = v4" "take_bit 64 (v8 :: u64) = v8"
  by (simp_all add: take_bit_word_eq_self)

text \<open>
  C22. A value written to an \<open>SrsBuffer\<close> is the value read back from the same place, in both byte
  orders and for every width; a three-byte value comes back as its low 24 bits.
\<close>

theorem buffer_write_read_roundtrip:
  assumes "buf_inv b" and "8 \<le> left b"
  shows "reads_back (write_1bytes v1 b) 1 read_1bytes v1 \<and>
    reads_back (write_2bytes v2 b) 2 read_2bytes v2 \<and>
    reads_back (write_le2bytes v2 b) 2 read_le2bytes v2 \<and>
    reads_back (write_3bytes v4 b) 3 read_3bytes (take_bit 24 v4) \<and>
    reads_back (write_le3bytes v4 b) 3 read_le3bytes (take_bit 24 v4) \<and>
    reads_back (write_4bytes v4 b) 4 read_4bytes v4 \<and>
    reads_back (write_le4bytes v4 b) 4 read_le4bytes v4 \<and>
    reads_back (write_8bytes v8 b) 8 read_8bytes v8 \<and>
    reads_back (write_le8bytes v8 b) 8 read_le8bytes v8"
  using reads_back_be [OF assms(1), of 1 v1] reads_back_be [OF assms(1), of 2 v2]
    reads_back_be [OF assms(1), of 3 v4] reads_back_be [OF assms(1), of 4 v4]
    reads_back_be [OF assms(1), of 8 v8] reads_back_le [OF assms(1), of 2 v2]
    reads_back_le [OF assms(1), of 3 v4] reads_back_le [OF assms(1), of 4 v4]
    reads_back_le [OF assms(1), of 8 v8] assms(2)
  by (simp add: write_op_defs read_op_defs [abs_def] be_bytes_def le_bytes_def upt_widths
      byte_of_u8 take_bit_full)

theorem buffer_write_read_roundtrip_witness:
  "reads_back (write_4bytes 0x12345678 (SrsBuffer_new [0, 0, 0, 0, 0, 0, 0, 0, 9])) 4 read_4bytes 0x12345678"
  using buffer_write_read_roundtrip [of "SrsBuffer_new [0, 0, 0, 0, 0, 0, 0, 0, 9]" _ _ "0x12345678"]
  by (simp add: left_def SrsBuffer_new_def buf_inv_def)

section \<open>SrsMemoryBlock\<close>

text \<open>An owned block; a null \<open>payload_\<close> is \<open>None\<close>.\<close>

record SrsMemoryBlock =
  mb_payload :: "u8 list option"
  mb_size :: int

definition SrsMemoryBlock_new :: SrsMemoryBlock where
  "SrsMemoryBlock_new = \<lparr>mb_payload = None, mb_size = 0\<rparr>"

definition mb_create :: "int \<Rightarrow> SrsMemoryBlock \<Rightarrow> SrsMemoryBlock res" where
  "mb_create sz m =
     (if \<not> sz \<ge> 0 then Inl ASSERT_FAILED
      else if sz > 0 then Inr (m\<lparr>mb_payload := Some (replicate (nat sz) 0), mb_size := sz\<rparr>)
      else Inr (m\<lparr>mb_payload := None, mb_size := 0\<rparr>))"

definition mb_create_from :: "u8 list option \<Rightarrow> int \<Rightarrow> SrsMemoryBlock \<Rightarrow> SrsMemoryBlock res" where
  "mb_create_from data sz m =
     (if \<not> sz \<ge> 0 then Inl ASSERT_FAILED
      else res_bind (mb_create sz m) (\<lambda>m'.
        case data of None \<Rightarrow> Inr m'
        | Some d \<Rightarrow>
            (if sz > 0
             then (if nat sz > length d then Inl UNDEFINED_READ
                   else Inr (m'\<lparr>mb_payload := Some (take (nat sz) d), mb_size := sz\<rparr>))
             else Inr m')))"

definition mb_attach :: "u8 list option \<Rightarrow> int \<Rightarrow> SrsMemoryBlock \<Rightarrow> SrsMemoryBlock res" where
  "mb_attach data sz m =
     (if \<not> sz \<ge> 0 then Inl ASSERT_FAILED else Inr (m\<lparr>mb_payload := data, mb_size := sz\<rparr>))"

text \<open>The size is the length of the block; \<open>attach\<close> trusts its caller for that.\<close>

definition mb_inv :: "SrsMemoryBlock \<Rightarrow> bool" where
  "mb_inv m \<longleftrightarrow> mb_size m = (case mb_payload m of None \<Rightarrow> 0 | Some d \<Rightarrow> int (length d))"

lemma mb_inv_new: "mb_inv SrsMemoryBlock_new"
  by (simp add: mb_inv_def SrsMemoryBlock_new_def)

lemma mb_inv_create: "mb_create sz m = Inr m' \<Longrightarrow> mb_inv m'"
  by (auto simp: mb_create_def mb_inv_def split: if_splits)

lemma mb_inv_create_from: "mb_create_from data sz m = Inr m' \<Longrightarrow> mb_inv m'"
  by (auto simp: mb_create_from_def mb_create_def mb_inv_def split: if_splits option.splits)

end
