(* ===== verification/Kernel_Bit_Buffer.thy ===== *)
theory Kernel_Bit_Buffer
  imports Kernel_Buffer
begin

text \<open>
  \<open>SrsBitBuffer\<close> of \<open>kernel/srs_kernel_buffer.cpp\<close>: a bit cursor on top of an \<open>SrsBuffer\<close>, with the
  Exp-Golomb readers \<open>read_bits_ue\<close> and \<open>read_bits_se\<close>. The current byte \<open>cb_\<close> still holds
  \<open>cb_left_\<close> unread low bits. The contract is stated on the sequence of unread bits \<open>bits_of\<close>.
\<close>

section \<open>SrsBitBuffer\<close>

record SrsBitBuffer =
  cb :: u8
  cb_left :: nat
  stream :: SrsBuffer

definition SrsBitBuffer_new :: "SrsBuffer \<Rightarrow> SrsBitBuffer" where
  "SrsBitBuffer_new b = \<lparr>cb = 0, cb_left = 0, stream = b\<rparr>"

definition bit_empty :: "SrsBitBuffer \<Rightarrow> bool" where
  "bit_empty s = (if cb_left s \<noteq> 0 then False else buf_empty (stream s))"

definition left_bits :: "SrsBitBuffer \<Rightarrow> int" where
  "left_bits s = int (cb_left s) + left (stream s) * 8"

definition require_bits :: "int \<Rightarrow> SrsBitBuffer \<Rightarrow> bool" where
  "require_bits n s = (if n < 0 then False else n \<le> left_bits s)"

definition fetch_byte :: "SrsBitBuffer \<Rightarrow> SrsBitBuffer res" where
  "fetch_byte s =
     (if cb_left s = 0
      then (if buf_empty (stream s) then Inl ASSERT_FAILED
            else res_bind (read_1bytes (stream s))
                   (\<lambda>(x, b). Inr (s\<lparr>cb := x, cb_left := 8, stream := b\<rparr>)))
      else Inr s)"

definition read_bit :: "SrsBitBuffer \<Rightarrow> (u8 \<times> SrsBitBuffer) res" where
  "read_bit s = res_bind (fetch_byte s)
     (\<lambda>t. Inr (drop_bit (cb_left t - 1) (cb t) AND 1, t\<lparr>cb_left := cb_left t - 1\<rparr>))"

primrec skip_bits_loop :: "nat \<Rightarrow> SrsBitBuffer \<Rightarrow> SrsBitBuffer res" where
  "skip_bits_loop 0 s = Inr s"
| "skip_bits_loop (Suc k) s = res_bind (read_bit s) (\<lambda>(_, t). skip_bits_loop k t)"

definition skip_bits :: "int \<Rightarrow> SrsBitBuffer \<Rightarrow> SrsBitBuffer res" where
  "skip_bits n s = (if \<not> n \<le> left_bits s then Inl ASSERT_FAILED else skip_bits_loop (nat n) s)"

text \<open>The loop of \<open>read_bits\<close>; \<open>Suc k\<close> is \<open>n - i\<close>, the bit goes to position \<open>n - i - 1\<close>.\<close>

primrec read_bits_loop :: "nat \<Rightarrow> u32 \<Rightarrow> SrsBitBuffer \<Rightarrow> (u32 \<times> SrsBitBuffer) res" where
  "read_bits_loop 0 v s = Inr (v, s)"
| "read_bits_loop (Suc k) v s =
     res_bind (read_bit s) (\<lambda>(x, t). read_bits_loop k (v OR push_bit k (ucast x)) t)"

definition read_bits :: "int \<Rightarrow> SrsBitBuffer \<Rightarrow> (u32 \<times> SrsBitBuffer) res" where
  "read_bits n s = (if \<not> n \<le> left_bits s then Inl ASSERT_FAILED else read_bits_loop (nat n) 0 s)"

definition read_8bits :: "SrsBitBuffer \<Rightarrow> (u8 \<times> SrsBitBuffer) res" where
  "read_8bits s =
     (if cb_left s = 0
      then (if buf_empty (stream s) then Inl ASSERT_FAILED
            else res_bind (read_1bytes (stream s)) (\<lambda>(x, b). Inr (x, s\<lparr>stream := b\<rparr>)))
      else res_bind (read_bits 8 s) (\<lambda>(v, t). Inr (ucast v, t)))"

definition read_16bits :: "SrsBitBuffer \<Rightarrow> (u16 \<times> SrsBitBuffer) res" where
  "read_16bits s =
     (if cb_left s = 0
      then (if buf_empty (stream s) then Inl ASSERT_FAILED
            else res_bind (read_2bytes (stream s)) (\<lambda>(x, b). Inr (x, s\<lparr>stream := b\<rparr>)))
      else res_bind (read_bits 16 s) (\<lambda>(v, t). Inr (ucast v, t)))"

definition read_32bits :: "SrsBitBuffer \<Rightarrow> (u32 \<times> SrsBitBuffer) res" where
  "read_32bits s =
     (if cb_left s = 0
      then (if buf_empty (stream s) then Inl ASSERT_FAILED
            else res_bind (read_4bytes (stream s)) (\<lambda>(x, b). Inr (x, s\<lparr>stream := b\<rparr>)))
      else read_bits 32 s)"

lemma read_bit_measure:
  assumes "read_bit s = Inr (x, t)" and "\<not> bit_empty s"
  shows "cb_left t + 8 * nat (left (stream t)) < cb_left s + 8 * nat (left (stream s))"
  using assms
  by (auto simp: read_bit_def fetch_byte_def bit_empty_def buf_empty_def read_1bytes_def read_be_def
      next_bytes_def left_def res_bind_Inr_iff split: if_splits prod.splits)

text \<open>The first loop of \<open>read_bits_ue\<close>: \<open>for (int8_t b = 0; !b && !empty(); leadingZeroBits++)\<close>.\<close>

function (sequential) ue_zeros :: "int \<Rightarrow> u8 \<Rightarrow> SrsBitBuffer \<Rightarrow> (int \<times> SrsBitBuffer) res" where
  "ue_zeros leadingZeroBits x s =
     (if x = 0 \<and> \<not> bit_empty s
      then (case read_bit s of Inl e \<Rightarrow> Inl e
            | Inr (x', t) \<Rightarrow> ue_zeros (leadingZeroBits + 1) x' t)
      else Inr (leadingZeroBits, s))"
  by pat_completeness auto
termination
  by (relation "measure (\<lambda>(z, x, s). cb_left s + 8 * nat (left (stream s)))")
     (auto intro: read_bit_measure)

declare ue_zeros.simps [simp del]

text \<open>The suffix loop; \<open>Suc k\<close> is \<open>leadingZeroBits - i\<close>.\<close>

primrec ue_suffix :: "nat \<Rightarrow> u32 \<Rightarrow> SrsBitBuffer \<Rightarrow> (u32 \<times> SrsBitBuffer) res" where
  "ue_suffix 0 v s = Inr (v, s)"
| "ue_suffix (Suc k) v s =
     (if bit_empty s then Inl ERROR_HEVC_NALU_UEV
      else res_bind (read_bit s) (\<lambda>(x, t). ue_suffix k (v + push_bit k (ucast x)) t))"

definition read_bits_ue :: "SrsBitBuffer \<Rightarrow> (u32 \<times> SrsBitBuffer) res" where
  "read_bits_ue s =
     (if bit_empty s then Inl ERROR_HEVC_NALU_UEV
      else res_bind (ue_zeros (-1) 0 s) (\<lambda>(leadingZeroBits, t).
        if leadingZeroBits \<ge> 31 then Inl ERROR_HEVC_NALU_UEV
        else ue_suffix (nat leadingZeroBits) (push_bit (nat leadingZeroBits) 1 - 1) t))"

definition read_bits_se :: "SrsBitBuffer \<Rightarrow> (u32 \<times> SrsBitBuffer) res" where
  "read_bits_se s =
     (if bit_empty s then Inl ERROR_HEVC_NALU_SEV
      else res_bind (read_bits_ue s) (\<lambda>(val, t).
        if val AND 1 \<noteq> 0 then Inr ((val + 1) div 2, t) else Inr (- (val div 2), t)))"

section \<open>The bit sequence\<close>

definition byte_bits :: "u8 \<Rightarrow> bool list" where
  "byte_bits x = map (bit x) (rev [0..<8])"

definition bits_of :: "SrsBitBuffer \<Rightarrow> bool list" where
  "bits_of s = map (bit (cb s)) (rev [0..<cb_left s]) @ concat (map byte_bits (remaining (stream s)))"

definition bit_inv :: "SrsBitBuffer \<Rightarrow> bool" where
  "bit_inv s \<longleftrightarrow> cb_left s \<le> 8 \<and> buf_inv (stream s)"

lemma bit_inv_new [simp]: "buf_inv b \<Longrightarrow> bit_inv (SrsBitBuffer_new b)"
  by (simp add: bit_inv_def SrsBitBuffer_new_def)

lemma bits_of_new: "bits_of (SrsBitBuffer_new b) = concat (map byte_bits (remaining b))"
  by (simp add: bits_of_def SrsBitBuffer_new_def)

lemma byte_bits_Cons: "byte_bits x = bit x 7 # map (bit x) (rev [0..<7])"
  by (simp add: byte_bits_def upt_rec numeral_eq_Suc)

lemma length_byte_bits [simp]: "length (byte_bits x) = 8"
  by (simp add: byte_bits_def)

lemma length_concat_byte_bits: "length (concat (map byte_bits bs)) = 8 * length bs"
  by (induction bs) auto

lemma left_bits_length: "bit_inv s \<Longrightarrow> left_bits s = int (length (bits_of s))"
  by (simp add: left_bits_def bits_of_def bit_inv_def left_remaining length_concat_byte_bits)

lemma bit_empty_iff: "bit_inv s \<Longrightarrow> bit_empty s \<longleftrightarrow> bits_of s = []"
  by (cases "remaining (stream s)")
     (auto simp: bit_empty_def bits_of_def bit_inv_def buf_empty_remaining byte_bits_def)

lemma and_one_of_bool: "w AND 1 = of_bool (bit w 0)" for w :: "'a::len word"
  by (rule bit_word_eqI) (auto simp: bit_and_iff bit_1_iff intro: gr0I)

lemma read_1bytes_ok:
  assumes "buf_inv b" and "remaining b = x # xs"
  shows "read_1bytes b = Inr (x, b\<lparr>buf_p := buf_p b + 1\<rparr>)"
    and "buf_inv (b\<lparr>buf_p := buf_p b + 1\<rparr>)" and "remaining (b\<lparr>buf_p := buf_p b + 1\<rparr>) = xs"
  using assms next_bytes_ok [of b 1]
  by (simp_all add: read_1bytes_def read_be_def be_word_def)

lemma read_bit_ok:
  assumes inv: "bit_inv s" and bits: "bits_of s = x # xs"
  obtains t where "read_bit s = Inr (of_bool x, t)" "bit_inv t" "bits_of t = xs"
proof (cases "cb_left s")
  case 0
  with bits obtain y ys where rem: "remaining (stream s) = y # ys"
    by (cases "remaining (stream s)") (auto simp: bits_of_def)
  have b: "buf_inv (stream s)" using inv by (simp add: bit_inv_def)
  have ne: "\<not> buf_empty (stream s)" using rem by (simp add: buf_empty_remaining [OF b])
  let ?b = "(stream s)\<lparr>buf_p := buf_p (stream s) + 1\<rparr>"
  let ?t = "s\<lparr>cb := y, cb_left := 7, stream := ?b\<rparr>"
  have "bits_of s = bit y 7 # map (bit y) (rev [0..<7]) @ concat (map byte_bits ys)"
    using 0 rem by (simp add: bits_of_def byte_bits_Cons)
  then have "x = bit y 7" and "xs = bits_of ?t"
    using bits by (auto simp: bits_of_def read_1bytes_ok(3) [OF b rem])
  moreover have "read_bit s = Inr (of_bool (bit y 7), ?t)"
    using 0 ne by (simp add: read_bit_def fetch_byte_def read_1bytes_ok(1) [OF b rem]
        and_one_of_bool bit_drop_bit_eq)
  moreover have "bit_inv ?t" by (simp add: bit_inv_def read_1bytes_ok(2) [OF b rem])
  ultimately show ?thesis using that by blast
next
  case (Suc k)
  let ?t = "s\<lparr>cb_left := k\<rparr>"
  have "bits_of s = bit (cb s) k # bits_of ?t"
    using Suc by (simp add: bits_of_def)
  moreover have "read_bit s = Inr (of_bool (bit (cb s) k), ?t)"
    using Suc by (simp add: read_bit_def fetch_byte_def and_one_of_bool bit_drop_bit_eq)
  moreover have "bit_inv ?t" using inv Suc by (simp add: bit_inv_def)
  ultimately show ?thesis using bits that by auto
qed

section \<open>Reading bits and Exp-Golomb codes\<close>

text \<open>The number whose binary digits are given, most significant first.\<close>

fun bits_val :: "bool list \<Rightarrow> nat" where
  "bits_val [] = 0"
| "bits_val (x # xs) = of_bool x * 2 ^ length xs + bits_val xs"

lemma bits_val_less: "bits_val xs < 2 ^ length xs"
  by (induction xs) auto

lemma read_bits_loop_ok:
  assumes "bit_inv s" and "bits_of s = xs @ rest" and "k = length xs" and "k \<le> 32"
    and "take_bit k v = 0"
  shows "\<exists>t. read_bits_loop k v s = Inr (v + of_nat (bits_val xs), t) \<and> bit_inv t \<and> bits_of t = rest"
  using assms
proof (induction xs arbitrary: k s v)
  case Nil
  then show ?case by simp
next
  case (Cons x xs)
  then obtain j where k: "k = Suc j" and j: "j = length xs" by simp
  obtain t where t: "read_bit s = Inr (of_bool x, t)" "bit_inv t" "bits_of t = xs @ rest"
    using read_bit_ok [OF Cons.prems(1)] Cons.prems(2) by (metis append_Cons)
  let ?w = "push_bit j (ucast (of_bool x :: u8)) :: u32"
  have vbits: "\<not> bit v i" if "i < k" for i
    using Cons.prems(5) that by (metis bit_take_bit_iff bit_0_eq bot_apply bot_bool_def)
  have w: "bit ?w i \<longleftrightarrow> x \<and> i = j" if "i < 32" for i
    using that by (auto simp: bit_push_bit_iff bit_ucast_iff bit_1_iff)
  have "v AND ?w = 0"
    by (rule bit_word_eqI) (use vbits w k in \<open>auto simp: bit_and_iff\<close>)
  then have sum: "v OR ?w = v + ?w" by (simp add: disjunctive_add_eq_or)
  have "take_bit j (v OR ?w) = 0"
    by (rule bit_word_eqI) (use vbits w k in \<open>auto simp: bit_take_bit_iff bit_or_iff\<close>)
  with Cons.IH [of t j "v OR ?w"] t Cons.prems(4) j k
  obtain u where u: "read_bits_loop j (v OR ?w) t = Inr ((v OR ?w) + of_nat (bits_val xs), u)"
    "bit_inv u" "bits_of u = rest" by auto
  have "?w = of_bool x * 2 ^ j" by (cases x) (simp_all add: push_bit_eq_mult)
  then have "(v OR ?w) + of_nat (bits_val xs) = v + of_nat (bits_val (x # xs))"
    using sum j by simp
  with u t k show ?case by simp
qed

lemma read_bits_ok:
  assumes "bit_inv s" and "bits_of s = xs @ rest" and "length xs \<le> 32"
  obtains t where "read_bits (int (length xs)) s = Inr (of_nat (bits_val xs), t)"
    "bit_inv t" "bits_of t = rest"
proof -
  have "int (length xs) \<le> left_bits s"
    using assms(2) by (simp add: left_bits_length [OF assms(1)])
  then show ?thesis
    using read_bits_loop_ok [OF assms(1,2) refl assms(3), of 0] that by (auto simp: read_bits_def)
qed

lemma ue_zeros_ok:
  assumes "bit_inv s" and "bits_of s = replicate z False @ True # rest"
  shows "\<exists>t. ue_zeros n 0 s = Inr (n + int z + 1, t) \<and> bit_inv t \<and> bits_of t = rest"
  using assms
proof (induction z arbitrary: n s)
  case 0
  obtain t where "read_bit s = Inr (1, t)" "bit_inv t" "bits_of t = rest"
    using read_bit_ok [OF "0.prems"(1)] "0.prems"(2) by (metis append_Nil of_bool_eq(2) replicate_0)
  with 0 show ?case
    by (simp add: ue_zeros.simps [of n 0 s] ue_zeros.simps [of "n + 1" 1] bit_empty_iff)
next
  case (Suc z)
  obtain t where t: "read_bit s = Inr (0, t)" "bit_inv t"
    "bits_of t = replicate z False @ True # rest"
    using read_bit_ok [OF Suc.prems(1)] Suc.prems(2)
    by (metis append_Cons of_bool_eq(1) replicate_Suc)
  from Suc.IH [OF t(2,3), of "n + 1"] t(1) Suc.prems show ?case
    by (auto simp: ue_zeros.simps [of n 0 s] bit_empty_iff)
qed

lemma ue_suffix_ok:
  assumes "bit_inv s" and "bits_of s = xs @ rest" and "k = length xs"
  shows "\<exists>t. ue_suffix k v s = Inr (v + of_nat (bits_val xs), t) \<and> bit_inv t \<and> bits_of t = rest"
  using assms
proof (induction xs arbitrary: k s v)
  case Nil
  then show ?case by simp
next
  case (Cons x xs)
  obtain t where t: "read_bit s = Inr (of_bool x, t)" "bit_inv t" "bits_of t = xs @ rest"
    using read_bit_ok [OF Cons.prems(1)] Cons.prems(2) by (metis append_Cons)
  let ?w = "push_bit (length xs) (ucast (of_bool x :: u8)) :: u32"
  obtain u where u: "ue_suffix (length xs) (v + ?w) t = Inr (v + ?w + of_nat (bits_val xs), u)"
    "bit_inv u" "bits_of u = rest"
    using Cons.IH [OF t(2,3) refl] by blast
  have "?w = of_bool x * 2 ^ length xs" by (cases x) (simp_all add: push_bit_eq_mult)
  with u t Cons.prems show ?case by (simp add: bit_empty_iff)
qed

text \<open>What \<open>ue(v)\<close> of the comment in \<open>read_bits_ue\<close> says: \<open>z\<close> zeros, a one, and a suffix of \<open>z\<close> bits.\<close>

lemma read_bits_ue_ok:
  assumes "bit_inv s" and "bits_of s = replicate z False @ True # xs @ rest"
    and "length xs = z" and "z \<le> 30"
  obtains t where "read_bits_ue s = Inr (of_nat (2 ^ z - 1 + bits_val xs), t)"
    "bit_inv t" "bits_of t = rest"
proof -
  obtain t where t: "ue_zeros (-1) 0 s = Inr (int z, t)" "bit_inv t" "bits_of t = xs @ rest"
    using ue_zeros_ok [OF assms(1,2), of "-1"] by auto
  obtain u where "ue_suffix z (push_bit z 1 - 1) t = Inr (push_bit z 1 - 1 + of_nat (bits_val xs), u)"
    "bit_inv u" "bits_of u = rest"
    using ue_suffix_ok [OF t(2,3)] assms(3) by metis
  moreover have "push_bit z 1 - 1 + of_nat (bits_val xs) = (of_nat (2 ^ z - 1 + bits_val xs) :: u32)"
    unfolding of_nat_add by (subst of_nat_diff) (simp_all add: push_bit_eq_mult)
  ultimately show ?thesis
    using that t(1) assms by (simp add: read_bits_ue_def bit_empty_iff)
qed

text \<open>The code word of \<open>n\<close>, by the binary digits of \<open>n + 1\<close>.\<close>

fun nat_bits :: "nat \<Rightarrow> bool list" where
  "nat_bits n = (if n \<le> 1 then [] else nat_bits (n div 2) @ [odd n])"

declare nat_bits.simps [simp del]

definition ue_encode :: "nat \<Rightarrow> bool list" where
  "ue_encode n = replicate (length (nat_bits (Suc n))) False @ True # nat_bits (Suc n)"

lemma bits_val_snoc: "bits_val (xs @ [x]) = 2 * bits_val xs + of_bool x"
  by (induction xs) (auto simp: algebra_simps)

lemma nat_bits_val: "0 < n \<Longrightarrow> 2 ^ length (nat_bits n) + bits_val (nat_bits n) = n"
proof (induction n rule: nat_bits.induct)
  case (1 n)
  show ?case
  proof (cases "n \<le> 1")
    case True
    with "1.prems" show ?thesis by (simp add: nat_bits.simps [of n])
  next
    case False
    with "1.IH" have "2 ^ length (nat_bits (n div 2)) + bits_val (nat_bits (n div 2)) = n div 2"
      by simp
    moreover have "2 * (n div 2) + of_bool (odd n) = n" by simp
    ultimately show ?thesis using False
      by (simp add: nat_bits.simps [of n] bits_val_snoc)
  qed
qed

lemma length_nat_bits: "0 < n \<Longrightarrow> n < 2 ^ m \<Longrightarrow> length (nat_bits n) < m"
  using nat_bits_val [of n] power_less_imp_less_exp [of "2::nat" "length (nat_bits n)" m] by linarith

lemma of_nat_u32: "n < 2 ^ 32 \<Longrightarrow> unat (of_nat n :: u32) = n"
  by (simp add: unat_of_nat)

lemma read_bits_ue_encode:
  assumes "bit_inv s" and "bits_of s = ue_encode n @ rest" and "n < 2 ^ 31 - 1"
  obtains t where "read_bits_ue s = Inr (of_nat n, t)" "bit_inv t" "bits_of t = rest"
proof -
  let ?xs = "nat_bits (Suc n)"
  have "length ?xs < 31" using length_nat_bits [of "Suc n" 31] assms(3) by simp
  moreover have "bits_of s = replicate (length ?xs) False @ True # ?xs @ rest"
    using assms(2) by (simp add: ue_encode_def)
  moreover have "2 ^ length ?xs - 1 + bits_val ?xs = n"
    using nat_bits_val [of "Suc n"] by (metis Suc_inject add.commute add_diff_assoc add_diff_cancel_left'
        one_le_numeral one_le_power plus_1_eq_Suc zero_less_Suc)
  ultimately show ?thesis
    using read_bits_ue_ok [OF assms(1), of "length ?xs" ?xs rest] that by auto
qed

text \<open>
  \<open>read_bits(n)\<close>, for \<open>n\<close> up to 32, returns the number written by the next \<open>n\<close> bits, most
  significant first, across byte boundaries, and leaves exactly the bits after them.
\<close>

theorem read_bits_msb_first:
  assumes "bit_inv s" and "bits_of s = xs @ rest" and "length xs \<le> 32"
  shows "\<exists>t. read_bits (int (length xs)) s = Inr (of_nat (bits_val xs), t) \<and>
    bit_inv t \<and> bits_of t = rest \<and> unat (of_nat (bits_val xs) :: u32) = bits_val xs"
proof -
  have "bits_val xs < 2 ^ 32"
    using bits_val_less [of xs] power_increasing [OF assms(3), of "2::nat"] by simp
  then show ?thesis
    using read_bits_ok [OF assms] by (metis of_nat_u32)
qed

theorem read_bits_msb_first_witness:
  "\<exists>t. read_bits 3 (SrsBitBuffer_new (SrsBuffer_new [0xA5])) = Inr (5, t) \<and>
       bits_of t = [False, False, True, False, True]"
  using read_bits_msb_first [of "SrsBitBuffer_new (SrsBuffer_new [0xA5])" "[True, False, True]"
      "[False, False, True, False, True]"]
  by (simp add: bits_of_new byte_bits_def upt_rec) blast



text \<open>
  \<open>read_bits_se\<close> maps code number \<open>n\<close> to the signed value \<open>(n + 1) div 2\<close> when \<open>n\<close> is odd and
  \<open>-(n div 2)\<close> when it is even, as the table in the code's comment says.
\<close>

theorem read_bits_se_mapping:
  assumes "bit_inv s" and "bits_of s = ue_encode n @ rest" and "n < 2 ^ 31 - 1"
  shows "\<exists>v t. read_bits_se s = Inr (v, t) \<and>
    sint v = (if odd n then int ((n + 1) div 2) else - int (n div 2)) \<and> bits_of t = rest"
proof -
  obtain t where t: "read_bits_ue s = Inr (of_nat n, t)" "bits_of t = rest"
    using read_bits_ue_encode [OF assms] by metis
  let ?v = "of_nat n :: u32"
  have u: "unat ?v = n" using assms(3) by (simp add: of_nat_u32)
  have odd: "?v AND 1 \<noteq> 0 \<longleftrightarrow> odd n"
  proof -
    have "?v mod 2 = of_nat (n mod 2)" by (simp add: word_arith_nat_mod u)
    then show ?thesis by (cases "odd n") (simp_all add: and_one_eq odd_iff_mod_2_eq_one)
  qed
  have half: "?v div 2 = of_nat (n div 2)" "(?v + 1) div 2 = of_nat ((n + 1) div 2)"
    using assms(3) by (simp_all add: word_arith_nat_div u unat_word_ariths)
  have pos: "sint (of_nat m :: u32) = int m" if "m < 2 ^ 30" for m
    using that by (simp add: signed_of_nat signed_take_bit_int_eq_self)
  have neg: "sint (- of_nat m :: u32) = - int m" if "m < 2 ^ 30" for m
    using that signed_of_int [of "- int m", where 'a = int and 'b = 32]
    by (simp add: signed_take_bit_int_eq_self)
  have ne: "\<not> bit_empty s"
    using assms(1,2) by (simp add: bit_empty_iff ue_encode_def)
  have se: "read_bits_se s = Inr (if odd n then of_nat ((n + 1) div 2) else - of_nat (n div 2), t)"
    unfolding half [symmetric] using t(1) ne odd by (simp add: read_bits_se_def)
  have "(n + 1) div 2 < 2 ^ 30" "n div 2 < 2 ^ 30" using assms(3) by auto
  then have "sint (if odd n then of_nat ((n + 1) div 2) else - of_nat (n div 2) :: u32) =
      (if odd n then int ((n + 1) div 2) else - int (n div 2))"
    using pos neg by presburger
  then show ?thesis using se t(2) by blast
qed

theorem read_bits_se_mapping_witness:
  "\<exists>v t. read_bits_se (SrsBitBuffer_new (SrsBuffer_new [0x28])) = Inr (v, t) \<and> sint v = -2"
  using read_bits_se_mapping [of "SrsBitBuffer_new (SrsBuffer_new [0x28])" 4 "[False, False, False]"]
  by (simp add: bits_of_new byte_bits_def upt_rec ue_encode_def nat_bits.simps) blast

end
