(* ===== verification/Gf256.thy ===== *)
theory Gf256
  imports Srs_Prelude
begin

text \<open>
  The arithmetic of \<open>GF(2^8)\<close> in \<open>adapter/components/fec/fec_group_buffer.cpp\<close>: the logarithm and
  exponential tables that \<open>init_gf_tables\<close> fills, the table multiplication and the inverse. Every
  user calls \<open>init_gf_tables\<close> before it reads a table, so the tables are constants here.

  The contract of a field of bytes is the locale \<open>byte_field\<close>; it is interpreted on the table
  arithmetic, which is shown equal to carry-less multiplication modulo \<open>x^8 + x^4 + x^3 + x^2 + 1\<close>.
\<close>

section \<open>Tables\<close>

text \<open>\<open>val = (val << 1) ^ ((val & 0x80) ? 0x1D : 0)\<close>, cut to a byte.\<close>

definition gf_next :: "u8 \<Rightarrow> u8" where
  "gf_next val = push_bit 1 val XOR (if val AND 0x80 \<noteq> 0 then 0x1D else 0)"

text \<open>The first loop of \<open>init_gf_tables\<close>, over the indices given.\<close>

fun gf_fill :: "nat list \<Rightarrow> u8 \<Rightarrow> u8 list \<Rightarrow> u8 list \<Rightarrow> u8 list \<times> u8 list" where
  "gf_fill [] val e l = (e, l)"
| "gf_fill (i # is) val e l =
     (let val' = gf_next val in gf_fill is val' (e[i := val']) (l[unat val' := of_nat i]))"

text \<open>The second loop.\<close>

fun gf_copy :: "nat list \<Rightarrow> u8 list \<Rightarrow> u8 list" where
  "gf_copy [] e = e"
| "gf_copy (i # is) e = gf_copy is (e[i := e ! (i - 255)])"

definition init_gf_tables :: "u8 list \<times> u8 list" where
  "init_gf_tables =
     (let (e, l) = gf_fill [1..<255] 1 ((replicate 512 0)[0 := 1]) (replicate 256 0);
          e' = gf_copy [255..<512] (e[255 := e ! 0])
      in (e', l[0 := 255]))"

definition gf_exp_table :: "u8 list" where
  "gf_exp_table = fst init_gf_tables"

definition gf_log_table :: "u8 list" where
  "gf_log_table = snd init_gf_tables"

definition gf_mul_fast :: "u8 \<Rightarrow> u8 \<Rightarrow> u8" where
  "gf_mul_fast a b =
     (if a = 0 \<or> b = 0 then 0
      else if a = 1 then b
      else if b = 1 then a
      else (let sum = unat (gf_log_table ! unat a) + unat (gf_log_table ! unat b);
                sum' = (if sum \<ge> 255 then sum - 255 else sum)
            in gf_exp_table ! sum'))"

definition gf_inv :: "u8 \<Rightarrow> u8" where
  "gf_inv a =
     (if a = 0 then 0
      else if a = 1 then 1
      else gf_exp_table ! (255 - unat (gf_log_table ! unat a)))"

section \<open>The multiplicative group\<close>

text \<open>Powers of the generator \<open>alpha = 2\<close>.\<close>

definition alpha :: "nat \<Rightarrow> u8" where
  "alpha i = (gf_next ^^ i) 1"

lemma alpha_0 [simp]: "alpha 0 = 1"
  by (simp add: alpha_def)

lemma alpha_Suc: "alpha (Suc i) = gf_next (alpha i)"
  by (simp add: alpha_def)

lemma alpha_add: "alpha (i + j) = (gf_next ^^ i) (alpha j)"
  by (simp add: alpha_def funpow_add)

fun gf_orbit :: "nat \<Rightarrow> u8 \<Rightarrow> u8 list" where
  "gf_orbit 0 x = []"
| "gf_orbit (Suc n) x = x # gf_orbit n (gf_next x)"

lemma gf_orbit_nth: "i < n \<Longrightarrow> gf_orbit n x ! i = (gf_next ^^ i) x"
proof (induction n arbitrary: i x)
  case (Suc n)
  then show ?case by (cases i) (simp_all add: funpow_swap1)
qed simp

lemma length_gf_orbit [simp]: "length (gf_orbit n x) = n"
  by (induction n arbitrary: x) auto

lemma gf_orbit_255: "gf_orbit 256 1 ! 255 = 1"
  by code_simp

lemma gf_orbit_not_1: "1 \<notin> set (tl (gf_orbit 255 1))"
  by code_simp

lemma alpha_255 [simp]: "alpha 255 = 1"
  using gf_orbit_255 gf_orbit_nth [of 255 256 1] by (simp add: alpha_def)

lemma alpha_not_1: "0 < i \<Longrightarrow> i < 255 \<Longrightarrow> alpha i \<noteq> 1"
proof
  assume i: "0 < i" "i < 255" and "alpha i = 1"
  then have "gf_orbit 255 1 ! i = 1" by (simp add: gf_orbit_nth alpha_def)
  moreover have "gf_orbit 255 1 ! i = tl (gf_orbit 255 1) ! (i - 1)"
    using i by (simp add: nth_tl)
  moreover have "tl (gf_orbit 255 1) ! (i - 1) \<in> set (tl (gf_orbit 255 1))"
    using i by (intro nth_mem) simp
  ultimately show False using gf_orbit_not_1 by simp
qed

lemma alpha_period: "alpha (i + 255) = alpha i"
  by (simp add: alpha_add alpha_def [symmetric])

lemma alpha_mod: "alpha (i mod 255) = alpha i"
proof -
  have "alpha (i mod 255 + 255 * k) = alpha (i mod 255)" for k
  proof (induction k)
    case (Suc k)
    have "i mod 255 + 255 * Suc k = (i mod 255 + 255 * k) + 255" by simp
    then show ?case using Suc by (simp only: alpha_period)
  qed simp
  from this [of "i div 255"] show ?thesis by simp
qed

lemma alpha_inj: "i < 255 \<Longrightarrow> j < 255 \<Longrightarrow> alpha i = alpha j \<Longrightarrow> i = j"
proof (rule ccontr)
  have wlog: False if "i < j" "j < 255" "alpha i = alpha j" for i j
  proof -
    have "alpha ((255 - i) + i) = alpha ((255 - i) + j)"
      using that(3) by (simp only: alpha_add)
    moreover have "(255 - i) + j = (j - i) + 255" "(255 - i) + i = 255" using that by simp_all
    ultimately have "1 = alpha (j - i)" by (simp only: alpha_period alpha_255)
    then show False using alpha_not_1 [of "j - i"] that by simp
  qed
  assume "i < 255" "j < 255" "alpha i = alpha j" "i \<noteq> j"
  then show False using wlog [of i j] wlog [of j i] by (cases "i < j") auto
qed

lemma gf_next_0: "gf_next 0 = 0"
  by (simp add: gf_next_def)

lemma funpow_gf_next_0: "(gf_next ^^ n) 0 = 0"
  by (induction n) (simp_all add: gf_next_0)

lemma alpha_nonzero: "alpha i \<noteq> 0"
proof
  assume "alpha i = 0"
  then have "alpha (i mod 255) = 0" by (simp add: alpha_mod)
  then have "alpha (255 - i mod 255 + i mod 255) = 0"
    by (simp only: alpha_add funpow_gf_next_0)
  then show False by simp
qed

lemma alpha_surj:
  assumes "a \<noteq> 0"
  obtains i where "i < 255" "a = alpha i"
proof -
  have inj: "inj_on alpha {..<255}" by (auto intro!: inj_onI alpha_inj)
  have sub: "alpha ` {..<255} \<subseteq> UNIV - {0}" using alpha_nonzero by auto
  have "card (UNIV - {0} :: u8 set) = 255" by (simp add: card_word)
  then have "alpha ` {..<255} = UNIV - {0}"
    using sub inj by (intro card_subset_eq) (simp_all add: card_image)
  then have "a \<in> alpha ` {..<255}" using assms by simp
  then show ?thesis using that by auto
qed

section \<open>What the tables hold\<close>

lemma length_gf_fill [simp]:
  "length (fst (gf_fill is v e l)) = length e" "length (snd (gf_fill is v e l)) = length l"
  by (induction "is" v e l rule: gf_fill.induct) (simp_all add: Let_def)

lemma gf_fill_exp:
  "Suc a + n \<le> length e \<Longrightarrow>
     fst (gf_fill [Suc a..<Suc a + n] (alpha a) e l) ! i =
       (if a < i \<and> i \<le> a + n then alpha i else e ! i)"
proof (induction n arbitrary: a e l)
  case (Suc n)
  have up: "[Suc a..<Suc a + Suc n] = Suc a # [Suc (Suc a)..<Suc (Suc a) + n]"
    by (simp add: upt_conv_Cons)
  have "fst (gf_fill [Suc (Suc a)..<Suc (Suc a) + n] (alpha (Suc a)) (e[Suc a := alpha (Suc a)]) l') ! i =
      (if Suc a < i \<and> i \<le> Suc a + n then alpha i else e[Suc a := alpha (Suc a)] ! i)" for l'
    using Suc.prems by (intro Suc.IH) simp
  then show ?case
    using Suc.prems unfolding up by (auto simp: Let_def alpha_Suc [symmetric] nth_list_update)
qed auto

lemma gf_fill_log:
  "a + n < 255 \<Longrightarrow> length l = 256 \<Longrightarrow>
     (a < i \<and> i \<le> a + n \<longrightarrow>
        snd (gf_fill [Suc a..<Suc a + n] (alpha a) e l) ! unat (alpha i) = of_nat i) \<and>
     ((\<forall>i. a < i \<and> i \<le> a + n \<longrightarrow> alpha i \<noteq> x) \<longrightarrow>
        snd (gf_fill [Suc a..<Suc a + n] (alpha a) e l) ! unat x = l ! unat x)"
proof (induction n arbitrary: a e l i x)
  case (Suc n)
  have up: "[Suc a..<Suc a + Suc n] = Suc a # [Suc (Suc a)..<Suc (Suc a) + n]"
    by (simp add: upt_conv_Cons)
  let ?l = "l[unat (alpha (Suc a)) := of_nat (Suc a)]"
  note IH = Suc.IH [of "Suc a" ?l]
  have step: "gf_fill [Suc a..<Suc a + Suc n] (alpha a) e l =
      gf_fill [Suc (Suc a)..<Suc (Suc a) + n] (alpha (Suc a)) (e[Suc a := alpha (Suc a)]) ?l"
    unfolding up by (simp add: Let_def alpha_Suc)
  have len: "unat (alpha (Suc a)) < length l"
    using unsigned_less [of "alpha (Suc a)", where 'a = nat] Suc.prems by simp
  have first: "snd (gf_fill [Suc a..<Suc a + Suc n] (alpha a) e l) ! unat (alpha (Suc a)) = of_nat (Suc a)"
  proof -
    have "\<forall>j. Suc a < j \<and> j \<le> Suc a + n \<longrightarrow> alpha j \<noteq> alpha (Suc a)"
      using alpha_inj [of _ "Suc a"] Suc.prems by (metis add.commute add_Suc_right le_less_trans less_irrefl
          less_trans)
    then show ?thesis using IH Suc.prems len unfolding step by simp
  qed
  show ?case
  proof (intro conjI impI)
    assume i: "a < i \<and> i \<le> a + Suc n"
    show "snd (gf_fill [Suc a..<Suc a + Suc n] (alpha a) e l) ! unat (alpha i) = of_nat i"
    proof (cases "i = Suc a")
      case True
      then show ?thesis using first by simp
    next
      case False
      then show ?thesis using i IH Suc.prems unfolding step by simp
    qed
  next
    assume x: "\<forall>i. a < i \<and> i \<le> a + Suc n \<longrightarrow> alpha i \<noteq> x"
    then have "alpha (Suc a) \<noteq> x" by simp
    then have "?l ! unat x = l ! unat x" by (metis nth_list_update_neq word_unat_eq_iff)
    then show "snd (gf_fill [Suc a..<Suc a + Suc n] (alpha a) e l) ! unat x = l ! unat x"
      using x IH Suc.prems unfolding step by simp
  qed
qed auto

lemma gf_copy_nth: "i < a \<Longrightarrow> gf_copy [a..<b] e ! i = e ! i"
proof (induction "b - a" arbitrary: a e)
  case (Suc n)
  then have "[a..<b] = a # [Suc a..<b]" by (simp add: upt_conv_Cons)
  with Suc show ?case by simp
qed simp

lemma gf_exp_alpha: "i < 255 \<Longrightarrow> gf_exp_table ! i = alpha i"
proof -
  assume i: "i < 255"
  let ?e = "fst (gf_fill [1..<255] 1 ((replicate 512 0)[0 := 1]) (replicate 256 0))"
  have e: "?e ! j = alpha j" if "j < 255" for j
    using gf_fill_exp [of 0 254 "(replicate 512 0)[0 := 1]" "replicate 256 0" j] that
    by (cases "j = 0") simp_all
  have "gf_exp_table ! i = ?e[255 := ?e ! 0] ! i"
    using i by (simp add: gf_exp_table_def init_gf_tables_def Let_def split_beta gf_copy_nth)
  then show ?thesis using e i by simp
qed

lemma gf_exp_255: "gf_exp_table ! 255 = 1"
proof -
  let ?e = "fst (gf_fill [1..<255] 1 ((replicate 512 0)[0 := 1]) (replicate 256 0))"
  have "?e ! 0 = 1"
    using gf_fill_exp [of 0 254 "(replicate 512 0)[0 := 1]" "replicate 256 0" 0] by simp
  moreover have "[255..<512] = 255 # [256..<512::nat]" by (simp add: upt_conv_Cons)
  ultimately show ?thesis
    by (simp add: gf_exp_table_def init_gf_tables_def Let_def split_beta gf_copy_nth)
qed

lemma gf_log_alpha: "i < 255 \<Longrightarrow> gf_log_table ! unat (alpha i) = of_nat i"
proof -
  assume i: "i < 255"
  let ?l = "snd (gf_fill [1..<255] 1 ((replicate 512 0)[0 := 1]) (replicate 256 0))"
  have "?l ! unat (alpha i) = of_nat i"
  proof (cases "i = 0")
    case True
    have "\<forall>j. 0 < j \<and> j \<le> 254 \<longrightarrow> alpha j \<noteq> 1" using alpha_not_1 by simp
    then show ?thesis
      using gf_fill_log [of 0 254 "replicate 256 0" i "(replicate 512 0)[0 := 1]" 1] True by simp
  next
    case False
    then show ?thesis
      using gf_fill_log [of 0 254 "replicate 256 0" i "(replicate 512 0)[0 := 1]" 1] i by simp
  qed
  moreover have "unat (alpha i) \<noteq> 0" using alpha_nonzero [of i] by (simp add: unat_eq_zero)
  ultimately show ?thesis
    by (simp add: gf_log_table_def init_gf_tables_def Let_def split_beta)
qed

section \<open>Field laws\<close>

lemma unat_log_alpha: "i < 255 \<Longrightarrow> unat (gf_log_table ! unat (alpha i)) = i"
  by (simp add: gf_log_alpha unat_of_nat)

lemma gf_mul_alpha:
  assumes "i < 255" "j < 255"
  shows "gf_mul_fast (alpha i) (alpha j) = alpha (i + j)"
proof -
  have "alpha (i + j - 255) = alpha (i + j)" if "255 \<le> i + j"
    using alpha_period [of "i + j - 255"] that by simp
  moreover have "gf_exp_table ! (i + j - 255) = alpha (i + j - 255)" if "255 \<le> i + j"
    using assms that by (simp add: gf_exp_alpha)
  moreover have "alpha i = 1 \<longleftrightarrow> i = 0" "alpha j = 1 \<longleftrightarrow> j = 0"
    using alpha_not_1 assms by (metis alpha_0 gr0I)+
  ultimately show ?thesis
    using assms by (auto simp: gf_mul_fast_def alpha_nonzero unat_log_alpha Let_def gf_exp_alpha)
qed

lemma gf_mul_alpha': "gf_mul_fast (alpha i) (alpha j) = alpha (i + j)"
  using gf_mul_alpha [of "i mod 255" "j mod 255"] alpha_mod [of "i mod 255 + j mod 255"] alpha_mod
  by (simp add: mod_add_eq)

lemma and_0x80: "v AND 0x80 \<noteq> 0 \<longleftrightarrow> bit v 7" for v :: u8
  using and_exp_eq_0_iff_not_bit [of v 7] by simp

lemma gf_next_xor: "gf_next (x XOR y) = gf_next x XOR gf_next y"
  by (rule bit_word_eqI) (auto simp: gf_next_def and_0x80 bit_xor_iff bit_push_bit_iff)

lemma funpow_gf_next_xor: "(gf_next ^^ n) (x XOR y) = (gf_next ^^ n) x XOR (gf_next ^^ n) y"
  by (induction n) (simp_all add: gf_next_xor)

lemma gf_mul_funpow: "gf_mul_fast a (alpha j) = (gf_next ^^ j) a"
proof (cases "a = 0")
  case True
  then show ?thesis by (simp add: gf_mul_fast_def funpow_gf_next_0)
next
  case False
  then obtain i where "a = alpha i" using alpha_surj by blast
  then show ?thesis by (simp add: gf_mul_alpha' add.commute flip: alpha_add)
qed

lemma gf_mul_comm: "gf_mul_fast a b = gf_mul_fast b a"
  by (auto simp: gf_mul_fast_def add.commute Let_def)

lemma gf_mul_0 [simp]: "gf_mul_fast 0 b = 0" "gf_mul_fast a 0 = 0"
  by (simp_all add: gf_mul_fast_def)

lemma gf_mul_assoc: "gf_mul_fast (gf_mul_fast a b) c = gf_mul_fast a (gf_mul_fast b c)"
proof (cases "a = 0 \<or> b = 0 \<or> c = 0")
  case False
  then obtain i j k where "a = alpha i" "b = alpha j" "c = alpha k"
    using alpha_surj by metis
  then show ?thesis by (simp add: gf_mul_alpha' add.assoc)
qed auto

lemma gf_mul_1 [simp]: "gf_mul_fast 1 b = b" "gf_mul_fast a 1 = a"
  by (simp_all add: gf_mul_fast_def)

lemma gf_mul_distrib: "gf_mul_fast (a XOR a') b = gf_mul_fast a b XOR gf_mul_fast a' b"
proof (cases "b = 0")
  case False
  then obtain j where "b = alpha j" using alpha_surj by blast
  then show ?thesis by (simp add: gf_mul_funpow funpow_gf_next_xor)
qed simp

lemma gf_mul_inv: "a \<noteq> 0 \<Longrightarrow> gf_mul_fast a (gf_inv a) = 1"
proof -
  assume "a \<noteq> 0"
  then obtain i where i: "i < 255" "a = alpha i" using alpha_surj by blast
  show ?thesis
  proof (cases "i = 0")
    case True
    then show ?thesis using i by (simp add: gf_inv_def)
  next
    case False
    then have "gf_inv a = alpha (255 - i)"
      using i alpha_not_1 [of i] by (simp add: gf_inv_def alpha_nonzero unat_log_alpha gf_exp_alpha)
    then show ?thesis using i by (simp add: gf_mul_alpha')
  qed
qed

section \<open>Reference multiplication\<close>

text \<open>
  Schoolbook multiplication of polynomials over \<open>GF(2)\<close>: \<open>gf_next\<close> multiplies by \<open>x\<close> modulo the
  polynomial, and the product is the sum of \<open>x^i * b\<close> over the bits \<open>i\<close> of \<open>a\<close>.
\<close>

definition gf_mul_ref :: "u8 \<Rightarrow> u8 \<Rightarrow> u8" where
  "gf_mul_ref a b = foldr (XOR) (map (\<lambda>i. if bit a i then (gf_next ^^ i) b else 0) [0..<8]) 0"

lemma gf_orbit_8: "gf_orbit 8 1 = [1, 2, 4, 8, 16, 32, 64, 128]"
  by code_simp

lemma alpha_pow2: "i < 8 \<Longrightarrow> alpha i = 2 ^ i"
  using gf_orbit_nth [of i 8 1] unfolding gf_orbit_8 alpha_def
  by (auto simp: numeral_eq_Suc less_Suc_eq)

lemma funpow_foldr_xor:
  "(gf_next ^^ n) (foldr (XOR) xs 0) = foldr (XOR) (map (gf_next ^^ n) xs) 0"
  by (induction xs) (simp_all add: funpow_gf_next_0 funpow_gf_next_xor)

lemma bit_foldr_xor:
  "distinct is \<Longrightarrow> n < 8 \<Longrightarrow>
     bit (foldr (XOR) (map (\<lambda>i. if bit a i then 2 ^ i else 0) is) (0 :: u8)) n \<longleftrightarrow>
       n \<in> set is \<and> bit a n"
  by (induction "is") (auto simp: bit_xor_iff bit_exp_iff)

lemma byte_decompose: "foldr (XOR) (map (\<lambda>i. if bit a i then 2 ^ i else 0) [0..<8]) (0 :: u8) = a"
  by (rule bit_word_eqI) (simp add: bit_foldr_xor)

lemma gf_mul_ref_alpha: "gf_mul_ref a (alpha j) = (gf_next ^^ j) a"
proof -
  have comm: "(gf_next ^^ i) (alpha j) = (gf_next ^^ j) (alpha i)" for i
    by (metis add.commute alpha_add)
  have "gf_mul_ref a (alpha j) =
      foldr (XOR) (map (gf_next ^^ j) (map (\<lambda>i. if bit a i then 2 ^ i else 0) [0..<8])) 0"
    unfolding gf_mul_ref_def map_map
    by (intro arg_cong [where f = "\<lambda>xs. foldr (XOR) xs 0"] map_cong refl)
       (auto simp: comm alpha_pow2 funpow_gf_next_0)
  also have "\<dots> = (gf_next ^^ j) a"
    unfolding funpow_foldr_xor [symmetric] byte_decompose ..
  finally show ?thesis .
qed

text \<open>Evaluation uses the reference product instead of rebuilding the tables.\<close>

lemma gf_mul_fast_ref [code]: "gf_mul_fast a b = gf_mul_ref a b"
proof (cases "b = 0")
  case True
  have "foldr (XOR) (map (\<lambda>i. if bit a i then (gf_next ^^ i) 0 else 0) is) 0 = 0" for "is"
    by (induction "is") (simp_all add: funpow_gf_next_0)
  then show ?thesis using True by (simp add: gf_mul_ref_def)
next
  case False
  then obtain j where "b = alpha j" using alpha_surj by blast
  then show ?thesis by (simp add: gf_mul_funpow gf_mul_ref_alpha)
qed

text \<open>
  C10. The table multiplication of the FEC decoder is multiplication in \<open>GF(2^8)\<close> modulo
  \<open>x^8 + x^4 + x^3 + x^2 + 1\<close>, for every pair of bytes, and \<open>gf_inv\<close> is the inverse of every
  non-zero byte.
\<close>

theorem gf_tables_correct:
  "gf_mul_fast a b = gf_mul_ref a b \<and> (if a = 0 then gf_inv a = 0 else gf_mul_fast a (gf_inv a) = 1)"
  using gf_mul_inv gf_mul_fast_ref by (simp add: gf_inv_def)

section \<open>The contract of a byte field, and linear equations over it\<close>

text \<open>The scalar product of a row of coefficients with a vector.\<close>

fun dot :: "(u8 \<Rightarrow> u8 \<Rightarrow> u8) \<Rightarrow> u8 list \<Rightarrow> u8 list \<Rightarrow> u8" where
  "dot mul (a # r) (x # xs) = mul a x XOR dot mul r xs"
| "dot mul _ _ = 0"

lemma xor_eq_0: "x XOR y = 0 \<longleftrightarrow> x = y" for x y :: "'a::len word"
  by (auto simp: bit_eq_iff bit_xor_iff)

locale byte_field =
  fixes mul :: "u8 \<Rightarrow> u8 \<Rightarrow> u8"
    and inv :: "u8 \<Rightarrow> u8"
  assumes mul_comm: "mul a b = mul b a"
    and mul_assoc: "mul (mul a b) c = mul a (mul b c)"
    and mul_one: "mul 1 a = a"
    and mul_zero: "mul 0 a = 0"
    and mul_xor: "mul (a XOR b) c = mul a c XOR mul b c"
    and mul_inverse: "a \<noteq> 0 \<Longrightarrow> mul a (inv a) = 1"
begin

lemma mul_xor_right: "mul c (a XOR b) = mul c a XOR mul c b"
  using mul_xor mul_comm by metis

lemma mul_zero_right: "mul a 0 = 0"
  using mul_zero mul_comm by metis

lemma mul_one_right: "mul a 1 = a"
  using mul_one mul_comm by metis

lemma inv_nonzero: "a \<noteq> 0 \<Longrightarrow> inv a \<noteq> 0"
  using mul_inverse [of a] mul_zero_right [of a] by force

lemma mul_eq_0_iff: "mul a b = 0 \<longleftrightarrow> a = 0 \<or> b = 0"
proof
  assume "mul a b = 0"
  then have "mul (inv a) (mul a b) = 0" by (simp add: mul_zero_right)
  then show "a = 0 \<or> b = 0"
    by (metis mul_assoc mul_comm mul_inverse mul_one)
qed (auto simp: mul_zero mul_zero_right)

lemma dot_Nil [simp]: "dot mul [] xs = 0" "dot mul r [] = 0"
  by (cases r; simp)+

lemma dot_scale: "dot mul (map (mul c) r) xs = mul c (dot mul r xs)"
proof (induction r arbitrary: xs)
  case (Cons a r)
  then show ?case by (cases xs) (simp_all add: mul_xor_right mul_assoc mul_zero_right)
qed (simp add: mul_zero_right)

lemma dot_add_scaled:
  "length r = length p \<Longrightarrow>
     dot mul (map2 (\<lambda>a b. a XOR mul f b) r p) xs = dot mul r xs XOR mul f (dot mul p xs)"
proof (induction r p arbitrary: xs rule: list_induct2)
  case (Cons a r b p)
  then show ?case
    by (cases xs) (simp_all add: mul_zero_right mul_xor mul_xor_right mul_assoc ac_simps)
qed (simp add: mul_zero_right)

lemma dot_zero: "\<forall>a \<in> set r. a = 0 \<Longrightarrow> dot mul r xs = 0"
proof (induction r arbitrary: xs)
  case (Cons a r)
  then show ?case by (cases xs) (simp_all add: mul_zero)
qed simp

lemma dot_unit:
  "length r = length xs \<Longrightarrow> i < length r \<Longrightarrow> (\<And>j. j < length r \<Longrightarrow> r ! j = of_bool (j = i)) \<Longrightarrow>
     dot mul r xs = xs ! i"
proof (induction r xs arbitrary: i rule: list_induct2)
  case (Cons a r x xs)
  show ?case
  proof (cases i)
    case 0
    have "a = 1" using Cons.prems(2) [of 0] 0 by simp
    moreover have "\<forall>b \<in> set r. b = 0"
      using Cons.prems(2) [of "Suc _"] 0 by (auto simp: in_set_conv_nth)
    ultimately show ?thesis using 0 by (simp add: mul_one dot_zero)
  next
    case (Suc k)
    have "a = 0" using Cons.prems(2) [of 0] Suc by simp
    moreover have "r ! j = of_bool (j = k)" if "j < length r" for j
      using Cons.prems(2) [of "Suc j"] Suc that by simp
    then have "dot mul r xs = xs ! k" using Cons.prems(1) Suc by (intro Cons.IH) simp_all
    ultimately show ?thesis using Suc by (simp add: mul_zero)
  qed
qed simp

lemma dot_snoc: "length r = length xs \<Longrightarrow> dot mul (r @ [a]) (xs @ [x]) = dot mul r xs XOR mul a x"
  by (induction r xs rule: list_induct2) (simp_all add: ac_simps)

text \<open>A row of an augmented matrix holds for \<open>xs\<close> when its product with \<open>xs, 1\<close> vanishes.\<close>

lemma dot_augmented:
  "length r = length xs \<Longrightarrow> dot mul (r @ [b]) (xs @ [1]) = 0 \<longleftrightarrow> dot mul r xs = b"
  by (simp add: dot_snoc mul_one_right xor_eq_0)

end

interpretation gf: byte_field gf_mul_fast gf_inv
  by unfold_locales
     (fact gf_mul_comm gf_mul_assoc gf_mul_1(1) gf_mul_0(1) gf_mul_distrib gf_mul_inv)+

end
