(* ===== verification/Fec_Solver.thy ===== *)
theory Fec_Solver
  imports Gf256
begin

text \<open>
  The linear algebra of the Reed-Solomon repair in
  \<open>adapter/components/fec/fec_group_buffer.cpp\<close>: \<open>build_vandermonde_matrix\<close> and the Gauss-Jordan
  elimination of \<open>solve_linear_system\<close>, which solves one system per byte position. A matrix is the
  list of its rows; the augmented matrix of \<open>n\<close> unknowns has rows of \<open>n + 1\<close> bytes.
\<close>

section \<open>The code\<close>

definition vandermonde_entry :: "u32 \<Rightarrow> u32 \<Rightarrow> u8" where
  "vandermonde_entry avail_idx miss_idx =
     (let power = ucast ((avail_idx * miss_idx) mod 255) :: u8
      in if power = 0 then 1 else gf_exp_table ! unat power)"

text \<open>The row loop; it fails at the first row for which no received block is left.\<close>

fun vandermonde_rows :: "nat list \<Rightarrow> u32 list \<Rightarrow> u32 list \<Rightarrow> (u8 list list) res" where
  "vandermonde_rows [] avail miss = Inr []"
| "vandermonde_rows (i # is) avail miss =
     (if i \<ge> length avail then Inl ERROR_RTMP_MESSAGE_DECODE
      else res_bind (vandermonde_rows is avail miss)
             (\<lambda>rows. Inr (map (vandermonde_entry (avail ! i)) miss # rows)))"

definition build_vandermonde_matrix :: "u32 list \<Rightarrow> u32 list \<Rightarrow> (u8 list list) res" where
  "build_vandermonde_matrix available_indices missing_indices =
     (let num_unknowns = length missing_indices in
      if num_unknowns = 0 then Inl ERROR_RTMP_MESSAGE_DECODE
      else vandermonde_rows [0..<num_unknowns] available_indices missing_indices)"

text \<open>The pivot search: the first row below \<open>col\<close> with a non-zero entry, else row \<open>col\<close>.\<close>

fun find_pivot :: "nat \<Rightarrow> u8 list list \<Rightarrow> nat list \<Rightarrow> nat" where
  "find_pivot col aug [] = col"
| "find_pivot col aug (row # rows) =
     (if aug ! row ! col \<noteq> 0 then row else find_pivot col aug rows)"

definition normalize_row :: "nat \<Rightarrow> nat \<Rightarrow> u8 \<Rightarrow> u8 list \<Rightarrow> u8 list" where
  "normalize_row n col pivot_inv r =
     map (\<lambda>c. if c < col then r ! c else gf_mul_fast (r ! c) pivot_inv) [0..<n + 1]"

definition eliminate_row :: "nat \<Rightarrow> nat \<Rightarrow> u8 list \<Rightarrow> u8 list \<Rightarrow> u8 list" where
  "eliminate_row n col p r =
     (if r ! col \<noteq> 0
      then (let factor = r ! col in
            map (\<lambda>c. if c < col then r ! c else r ! c XOR gf_mul_fast factor (p ! c)) [0..<n + 1])
      else r)"

text \<open>One turn of the column loop.\<close>

definition gauss_column :: "nat \<Rightarrow> nat \<Rightarrow> u8 list list \<Rightarrow> (u8 list list) res" where
  "gauss_column n col aug =
     (let pivot_row = find_pivot col aug [col + 1..<n];
          aug1 = (if pivot_row \<noteq> col
                  then aug[col := aug ! pivot_row, pivot_row := aug ! col] else aug);
          pivot_val = aug1 ! col ! col
      in if pivot_val = 0 then Inl ERROR_RTMP_MESSAGE_DECODE
         else (let aug2 = (if pivot_val \<noteq> 1
                           then aug1[col := normalize_row n col (gf_inv pivot_val) (aug1 ! col)]
                           else aug1)
               in Inr (map (\<lambda>row. if row = col then aug2 ! row
                                  else eliminate_row n col (aug2 ! col) (aug2 ! row)) [0..<n])))"

fun gauss_loop :: "nat \<Rightarrow> nat list \<Rightarrow> u8 list list \<Rightarrow> (u8 list list) res" where
  "gauss_loop n [] aug = Inr aug"
| "gauss_loop n (col # cols) aug = res_bind (gauss_column n col aug) (gauss_loop n cols)"

text \<open>The system of one byte position.\<close>

definition augmented :: "nat \<Rightarrow> u8 list list \<Rightarrow> u8 list list \<Rightarrow> nat \<Rightarrow> u8 list list" where
  "augmented n matrix rhs byte_pos =
     map (\<lambda>i. map (\<lambda>j. matrix ! i ! j) [0..<n] @ [rhs ! i ! byte_pos]) [0..<n]"

definition solve_byte :: "nat \<Rightarrow> u8 list list \<Rightarrow> u8 list list \<Rightarrow> nat \<Rightarrow> u8 list res" where
  "solve_byte n matrix rhs byte_pos =
     res_bind (gauss_loop n [0..<n] (augmented n matrix rhs byte_pos))
       (\<lambda>aug. Inr (map (\<lambda>i. aug ! i ! n) [0..<n]))"

fun solve_bytes :: "nat \<Rightarrow> u8 list list \<Rightarrow> u8 list list \<Rightarrow> nat list \<Rightarrow> (u8 list list) res" where
  "solve_bytes n matrix rhs [] = Inr []"
| "solve_bytes n matrix rhs (byte_pos # ps) =
     res_bind (solve_byte n matrix rhs byte_pos)
       (\<lambda>col. res_bind (solve_bytes n matrix rhs ps) (\<lambda>cols. Inr (col # cols)))"

text \<open>\<open>solution[i][byte_pos]\<close> is entry \<open>i\<close> of the solution of byte position \<open>byte_pos\<close>.\<close>

definition solve_linear_system ::
    "u8 list list \<Rightarrow> u8 list list \<Rightarrow> nat \<Rightarrow> nat \<Rightarrow> (u8 list list) res" where
  "solve_linear_system matrix rhs block_size num_unknowns =
     (if length matrix \<noteq> num_unknowns \<or> length rhs \<noteq> num_unknowns
      then Inl ERROR_RTMP_MESSAGE_DECODE
      else res_bind (solve_bytes num_unknowns matrix rhs [0..<block_size])
             (\<lambda>cols. Inr (map (\<lambda>i. map (\<lambda>col. col ! i) cols) [0..<num_unknowns])))"

section \<open>Elimination preserves the solutions\<close>

definition shape :: "nat \<Rightarrow> u8 list list \<Rightarrow> bool" where
  "shape n aug \<longleftrightarrow> length aug = n \<and> (\<forall>i < n. length (aug ! i) = n + 1)"

definition row_holds :: "u8 list \<Rightarrow> u8 list \<Rightarrow> bool" where
  "row_holds r x \<longleftrightarrow> dot gf_mul_fast r (x @ [1]) = 0"

definition system_holds :: "nat \<Rightarrow> u8 list list \<Rightarrow> u8 list \<Rightarrow> bool" where
  "system_holds n aug x \<longleftrightarrow> (\<forall>i < n. row_holds (aug ! i) x)"

definition unit_cols :: "nat \<Rightarrow> nat \<Rightarrow> u8 list list \<Rightarrow> bool" where
  "unit_cols n k aug \<longleftrightarrow> (\<forall>i < n. \<forall>j < k. aug ! i ! j = of_bool (i = j))"

lemma find_pivot_range:
  "find_pivot col aug rows = col \<or> find_pivot col aug rows \<in> set rows"
  by (induction rows) auto

lemma normalize_row_eq:
  assumes "length r = n + 1" and "\<forall>c < col. r ! c = 0"
  shows "normalize_row n col v r = map (gf_mul_fast v) r"
  using assms by (intro nth_equalityI) (auto simp: normalize_row_def gf_mul_comm simp del: upt_Suc)

lemma eliminate_row_eq:
  assumes "length r = n + 1" "length p = n + 1" and "\<forall>c < col. p ! c = 0" "r ! col \<noteq> 0"
  shows "eliminate_row n col p r = map2 (\<lambda>a b. a XOR gf_mul_fast (r ! col) b) r p"
  using assms by (intro nth_equalityI) (auto simp: eliminate_row_def simp del: upt_Suc)

lemma eliminate_row_holds:
  assumes "length r = n + 1" "length p = n + 1" "\<forall>c < col. p ! c = 0" "row_holds p x"
  shows "row_holds (eliminate_row n col p r) x \<longleftrightarrow> row_holds r x"
proof (cases "r ! col = 0")
  case True
  then show ?thesis by (simp add: eliminate_row_def)
next
  case False
  then show ?thesis
    using assms by (simp add: eliminate_row_eq row_holds_def gf.dot_add_scaled)
qed

lemma normalize_row_holds:
  assumes "length r = n + 1" "\<forall>c < col. r ! c = 0" "v \<noteq> 0"
  shows "row_holds (normalize_row n col v r) x \<longleftrightarrow> row_holds r x"
  using assms by (simp add: normalize_row_eq row_holds_def gf.dot_scale gf.mul_eq_0_iff)

lemma swap_holds:
  assumes "length aug = n" "i < n" "j < n"
  shows "system_holds n (aug[i := aug ! j, j := aug ! i]) x \<longleftrightarrow> system_holds n aug x"
  using assms unfolding system_holds_def by (auto simp: nth_list_update)

lemma update_holds:
  assumes "length aug = n" "i < n" "row_holds r x \<longleftrightarrow> row_holds (aug ! i) x"
  shows "system_holds n (aug[i := r]) x \<longleftrightarrow> system_holds n aug x"
  using assms unfolding system_holds_def by (auto simp: nth_list_update)

lemma shape_update: "shape n aug \<Longrightarrow> i < n \<Longrightarrow> length r = n + 1 \<Longrightarrow> shape n (aug[i := r])"
  by (auto simp: shape_def nth_list_update)

lemma unit_cols_update:
  "shape n aug \<Longrightarrow> unit_cols n k aug \<Longrightarrow> k \<le> i \<Longrightarrow> i < n \<Longrightarrow> \<forall>c < k. r ! c = 0 \<Longrightarrow> unit_cols n k (aug[i := r])"
  by (auto simp: unit_cols_def shape_def nth_list_update)

text \<open>The three stages of a column: swap, normalise, eliminate.\<close>

definition col_ready :: "nat \<Rightarrow> nat \<Rightarrow> u8 list list \<Rightarrow> u8 list list \<Rightarrow> bool" where
  "col_ready n col aug0 aug \<longleftrightarrow>
     shape n aug \<and> unit_cols n col aug \<and> (\<forall>x. system_holds n aug x \<longleftrightarrow> system_holds n aug0 x)"

lemma col_ready_swap:
  assumes "col_ready n col aug0 aug" "col < n" "col \<le> p" "p < n"
  shows "col_ready n col aug0 (if p \<noteq> col then aug[col := aug ! p, p := aug ! col] else aug)"
proof (cases "p = col")
  case False
  have sh: "shape n aug" and un: "unit_cols n col aug" using assms by (simp_all add: col_ready_def)
  have zero: "\<forall>c < col. aug ! p ! c = 0" "\<forall>c < col. aug ! col ! c = 0"
    using un assms by (auto simp: unit_cols_def)
  have sh1: "shape n (aug[col := aug ! p])"
    using sh assms by (intro shape_update) (auto simp: shape_def)
  have "shape n (aug[col := aug ! p, p := aug ! col])"
    using sh assms by (intro shape_update [OF sh1]) (auto simp: shape_def)
  moreover have "unit_cols n col (aug[col := aug ! p, p := aug ! col])"
    using zero un sh assms by (intro unit_cols_update [OF sh1] unit_cols_update [OF sh]) auto
  ultimately show ?thesis
    using False assms swap_holds [of aug n col p] sh by (simp add: col_ready_def shape_def)
qed (use assms in simp)

lemma col_ready_normalize:
  assumes "col_ready n col aug0 aug" "col < n" "aug ! col ! col \<noteq> 0"
  defines "aug2 \<equiv> (if aug ! col ! col \<noteq> 1
      then aug[col := normalize_row n col (gf_inv (aug ! col ! col)) (aug ! col)] else aug)"
  shows "col_ready n col aug0 aug2 \<and> aug2 ! col ! col = 1"
proof -
  have sh: "shape n aug" and un: "unit_cols n col aug" using assms by (simp_all add: col_ready_def)
  let ?v = "aug ! col ! col"
  let ?r = "normalize_row n col (gf_inv ?v) (aug ! col)"
  have len: "length (aug ! col) = n + 1" using sh assms by (simp add: shape_def)
  have zero: "\<forall>c < col. aug ! col ! c = 0" using un assms by (auto simp: unit_cols_def)
  have r: "?r = map (gf_mul_fast (gf_inv ?v)) (aug ! col)"
    using len zero by (rule normalize_row_eq)
  have "length ?r = n + 1" "\<forall>c < col. ?r ! c = 0" using r len zero assms by auto
  then have "shape n (aug[col := ?r])" "unit_cols n col (aug[col := ?r])"
    using sh un assms by (auto intro: shape_update unit_cols_update)
  moreover have "?r ! col = 1"
    using r len assms gf_mul_inv [of ?v] by (simp add: gf_mul_comm)
  moreover have "system_holds n (aug[col := ?r]) x \<longleftrightarrow> system_holds n aug x" for x
    using sh assms len zero gf.inv_nonzero [of ?v]
    by (intro update_holds normalize_row_holds) (auto simp: shape_def)
  ultimately show ?thesis
    using assms sh by (auto simp: col_ready_def aug2_def shape_def)
qed

lemma col_ready_eliminate:
  assumes "col_ready n col aug0 aug" "col < n" "aug ! col ! col = 1"
  defines "aug3 \<equiv> map (\<lambda>row. if row = col then aug ! row
      else eliminate_row n col (aug ! col) (aug ! row)) [0..<n]"
  shows "col_ready n (Suc col) aug0 aug3"
proof -
  have sh: "shape n aug" and un: "unit_cols n col aug" using assms by (simp_all add: col_ready_def)
  let ?p = "aug ! col"
  have len: "length (aug ! i) = n + 1" if "i < n" for i using sh that by (simp add: shape_def)
  have zero: "\<forall>c < col. ?p ! c = 0" using un assms by (auto simp: unit_cols_def)
  have nth: "aug3 ! i = (if i = col then ?p else eliminate_row n col ?p (aug ! i))" if "i < n" for i
    using that by (simp add: aug3_def)
  have elim: "eliminate_row n col ?p (aug ! i) ! c =
      (if c < col then aug ! i ! c else aug ! i ! c XOR gf_mul_fast (aug ! i ! col) (?p ! c))"
    if "i < n" "c < n + 1" for i c
    using that by (simp add: eliminate_row_def del: upt_Suc)
  have "shape n aug3"
    using len assms by (auto simp: shape_def aug3_def eliminate_row_def simp del: upt_Suc)
  moreover have "unit_cols n (Suc col) aug3"
    unfolding unit_cols_def
  proof (intro allI impI)
    fix i j
    assume ij: "i < n" "j < Suc col"
    then show "aug3 ! i ! j = of_bool (i = j)"
      using un assms(2,3) zero elim [of i j] by (cases "j < col") (auto simp: nth unit_cols_def less_Suc_eq)
  qed
  moreover have "system_holds n aug3 x \<longleftrightarrow> system_holds n aug x" for x
  proof (cases "row_holds ?p x")
    case True
    then show ?thesis
      using eliminate_row_holds [OF len len [OF assms(2)] zero True]
      unfolding system_holds_def by (metis nth)
  next
    case False
    then show ?thesis using assms(2) unfolding system_holds_def by (metis nth)
  qed
  ultimately show ?thesis using assms by (simp add: col_ready_def)
qed

lemma gauss_column_ready:
  assumes "col_ready n col aug0 aug" "col < n" "gauss_column n col aug = Inr aug'"
  shows "col_ready n (Suc col) aug0 aug'"
proof -
  let ?p = "find_pivot col aug [col + 1..<n]"
  have p: "col \<le> ?p" "?p < n"
    using find_pivot_range [of col aug "[col + 1..<n]"] assms(2) by auto
  define aug1 where "aug1 = (if ?p \<noteq> col then aug[col := aug ! ?p, ?p := aug ! col] else aug)"
  have r1: "col_ready n col aug0 aug1"
    unfolding aug1_def by (rule col_ready_swap [OF assms(1,2) p])
  have nz: "aug1 ! col ! col \<noteq> 0"
    using assms(3) by (auto simp: gauss_column_def Let_def aug1_def split: if_splits)
  define aug2 where "aug2 = (if aug1 ! col ! col \<noteq> 1
      then aug1[col := normalize_row n col (gf_inv (aug1 ! col ! col)) (aug1 ! col)] else aug1)"
  have r2: "col_ready n col aug0 aug2" "aug2 ! col ! col = 1"
    using col_ready_normalize [OF r1 assms(2) nz] by (simp_all add: aug2_def)
  have "aug' = map (\<lambda>row. if row = col then aug2 ! row
      else eliminate_row n col (aug2 ! col) (aug2 ! row)) [0..<n]"
    using assms(3) nz unfolding gauss_column_def Let_def aug1_def [symmetric] aug2_def [symmetric] by simp
  then show ?thesis using col_ready_eliminate [OF r2(1) assms(2) r2(2)] by simp
qed

lemma gauss_loop_ready:
  assumes "col_ready n col aug0 aug" "col \<le> n" "gauss_loop n [col..<n] aug = Inr aug'"
  shows "col_ready n n aug0 aug'"
  using assms
proof (induction "n - col" arbitrary: col aug)
  case 0
  then show ?case by simp
next
  case (Suc k)
  then have "[col..<n] = col # [Suc col..<n]" by (simp add: upt_conv_Cons)
  with Suc.prems obtain b where "gauss_column n col aug = Inr b" "gauss_loop n [Suc col..<n] b = Inr aug'"
    by (auto simp: res_bind_Inr_iff)
  moreover from this(1) Suc.prems Suc.hyps(2) have "col_ready n (Suc col) aug0 b"
    by (auto intro: gauss_column_ready)
  ultimately show ?case using Suc.hyps(1) [of "Suc col" b] Suc.hyps(2) by simp
qed

lemma solve_byte_unique:
  assumes "solve_byte n matrix rhs pos = Inr col" "length x = n"
    and "\<forall>i < n. length (matrix ! i) = n"
  shows "(\<forall>i < n. dot gf_mul_fast (matrix ! i) x = rhs ! i ! pos) \<longleftrightarrow> x = col"
proof -
  let ?aug = "augmented n matrix rhs pos"
  obtain aug' where g: "gauss_loop n [0..<n] ?aug = Inr aug'" and col: "col = map (\<lambda>i. aug' ! i ! n) [0..<n]"
    using assms(1) by (auto simp: solve_byte_def res_bind_Inr_iff)
  have "col_ready n 0 ?aug ?aug"
    by (simp add: col_ready_def shape_def unit_cols_def augmented_def)
  then have ready: "col_ready n n ?aug aug'" using g by (auto intro: gauss_loop_ready [of n 0])
  have row: "row_holds (aug' ! i) x \<longleftrightarrow> x ! i = aug' ! i ! n" if "i < n" for i
  proof -
    have len: "length (aug' ! i) = n + 1" using ready that by (simp add: col_ready_def shape_def)
    then have split: "aug' ! i = take n (aug' ! i) @ [aug' ! i ! n]"
      using take_Suc_conv_app_nth [of n "aug' ! i"] by simp
    have "dot gf_mul_fast (take n (aug' ! i)) x = x ! i"
      using ready that len assms(2) by (intro gf.dot_unit) (auto simp: col_ready_def unit_cols_def)
    then show ?thesis
      using gf.dot_augmented [of "take n (aug' ! i)" x "aug' ! i ! n"] len assms(2) split
      by (simp add: row_holds_def)
  qed
  have "system_holds n ?aug x \<longleftrightarrow> (\<forall>i < n. dot gf_mul_fast (matrix ! i) x = rhs ! i ! pos)"
  proof -
    have "?aug ! i = matrix ! i @ [rhs ! i ! pos]" if "i < n" for i
      using assms(3) that map_nth [of "matrix ! i"] by (simp add: augmented_def)
    then show ?thesis
      using assms(2,3) unfolding system_holds_def row_holds_def by (simp add: gf.dot_augmented)
  qed
  moreover have "system_holds n aug' x \<longleftrightarrow> x = col"
    using row assms(2) unfolding system_holds_def col by (auto simp: list_eq_iff_nth_eq)
  ultimately show ?thesis using ready by (simp add: col_ready_def)
qed

lemma solve_bytes_nth:
  "solve_bytes n matrix rhs ps = Inr cols \<Longrightarrow>
     length cols = length ps \<and> (\<forall>k < length ps. solve_byte n matrix rhs (ps ! k) = Inr (cols ! k))"
proof (induction ps arbitrary: cols)
  case (Cons p ps)
  then show ?case by (auto simp: res_bind_Inr_iff nth_Cons split: nat.splits)
qed simp

lemma length_solve_byte: "solve_byte n matrix rhs p = Inr col \<Longrightarrow> length col = n"
  by (auto simp: solve_byte_def res_bind_Inr_iff)

lemma solve_linear_system_column:
  assumes "solve_linear_system matrix rhs block_size n = Inr sol" "pos < block_size"
  shows "solve_byte n matrix rhs pos = Inr (map (\<lambda>s. s ! pos) sol)"
    and "length sol = n" and "\<forall>i < n. length (sol ! i) = block_size"
proof -
  obtain cols where c: "solve_bytes n matrix rhs [0..<block_size] = Inr cols"
    and sol: "sol = map (\<lambda>i. map (\<lambda>col. col ! i) cols) [0..<n]"
    using assms(1) by (auto simp: solve_linear_system_def res_bind_Inr_iff split: if_splits)
  have cols: "length cols = block_size" "solve_byte n matrix rhs pos = Inr (cols ! pos)"
    using solve_bytes_nth [OF c] assms(2) by auto
  have "map (\<lambda>s. s ! pos) sol = cols ! pos"
    using length_solve_byte [OF cols(2)] cols(1) assms(2) by (auto simp: sol intro!: nth_equalityI)
  then show "solve_byte n matrix rhs pos = Inr (map (\<lambda>s. s ! pos) sol)" using cols(2) by simp
  show "length sol = n" "\<forall>i < n. length (sol ! i) = block_size" using cols(1) by (simp_all add: sol)
qed

text \<open>
  C11. The Gauss-Jordan solver of the Reed-Solomon repair is correct: when it succeeds on a square
  system, the bytes it returns at every byte position are a solution of the linear equations over
  \<open>GF(2^8)\<close> and the only one.
\<close>

theorem solve_linear_system_unique_solution:
  assumes "solve_linear_system matrix rhs block_size n = Inr sol"
    and "\<forall>i < n. length (matrix ! i) = n" and "byte_pos < block_size" and "length x = n"
  shows "(\<forall>i < n. dot gf_mul_fast (matrix ! i) x = rhs ! i ! byte_pos) \<longleftrightarrow>
    x = map (\<lambda>s. s ! byte_pos) sol"
  using solve_byte_unique [OF solve_linear_system_column(1) [OF assms(1,3)] assms(4,2)] .

lemma gauss_demo: "solve_linear_system [[1, 1], [0, 1]] [[7, 1], [5, 3]] 2 2 = Inr [[2, 2], [5, 3]]"
  by code_simp

theorem solve_linear_system_unique_solution_witness:
  "dot gf_mul_fast [1, 1] [2, 5] = 7 \<and> dot gf_mul_fast [0, 1] [2, 5] = 5"
  using solve_linear_system_unique_solution [OF gauss_demo, of 0 "[2, 5]"]
  by (simp add: less_Suc_eq numeral_2_eq_2)

end
