(* ===== verification/Std_Map.thy ===== *)
theory Std_Map
  imports Srs_Prelude
begin

text \<open>
  \<open>std::map\<close> of the C++ standard library: keys in ascending order, at most one value per key,
  iteration in key order. The contract is the locale \<open>ordered_map\<close>; the adapters' buffers use the
  association lists below, on which it is interpreted.
\<close>

section \<open>The contract\<close>

locale ordered_map =
  fixes find :: "'m \<Rightarrow> 'k::linorder \<Rightarrow> 'v option"
    and put :: "'k \<Rightarrow> 'v \<Rightarrow> 'm \<Rightarrow> 'm"
    and erase :: "'k \<Rightarrow> 'm \<Rightarrow> 'm"
    and keys :: "'m \<Rightarrow> 'k list"
    and wf :: "'m \<Rightarrow> bool"
  assumes find_put: "find (put k v m) = (find m)(k \<mapsto> v)"
    and find_erase: "find (erase k m) = (find m)(k := None)"
    and wf_put: "wf m \<Longrightarrow> wf (put k v m)"
    and wf_erase: "wf m \<Longrightarrow> wf (erase k m)"
    and keys_sorted: "wf m \<Longrightarrow> sorted_wrt (<) (keys m)"
    and set_keys: "set (keys m) = dom (find m)"
begin

lemma distinct_keys: "wf m \<Longrightarrow> distinct (keys m)"
  using keys_sorted [of m] by (metis strict_sorted_iff)

lemma size_card: "wf m \<Longrightarrow> length (keys m) = card (dom (find m))"
  using distinct_keys [of m] by (metis distinct_card set_keys)

lemma size_put:
  assumes "wf m"
  shows "length (keys (put k v m)) =
    (if find m k = None then Suc (length (keys m)) else length (keys m))"
proof -
  have fin: "finite (dom (find m))" using set_keys [of m] by (metis List.finite_set)
  have "length (keys (put k v m)) = card (insert k (dom (find m)))"
    using size_card [OF wf_put [OF assms]] by (simp add: find_put)
  then show ?thesis
    using size_card [OF assms] fin by (auto simp: card_insert_if domIff)
qed

lemma size_erase:
  assumes "wf m"
  shows "length (keys (erase k m)) =
    (if find m k = None then length (keys m) else length (keys m) - 1)"
proof -
  have "dom (find (erase k m)) = dom (find m) - {k}" by (simp add: find_erase)
  then have "length (keys (erase k m)) = card (dom (find m) - {k})"
    using size_card [OF wf_erase [OF assms]] by simp
  then show ?thesis
    using size_card [OF assms] by (cases "k \<in> dom (find m)") (auto simp: domIff card_Diff_singleton_if)
qed

lemma keys_sorted_list: "wf m \<Longrightarrow> keys m = sorted_list_of_set (dom (find m))"
  using keys_sorted [of m] set_keys [of m]
  by (metis sorted_list_of_set.idem_if_sorted_distinct strict_sorted_iff)

end

section \<open>Sorted association lists\<close>

type_synonym ('k, 'v) smap = "('k \<times> 'v) list"

definition sm_find :: "('k, 'v) smap \<Rightarrow> 'k \<Rightarrow> 'v option" where
  "sm_find m = map_of m"

fun sm_put :: "'k::linorder \<Rightarrow> 'v \<Rightarrow> ('k, 'v) smap \<Rightarrow> ('k, 'v) smap" where
  "sm_put k v [] = [(k, v)]"
| "sm_put k v ((k', v') # m) =
     (if k < k' then (k, v) # (k', v') # m
      else if k = k' then (k, v) # m
      else (k', v') # sm_put k v m)"

definition sm_erase :: "'k \<Rightarrow> ('k, 'v) smap \<Rightarrow> ('k, 'v) smap" where
  "sm_erase k m = filter (\<lambda>e. fst e \<noteq> k) m"

definition sm_keys :: "('k, 'v) smap \<Rightarrow> 'k list" where
  "sm_keys m = map fst m"

definition sm_wf :: "('k::linorder, 'v) smap \<Rightarrow> bool" where
  "sm_wf m \<longleftrightarrow> sorted_wrt (<) (map fst m)"

lemma sm_find_Nil [simp]: "sm_find [] k = None"
  by (simp add: sm_find_def)

lemma sm_wf_Nil [simp]: "sm_wf []"
  by (simp add: sm_wf_def)

lemma sm_find_put_app: "sm_find (sm_put k v m) x = (if x = k then Some v else sm_find m x)"
  by (induction m) (auto simp: sm_find_def)

lemma sm_find_erase_app: "sm_find (sm_erase k m) x = (if x = k then None else sm_find m x)"
  by (induction m) (auto simp: sm_find_def sm_erase_def)

lemma set_sm_put: "fst ` set (sm_put k v m) = insert k (fst ` set m)"
  by (induction k v m rule: sm_put.induct) auto

lemma sm_wf_put: "sm_wf m \<Longrightarrow> sm_wf (sm_put k v m)"
proof (induction k v m rule: sm_put.induct)
  case (2 k v k' v' m)
  then have "sm_wf m" and lt: "\<forall>x \<in> fst ` set m. k' < x" by (auto simp: sm_wf_def)
  have "\<forall>x \<in> fst ` set (sm_put k v m). k' < x" if "\<not> k < k'" "k \<noteq> k'"
    using lt that by (auto simp: set_sm_put)
  with 2 lt show ?case by (fastforce simp: sm_wf_def)
qed (simp add: sm_wf_def)

lemma sm_wf_filter: "sm_wf m \<Longrightarrow> sm_wf (filter P m)"
  by (induction m) (auto simp: sm_wf_def)

lemma sm_wf_erase: "sm_wf m \<Longrightarrow> sm_wf (sm_erase k m)"
  by (simp add: sm_erase_def sm_wf_filter)

interpretation smap: ordered_map sm_find sm_put sm_erase sm_keys sm_wf
proof unfold_locales
  show "sm_find (sm_put k v m) = (sm_find m)(k \<mapsto> v)" for k v m
    by (rule ext) (simp add: sm_find_put_app)
  show "sm_find (sm_erase k m) = (sm_find m)(k := None)" for k m
    by (rule ext) (simp add: sm_find_erase_app)
  show "set (sm_keys m) = dom (sm_find m)" for m
    by (simp add: sm_keys_def sm_find_def dom_map_of_conv_image_fst)
qed (simp_all add: sm_wf_put sm_wf_erase, simp add: sm_wf_def sm_keys_def)

lemma length_sm_keys [simp]: "length (sm_keys m) = length m"
  by (simp add: sm_keys_def)

lemmas sm_length_put = smap.size_put [unfolded length_sm_keys]
lemmas sm_length_erase = smap.size_erase [unfolded length_sm_keys]

lemma sm_find_SomeD: "sm_find m k = Some v \<Longrightarrow> (k, v) \<in> set m"
  by (simp add: sm_find_def map_of_SomeD)

lemma sm_find_iff: "sm_wf m \<Longrightarrow> sm_find m k = Some v \<longleftrightarrow> (k, v) \<in> set m"
  using smap.distinct_keys [of m] by (simp add: sm_find_def sm_keys_def map_of_eq_Some_iff)

lemma sm_put_set: "(a, x) \<in> set (sm_put k v m) \<Longrightarrow> (a, x) = (k, v) \<or> (a, x) \<in> set m"
  by (induction m) (auto split: if_splits)

lemma sm_erase_length: "sm_find m k \<noteq> None \<Longrightarrow> length (sm_erase k m) < length m"
proof -
  assume "sm_find m k \<noteq> None"
  then obtain v where "(k, v) \<in> set m" using sm_find_SomeD by fastforce
  then show ?thesis
    unfolding sm_erase_def by (intro length_filter_less [of "(k, v)"]) simp_all
qed

lemma fold_sm_erase: "fold sm_erase ks m = filter (\<lambda>e. fst e \<notin> set ks) m"
proof (induction ks arbitrary: m)
  case (Cons k ks)
  then show ?case by (auto simp: sm_erase_def intro: filter_cong)
qed simp

lemma fold_sm_erase_filter:
  assumes "sm_wf m"
  shows "fold sm_erase (map fst (filter P m)) m = filter (\<lambda>e. \<not> P e) m"
  unfolding fold_sm_erase
proof (rule filter_cong [OF refl])
  fix e assume e: "e \<in> set m"
  have "distinct (map fst m)" using smap.distinct_keys [OF assms] by (simp add: sm_keys_def)
  then show "fst e \<notin> set (map fst (filter P m)) \<longleftrightarrow> \<not> P e"
    using e by (auto simp: distinct_map inj_on_def)
qed

text \<open>A well-formed map is determined by what its lookup finds.\<close>

lemma sm_ext:
  assumes "sm_wf a" "sm_wf b" "\<And>k v. sm_find a k = Some v \<longleftrightarrow> sm_find b k = Some v"
  shows "a = b"
proof -
  have eq: "set a = set b"
    using assms by (auto simp: sm_find_iff [symmetric])
  have "map fst a = map fst b"
    using assms(1,2) by (intro sorted_distinct_set_unique) (auto simp: sm_wf_def strict_sorted_iff eq)
  moreover have inj: "inj_on fst (set a \<union> set b)"
    using smap.distinct_keys [OF assms(1)] eq by (simp add: sm_keys_def distinct_map)
  ultimately show ?thesis by (auto dest: map_inj_on)
qed

end
