(* ===== verification/Fec_Group.thy ===== *)
theory Fec_Group
  imports Fec_Solver Std_Map
begin

text \<open>
  \<open>FecGroupBuffer\<close> and \<open>FecRepairManager\<close> of \<open>adapter/components/fec/fec_group_buffer.cpp\<close>. A group
  collects the data blocks \<open>0 .. k-1\<close> and the parity blocks \<open>k .. n-1\<close> of one FEC group and repairs
  missing data blocks; the manager keeps the groups of one connection, bounded in number, and drops
  expired ones. A block's \<open>data\<close> and \<open>data_size\<close> are one list. The cached clock
  \<open>srs_time_now_cached()\<close> is the argument \<open>now_us\<close>.
\<close>

section \<open>FecGroupBuffer\<close>

record FecBlock =
  fb_group_id :: u32
  fb_block_index :: u32
  fb_data :: "u8 list"
  fb_is_parity :: bool
  fb_timestamp_ms :: int
  fb_received :: bool
  fb_seq_num :: u64
  fb_is_keyframe :: bool

definition FecBlock_new :: FecBlock where
  "FecBlock_new = \<lparr>fb_group_id = 0, fb_block_index = 0, fb_data = [], fb_is_parity = False,
     fb_timestamp_ms = 0, fb_received = False, fb_seq_num = 0, fb_is_keyframe = False\<rparr>"

record FecGroupConfig =
  fc_k :: u32
  fc_n :: u32
  fc_repair_deadline_ms :: int
  fc_enable_keyframe_relax :: bool

definition FecGroupConfig_default :: FecGroupConfig where
  "FecGroupConfig_default = \<lparr>fc_k = 8, fc_n = 12, fc_repair_deadline_ms = 100,
     fc_enable_keyframe_relax = True\<rparr>"

record FecGroupBuffer =
  fg_group_id :: u32
  fg_config :: FecGroupConfig
  fg_blocks :: "(u32, FecBlock) smap"
  fg_create_time_ms :: int

definition FecGroupBuffer_new :: "int \<Rightarrow> u32 \<Rightarrow> FecGroupConfig \<Rightarrow> FecGroupBuffer" where
  "FecGroupBuffer_new now_us group_id config =
     \<lparr>fg_group_id = group_id, fg_config = config, fg_blocks = [],
      fg_create_time_ms = now_us sdiv 1000\<rparr>"

text \<open>\<open>add_block\<close>: the range checks, the shift of a parity index and the insertion.\<close>

definition fec_index :: "FecGroupConfig \<Rightarrow> u32 \<Rightarrow> bool \<Rightarrow> u32 res" where
  "fec_index config block_index is_parity =
     (if is_parity
      then (if block_index \<ge> fc_n config - fc_k config then Inl ERROR_RTMP_MESSAGE_DECODE
            else Inr (fc_k config + block_index))
      else (if block_index \<ge> fc_k config then Inl ERROR_RTMP_MESSAGE_DECODE
            else Inr block_index))"

definition fec_add_block ::
    "u32 \<Rightarrow> u8 list \<Rightarrow> bool \<Rightarrow> int \<Rightarrow> u64 \<Rightarrow> bool \<Rightarrow> FecGroupBuffer \<Rightarrow> FecGroupBuffer res" where
  "fec_add_block block_index data is_parity timestamp_ms seq_num is_keyframe g =
     res_bind (fec_index (fg_config g) block_index is_parity) (\<lambda>idx.
       if sm_find (fg_blocks g) idx \<noteq> None then Inr g
       else (let block = \<lparr>fb_group_id = fg_group_id g, fb_block_index = idx, fb_data = data,
                   fb_is_parity = is_parity, fb_timestamp_ms = timestamp_ms, fb_received = True,
                   fb_seq_num = seq_num, fb_is_keyframe = is_keyframe\<rparr>
             in Inr (g\<lparr>fg_blocks := sm_put idx block (fg_blocks g)\<rparr>)))"

definition group_blocks :: "FecGroupBuffer \<Rightarrow> FecBlock list" where
  "group_blocks g = map snd (fg_blocks g)"

definition data_blocks :: "FecGroupBuffer \<Rightarrow> FecBlock list" where
  "data_blocks g = filter (\<lambda>b. \<not> fb_is_parity b) (group_blocks g)"

definition parity_blocks :: "FecGroupBuffer \<Rightarrow> FecBlock list" where
  "parity_blocks g = filter fb_is_parity (group_blocks g)"

definition is_complete :: "FecGroupBuffer \<Rightarrow> bool" where
  "is_complete g \<longleftrightarrow> length (data_blocks g) \<ge> unat (fc_k (fg_config g))"

definition get_received_count :: "FecGroupBuffer \<Rightarrow> nat" where
  "get_received_count g = length (fg_blocks g)"

definition has_enough_blocks_for_repair :: "FecGroupBuffer \<Rightarrow> bool" where
  "has_enough_blocks_for_repair g \<longleftrightarrow> length (fg_blocks g) \<ge> unat (fc_k (fg_config g))"

definition can_repair :: "FecGroupBuffer \<Rightarrow> bool" where
  "can_repair g = (if is_complete g then True else has_enough_blocks_for_repair g)"

definition get_missing_blocks :: "FecGroupBuffer \<Rightarrow> u32 list" where
  "get_missing_blocks g =
     filter (\<lambda>i. case sm_find (fg_blocks g) i of None \<Rightarrow> True | Some b \<Rightarrow> fb_is_parity b)
       (map of_nat [0..<unat (fc_k (fg_config g))])"

definition group_is_expired :: "int \<Rightarrow> FecGroupBuffer \<Rightarrow> bool" where
  "group_is_expired current_time_ms g \<longleftrightarrow>
     current_time_ms - fg_create_time_ms g > fc_repair_deadline_ms (fg_config g)"

text \<open>The copy of a received data block that the repair functions hand out.\<close>

definition copy_block :: "FecBlock \<Rightarrow> FecBlock" where
  "copy_block b = b\<lparr>fb_is_parity := False, fb_received := True\<rparr>"

text \<open>The size check at the start of both repairs; \<open>0\<close> stands for no size seen yet.\<close>

fun common_size :: "nat \<Rightarrow> FecBlock list \<Rightarrow> nat res" where
  "common_size block_size [] = Inr block_size"
| "common_size block_size (b # bs) =
     (if block_size = 0 then common_size (length (fb_data b)) bs
      else if length (fb_data b) \<noteq> block_size then Inl ERROR_RTMP_MESSAGE_DECODE
      else common_size block_size bs)"

text \<open>The block rebuilt at a missing index: its sequence number and key frame flag are guessed from
  the received data blocks.\<close>

definition restored_block :: "FecGroupBuffer \<Rightarrow> FecBlock list \<Rightarrow> int \<Rightarrow> u32 \<Rightarrow> u8 list \<Rightarrow> FecBlock" where
  "restored_block g dbs timestamp_ms missing_idx data =
     \<lparr>fb_group_id = fg_group_id g, fb_block_index = missing_idx, fb_data = data,
      fb_is_parity = False, fb_timestamp_ms = timestamp_ms, fb_received = True,
      fb_seq_num = (case dbs of [] \<Rightarrow> 0
        | d # _ \<Rightarrow> fb_seq_num d +
            (if missing_idx > fb_block_index d then ucast (missing_idx - fb_block_index d) else 0)),
      fb_is_keyframe = list_ex fb_is_keyframe dbs\<rparr>"

fun xor_blocks :: "nat \<Rightarrow> u8 list \<Rightarrow> FecBlock list \<Rightarrow> u8 list res" where
  "xor_blocks block_size acc [] = Inr acc"
| "xor_blocks block_size acc (b # bs) =
     (if length (fb_data b) < block_size then Inl UNDEFINED_READ
      else xor_blocks block_size (map2 (XOR) acc (take block_size (fb_data b))) bs)"

definition repair_xor :: "FecGroupBuffer \<Rightarrow> (FecBlock list) res" where
  "repair_xor g =
     res_bind (common_size 0 (group_blocks g)) (\<lambda>block_size.
       if block_size = 0 then Inl ERROR_RTMP_MESSAGE_DECODE
       else (let missing = get_missing_blocks g; pbs = parity_blocks g; dbs = data_blocks g in
         if length missing = 1 \<and> length pbs \<ge> 1 \<and>
            length dbs = unat (fc_k (fg_config g) - 1)
         then (let parity = hd pbs in
               if length (fb_data parity) < block_size then Inl UNDEFINED_READ
               else res_bind (xor_blocks block_size (take block_size (fb_data parity)) dbs) (\<lambda>data.
                 Inr (restored_block g dbs (fb_timestamp_ms parity) (hd missing) data
                      # map copy_block dbs)))
         else Inl ERROR_RTMP_MESSAGE_DECODE))"

definition repair_rs :: "FecGroupBuffer \<Rightarrow> (FecBlock list) res" where
  "repair_rs g =
     res_bind (common_size 0 (group_blocks g)) (\<lambda>block_size.
       if block_size = 0 then Inl ERROR_RTMP_MESSAGE_DECODE
       else (let pbs = parity_blocks g; dbs = data_blocks g;
                 available_indices = map fb_block_index dbs;
                 missing_indices = get_missing_blocks g in
         if missing_indices = [] then Inr (map copy_block dbs)
         else if length pbs < length missing_indices then Inl ERROR_RTMP_MESSAGE_DECODE
         else res_bind (build_vandermonde_matrix available_indices missing_indices) (\<lambda>matrix.
           let rhs = map fb_data (take (length missing_indices) pbs) in
           if list_ex (\<lambda>d. length d < block_size) rhs then Inl UNDEFINED_READ
           else res_bind (solve_linear_system matrix rhs block_size (length missing_indices)) (\<lambda>solution.
             Inr (map (\<lambda>(idx, data). restored_block g dbs (fb_timestamp_ms (hd pbs)) idx data)
                    (zip missing_indices solution)
                  @ map copy_block dbs)))))"

definition repair :: "FecGroupBuffer \<Rightarrow> (FecBlock list) res" where
  "repair g =
     (if \<not> can_repair g then Inl ERROR_RTMP_MESSAGE_DECODE
      else if is_complete g then Inr (map copy_block (data_blocks g))
      else (let missing = get_missing_blocks g;
                total_received = length (fg_blocks g);
                num_parity = int total_received - (int (unat (fc_k (fg_config g))) - int (length missing));
                rs = (if length missing > 0 \<and> int (length missing) \<le> num_parity \<and>
                         total_received \<ge> unat (fc_k (fg_config g))
                      then repair_rs g else Inl ERROR_RTMP_MESSAGE_DECODE)
            in case rs of
                 Inr restored \<Rightarrow> Inr restored
               | Inl e \<Rightarrow> (if e = UNDEFINED_READ then Inl e
                           else if length missing = 1 then repair_xor g
                           else Inl ERROR_RTMP_MESSAGE_DECODE)))"

section \<open>FecRepairManager\<close>

record FecStats =
  total_groups :: u64
  repaired_groups :: u64
  complete_groups :: u64
  expired_groups :: u64
  failed_repairs :: u64

definition FecStats_new :: FecStats where
  "FecStats_new = \<lparr>total_groups = 0, repaired_groups = 0, complete_groups = 0,
     expired_groups = 0, failed_repairs = 0\<rparr>"

record FecRepairManager =
  fm_groups :: "(u32, FecGroupBuffer) smap"
  fm_config :: FecGroupConfig
  fm_stats :: FecStats
  fm_max_groups :: nat

definition FecRepairManager_new :: FecRepairManager where
  "FecRepairManager_new = \<lparr>fm_groups = [], fm_config = FecGroupConfig_default,
     fm_stats = FecStats_new, fm_max_groups = 100\<rparr>"

definition fm_set_config :: "FecGroupConfig \<Rightarrow> FecRepairManager \<Rightarrow> FecRepairManager" where
  "fm_set_config config m = m\<lparr>fm_config := config\<rparr>"

definition fm_set_max_groups :: "nat \<Rightarrow> FecRepairManager \<Rightarrow> FecRepairManager" where
  "fm_set_max_groups max_groups m = m\<lparr>fm_max_groups := max_groups\<rparr>"

text \<open>The search for a group to evict: the first expired one in key order; \<open>oldest_id\<close> stays \<open>0\<close>
  when there is none.\<close>

definition oldest_id :: "int \<Rightarrow> FecRepairManager \<Rightarrow> u32" where
  "oldest_id now_ms m =
     (case find (\<lambda>e. group_is_expired now_ms (snd e)) (fm_groups m) of
        None \<Rightarrow> 0 | Some e \<Rightarrow> fst e)"

definition create_group_if_needed ::
    "int \<Rightarrow> u32 \<Rightarrow> FecRepairManager \<Rightarrow> unit res \<times> FecRepairManager" where
  "create_group_if_needed now_us group_id m =
     (if sm_find (fm_groups m) group_id \<noteq> None then (srs_success, m)
      else (let full = length (fm_groups m) \<ge> fm_max_groups m;
                oldest = oldest_id (now_us sdiv 1000) m in
        if full \<and> \<not> oldest > 0 then (Inl ERROR_RTMP_MESSAGE_DECODE, m)
        else (let m1 = (if full
                then m\<lparr>fm_groups := sm_erase oldest (fm_groups m),
                       fm_stats := (fm_stats m)\<lparr>expired_groups := expired_groups (fm_stats m) + 1\<rparr>\<rparr>
                else m)
              in (srs_success,
                  m1\<lparr>fm_groups := sm_put group_id (FecGroupBuffer_new now_us group_id (fm_config m1))
                                   (fm_groups m1),
                     fm_stats := (fm_stats m1)\<lparr>total_groups := total_groups (fm_stats m1) + 1\<rparr>\<rparr>))))"

definition fm_add_block ::
    "int \<Rightarrow> u32 \<Rightarrow> u32 \<Rightarrow> u8 list \<Rightarrow> bool \<Rightarrow> int \<Rightarrow> u64 \<Rightarrow> bool \<Rightarrow> FecRepairManager
       \<Rightarrow> unit res \<times> FecRepairManager" where
  "fm_add_block now_us group_id block_index data is_parity timestamp_ms seq_num is_keyframe m =
     (case create_group_if_needed now_us group_id m of
        (Inl e, m1) \<Rightarrow> (Inl e, m1)
      | (Inr _, m1) \<Rightarrow>
          (case sm_find (fm_groups m1) group_id of
             None \<Rightarrow> (Inl UNDEFINED_READ, m1)
           | Some g \<Rightarrow>
               (case fec_add_block block_index data is_parity timestamp_ms seq_num is_keyframe g of
                  Inl e \<Rightarrow> (Inl e, m1)
                | Inr g' \<Rightarrow> (srs_success, m1\<lparr>fm_groups := sm_put group_id g' (fm_groups m1)\<rparr>))))"

text \<open>One turn of the loops of \<open>check_and_repair\<close> and \<open>check_and_repair_with_metadata\<close>: the restored
  blocks of a group, whether the group is to be removed, and the counters.\<close>

definition check_group :: "int \<Rightarrow> FecGroupBuffer \<Rightarrow> FecStats \<Rightarrow> FecBlock list \<times> bool \<times> FecStats" where
  "check_group now_ms g st =
     (if group_is_expired now_ms g
      then ([], True, st\<lparr>expired_groups := expired_groups st + 1\<rparr>)
      else if can_repair g
      then (case repair g of
              Inr restored \<Rightarrow>
                (restored, True,
                 if is_complete g then st\<lparr>complete_groups := complete_groups st + 1\<rparr>
                 else st\<lparr>repaired_groups := repaired_groups st + 1\<rparr>)
            | Inl _ \<Rightarrow> ([], False, st\<lparr>failed_repairs := failed_repairs st + 1\<rparr>))
      else ([], False, st))"

fun check_groups ::
    "int \<Rightarrow> (u32, FecGroupBuffer) smap \<Rightarrow> FecStats \<Rightarrow> FecBlock list \<times> u32 list \<times> FecStats" where
  "check_groups now_ms [] st = ([], [], st)"
| "check_groups now_ms ((gid, g) # gs) st =
     (let (restored, gone, st1) = check_group now_ms g st;
          (rest, ids, st2) = check_groups now_ms gs st1
      in (restored @ rest, (if gone then gid # ids else ids), st2))"

definition check_and_repair_blocks :: "int \<Rightarrow> FecRepairManager \<Rightarrow> FecBlock list \<times> FecRepairManager" where
  "check_and_repair_blocks now_us m =
     (let (restored, ids, st) = check_groups (now_us sdiv 1000) (fm_groups m) (fm_stats m)
      in (restored, m\<lparr>fm_groups := fold sm_erase ids (fm_groups m), fm_stats := st\<rparr>))"

definition check_and_repair :: "int \<Rightarrow> FecRepairManager \<Rightarrow> u8 list list \<times> FecRepairManager" where
  "check_and_repair now_us m =
     (let (restored, m') = check_and_repair_blocks now_us m in (map fb_data restored, m'))"

definition check_and_repair_with_metadata ::
    "int \<Rightarrow> FecRepairManager \<Rightarrow> (u8 list list \<times> u64 list \<times> bool list) \<times> FecRepairManager" where
  "check_and_repair_with_metadata now_us m =
     (let (restored, m') = check_and_repair_blocks now_us m
      in ((map fb_data restored, map fb_seq_num restored, map fb_is_keyframe restored), m'))"

definition cleanup_expired :: "int \<Rightarrow> FecRepairManager \<Rightarrow> FecRepairManager" where
  "cleanup_expired current_time_ms m =
     (let ids = map fst (filter (\<lambda>e. group_is_expired current_time_ms (snd e)) (fm_groups m))
      in m\<lparr>fm_groups := fold sm_erase ids (fm_groups m),
           fm_stats := (fm_stats m)\<lparr>expired_groups := expired_groups (fm_stats m) + of_nat (length ids)\<rparr>\<rparr>)"

definition fm_reset_stats :: "FecRepairManager \<Rightarrow> FecRepairManager" where
  "fm_reset_stats m = m\<lparr>fm_stats := FecStats_new\<rparr>"


section \<open>Well-formed groups\<close>

text \<open>Blocks are filed in order under their own index, data blocks below \<open>k\<close> and parity blocks from
  \<open>k\<close> on; no block is empty.\<close>

definition fec_inv :: "FecGroupBuffer \<Rightarrow> bool" where
  "fec_inv g \<longleftrightarrow> sm_wf (fg_blocks g) \<and> fc_k (fg_config g) \<le> fc_n (fg_config g) \<and>
     (\<forall>(i, b) \<in> set (fg_blocks g). fb_block_index b = i \<and> fb_group_id b = fg_group_id g \<and> i < fc_n (fg_config g) \<and>
        (fb_is_parity b \<longleftrightarrow> fc_k (fg_config g) \<le> i) \<and> fb_data b \<noteq> [])"

lemma fec_inv_new: "fc_k c \<le> fc_n c \<Longrightarrow> fec_inv (FecGroupBuffer_new t i c)"
  by (simp add: fec_inv_def FecGroupBuffer_new_def)

lemma fec_index_ok:
  assumes "fec_index c i par = Inr j" "fc_k c \<le> fc_n c"
  shows "j < fc_n c" and "par \<longleftrightarrow> fc_k c \<le> j"
proof -
  let ?k = "fc_k c" and ?n = "fc_n c"
  have "?k + i < ?n \<and> ?k \<le> ?k + i" if "i < ?n - ?k"
    using that assms(2) unsigned_less [of ?n, where 'a = nat]
    by (simp add: word_less_nat_alt word_le_nat_alt unat_sub unat_word_ariths)
  then show "j < ?n" "par \<longleftrightarrow> ?k \<le> j"
    using assms by (auto simp: fec_index_def not_le split: if_splits)
qed

lemma fec_add_block_inv:
  assumes "fec_inv g" "fec_add_block i d par ts sq kf g = Inr g'" "d \<noteq> []"
  shows "fec_inv g'" and "fg_config g' = fg_config g" and "fg_group_id g' = fg_group_id g"
proof -
  obtain j where j: "fec_index (fg_config g) i par = Inr j"
    using assms(2) by (auto simp: fec_add_block_def res_bind_Inr_iff)
  have k: "fc_k (fg_config g) \<le> fc_n (fg_config g)" using assms(1) by (simp add: fec_inv_def)
  show "fec_inv g'" "fg_config g' = fg_config g" "fg_group_id g' = fg_group_id g"
    using assms j fec_index_ok [OF j k]
    by (auto simp: fec_add_block_def fec_inv_def sm_wf_put Let_def dest!: sm_put_set split: if_splits)
qed

section \<open>XOR repair\<close>

definition xor_all :: "nat \<Rightarrow> u8 list list \<Rightarrow> u8 list" where
  "xor_all block_size ds = foldr (map2 (XOR)) ds (replicate block_size 0)"

lemma map2_xor_assoc:
  "length a = n \<Longrightarrow> length b = n \<Longrightarrow> length c = n \<Longrightarrow>
     map2 (XOR) (map2 (XOR) a b) c = map2 (XOR) a (map2 (XOR) b c)" for a b c :: "u8 list"
  by (intro nth_equalityI) (simp_all add: xor.assoc)

lemma map2_xor_comm: "map2 (XOR) a b = map2 (XOR) b a" if "length a = length b" for a b :: "u8 list"
  using that by (intro nth_equalityI) (simp_all add: xor.commute)

lemma map2_xor_cancel: "length a = length b \<Longrightarrow> map2 (XOR) (map2 (XOR) a b) b = a" for a b :: "u8 list"
  by (intro nth_equalityI) (simp_all add: xor.assoc)

lemma map2_xor_0: "length a = n \<Longrightarrow> map2 (XOR) a (replicate n 0) = a" for a :: "u8 list"
  by (intro nth_equalityI) simp_all

lemma length_xor_all: "\<forall>d \<in> set ds. length d = n \<Longrightarrow> length (xor_all n ds) = n"
  by (induction ds) (simp_all add: xor_all_def)

lemma xor_all_Cons: "xor_all n (d # ds) = map2 (XOR) d (xor_all n ds)"
  by (simp add: xor_all_def)

lemma xor_all_insert:
  assumes "\<forall>x \<in> set (xs @ d # ys). length x = n"
  shows "xor_all n (xs @ d # ys) = map2 (XOR) d (xor_all n (xs @ ys))"
  using assms
proof (induction xs)
  case (Cons x xs)
  let ?r = "xor_all n (xs @ ys)"
  have len: "length x = n" "length d = n" "length ?r = n" using Cons.prems by (auto intro: length_xor_all)
  have "xor_all n ((x # xs) @ d # ys) = map2 (XOR) x (map2 (XOR) d ?r)"
    using Cons by (simp add: xor_all_Cons)
  also have "\<dots> = map2 (XOR) (map2 (XOR) d x) ?r"
    using len map2_xor_comm [of x d] by (simp add: map2_xor_assoc [symmetric])
  also have "\<dots> = map2 (XOR) d (map2 (XOR) x ?r)" using len by (simp add: map2_xor_assoc)
  finally show ?case by (simp add: xor_all_Cons)
qed (simp add: xor_all_Cons)

lemma xor_blocks_eq:
  "\<forall>b \<in> set bs. length (fb_data b) = n \<Longrightarrow> length acc = n \<Longrightarrow>
     xor_blocks n acc bs = Inr (map2 (XOR) acc (xor_all n (map fb_data bs)))"
proof (induction bs arbitrary: acc)
  case Nil
  then show ?case by (simp add: xor_all_def map2_xor_0)
next
  case (Cons b bs)
  then have "length (xor_all n (map fb_data bs)) = n" by (intro length_xor_all) simp
  with Cons show ?case by (simp add: xor_all_Cons map2_xor_assoc [where n = n])
qed

lemma common_size_eq:
  "\<forall>b \<in> set bs. length (fb_data b) = n \<Longrightarrow> 0 < n \<Longrightarrow>
     common_size 0 bs = Inr (if bs = [] then 0 else n)"
proof -
  assume a: "\<forall>b \<in> set bs. length (fb_data b) = n" and "0 < n"
  have "common_size n bs' = Inr n" if "\<forall>b \<in> set bs'. length (fb_data b) = n" for bs'
    using that \<open>0 < n\<close> by (induction bs') auto
  then show ?thesis using a by (cases bs) auto
qed

subsection \<open>Which blocks are there\<close>

lemma in_group_blocks: "b \<in> set (group_blocks g) \<longleftrightarrow> (\<exists>i. (i, b) \<in> set (fg_blocks g))"
  by (force simp: group_blocks_def)

lemma fec_invD:
  assumes "fec_inv g" "b \<in> set (group_blocks g)"
  shows "sm_find (fg_blocks g) (fb_block_index b) = Some b"
    and "fb_is_parity b \<longleftrightarrow> fc_k (fg_config g) \<le> fb_block_index b" and "fb_data b \<noteq> []"
proof -
  obtain i where "(i, b) \<in> set (fg_blocks g)" using assms(2) by (auto simp: in_group_blocks)
  then show "sm_find (fg_blocks g) (fb_block_index b) = Some b"
    "fb_is_parity b \<longleftrightarrow> fc_k (fg_config g) \<le> fb_block_index b" "fb_data b \<noteq> []"
    using assms(1) by (auto simp: fec_inv_def sm_find_iff)
qed

lemma block_indices_sorted:
  assumes "fec_inv g"
  shows "map fb_block_index (group_blocks g) = map fst (fg_blocks g)"
  using assms by (auto simp: fec_inv_def group_blocks_def)

lemma data_indices_sorted:
  assumes "fec_inv g"
  shows "sorted_wrt (<) (map (unat \<circ> fb_block_index) (data_blocks g))"
proof -
  have "sorted_wrt (<) (map fb_block_index (group_blocks g))"
    using assms block_indices_sorted [OF assms] by (simp add: fec_inv_def sm_wf_def)
  then have "sorted_wrt (\<lambda>a b. fb_block_index a < fb_block_index b) (data_blocks g)"
    unfolding data_blocks_def by (auto simp: sorted_wrt_map intro: sorted_wrt_filter_mono)
  then show ?thesis by (simp add: sorted_wrt_map word_less_nat_alt)
qed

lemma data_index_set:
  assumes "fec_inv g"
  shows "(unat \<circ> fb_block_index) ` set (data_blocks g) \<union> unat ` set (get_missing_blocks g) =
      {..<unat (fc_k (fg_config g))}"
    and "(unat \<circ> fb_block_index) ` set (data_blocks g) \<inter> unat ` set (get_missing_blocks g) = {}"
proof -
  let ?k = "unat (fc_k (fg_config g))"
  let ?I = "(unat \<circ> fb_block_index) ` set (data_blocks g)"
  have low: "?I \<subseteq> {..<?k}"
    using fec_invD [OF assms] by (auto simp: data_blocks_def word_less_nat_alt not_le)
  have un: "unat (of_nat i :: u32) = i" if "i < ?k" for i
    using that unsigned_less [of "fc_k (fg_config g)", where 'a = nat] by (simp add: unat_of_nat)
  have present: "i \<in> ?I \<longleftrightarrow> (\<exists>b. sm_find (fg_blocks g) (of_nat i) = Some b \<and> \<not> fb_is_parity b)"
    if "i < ?k" for i
  proof
    assume "i \<in> ?I"
    then obtain b where "b \<in> set (data_blocks g)" "i = unat (fb_block_index b)" by auto
    then show "\<exists>b. sm_find (fg_blocks g) (of_nat i) = Some b \<and> \<not> fb_is_parity b"
      using fec_invD(1) [OF assms, of b] by (auto simp: data_blocks_def)
  next
    assume "\<exists>b. sm_find (fg_blocks g) (of_nat i) = Some b \<and> \<not> fb_is_parity b"
    then obtain b where b: "(of_nat i, b) \<in> set (fg_blocks g)" "\<not> fb_is_parity b"
      by (auto dest: sm_find_SomeD)
    then have "b \<in> set (data_blocks g)" "fb_block_index b = of_nat i"
      using assms by (auto simp: data_blocks_def in_group_blocks fec_inv_def)
    then show "i \<in> ?I" using un [OF that] by force
  qed
  have "(case sm_find (fg_blocks g) (of_nat i) of None \<Rightarrow> True | Some b \<Rightarrow> fb_is_parity b) \<longleftrightarrow> i \<notin> ?I"
    if "i < ?k" for i
    using present [OF that] by (auto split: option.splits)
  then have "get_missing_blocks g = map of_nat (filter (\<lambda>i. i \<notin> ?I) [0..<?k])"
    unfolding get_missing_blocks_def filter_map comp_def
    by (intro arg_cong [where f = "map of_nat"] filter_cong) simp_all
  then have "unat ` set (get_missing_blocks g) = (\<lambda>i. unat (of_nat i :: u32)) ` {i. i < ?k \<and> i \<notin> ?I}"
    by (simp add: image_image)
  also have "\<dots> = {i. i < ?k \<and> i \<notin> ?I}"
    using un by (simp cong: image_cong_simp)
  finally have miss: "unat ` set (get_missing_blocks g) = {i. i < ?k \<and> i \<notin> ?I}" .
  show "?I \<union> unat ` set (get_missing_blocks g) = {..<?k}" "?I \<inter> unat ` set (get_missing_blocks g) = {}"
    using low miss by auto
qed

lemma data_indices_one_missing:
  assumes "fec_inv g" "get_missing_blocks g = [m]"
  shows "map (unat \<circ> fb_block_index) (data_blocks g) =
      [0..<unat m] @ [Suc (unat m)..<unat (fc_k (fg_config g))]"
    and "unat m < unat (fc_k (fg_config g))"
proof -
  let ?k = "unat (fc_k (fg_config g))"
  show m: "unat m < ?k" using data_index_set(1) [OF assms(1)] assms(2) by auto
  have "set (map (unat \<circ> fb_block_index) (data_blocks g)) = {..<?k} - {unat m}"
    using data_index_set [OF assms(1)] assms(2) by (simp only: set_map list.set image_insert image_empty) blast
  also have "\<dots> = set ([0..<unat m] @ [Suc (unat m)..<?k])" using m by auto
  finally show "map (unat \<circ> fb_block_index) (data_blocks g) = [0..<unat m] @ [Suc (unat m)..<?k]"
    using data_indices_sorted [OF assms(1)]
    by (intro sorted_distinct_set_unique) (auto simp: strict_sorted_iff sorted_append)
qed

text \<open>
  The received blocks are those of the sender: data block \<open>i\<close> carries \<open>ds ! i\<close>, and every block has
  \<open>block_size > 0\<close> bytes.
\<close>

definition carries :: "FecGroupBuffer \<Rightarrow> nat \<Rightarrow> u8 list list \<Rightarrow> bool" where
  "carries g block_size ds \<longleftrightarrow>
     0 < block_size \<and> length ds = unat (fc_k (fg_config g)) \<and> (\<forall>d \<in> set ds. length d = block_size) \<and>
     (\<forall>b \<in> set (group_blocks g). length (fb_data b) = block_size) \<and>
     (\<forall>b \<in> set (data_blocks g). fb_data b = ds ! unat (fb_block_index b))"

lemma map_nth_upto: "m \<le> length xs \<Longrightarrow> map ((!) xs) [0..<m] = take m xs"
  by (intro nth_equalityI) simp_all

lemma map_nth_from: "map ((!) xs) [m..<length xs] = drop m xs"
  by (intro nth_equalityI) simp_all

lemma carried_data:
  assumes "fec_inv g" "get_missing_blocks g = [m]" "carries g n ds"
  shows "map fb_data (data_blocks g) = take (unat m) ds @ drop (Suc (unat m)) ds"
    and "ds = take (unat m) ds @ ds ! unat m # drop (Suc (unat m)) ds"
proof -
  let ?k = "unat (fc_k (fg_config g))"
  have m: "unat m < length ds" using data_indices_one_missing(2) [OF assms(1,2)] assms(3) by (simp add: carries_def)
  have "map fb_data (data_blocks g) = map ((!) ds) (map (unat \<circ> fb_block_index) (data_blocks g))"
    using assms(3) by (simp add: carries_def)
  also have "\<dots> = map ((!) ds) [0..<unat m] @ map ((!) ds) [Suc (unat m)..<length ds]"
    using data_indices_one_missing [OF assms(1,2)] assms(3) by (simp add: carries_def)
  also have "\<dots> = take (unat m) ds @ drop (Suc (unat m)) ds"
    using m by (simp add: map_nth_upto map_nth_from)
  finally show "map fb_data (data_blocks g) = take (unat m) ds @ drop (Suc (unat m)) ds" .
  show "ds = take (unat m) ds @ ds ! unat m # drop (Suc (unat m)) ds"
    using m by (simp add: id_take_nth_drop)
qed

lemma repair_xor_result:
  assumes "fec_inv g" "get_missing_blocks g = [m]" "carries g n ds"
    and "parity_blocks g = p # ps" "fb_data p = xor_all n ds"
  shows "repair_xor g = Inr (restored_block g (data_blocks g) (fb_timestamp_ms p) m (ds ! unat m)
      # map copy_block (data_blocks g))"
proof -
  let ?others = "take (unat m) ds @ drop (Suc (unat m)) ds"
  have data: "map fb_data (data_blocks g) = ?others"
    and ds: "ds = take (unat m) ds @ ds ! unat m # drop (Suc (unat m)) ds"
    using carried_data [OF assms(1-3)] by simp_all
  have n: "0 < n" "\<forall>d \<in> set ds. length d = n" "\<forall>b \<in> set (group_blocks g). length (fb_data b) = n"
    using assms(3) by (simp_all add: carries_def)
  have m: "unat m < unat (fc_k (fg_config g))" "unat m < length ds"
    using data_indices_one_missing(2) [OF assms(1,2)] assms(3) by (simp_all add: carries_def)
  have size: "common_size 0 (group_blocks g) = Inr n"
    using common_size_eq [OF n(3,1)] assms(4) by (cases "group_blocks g") (auto simp: parity_blocks_def)
  have count: "length (data_blocks g) = unat (fc_k (fg_config g) - 1)"
  proof -
    have "length (data_blocks g) = unat (fc_k (fg_config g)) - 1"
      using arg_cong [OF data_indices_one_missing(1) [OF assms(1,2)], of length] m by simp
    moreover have "fc_k (fg_config g) \<noteq> 0" using m by auto
    ultimately show ?thesis by (simp add: unat_minus_one)
  qed
  have len_others: "\<forall>d \<in> set ?others. length d = n"
    using n(2) by (auto dest: in_set_takeD in_set_dropD)
  have "xor_all n ds = map2 (XOR) (ds ! unat m) (xor_all n ?others)"
    by (subst ds, rule xor_all_insert) (use n(2) ds in metis)
  moreover have "length (xor_all n ?others) = n" using len_others by (rule length_xor_all)
  moreover have "length (ds ! unat m) = n" using n(2) m by simp
  ultimately have xor: "map2 (XOR) (xor_all n ds) (xor_all n ?others) = ds ! unat m"
    by (simp add: map2_xor_cancel)
  have "\<forall>b \<in> set (data_blocks g). length (fb_data b) = n"
    using n(3) by (simp add: data_blocks_def)
  then have "xor_blocks n (xor_all n ds) (data_blocks g) = Inr (ds ! unat m)"
    using n(2) xor data by (simp add: xor_blocks_eq length_xor_all)
  moreover have "length (xor_all n ds) = n" using n(2) by (rule length_xor_all)
  ultimately show ?thesis
    using size count n(1) assms(2,4,5) by (simp add: repair_xor_def Let_def)
qed


text \<open>
  C9. XOR repair is lossless: if exactly one data block of a well-formed group is missing, the received
  blocks are those of the sender and the first parity block received is the XOR of all \<open>k\<close> data blocks,
  \<open>repair_xor\<close> succeeds and returns the missing block, with its index, followed by the received data
  blocks.
\<close>

theorem repair_xor_recovers_block:
  assumes "fec_inv g" "get_missing_blocks g = [m]" "carries g block_size ds"
    and "parity_blocks g = p # ps" "fb_data p = xor_all block_size ds"
  shows "repair_xor g = Inr (restored_block g (data_blocks g) (fb_timestamp_ms p) m (ds ! unat m)
      # map copy_block (data_blocks g))"
  by (rule repair_xor_result [OF assms])

definition fec_demo_config :: FecGroupConfig where
  "fec_demo_config = \<lparr>fc_k = 2, fc_n = 3, fc_repair_deadline_ms = 100, fc_enable_keyframe_relax = True\<rparr>"

definition fec_demo_block :: "u32 \<Rightarrow> u8 list \<Rightarrow> bool \<Rightarrow> FecBlock" where
  "fec_demo_block i d par = \<lparr>fb_group_id = 7, fb_block_index = i, fb_data = d, fb_is_parity = par,
     fb_timestamp_ms = 10, fb_received = True, fb_seq_num = 40, fb_is_keyframe = False\<rparr>"

text \<open>Data block 0 is \<open>[1]\<close>, data block 1, \<open>[2]\<close>, is lost, the parity block is their XOR \<open>[3]\<close>.\<close>

definition fec_demo_group :: FecGroupBuffer where
  "fec_demo_group = \<lparr>fg_group_id = 7, fg_config = fec_demo_config,
     fg_blocks = [(0, fec_demo_block 0 [1] False), (2, fec_demo_block 2 [3] True)],
     fg_create_time_ms = 0\<rparr>"

lemmas fec_demo = fec_demo_group_def fec_demo_config_def fec_demo_block_def data_blocks_def
  parity_blocks_def group_blocks_def

lemma fec_demo_inv: "fec_inv fec_demo_group"
  by (simp add: fec_inv_def fec_demo sm_wf_def)

lemma fec_demo_missing: "get_missing_blocks fec_demo_group = [1]"
  by (simp add: get_missing_blocks_def fec_demo sm_find_def upt_rec)

lemma fec_demo_carries: "carries fec_demo_group 1 [[1], [2]]"
  by (simp add: carries_def fec_demo)

theorem repair_xor_recovers_block_witness:
  "repair_xor fec_demo_group =
     Inr [restored_block fec_demo_group [fec_demo_block 0 [1] False] 10 1 [2],
          copy_block (fec_demo_block 0 [1] False)]"
  using repair_xor_recovers_block [OF fec_demo_inv fec_demo_missing fec_demo_carries,
      of "fec_demo_block 2 [3] True" "[]"]
  by (simp add: fec_demo xor_all_def)

section \<open>Reed-Solomon repair of one block\<close>

lemma vandermonde_entry_nonzero: "vandermonde_entry a b \<noteq> 0"
proof -
  have lt: "unat ((a * b) mod 255) < 255" by (simp add: unat_mod)
  then have "unat (ucast ((a * b) mod 255) :: u8) < 255" by (simp add: unsigned_ucast_eq unsigned_take_bit_eq take_bit_nat_eq_self)
  then show ?thesis by (auto simp: vandermonde_entry_def Let_def gf_exp_alpha alpha_nonzero)
qed

lemma solve_byte_1:
  assumes "v \<noteq> 0"
  shows "solve_byte 1 [[v]] [d] p = Inr [gf_mul_fast (gf_inv v) (d ! p)]"
  using assms by (simp add: solve_byte_def augmented_def gauss_column_def normalize_row_def Let_def gf_mul_comm
      gf_inv_def)

lemma solve_bytes_1:
  "v \<noteq> 0 \<Longrightarrow> solve_bytes 1 [[v]] [d] ps = Inr (map (\<lambda>p. [gf_mul_fast (gf_inv v) (d ! p)]) ps)"
  by (induction ps) (simp_all add: solve_byte_1 [unfolded One_nat_def])

lemma solve_linear_system_1:
  "v \<noteq> 0 \<Longrightarrow> length d = n \<Longrightarrow>
     solve_linear_system [[v]] [d] n 1 = Inr [map (gf_mul_fast (gf_inv v)) d]"
  by (simp add: solve_linear_system_def solve_bytes_1 [unfolded One_nat_def] comp_def)
    (rule nth_equalityI, simp_all)

lemma repair_one_missing:
  assumes "fec_inv g" "get_missing_blocks g = [m]" "carries g n ds"
    and "parity_blocks g = p # ps" "data_blocks g = d # dbs"
  shows "repair g = Inr (restored_block g (d # dbs) (fb_timestamp_ms p) m
      (map (gf_mul_fast (gf_inv (vandermonde_entry (fb_block_index d) m))) (fb_data p))
      # map copy_block (d # dbs))"
proof -
  let ?k = "unat (fc_k (fg_config g))"
  have n: "0 < n" "\<forall>b \<in> set (group_blocks g). length (fb_data b) = n"
    using assms(3) by (simp_all add: carries_def)
  have p: "length (fb_data p) = n"
    using n(2) arg_cong [OF assms(4), of set] by (auto simp: parity_blocks_def)
  have m: "unat m < ?k" by (rule data_indices_one_missing(2) [OF assms(1,2)])
  have data: "length (data_blocks g) = ?k - 1"
    using arg_cong [OF data_indices_one_missing(1) [OF assms(1,2)], of length] m by simp
  have "length (fg_blocks g) = length (data_blocks g) + length (parity_blocks g)"
    using sum_length_filter_compl [of fb_is_parity "group_blocks g"]
    by (simp add: data_blocks_def parity_blocks_def group_blocks_def)
  then have all: "length (fg_blocks g) = ?k + length ps" using data m assms(4) by simp
  have size: "common_size 0 (group_blocks g) = Inr n"
    using common_size_eq [OF n(2,1)] assms(4) by (cases "group_blocks g") (auto simp: parity_blocks_def)
  have "repair_rs g = Inr (restored_block g (d # dbs) (fb_timestamp_ms p) m
      (map (gf_mul_fast (gf_inv (vandermonde_entry (fb_block_index d) m))) (fb_data p))
      # map copy_block (d # dbs))"
    using n(1) size p assms(2,4,5)
      solve_linear_system_1 [OF vandermonde_entry_nonzero p, of "fb_block_index d" m]
    by (simp add: repair_rs_def build_vandermonde_matrix_def Let_def)
  moreover have "\<not> is_complete g" using data m by (simp add: is_complete_def)
  ultimately show ?thesis
    using all assms(2) by (simp add: repair_def can_repair_def has_enough_blocks_for_repair_def Let_def)
qed

text \<open>
  C26. What \<open>repair\<close> really computes when one of at least two data blocks is missing: it takes the
  Reed-Solomon path, which succeeds, and the bytes it returns for the missing block are those of the
  first parity block scaled by a constant that depends on the two block indices only. The received
  data blocks do not enter, and the XOR fallback is not reached.
\<close>

theorem repair_one_missing_scales_parity:
  assumes "fec_inv g" "get_missing_blocks g = [m]" "carries g block_size ds"
    and "parity_blocks g = p # ps" "data_blocks g = d # dbs"
  shows "repair g = Inr (restored_block g (d # dbs) (fb_timestamp_ms p) m
      (map (gf_mul_fast (gf_inv (vandermonde_entry (fb_block_index d) m))) (fb_data p))
      # map copy_block (d # dbs))"
  by (rule repair_one_missing [OF assms])

lemma vandermonde_entry_0: "vandermonde_entry 0 m = 1"
  by (simp add: vandermonde_entry_def)

theorem repair_one_missing_scales_parity_witness:
  "repair fec_demo_group =
     Inr [restored_block fec_demo_group [fec_demo_block 0 [1] False] 10 1 [3],
          copy_block (fec_demo_block 0 [1] False)]"
  using repair_one_missing_scales_parity [OF fec_demo_inv fec_demo_missing fec_demo_carries,
      of "fec_demo_block 2 [3] True" "[]" "fec_demo_block 0 [1] False" "[]"]
  by (simp add: fec_demo vandermonde_entry_0 gf_inv_def)

text \<open>
  The repair of a group whose only parity block is the XOR of its data blocks is not sound: there
  is a well-formed group with block 1, \<open>[2]\<close>, lost that \<open>repair_xor\<close> restores and for which \<open>repair\<close>
  reports success with \<open>[3]\<close> in its place.
\<close>

theorem repair_corrupts_lost_block:
  "\<exists>g ds. fec_inv g \<and> carries g 1 ds \<and> get_missing_blocks g = [1] \<and>
     map fb_data (parity_blocks g) = [xor_all 1 ds] \<and>
     (\<exists>r rs. repair_xor g = Inr (r # rs) \<and> fb_block_index r = 1 \<and> fb_data r = ds ! 1) \<and>
     (\<exists>r rs. repair g = Inr (r # rs) \<and> fb_block_index r = 1 \<and> fb_data r \<noteq> ds ! 1)"
proof -
  let ?g = fec_demo_group and ?p = "fec_demo_block 2 [3] True" and ?d = "fec_demo_block 0 [1] False"
  have p: "parity_blocks ?g = [?p]" and d: "data_blocks ?g = [?d]" by (simp_all add: fec_demo)
  have x: "fb_data ?p = xor_all 1 [[1], [2]]" by (simp add: fec_demo xor_all_def)
  note facts = fec_demo_inv fec_demo_missing fec_demo_carries p
  have "repair_xor ?g = Inr (restored_block ?g [?d] 10 1 [2] # map copy_block [?d])"
    using repair_xor_result [OF facts x] d by (simp add: fec_demo_block_def)
  moreover have "repair ?g = Inr (restored_block ?g [?d] 10 1 [3] # map copy_block [?d])"
    using repair_one_missing [OF facts d] by (simp add: fec_demo_block_def vandermonde_entry_0 gf_inv_def)
  ultimately show ?thesis
    using facts(1-3) p x by (intro exI [of _ ?g] exI [of _ "[[1], [2]]"]) (simp add: restored_block_def)
qed


section \<open>The repair manager\<close>

text \<open>A group leaves the manager when it is expired or when its repair succeeds.\<close>

definition group_done :: "int \<Rightarrow> FecGroupBuffer \<Rightarrow> bool" where
  "group_done now_ms g \<longleftrightarrow> group_is_expired now_ms g \<or> can_repair g \<and> (\<exists>r. repair g = Inr r)"

definition group_output :: "int \<Rightarrow> FecGroupBuffer \<Rightarrow> FecBlock list" where
  "group_output now_ms g =
     (if group_is_expired now_ms g \<or> \<not> can_repair g then []
      else case repair g of Inl _ \<Rightarrow> [] | Inr r \<Rightarrow> r)"

lemma check_group_eq:
  "fst (check_group now g st) = group_output now g"
  "fst (snd (check_group now g st)) = group_done now g"
  by (auto simp: check_group_def group_output_def group_done_def split: sum.splits)

lemma check_groups_eq:
  "fst (check_groups now gs st) = concat (map (\<lambda>e. group_output now (snd e)) gs) \<and>
   fst (snd (check_groups now gs st)) = map fst (filter (\<lambda>e. group_done now (snd e)) gs)"
proof (induction now gs st rule: check_groups.induct)
  case (2 now gid g gs st)
  obtain r d st1 where c: "check_group now g st = (r, d, st1)" by (metis prod_cases3)
  obtain r2 ids st2 where cs: "check_groups now gs st1 = (r2, ids, st2)" by (metis prod_cases3)
  have "r = group_output now g" "d = group_done now g" using check_group_eq [of now g st] c by simp_all
  with 2 c cs show ?case by simp
qed simp

lemma check_and_repair_blocks_eq:
  assumes "sm_wf (fm_groups m)" "check_and_repair_blocks now_us m = (out, m')"
  shows "out = concat (map (\<lambda>e. group_output (now_us sdiv 1000) (snd e)) (fm_groups m))"
    and "fm_groups m' = filter (\<lambda>e. \<not> group_done (now_us sdiv 1000) (snd e)) (fm_groups m)"
    and "fm_max_groups m' = fm_max_groups m" and "fm_config m' = fm_config m"
  using assms check_groups_eq [of "now_us sdiv 1000" "fm_groups m" "fm_stats m"]
    fold_sm_erase_filter [OF assms(1), of "\<lambda>e. group_done (now_us sdiv 1000) (snd e)"]
  by (auto simp: check_and_repair_blocks_def split: prod.splits)

definition fm_inv :: "FecRepairManager \<Rightarrow> bool" where
  "fm_inv m \<longleftrightarrow> sm_wf (fm_groups m) \<and> length (fm_groups m) \<le> fm_max_groups m \<and>
     fc_k (fm_config m) \<le> fc_n (fm_config m) \<and>
     (\<forall>(i, g) \<in> set (fm_groups m). fec_inv g \<and> fg_group_id g = i)"

lemma fm_inv_filter:
  assumes "fm_inv m" "fm_groups m' = filter P (fm_groups m)" "fm_max_groups m' = fm_max_groups m"
    "fm_config m' = fm_config m"
  shows "fm_inv m'"
  using assms le_trans [OF length_filter_le] by (auto simp: fm_inv_def sm_wf_filter)

lemma oldest_id_found:
  assumes "0 < oldest_id now m"
  shows "sm_find (fm_groups m) (oldest_id now m) \<noteq> None"
proof -
  obtain e where "find (\<lambda>e. group_is_expired now (snd e)) (fm_groups m) = Some e" "oldest_id now m = fst e"
    using assms by (auto simp: oldest_id_def split: option.splits)
  then have "e \<in> set (fm_groups m)" "oldest_id now m = fst e" by (auto simp: find_Some_iff)
  then have "oldest_id now m \<in> set (sm_keys (fm_groups m))" by (simp add: sm_keys_def)
  then show ?thesis by (simp only: smap.set_keys) auto
qed

lemma fm_inv_put:
  assumes "fm_inv m" "fec_inv g" "fg_group_id g = i"
    "length (sm_put i g (fm_groups m)) \<le> fm_max_groups m"
    "fm_groups m' = sm_put i g (fm_groups m)" "fm_max_groups m' = fm_max_groups m" "fm_config m' = fm_config m"
  shows "fm_inv m'"
  using assms by (auto simp: fm_inv_def sm_wf_put dest!: sm_put_set)

lemma create_group_if_needed_inv:
  assumes inv: "fm_inv m" and call: "create_group_if_needed now_us gid m = (r, m')" and "0 < fm_max_groups m"
  shows "fm_inv m'" and "fm_max_groups m' = fm_max_groups m" and "r = srs_success \<Longrightarrow> sm_find (fm_groups m') gid \<noteq> None"
proof -
  let ?old = "oldest_id (now_us sdiv 1000) m"
  define m1 where "m1 = (if length (fm_groups m) \<ge> fm_max_groups m
      then m\<lparr>fm_groups := sm_erase ?old (fm_groups m),
             fm_stats := (fm_stats m)\<lparr>expired_groups := expired_groups (fm_stats m) + 1\<rparr>\<rparr> else m)"
  have m1: "fm_inv m1" "fm_config m1 = fm_config m" "fm_max_groups m1 = fm_max_groups m"
    using inv by (auto intro: fm_inv_filter simp: sm_erase_def m1_def)
  show "fm_inv m'"
  proof (cases "sm_find (fm_groups m) gid = None \<and> (length (fm_groups m) \<ge> fm_max_groups m \<longrightarrow> 0 < ?old)")
    case True
    have new: "sm_find (fm_groups m1) gid = None" using True by (simp add: sm_find_erase_app m1_def)
    have "length (fm_groups m1) < fm_max_groups m"
      using True oldest_id_found [of "now_us sdiv 1000" m] inv assms(3)
      by (auto simp: fm_inv_def sm_length_erase m1_def)
    then have len: "length (sm_put gid (FecGroupBuffer_new now_us gid (fm_config m)) (fm_groups m1)) \<le> fm_max_groups m1"
      using m1 new by (simp add: sm_length_put fm_inv_def)
    have "m' = m1\<lparr>fm_groups := sm_put gid (FecGroupBuffer_new now_us gid (fm_config m)) (fm_groups m1),
        fm_stats := (fm_stats m1)\<lparr>total_groups := total_groups (fm_stats m1) + 1\<rparr>\<rparr>"
      using call True by (auto simp: create_group_if_needed_def Let_def m1_def split: if_splits)
    then show ?thesis
      using inv m1
      by (intro fm_inv_put [OF m1(1) _ _ len]) (simp_all add: fec_inv_new fm_inv_def FecGroupBuffer_new_def fec_inv_def)
  next
    case False
    then show ?thesis using call inv by (auto simp: create_group_if_needed_def Let_def split: if_splits)
  qed
  show "fm_max_groups m' = fm_max_groups m" "r = srs_success \<Longrightarrow> sm_find (fm_groups m') gid \<noteq> None"
    using call by (auto simp: create_group_if_needed_def Let_def sm_find_put_app split: if_splits)
qed

lemma fm_add_block_inv:
  assumes "fm_inv m" "0 < fm_max_groups m" "d \<noteq> []"
    "fm_add_block now_us gid i d par ts sq kf m = (r, m')"
  shows "fm_inv m'" and "fm_max_groups m' = fm_max_groups m" and "r \<noteq> Inl UNDEFINED_READ"
proof -
  obtain r1 m1 where c: "create_group_if_needed now_us gid m = (r1, m1)" by fastforce
  note m1 = create_group_if_needed_inv [OF assms(1) c assms(2)]
  have "fm_inv m' \<and> fm_max_groups m' = fm_max_groups m \<and> r \<noteq> Inl UNDEFINED_READ"
  proof (cases r1)
    case (Inl e)
    then show ?thesis
      using assms(4) c m1 by (auto simp: fm_add_block_def create_group_if_needed_def Let_def split: if_splits)
  next
    case (Inr u)
    then obtain g where g: "sm_find (fm_groups m1) gid = Some g" using m1(3) by auto
    then have gi: "fec_inv g" "fg_group_id g = gid"
      using m1(1) sm_find_SomeD [OF g] by (auto simp: fm_inv_def)
    have wf: "sm_wf (fm_groups m1)" "length (fm_groups m1) \<le> fm_max_groups m1" using m1(1) by (simp_all add: fm_inv_def)
    show ?thesis
    proof (cases "fec_add_block i d par ts sq kf g")
      case (Inl e)
      then have "e \<noteq> UNDEFINED_READ"
        by (auto simp: fec_add_block_def fec_index_def Let_def split: if_splits)
      then show ?thesis using assms(4) c Inl \<open>r1 = Inr u\<close> g m1 by (auto simp: fm_add_block_def)
    next
      case (Inr g')
      note g' = fec_add_block_inv [OF gi(1) Inr assms(3)]
      have "length (sm_put gid g' (fm_groups m1)) \<le> fm_max_groups m1" using wf g by (simp add: sm_length_put)
      then have "fm_inv (m1\<lparr>fm_groups := sm_put gid g' (fm_groups m1)\<rparr>)"
        using g' gi(2) by (intro fm_inv_put [OF m1(1)]) simp_all
      then show ?thesis using assms(4) c Inr \<open>r1 = Inr u\<close> g m1(2) by (auto simp: fm_add_block_def)
    qed
  qed
  then show "fm_inv m'" "fm_max_groups m' = fm_max_groups m" "r \<noteq> Inl UNDEFINED_READ" by simp_all
qed


text \<open>The calls a connection makes on its manager after \<open>set_config\<close> and \<open>set_max_groups\<close>.\<close>

inductive fm_step :: "FecRepairManager \<Rightarrow> FecRepairManager \<Rightarrow> bool" where
  fm_add: "fm_add_block now_us gid i d par ts sq kf m = (r, m') \<Longrightarrow> d \<noteq> [] \<Longrightarrow> fm_step m m'"
| fm_check: "check_and_repair_with_metadata now_us m = (r, m') \<Longrightarrow> fm_step m m'"
| fm_cleanup: "fm_step m (cleanup_expired now_ms m)"
| fm_reset: "fm_step m (fm_reset_stats m)"

lemma fm_step_inv:
  assumes "fm_step m m'" "fm_inv m" "0 < fm_max_groups m"
  shows "fm_inv m' \<and> fm_max_groups m' = fm_max_groups m"
  using assms
proof cases
  case (fm_add now_us gid i d par ts sq kf r)
  then show ?thesis using fm_add_block_inv [OF assms(2,3)] by simp
next
  case (fm_check now_us r)
  obtain out m1 where c: "check_and_repair_blocks now_us m = (out, m1)" by fastforce
  then have "m' = m1" using fm_check by (simp add: check_and_repair_with_metadata_def)
  moreover have "sm_wf (fm_groups m)" using assms(2) by (simp add: fm_inv_def)
  ultimately show ?thesis
    using check_and_repair_blocks_eq [OF _ c] by (auto intro: fm_inv_filter [OF assms(2)])
next
  case (fm_cleanup now_ms)
  moreover have "sm_wf (fm_groups m)" using assms(2) by (simp add: fm_inv_def)
  ultimately show ?thesis
    using fold_sm_erase_filter [of "fm_groups m" "\<lambda>e. group_is_expired now_ms (snd e)"]
    by (auto intro!: fm_inv_filter [OF assms(2)] simp: cleanup_expired_def Let_def)
next
  case fm_reset
  then show ?thesis using assms(2) by (simp add: fm_inv_def fm_reset_stats_def)
qed

lemma fm_steps_inv:
  "fm_step\<^sup>*\<^sup>* m m' \<Longrightarrow> fm_inv m \<Longrightarrow> 0 < fm_max_groups m \<Longrightarrow>
     fm_inv m' \<and> fm_max_groups m' = fm_max_groups m"
  by (induction rule: rtranclp_induct) (use fm_step_inv in auto)


lemma fm_demo_step:
  "fm_step m (snd (fm_add_block 0 1 0 [5] False 0 9 False m))"
  by (rule fm_add [where now_us = 0 and gid = 1 and i = 0 and d = "[5]" and par = False and ts = 0
      and sq = 9 and kf = False and r = "fst (fm_add_block 0 1 0 [5] False 0 9 False m)"]) simp_all


text \<open>
  \<open>check_and_repair_with_metadata\<close> hands out, group by group in id order, the blocks of every group
  that is not expired and whose repair succeeds, with their sequence numbers and key frame flags, and
  keeps exactly the groups that are neither expired nor repaired.
\<close>

theorem check_and_repair_delivers_repaired_groups:
  assumes "sm_wf (fm_groups m)"
    and "check_and_repair_with_metadata now_us m = ((datas, seqs, keys), m')"
  shows "(let out = concat (map (\<lambda>(i, g). group_output (now_us sdiv 1000) g) (fm_groups m)) in
      datas = map fb_data out \<and> seqs = map fb_seq_num out \<and> keys = map fb_is_keyframe out) \<and>
    fm_groups m' = filter (\<lambda>(i, g). \<not> group_done (now_us sdiv 1000) g) (fm_groups m)"
proof -
  obtain out m1 where c: "check_and_repair_blocks now_us m = (out, m1)" by fastforce
  show ?thesis
    using check_and_repair_blocks_eq [OF assms(1) c] c assms(2)
    by (simp add: check_and_repair_with_metadata_def case_prod_beta' Let_def)
qed

definition fec_demo_manager :: FecRepairManager where
  "fec_demo_manager = FecRepairManager_new\<lparr>fm_groups := [(3, FecGroupBuffer_new 0 3 fec_demo_config),
     (7, fec_demo_group)]\<rparr>"

theorem check_and_repair_delivers_repaired_groups_witness:
  "fm_groups (snd (check_and_repair_with_metadata 50000 fec_demo_manager)) =
     [(3, FecGroupBuffer_new 0 3 fec_demo_config)]"
proof -
  have "repair fec_demo_group = Inr [restored_block fec_demo_group [fec_demo_block 0 [1] False] 10 1 [3],
          copy_block (fec_demo_block 0 [1] False)]"
    using repair_one_missing [OF fec_demo_inv fec_demo_missing fec_demo_carries,
      of "fec_demo_block 2 [3] True" "[]" "fec_demo_block 0 [1] False" "[]"]
    by (simp add: fec_demo vandermonde_entry_0 gf_inv_def)
  then have done7: "group_done 50 fec_demo_group"
    by (simp add: group_done_def can_repair_def has_enough_blocks_for_repair_def fec_demo)
  have done3: "\<not> group_done 50 (FecGroupBuffer_new 0 3 fec_demo_config)"
    by (simp add: group_done_def group_is_expired_def can_repair_def is_complete_def
        has_enough_blocks_for_repair_def FecGroupBuffer_new_def fec_demo_config_def data_blocks_def group_blocks_def)
  obtain d s k m' where c: "check_and_repair_with_metadata 50000 fec_demo_manager = ((d, s, k), m')"
    by (metis prod.collapse)
  have "(50000 :: int) sdiv 1000 = 50" by code_simp
  then show ?thesis
    using check_and_repair_delivers_repaired_groups [OF _ c] c done3 done7
    by (simp add: fec_demo_manager_def sm_wf_def)
qed

text \<open>
  Group id 0 doubles as the mark of "no expired group": when the manager is full and an expired group
  with id 0 comes first, a block of a new group is refused although a group could be evicted, and the
  state is unchanged, so the refusal repeats for every new group.
\<close>

theorem expired_group_zero_blocks_manager:
  assumes "fm_groups m = (0, g) # gs" "group_is_expired (now_us sdiv 1000) g"
    and "fm_max_groups m \<le> length (fm_groups m)" "sm_find (fm_groups m) group_id = None"
  shows "fm_add_block now_us group_id i d par ts sq kf m = (Inl ERROR_RTMP_MESSAGE_DECODE, m)"
  using assms by (simp add: fm_add_block_def create_group_if_needed_def oldest_id_def Let_def)

theorem expired_group_zero_blocks_manager_witness:
  "(let m = FecRepairManager_new\<lparr>fm_groups := [(0, FecGroupBuffer_new 0 0 fec_demo_config)], fm_max_groups := 1\<rparr>
    in fm_add_block 200000 1 0 [5] False 200 9 False m = (Inl ERROR_RTMP_MESSAGE_DECODE, m))"
proof -
  have d: "(200000 :: int) sdiv 1000 = 200" "(0 :: int) sdiv 1000 = 0" by code_simp+
  show ?thesis
    unfolding Let_def
    by (rule expired_group_zero_blocks_manager [where g = "FecGroupBuffer_new 0 0 fec_demo_config" and gs = "[]"])
      (simp_all add: d group_is_expired_def FecGroupBuffer_new_def fec_demo_config_def sm_find_def)
qed

end
