(* ===== verification/Reorder_Buffer.thy ===== *)
theory Reorder_Buffer
  imports Std_Map
begin

text \<open>
  \<open>ReorderBuffer\<close> of \<open>adapter/components/reorder/reorder_buffer.cpp\<close>: fragments are filed by their
  64-bit sequence number and handed out as 188-byte TS packets in sequence order. \<open>std::map\<close> is
  \<open>smap\<close>, a fragment's \<open>std::vector\<close> a byte list. \<open>get_ordered_packets\<close> compares with the key of a map
  node it has just erased; what that read yields is the argument \<open>stale\<close>.
\<close>

section \<open>The code\<close>

record ReorderBufferConfig =
  reorder_window_ms :: int
  enable_keyframe_relax :: bool
  keyframe_relax_ms :: int
  max_buffer_size :: nat

definition ReorderBufferConfig_default :: ReorderBufferConfig where
  "ReorderBufferConfig_default = \<lparr>reorder_window_ms = 200, enable_keyframe_relax = True,
     keyframe_relax_ms = 100, max_buffer_size = 10 * 1024 * 1024\<rparr>"

record TsPacketFragment =
  tf_data :: "u8 list"
  tf_sequence_number :: u64
  tf_timestamp_ms :: int
  tf_is_keyframe :: bool
  tf_is_complete :: bool

record ReorderStats =
  total_packets :: u64
  out_of_order_packets :: u64
  dropped_packets :: u64
  duplicate_packets :: u64
  reordered_packets :: u64

definition ReorderStats_new :: ReorderStats where
  "ReorderStats_new = \<lparr>total_packets = 0, out_of_order_packets = 0, dropped_packets = 0,
     duplicate_packets = 0, reordered_packets = 0\<rparr>"

record ReorderBuffer =
  rb_config :: ReorderBufferConfig
  rb_buffer :: "(u64, TsPacketFragment) smap"
  rb_expected_sequence :: u64
  rb_stats :: ReorderStats

definition ReorderBuffer_new :: "ReorderBufferConfig \<Rightarrow> ReorderBuffer" where
  "ReorderBuffer_new config = \<lparr>rb_config = config, rb_buffer = [], rb_expected_sequence = 0,
     rb_stats = ReorderStats_new\<rparr>"

abbreviation SRS_TS_PACKET_SIZE :: nat where "SRS_TS_PACKET_SIZE \<equiv> 188"

definition get_buffer_size :: "ReorderBuffer \<Rightarrow> nat" where
  "get_buffer_size rb = sum_list (map (\<lambda>e. length (tf_data (snd e))) (rb_buffer rb))"

definition has_ready_packets :: "ReorderBuffer \<Rightarrow> bool" where
  "has_ready_packets rb \<longleftrightarrow> sm_find (rb_buffer rb) (rb_expected_sequence rb) \<noteq> None"

definition rb_clear :: "ReorderBuffer \<Rightarrow> ReorderBuffer" where
  "rb_clear rb = rb\<lparr>rb_buffer := [], rb_expected_sequence := 0\<rparr>"

definition set_expected_sequence :: "u64 \<Rightarrow> ReorderBuffer \<Rightarrow> ReorderBuffer" where
  "set_expected_sequence seq rb = rb\<lparr>rb_expected_sequence := seq\<rparr>"

definition rb_reset_stats :: "ReorderBuffer \<Rightarrow> ReorderBuffer" where
  "rb_reset_stats rb = rb\<lparr>rb_stats := ReorderStats_new\<rparr>"

definition add_packet ::
    "u64 \<Rightarrow> u8 list \<Rightarrow> int \<Rightarrow> bool \<Rightarrow> ReorderBuffer \<Rightarrow> unit res \<times> ReorderBuffer" where
  "add_packet seq_num data timestamp_ms is_keyframe rb =
     (let st = (rb_stats rb)\<lparr>total_packets := total_packets (rb_stats rb) + 1\<rparr> in
      if sm_find (rb_buffer rb) seq_num \<noteq> None
      then (srs_success, rb\<lparr>rb_stats := st\<lparr>duplicate_packets := duplicate_packets st + 1\<rparr>\<rparr>)
      else if get_buffer_size rb + length data > max_buffer_size (rb_config rb)
      then (Inl ERROR_RTMP_MESSAGE_DECODE, rb\<lparr>rb_stats := st\<lparr>dropped_packets := dropped_packets st + 1\<rparr>\<rparr>)
      else (let expected = (if rb_buffer rb = [] \<and> rb_expected_sequence rb = 0 then seq_num
                            else rb_expected_sequence rb) in
        if seq_num < expected
        then (srs_success, rb\<lparr>rb_expected_sequence := expected,
                rb_stats := st\<lparr>out_of_order_packets := out_of_order_packets st + 1\<rparr>\<rparr>)
        else (srs_success, rb\<lparr>rb_expected_sequence := expected, rb_stats := st,
                rb_buffer := sm_put seq_num
                  \<lparr>tf_data = data, tf_sequence_number = seq_num, tf_timestamp_ms = timestamp_ms,
                   tf_is_keyframe = is_keyframe,
                   tf_is_complete = (length data mod SRS_TS_PACKET_SIZE = 0)\<rparr> (rb_buffer rb)\<rparr>)))"

definition is_packet_expired :: "ReorderBufferConfig \<Rightarrow> TsPacketFragment \<Rightarrow> int \<Rightarrow> bool" where
  "is_packet_expired config fragment current_time_ms =
     (let age_ms = current_time_ms - tf_timestamp_ms fragment;
          deadline_ms = reorder_window_ms config +
            (if enable_keyframe_relax config \<and> tf_is_keyframe fragment
             then keyframe_relax_ms config else 0)
      in age_ms > deadline_ms)"

text \<open>The search for the sync byte in the first 188 bytes, and the cutting loop.\<close>

fun find_sync :: "nat \<Rightarrow> u8 list \<Rightarrow> nat option" where
  "find_sync i [] = None"
| "find_sync i (b # bs) = (if b = 0x47 then Some i else find_sync (Suc i) bs)"

function cut_packets :: "u8 list \<Rightarrow> u8 list list" where
  "cut_packets data =
     (if SRS_TS_PACKET_SIZE \<le> length data
      then take SRS_TS_PACKET_SIZE data # cut_packets (drop SRS_TS_PACKET_SIZE data) else [])"
  by pat_completeness auto
termination
  by (relation "measure length") auto

declare cut_packets.simps [simp del]

definition align_ts_packets :: "u8 list \<Rightarrow> u8 list list" where
  "align_ts_packets data =
     (if data = [] then []
      else (let start_pos = (case find_sync 0 (take 188 data) of None \<Rightarrow> 0 | Some i \<Rightarrow> i) in
        if start_pos = 0 \<and> hd data \<noteq> 0x47 \<and> length data < SRS_TS_PACKET_SIZE then []
        else cut_packets (drop start_pos data)))"

text \<open>One turn of the output loop on the fragment at the expected sequence number.\<close>

definition take_fragment :: "u64 \<Rightarrow> int \<Rightarrow> TsPacketFragment \<Rightarrow> ReorderBuffer \<Rightarrow> u8 list list \<times> ReorderBuffer" where
  "take_fragment stale current_time_ms fragment rb =
     (let expected = rb_expected_sequence rb; st = rb_stats rb;
          rb1 = rb\<lparr>rb_buffer := sm_erase expected (rb_buffer rb), rb_expected_sequence := expected + 1\<rparr> in
      if is_packet_expired (rb_config rb) fragment current_time_ms
      then ([], rb1\<lparr>rb_stats := st\<lparr>dropped_packets := dropped_packets st + 1\<rparr>\<rparr>)
      else (align_ts_packets (tf_data fragment),
            if expected + 1 < stale
            then rb1\<lparr>rb_stats := st\<lparr>reordered_packets := reordered_packets st + 1\<rparr>\<rparr> else rb1))"

lemma take_fragment_shape:
  "take_fragment stale now f rb = (ps, rb') \<Longrightarrow>
     ps = (if is_packet_expired (rb_config rb) f now then [] else align_ts_packets (tf_data f)) \<and>
     rb_buffer rb' = sm_erase (rb_expected_sequence rb) (rb_buffer rb) \<and>
     rb_expected_sequence rb' = rb_expected_sequence rb + 1 \<and> rb_config rb' = rb_config rb"
  by (auto simp: take_fragment_def Let_def split: if_splits)

function get_ordered_packets :: "u64 \<Rightarrow> int \<Rightarrow> ReorderBuffer \<Rightarrow> u8 list list \<times> ReorderBuffer" where
  "get_ordered_packets stale current_time_ms rb =
     (case sm_find (rb_buffer rb) (rb_expected_sequence rb) of
        None \<Rightarrow> ([], rb)
      | Some fragment \<Rightarrow>
          (let (aligned, rb1) = take_fragment stale current_time_ms fragment rb;
               (packets, rb2) = get_ordered_packets stale current_time_ms rb1
           in (aligned @ packets, rb2)))"
  by pat_completeness auto
termination
proof (relation "measure (\<lambda>(_, _, rb). length (rb_buffer rb))", goal_cases)
  case (2 stale now rb f x aligned rb1)
  then have "rb_buffer rb1 = sm_erase (rb_expected_sequence rb) (rb_buffer rb)"
    using take_fragment_shape [of stale now f rb aligned rb1] by simp
  then show ?case using 2(1) by (simp add: sm_erase_length)
qed simp

declare get_ordered_packets.simps [simp del]

section \<open>TS alignment\<close>

lemma cut_packets_concat:
  "concat (cut_packets data) = take (188 * (length data div 188)) data \<and>
   (\<forall>p \<in> set (cut_packets data). length p = 188) \<and> length (cut_packets data) = length data div 188"
proof -
  define N :: nat where "N = 188"
  have N: "0 < N" by (simp add: N_def)
  have "concat (cut_packets data) = take (N * (length data div N)) data \<and>
    (\<forall>p \<in> set (cut_packets data). length p = N) \<and> length (cut_packets data) = length data div N"
  proof (induction data rule: cut_packets.induct)
    case (1 data)
    note eq = cut_packets.simps [of data, folded N_def]
    show ?case
    proof (cases "N \<le> length data")
      case True
      then have d: "length data div N = Suc (length (drop N data) div N)" using N by (simp add: le_div_geq)
      have cut: "cut_packets data = take N data # cut_packets (drop N data)" using True eq by simp
      let ?j = "length (drop N data) div N"
      have ih: "concat (cut_packets (drop N data)) = take (N * ?j) (drop N data)"
          "\<forall>p \<in> set (cut_packets (drop N data)). length p = N" "length (cut_packets (drop N data)) = ?j"
        using 1 [folded N_def, OF True] by (rule conjunct1, blast, blast)
      have "take (N * Suc ?j) data = take N data @ take (N * ?j) (drop N data)"
        by (simp only: mult_Suc_right take_add)
      moreover have "length (take N data) = N" using True by simp
      ultimately show ?thesis
        unfolding cut d using ih by (simp only: concat.simps list.set list.size ball_simps simp_thms add_Suc_right add_0_right)
    qed (simp add: eq)
  qed
  then show ?thesis unfolding N_def .
qed

lemma find_sync_Some: "find_sync i bs = Some j \<Longrightarrow> i \<le> j \<and> j - i < length bs \<and> bs ! (j - i) = 0x47"
proof (induction i bs rule: find_sync.induct)
  case (2 i b bs)
  show ?case
  proof (cases "b = 0x47")
    case False
    then have "Suc i \<le> j \<and> j - Suc i < length bs \<and> bs ! (j - Suc i) = 0x47" using 2 by simp
    moreover from this have "j - i = Suc (j - Suc i)" by (simp add: Suc_diff_Suc)
    ultimately show ?thesis by simp
  qed (use 2 in auto)
qed simp

lemma find_sync_None: "find_sync i bs = None \<longleftrightarrow> 0x47 \<notin> set bs"
  by (induction i bs rule: find_sync.induct) auto

section \<open>The output loop\<close>

text \<open>What is emitted for one fragment.\<close>

definition fragment_output :: "ReorderBufferConfig \<Rightarrow> int \<Rightarrow> TsPacketFragment \<Rightarrow> u8 list list" where
  "fragment_output config now f =
     (if is_packet_expired config f now then [] else align_ts_packets (tf_data f))"

lemma get_ordered_None:
  "sm_find (rb_buffer rb) (rb_expected_sequence rb) = None \<Longrightarrow> get_ordered_packets stale now rb = ([], rb)"
  by (simp add: get_ordered_packets.simps)

lemma get_ordered_run:
  assumes "get_ordered_packets stale now rb = (out, rb')"
  shows "\<exists>fs. out = concat (map (fragment_output (rb_config rb) now) fs) \<and>
    (\<forall>i < length fs. sm_find (rb_buffer rb) (rb_expected_sequence rb + of_nat i) = Some (fs ! i)) \<and>
    rb_expected_sequence rb' = rb_expected_sequence rb + of_nat (length fs) \<and>
    sm_find (rb_buffer rb') (rb_expected_sequence rb') = None \<and>
    rb_buffer rb' = fold sm_erase (map (\<lambda>i. rb_expected_sequence rb + of_nat i) [0..<length fs]) (rb_buffer rb) \<and>
    rb_config rb' = rb_config rb"
  using assms
proof (induction stale now rb arbitrary: out rb' rule: get_ordered_packets.induct)
  case (1 stale now rb)
  show ?case
  proof (cases "sm_find (rb_buffer rb) (rb_expected_sequence rb)")
    case None
    then show ?thesis using 1(2) by (intro exI [of _ "[]"]) (simp add: get_ordered_None)
  next
    case (Some f)
    obtain al rb1 where t: "take_fragment stale now f rb = (al, rb1)" by fastforce
    obtain ps rb2 where g: "get_ordered_packets stale now rb1 = (ps, rb2)" by fastforce
    have out: "out = al @ ps" "rb' = rb2"
      using 1(2) Some t g by (simp_all add: get_ordered_packets.simps [of stale now rb])
    note sh = take_fragment_shape [OF t]
    let ?e = "rb_expected_sequence rb"
    obtain fs where fs: "ps = concat (map (fragment_output (rb_config rb1) now) fs)"
      "\<forall>i < length fs. sm_find (rb_buffer rb1) (rb_expected_sequence rb1 + of_nat i) = Some (fs ! i)"
      "rb_expected_sequence rb2 = rb_expected_sequence rb1 + of_nat (length fs)"
      "sm_find (rb_buffer rb2) (rb_expected_sequence rb2) = None"
      "rb_buffer rb2 = fold sm_erase (map (\<lambda>i. rb_expected_sequence rb1 + of_nat i) [0..<length fs]) (rb_buffer rb1)"
      "rb_config rb2 = rb_config rb1"
      using 1(1) [OF Some, OF t [symmetric] refl g] by blast
    have keys: "map (\<lambda>i. ?e + of_nat i) [0..<length (f # fs)] =
        ?e # map (\<lambda>i. rb_expected_sequence rb1 + of_nat i) [0..<length fs]"
      using sh by (simp add: upt_conv_Cons map_Suc_upt [symmetric] algebra_simps del: upt_Suc map_Suc_upt)
    show ?thesis
    proof (intro exI [of _ "f # fs"] conjI allI impI)
      show "out = concat (map (fragment_output (rb_config rb) now) (f # fs))"
        using out fs(1) sh by (simp add: fragment_output_def)
      show "sm_find (rb_buffer rb) (?e + of_nat i) = Some ((f # fs) ! i)" if "i < length (f # fs)" for i
      proof (cases i)
        case (Suc j)
        then have "sm_find (sm_erase ?e (rb_buffer rb)) (?e + of_nat i) = Some (fs ! j)"
          using fs(2) that sh by (simp add: algebra_simps)
        then show ?thesis using Suc by (simp add: sm_find_erase_app split: if_splits)
      qed (use Some in simp)
      show "rb_buffer rb' = fold sm_erase (map (\<lambda>i. ?e + of_nat i) [0..<length (f # fs)]) (rb_buffer rb)"
        unfolding keys using out(2) fs(5) sh by simp
    qed (use out fs sh in \<open>simp_all add: algebra_simps\<close>)
  qed
qed


section \<open>Sequences of calls\<close>

datatype rb_event = Add_Packet u64 "u8 list" int bool | Get_Ordered u64 int

fun rb_exec :: "rb_event list \<Rightarrow> ReorderBuffer \<Rightarrow> u8 list list \<times> ReorderBuffer" where
  "rb_exec [] rb = ([], rb)"
| "rb_exec (Add_Packet s d t k # es) rb = rb_exec es (snd (add_packet s d t k rb))"
| "rb_exec (Get_Ordered stale now # es) rb =
     (let (out, rb1) = get_ordered_packets stale now rb; (rest, rb2) = rb_exec es rb1
      in (out @ rest, rb2))"

lemma rb_exec_append:
  "rb_exec (as @ bs) rb =
     (let (o1, rb1) = rb_exec as rb; (o2, rb2) = rb_exec bs rb1 in (o1 @ o2, rb2))"
  by (induction as rb rule: rb_exec.induct) (auto split: prod.splits)

lemma add_packet_config: "rb_config (snd (add_packet s d t k rb)) = rb_config rb"
  by (simp add: add_packet_def Let_def)

subsection \<open>Bounded memory\<close>

lemma buffer_size_put:
  assumes "sm_find m k = None"
  shows "sum_list (map (\<lambda>e. length (tf_data (snd e))) (sm_put k f m)) =
    length (tf_data f) + sum_list (map (\<lambda>e. length (tf_data (snd e))) m)"
  using assms by (induction k f m rule: sm_put.induct) (auto simp: sm_find_def split: if_splits)

lemma sum_list_filter_le: "sum_list (map f (filter P xs)) \<le> sum_list (map f xs)" for f :: "'a \<Rightarrow> nat"
  by (induction xs) auto

lemma add_packet_bounded:
  assumes "get_buffer_size rb \<le> max_buffer_size (rb_config rb)"
  shows "get_buffer_size (snd (add_packet s d t k rb)) \<le> max_buffer_size (rb_config rb)"
  using assms by (auto simp: add_packet_def get_buffer_size_def Let_def buffer_size_put)

lemma get_ordered_shrinks:
  assumes "get_ordered_packets stale now rb = (out, rb')"
  shows "get_buffer_size rb' \<le> get_buffer_size rb" and "rb_config rb' = rb_config rb"
  using get_ordered_run [OF assms] by (auto simp: get_buffer_size_def fold_sm_erase sum_list_filter_le)

lemma rb_exec_bounded:
  assumes "get_buffer_size rb \<le> max_buffer_size (rb_config rb)"
  shows "get_buffer_size (snd (rb_exec es rb)) \<le> max_buffer_size (rb_config rb)"
  using assms
proof (induction es rb rule: rb_exec.induct)
  case (2 s d t k es rb)
  then show ?case using add_packet_bounded [OF 2(2)] by (simp add: add_packet_config)
next
  case (3 stale now es rb)
  obtain out rb1 where g: "get_ordered_packets stale now rb = (out, rb1)" by fastforce
  then show ?case
    using 3(1) [OF g [symmetric] refl] 3(2) get_ordered_shrinks [OF g] by (auto split: prod.splits)
qed simp

subsection \<open>A stream in any order of arrival\<close>

text \<open>
  Packet \<open>i\<close> of a stream of \<open>n\<close> packets has the sequence number \<open>e + i\<close> and the fragment \<open>frag i\<close>.
  \<open>held\<close> is the buffer when the packets of \<open>R\<close> have arrived and those below \<open>m\<close> have been output.
\<close>

definition stream_seq :: "u64 \<Rightarrow> nat \<Rightarrow> u64" where
  "stream_seq e i = e + of_nat i"

definition stream_fragment :: "u64 \<Rightarrow> (nat \<Rightarrow> u8 list) \<Rightarrow> (nat \<Rightarrow> int) \<Rightarrow> (nat \<Rightarrow> bool) \<Rightarrow> nat \<Rightarrow> TsPacketFragment" where
  "stream_fragment e data ts kf i =
     \<lparr>tf_data = data i, tf_sequence_number = stream_seq e i, tf_timestamp_ms = ts i,
      tf_is_keyframe = kf i, tf_is_complete = (length (data i) mod SRS_TS_PACKET_SIZE = 0)\<rparr>"

definition held :: "u64 \<Rightarrow> nat \<Rightarrow> (nat \<Rightarrow> TsPacketFragment) \<Rightarrow> nat \<Rightarrow> nat set \<Rightarrow> (u64, TsPacketFragment) smap" where
  "held e n frag m R = map (\<lambda>i. (stream_seq e i, frag i)) (filter (\<lambda>i. i \<in> R) [m..<n])"

lemma stream_fragment_data: "tf_data (stream_fragment e data ts kf i) = data i"
  by (simp add: stream_fragment_def)

lemma unat_stream_seq: "unat e + i < 2 ^ 64 \<Longrightarrow> unat (stream_seq e i) = unat e + i"
  by (simp add: stream_seq_def unat_word_ariths unat_of_nat)

lemma stream_seq_less:
  assumes "unat e + n < 2 ^ 64" "i \<le> n" "j \<le> n"
  shows "stream_seq e i < stream_seq e j \<longleftrightarrow> i < j"
  using assms by (simp add: word_less_nat_alt unat_stream_seq)

lemma stream_seq_eq:
  assumes "unat e + n < 2 ^ 64" "i \<le> n" "j \<le> n"
  shows "stream_seq e i = stream_seq e j \<longleftrightarrow> i = j"
  using stream_seq_less [OF assms] stream_seq_less [OF assms(1,3,2)] by (metis less_irrefl linorder_neqE_nat)

lemma held_wf: "unat e + n < 2 ^ 64 \<Longrightarrow> sm_wf (held e n frag m R)"
  unfolding sm_wf_def held_def
  by (auto simp: sorted_wrt_map comp_def stream_seq_less
      intro!: sorted_wrt_mono_rel [OF _ sorted_wrt_filter [OF sorted_wrt_upt]])

lemma held_find:
  assumes "unat e + n < 2 ^ 64"
  shows "sm_find (held e n frag m R) x = Some f \<longleftrightarrow>
    (\<exists>i. m \<le> i \<and> i < n \<and> i \<in> R \<and> x = stream_seq e i \<and> f = frag i)"
  using held_wf [OF assms, of frag m R] by (auto simp: sm_find_iff held_def)

lemma held_find_index:
  assumes "unat e + n < 2 ^ 64" "i \<le> n"
  shows "sm_find (held e n frag m R) (stream_seq e i) =
    (if m \<le> i \<and> i < n \<and> i \<in> R then Some (frag i) else None)"
proof (cases "sm_find (held e n frag m R) (stream_seq e i)")
  case None
  then show ?thesis using held_find [OF assms(1), of frag m R "stream_seq e i" "frag i"] by auto
next
  case (Some f)
  then obtain j where "m \<le> j" "j < n" "j \<in> R" "stream_seq e i = stream_seq e j" "f = frag j"
    using held_find [OF assms(1), of frag m R "stream_seq e i" f] by blast
  moreover from this have "i = j" using stream_seq_eq [OF assms, of j] by simp
  ultimately show ?thesis using Some by simp
qed

lemma held_put:
  assumes "unat e + n < 2 ^ 64" "m \<le> i" "i < n"
  shows "sm_put (stream_seq e i) (frag i) (held e n frag m R) = held e n frag m (insert i R)"
proof (rule sm_ext)
  show "sm_find (sm_put (stream_seq e i) (frag i) (held e n frag m R)) k = Some v \<longleftrightarrow>
      sm_find (held e n frag m (insert i R)) k = Some v" for k v
  proof -
    have inj: "j < n \<Longrightarrow> stream_seq e i = stream_seq e j \<longleftrightarrow> j = i" for j
      using assms(3) stream_seq_eq [OF assms(1), of i j] by auto
    show ?thesis
      using assms(2,3) inj by (cases "k = stream_seq e i") (auto simp: held_find [OF assms(1)] sm_find_put_app)
  qed
qed (use assms in \<open>simp_all add: held_wf sm_wf_put\<close>)

lemma held_erase:
  assumes "unat e + n < 2 ^ 64" "m < n"
  shows "sm_erase (stream_seq e m) (held e n frag m R) = held e n frag (Suc m) R"
proof -
  have "stream_seq e i \<noteq> stream_seq e m" if "Suc m \<le> i" "i < n" for i
    using stream_seq_eq [OF assms(1), of i m] assms(2) that by simp
  then have "sm_erase (stream_seq e m) (held e n frag (Suc m) R) = held e n frag (Suc m) R"
    unfolding sm_erase_def by (intro filter_True) (auto simp: held_def)
  then show ?thesis using assms(2) by (simp add: held_def sm_erase_def upt_conv_Cons)
qed

lemma held_size:
  "sum_list (map (\<lambda>e. length (tf_data (snd e))) (held e n frag m R)) =
    sum (\<lambda>i. length (tf_data (frag i))) ({m..<n} \<inter> R)"
proof -
  have "{i \<in> {m..<n}. i \<in> R} = {m..<n} \<inter> R" by auto
  then show ?thesis by (simp add: held_def comp_def sum_list_distinct_conv_sum_set)
qed

text \<open>The state of the buffer after some of the stream: \<open>m\<close> packets output, those of \<open>R\<close> arrived.\<close>

definition stream_state :: "u64 \<Rightarrow> nat \<Rightarrow> (nat \<Rightarrow> TsPacketFragment) \<Rightarrow> nat \<Rightarrow> nat set \<Rightarrow> ReorderBuffer \<Rightarrow> bool" where
  "stream_state e n frag m R rb \<longleftrightarrow> m \<le> n \<and> {..<m} \<subseteq> R \<and>
     rb_expected_sequence rb = stream_seq e m \<and> rb_buffer rb = held e n frag m R"

lemma stream_add:
  assumes "unat e + n < 2 ^ 64" "e \<noteq> 0"
    and "stream_state e n (stream_fragment e data ts kf) m R rb" "i < n"
    and "(\<Sum>j < n. length (data j)) \<le> max_buffer_size (rb_config rb)"
  shows "stream_state e n (stream_fragment e data ts kf) m (insert i R)
    (snd (add_packet (stream_seq e i) (data i) (ts i) (kf i) rb))"
proof -
  let ?frag = "stream_fragment e data ts kf"
  have st: "m \<le> n" "{..<m} \<subseteq> R" "rb_expected_sequence rb = stream_seq e m" "rb_buffer rb = held e n ?frag m R"
    using assms(3) by (simp_all add: stream_state_def)
  have nz: "stream_seq e m \<noteq> 0"
  proof -
    have "unat (stream_seq e m) = unat e + m" using assms(1) st(1) by (intro unat_stream_seq) simp
    moreover have "unat e \<noteq> 0" using assms(2) by (simp add: unat_eq_zero)
    ultimately show ?thesis by auto
  qed
  have find: "sm_find (rb_buffer rb) (stream_seq e i) = (if m \<le> i \<and> i \<in> R then Some (?frag i) else None)"
    using held_find_index [OF assms(1), of i ?frag m R] assms(4) st(4) by simp
  have old: "stream_seq e i < stream_seq e m \<longleftrightarrow> i < m"
    using stream_seq_less [OF assms(1)] assms(4) st(1) by simp
  consider "i < m" | "m \<le> i" "i \<in> R" | "m \<le> i" "i \<notin> R" by linarith
  then show ?thesis
  proof cases
    case 1
    then have "insert i R = R" using st(2) by auto
    then show ?thesis using 1 st find old nz
      by (auto simp: stream_state_def add_packet_def Let_def)
  next
    case 2
    then have "insert i R = R" by auto
    then show ?thesis using 2 st find by (simp add: stream_state_def add_packet_def Let_def)
  next
    case 3
    have "get_buffer_size rb = (\<Sum>j \<in> {m..<n} \<inter> R. length (data j))"
      using st(4) by (simp add: get_buffer_size_def held_size stream_fragment_def)
    moreover have "(\<Sum>j \<in> insert i ({m..<n} \<inter> R). length (data j)) \<le> (\<Sum>j < n. length (data j))"
      using assms(4) by (intro sum_mono2) auto
    ultimately have "get_buffer_size rb + length (data i) \<le> max_buffer_size (rb_config rb)"
      using assms(5) 3 by (simp add: add.commute)
    then show ?thesis
      using 3 st find old nz held_put [OF assms(1) 3(1) assms(4), of ?frag R]
      by (auto simp: stream_state_def add_packet_def Let_def stream_fragment_def)
  qed
qed

lemma stream_poll:
  assumes "unat e + n < 2 ^ 64" "stream_state e n frag m R rb"
    and "\<And>i. i < n \<Longrightarrow> \<not> is_packet_expired (rb_config rb) (frag i) now"
  shows "\<exists>m' rb'. get_ordered_packets stale now rb =
      (concat (map (\<lambda>i. align_ts_packets (tf_data (frag i))) [m..<m']), rb') \<and>
    m \<le> m' \<and> stream_state e n frag m' R rb' \<and> rb_config rb' = rb_config rb \<and> (m' = n \<or> m' \<notin> R)"
  using assms(2,3)
proof (induction "n - m" arbitrary: m rb)
  case 0
  then have "m = n" by (simp add: stream_state_def)
  moreover have "sm_find (rb_buffer rb) (rb_expected_sequence rb) = None"
    using 0 held_find_index [OF assms(1), of m frag m R] \<open>m = n\<close> by (simp add: stream_state_def)
  ultimately show ?case
    using 0(2) get_ordered_None [of rb stale now] by (intro exI [of _ m] exI [of _ rb]) simp
next
  case (Suc d)
  then have m: "m < n" and st: "rb_expected_sequence rb = stream_seq e m" "rb_buffer rb = held e n frag m R"
      "{..<m} \<subseteq> R"
    by (simp_all add: stream_state_def)
  have find: "sm_find (rb_buffer rb) (rb_expected_sequence rb) = (if m \<in> R then Some (frag m) else None)"
    using held_find_index [OF assms(1), of m frag m R] m st by simp
  show ?case
  proof (cases "m \<in> R")
    case False
    then show ?thesis
      using Suc.prems find get_ordered_None [of rb stale now] by (intro exI [of _ m] exI [of _ rb]) simp
  next
    case True
    obtain al rb1 where t: "take_fragment stale now (frag m) rb = (al, rb1)" by fastforce
    note sh = take_fragment_shape [OF t]
    have al: "al = align_ts_packets (tf_data (frag m))" using sh Suc.prems(2) [OF m] by simp
    have "stream_state e n frag (Suc m) R rb1"
      using sh st m True held_erase [OF assms(1) m, of frag R]
      by (auto simp: stream_state_def stream_seq_def lessThan_Suc)
    then obtain m' rb' where ih: "get_ordered_packets stale now rb1 =
        (concat (map (\<lambda>i. align_ts_packets (tf_data (frag i))) [Suc m..<m']), rb')"
        "Suc m \<le> m'" "stream_state e n frag m' R rb'" "rb_config rb' = rb_config rb1" "m' = n \<or> m' \<notin> R"
    proof -
      have "d = n - Suc m" using Suc.hyps(2) by simp
      from Suc.hyps(1) [OF this \<open>stream_state e n frag (Suc m) R rb1\<close>] Suc.prems(2) sh show thesis
        by (auto intro: that)
    qed
    have "get_ordered_packets stale now rb = (al @ fst (get_ordered_packets stale now rb1), rb')"
      using find True t ih(1) by (simp add: get_ordered_packets.simps [of stale now rb])
    moreover have "[m..<m'] = m # [Suc m..<m']" using ih(2) by (simp add: upt_conv_Cons)
    ultimately show ?thesis
      using ih al sh by (intro exI [of _ m'] exI [of _ rb']) simp
  qed
qed

text \<open>The calls are those of the stream: packets of it arrive, and polls happen within its deadlines.\<close>

definition stream_event :: "ReorderBufferConfig \<Rightarrow> u64 \<Rightarrow> nat \<Rightarrow> (nat \<Rightarrow> u8 list) \<Rightarrow> (nat \<Rightarrow> int) \<Rightarrow> (nat \<Rightarrow> bool) \<Rightarrow>
    rb_event \<Rightarrow> bool" where
  "stream_event config e n data ts kf ev = (case ev of
     Add_Packet s d t k \<Rightarrow> (\<exists>i < n. s = stream_seq e i \<and> d = data i \<and> t = ts i \<and> k = kf i)
   | Get_Ordered stale now \<Rightarrow> (\<forall>i < n. \<not> is_packet_expired config (stream_fragment e data ts kf i) now))"

definition arrived :: "u64 \<Rightarrow> nat \<Rightarrow> rb_event list \<Rightarrow> nat set" where
  "arrived e n evs = {i. i < n \<and> (\<exists>d t k. Add_Packet (stream_seq e i) d t k \<in> set evs)}"

lemma arrived_Cons:
  assumes "unat e + n < 2 ^ 64"
  shows "arrived e n (Get_Ordered stale now # evs) = arrived e n evs"
    and "i < n \<Longrightarrow> arrived e n (Add_Packet (stream_seq e i) d t k # evs) = insert i (arrived e n evs)"
proof -
  show "arrived e n (Get_Ordered stale now # evs) = arrived e n evs" by (auto simp: arrived_def)
  assume "i < n"
  then have "stream_seq e j = stream_seq e i \<longleftrightarrow> j = i" if "j < n" for j
    using stream_seq_eq [OF assms, of j i] that by simp
  then show "arrived e n (Add_Packet (stream_seq e i) d t k # evs) = insert i (arrived e n evs)"
    using \<open>i < n\<close> by (auto simp: arrived_def)
qed

lemma stream_exec:
  assumes "unat e + n < 2 ^ 64" "e \<noteq> 0" "(\<Sum>j < n. length (data j)) \<le> max_buffer_size config"
    and "stream_state e n (stream_fragment e data ts kf) m R rb" "rb_config rb = config"
    and "\<forall>ev \<in> set evs. stream_event config e n data ts kf ev"
  shows "\<exists>m' rb'. rb_exec evs rb = (concat (map (\<lambda>i. align_ts_packets (data i)) [m..<m']), rb') \<and> m \<le> m' \<and>
    stream_state e n (stream_fragment e data ts kf) m' (R \<union> arrived e n evs) rb' \<and> rb_config rb' = config"
  using assms(4-6)
proof (induction evs arbitrary: m R rb)
  case Nil
  then show ?case by (intro exI [of _ m] exI [of _ rb]) (simp add: arrived_def)
next
  case (Cons ev evs)
  let ?frag = "stream_fragment e data ts kf"
  show ?case
  proof (cases ev)
    case (Add_Packet s d t k)
    then obtain i where i: "i < n" "s = stream_seq e i" "d = data i" "t = ts i" "k = kf i"
      using Cons.prems(3) by (auto simp: stream_event_def)
    let ?rb1 = "snd (add_packet s d t k rb)"
    have "stream_state e n ?frag m (insert i R) ?rb1"
      using stream_add [OF assms(1,2) Cons.prems(1) i(1)] assms(3) Cons.prems(2) i by simp
    from Cons.IH [OF this] show ?thesis
      using Cons.prems(2,3) Add_Packet i arrived_Cons(2) [OF assms(1) i(1)] by (simp add: add_packet_config)
  next
    case (Get_Ordered stale now)
    then obtain m1 rb1 where p: "get_ordered_packets stale now rb =
        (concat (map (\<lambda>i. align_ts_packets (tf_data (?frag i))) [m..<m1]), rb1)" "m \<le> m1"
        "stream_state e n ?frag m1 R rb1" "rb_config rb1 = rb_config rb"
      using stream_poll [OF assms(1) Cons.prems(1), of now stale] Cons.prems(2,3) by (auto simp: stream_event_def)
    obtain m' rb' where ih: "rb_exec evs rb1 = (concat (map (\<lambda>i. align_ts_packets (data i)) [m1..<m']), rb')"
        "m1 \<le> m'" "stream_state e n ?frag m' (R \<union> arrived e n evs) rb'" "rb_config rb' = config"
      using Cons.IH [OF p(3)] p(4) Cons.prems(2,3) by auto
    have "[m..<m'] = [m..<m1] @ [m1..<m']" using p(2) ih(2) by (metis le_Suc_ex upt_add_eq_append)
    then show ?thesis
      using p ih Get_Ordered arrived_Cons(1) [OF assms(1)]
      by (intro exI [of _ m'] exI [of _ rb']) (simp add: stream_fragment_data)
  qed
qed

section \<open>Properties\<close>


definition demo_packet :: "u8 \<Rightarrow> u8 list" where
  "demo_packet b = 0x47 # replicate 187 b"


text \<open>
  C27. One poll: \<open>get_ordered_packets\<close> always terminates, and hands out the TS packets of the longest run
  of consecutive sequence numbers that starts at the expected one, leaving out expired fragments. It
  removes exactly this run and expects the number after it, which has not arrived. What it read from
  erased map nodes has no influence on this.
\<close>

theorem get_ordered_packets_run:
  "let (out, rb') = get_ordered_packets stale now rb in
     \<exists>fs. out = concat (map (fragment_output (rb_config rb) now) fs) \<and>
       (\<forall>i < length fs. sm_find (rb_buffer rb) (rb_expected_sequence rb + of_nat i) = Some (fs ! i)) \<and>
       rb_expected_sequence rb' = rb_expected_sequence rb + of_nat (length fs) \<and>
       sm_find (rb_buffer rb') (rb_expected_sequence rb') = None \<and>
       rb_buffer rb' =
         filter (\<lambda>e. fst e \<notin> (\<lambda>i. rb_expected_sequence rb + of_nat i) ` {..<length fs}) (rb_buffer rb)"
proof -
  obtain out rb' where g: "get_ordered_packets stale now rb = (out, rb')" by fastforce
  then show ?thesis
    using get_ordered_run [OF g] by (auto simp: fold_sm_erase atLeast0LessThan)
qed

theorem get_ordered_packets_run_witness:
  "let rb = snd (add_packet 5 (demo_packet 0) 10 False (ReorderBuffer_new ReorderBufferConfig_default));
       rb' = snd (get_ordered_packets 0 20 rb)
   in sm_find (rb_buffer rb') (rb_expected_sequence rb') = None"
  using get_ordered_packets_run [of 0 20
      "snd (add_packet 5 (demo_packet 0) 10 False (ReorderBuffer_new ReorderBufferConfig_default))"]
  by (auto simp: Let_def split: prod.splits)

text \<open>
  Bounded memory: after any sequence of calls on a new reorder buffer the bytes it holds are at most
  \<open>max_buffer_size\<close>.
\<close>

theorem reorder_buffer_bounded:
  "get_buffer_size (snd (rb_exec evs (ReorderBuffer_new config))) \<le> max_buffer_size config"
  using rb_exec_bounded [of "ReorderBuffer_new config" evs]
  by (simp add: ReorderBuffer_new_def get_buffer_size_def)

text \<open>
  TS alignment: \<open>align_ts_packets\<close> cuts the fragment into packets of exactly 188 bytes that follow
  each other without a gap from the first sync byte \<open>0x47\<close> among the first 188 bytes, or from the start
  when there is none, and leaves less than one packet at the end.
\<close>

theorem align_ts_packets_cuts:
  "\<exists>start. (\<forall>p \<in> set (align_ts_packets data). length p = 188) \<and>
     concat (align_ts_packets data) = take (188 * length (align_ts_packets data)) (drop start data) \<and>
     length data < start + 188 * length (align_ts_packets data) + 188 \<and>
     (if 0x47 \<in> set (take 188 data) then start < length data \<and> data ! start = 0x47 else start = 0)"
proof -
  define start where "start = (case find_sync 0 (take 188 data) of None \<Rightarrow> 0 | Some i \<Rightarrow> i)"
  have al: "align_ts_packets data = cut_packets (drop start data)"
    by (simp add: align_ts_packets_def Let_def start_def [symmetric] cut_packets.simps [of data] cut_packets.simps [of "[]"])
  have "if 0x47 \<in> set (take 188 data) then start < length data \<and> data ! start = 0x47 else start = 0"
    using find_sync_Some [of 0 "take 188 data"] find_sync_None [of 0 "take 188 data"]
    by (auto simp: start_def split: option.splits)
  moreover have "length data < start + 188 * (length (drop start data) div 188) + 188"
    using mod_less_divisor [of 188 "length data - start"] mult_div_mod_eq [of 188 "length data - start"]
    by (simp only: length_drop)
  ultimately show ?thesis
    unfolding al using conjunct1 [OF conjunct2 [OF cut_packets_concat [of "drop start data"]]]
      conjunct1 [OF cut_packets_concat [of "drop start data"]]
      conjunct2 [OF conjunct2 [OF cut_packets_concat [of "drop start data"]]]
    by (intro exI [of _ start] conjI) (assumption | simp only:)+
qed

lemma align_demo: "align_ts_packets [0, 0x47] = []"
  by (simp add: align_ts_packets_def cut_packets.simps [of "[0x47]"] cut_packets.simps [of "[0, 0x47]"])

theorem align_ts_packets_cuts_witness:
  "\<exists>start. [0, 0x47 :: u8] ! start = 0x47 \<and> 2 < start + 188"
  using align_ts_packets_cuts [of "[0, 0x47]"] by (auto simp: align_demo)

lemma exec_stalls:
  assumes "rb_expected_sequence rb \<noteq> 0" "sm_find (rb_buffer rb) (rb_expected_sequence rb) = None"
    and "\<forall>s d t k. Add_Packet s d t k \<in> set evs \<longrightarrow> s \<noteq> rb_expected_sequence rb"
  shows "fst (rb_exec evs rb) = [] \<and> rb_expected_sequence (snd (rb_exec evs rb)) = rb_expected_sequence rb"
  using assms
proof (induction evs rb rule: rb_exec.induct)
  case (2 s d t k es rb)
  have "s \<noteq> rb_expected_sequence rb" using 2(4) by simp
  then have "rb_expected_sequence (snd (add_packet s d t k rb)) = rb_expected_sequence rb"
    "sm_find (rb_buffer (snd (add_packet s d t k rb))) (rb_expected_sequence rb) = None"
    using 2(2,3) by (auto simp: add_packet_def Let_def sm_find_put_app)
  moreover have "\<forall>s' d t k. Add_Packet s' d t k \<in> set es \<longrightarrow> s' \<noteq> rb_expected_sequence rb"
    using 2(4) by auto
  ultimately show ?case using 2(1,2) by simp
next
  case (3 stale now es rb)
  then show ?case using get_ordered_None [of rb stale now] by (simp split: prod.splits)
qed simp

text \<open>
  C28. A lost packet stalls the output for good: when the expected packet is not in the buffer, then as
  long as it does not arrive no sequence of calls, at whatever times, yields any packet or moves the
  expected number. The reorder window and the key frame deadline apply to packets that have arrived,
  never to the gap.
\<close>

theorem reorder_gap_stalls:
  assumes "rb_expected_sequence rb \<noteq> 0" "sm_find (rb_buffer rb) (rb_expected_sequence rb) = None"
    and "\<forall>s d t k. Add_Packet s d t k \<in> set evs \<longrightarrow> s \<noteq> rb_expected_sequence rb"
  shows "fst (rb_exec evs rb) = [] \<and> rb_expected_sequence (snd (rb_exec evs rb)) = rb_expected_sequence rb"
  by (rule exec_stalls [OF assms])

theorem reorder_gap_stalls_witness:
  "fst (rb_exec [Add_Packet 6 (demo_packet 1) 10 False, Get_Ordered 0 1000000]
      (set_expected_sequence 5 (ReorderBuffer_new ReorderBufferConfig_default))) = []"
proof -
  let ?rb = "set_expected_sequence 5 (ReorderBuffer_new ReorderBufferConfig_default)"
  have "rb_expected_sequence ?rb = 5" "rb_buffer ?rb = []"
    by (simp_all add: set_expected_sequence_def ReorderBuffer_new_def)
  then show ?thesis
    using reorder_gap_stalls [of ?rb "[Add_Packet 6 (demo_packet 1) 10 False, Get_Ordered 0 1000000]"] by simp
qed

end
