(* ===== verification/Std_Frame.thy ===== *)
theory Std_Frame
  imports Srs_Prelude
begin

text \<open>
  \<open>adapter/common/std_frame.hpp\<close>: the frame that every adapter produces, with the timestamp and codec
  helpers. An \<open>int64_t\<close> time in milliseconds is an \<open>int\<close>; C++ division truncates towards zero, which
  is \<open>sdiv\<close>. Dividing by a zero sample rate is the result \<open>DIVISION_BY_ZERO\<close>.
\<close>

record StdFrame =
  codec :: string
  dts_ms :: int
  pts_ms :: int
  keyframe :: bool
  extradata :: "u8 list"
  stream_id :: string
  width :: u32
  height :: u32
  sample_rate :: u32
  channels :: u32
  bitrate :: u32
  duration_ms :: int
  has_pts :: bool
  payload :: "u8 list"

definition StdFrame_default :: StdFrame where
  "StdFrame_default = \<lparr>codec = '''', dts_ms = 0, pts_ms = 0, keyframe = False, extradata = [],
     stream_id = '''', width = 0, height = 0, sample_rate = 0, channels = 0, bitrate = 0,
     duration_ms = 0, has_pts = False, payload = []\<rparr>"

definition StdFrame_new :: "string \<Rightarrow> int \<Rightarrow> int \<Rightarrow> StdFrame" where
  "StdFrame_new c dts pts =
     StdFrame_default\<lparr>codec := c, dts_ms := dts, pts_ms := pts, has_pts := (pts \<noteq> 0)\<rparr>"

definition set_video_params :: "u32 \<Rightarrow> u32 \<Rightarrow> bool \<Rightarrow> StdFrame \<Rightarrow> StdFrame" where
  "set_video_params w h k f = f\<lparr>width := w, height := h, keyframe := k\<rparr>"

definition set_audio_params :: "u32 \<Rightarrow> u32 \<Rightarrow> StdFrame \<Rightarrow> StdFrame" where
  "set_audio_params r c f = f\<lparr>sample_rate := r, channels := c\<rparr>"

definition set_extradata :: "u8 list \<Rightarrow> StdFrame \<Rightarrow> StdFrame" where
  "set_extradata d f = f\<lparr>extradata := d\<rparr>"

definition set_payload :: "u8 list \<Rightarrow> StdFrame \<Rightarrow> StdFrame" where
  "set_payload d f = f\<lparr>payload := d\<rparr>"

definition set_stream_id :: "string \<Rightarrow> string \<Rightarrow> string \<Rightarrow> StdFrame \<Rightarrow> StdFrame" where
  "set_stream_id vhost app stream f = f\<lparr>stream_id := vhost @ ''/'' @ app @ ''/'' @ stream\<rparr>"

definition is_valid :: "StdFrame \<Rightarrow> bool" where
  "is_valid f =
     (if codec f = '''' \<or> payload f = [] then False
      else if has_pts f \<and> pts_ms f < dts_ms f then False
      else True)"

section \<open>CodecUtils\<close>

definition is_video_codec :: "string \<Rightarrow> bool" where
  "is_video_codec c \<longleftrightarrow> c = ''H264'' \<or> c = ''H265''"

definition is_audio_codec :: "string \<Rightarrow> bool" where
  "is_audio_codec c \<longleftrightarrow> c = ''AAC'' \<or> c = ''OPUS'' \<or> c = ''PCM_ALAW'' \<or> c = ''PCM_ULAW''"

definition is_video :: "StdFrame \<Rightarrow> bool" where
  "is_video f \<longleftrightarrow> codec f = ''H264'' \<or> codec f = ''H265''"

definition is_audio :: "StdFrame \<Rightarrow> bool" where
  "is_audio f \<longleftrightarrow> codec f = ''AAC'' \<or> codec f = ''OPUS'' \<or> codec f = ''PCM_ALAW'' \<or>
     codec f = ''PCM_ULAW''"

definition get_default_sample_rate :: "string \<Rightarrow> u32" where
  "get_default_sample_rate c =
     (if c = ''AAC'' then 44100
      else if c = ''OPUS'' then 48000
      else if c = ''PCM_ALAW'' \<or> c = ''PCM_ULAW'' then 8000
      else 0)"

definition get_default_channels :: "string \<Rightarrow> u32" where
  "get_default_channels c =
     (if c = ''AAC'' \<or> c = ''OPUS'' then 2
      else if c = ''PCM_ALAW'' \<or> c = ''PCM_ULAW'' then 1
      else 0)"

section \<open>TimestampConverter\<close>

definition ts90k_to_ms :: "int \<Rightarrow> int" where
  "ts90k_to_ms ts = ts sdiv 90"

definition ms_to_ts90k :: "int \<Rightarrow> int" where
  "ms_to_ts90k ms = ms * 90"

definition samples_to_ms :: "u32 \<Rightarrow> u32 \<Rightarrow> int res" where
  "samples_to_ms samples rate =
     (if rate = 0 then Inl DIVISION_BY_ZERO else Inr ((uint samples * 1000) sdiv uint rate))"

definition ms_to_samples :: "int \<Rightarrow> u32 \<Rightarrow> u32" where
  "ms_to_samples ms rate = word_of_int ((ms * uint rate) sdiv 1000)"

definition validate_b_frame_timing :: "int \<Rightarrow> int \<Rightarrow> bool" where
  "validate_b_frame_timing dts pts \<longleftrightarrow> pts \<ge> dts"

definition calculate_duration_ms :: "u32 \<Rightarrow> u32 \<Rightarrow> int res" where
  "calculate_duration_ms samples rate = samples_to_ms samples rate"

section \<open>Facts\<close>

lemma sdiv_nonneg: "0 \<le> a \<Longrightarrow> 0 < b \<Longrightarrow> a sdiv b = a div b" for a b :: int
  by (simp add: signed_divide_int_def sgn_if)

lemma ts90k_roundtrip: "ts90k_to_ms (ms_to_ts90k ms) = ms"
  by (cases "ms \<ge> 0")
    (auto simp: ts90k_to_ms_def ms_to_ts90k_def signed_divide_int_def sgn_if abs_mult zero_less_mult_iff mult_less_0_iff)

lemma ts90k_error:
  assumes "0 \<le> ts"
  shows "ms_to_ts90k (ts90k_to_ms ts) \<le> ts" and "ts < ms_to_ts90k (ts90k_to_ms ts) + 90"
  using assms by (auto simp: ts90k_to_ms_def ms_to_ts90k_def sdiv_nonneg)

lemma samples_roundtrip:
  assumes "0 \<le> ms" "0 < rate" "ms * uint rate < 1000 * 2 ^ 32" "1000 dvd ms * uint rate"
  shows "samples_to_ms (ms_to_samples ms rate) rate = Inr ms"
proof -
  have r: "0 < uint rate" using assms(2) by (simp add: word_less_def)
  obtain q where q: "ms * uint rate = 1000 * q" using assms(4) by blast
  have "0 \<le> ms * uint rate" using assms(1) r by simp
  then have q0: "0 \<le> q" using q by linarith
  have "q < 2 ^ 32" using q assms(3) by linarith
  then have "uint (ms_to_samples ms rate) = q"
    using q q0 by (simp add: ms_to_samples_def sdiv_nonneg uint_word_of_int)
  moreover have "(q * 1000) div uint rate = ms" using q r by (metis mult.commute nonzero_mult_div_cancel_right less_irrefl)
  ultimately show ?thesis using assms(2) q0 r by (auto simp: samples_to_ms_def sdiv_nonneg)
qed

text \<open>
  Timestamp conversion: milliseconds survive the way through the 90 kHz clock and back, for every
  timestamp including negative ones; a non-negative 90 kHz timestamp comes back rounded down to less
  than one millisecond below itself; and a duration that is a whole number of samples survives the way
  through sample counts.
\<close>

theorem timestamp_conversions:
  "(\<forall>ms. ts90k_to_ms (ms_to_ts90k ms) = ms) \<and>
   (\<forall>ts \<ge> 0. ms_to_ts90k (ts90k_to_ms ts) \<le> ts \<and> ts < ms_to_ts90k (ts90k_to_ms ts) + 90) \<and>
   (\<forall>ms rate. 0 \<le> ms \<longrightarrow> 0 < rate \<longrightarrow> ms * uint rate < 1000 * 2 ^ 32 \<longrightarrow> 1000 dvd ms * uint rate \<longrightarrow>
      samples_to_ms (ms_to_samples ms rate) rate = Inr ms)"
  using ts90k_roundtrip ts90k_error samples_roundtrip by blast

theorem timestamp_conversions_witness:
  "samples_to_ms (ms_to_samples 20 48000) 48000 = Inr 20 \<and> ms_to_ts90k (ts90k_to_ms 91) \<le> 91"
proof -
  have "uint (48000 :: u32) = 48000" by simp
  then show ?thesis using timestamp_conversions by (auto simp: word_less_def)
qed

end
