(* ===== verification/Jitter_Buffer.thy ===== *)
theory Jitter_Buffer
  imports Std_Frame Std_Map "HOL-Library.Multiset"
begin

text \<open>
  \<open>JitterBuffer\<close> of \<open>adapter/components/frame/jitter_buffer.hpp\<close>. The \<open>std::priority_queue\<close>, a minimum
  heap on the DTS, is used through the contract \<open>prio_queue\<close>; the model keeps its content as a list in
  DTS order. Every operation holds the mutex throughout, so the operations are atomic; \<open>pop\<close> is
  modelled on the state in which its wait ends. The monotonic clock is the argument \<open>now\<close>.
\<close>

section \<open>Priority queues\<close>

locale prio_queue =
  fixes push :: "'f \<Rightarrow> 'q \<Rightarrow> 'q" and top :: "'q \<Rightarrow> 'f" and pop :: "'q \<Rightarrow> 'q"
    and items :: "'q \<Rightarrow> 'f multiset" and key :: "'f \<Rightarrow> int" and inv :: "'q \<Rightarrow> bool"
  assumes items_push: "items (push f q) = add_mset f (items q)"
    and items_pop: "inv q \<Longrightarrow> items q \<noteq> {#} \<Longrightarrow> items q = add_mset (top q) (items (pop q))"
    and top_least: "inv q \<Longrightarrow> items q \<noteq> {#} \<Longrightarrow> f \<in># items q \<Longrightarrow> key (top q) \<le> key f"
    and inv_push: "inv q \<Longrightarrow> inv (push f q)"
    and inv_pop: "inv q \<Longrightarrow> items q \<noteq> {#} \<Longrightarrow> inv (pop q)"
begin

fun drain :: "nat \<Rightarrow> 'q \<Rightarrow> 'f list" where
  "drain 0 q = []"
| "drain (Suc n) q = (if items q = {#} then [] else top q # drain n (pop q))"

lemma mset_drain: "inv q \<Longrightarrow> size (items q) \<le> n \<Longrightarrow> mset (drain n q) = items q"
proof (induction n arbitrary: q)
  case (Suc n)
  show ?case
  proof (cases "items q = {#}")
    case False
    then have "items q = add_mset (top q) (items (pop q))" using items_pop Suc.prems(1) by blast
    moreover from this have "size (items (pop q)) \<le> n" using Suc.prems(2) by simp
    moreover have "inv (pop q)" using inv_pop Suc.prems(1) False by blast
    ultimately show ?thesis using Suc.IH False by simp
  qed simp
qed simp

lemma sorted_drain: "inv q \<Longrightarrow> size (items q) \<le> n \<Longrightarrow> sorted (map key (drain n q))"
proof (induction n arbitrary: q)
  case (Suc n)
  show ?case
  proof (cases "items q = {#}")
    case False
    note pop = items_pop [OF Suc.prems(1) False]
    have le: "size (items (pop q)) \<le> n" using Suc.prems(2) pop by simp
    have inv: "inv (pop q)" by (rule inv_pop [OF Suc.prems(1) False])
    have "key (top q) \<le> key f" if "f \<in> set (drain n (pop q))" for f
    proof -
      have "f \<in># items (pop q)" using that mset_drain [OF inv le] by (metis set_mset_mset)
      then have "f \<in># items q" using pop by simp
      then show ?thesis by (rule top_least [OF Suc.prems(1) False])
    qed
    then show ?thesis using False Suc.IH [OF inv le] by simp
  qed simp
qed simp

end

section \<open>The code\<close>

record JitterBufferConfig =
  window_ms :: int
  max_delay_ms :: int
  enable_reorder :: bool
  drop_late_frames :: bool
  max_frames :: nat
  flush_interval_ms :: int

definition JitterBufferConfig_default :: JitterBufferConfig where
  "JitterBufferConfig_default = \<lparr>window_ms = 200, max_delay_ms = 500, enable_reorder = True,
     drop_late_frames = True, max_frames = 50, flush_interval_ms = 10\<rparr>"

record JitterBufferStats =
  js_total_frames :: u64
  js_reordered_frames :: u64
  js_dropped_frames :: u64
  js_late_frames :: u64
  js_duplicate_frames :: u64
  js_max_jitter_ms :: int
  js_avg_jitter_ms :: int

definition JitterBufferStats_new :: JitterBufferStats where
  "JitterBufferStats_new = \<lparr>js_total_frames = 0, js_reordered_frames = 0, js_dropped_frames = 0,
     js_late_frames = 0, js_duplicate_frames = 0, js_max_jitter_ms = 0, js_avg_jitter_ms = 0\<rparr>"

record FrameWrapper =
  fw_frame :: StdFrame
  fw_receive_time_ms :: int
  fw_is_duplicate :: bool

definition FrameWrapper_new :: "StdFrame \<Rightarrow> int \<Rightarrow> FrameWrapper" where
  "FrameWrapper_new f recv_time =
     \<lparr>fw_frame = f, fw_receive_time_ms = recv_time, fw_is_duplicate = False\<rparr>"

abbreviation fw_dts :: "FrameWrapper \<Rightarrow> int" where
  "fw_dts w \<equiv> dts_ms (fw_frame w)"

record JitterBuffer =
  jb_config :: JitterBufferConfig
  jb_buffer :: "FrameWrapper list"
  jb_last_output_dts :: int
  jb_last_receive_time :: int
  jb_dts_history :: "(int, int) smap"
  jb_stats :: JitterBufferStats
  jb_is_flushing :: bool
  jb_is_closed :: bool

definition JitterBuffer_new :: "JitterBufferConfig \<Rightarrow> JitterBuffer" where
  "JitterBuffer_new config = \<lparr>jb_config = config, jb_buffer = [], jb_last_output_dts = 0,
     jb_last_receive_time = 0, jb_dts_history = [], jb_stats = JitterBufferStats_new,
     jb_is_flushing = False, jb_is_closed = False\<rparr>"

definition is_frame_late :: "int \<Rightarrow> JitterBuffer \<Rightarrow> bool" where
  "is_frame_late dts jb =
     (if jb_last_output_dts jb = 0 then False
      else dts < jb_last_output_dts jb + max_delay_ms (jb_config jb))"

definition is_frame_duplicate :: "int \<Rightarrow> JitterBuffer \<Rightarrow> bool" where
  "is_frame_duplicate dts jb \<longleftrightarrow> sm_find (jb_dts_history jb) dts \<noteq> None"

definition update_jitter_stats :: "int \<Rightarrow> int \<Rightarrow> JitterBufferStats \<Rightarrow> JitterBufferStats" where
  "update_jitter_stats expected_dts actual_dts st =
     (if expected_dts > 0
      then (let jitter = actual_dts - expected_dts in
            st\<lparr>js_max_jitter_ms := (if jitter > js_max_jitter_ms st then jitter else js_max_jitter_ms st),
               js_avg_jitter_ms := (js_avg_jitter_ms st + jitter) sdiv 2\<rparr>)
      else st)"

definition jq_push :: "FrameWrapper \<Rightarrow> FrameWrapper list \<Rightarrow> FrameWrapper list" where
  "jq_push w q = insort_key fw_dts w q"

definition jb_push :: "int \<Rightarrow> StdFrame \<Rightarrow> JitterBuffer \<Rightarrow> unit res \<times> JitterBuffer" where
  "jb_push now frame jb =
     (if jb_is_closed jb then (Inl ERROR_SOCKET_CLOSED, jb)
      else (let st = (jb_stats jb)\<lparr>js_total_frames := js_total_frames (jb_stats jb) + 1\<rparr>;
                late = is_frame_late (dts_ms frame) jb in
        if is_frame_duplicate (dts_ms frame) jb
        then (srs_success, jb\<lparr>jb_stats := st\<lparr>js_duplicate_frames := js_duplicate_frames st + 1\<rparr>\<rparr>)
        else (let st1 = (if late then st\<lparr>js_late_frames := js_late_frames st + 1\<rparr> else st) in
          if late \<and> drop_late_frames (jb_config jb)
          then (srs_success, jb\<lparr>jb_stats := st1\<lparr>js_dropped_frames := js_dropped_frames st1 + 1\<rparr>\<rparr>)
          else (let st2 = (if jb_last_output_dts jb > 0 \<and> dts_ms frame < jb_last_output_dts jb
                           then st1\<lparr>js_reordered_frames := js_reordered_frames st1 + 1\<rparr> else st1);
                    st3 = update_jitter_stats (jb_last_output_dts jb) (dts_ms frame) st2
                in (srs_success,
                    jb\<lparr>jb_stats := st3,
                       jb_buffer := jq_push (FrameWrapper_new frame now) (jb_buffer jb),
                       jb_last_receive_time := now,
                       jb_dts_history := sm_put (dts_ms frame) now (jb_dts_history jb)\<rparr>)))))"

definition jb_pop :: "JitterBuffer \<Rightarrow> StdFrame res \<times> JitterBuffer" where
  "jb_pop jb =
     (if jb_buffer jb = [] \<and> \<not> jb_is_closed jb then (Inl ERROR_SOCKET_TIMEOUT, jb)
      else if jb_is_closed jb then (Inl ERROR_SOCKET_CLOSED, jb)
      else (let frame = fw_frame (hd (jb_buffer jb)) in
            (Inr frame, jb\<lparr>jb_buffer := tl (jb_buffer jb), jb_last_output_dts := dts_ms frame\<rparr>)))"

definition jb_flush :: "JitterBuffer \<Rightarrow> unit res \<times> JitterBuffer" where
  "jb_flush jb = (srs_success, jb\<lparr>jb_buffer := [], jb_is_flushing := False\<rparr>)"

definition jb_clear :: "JitterBuffer \<Rightarrow> JitterBuffer" where
  "jb_clear jb = jb\<lparr>jb_buffer := [], jb_last_output_dts := 0, jb_last_receive_time := 0,
     jb_dts_history := [], jb_is_flushing := False\<rparr>"

definition jb_size :: "JitterBuffer \<Rightarrow> nat" where
  "jb_size jb = length (jb_buffer jb)"

definition jb_empty :: "JitterBuffer \<Rightarrow> bool" where
  "jb_empty jb \<longleftrightarrow> jb_buffer jb = []"

definition jb_get_stats :: "JitterBuffer \<Rightarrow> JitterBufferStats" where
  "jb_get_stats jb = jb_stats jb"

definition jb_reset_stats :: "JitterBuffer \<Rightarrow> JitterBuffer" where
  "jb_reset_stats jb = jb\<lparr>jb_stats := JitterBufferStats_new\<rparr>"

definition jb_update_config :: "JitterBufferConfig \<Rightarrow> JitterBuffer \<Rightarrow> JitterBuffer" where
  "jb_update_config config jb = jb\<lparr>jb_config := config\<rparr>"

definition get_earliest_dts :: "JitterBuffer \<Rightarrow> int" where
  "get_earliest_dts jb = (if jb_buffer jb = [] then 0 else fw_dts (hd (jb_buffer jb)))"

text \<open>The loop pops a copy of the queue and keeps the maximum, starting from \<open>0\<close>.\<close>

definition get_latest_dts :: "JitterBuffer \<Rightarrow> int" where
  "get_latest_dts jb =
     (if jb_buffer jb = [] then 0 else fold (\<lambda>w latest. max latest (fw_dts w)) (jb_buffer jb) 0)"

interpretation jq: prio_queue jq_push hd tl mset fw_dts "\<lambda>q. sorted (map fw_dts q)"
proof unfold_locales
  show "mset (jq_push f q) = add_mset f (mset q)" for f q by (simp add: jq_push_def)
  show "sorted (map fw_dts (jq_push f q))" if "sorted (map fw_dts q)" for f q
    using that by (simp add: jq_push_def sorted_insort_key)
  fix q :: "FrameWrapper list" and f
  assume q: "sorted (map fw_dts q)" "mset q \<noteq> {#}"
  show "mset q = add_mset (hd q) (mset (tl q))" using q by (cases q) auto
  show "sorted (map fw_dts (tl q))" using q by (cases q) auto
  show "fw_dts (hd q) \<le> fw_dts f" if "f \<in># mset q" using q that by (cases q) auto
qed

section \<open>Invariant\<close>

text \<open>
  The queue is in strict DTS order and every queued DTS is in the history, so the heap never has to
  choose between equal keys and the list determines what \<open>top\<close> and \<open>pop\<close> return.
\<close>

definition jb_inv :: "JitterBuffer \<Rightarrow> bool" where
  "jb_inv jb \<longleftrightarrow> sorted_wrt (<) (map fw_dts (jb_buffer jb)) \<and>
     (\<forall>w \<in> set (jb_buffer jb). sm_find (jb_dts_history jb) (fw_dts w) \<noteq> None)"

lemma jb_inv_new: "jb_inv (JitterBuffer_new c)"
  by (simp add: jb_inv_def JitterBuffer_new_def)

lemma jq_push_strict:
  assumes "sorted_wrt (<) (map fw_dts q)" "fw_dts w \<notin> fw_dts ` set q"
  shows "sorted_wrt (<) (map fw_dts (jq_push w q))"
proof -
  have "sorted (map fw_dts q)" "distinct (map fw_dts q)" using assms(1) by (auto simp: strict_sorted_iff)
  moreover have "distinct (map fw_dts (jq_push w q))"
  proof -
    have "mset (map fw_dts (jq_push w q)) = mset (fw_dts w # map fw_dts q)" by (simp add: jq_push_def)
    from mset_eq_imp_distinct_iff [OF this] show ?thesis using calculation(2) assms(2) by simp
  qed
  ultimately show ?thesis
    using jq.inv_push [of q w] by (simp add: strict_sorted_iff)
qed

lemma set_jq_push: "set (jq_push w q) = insert w (set q)"
  by (simp add: jq_push_def set_insort_key)

text \<open>What a successful push does to the parts of the state that decide about frames.\<close>

lemma jb_push_cases:
  assumes "\<not> jb_is_closed jb"
  obtains (duplicate) "sm_find (jb_dts_history jb) (dts_ms f) \<noteq> None"
      "jb_push now f jb = (srs_success, jb\<lparr>jb_stats := (jb_stats jb)\<lparr>js_total_frames := js_total_frames (jb_stats jb) + 1,
         js_duplicate_frames := js_duplicate_frames (jb_stats jb) + 1\<rparr>\<rparr>)"
  | (late) "sm_find (jb_dts_history jb) (dts_ms f) = None" "is_frame_late (dts_ms f) jb" "drop_late_frames (jb_config jb)"
      "jb_push now f jb = (srs_success, jb\<lparr>jb_stats := (jb_stats jb)\<lparr>js_total_frames := js_total_frames (jb_stats jb) + 1,
         js_late_frames := js_late_frames (jb_stats jb) + 1, js_dropped_frames := js_dropped_frames (jb_stats jb) + 1\<rparr>\<rparr>)"
  | (accepted) st where "sm_find (jb_dts_history jb) (dts_ms f) = None"
      "\<not> (is_frame_late (dts_ms f) jb \<and> drop_late_frames (jb_config jb))"
      "jb_push now f jb = (srs_success, jb\<lparr>jb_stats := st, jb_buffer := jq_push (FrameWrapper_new f now) (jb_buffer jb),
         jb_last_receive_time := now, jb_dts_history := sm_put (dts_ms f) now (jb_dts_history jb)\<rparr>)"
      "js_duplicate_frames st = js_duplicate_frames (jb_stats jb)" "js_dropped_frames st = js_dropped_frames (jb_stats jb)"
      "js_total_frames st = js_total_frames (jb_stats jb) + 1"
proof -
  let ?st = "(jb_stats jb)\<lparr>js_total_frames := js_total_frames (jb_stats jb) + 1\<rparr>"
  let ?late = "is_frame_late (dts_ms f) jb"
  let ?st1 = "if ?late then ?st\<lparr>js_late_frames := js_late_frames ?st + 1\<rparr> else ?st"
  let ?st2 = "if jb_last_output_dts jb > 0 \<and> dts_ms f < jb_last_output_dts jb
      then ?st1\<lparr>js_reordered_frames := js_reordered_frames ?st1 + 1\<rparr> else ?st1"
  let ?st3 = "update_jitter_stats (jb_last_output_dts jb) (dts_ms f) ?st2"
  consider "sm_find (jb_dts_history jb) (dts_ms f) \<noteq> None"
    | "sm_find (jb_dts_history jb) (dts_ms f) = None" "?late" "drop_late_frames (jb_config jb)"
    | "sm_find (jb_dts_history jb) (dts_ms f) = None" "\<not> (?late \<and> drop_late_frames (jb_config jb))" by blast
  then show ?thesis
  proof cases
    case 3
    have "jb_push now f jb = (srs_success, jb\<lparr>jb_stats := ?st3, jb_buffer := jq_push (FrameWrapper_new f now) (jb_buffer jb),
         jb_last_receive_time := now, jb_dts_history := sm_put (dts_ms f) now (jb_dts_history jb)\<rparr>)"
      using assms 3 by (simp only: jb_push_def is_frame_duplicate_def Let_def if_False simp_thms if_cancel)
    moreover have "js_duplicate_frames ?st3 = js_duplicate_frames (jb_stats jb)"
      "js_dropped_frames ?st3 = js_dropped_frames (jb_stats jb)"
      "js_total_frames ?st3 = js_total_frames (jb_stats jb) + 1"
      by (simp_all add: update_jitter_stats_def Let_def)
    ultimately show ?thesis by (rule accepted [OF 3])
  qed (use assms duplicate late in \<open>simp_all add: jb_push_def is_frame_duplicate_def\<close>)
qed

lemma jb_push_inv:
  assumes "jb_inv jb"
  shows "jb_inv (snd (jb_push now f jb))"
proof (cases "jb_is_closed jb")
  case False
  then show ?thesis
  proof (cases rule: jb_push_cases [of jb f now])
    case (accepted st)
    have "dts_ms f \<notin> fw_dts ` set (jb_buffer jb)" using assms accepted(1) by (auto simp: jb_inv_def)
    then have "sorted_wrt (<) (map fw_dts (jq_push (FrameWrapper_new f now) (jb_buffer jb)))"
      using assms by (intro jq_push_strict) (simp_all add: jb_inv_def FrameWrapper_new_def)
    then show ?thesis
      using assms accepted(3) by (auto simp: jb_inv_def set_jq_push sm_find_put_app FrameWrapper_new_def)
  qed (use assms in \<open>simp_all add: jb_inv_def\<close>)
qed (use assms in \<open>simp add: jb_push_def\<close>)

lemma jb_pop_inv: "jb_inv jb \<Longrightarrow> jb_inv (snd (jb_pop jb))"
  by (cases "jb_buffer jb") (auto simp: jb_inv_def jb_pop_def Let_def)

section \<open>Sequences of calls\<close>

datatype jb_event = Push int StdFrame | Pop

fun jb_run :: "jb_event list \<Rightarrow> JitterBuffer \<Rightarrow> StdFrame list \<times> JitterBuffer" where
  "jb_run [] jb = ([], jb)"
| "jb_run (Push now f # es) jb = jb_run es (snd (jb_push now f jb))"
| "jb_run (Pop # es) jb =
     (case jb_pop jb of
        (Inl e, jb1) \<Rightarrow> jb_run es jb1
      | (Inr f, jb1) \<Rightarrow> (let (out, jb2) = jb_run es jb1 in (f # out, jb2)))"

text \<open>\<open>L\<close> is the DTS of the last frame handed out: everything queued lies above it.\<close>

definition jb_above :: "int option \<Rightarrow> JitterBuffer \<Rightarrow> bool" where
  "jb_above L jb \<longleftrightarrow> jb_inv jb \<and> \<not> jb_is_closed jb \<and> drop_late_frames (jb_config jb) \<and>
     0 \<le> max_delay_ms (jb_config jb) \<and> (\<forall>w \<in> set (jb_buffer jb). 0 \<le> fw_dts w) \<and>
     (case L of None \<Rightarrow> jb_last_output_dts jb = 0
      | Some l \<Rightarrow> 0 \<le> l \<and> jb_last_output_dts jb = l \<and> sm_find (jb_dts_history jb) l \<noteq> None \<and>
          (\<forall>w \<in> set (jb_buffer jb). l < fw_dts w))"

lemma jb_above_push:
  assumes "jb_above L jb" "0 \<le> dts_ms f"
  shows "jb_above L (snd (jb_push now f jb))"
proof -
  have "\<not> jb_is_closed jb" using assms(1) by (simp add: jb_above_def)
  then show ?thesis
  proof (cases rule: jb_push_cases [of jb f now])
    case (accepted st)
    have "l < dts_ms f" if "L = Some l" for l
      using that assms accepted(1,2)
      by (cases "l = 0"; cases "dts_ms f = l") (auto simp: jb_above_def is_frame_late_def)
    then show ?thesis
      using assms accepted(3) jb_push_inv [of jb now f]
      by (auto simp: jb_above_def set_jq_push FrameWrapper_new_def sm_find_put_app split: option.splits)
  qed (use assms in \<open>simp_all add: jb_above_def jb_inv_def cong: option.case_cong\<close>)
qed

lemma jb_above_pop:
  assumes "jb_above L jb" "jb_pop jb = (Inr f, jb')"
  shows "jb_above (Some (dts_ms f)) jb'" and "\<And>l. L = Some l \<Longrightarrow> l < dts_ms f"
proof -
  obtain w ws where b: "jb_buffer jb = w # ws" "f = fw_frame w"
    "jb' = jb\<lparr>jb_buffer := ws, jb_last_output_dts := dts_ms f\<rparr>"
    using assms(2) by (cases "jb_buffer jb") (auto simp: jb_pop_def Let_def split: if_splits)
  then show "jb_above (Some (dts_ms f)) jb'" "\<And>l. L = Some l \<Longrightarrow> l < dts_ms f"
    using assms(1) by (auto simp: jb_above_def jb_inv_def)
qed

lemma jb_pop_Inl: "jb_pop jb = (Inl e, jb') \<Longrightarrow> jb' = jb"
  by (auto simp: jb_pop_def Let_def split: if_splits)

lemma jb_run_sorted:
  assumes "jb_above L jb" "\<forall>now f. Push now f \<in> set evs \<longrightarrow> 0 \<le> dts_ms f"
  shows "sorted_wrt (<) (map dts_ms (fst (jb_run evs jb))) \<and>
    (\<forall>l f. L = Some l \<longrightarrow> f \<in> set (fst (jb_run evs jb)) \<longrightarrow> l < dts_ms f)"
  using assms
proof (induction evs jb arbitrary: L rule: jb_run.induct)
  case (2 now f es jb)
  have "jb_above L (snd (jb_push now f jb))" by (rule jb_above_push) (use 2 in auto)
  then show ?case using 2 by auto
next
  case (3 es jb)
  obtain r jb1 where p: "jb_pop jb = (r, jb1)" by fastforce
  show ?case
  proof (cases r)
    case (Inl e)
    have "jb1 = jb" using p Inl jb_pop_Inl by blast
    then have "jb_above L jb1" "\<forall>now f. Push now f \<in> set es \<longrightarrow> 0 \<le> dts_ms f" using 3(3,4) by auto
    from 3(1) [OF p [symmetric] Inl this] show ?thesis using p Inl by simp
  next
    case (Inr f)
    note pop = jb_above_pop [OF 3(3), of f jb1]
    have "sorted_wrt (<) (map dts_ms (fst (jb_run es jb1))) \<and>
        (\<forall>l g. Some (dts_ms f) = Some l \<longrightarrow> g \<in> set (fst (jb_run es jb1)) \<longrightarrow> l < dts_ms g)"
      by (rule 3(2) [OF p [symmetric] Inr]) (use pop p Inr 3(4) in auto)
    then show ?thesis using pop p Inr by (fastforce split: prod.splits)
  qed
qed simp

text \<open>
  C15. The jitter buffer delivers in decode order: whatever frames with non-negative DTS are pushed, in
  any order and at any time, and however the pops are interleaved, the frames popped from a new buffer
  that drops late frames have strictly increasing DTS.
\<close>

theorem jitter_buffer_in_order:
  assumes "drop_late_frames config" "0 \<le> max_delay_ms config"
    and "\<forall>now f. Push now f \<in> set evs \<longrightarrow> 0 \<le> dts_ms f"
  shows "sorted_wrt (<) (map dts_ms (fst (jb_run evs (JitterBuffer_new config))))"
proof -
  have "jb_above None (JitterBuffer_new config)"
    using assms(1,2) jb_inv_new [of config] by (simp add: jb_above_def JitterBuffer_new_def)
  from jb_run_sorted [OF this assms(3)] show ?thesis ..
qed

theorem jitter_buffer_in_order_witness:
  "sorted_wrt (<) (map dts_ms (fst (jb_run [Push 0 (StdFrame_new ''H264'' 80 0), Push 1 (StdFrame_new ''H264'' 40 0), Pop, Pop]
      (JitterBuffer_new JitterBufferConfig_default))))"
  by (rule jitter_buffer_in_order)
    (simp_all add: JitterBufferConfig_default_def StdFrame_new_def StdFrame_default_def)

lemma sorted_hd_least:
  assumes "jb_inv jb" "jb_pop jb = (Inr f, jb')"
  shows "\<forall>w \<in> set (jb_buffer jb'). dts_ms f < fw_dts w" and "mset (jb_buffer jb) = add_mset (hd (jb_buffer jb)) (mset (jb_buffer jb'))"
    and "f = fw_frame (hd (jb_buffer jb))"
  using assms by (cases "jb_buffer jb"; auto simp: jb_pop_def jb_inv_def Let_def split: if_splits)+

text \<open>
  The lateness test measures DTS against the last frame handed out plus \<open>max_delay_ms\<close>, not against
  the clock: once a frame with DTS \<open>L \<noteq> 0\<close> has been popped, every new frame whose DTS is below
  \<open>L + max_delay_ms\<close> is dropped, also one that is in order and on time. The queue and the history are
  unchanged and the caller sees success.
\<close>

theorem jitter_buffer_drops_in_order_frames:
  assumes "\<not> jb_is_closed jb" "drop_late_frames (jb_config jb)" "jb_last_output_dts jb = L" "L \<noteq> 0"
    and "\<not> is_frame_duplicate (dts_ms f) jb"
    and "L < dts_ms f" "dts_ms f < L + max_delay_ms (jb_config jb)"
  shows "fst (jb_push now f jb) = srs_success \<and> jb_buffer (snd (jb_push now f jb)) = jb_buffer jb \<and>
    js_dropped_frames (jb_stats (snd (jb_push now f jb))) = js_dropped_frames (jb_stats jb) + 1"
  using assms by (simp add: jb_push_def is_frame_late_def Let_def)

theorem jitter_buffer_drops_in_order_frames_witness:
  "(let jb = snd (jb_run [Push 0 (StdFrame_new ''H264'' 40 0), Pop] (JitterBuffer_new JitterBufferConfig_default))
    in jb_buffer (snd (jb_push 40 (StdFrame_new ''H264'' 80 0) jb)) = [])"
proof -
  let ?f = "StdFrame_new ''H264'' 40 0" and ?g = "StdFrame_new ''H264'' 80 0"
  let ?jb = "snd (jb_run [Push 0 ?f, Pop] (JitterBuffer_new JitterBufferConfig_default))"
  have "dts_ms ?f = 40" "dts_ms ?g = 80" by (simp_all add: StdFrame_new_def)
  then have "\<not> jb_is_closed ?jb" "jb_config ?jb = JitterBufferConfig_default" "jb_last_output_dts ?jb = 40"
    "\<not> is_frame_duplicate 80 ?jb" "jb_buffer ?jb = []"
    by (simp_all add: jb_push_def jb_pop_def JitterBuffer_new_def is_frame_duplicate_def is_frame_late_def
        jq_push_def FrameWrapper_new_def update_jitter_stats_def Let_def sm_find_def)
  then show ?thesis
    using jitter_buffer_drops_in_order_frames [of ?jb 40 ?g 40] \<open>dts_ms ?g = 80\<close>
    by (simp add: JitterBufferConfig_default_def Let_def del: jb_run.simps)
qed

lemma push_all_length:
  assumes "\<not> jb_is_closed jb" "jb_last_output_dts jb = 0" "jb_inv jb"
    and "\<forall>f \<in> set fs. sm_find (jb_dts_history jb) (dts_ms f) = None" "distinct (map dts_ms fs)"
  shows "length (jb_buffer (snd (jb_run (map (Push now) fs) jb))) = length (jb_buffer jb) + length fs"
  using assms
proof (induction fs arbitrary: jb)
  case (Cons f fs)
  obtain st where p: "jb_push now f jb = (srs_success, jb\<lparr>jb_stats := st,
      jb_buffer := jq_push (FrameWrapper_new f now) (jb_buffer jb), jb_last_receive_time := now,
      jb_dts_history := sm_put (dts_ms f) now (jb_dts_history jb)\<rparr>)"
    using jb_push_cases [OF Cons.prems(1), of f now] Cons.prems(2,4) by (auto simp: is_frame_late_def)
  have "jb_inv (snd (jb_push now f jb))" by (rule jb_push_inv [OF Cons.prems(3)])
  then have "length (jb_buffer (snd (jb_run (map (Push now) fs) (snd (jb_push now f jb))))) =
      length (jb_buffer (snd (jb_push now f jb))) + length fs"
    by (intro Cons.IH) (use p Cons.prems in \<open>auto simp: sm_find_put_app dest: rev_image_eqI [OF _ sym]\<close>)
  then show ?case using p by (simp add: jq_push_def)
qed simp

text \<open>
  \<open>max_frames\<close> is not a bound: before the first pop the buffer takes every frame with a new DTS, so
  \<open>n\<close> frames of different DTS make it hold \<open>n\<close> frames, whatever the configuration says.
\<close>

theorem jitter_buffer_ignores_max_frames:
  assumes "distinct (map dts_ms fs)"
  shows "jb_size (snd (jb_run (map (Push now) fs) (JitterBuffer_new config))) = length fs"
  using push_all_length [of "JitterBuffer_new config" fs now] jb_inv_new [of config] assms
  by (simp add: JitterBuffer_new_def jb_size_def)

theorem jitter_buffer_ignores_max_frames_witness:
  "jb_size (snd (jb_run (map (Push 0) (map (\<lambda>i. StdFrame_new ''AAC'' i 0) [1..51]))
      (JitterBuffer_new JitterBufferConfig_default))) = 51"
proof -
  have "map (\<lambda>i. dts_ms (StdFrame_new ''AAC'' i 0)) [1..51] = [1..51]" by (simp add: StdFrame_new_def)
  then show ?thesis
    using jitter_buffer_ignores_max_frames [of "map (\<lambda>i. StdFrame_new ''AAC'' i 0) [1..51]" 0 JitterBufferConfig_default]
    by (simp add: comp_def)
qed

end
