(* ===== verification/Frame_Bus.thy ===== *)
theory Frame_Bus
  imports Jitter_Buffer
begin

text \<open>
  \<open>FrameBus\<close> of \<open>adapter/components/frame/frame_bus.cpp\<close>: the queue between an adapter and its consumer,
  with the jitter buffer switched in by the constructor, and the plain bounded queue behind the same
  interface. Counters are 64 bits wide.
\<close>

record FrameBus =
  fbus_queue :: "StdFrame list"
  fbus_max_size :: nat
  fbus_jitter_buffer :: JitterBuffer
  fbus_use_jitter_buffer :: bool
  fbus_total_pushed :: u64
  fbus_total_popped :: u64
  fbus_total_dropped :: u64

definition FrameBus_new :: "nat \<Rightarrow> JitterBufferConfig \<Rightarrow> FrameBus" where
  "FrameBus_new max_size jitter_config = \<lparr>fbus_queue = [], fbus_max_size = max_size,
     fbus_jitter_buffer = JitterBuffer_new jitter_config, fbus_use_jitter_buffer = True,
     fbus_total_pushed = 0, fbus_total_popped = 0, fbus_total_dropped = 0\<rparr>"

definition fbus_push :: "int \<Rightarrow> StdFrame \<Rightarrow> FrameBus \<Rightarrow> unit res \<times> FrameBus" where
  "fbus_push now frame b0 =
     (let b = b0\<lparr>fbus_total_pushed := fbus_total_pushed b0 + 1\<rparr> in
      if fbus_use_jitter_buffer b
      then (case jb_push now frame (fbus_jitter_buffer b) of
              (Inl e, jb) \<Rightarrow> (Inl e, b\<lparr>fbus_jitter_buffer := jb,
                                    fbus_total_dropped := fbus_total_dropped b + 1\<rparr>)
            | (Inr _, jb) \<Rightarrow> (srs_success, b\<lparr>fbus_jitter_buffer := jb\<rparr>))
      else if length (fbus_queue b) \<ge> fbus_max_size b
      then (Inl ERROR_SYSTEM_STREAM_BUSY, b\<lparr>fbus_total_dropped := fbus_total_dropped b + 1\<rparr>)
      else (srs_success, b\<lparr>fbus_queue := fbus_queue b @ [frame]\<rparr>))"

definition fbus_pop :: "FrameBus \<Rightarrow> StdFrame res \<times> FrameBus" where
  "fbus_pop b =
     (if fbus_use_jitter_buffer b
      then (case jb_pop (fbus_jitter_buffer b) of
              (Inl e, jb) \<Rightarrow> (Inl e, b\<lparr>fbus_jitter_buffer := jb\<rparr>)
            | (Inr f, jb) \<Rightarrow> (Inr f, b\<lparr>fbus_jitter_buffer := jb,
                                     fbus_total_popped := fbus_total_popped b + 1\<rparr>))
      else (case fbus_queue b of
              [] \<Rightarrow> (Inl ERROR_SYSTEM_TIME, b)
            | f # fs \<Rightarrow> (Inr f, b\<lparr>fbus_queue := fs, fbus_total_popped := fbus_total_popped b + 1\<rparr>)))"

definition fbus_size :: "FrameBus \<Rightarrow> nat" where
  "fbus_size b = (if fbus_use_jitter_buffer b then jb_size (fbus_jitter_buffer b)
                  else length (fbus_queue b))"

definition fbus_clear :: "FrameBus \<Rightarrow> FrameBus" where
  "fbus_clear b =
     (let b1 = (if fbus_use_jitter_buffer b
                then b\<lparr>fbus_jitter_buffer := jb_clear (fbus_jitter_buffer b)\<rparr>
                else b\<lparr>fbus_queue := []\<rparr>)
      in b1\<lparr>fbus_total_pushed := 0, fbus_total_popped := 0, fbus_total_dropped := 0\<rparr>)"

definition fbus_set_max_size :: "nat \<Rightarrow> FrameBus \<Rightarrow> FrameBus" where
  "fbus_set_max_size max_size b = b\<lparr>fbus_max_size := max_size\<rparr>"

definition get_jitter_stats :: "FrameBus \<Rightarrow> JitterBufferStats" where
  "get_jitter_stats b = (if fbus_use_jitter_buffer b then jb_get_stats (fbus_jitter_buffer b)
                         else JitterBufferStats_new)"

definition fbus_reset_stats :: "FrameBus \<Rightarrow> FrameBus" where
  "fbus_reset_stats b =
     (let b1 = (if fbus_use_jitter_buffer b
                then b\<lparr>fbus_jitter_buffer := jb_reset_stats (fbus_jitter_buffer b)\<rparr> else b)
      in b1\<lparr>fbus_total_pushed := 0, fbus_total_popped := 0, fbus_total_dropped := 0\<rparr>)"

definition update_jitter_config :: "JitterBufferConfig \<Rightarrow> FrameBus \<Rightarrow> FrameBus" where
  "update_jitter_config config b =
     (if fbus_use_jitter_buffer b
      then b\<lparr>fbus_jitter_buffer := jb_update_config config (fbus_jitter_buffer b)\<rparr> else b)"

definition fbus_flush :: "FrameBus \<Rightarrow> unit res \<times> FrameBus" where
  "fbus_flush b =
     (if fbus_use_jitter_buffer b
      then (case jb_flush (fbus_jitter_buffer b) of (r, jb) \<Rightarrow> (r, b\<lparr>fbus_jitter_buffer := jb\<rparr>))
      else (srs_success, b))"

section \<open>Accounting\<close>

inductive fbus_step :: "FrameBus \<Rightarrow> FrameBus \<Rightarrow> bool" where
  bus_push: "fbus_step b (snd (fbus_push now f b))"
| bus_pop: "fbus_step b (snd (fbus_pop b))"
| bus_max: "fbus_step b (fbus_set_max_size n b)"
| bus_config: "fbus_step b (update_jitter_config c b)"

inductive_cases fbus_stepE: "fbus_step b b'"

text \<open>
  Every frame pushed is popped, still queued, or counted as duplicate or dropped.
\<close>

definition fbus_balanced :: "FrameBus \<Rightarrow> bool" where
  "fbus_balanced b \<longleftrightarrow> fbus_use_jitter_buffer b \<and> \<not> jb_is_closed (fbus_jitter_buffer b) \<and>
     jb_inv (fbus_jitter_buffer b) \<and> fbus_total_dropped b = 0 \<and>
     fbus_total_pushed b = fbus_total_popped b + of_nat (fbus_size b) +
       js_duplicate_frames (get_jitter_stats b) + js_dropped_frames (get_jitter_stats b)"

lemma fbus_push_balanced:
  assumes "fbus_balanced b"
  shows "fbus_balanced (snd (fbus_push now f b))"
proof -
  let ?jb = "fbus_jitter_buffer b"
  have open_jb: "\<not> jb_is_closed ?jb" using assms by (simp add: fbus_balanced_def)
  have inv: "jb_inv (snd (jb_push now f ?jb))"
    using assms by (intro jb_push_inv) (simp add: fbus_balanced_def)
  from open_jb show ?thesis
  proof (cases rule: jb_push_cases [of ?jb f now])
    case (accepted st)
    have "length (jq_push (FrameWrapper_new f now) (jb_buffer ?jb)) = Suc (length (jb_buffer ?jb))"
      by (simp add: jq_push_def)
    then show ?thesis
      using assms inv accepted
      by (simp add: fbus_balanced_def fbus_push_def get_jitter_stats_def jb_get_stats_def fbus_size_def jb_size_def)
  qed (use assms inv in \<open>simp_all add: fbus_balanced_def fbus_push_def get_jitter_stats_def jb_get_stats_def
      fbus_size_def jb_size_def\<close>)
qed

lemma fbus_pop_balanced:
  assumes "fbus_balanced b"
  shows "fbus_balanced (snd (fbus_pop b))"
proof -
  let ?jb = "fbus_jitter_buffer b"
  have inv: "jb_inv (snd (jb_pop ?jb))" using assms by (intro jb_pop_inv) (simp add: fbus_balanced_def)
  show ?thesis
    using assms inv by (cases "jb_buffer ?jb")
      (simp_all add: fbus_balanced_def fbus_pop_def jb_pop_def get_jitter_stats_def jb_get_stats_def
        fbus_size_def jb_size_def Let_def)
qed

lemma fbus_step_balanced: "fbus_step b b' \<Longrightarrow> fbus_balanced b \<Longrightarrow> fbus_balanced b'"
proof (induction rule: fbus_step.induct)
  case (bus_max b n)
  then show ?case
    by (simp add: fbus_balanced_def fbus_set_max_size_def get_jitter_stats_def fbus_size_def)
next
  case (bus_config b c)
  then show ?case
    by (simp add: fbus_balanced_def update_jitter_config_def jb_update_config_def get_jitter_stats_def
        jb_get_stats_def fbus_size_def jb_size_def jb_inv_def)
qed (simp_all add: fbus_push_balanced fbus_pop_balanced)



text \<open>
  Flushing the bus loses frames: \<open>flush\<close> empties the queue and hands out none of the frames in it,
  no counter records them, and since their DTS stays in the history a frame pushed again with the DTS of
  a flushed one is discarded as a duplicate.
\<close>

theorem frame_bus_flush_discards:
  assumes "fbus_use_jitter_buffer b" "jb_inv (fbus_jitter_buffer b)" "\<not> jb_is_closed (fbus_jitter_buffer b)"
    and "w \<in> set (jb_buffer (fbus_jitter_buffer b))" "dts_ms f = fw_dts w"
  shows "let b1 = snd (fbus_flush b) in
    fbus_size b1 = 0 \<and> fbus_total_popped b1 = fbus_total_popped b \<and> get_jitter_stats b1 = get_jitter_stats b \<and>
    fst (fbus_push now f b1) = srs_success \<and> fbus_size (snd (fbus_push now f b1)) = 0"
proof -
  have "is_frame_duplicate (dts_ms f) (fbus_jitter_buffer b)"
    using assms(2,4,5) by (simp add: jb_inv_def is_frame_duplicate_def)
  then show ?thesis
    using assms(1,3) by (simp add: fbus_flush_def jb_flush_def fbus_size_def jb_size_def get_jitter_stats_def
        jb_get_stats_def fbus_push_def jb_push_def is_frame_duplicate_def Let_def)
qed

theorem frame_bus_flush_discards_witness:
  "(let f = StdFrame_new ''AAC'' 20 0;
        b = snd (fbus_flush (snd (fbus_push 5 f (FrameBus_new 100 JitterBufferConfig_default))))
    in fbus_size (snd (fbus_push 6 f b)) = 0)"
proof -
  let ?f = "StdFrame_new ''AAC'' 20 0" and ?b0 = "FrameBus_new 100 JitterBufferConfig_default"
  let ?b = "snd (fbus_push 5 ?f ?b0)"
  let ?jb = "JitterBuffer_new JitterBufferConfig_default"
  have jb: "fbus_jitter_buffer ?b = snd (jb_push 5 ?f ?jb)"
    by (simp add: fbus_push_def FrameBus_new_def Let_def split: prod.splits sum.splits)
  have buf: "jb_buffer (snd (jb_push 5 ?f ?jb)) = [FrameWrapper_new ?f 5]"
    by (simp add: jb_push_def JitterBuffer_new_def is_frame_late_def is_frame_duplicate_def jq_push_def Let_def)
  have "fbus_use_jitter_buffer ?b" "\<not> jb_is_closed (fbus_jitter_buffer ?b)"
    unfolding jb by (simp_all add: fbus_push_def FrameBus_new_def jb_push_def JitterBuffer_new_def Let_def
        is_frame_late_def is_frame_duplicate_def split: prod.splits sum.splits)
  then show ?thesis
    using frame_bus_flush_discards [of ?b "FrameWrapper_new ?f 5" ?f 6] buf
      jb_push_inv [OF jb_inv_new, of 5 ?f JitterBufferConfig_default]
    unfolding jb by (simp add: FrameWrapper_new_def Let_def)
qed

end
