(* ===== verification/Adapter_Core.thy ===== *)
theory Adapter_Core
  imports Std_Frame Std_Map "HOL-Library.List_Lexorder" "HOL-Library.Char_ord"
begin

text \<open>
  The glue of the adapter layer: the start parameters of an adapter (\<open>AdapterInit\<close> in
  \<open>adapter/core/iadapter.hpp\<close>), the registry of adapter factories (\<open>adapter_manager.cpp\<close>), the bridge
  that turns frames into media packets of a live source (\<open>frame_to_source_bridge.cpp\<close>) and the
  configuration of the caster (\<open>srs_app_caster_myproto.cpp\<close>). The adapter objects, the live source and
  its manager belong to other parts of the program and enter as parameters.
\<close>

section \<open>AdapterInit\<close>

text \<open>\<open>std::stoi\<close> in base 10: white space, a sign, digits; \<open>None\<close> stands for an exception, when there
  is no digit or the value does not fit an \<open>int\<close>.\<close>

definition is_space :: "char \<Rightarrow> bool" where
  "is_space c \<longleftrightarrow> of_char c = (32 :: nat) \<or> 9 \<le> (of_char c :: nat) \<and> (of_char c :: nat) \<le> 13"

definition digit_val :: "char \<Rightarrow> nat option" where
  "digit_val c = (let n = of_char c :: nat in if 48 \<le> n \<and> n \<le> 57 then Some (n - 48) else None)"

fun read_digits :: "int \<Rightarrow> string \<Rightarrow> int" where
  "read_digits acc [] = acc"
| "read_digits acc (c # cs) =
     (case digit_val c of None \<Rightarrow> acc | Some d \<Rightarrow> read_digits (10 * acc + int d) cs)"

definition stoi :: "string \<Rightarrow> int option" where
  "stoi s =
     (let t = dropWhile is_space s;
          neg = (t \<noteq> [] \<and> hd t = CHR ''-'');
          u = (if t \<noteq> [] \<and> (hd t = CHR ''-'' \<or> hd t = CHR ''+'') then tl t else t)
      in if u = [] \<or> digit_val (hd u) = None then None
         else (let v = (if neg then - read_digits 0 u else read_digits 0 u)
               in if - (2 ^ 31) \<le> v \<and> v < 2 ^ 31 then Some v else None))"

record AdapterInit =
  ai_vhost :: string
  ai_app :: string
  ai_stream :: string
  ai_kv :: "(string, string) smap"

definition AdapterInit_new :: "string \<Rightarrow> string \<Rightarrow> string \<Rightarrow> AdapterInit" where
  "AdapterInit_new v a s = \<lparr>ai_vhost = v, ai_app = a, ai_stream = s, ai_kv = []\<rparr>"

definition get_param :: "string \<Rightarrow> string \<Rightarrow> AdapterInit \<Rightarrow> string" where
  "get_param key default_value i =
     (case sm_find (ai_kv i) key of Some v \<Rightarrow> v | None \<Rightarrow> default_value)"

definition set_param :: "string \<Rightarrow> string \<Rightarrow> AdapterInit \<Rightarrow> AdapterInit" where
  "set_param key value i = i\<lparr>ai_kv := sm_put key value (ai_kv i)\<rparr>"

definition get_int_param :: "string \<Rightarrow> int \<Rightarrow> AdapterInit \<Rightarrow> int" where
  "get_int_param key default_value i =
     (case sm_find (ai_kv i) key of
        Some v \<Rightarrow> (case stoi v of Some n \<Rightarrow> n | None \<Rightarrow> default_value)
      | None \<Rightarrow> default_value)"

definition get_bool_param :: "string \<Rightarrow> bool \<Rightarrow> AdapterInit \<Rightarrow> bool" where
  "get_bool_param key default_value i =
     (case sm_find (ai_kv i) key of
        Some v \<Rightarrow> v = ''true'' \<or> v = ''1'' \<or> v = ''on''
      | None \<Rightarrow> default_value)"

section \<open>AdapterManager\<close>

text \<open>A factory yields a new adapter or the null pointer. \<open>start\<close> and \<open>close\<close> are the methods of the
  adapter; the second result of \<open>route_and_start\<close> lists the adapters it created that are still alive
  when it returns.\<close>

type_synonym 'a factories = "(string, 'a option) smap"

definition register_factory :: "string \<Rightarrow> 'a option \<Rightarrow> 'a factories \<Rightarrow> 'a factories" where
  "register_factory name factory fs = sm_put name factory fs"

definition create :: "string \<Rightarrow> 'a factories \<Rightarrow> 'a option" where
  "create name fs = (case sm_find fs name of None \<Rightarrow> None | Some factory \<Rightarrow> factory)"

definition route_and_start ::
    "(AdapterInit \<Rightarrow> 'a \<Rightarrow> unit res \<times> 'a) \<Rightarrow> string \<Rightarrow> AdapterInit \<Rightarrow> 'a factories \<Rightarrow> unit res \<times> 'a list" where
  "route_and_start start caster_name init fs =
     (case create caster_name fs of
        None \<Rightarrow> (Inl ERROR_RTMP_MESSAGE_CREATE, [])
      | Some adapter \<Rightarrow>
          (case start init adapter of
             (Inl e, adapter1) \<Rightarrow> (Inl e, [])
           | (Inr _, adapter1) \<Rightarrow> (srs_success, [adapter1])))"

definition get_registered_adapters :: "'a factories \<Rightarrow> string list" where
  "get_registered_adapters fs = map fst fs"

section \<open>FrameToSourceBridge\<close>

datatype SrsFrameType = SrsFrameTypeAudio | SrsFrameTypeVideo | SrsFrameTypeScript

record SrsMediaPacket =
  pkt_timestamp :: int
  pkt_message_type :: SrsFrameType
  pkt_stream_id :: int
  pkt_payload :: "u8 list option"

text \<open>\<open>br_source\<close>: no source, or the packets handed to it so far, the last one first; whether the source
  accepts a packet, \<open>on_frame\<close>, may depend on them.\<close>

record FrameToSourceBridge =
  br_source :: "SrsMediaPacket list option"
  br_vhost :: string
  br_app :: string
  br_stream :: string

definition FrameToSourceBridge_new :: FrameToSourceBridge where
  "FrameToSourceBridge_new = \<lparr>br_source = None, br_vhost = '''', br_app = '''', br_stream = ''''\<rparr>"

text \<open>\<open>fetch\<close> is the source manager: absent, or its \<open>fetch_or_create\<close> for vhost, app and stream.\<close>

definition create_source ::
    "(string \<Rightarrow> string \<Rightarrow> string \<Rightarrow> unit res) option \<Rightarrow> FrameToSourceBridge \<Rightarrow> unit res \<times> FrameToSourceBridge" where
  "create_source fetch br =
     (case fetch of
        None \<Rightarrow> (Inl ERROR_SYSTEM_IO_INVALID, br)
      | Some fetch_or_create \<Rightarrow>
          (case fetch_or_create (br_vhost br) (br_app br) (br_stream br) of
             Inl e \<Rightarrow> (Inl e, br)
           | Inr _ \<Rightarrow> (srs_success, br\<lparr>br_source := Some []\<rparr>)))"

definition br_initialize ::
    "(string \<Rightarrow> string \<Rightarrow> string \<Rightarrow> unit res) option \<Rightarrow> string \<Rightarrow> string \<Rightarrow> string \<Rightarrow> FrameToSourceBridge
      \<Rightarrow> unit res \<times> FrameToSourceBridge" where
  "br_initialize fetch vhost app stream br =
     create_source fetch (br\<lparr>br_vhost := vhost, br_app := app, br_stream := stream\<rparr>)"

definition convert_frame_to_media_packet :: "StdFrame \<Rightarrow> SrsMediaPacket" where
  "convert_frame_to_media_packet frame =
     \<lparr>pkt_timestamp = dts_ms frame,
      pkt_message_type =
        (if codec frame = ''H264'' \<or> codec frame = ''H265'' then SrsFrameTypeVideo
         else if codec frame = ''AAC'' \<or> codec frame = ''OPUS'' \<or> codec frame = ''PCM_ALAW'' \<or>
                 codec frame = ''PCM_ULAW'' then SrsFrameTypeAudio
         else SrsFrameTypeScript),
      pkt_stream_id = 0,
      pkt_payload = (if payload frame \<noteq> [] then Some (payload frame) else None)\<rparr>"

definition push_frame ::
    "(SrsMediaPacket list \<Rightarrow> SrsMediaPacket \<Rightarrow> unit res) \<Rightarrow> StdFrame \<Rightarrow> FrameToSourceBridge \<Rightarrow> unit res \<times> FrameToSourceBridge" where
  "push_frame on_frame frame br =
     (case br_source br of
        None \<Rightarrow> (Inl ERROR_NO_SOURCE, br)
      | Some sent \<Rightarrow>
          (let packet = convert_frame_to_media_packet frame in
           (on_frame sent packet, br\<lparr>br_source := Some (packet # sent)\<rparr>)))"

definition br_close :: "FrameToSourceBridge \<Rightarrow> FrameToSourceBridge" where
  "br_close br = br\<lparr>br_source := None\<rparr>"

section \<open>The caster's output URL\<close>

text \<open>\<open>std::string::find\<close> for a string and for a character, from a position on.\<close>

fun find_str :: "string \<Rightarrow> string \<Rightarrow> nat option" where
  "find_str pat [] = (if pat = [] then Some 0 else None)"
| "find_str pat (c # cs) =
     (if take (length pat) (c # cs) = pat then Some 0 else map_option Suc (find_str pat cs))"

definition find_char :: "char \<Rightarrow> string \<Rightarrow> nat \<Rightarrow> nat option" where
  "find_char c s start = map_option (\<lambda>i. start + i) (find_str [c] (drop start s))"

text \<open>The parsing of \<open>output\<close> in \<open>parse_conf\<close>: vhost, app and stream of the URL, or the old values.\<close>

definition parse_output_url :: "string \<Rightarrow> string \<times> string \<times> string \<Rightarrow> string \<times> string \<times> string" where
  "parse_output_url url old =
     (case find_str ''://'' url of
        None \<Rightarrow> old
      | Some p \<Rightarrow>
          (let start = p + 3 in
           case find_char CHR ''/'' url start of
             None \<Rightarrow> old
           | Some slash1 \<Rightarrow>
               (case find_char CHR ''/'' url (slash1 + 1) of
                  None \<Rightarrow> old
                | Some slash2 \<Rightarrow>
                    (take (slash1 - start) (drop start url),
                     take (slash2 - slash1 - 1) (drop (slash1 + 1) url),
                     drop (slash2 + 1) url))))"

section \<open>Properties\<close>

lemma find_str_char: "c \<notin> set xs \<Longrightarrow> find_str [c] (xs @ c # ys) = Some (length xs)"
  by (induction xs) auto

lemma drop_prefix: "length zs = n \<Longrightarrow> drop n (zs @ ys) = ys"
  by simp

lemma find_char_at:
  assumes "c \<notin> set xs" "length zs = n"
  shows "find_char c (zs @ xs @ c # ys) n = Some (n + length xs)"
  using assms by (simp add: find_char_def find_str_char)

lemma find_str_scheme:
  "CHR '':'' \<notin> set scheme \<Longrightarrow> find_str ''://'' (scheme @ ''://'' @ rest) = Some (length scheme)"
proof (induction scheme)
  case (Cons c cs)
  then show ?case by (cases cs) auto
qed simp

lemma parse_url:
  assumes "CHR '':'' \<notin> set scheme" "CHR ''/'' \<notin> set vhost" "CHR ''/'' \<notin> set app"
  shows "parse_output_url (scheme @ ''://'' @ vhost @ ''/'' @ app @ ''/'' @ stream) old = (vhost, app, stream)"
proof -
  let ?url = "scheme @ ''://'' @ vhost @ ''/'' @ app @ ''/'' @ stream"
  have a: "find_str ''://'' ?url = Some (length scheme)" by (rule find_str_scheme [OF assms(1)])
  have b: "find_char CHR ''/'' ?url (length scheme + 3) = Some (length scheme + 3 + length vhost)"
    using find_char_at [OF assms(2), of "scheme @ ''://''"] by simp
  have c: "find_char CHR ''/'' ?url (length scheme + 3 + length vhost + 1) =
      Some (length scheme + 3 + length vhost + 1 + length app)"
    using find_char_at [OF assms(3), of "scheme @ ''://'' @ vhost @ ''/''"] by simp
  have "drop (length scheme + 3) ?url = vhost @ ''/'' @ app @ ''/'' @ stream"
    using drop_prefix [of "scheme @ ''://''", OF refl] by (simp add: numeral_eq_Suc)
  moreover have "drop (length scheme + 3 + length vhost + 1) ?url = app @ ''/'' @ stream"
    using drop_prefix [of "scheme @ ''://'' @ vhost @ ''/''", OF refl] by (simp add: numeral_eq_Suc)
  moreover have "drop (length scheme + 3 + length vhost + 1 + length app + 1) ?url = stream"
    using drop_prefix [of "scheme @ ''://'' @ vhost @ ''/'' @ app @ ''/''", OF refl] by (simp add: numeral_eq_Suc)
  ultimately show ?thesis
    unfolding parse_output_url_def a option.case Let_def b c by simp
qed

text \<open>
  The caster finds its route in the output URL: from \<open>scheme://vhost/app/stream\<close> with no colon in the
  scheme and no slash in vhost and app it takes exactly these three parts (the stream may contain
  slashes).
\<close>

theorem caster_output_url_route:
  assumes "CHR '':'' \<notin> set scheme" "CHR ''/'' \<notin> set vhost" "CHR ''/'' \<notin> set app"
  shows "parse_output_url (scheme @ ''://'' @ vhost @ ''/'' @ app @ ''/'' @ stream) old = (vhost, app, stream)"
  by (rule parse_url [OF assms])

theorem caster_output_url_route_witness:
  "parse_output_url ''rtmp://127.0.0.1/live/a/b'' ('''', '''', '''') = (''127.0.0.1'', ''live'', ''a/b'')"
  using caster_output_url_route [of "''rtmp''" "''127.0.0.1''" "''live''" "''a/b''"] by simp

end
