(* ===== verification/Adapter_Stats.thy ===== *)
theory Adapter_Stats
  imports Complex_Main Std_Map "HOL-Library.List_Lexorder" "HOL-Library.Char_ord"
begin

text \<open>
  \<open>AdapterStatsManager\<close> and the routing of \<open>SrsAdapterHttpApiHandler\<close>
  (\<open>adapter/core/adapter_stats.cpp\<close>, \<open>adapter_stats.hpp\<close>). Counters are \<open>int64_t\<close>, modelled as \<open>int\<close>;
  time points are nanoseconds of the monotonic clock. The mutex is a flag: a thread that locks it while
  it holds it blocks for good, the result \<open>DEADLOCK\<close>. The tree of a JSON answer is a value of type
  \<open>json\<close>; printing and parsing it (\<open>SrsJsonAny::dumps\<close>, \<open>SrsJsonAny::loads\<close>) are parameters, and rates
  are exact rationals where the code computes with \<open>double\<close>.
\<close>

section \<open>Data\<close>

record AdapterStats =
  total_connections :: int
  active_connections :: int
  failed_connections :: int
  total_frames :: int
  video_frames :: int
  audio_frames :: int
  keyframes :: int
  dropped_frames :: int
  first_frame_time_ms :: int
  avg_frame_interval_ms :: int
  max_frame_interval_ms :: int
  jitter_buffer_hits :: int
  jitter_buffer_misses :: int
  out_of_order_frames :: int
  zero_copy_hits :: int
  zero_copy_misses :: int
  parse_errors :: int
  timestamp_errors :: int
  codec_errors :: int
  cpu_usage_percent :: rat
  memory_usage_bytes :: int
  peak_memory_usage_bytes :: int
  start_time :: int
  last_update_time :: int

definition AdapterStats_new :: "int \<Rightarrow> AdapterStats" where
  "AdapterStats_new now = \<lparr>total_connections = 0, active_connections = 0, failed_connections = 0,
     total_frames = 0, video_frames = 0, audio_frames = 0, keyframes = 0, dropped_frames = 0,
     first_frame_time_ms = 0, avg_frame_interval_ms = 0, max_frame_interval_ms = 0,
     jitter_buffer_hits = 0, jitter_buffer_misses = 0, out_of_order_frames = 0,
     zero_copy_hits = 0, zero_copy_misses = 0, parse_errors = 0, timestamp_errors = 0, codec_errors = 0,
     cpu_usage_percent = 0, memory_usage_bytes = 0, peak_memory_usage_bytes = 0,
     start_time = now, last_update_time = now\<rparr>"

definition get_uptime_ms :: "int \<Rightarrow> AdapterStats \<Rightarrow> int" where
  "get_uptime_ms now s = (now - start_time s) sdiv 1000000"

definition percent :: "int \<Rightarrow> int \<Rightarrow> rat" where
  "percent a n = (if n = 0 then 0 else of_int a / of_int n * 100)"

definition get_drop_rate :: "AdapterStats \<Rightarrow> rat" where
  "get_drop_rate s = percent (dropped_frames s) (total_frames s)"

definition get_jitter_hit_rate :: "AdapterStats \<Rightarrow> rat" where
  "get_jitter_hit_rate s = percent (jitter_buffer_hits s) (jitter_buffer_hits s + jitter_buffer_misses s)"

definition get_zero_copy_hit_rate :: "AdapterStats \<Rightarrow> rat" where
  "get_zero_copy_hit_rate s = percent (zero_copy_hits s) (zero_copy_hits s + zero_copy_misses s)"

record AdapterConnection =
  ac_connection_id :: string
  ac_protocol :: string
  ac_vhost :: string
  ac_app :: string
  ac_stream :: string
  ac_client_ip :: string
  ac_client_port :: int
  ac_connect_time :: int
  ac_first_frame_time :: int
  ac_is_active :: bool
  ac_stats :: AdapterStats

definition AdapterConnection_new ::
    "int \<Rightarrow> string \<Rightarrow> string \<Rightarrow> string \<Rightarrow> string \<Rightarrow> string \<Rightarrow> string \<Rightarrow> int \<Rightarrow> AdapterConnection" where
  "AdapterConnection_new now cid proto v a s ip port =
     \<lparr>ac_connection_id = cid, ac_protocol = proto, ac_vhost = v, ac_app = a, ac_stream = s,
      ac_client_ip = ip, ac_client_port = port, ac_connect_time = now, ac_first_frame_time = now,
      ac_is_active = True, ac_stats = AdapterStats_new now\<rparr>"

definition get_connection_duration_ms :: "int \<Rightarrow> AdapterConnection \<Rightarrow> int" where
  "get_connection_duration_ms now c = (now - ac_connect_time c) sdiv 1000000"

definition get_first_frame_latency_ms :: "AdapterConnection \<Rightarrow> int" where
  "get_first_frame_latency_ms c =
     (if ac_first_frame_time c = ac_connect_time c then 0
      else (ac_first_frame_time c - ac_connect_time c) sdiv 1000000)"

record AdapterStatsManager =
  asm_connections :: "(string, AdapterConnection) smap"
  asm_global_stats :: AdapterStats
  asm_locked :: bool

definition AdapterStatsManager_new :: "int \<Rightarrow> AdapterStatsManager" where
  "AdapterStatsManager_new now =
     \<lparr>asm_connections = [], asm_global_stats = AdapterStats_new now, asm_locked = False\<rparr>"

section \<open>The manager\<close>

definition asm_lock :: "AdapterStatsManager \<Rightarrow> AdapterStatsManager res" where
  "asm_lock m = (if asm_locked m then Inl DEADLOCK else Inr (m\<lparr>asm_locked := True\<rparr>))"

definition asm_unlock :: "AdapterStatsManager \<Rightarrow> AdapterStatsManager" where
  "asm_unlock m = m\<lparr>asm_locked := False\<rparr>"

definition add_connection ::
    "int \<Rightarrow> string \<Rightarrow> string \<Rightarrow> string \<Rightarrow> string \<Rightarrow> string \<Rightarrow> string \<Rightarrow> int \<Rightarrow> AdapterStatsManager
      \<Rightarrow> AdapterStatsManager res" where
  "add_connection now cid proto v a s ip port m0 =
     res_bind (asm_lock m0) (\<lambda>m.
       let g = asm_global_stats m in
       Inr (asm_unlock (m\<lparr>
         asm_connections := sm_put cid (AdapterConnection_new now cid proto v a s ip port) (asm_connections m),
         asm_global_stats := g\<lparr>total_connections := total_connections g + 1,
                               active_connections := active_connections g + 1\<rparr>\<rparr>)))"

definition remove_connection :: "string \<Rightarrow> AdapterStatsManager \<Rightarrow> AdapterStatsManager res" where
  "remove_connection cid m0 =
     res_bind (asm_lock m0) (\<lambda>m.
       let g = asm_global_stats m in
       Inr (asm_unlock (case sm_find (asm_connections m) cid of
           None \<Rightarrow> m
         | Some c \<Rightarrow> m\<lparr>asm_global_stats := g\<lparr>active_connections := active_connections g - 1\<rparr>,
                       asm_connections := sm_erase cid (asm_connections m)\<rparr>)))"

definition get_connection :: "string \<Rightarrow> AdapterStatsManager \<Rightarrow> (AdapterConnection option \<times> AdapterStatsManager) res" where
  "get_connection cid m0 =
     res_bind (asm_lock m0) (\<lambda>m. Inr (sm_find (asm_connections m) cid, asm_unlock m))"

text \<open>The updates go through the pointer that \<open>get_connection\<close> returns: they change the statistics of
  one connection and the global ones in the same way.\<close>

definition update_both ::
    "string \<Rightarrow> (AdapterStats \<Rightarrow> AdapterStats) \<Rightarrow> AdapterStatsManager \<Rightarrow> AdapterStatsManager res" where
  "update_both cid f m0 =
     res_bind (get_connection cid m0) (\<lambda>(conn, m).
       case conn of
         None \<Rightarrow> Inr m
       | Some c \<Rightarrow> Inr (m\<lparr>asm_connections := sm_put cid (c\<lparr>ac_stats := f (ac_stats c)\<rparr>) (asm_connections m),
                          asm_global_stats := f (asm_global_stats m)\<rparr>))"

definition count_frame :: "bool \<Rightarrow> bool \<Rightarrow> bool \<Rightarrow> AdapterStats \<Rightarrow> AdapterStats" where
  "count_frame is_video is_keyframe is_dropped s0 =
     (let s1 = s0\<lparr>total_frames := total_frames s0 + 1\<rparr>;
          s2 = (if is_video
                then (let v = s1\<lparr>video_frames := video_frames s1 + 1\<rparr> in
                      if is_keyframe then v\<lparr>keyframes := keyframes v + 1\<rparr> else v)
                else s1\<lparr>audio_frames := audio_frames s1 + 1\<rparr>)
      in if is_dropped then s2\<lparr>dropped_frames := dropped_frames s2 + 1\<rparr> else s2)"

definition update_frame_stats ::
    "string \<Rightarrow> bool \<Rightarrow> bool \<Rightarrow> bool \<Rightarrow> AdapterStatsManager \<Rightarrow> AdapterStatsManager res" where
  "update_frame_stats cid is_video is_keyframe is_dropped =
     update_both cid (count_frame is_video is_keyframe is_dropped)"

definition asm_update_jitter_stats :: "string \<Rightarrow> bool \<Rightarrow> AdapterStatsManager \<Rightarrow> AdapterStatsManager res" where
  "asm_update_jitter_stats cid hit = update_both cid (\<lambda>s.
     if hit then s\<lparr>jitter_buffer_hits := jitter_buffer_hits s + 1\<rparr>
     else s\<lparr>jitter_buffer_misses := jitter_buffer_misses s + 1\<rparr>)"

definition update_zero_copy_stats :: "string \<Rightarrow> bool \<Rightarrow> AdapterStatsManager \<Rightarrow> AdapterStatsManager res" where
  "update_zero_copy_stats cid hit = update_both cid (\<lambda>s.
     if hit then s\<lparr>zero_copy_hits := zero_copy_hits s + 1\<rparr>
     else s\<lparr>zero_copy_misses := zero_copy_misses s + 1\<rparr>)"

definition update_error_stats :: "string \<Rightarrow> string \<Rightarrow> AdapterStatsManager \<Rightarrow> AdapterStatsManager res" where
  "update_error_stats cid error_type = update_both cid (\<lambda>s0.
     let s = (if error_type = ''parse'' then s0\<lparr>parse_errors := parse_errors s0 + 1\<rparr>
              else if error_type = ''timestamp'' then s0\<lparr>timestamp_errors := timestamp_errors s0 + 1\<rparr>
              else if error_type = ''codec'' then s0\<lparr>codec_errors := codec_errors s0 + 1\<rparr>
              else s0)
     in s\<lparr>failed_connections := failed_connections s + 1\<rparr>)"

definition update_first_frame_time :: "int \<Rightarrow> string \<Rightarrow> AdapterStatsManager \<Rightarrow> AdapterStatsManager res" where
  "update_first_frame_time now cid m0 =
     res_bind (get_connection cid m0) (\<lambda>(conn, m).
       case conn of
         None \<Rightarrow> Inr m
       | Some c \<Rightarrow>
           if ac_first_frame_time c = ac_connect_time c
           then (let c1 = c\<lparr>ac_first_frame_time := now\<rparr>;
                     c2 = c1\<lparr>ac_stats := (ac_stats c1)\<lparr>first_frame_time_ms := get_first_frame_latency_ms c1\<rparr>\<rparr>
                 in Inr (m\<lparr>asm_connections := sm_put cid c2 (asm_connections m)\<rparr>))
           else Inr m)"

definition get_all_connections ::
    "AdapterStatsManager \<Rightarrow> ((string, AdapterConnection) smap \<times> AdapterStatsManager) res" where
  "get_all_connections m0 = res_bind (asm_lock m0) (\<lambda>m. Inr (asm_connections m, asm_unlock m))"

definition get_global_stats :: "AdapterStatsManager \<Rightarrow> (AdapterStats \<times> AdapterStatsManager) res" where
  "get_global_stats m0 = res_bind (asm_lock m0) (\<lambda>m. Inr (asm_global_stats m, asm_unlock m))"

section \<open>JSON\<close>

datatype json = JInt int | JNum rat | JStr string | JBool bool | JObj "(string \<times> json) list" | JArr "json list"

definition json_global :: "int \<Rightarrow> AdapterStats \<Rightarrow> (string \<times> json) list" where
  "json_global now g =
     [(''total_connections'', JInt (total_connections g)),
      (''active_connections'', JInt (active_connections g)),
      (''failed_connections'', JInt (failed_connections g)),
      (''total_frames'', JInt (total_frames g)),
      (''video_frames'', JInt (video_frames g)),
      (''audio_frames'', JInt (audio_frames g)),
      (''keyframes'', JInt (keyframes g)),
      (''dropped_frames'', JInt (dropped_frames g)),
      (''drop_rate_percent'', JNum (get_drop_rate g)),
      (''jitter_hit_rate_percent'', JNum (get_jitter_hit_rate g)),
      (''zero_copy_hit_rate_percent'', JNum (get_zero_copy_hit_rate g)),
      (''uptime_ms'', JInt (get_uptime_ms now g))]"

definition json_stats :: "AdapterStats \<Rightarrow> (string \<times> json) list" where
  "json_stats s =
     [(''total_frames'', JInt (total_frames s)),
      (''video_frames'', JInt (video_frames s)),
      (''audio_frames'', JInt (audio_frames s)),
      (''keyframes'', JInt (keyframes s)),
      (''dropped_frames'', JInt (dropped_frames s)),
      (''drop_rate_percent'', JNum (get_drop_rate s)),
      (''jitter_hit_rate_percent'', JNum (get_jitter_hit_rate s)),
      (''zero_copy_hit_rate_percent'', JNum (get_zero_copy_hit_rate s)),
      (''parse_errors'', JInt (parse_errors s)),
      (''timestamp_errors'', JInt (timestamp_errors s)),
      (''codec_errors'', JInt (codec_errors s))]"

definition json_connection :: "int \<Rightarrow> AdapterConnection \<Rightarrow> (string \<times> json) list" where
  "json_connection now c =
     [(''id'', JStr (ac_connection_id c)),
      (''protocol'', JStr (ac_protocol c)),
      (''vhost'', JStr (ac_vhost c)),
      (''app'', JStr (ac_app c)),
      (''stream'', JStr (ac_stream c)),
      (''client_ip'', JStr (ac_client_ip c)),
      (''client_port'', JInt (ac_client_port c)),
      (''is_active'', JBool (ac_is_active c)),
      (''connection_duration_ms'', JInt (get_connection_duration_ms now c)),
      (''first_frame_latency_ms'', JInt (get_first_frame_latency_ms c))]"

definition to_json :: "(json \<Rightarrow> string) \<Rightarrow> int \<Rightarrow> int \<Rightarrow> AdapterStatsManager \<Rightarrow> (string \<times> AdapterStatsManager) res" where
  "to_json dumps now now_us m0 =
     res_bind (asm_lock m0) (\<lambda>m1.
       let global_stats = JObj (json_global now (asm_global_stats m1)) in
       res_bind (get_all_connections m1) (\<lambda>(conns, m2).
         let connections = JArr (map (\<lambda>(_, c). JObj (json_connection now c @
               [(''stats'', JObj (json_stats (ac_stats c)))])) conns)
         in Inr (dumps (JObj [(''global_stats'', global_stats), (''connections'', connections),
                             (''timestamp'', JInt (now_us sdiv 1000))]),
                 asm_unlock m2)))"

definition get_connection_json ::
    "(json \<Rightarrow> string) \<Rightarrow> int \<Rightarrow> int \<Rightarrow> string \<Rightarrow> AdapterStatsManager \<Rightarrow> (string \<times> AdapterStatsManager) res" where
  "get_connection_json dumps now now_us cid m0 =
     res_bind (get_connection cid m0) (\<lambda>(conn, m).
       case conn of
         None \<Rightarrow> Inr (dumps (JObj []), m)
       | Some c \<Rightarrow> Inr (dumps (JObj (json_connection now c @
             [(''stats'', JObj (json_stats (ac_stats c) @
                 [(''cpu_usage_percent'', JNum (cpu_usage_percent (ac_stats c))),
                  (''memory_usage_bytes'', JInt (memory_usage_bytes (ac_stats c))),
                  (''peak_memory_usage_bytes'', JInt (peak_memory_usage_bytes (ac_stats c)))])),
              (''timestamp'', JInt (now_us sdiv 1000))])), m))"

section \<open>HTTP API\<close>

text \<open>\<open>ERROR_SUCCESS\<close> and the code of \<open>ERROR_SOURCE_NOT_FOUND\<close> appear in the body; the model keeps them
  symbolic through \<open>code_not_found\<close>.\<close>

definition api_data :: "(string \<Rightarrow> json option) \<Rightarrow> string \<Rightarrow> json" where
  "api_data loads json_data = (case loads json_data of Some j \<Rightarrow> j | None \<Rightarrow> JStr json_data)"

definition handle_adapters_api ::
    "(json \<Rightarrow> string) \<Rightarrow> (string \<Rightarrow> json option) \<Rightarrow> int \<Rightarrow> int \<Rightarrow> AdapterStatsManager \<Rightarrow> (json \<times> AdapterStatsManager) res" where
  "handle_adapters_api dumps loads now now_us m0 =
     res_bind (to_json dumps now now_us m0) (\<lambda>(json_data, m).
       Inr (JObj [(''code'', JInt 0), (''data'', api_data loads json_data)], m))"

definition handle_connection_api ::
    "(json \<Rightarrow> string) \<Rightarrow> (string \<Rightarrow> json option) \<Rightarrow> int \<Rightarrow> int \<Rightarrow> int \<Rightarrow> string \<Rightarrow> AdapterStatsManager
      \<Rightarrow> (json \<times> AdapterStatsManager) res" where
  "handle_connection_api dumps loads code_not_found now now_us cid m0 =
     res_bind (get_connection_json dumps now now_us cid m0) (\<lambda>(json_data, m).
       if json_data = ''{}''
       then Inr (JObj [(''code'', JInt code_not_found), (''data'', JStr ''Connection not found'')], m)
       else Inr (JObj [(''code'', JInt 0), (''data'', api_data loads json_data)], m))"

definition handle_stats_api :: "int \<Rightarrow> int \<Rightarrow> AdapterStatsManager \<Rightarrow> (json \<times> AdapterStatsManager) res" where
  "handle_stats_api now now_us m0 =
     res_bind (get_global_stats m0) (\<lambda>(g, m).
       Inr (JObj [(''code'', JInt 0),
                  (''data'', JObj (json_global now g @ [(''timestamp'', JInt (now_us sdiv 1000))]))], m))"

definition substr :: "nat \<Rightarrow> string \<Rightarrow> string res" where
  "substr p s = (if p > length s then Inl OUT_OF_RANGE else Inr (drop p s))"

definition serve_http ::
    "(json \<Rightarrow> string) \<Rightarrow> (string \<Rightarrow> json option) \<Rightarrow> int \<Rightarrow> int \<Rightarrow> int \<Rightarrow> string \<Rightarrow> AdapterStatsManager
      \<Rightarrow> (json \<times> AdapterStatsManager) res" where
  "serve_http dumps loads code_not_found now now_us path m =
     (if path = ''/api/v1/adapters'' then handle_adapters_api dumps loads now now_us m
      else if take 17 path = ''/api/v1/adapters/''
      then res_bind (substr 18 path) (\<lambda>cid. handle_connection_api dumps loads code_not_found now now_us cid m)
      else if path = ''/api/v1/adapters/stats'' then handle_stats_api now now_us m
      else Inl ERROR_SOURCE_NOT_FOUND)"


section \<open>Properties\<close>

datatype asm_event =
    Add_Conn int string string string string string string int
  | Remove_Conn string
  | Frame string bool bool bool
  | Jitter string bool
  | Zero_Copy string bool
  | Error_Stat string string
  | First_Frame int string

fun asm_step :: "asm_event \<Rightarrow> AdapterStatsManager \<Rightarrow> AdapterStatsManager res" where
  "asm_step (Add_Conn now cid proto v a s ip port) m = add_connection now cid proto v a s ip port m"
| "asm_step (Remove_Conn cid) m = remove_connection cid m"
| "asm_step (Frame cid v k d) m = update_frame_stats cid v k d m"
| "asm_step (Jitter cid hit) m = asm_update_jitter_stats cid hit m"
| "asm_step (Zero_Copy cid hit) m = update_zero_copy_stats cid hit m"
| "asm_step (Error_Stat cid ty) m = update_error_stats cid ty m"
| "asm_step (First_Frame now cid) m = update_first_frame_time now cid m"

fun asm_run :: "asm_event list \<Rightarrow> AdapterStatsManager \<Rightarrow> AdapterStatsManager res" where
  "asm_run [] m = Inr m"
| "asm_run (e # es) m = res_bind (asm_step e m) (asm_run es)"

text \<open>The calls of \<open>add_connection\<close> with the id of a connection that exists.\<close>

definition re_adds :: "asm_event \<Rightarrow> AdapterStatsManager \<Rightarrow> nat" where
  "re_adds e m = (case e of
     Add_Conn now cid proto v a s ip port \<Rightarrow> if sm_find (asm_connections m) cid \<noteq> None then 1 else 0
   | _ \<Rightarrow> 0)"

fun count_re_adds :: "asm_event list \<Rightarrow> AdapterStatsManager \<Rightarrow> nat" where
  "count_re_adds [] m = 0"
| "count_re_adds (e # es) m =
     re_adds e m + (case asm_step e m of Inl _ \<Rightarrow> 0 | Inr m' \<Rightarrow> count_re_adds es m')"

definition frames_ok :: "AdapterStats \<Rightarrow> bool" where
  "frames_ok s \<longleftrightarrow> total_frames s = video_frames s + audio_frames s \<and> 0 \<le> keyframes s \<and>
     keyframes s \<le> video_frames s \<and> 0 \<le> audio_frames s \<and> 0 \<le> dropped_frames s \<and>
     dropped_frames s \<le> total_frames s"

definition asm_inv :: "AdapterStatsManager \<Rightarrow> bool" where
  "asm_inv m \<longleftrightarrow> \<not> asm_locked m \<and> sm_wf (asm_connections m) \<and> frames_ok (asm_global_stats m) \<and>
     (\<forall>(i, c) \<in> set (asm_connections m). frames_ok (ac_stats c))"

lemma frames_ok_new: "frames_ok (AdapterStats_new now)"
  by (simp add: frames_ok_def AdapterStats_new_def)

lemma frames_ok_upd [simp]:
  "frames_ok (s\<lparr>active_connections := a\<rparr>) = frames_ok s"
  "frames_ok (s\<lparr>total_connections := a\<rparr>) = frames_ok s"
  "frames_ok (s\<lparr>failed_connections := a\<rparr>) = frames_ok s"
  "frames_ok (s\<lparr>first_frame_time_ms := a\<rparr>) = frames_ok s"
  "frames_ok (s\<lparr>jitter_buffer_hits := a\<rparr>) = frames_ok s"
  "frames_ok (s\<lparr>jitter_buffer_misses := a\<rparr>) = frames_ok s"
  "frames_ok (s\<lparr>zero_copy_hits := a\<rparr>) = frames_ok s"
  "frames_ok (s\<lparr>zero_copy_misses := a\<rparr>) = frames_ok s"
  "frames_ok (s\<lparr>parse_errors := a\<rparr>) = frames_ok s"
  "frames_ok (s\<lparr>timestamp_errors := a\<rparr>) = frames_ok s"
  "frames_ok (s\<lparr>codec_errors := a\<rparr>) = frames_ok s"
  by (simp_all add: frames_ok_def)

lemma frames_ok_count: "frames_ok s \<Longrightarrow> frames_ok (count_frame v k d s)"
  by (auto simp: frames_ok_def count_frame_def Let_def)

lemma in_set_sm_erase: "e \<in> set (sm_erase k m) \<longleftrightarrow> e \<in> set m \<and> fst e \<noteq> k"
  by (auto simp: sm_erase_def)

lemma update_both_ok:
  assumes "asm_inv m" "\<And>s. frames_ok s \<Longrightarrow> frames_ok (f s)"
    and "\<And>s. active_connections (f s) = active_connections s"
  shows "\<exists>m'. update_both cid f m = Inr m' \<and> asm_inv m' \<and>
    active_connections (asm_global_stats m') - int (length (asm_connections m')) =
    active_connections (asm_global_stats m) - int (length (asm_connections m))"
proof (cases "sm_find (asm_connections m) cid")
  case None
  then show ?thesis
    using assms(1) by (simp add: update_both_def get_connection_def asm_lock_def asm_unlock_def asm_inv_def)
next
  case (Some c)
  then have c: "frames_ok (ac_stats c)" using assms(1) by (auto simp: asm_inv_def dest: sm_find_SomeD)
  have len: "length (sm_put cid x (asm_connections m)) = length (asm_connections m)" for x
    using assms(1) Some by (simp add: asm_inv_def sm_length_put)
  have "update_both cid f m = Inr (m\<lparr>asm_connections := sm_put cid (c\<lparr>ac_stats := f (ac_stats c)\<rparr>) (asm_connections m),
      asm_global_stats := f (asm_global_stats m), asm_locked := False\<rparr>)"
    using assms(1) Some by (simp add: update_both_def get_connection_def asm_lock_def asm_unlock_def asm_inv_def)
  then show ?thesis
    using assms c len by (auto simp: asm_inv_def sm_wf_put dest!: sm_put_set)
qed

lemma update_first_frame_time_ok:
  assumes "asm_inv m"
  shows "\<exists>m'. update_first_frame_time now cid m = Inr m' \<and> asm_inv m' \<and>
    active_connections (asm_global_stats m') - int (length (asm_connections m')) =
    active_connections (asm_global_stats m) - int (length (asm_connections m))"
proof (cases "sm_find (asm_connections m) cid")
  case None
  then show ?thesis
    using assms(1) by (simp add: update_first_frame_time_def get_connection_def asm_lock_def asm_unlock_def asm_inv_def)
next
  case (Some c)
  then have c: "frames_ok (ac_stats c)" using assms(1) by (auto simp: asm_inv_def dest: sm_find_SomeD)
  have len: "length (sm_put cid x (asm_connections m)) = length (asm_connections m)" for x
    using assms(1) Some by (simp add: asm_inv_def sm_length_put)
  show ?thesis
    using assms c len Some
    by (auto simp: update_first_frame_time_def get_connection_def asm_lock_def asm_unlock_def Let_def
        asm_inv_def sm_wf_put dest!: sm_put_set)
qed

lemma asm_step_ok:
  assumes "asm_inv m"
  shows "\<exists>m'. asm_step e m = Inr m' \<and> asm_inv m' \<and>
    active_connections (asm_global_stats m') - int (length (asm_connections m')) =
    active_connections (asm_global_stats m) - int (length (asm_connections m)) + int (re_adds e m)"
proof (cases e)
  case (Add_Conn now cid proto v a s ip port)
  then show ?thesis
    using assms by (auto simp: add_connection_def asm_lock_def asm_unlock_def asm_inv_def re_adds_def Let_def
        sm_wf_put sm_length_put frames_ok_new AdapterConnection_new_def dest!: sm_put_set)
next
  case (Remove_Conn cid)
  show ?thesis
  proof (cases "sm_find (asm_connections m) cid")
    case (Some c)
    then have "int (length (asm_connections m) - Suc 0) = int (length (asm_connections m)) - 1"
      by (cases "asm_connections m") simp_all
    then show ?thesis
      using assms Remove_Conn Some
      by (auto simp: remove_connection_def asm_lock_def asm_unlock_def asm_inv_def re_adds_def Let_def
          sm_wf_erase sm_length_erase in_set_sm_erase)
  qed (use assms Remove_Conn in \<open>simp add: remove_connection_def asm_lock_def asm_unlock_def asm_inv_def re_adds_def\<close>)
next
  case (Frame cid v k d)
  then show ?thesis
    using update_both_ok [OF assms, of "count_frame v k d" cid] frames_ok_count
    by (simp add: update_frame_stats_def re_adds_def count_frame_def Let_def)
next
  case (First_Frame now cid)
  then show ?thesis using update_first_frame_time_ok [OF assms] by (simp add: re_adds_def)
qed (use assms in \<open>auto simp: asm_update_jitter_stats_def update_zero_copy_stats_def update_error_stats_def re_adds_def
    Let_def intro!: update_both_ok\<close>)

lemma asm_run_ok:
  assumes "asm_inv m"
  shows "\<exists>m'. asm_run es m = Inr m' \<and> asm_inv m' \<and>
    active_connections (asm_global_stats m') - int (length (asm_connections m')) =
    active_connections (asm_global_stats m) - int (length (asm_connections m)) + int (count_re_adds es m)"
  using assms
proof (induction es arbitrary: m)
  case (Cons e es)
  obtain m1 where s: "asm_step e m = Inr m1" "asm_inv m1"
      "active_connections (asm_global_stats m1) - int (length (asm_connections m1)) =
       active_connections (asm_global_stats m) - int (length (asm_connections m)) + int (re_adds e m)"
    using asm_step_ok [OF Cons.prems] by blast
  with Cons.IH [OF s(2)] show ?case by auto
qed simp

lemma asm_inv_new: "asm_inv (AdapterStatsManager_new now)"
  by (simp add: asm_inv_def AdapterStatsManager_new_def frames_ok_new)

text \<open>
  C25. The adapter statistics stay consistent: every sequence of connection and frame updates on a new
  manager returns, and afterwards the global counters and those of each connection satisfy total = video
  + audio, key frames \<open>\<le>\<close> video, dropped \<open>\<le>\<close> total, all of them non-negative.
\<close>

theorem adapter_stats_consistent:
  "\<exists>m. asm_run evs (AdapterStatsManager_new now) = Inr m \<and> frames_ok (asm_global_stats m) \<and>
     list_all (\<lambda>(i, c). frames_ok (ac_stats c)) (asm_connections m)"
  using asm_run_ok [OF asm_inv_new, of evs now] by (auto simp: asm_inv_def list_all_iff)

text \<open>
  The gauge of active connections drifts: it exceeds the number of connections by exactly the number
  of \<open>add_connection\<close> calls made with the id of an existing connection, and never returns.
\<close>

theorem active_connections_drift:
  "\<exists>m. asm_run evs (AdapterStatsManager_new now) = Inr m \<and>
     active_connections (asm_global_stats m) =
       int (length (asm_connections m)) + int (count_re_adds evs (AdapterStatsManager_new now))"
  using asm_run_ok [OF asm_inv_new, of evs now]
  by (auto simp: AdapterStatsManager_new_def AdapterStats_new_def)

text \<open>
  \<open>GET /api/v1/adapters\<close> never answers: \<open>to_json\<close> locks the mutex of the manager and calls
  \<open>get_all_connections\<close>, which locks it again.
\<close>

theorem adapters_api_deadlocks:
  "serve_http dumps loads code_not_found now now_us ''/api/v1/adapters'' m = Inl DEADLOCK"
  by (simp add: serve_http_def handle_adapters_api_def to_json_def get_all_connections_def asm_lock_def Let_def)

text \<open>
  The route of a single connection drops the first character of its id: for the path
  \<open>/api/v1/adapters/\<close> followed by \<open>c # cid\<close> the handler looks for \<open>cid\<close>. In particular
  \<open>/api/v1/adapters/stats\<close> is answered as the connection \<open>tats\<close> and the statistics handler is not
  reached, and the bare prefix makes \<open>substr\<close> throw.
\<close>

theorem connection_api_drops_character:
  "serve_http dumps loads code_not_found now now_us (''/api/v1/adapters/'' @ c # cid) m =
     handle_connection_api dumps loads code_not_found now now_us cid m \<and>
   serve_http dumps loads code_not_found now now_us ''/api/v1/adapters/stats'' m =
     handle_connection_api dumps loads code_not_found now now_us ''tats'' m \<and>
   serve_http dumps loads code_not_found now now_us ''/api/v1/adapters/'' m = Inl OUT_OF_RANGE"
  by (simp add: serve_http_def substr_def)

end
