(* ===== verification/Parameter_Sets.thy ===== *)
theory Parameter_Sets
  imports Std_Map
begin

text \<open>
  \<open>ParameterSetManager\<close> of \<open>adapter/components/parameter/parameter_set_manager.hpp\<close>: the latest valid
  codec parameter set of each kind. The enumeration is ordered by its value, as the keys of the
  \<open>std::map\<close> are.
\<close>

datatype ParameterSetType = SPS | PPS | VPS | ASC | OPUS_HEADER | UNKNOWN

fun pst_int :: "ParameterSetType \<Rightarrow> int" where
  "pst_int SPS = 0"
| "pst_int PPS = 1"
| "pst_int VPS = 2"
| "pst_int ASC = 3"
| "pst_int OPUS_HEADER = 4"
| "pst_int UNKNOWN = 5"

lemma pst_int_eq: "pst_int a = pst_int b \<Longrightarrow> a = b"
  by (cases a; cases b) simp_all

instantiation ParameterSetType :: linorder
begin

definition less_eq_ParameterSetType :: "ParameterSetType \<Rightarrow> ParameterSetType \<Rightarrow> bool" where
  "less_eq_ParameterSetType a b \<longleftrightarrow> pst_int a \<le> pst_int b"

definition less_ParameterSetType :: "ParameterSetType \<Rightarrow> ParameterSetType \<Rightarrow> bool" where
  "less_ParameterSetType a b \<longleftrightarrow> pst_int a < pst_int b"

instance
  by standard (auto simp: less_eq_ParameterSetType_def less_ParameterSetType_def intro: pst_int_eq)

end

record ParameterSetInfo =
  psi_type :: ParameterSetType
  psi_data :: "u8 list"
  psi_timestamp_ms :: int
  psi_is_valid :: bool

definition ParameterSetInfo_new :: "ParameterSetType \<Rightarrow> u8 list \<Rightarrow> int \<Rightarrow> ParameterSetInfo" where
  "ParameterSetInfo_new t d ts =
     \<lparr>psi_type = t, psi_data = d, psi_timestamp_ms = ts, psi_is_valid = True\<rparr>"

record ParameterSetStats =
  total_updates :: u64
  valid_updates :: u64
  invalid_updates :: u64
  sps_count :: u64
  pps_count :: u64
  vps_count :: u64
  asc_count :: u64

definition ParameterSetStats_new :: ParameterSetStats where
  "ParameterSetStats_new = \<lparr>total_updates = 0, valid_updates = 0, invalid_updates = 0,
     sps_count = 0, pps_count = 0, vps_count = 0, asc_count = 0\<rparr>"

record ParameterSetManager =
  psm_sets :: "(ParameterSetType, ParameterSetInfo) smap"
  psm_stats :: ParameterSetStats

definition ParameterSetManager_new :: ParameterSetManager where
  "ParameterSetManager_new = \<lparr>psm_sets = [], psm_stats = ParameterSetStats_new\<rparr>"

definition validate_h264_sps :: "u8 list \<Rightarrow> bool" where
  "validate_h264_sps data = (if length data < 4 then False else data ! 0 AND 0x1F = 7)"

definition validate_h264_pps :: "u8 list \<Rightarrow> bool" where
  "validate_h264_pps data = (if length data < 4 then False else data ! 0 AND 0x1F = 8)"

definition validate_h265_vps :: "u8 list \<Rightarrow> bool" where
  "validate_h265_vps data = (if length data < 4 then False else drop_bit 1 (data ! 0) AND 0x3F = 32)"

definition validate_h265_sps :: "u8 list \<Rightarrow> bool" where
  "validate_h265_sps data = (if length data < 4 then False else drop_bit 1 (data ! 0) AND 0x3F = 33)"

definition validate_h265_pps :: "u8 list \<Rightarrow> bool" where
  "validate_h265_pps data = (if length data < 4 then False else drop_bit 1 (data ! 0) AND 0x3F = 34)"

definition validate_aac_asc :: "u8 list \<Rightarrow> bool" where
  "validate_aac_asc data = (if length data < 2 then False else True)"

definition validate_parameter_set :: "ParameterSetType \<Rightarrow> u8 list \<Rightarrow> bool" where
  "validate_parameter_set t data =
     (if data = [] then False
      else case t of
        SPS \<Rightarrow> validate_h264_sps data
      | PPS \<Rightarrow> validate_h264_pps data
      | VPS \<Rightarrow> validate_h265_vps data
      | ASC \<Rightarrow> validate_aac_asc data
      | _ \<Rightarrow> True)"

definition update_stats :: "ParameterSetType \<Rightarrow> bool \<Rightarrow> ParameterSetStats \<Rightarrow> ParameterSetStats" where
  "update_stats t valid st0 =
     (let st = st0\<lparr>total_updates := total_updates st0 + 1\<rparr> in
      if valid
      then (let st1 = st\<lparr>valid_updates := valid_updates st + 1\<rparr> in
            case t of
              SPS \<Rightarrow> st1\<lparr>sps_count := sps_count st1 + 1\<rparr>
            | PPS \<Rightarrow> st1\<lparr>pps_count := pps_count st1 + 1\<rparr>
            | VPS \<Rightarrow> st1\<lparr>vps_count := vps_count st1 + 1\<rparr>
            | ASC \<Rightarrow> st1\<lparr>asc_count := asc_count st1 + 1\<rparr>
            | _ \<Rightarrow> st1)
      else st\<lparr>invalid_updates := invalid_updates st + 1\<rparr>)"

definition update_parameter_set ::
    "ParameterSetType \<Rightarrow> u8 list \<Rightarrow> int \<Rightarrow> ParameterSetManager \<Rightarrow> ParameterSetManager" where
  "update_parameter_set t data timestamp_ms pm =
     (let valid = validate_parameter_set t data;
          pm1 = pm\<lparr>psm_stats := update_stats t valid (psm_stats pm)\<rparr>
      in if valid
         then pm1\<lparr>psm_sets := sm_put t (ParameterSetInfo_new t data timestamp_ms) (psm_sets pm1)\<rparr>
         else pm1)"

definition get_parameter_set :: "ParameterSetType \<Rightarrow> ParameterSetManager \<Rightarrow> u8 list" where
  "get_parameter_set t pm =
     (case sm_find (psm_sets pm) t of
        None \<Rightarrow> []
      | Some i \<Rightarrow> if psi_is_valid i then psi_data i else [])"

definition get_all_parameter_sets :: "ParameterSetManager \<Rightarrow> ParameterSetInfo list" where
  "get_all_parameter_sets pm = filter psi_is_valid (map snd (psm_sets pm))"

definition has_parameter_set :: "ParameterSetType \<Rightarrow> ParameterSetManager \<Rightarrow> bool" where
  "has_parameter_set t pm =
     (case sm_find (psm_sets pm) t of None \<Rightarrow> False | Some i \<Rightarrow> psi_is_valid i)"

definition is_parameter_set_valid :: "ParameterSetType \<Rightarrow> ParameterSetManager \<Rightarrow> bool" where
  "is_parameter_set_valid t pm =
     (case sm_find (psm_sets pm) t of None \<Rightarrow> False | Some i \<Rightarrow> psi_is_valid i)"

definition clear_parameter_set :: "ParameterSetType \<Rightarrow> ParameterSetManager \<Rightarrow> ParameterSetManager" where
  "clear_parameter_set t pm = pm\<lparr>psm_sets := sm_erase t (psm_sets pm)\<rparr>"

definition clear_all :: "ParameterSetManager \<Rightarrow> ParameterSetManager" where
  "clear_all pm = pm\<lparr>psm_sets := []\<rparr>"

definition psm_get_stats :: "ParameterSetManager \<Rightarrow> ParameterSetStats" where
  "psm_get_stats pm = psm_stats pm"

definition psm_reset_stats :: "ParameterSetManager \<Rightarrow> ParameterSetManager" where
  "psm_reset_stats pm = pm\<lparr>psm_stats := ParameterSetStats_new\<rparr>"

section \<open>Only valid sets are kept\<close>

definition psm_inv :: "ParameterSetManager \<Rightarrow> bool" where
  "psm_inv pm \<longleftrightarrow> sm_wf (psm_sets pm) \<and>
     (\<forall>(t, i) \<in> set (psm_sets pm). psi_type i = t \<and> psi_is_valid i \<and> validate_parameter_set t (psi_data i))"

inductive psm_step :: "ParameterSetManager \<Rightarrow> ParameterSetManager \<Rightarrow> bool" where
  ps_update: "psm_step pm (update_parameter_set t data ts pm)"
| ps_clear: "psm_step pm (clear_parameter_set t pm)"
| ps_clear_all: "psm_step pm (clear_all pm)"
| ps_reset: "psm_step pm (psm_reset_stats pm)"

lemma psm_inv_step: "psm_step pm pm' \<Longrightarrow> psm_inv pm \<Longrightarrow> psm_inv pm'"
proof (induction rule: psm_step.induct)
  case (ps_update pm t data ts)
  then show ?case
    by (auto simp: psm_inv_def update_parameter_set_def Let_def sm_wf_put ParameterSetInfo_new_def
        dest!: sm_put_set)
next
  case (ps_clear pm t)
  then show ?case by (auto simp: psm_inv_def clear_parameter_set_def sm_erase_def sm_wf_filter)
qed (auto simp: psm_inv_def clear_all_def psm_reset_stats_def)

lemma psm_reachable_inv: "psm_step\<^sup>*\<^sup>* ParameterSetManager_new pm \<Longrightarrow> psm_inv pm"
proof (induction rule: rtranclp_induct)
  case base
  show ?case by (simp add: psm_inv_def ParameterSetManager_new_def)
qed (auto intro: psm_inv_step)

text \<open>
  C29. The parameter set manager only hands out valid parameter sets: after any sequence of updates,
  removals and resets, each set it returns for a key frame passes the validation of its kind and is the
  one a lookup of its kind returns, and they come in the order of their kinds, at most one of each.
\<close>

theorem parameter_sets_valid:
  assumes "psm_step\<^sup>*\<^sup>* ParameterSetManager_new pm"
  shows "sorted_wrt (<) (map psi_type (get_all_parameter_sets pm)) \<and>
    (\<forall>i \<in> set (get_all_parameter_sets pm). validate_parameter_set (psi_type i) (psi_data i) \<and>
       get_parameter_set (psi_type i) pm = psi_data i)"
proof -
  have inv: "psm_inv pm" by (rule psm_reachable_inv [OF assms])
  have all: "get_all_parameter_sets pm = map snd (psm_sets pm)"
    unfolding get_all_parameter_sets_def by (rule filter_True) (use inv in \<open>auto simp: psm_inv_def\<close>)
  have types: "map psi_type (map snd (psm_sets pm)) = map fst (psm_sets pm)"
    using inv by (auto simp: psm_inv_def)
  have "get_parameter_set t pm = psi_data i" if "(t, i) \<in> set (psm_sets pm)" for t i
    using inv that by (auto simp: psm_inv_def get_parameter_set_def sm_find_iff [symmetric])
  then show ?thesis
    using inv unfolding all types by (fastforce simp: psm_inv_def sm_wf_def)
qed

theorem parameter_sets_valid_witness:
  "validate_parameter_set ASC (psi_data (hd (get_all_parameter_sets
     (update_parameter_set ASC [18, 16] 7 ParameterSetManager_new))))"
proof -
  have "get_all_parameter_sets (update_parameter_set ASC [18, 16] 7 ParameterSetManager_new) =
      [ParameterSetInfo_new ASC [18, 16] 7]"
    by (simp add: get_all_parameter_sets_def update_parameter_set_def ParameterSetManager_new_def
        validate_parameter_set_def validate_aac_asc_def ParameterSetInfo_new_def Let_def)
  then show ?thesis
    using parameter_sets_valid [OF r_into_rtranclp [of psm_step, OF ps_update], of ASC "[18, 16]" 7]
    by (simp add: ParameterSetInfo_new_def)
qed

text \<open>
  C20. A lookup returns the last valid update: after \<open>update_parameter_set\<close> a lookup of that kind returns
  the new data if they are valid and what it returned before if they are not, a lookup of any other kind
  is unchanged, and removing a kind makes its lookup empty.
\<close>

theorem parameter_set_lookup_after_update:
  "get_parameter_set t' (update_parameter_set t data ts pm) =
     (if t' = t \<and> validate_parameter_set t data then data else get_parameter_set t' pm) \<and>
   has_parameter_set t' (update_parameter_set t data ts pm) =
     (t' = t \<and> validate_parameter_set t data \<or> has_parameter_set t' pm) \<and>
   get_parameter_set t' (clear_parameter_set t pm) = (if t' = t then [] else get_parameter_set t' pm)"
  by (simp add: get_parameter_set_def has_parameter_set_def update_parameter_set_def clear_parameter_set_def
      sm_find_put_app sm_find_erase_app ParameterSetInfo_new_def Let_def)

end
