(* ===== verification/MyProto.thy ===== *)
theory MyProto
  imports Kernel_Buffer Adapter_Core Adapter_Stats Parameter_Sets
begin

text \<open>
  \<open>MyProtoAdapter\<close> of \<open>adapter/adapters/myproto_adapter.cpp\<close>: the parser of a framed byte stream that
  creates standard frames and pushes them to a live source. The state of the object is one record; it
  also carries the process-wide statistics manager, and a log of the callbacks made. \<open>on_frame\<close> is the
  live source; \<open>now_us\<close> the cached wall clock, \<open>now_ns\<close> the monotonic clock. An operation returns its
  error and the state. \<open>feed\<close> may loop forever, which is the value \<open>None\<close>.
\<close>

section \<open>State\<close>

datatype MpState = STATE_HEADER | STATE_PAYLOAD | STATE_COMPLETE

record MyProtoFrame =
  mf_magic :: u32
  mf_length :: u32
  mf_type :: u8
  mf_codec :: u8
  mf_timestamp :: u64
  mf_flags :: u8
  mf_width :: u32
  mf_height :: u32
  mf_sample_rate :: u32
  mf_channels :: u32

definition MyProtoFrame_zero :: MyProtoFrame where
  "MyProtoFrame_zero = \<lparr>mf_magic = 0, mf_length = 0, mf_type = 0, mf_codec = 0, mf_timestamp = 0,
     mf_flags = 0, mf_width = 0, mf_height = 0, mf_sample_rate = 0, mf_channels = 0\<rparr>"

text \<open>\<open>sizeof(MyProtoFrame)\<close>: the 8-byte timestamp is aligned to 8 and the size rounded up to 48, while
  the fields take 35 bytes on the wire.\<close>

abbreviation sizeof_MyProtoFrame :: int where "sizeof_MyProtoFrame \<equiv> 48"

record MpStats =
  ms_total_frames :: u64
  ms_video_frames :: u64
  ms_audio_frames :: u64
  ms_keyframes :: u64
  ms_b_frames :: u64
  ms_invalid_timestamps :: u64
  ms_parameter_set_updates :: u64

definition MpStats_new :: MpStats where
  "MpStats_new = \<lparr>ms_total_frames = 0, ms_video_frames = 0, ms_audio_frames = 0, ms_keyframes = 0,
     ms_b_frames = 0, ms_invalid_timestamps = 0, ms_parameter_set_updates = 0\<rparr>"

datatype MpEvent = Start_Stream string string string | Stop_Stream

record MyProtoAdapter =
  mp_init :: AdapterInit
  mp_state :: MpState
  mp_input_buffer :: "u8 list"
  mp_buffer :: SrsBuffer
  mp_frame_header :: MyProtoFrame
  mp_payload_buffer :: "u8 list"
  mp_on_start_stream :: bool
  mp_on_stop_stream :: bool
  mp_events :: "MpEvent list"
  mp_stream_started :: bool
  mp_param_manager :: ParameterSetManager
  mp_source_bridge :: FrameToSourceBridge
  mp_stats_manager :: AdapterStatsManager
  mp_connection_id :: string
  mp_client_ip :: string
  mp_client_port :: int
  mp_last_dts_ms :: int
  mp_last_pts_ms :: int
  mp_base_timestamp_ms :: int
  mp_has_base_timestamp :: bool
  mp_last_frame_wallclock_ms :: int
  mp_heartbeat_interval_ms :: int
  mp_drop_b_in_low_latency :: bool
  mp_hot_start :: bool
  mp_b_frame_buffer :: "StdFrame list"
  mp_b_frame_delay_ms :: int
  mp_stats :: MpStats

definition MyProtoAdapter_new :: "string \<Rightarrow> AdapterStatsManager \<Rightarrow> MyProtoAdapter" where
  "MyProtoAdapter_new connection_id stats_manager =
     \<lparr>mp_init = AdapterInit_new '''' '''' '''', mp_state = STATE_HEADER, mp_input_buffer = [],
      mp_buffer = SrsBuffer_new [], mp_frame_header = MyProtoFrame_zero, mp_payload_buffer = [],
      mp_on_start_stream = False, mp_on_stop_stream = False, mp_events = [], mp_stream_started = False,
      mp_param_manager = ParameterSetManager_new, mp_source_bridge = FrameToSourceBridge_new,
      mp_stats_manager = stats_manager, mp_connection_id = connection_id, mp_client_ip = '''',
      mp_client_port = 0, mp_last_dts_ms = 0, mp_last_pts_ms = 0, mp_base_timestamp_ms = 0,
      mp_has_base_timestamp = False, mp_last_frame_wallclock_ms = 0, mp_heartbeat_interval_ms = 5000,
      mp_drop_b_in_low_latency = False, mp_hot_start = False, mp_b_frame_buffer = [],
      mp_b_frame_delay_ms = 40, mp_stats = MpStats_new\<rparr>"

definition on_stats :: "(AdapterStatsManager \<Rightarrow> AdapterStatsManager res) \<Rightarrow> MyProtoAdapter \<Rightarrow> MyProtoAdapter outcome" where
  "on_stats f st =
     (case f (mp_stats_manager st) of
        Inl e \<Rightarrow> (Inl e, st)
      | Inr m \<Rightarrow> (srs_success, st\<lparr>mp_stats_manager := m\<rparr>))"

section \<open>Start\<close>

definition mp_start ::
    "(string \<Rightarrow> string \<Rightarrow> string \<Rightarrow> unit res) option \<Rightarrow> int \<Rightarrow> AdapterInit \<Rightarrow> MyProtoAdapter \<Rightarrow> MyProtoAdapter outcome" where
  "mp_start fetch now_ns init st0 =
     (let st = st0\<lparr>mp_init := init, mp_state := STATE_HEADER, mp_stream_started := False,
                  mp_has_base_timestamp := False, mp_last_dts_ms := 0, mp_last_pts_ms := 0,
                  mp_b_frame_buffer := [],
                  mp_b_frame_delay_ms := get_int_param ''b_frame_delay_ms'' 40 init,
                  mp_heartbeat_interval_ms := get_int_param ''heartbeat_interval_ms'' 5000 init,
                  mp_drop_b_in_low_latency := get_bool_param ''low_latency_drop_b'' False init,
                  mp_hot_start := get_bool_param ''hot_start'' False init\<rparr>
      in case br_initialize fetch (ai_vhost init) (ai_app init) (ai_stream init) (mp_source_bridge st) of
           (Inl e, br) \<Rightarrow> (Inl e, st\<lparr>mp_source_bridge := br\<rparr>)
         | (Inr _, br) \<Rightarrow>
             on_stats (add_connection now_ns (mp_connection_id st) ''myproto'' (ai_vhost init) (ai_app init)
                         (ai_stream init) (mp_client_ip st) (mp_client_port st))
               (st\<lparr>mp_source_bridge := br\<rparr>))"

section \<open>Parsing\<close>

definition read_header :: "SrsBuffer \<Rightarrow> (MyProtoFrame \<times> SrsBuffer) res" where
  "read_header b0 =
     res_bind (read_4bytes b0) (\<lambda>(magic, b1).
     res_bind (read_4bytes b1) (\<lambda>(len, b2).
     res_bind (read_1bytes b2) (\<lambda>(ty, b3).
     res_bind (read_1bytes b3) (\<lambda>(cod, b4).
     res_bind (read_8bytes b4) (\<lambda>(ts, b5).
     res_bind (read_1bytes b5) (\<lambda>(fl, b6).
     res_bind (read_4bytes b6) (\<lambda>(w, b7).
     res_bind (read_4bytes b7) (\<lambda>(h, b8).
     res_bind (read_4bytes b8) (\<lambda>(sr, b9).
     res_bind (read_4bytes b9) (\<lambda>(ch, b10).
       Inr (\<lparr>mf_magic = magic, mf_length = len, mf_type = ty, mf_codec = cod, mf_timestamp = ts,
             mf_flags = fl, mf_width = w, mf_height = h, mf_sample_rate = sr, mf_channels = ch\<rparr>, b10)))))))))))"

definition parseHeader :: "MyProtoAdapter \<Rightarrow> MyProtoAdapter outcome" where
  "parseHeader st =
     (if left (mp_buffer st) < sizeof_MyProtoFrame then (srs_success, st)
      else case read_header (mp_buffer st) of
        Inl e \<Rightarrow> (Inl e, st)
      | Inr (hdr, b) \<Rightarrow>
          (let st1 = st\<lparr>mp_frame_header := hdr, mp_buffer := b\<rparr> in
           if mf_magic hdr \<noteq> 0x12345678 then (Inl ERROR_RTMP_MESSAGE_DECODE, st1)
           else if mf_length hdr > 1024 * 1024 then (Inl ERROR_RTMP_MESSAGE_DECODE, st1)
           else (srs_success, st1\<lparr>mp_payload_buffer := [], mp_state := STATE_PAYLOAD\<rparr>)))"

definition parsePayload :: "MyProtoAdapter \<Rightarrow> MyProtoAdapter outcome" where
  "parsePayload st =
     (let len = unat (mf_length (mp_frame_header st));
          needed = nat ((int len - int (length (mp_payload_buffer st))) mod 2 ^ 64);
          available = left (mp_buffer st);
          to_read = min needed (nat (available mod 2 ^ 64));
          done = (\<lambda>s. (srs_success, if length (mp_payload_buffer s) \<ge> len
                                    then s\<lparr>mp_state := STATE_COMPLETE\<rparr> else s))
      in if to_read > 0
         then (case next_bytes to_read (mp_buffer st) of
                 Inl e \<Rightarrow> (Inl e, st)
               | Inr (bs, b) \<Rightarrow> done (st\<lparr>mp_payload_buffer := mp_payload_buffer st @ bs, mp_buffer := b\<rparr>))
         else done st)"

section \<open>Creating frames\<close>

definition validateTimestamp :: "int \<Rightarrow> int \<Rightarrow> MyProtoAdapter \<Rightarrow> bool" where
  "validateTimestamp dts pts st =
     (if dts < 0 \<or> pts < 0 then False
      else if mp_last_dts_ms st > 0 \<and> dts < mp_last_dts_ms st then False
      else if pts < dts then False
      else True)"

text \<open>The payload of a frame: an ADTS header is cut off AAC, a start code is put before a NAL unit that
  has none.\<close>

definition has_annexb_start :: "u8 list \<Rightarrow> bool" where
  "has_annexb_start p \<longleftrightarrow>
     (length p \<ge> 4 \<and> p ! 0 = 0 \<and> p ! 1 = 0 \<and> p ! 2 = 0 \<and> p ! 3 = 1) \<or>
     (length p \<ge> 3 \<and> p ! 0 = 0 \<and> p ! 1 = 0 \<and> p ! 2 = 1)"

definition frame_payload :: "string \<Rightarrow> u8 list \<Rightarrow> u8 list" where
  "frame_payload c p =
     (if c = ''AAC'' \<and> length p \<ge> 7
      then (if p ! 0 = 0xFF \<and> p ! 1 AND 0xF0 = 0xF0
            then (let adts_header_size = (if p ! 1 AND 0x01 \<noteq> 0 then 7 else 9) in
                  if length p > adts_header_size then drop adts_header_size p else p)
            else p)
      else if (c = ''H264'' \<or> c = ''H265'') \<and> length p > 0
      then (if \<not> has_annexb_start p then [0, 0, 0, 1] @ p else p)
      else p)"

text \<open>The search for parameter sets. \<open>size - 4\<close> is computed in \<open>size_t\<close>.\<close>

definition byte_at :: "u8 list \<Rightarrow> nat \<Rightarrow> u8 res" where
  "byte_at d i = (if i < length d then Inr (d ! i) else Inl UNDEFINED_READ)"

definition start_code_at :: "u8 list \<Rightarrow> nat \<Rightarrow> bool res" where
  "start_code_at d i =
     res_bind (byte_at d i) (\<lambda>a. if a \<noteq> 0 then Inr False else
     res_bind (byte_at d (i + 1)) (\<lambda>b. if b \<noteq> 0 then Inr False else
     res_bind (byte_at d (i + 2)) (\<lambda>c. if c \<noteq> 0 then Inr False else
     res_bind (byte_at d (i + 3)) (\<lambda>e. Inr (e = 1)))))"

function scan_sets :: "u8 list \<Rightarrow> nat \<Rightarrow> nat \<Rightarrow> ParameterSetManager \<times> u64 \<Rightarrow> (ParameterSetManager \<times> u64) res" where
  "scan_sets d limit i s =
     (if i < limit
      then res_bind (start_code_at d i) (\<lambda>found.
        if found
        then res_bind (byte_at d (i + 4)) (\<lambda>b.
          let nalu_type = b AND 0x1F in
          scan_sets d limit (Suc i)
            (if nalu_type = 7 then (update_parameter_set SPS (drop (i + 4) d) 0 (fst s), snd s + 1)
             else if nalu_type = 8 then (update_parameter_set PPS (drop (i + 4) d) 0 (fst s), snd s + 1)
             else s))
        else scan_sets d limit (Suc i) s)
      else Inr s)"
  by pat_completeness auto
termination
proof (relation "measure (\<lambda>(d, _, i, _). length d - i)", goal_cases)
  case (2 d limit i s found b t)
  then show ?case by (auto simp: start_code_at_def byte_at_def split: if_splits)
next
  case (3 d limit i s found)
  then show ?case by (auto simp: start_code_at_def byte_at_def split: if_splits)
qed simp

declare scan_sets.simps [simp del]

definition processParameterSets :: "StdFrame \<Rightarrow> MyProtoAdapter \<Rightarrow> MyProtoAdapter outcome" where
  "processParameterSets frame st =
     (if \<not> keyframe frame \<or> payload frame = [] then (srs_success, st)
      else if codec frame = ''H264''
      then (case scan_sets (payload frame) (nat ((int (length (payload frame)) - 4) mod 2 ^ 64)) 0
                   (mp_param_manager st, ms_parameter_set_updates (mp_stats st)) of
              Inl e \<Rightarrow> (Inl e, st)
            | Inr (pm, n) \<Rightarrow> (srs_success, st\<lparr>mp_param_manager := pm,
                mp_stats := (mp_stats st)\<lparr>ms_parameter_set_updates := n\<rparr>\<rparr>))
      else (srs_success, st))"

definition push_to_source ::
    "(SrsMediaPacket list \<Rightarrow> SrsMediaPacket \<Rightarrow> unit res) \<Rightarrow> StdFrame \<Rightarrow> MyProtoAdapter \<Rightarrow> MyProtoAdapter" where
  "push_to_source on_frame frame st =
     st\<lparr>mp_source_bridge := snd (push_frame on_frame frame (mp_source_bridge st))\<rparr>"

text \<open>Errors of single pushes are logged and freed, so the result is always success.\<close>

definition resend_parameter_sets ::
    "(SrsMediaPacket list \<Rightarrow> SrsMediaPacket \<Rightarrow> unit res) \<Rightarrow> StdFrame \<Rightarrow> MyProtoAdapter \<Rightarrow> MyProtoAdapter" where
  "resend_parameter_sets on_frame frame st =
     (if codec frame = ''H264'' \<or> codec frame = ''H265''
      then fold (\<lambda>param s. push_to_source on_frame
                   (frame\<lparr>keyframe := True, payload := psi_data param\<rparr>) s)
             (filter (\<lambda>param. psi_type param \<in> {SPS, PPS, VPS}) (get_all_parameter_sets (mp_param_manager st)))
             st
      else st)"

definition processBFrameTiming :: "StdFrame \<Rightarrow> MyProtoAdapter \<Rightarrow> StdFrame" where
  "processBFrameTiming frame st =
     (if dts_ms frame \<ge> pts_ms frame then frame\<lparr>pts_ms := dts_ms frame + mp_b_frame_delay_ms st\<rparr> else frame)"

text \<open>The codec part of the frame and the counters.\<close>

definition fill_frame :: "StdFrame \<Rightarrow> MyProtoAdapter \<Rightarrow> StdFrame \<times> MpStats" where
  "fill_frame frame st =
     (let hdr = mp_frame_header st; s = mp_stats st in
      if mf_type hdr = 0
      then (let f1 = (if mf_codec hdr = 0 then frame\<lparr>codec := ''H264''\<rparr>
                      else if mf_codec hdr = 1 then frame\<lparr>codec := ''H265''\<rparr> else frame);
                f2 = set_video_params (mf_width hdr) (mf_height hdr) (mf_flags hdr AND 0x01 \<noteq> 0) f1;
                s1 = (if keyframe f2 then s\<lparr>ms_keyframes := ms_keyframes s + 1\<rparr> else s)
            in (f2, s1\<lparr>ms_video_frames := ms_video_frames s1 + 1\<rparr>))
      else (let f1 = (if mf_codec hdr = 2 then frame\<lparr>codec := ''AAC''\<rparr>
                      else if mf_codec hdr = 3 then frame\<lparr>codec := ''OPUS''\<rparr> else frame)
            in (set_audio_params (mf_sample_rate hdr) (mf_channels hdr) f1,
                s\<lparr>ms_audio_frames := ms_audio_frames s + 1\<rparr>)))"

text \<open>The start of the stream: with a key frame, or with any frame in hot start. The flag tells whether
  the frame goes on.\<close>

definition start_stream :: "int \<Rightarrow> StdFrame \<Rightarrow> MyProtoAdapter \<Rightarrow> bool \<times> MyProtoAdapter outcome" where
  "start_stream now_ns frame st =
     (if mp_stream_started st then (True, srs_success, st)
      else if mp_hot_start st \<or> keyframe frame
      then (True, and_then (on_stats (update_first_frame_time now_ns (mp_connection_id st)) (st\<lparr>mp_stream_started := True\<rparr>))
              (\<lambda>s. (srs_success, if mp_on_start_stream s
                     then s\<lparr>mp_events := mp_events s @ [Start_Stream (ai_vhost (mp_init s)) (ai_app (mp_init s)) (ai_stream (mp_init s))]\<rparr>
                     else s)))
      else (False, srs_success, st))"

text \<open>The end of \<open>createStdFrame\<close>, for a frame that passed the start.\<close>

definition emit_frame ::
    "(SrsMediaPacket list \<Rightarrow> SrsMediaPacket \<Rightarrow> unit res) \<Rightarrow> int \<Rightarrow> bool \<Rightarrow> StdFrame \<Rightarrow> MyProtoAdapter \<Rightarrow> MyProtoAdapter outcome" where
  "emit_frame on_frame now_us is_b_frame frame0 st0 =
     (let st = (if mp_hot_start st0 \<and> mp_stream_started st0 \<and> keyframe frame0
                then resend_parameter_sets on_frame frame0 st0 else st0);
          frame = (if is_b_frame then processBFrameTiming frame0 st else frame0)
      in if mp_drop_b_in_low_latency st \<and> is_b_frame \<and> \<not> keyframe frame
         then on_stats (update_frame_stats (mp_connection_id st) True False True) st
         else (let st1 = st\<lparr>mp_stats := (mp_stats st)\<lparr>ms_total_frames := ms_total_frames (mp_stats st) + 1\<rparr>,
                            mp_last_dts_ms := dts_ms frame0, mp_last_pts_ms := pts_ms frame0,
                            mp_last_frame_wallclock_ms := now_us sdiv 1000\<rparr>;
                   st2 = push_to_source on_frame frame st1
               in on_stats (update_frame_stats (mp_connection_id st2)
                              (codec frame = ''H264'' \<or> codec frame = ''H265'') (keyframe frame) False) st2))"

definition finish_frame ::
    "(SrsMediaPacket list \<Rightarrow> SrsMediaPacket \<Rightarrow> unit res) \<Rightarrow> int \<Rightarrow> int \<Rightarrow> bool \<Rightarrow> StdFrame \<Rightarrow> MyProtoAdapter
      \<Rightarrow> MyProtoAdapter outcome" where
  "finish_frame on_frame now_us now_ns is_b_frame frame st =
     (let (go, r) = start_stream now_ns frame st in
      and_then r (\<lambda>s. if go then emit_frame on_frame now_us is_b_frame frame s else (srs_success, s)))"

text \<open>The beginning of \<open>createStdFrame\<close>: the timestamps, and \<open>None\<close> for a frame that they disqualify.
  The flag marks a B frame.\<close>

definition stamp_frame :: "MyProtoAdapter \<Rightarrow> (StdFrame \<times> bool) option \<times> MyProtoAdapter" where
  "stamp_frame st0 =
     (let hdr = mp_frame_header st0;
          timestamp_ms = uint (mf_timestamp hdr div 1000);
          st1 = (if \<not> mp_has_base_timestamp st0
                 then st0\<lparr>mp_base_timestamp_ms := timestamp_ms, mp_has_base_timestamp := True\<rparr> else st0);
          dts = timestamp_ms - mp_base_timestamp_ms st1;
          is_b_frame = (mf_flags hdr AND 0x02 \<noteq> 0);
          pts = (if is_b_frame then dts + mp_b_frame_delay_ms st1 else dts);
          st2 = (if is_b_frame
                 then st1\<lparr>mp_stats := (mp_stats st1)\<lparr>ms_b_frames := ms_b_frames (mp_stats st1) + 1\<rparr>\<rparr> else st1)
      in if \<not> validateTimestamp dts pts st2
         then (None, st2\<lparr>mp_stats := (mp_stats st2)\<lparr>ms_invalid_timestamps := ms_invalid_timestamps (mp_stats st2) + 1\<rparr>\<rparr>)
         else (Some (set_stream_id (ai_vhost (mp_init st2)) (ai_app (mp_init st2)) (ai_stream (mp_init st2))
                       (StdFrame_default\<lparr>dts_ms := dts, pts_ms := pts, has_pts := True\<rparr>), is_b_frame), st2))"

text \<open>\<open>set_payload\<close> swaps vectors: a payload taken over unchanged empties \<open>payload_buffer_\<close>.\<close>

definition createStdFrame ::
    "(SrsMediaPacket list \<Rightarrow> SrsMediaPacket \<Rightarrow> unit res) \<Rightarrow> int \<Rightarrow> int \<Rightarrow> MyProtoAdapter \<Rightarrow> MyProtoAdapter outcome" where
  "createStdFrame on_frame now_us now_ns st0 =
     (case stamp_frame st0 of
        (None, st) \<Rightarrow> (srs_success, st)
      | (Some (frame0, is_b_frame), st) \<Rightarrow>
          (let (frame1, stats1) = fill_frame frame0 st;
               p = mp_payload_buffer st;
               frame = set_payload (frame_payload (codec frame1) p) frame1;
               st3 = st\<lparr>mp_stats := stats1,
                       mp_payload_buffer := (if p = payload frame then [] else p)\<rparr>
           in and_then (on_stats (update_zero_copy_stats (mp_connection_id st3) (p \<noteq> [])) st3) (\<lambda>st4.
              and_then (processParameterSets frame st4)
                (finish_frame on_frame now_us now_ns is_b_frame frame))))"

section \<open>Feeding\<close>

definition mp_step ::
    "(SrsMediaPacket list \<Rightarrow> SrsMediaPacket \<Rightarrow> unit res) \<Rightarrow> int \<Rightarrow> int \<Rightarrow> MyProtoAdapter \<Rightarrow> MyProtoAdapter outcome" where
  "mp_step on_frame now_us now_ns st =
     (case mp_state st of
        STATE_HEADER \<Rightarrow> parseHeader st
      | STATE_PAYLOAD \<Rightarrow> parsePayload st
      | STATE_COMPLETE \<Rightarrow>
          and_then (createStdFrame on_frame now_us now_ns st) (\<lambda>s. (srs_success, s\<lparr>mp_state := STATE_HEADER\<rparr>)))"

partial_function (option) mp_loop ::
    "(SrsMediaPacket list \<Rightarrow> SrsMediaPacket \<Rightarrow> unit res) \<Rightarrow> int \<Rightarrow> int \<Rightarrow> MyProtoAdapter
      \<Rightarrow> (MyProtoAdapter outcome) option" where
  "mp_loop on_frame now_us now_ns st =
     (if left (mp_buffer st) > 0
      then (let p = mp_step on_frame now_us now_ns st in
            if isl (fst p) then Some p else mp_loop on_frame now_us now_ns (snd p))
      else Some (srs_success, st))"

definition heartbeat :: "int \<Rightarrow> MyProtoAdapter \<Rightarrow> MyProtoAdapter" where
  "heartbeat now_ms st =
     (if mp_last_frame_wallclock_ms st > 0 \<and> mp_heartbeat_interval_ms st > 0 \<and>
         now_ms - mp_last_frame_wallclock_ms st > mp_heartbeat_interval_ms st \<and> mp_stream_started st
      then st\<lparr>mp_stream_started := False,
              mp_events := (if mp_on_stop_stream st then mp_events st @ [Stop_Stream] else mp_events st)\<rparr>
      else st)"

definition mp_feed ::
    "(SrsMediaPacket list \<Rightarrow> SrsMediaPacket \<Rightarrow> unit res) \<Rightarrow> int \<Rightarrow> int \<Rightarrow> u8 list \<Rightarrow> MyProtoAdapter
      \<Rightarrow> (MyProtoAdapter outcome) option" where
  "mp_feed on_frame now_us now_ns data st0 =
     (let st1 = heartbeat (now_us sdiv 1000) st0;
          st2 = st1\<lparr>mp_input_buffer := mp_input_buffer st1 @ data\<rparr>
      in if mp_input_buffer st2 = [] then Some (srs_success, st2)
         else (case mp_loop on_frame now_us now_ns (st2\<lparr>mp_buffer := SrsBuffer_new (mp_input_buffer st2)\<rparr>) of
                 None \<Rightarrow> None
               | Some (Inl e, st) \<Rightarrow> Some (Inl e, st)
               | Some (Inr _, st) \<Rightarrow>
                   (let processed = pos (mp_buffer st) in
                    Some (srs_success,
                      if processed > 0 then st\<lparr>mp_input_buffer := drop (nat processed) (mp_input_buffer st)\<rparr>
                      else st))))"

definition mp_parseFrame :: "MyProtoAdapter \<Rightarrow> MyProtoAdapter outcome" where
  "mp_parseFrame st = (srs_success, st)"

definition mp_flush :: "MyProtoAdapter \<Rightarrow> MyProtoAdapter outcome" where
  "mp_flush st = (srs_success, st\<lparr>mp_b_frame_buffer := []\<rparr>)"

definition mp_close :: "MyProtoAdapter \<Rightarrow> MyProtoAdapter outcome" where
  "mp_close st0 =
     (let st = (if mp_stream_started st0 \<and> mp_on_stop_stream st0
                then st0\<lparr>mp_events := mp_events st0 @ [Stop_Stream]\<rparr> else st0);
          st1 = st\<lparr>mp_payload_buffer := [], mp_b_frame_buffer := [], mp_state := STATE_HEADER,
                  mp_stream_started := False, mp_has_base_timestamp := False,
                  mp_param_manager := clear_all (mp_param_manager st),
                  mp_source_bridge := br_close (mp_source_bridge st)\<rparr>
      in if mp_connection_id st1 \<noteq> '''' then on_stats (remove_connection (mp_connection_id st1)) st1
         else (srs_success, st1))"

definition setOnStartStream :: "bool \<Rightarrow> MyProtoAdapter \<Rightarrow> MyProtoAdapter" where
  "setOnStartStream callback st = st\<lparr>mp_on_start_stream := callback\<rparr>"

definition setOnStopStream :: "bool \<Rightarrow> MyProtoAdapter \<Rightarrow> MyProtoAdapter" where
  "setOnStopStream callback st = st\<lparr>mp_on_stop_stream := callback\<rparr>"

section \<open>The wire format\<close>

definition header_bytes :: "MyProtoFrame \<Rightarrow> u8 list" where
  "header_bytes h = be_bytes 4 (mf_magic h) @ be_bytes 4 (mf_length h) @ [mf_type h] @ [mf_codec h] @
     be_bytes 8 (mf_timestamp h) @ [mf_flags h] @ be_bytes 4 (mf_width h) @ be_bytes 4 (mf_height h) @
     be_bytes 4 (mf_sample_rate h) @ be_bytes 4 (mf_channels h)"

lemma length_header_bytes [simp]: "length (header_bytes h) = 35"
  by (simp add: header_bytes_def)

lemma be_bytes_1: "be_bytes 1 (w :: u8) = [w]"
  by (simp add: be_bytes_def le_bytes_def byte_of_def)

text \<open>One read of \<open>n\<close> bytes at the front of what remains.\<close>

lemma read_front:
  assumes "buf_inv b" "remaining b = be_bytes n (w :: 'a::len word) @ rest" "8 * n = LENGTH('a)"
  obtains b' where "read_be n b = Inr (w, b')" "buf_inv b'" "remaining b' = rest"
    "buf_bytes b' = buf_bytes b" "buf_p b' = buf_p b + int n"
proof -
  have "n \<le> length (remaining b)" using assms(2) by simp
  from next_bytes_ok(2,3) [OF assms(1) this] that read_be_ok [OF assms] assms(2) show thesis by simp
qed

lemma read_header_ok:
  assumes "buf_inv b" "remaining b = header_bytes h @ rest"
  obtains b' where "read_header b = Inr (h, b')" "buf_inv b'" "remaining b' = rest"
    "buf_bytes b' = buf_bytes b"
proof -
  let ?t10 = rest
  let ?t9 = "be_bytes 4 (mf_channels h) @ ?t10"
  let ?t8 = "be_bytes 4 (mf_sample_rate h) @ ?t9"
  let ?t7 = "be_bytes 4 (mf_height h) @ ?t8"
  let ?t6 = "be_bytes 4 (mf_width h) @ ?t7"
  let ?t5 = "be_bytes 1 (mf_flags h) @ ?t6"
  let ?t4 = "be_bytes 8 (mf_timestamp h) @ ?t5"
  let ?t3 = "be_bytes 1 (mf_codec h) @ ?t4"
  let ?t2 = "be_bytes 1 (mf_type h) @ ?t3"
  let ?t1 = "be_bytes 4 (mf_length h) @ ?t2"
  let ?t0 = "be_bytes 4 (mf_magic h) @ ?t1"
  have r: "remaining b = ?t0" using assms(2) by (simp add: header_bytes_def be_bytes_1 del: One_nat_def)
  obtain b1 where 1: "read_be 4 b = Inr (mf_magic h, b1)" "buf_inv b1" "buf_bytes b1 = buf_bytes b"
      "remaining b1 = ?t1" by (rule read_front [OF assms(1) r]) simp_all
  obtain b2 where 2: "read_be 4 b1 = Inr (mf_length h, b2)" "buf_inv b2" "buf_bytes b2 = buf_bytes b1"
      "remaining b2 = ?t2" by (rule read_front [OF 1(2,4)]) simp_all
  obtain b3 where 3: "read_be 1 b2 = Inr (mf_type h, b3)" "buf_inv b3" "buf_bytes b3 = buf_bytes b2"
      "remaining b3 = ?t3" by (rule read_front [OF 2(2,4)]) simp_all
  obtain b4 where 4: "read_be 1 b3 = Inr (mf_codec h, b4)" "buf_inv b4" "buf_bytes b4 = buf_bytes b3"
      "remaining b4 = ?t4" by (rule read_front [OF 3(2,4)]) simp_all
  obtain b5 where 5: "read_be 8 b4 = Inr (mf_timestamp h, b5)" "buf_inv b5" "buf_bytes b5 = buf_bytes b4"
      "remaining b5 = ?t5" by (rule read_front [OF 4(2,4)]) simp_all
  obtain b6 where 6: "read_be 1 b5 = Inr (mf_flags h, b6)" "buf_inv b6" "buf_bytes b6 = buf_bytes b5"
      "remaining b6 = ?t6" by (rule read_front [OF 5(2,4)]) simp_all
  obtain b7 where 7: "read_be 4 b6 = Inr (mf_width h, b7)" "buf_inv b7" "buf_bytes b7 = buf_bytes b6"
      "remaining b7 = ?t7" by (rule read_front [OF 6(2,4)]) simp_all
  obtain b8 where 8: "read_be 4 b7 = Inr (mf_height h, b8)" "buf_inv b8" "buf_bytes b8 = buf_bytes b7"
      "remaining b8 = ?t8" by (rule read_front [OF 7(2,4)]) simp_all
  obtain b9 where 9: "read_be 4 b8 = Inr (mf_sample_rate h, b9)" "buf_inv b9" "buf_bytes b9 = buf_bytes b8"
      "remaining b9 = ?t9" by (rule read_front [OF 8(2,4)]) simp_all
  obtain b10 where 10: "read_be 4 b9 = Inr (mf_channels h, b10)" "buf_inv b10" "buf_bytes b10 = buf_bytes b9"
      "remaining b10 = ?t10" by (rule read_front [OF 9(2,4)]) simp_all
  have "read_header b = Inr (h, b10)"
    by (simp add: read_header_def read_4bytes_def read_1bytes_def read_8bytes_def
        1(1) 2(1) 3(1) 4(1) 5(1) 6(1) 7(1) 8(1) 9(1) 10(1) del: One_nat_def)
  then show thesis using 1(3) 2(3) 3(3) 4(3) 5(3) 6(3) 7(3) 8(3) 9(3) 10 that by simp
qed

end
