(* ===== verification/MyProto_Props.thy ===== *)
theory MyProto_Props
  imports MyProto
begin

text \<open>
  Properties of \<open>MyProtoAdapter\<close>: what a call of \<open>feed\<close> does with whole frames, with short input and with
  a bad header, the order of the packets that reach the source, and the bounds of the parameter set scan.
\<close>

section \<open>What an operation leaves alone\<close>

text \<open>The input side of the state, which creating a frame does not touch.\<close>

definition mp_input_side :: "MyProtoAdapter \<Rightarrow> SrsBuffer \<times> u8 list \<times> MpState \<times> MyProtoFrame" where
  "mp_input_side st = (mp_buffer st, mp_input_buffer st, mp_state st, mp_frame_header st)"

lemma on_stats_keeps:
  "mp_input_side (snd (on_stats f st)) = mp_input_side st"
  "mp_source_bridge (snd (on_stats f st)) = mp_source_bridge st"
  "mp_last_dts_ms (snd (on_stats f st)) = mp_last_dts_ms st"
  "mp_stream_started (snd (on_stats f st)) = mp_stream_started st"
  "mp_hot_start (snd (on_stats f st)) = mp_hot_start st"
  by (simp_all add: on_stats_def mp_input_side_def split: sum.splits)

lemma and_then_keeps:
  assumes "g (snd p) = a" "\<And>s. g s = a \<Longrightarrow> g (snd (k s)) = a"
  shows "g (snd (and_then p k)) = a"
  using assms by (cases p; cases "fst p") (auto simp: and_then_def)

lemma processParameterSets_keeps:
  "mp_input_side (snd (processParameterSets f st)) = mp_input_side st"
  "mp_source_bridge (snd (processParameterSets f st)) = mp_source_bridge st"
  "mp_last_dts_ms (snd (processParameterSets f st)) = mp_last_dts_ms st"
  "mp_stream_started (snd (processParameterSets f st)) = mp_stream_started st"
  "mp_hot_start (snd (processParameterSets f st)) = mp_hot_start st"
  by (simp_all add: processParameterSets_def mp_input_side_def split: sum.splits)

lemma start_stream_keeps:
  "mp_input_side (snd (snd (start_stream now f st))) = mp_input_side st"
  "mp_source_bridge (snd (snd (start_stream now f st))) = mp_source_bridge st"
  "mp_last_dts_ms (snd (snd (start_stream now f st))) = mp_last_dts_ms st"
  by (auto simp: start_stream_def intro!: and_then_keeps [where g = mp_input_side]
      and_then_keeps [where g = mp_source_bridge] and_then_keeps [where g = mp_last_dts_ms] simp: on_stats_keeps)
    (auto simp: mp_input_side_def)

lemma push_to_source_keeps:
  "mp_input_side (push_to_source on f st) = mp_input_side st"
  "mp_last_dts_ms (push_to_source on f st) = mp_last_dts_ms st"
  by (simp_all add: push_to_source_def mp_input_side_def)

lemma resend_keeps:
  "mp_input_side (resend_parameter_sets on f st) = mp_input_side st"
  "mp_last_dts_ms (resend_parameter_sets on f st) = mp_last_dts_ms st"
proof -
  have "mp_input_side (fold (\<lambda>p. push_to_source on (g p)) ps s) = mp_input_side s \<and>
      mp_last_dts_ms (fold (\<lambda>p. push_to_source on (g p)) ps s) = mp_last_dts_ms s"
    for g and ps :: "ParameterSetInfo list" and s
    by (induction ps arbitrary: s) (simp_all add: push_to_source_keeps)
  then show "mp_input_side (resend_parameter_sets on f st) = mp_input_side st"
    "mp_last_dts_ms (resend_parameter_sets on f st) = mp_last_dts_ms st"
    by (simp_all add: resend_parameter_sets_def)
qed

lemma emit_frame_keeps: "mp_input_side (snd (emit_frame on now b f st)) = mp_input_side st"
  by (simp add: emit_frame_def Let_def on_stats_keeps push_to_source_keeps resend_keeps)
    (simp add: mp_input_side_def push_to_source_def resend_keeps(1) [unfolded mp_input_side_def, simplified])

lemma finish_frame_keeps: "mp_input_side (snd (finish_frame on us ns b f st)) = mp_input_side st"
  unfolding finish_frame_def Let_def case_prod_beta
  by (rule and_then_keeps) (simp_all add: start_stream_keeps emit_frame_keeps)

lemma createStdFrame_keeps: "mp_input_side (snd (createStdFrame on us ns st)) = mp_input_side st"
proof -
  have tail: "mp_input_side (snd (and_then (on_stats g s) (\<lambda>st4.
      and_then (processParameterSets fr st4) (finish_frame on us ns b fr)))) = mp_input_side s" for g s b fr
    by (intro and_then_keeps [where g = mp_input_side])
      (simp_all add: on_stats_keeps processParameterSets_keeps finish_frame_keeps)
  have stamp: "mp_input_side (snd (stamp_frame st)) = mp_input_side st"
    by (simp add: stamp_frame_def Let_def mp_input_side_def)
  show ?thesis
  proof (cases "fst (stamp_frame st)")
    case None
    then show ?thesis using stamp by (cases "stamp_frame st") (simp add: createStdFrame_def)
  next
    case (Some fb)
    then obtain f b s where e: "stamp_frame st = (Some (f, b), s)" by (cases "stamp_frame st"; cases fb) simp
    then have "mp_input_side s = mp_input_side st" using stamp by simp
    then show ?thesis
      by (cases "fill_frame f s") (simp only: createStdFrame_def e prod.case option.case Let_def tail,
          simp add: mp_input_side_def)
  qed
qed

section \<open>The loop\<close>

lemma mp_loop_None_left: "\<not> left (mp_buffer st) > 0 \<Longrightarrow> mp_loop on us ns st = Some (srs_success, st)"
  by (simp add: mp_loop.simps)

lemma mp_loop_next:
  assumes "left (mp_buffer st) > 0" "mp_step on us ns st = (Inr u, st')"
  shows "mp_loop on us ns st = mp_loop on us ns st'"
  using assms by (simp add: mp_loop.simps [of on us ns st])

lemma mp_loop_error:
  assumes "left (mp_buffer st) > 0" "mp_step on us ns st = (Inl e, st')"
  shows "mp_loop on us ns st = Some (Inl e, st')"
  using assms by (simp add: mp_loop.simps [of on us ns st])

text \<open>A step that leaves the state as it is repeats for ever.\<close>

lemma mp_loop_stuck:
  assumes "left (mp_buffer st) > 0" "mp_step on us ns st = (Inr u, st)"
  shows "mp_loop on us ns st = None"
proof (rule ccontr)
  assume "mp_loop on us ns st \<noteq> None"
  then obtain y where "mp_loop on us ns st = Some y" by auto
  then have "\<not> (left (mp_buffer st) > 0 \<and> mp_step on us ns st = (Inr u, st))"
    by (rule mp_loop.raw_induct [rotated]) (fastforce simp: Let_def split: if_splits)
  with assms show False by simp
qed

text \<open>Induction over the turns of a loop that returns.\<close>

lemma mp_loop_induct:
  assumes "mp_loop on us ns st = Some (r, st')" "P st"
    and "\<And>s. P s \<Longrightarrow> P (snd (mp_step on us ns s))"
  shows "P st'"
proof -
  have "P st \<longrightarrow> P (snd (r, st'))"
  proof (rule mp_loop.raw_induct [OF _ assms(1), of "\<lambda>on' us' ns' s y.
        on' = on \<longrightarrow> us' = us \<longrightarrow> ns' = ns \<longrightarrow> P s \<longrightarrow> P (snd y)", THEN mp, THEN mp, THEN mp, OF _ refl refl refl])
    fix f on' us' ns' s y
    assume ih: "\<And>on' us' ns' s y. f on' us' ns' s = Some y \<Longrightarrow>
        on' = on \<longrightarrow> us' = us \<longrightarrow> ns' = ns \<longrightarrow> P s \<longrightarrow> P (snd y)"
      and eq: "(if left (mp_buffer s) > 0
        then (let p = mp_step on' us' ns' s in if isl (fst p) then Some p else f on' us' ns' (snd p))
        else Some (srs_success, s)) = Some y"
    show "on' = on \<longrightarrow> us' = us \<longrightarrow> ns' = ns \<longrightarrow> P s \<longrightarrow> P (snd y)"
      using ih eq assms(3) by (auto simp: Let_def split: if_splits)
  qed
  then show ?thesis using assms(2) by simp
qed

section \<open>Frames on the wire\<close>

text \<open>A frame the parser accepts.\<close>

definition good_frame :: "MyProtoFrame \<Rightarrow> u8 list \<Rightarrow> bool" where
  "good_frame h pl \<longleftrightarrow> mf_magic h = 0x12345678 \<and> mf_length h \<le> 1024 * 1024 \<and>
     unat (mf_length h) = length pl \<and> 13 \<le> length pl"

lemma parseHeader_ok:
  assumes "buf_inv (mp_buffer st)" "remaining (mp_buffer st) = header_bytes h @ pl @ rest" "good_frame h pl"
  obtains b where "parseHeader st = (srs_success, st\<lparr>mp_frame_header := h, mp_buffer := b,
      mp_payload_buffer := [], mp_state := STATE_PAYLOAD\<rparr>)"
    "buf_inv b" "remaining b = pl @ rest" "buf_bytes b = buf_bytes (mp_buffer st)"
proof -
  obtain b where b: "read_header (mp_buffer st) = Inr (h, b)" "buf_inv b" "remaining b = pl @ rest"
      "buf_bytes b = buf_bytes (mp_buffer st)"
    by (rule read_header_ok [OF assms(1), of h "pl @ rest"]) (use assms(2) in simp_all)
  have "\<not> left (mp_buffer st) < 48"
    using left_remaining [OF assms(1)] assms(2,3) by (simp add: good_frame_def)
  then show thesis using that [of b] b assms(3) by (simp add: parseHeader_def good_frame_def not_less Let_def)
qed

lemma parsePayload_ok:
  assumes "buf_inv (mp_buffer st)" "remaining (mp_buffer st) = pl @ rest"
    and "mp_payload_buffer st = []" "unat (mf_length (mp_frame_header st)) = length pl" "pl \<noteq> []"
    and "length (pl @ rest) < 2 ^ 63"
  obtains b where "parsePayload st = (srs_success, st\<lparr>mp_payload_buffer := pl, mp_buffer := b, mp_state := STATE_COMPLETE\<rparr>)"
    "buf_inv b" "remaining b = rest" "buf_bytes b = buf_bytes (mp_buffer st)"
proof -
  let ?b = "(mp_buffer st)\<lparr>buf_p := buf_p (mp_buffer st) + int (length pl)\<rparr>"
  have nb: "next_bytes (length pl) (mp_buffer st) = Inr (pl, ?b)" "buf_inv ?b" "remaining ?b = rest"
    using next_bytes_ok [OF assms(1), of "length pl"] assms(2) by simp_all
  have m: "int n mod 2 ^ 64 = int n" if "n < 2 ^ 63" for n using that by simp
  have "nat (left (mp_buffer st) mod 2 ^ 64) = length (pl @ rest)" "nat (int (length pl) mod 2 ^ 64) = length pl"
    using left_remaining [OF assms(1)] assms(2,6) m [of "length (pl @ rest)"] m [of "length pl"] by simp_all
  then have "parsePayload st = (srs_success, st\<lparr>mp_payload_buffer := pl, mp_buffer := ?b, mp_state := STATE_COMPLETE\<rparr>)"
    using nb(1) assms(3,4,5) by (simp add: parsePayload_def Let_def min_def)
  then show thesis using that nb(2,3) by simp
qed

text \<open>From the header state the loop consumes one whole frame and ends with the frame complete.\<close>

lemma mp_loop_one_frame:
  assumes "mp_state st = STATE_HEADER" "buf_inv (mp_buffer st)"
    and "remaining (mp_buffer st) = header_bytes h @ pl" "good_frame h pl"
  obtains b where "mp_loop on us ns st = Some (srs_success, st\<lparr>mp_frame_header := h, mp_buffer := b,
      mp_payload_buffer := pl, mp_state := STATE_COMPLETE\<rparr>)"
    "pos b = int (length (buf_bytes (mp_buffer st)))"
proof -
  have len: "length pl \<le> 1048576" "pl \<noteq> []" "unat (mf_length h) = length pl"
    using assms(4) by (auto simp: good_frame_def word_le_nat_alt)
  obtain b1 where 1: "parseHeader st = (srs_success, st\<lparr>mp_frame_header := h, mp_buffer := b1,
      mp_payload_buffer := [], mp_state := STATE_PAYLOAD\<rparr>)" "buf_inv b1" "remaining b1 = pl"
      "buf_bytes b1 = buf_bytes (mp_buffer st)"
    by (rule parseHeader_ok [OF assms(2), of h pl "[]"]) (use assms(3,4) in simp_all)
  let ?s1 = "st\<lparr>mp_frame_header := h, mp_buffer := b1, mp_payload_buffer := [], mp_state := STATE_PAYLOAD\<rparr>"
  obtain b2 where 2: "parsePayload ?s1 = (srs_success, ?s1\<lparr>mp_payload_buffer := pl, mp_buffer := b2,
      mp_state := STATE_COMPLETE\<rparr>)" "buf_inv b2" "remaining b2 = []" "buf_bytes b2 = buf_bytes b1"
    by (rule parsePayload_ok [of ?s1 pl "[]"]) (use 1 len in simp_all)
  let ?s2 = "st\<lparr>mp_frame_header := h, mp_buffer := b2, mp_payload_buffer := pl, mp_state := STATE_COMPLETE\<rparr>"
  have "left (mp_buffer st) > 0" "left b1 > 0" "left b2 = 0"
    using left_remaining [OF assms(2)] left_remaining [OF 1(2)] left_remaining [OF 2(2)] assms(3) 1(3) 2(3) len by simp_all
  then have "mp_loop on us ns st = mp_loop on us ns ?s1" "mp_loop on us ns ?s1 = mp_loop on us ns ?s2"
      "mp_loop on us ns ?s2 = Some (srs_success, ?s2)"
    using 1(1) 2(1) assms(1) by (simp_all add: mp_loop_next mp_loop_None_left mp_step_def)
  moreover have "pos b2 = int (length (buf_bytes (mp_buffer st)))"
    using 2(2,3,4) 1(4) by (auto simp: buf_inv_def remaining_def pos_def)
  ultimately show thesis using that by simp
qed

section \<open>Calls of feed\<close>

definition feed_entry :: "int \<Rightarrow> u8 list \<Rightarrow> MyProtoAdapter \<Rightarrow> MyProtoAdapter" where
  "feed_entry now_us data st =
     (let s = heartbeat (now_us sdiv 1000) st; i = mp_input_buffer s @ data
      in s\<lparr>mp_input_buffer := i, mp_buffer := SrsBuffer_new i\<rparr>)"

lemma buf_bytes_new [simp]: "buf_bytes (SrsBuffer_new b) = b"
  by (simp add: SrsBuffer_new_def)

lemma heartbeat_keeps:
  "mp_input_side (heartbeat t st) = mp_input_side st"
  "mp_payload_buffer (heartbeat t st) = mp_payload_buffer st"
  "mp_source_bridge (heartbeat t st) = mp_source_bridge st"
  "mp_last_dts_ms (heartbeat t st) = mp_last_dts_ms st"
  by (simp_all add: heartbeat_def mp_input_side_def)

lemma feed_entry_simps [simp]:
  "mp_input_buffer (feed_entry us data st) = mp_input_buffer st @ data"
  "mp_buffer (feed_entry us data st) = SrsBuffer_new (mp_input_buffer st @ data)"
  "mp_state (feed_entry us data st) = mp_state st"
  "mp_frame_header (feed_entry us data st) = mp_frame_header st"
  "mp_payload_buffer (feed_entry us data st) = mp_payload_buffer st"
  "mp_source_bridge (feed_entry us data st) = mp_source_bridge st"
  "mp_last_dts_ms (feed_entry us data st) = mp_last_dts_ms st"
  using heartbeat_keeps [of "us sdiv 1000" st]
  by (simp_all add: feed_entry_def mp_input_side_def Let_def)

lemma mp_feed_eq:
  assumes "mp_input_buffer st @ data \<noteq> []"
  shows "mp_feed on us ns data st =
    (case mp_loop on us ns (feed_entry us data st) of
       None \<Rightarrow> None
     | Some (Inl e, s) \<Rightarrow> Some (Inl e, s)
     | Some (Inr _, s) \<Rightarrow> Some (srs_success, if pos (mp_buffer s) > 0
         then s\<lparr>mp_input_buffer := drop (nat (pos (mp_buffer s))) (mp_input_buffer s)\<rparr> else s))"
proof -
  have "mp_input_buffer (heartbeat (us sdiv 1000) st) = mp_input_buffer st"
    using heartbeat_keeps(1) [of "us sdiv 1000" st] by (simp add: mp_input_side_def)
  then show ?thesis using assms unfolding mp_feed_def feed_entry_def Let_def by auto
qed

lemma feed_first_frame:
  assumes "mp_state st = STATE_HEADER" "mp_input_buffer st = []" "good_frame h pl"
  obtains st' where "mp_feed on us ns (header_bytes h @ pl) st = Some (srs_success, st')"
    "mp_source_bridge st' = mp_source_bridge st" "mp_state st' = STATE_COMPLETE"
    "mp_frame_header st' = h" "mp_payload_buffer st' = pl" "mp_input_buffer st' = []"
proof -
  let ?data = "header_bytes h @ pl"
  let ?s = "feed_entry us ?data st"
  obtain b where l: "mp_loop on us ns ?s = Some (srs_success, ?s\<lparr>mp_frame_header := h, mp_buffer := b,
      mp_payload_buffer := pl, mp_state := STATE_COMPLETE\<rparr>)" "pos b = int (length ?data)"
    by (rule mp_loop_one_frame [of ?s h pl on us ns]) (use assms in simp_all)
  have "?data \<noteq> []" by (simp add: header_bytes_def)
  then show thesis
    using that l assms(2) mp_feed_eq [of st ?data on us ns] by simp
qed

lemma feed_next_frame:
  assumes "mp_state st = STATE_COMPLETE" "mp_input_buffer st = []" "good_frame h pl"
    and "createStdFrame on us ns (feed_entry us (header_bytes h @ pl) st) = (Inr u, s1)"
  obtains st' where "mp_feed on us ns (header_bytes h @ pl) st = Some (srs_success, st')"
    "mp_source_bridge st' = mp_source_bridge s1" "mp_state st' = STATE_COMPLETE"
    "mp_frame_header st' = h" "mp_payload_buffer st' = pl" "mp_input_buffer st' = []"
proof -
  let ?data = "header_bytes h @ pl"
  let ?s = "feed_entry us ?data st" and ?s2 = "s1\<lparr>mp_state := STATE_HEADER\<rparr>"
  have keep: "mp_buffer s1 = SrsBuffer_new ?data" "mp_input_buffer s1 = ?data"
    using createStdFrame_keeps [of on us ns ?s] assms(2,4) by (simp_all add: mp_input_side_def)
  have "left (mp_buffer ?s) > 0" using assms(2) by (simp add: left_def SrsBuffer_new_def)
  then have "mp_loop on us ns ?s = mp_loop on us ns ?s2"
    using assms(1,4) by (intro mp_loop_next) (simp_all add: mp_step_def)
  moreover obtain b where "mp_loop on us ns ?s2 = Some (srs_success, ?s2\<lparr>mp_frame_header := h, mp_buffer := b,
      mp_payload_buffer := pl, mp_state := STATE_COMPLETE\<rparr>)" "pos b = int (length ?data)"
    by (rule mp_loop_one_frame [of ?s2 h pl on us ns]) (use assms(3) keep in simp_all)
  moreover have "?data \<noteq> []" by (simp add: header_bytes_def)
  ultimately show thesis
    using that keep assms(2) mp_feed_eq [of st ?data on us ns] by simp
qed

text \<open>
  Frames are processed one call late: fed with one whole frame per call, an idle adapter takes the
  first frame in without creating anything, and each further call creates and pushes the frame of the
  call before and keeps its own frame waiting. The last frame of a stream is therefore never pushed.
\<close>

theorem myproto_frame_waits_for_next_feed:
  assumes "good_frame h pl" "mp_input_buffer st = []"
  shows "(mp_state st = STATE_HEADER \<longrightarrow>
      (\<exists>st'. mp_feed on_frame us ns (header_bytes h @ pl) st = Some (srs_success, st') \<and>
         mp_source_bridge st' = mp_source_bridge st \<and> mp_state st' = STATE_COMPLETE \<and>
         mp_frame_header st' = h \<and> mp_payload_buffer st' = pl \<and> mp_input_buffer st' = [])) \<and>
    (\<forall>s1. mp_state st = STATE_COMPLETE \<longrightarrow>
       createStdFrame on_frame us ns (feed_entry us (header_bytes h @ pl) st) = (srs_success, s1) \<longrightarrow>
      (\<exists>st'. mp_feed on_frame us ns (header_bytes h @ pl) st = Some (srs_success, st') \<and>
         mp_source_bridge st' = mp_source_bridge s1 \<and> mp_state st' = STATE_COMPLETE \<and>
         mp_frame_header st' = h \<and> mp_payload_buffer st' = pl \<and> mp_input_buffer st' = []))"
  using feed_first_frame [OF _ assms(2,1), of on_frame us ns] feed_next_frame [OF _ assms(2,1), of on_frame us ns]
  by metis

definition mp_demo_header :: MyProtoFrame where
  "mp_demo_header = MyProtoFrame_zero\<lparr>mf_magic := 0x12345678, mf_length := 13, mf_flags := 1\<rparr>"

theorem myproto_frame_waits_for_next_feed_witness:
  "\<exists>st'. mp_feed (\<lambda>sent p. srs_success) 0 0 (header_bytes mp_demo_header @ replicate 13 9)
       (MyProtoAdapter_new ''c'' (AdapterStatsManager_new 0)) = Some (srs_success, st') \<and>
     mp_state st' = STATE_COMPLETE \<and> mp_source_bridge st' = FrameToSourceBridge_new"
  using myproto_frame_waits_for_next_feed [of mp_demo_header "replicate 13 9"
      "MyProtoAdapter_new ''c'' (AdapterStatsManager_new 0)" "\<lambda>sent p. srs_success" 0 0]
  by (auto simp: good_frame_def mp_demo_header_def MyProtoAdapter_new_def)

text \<open>
  C30. A short read hangs the server: when the adapter waits for a header and between 1 and 47 bytes are
  available, \<open>feed\<close> does not return. The parser reports success without consuming anything, and the loop
  runs while bytes are left. Since the header takes 35 bytes on the wire, a whole frame with less than
  13 bytes of payload is enough.
\<close>

theorem myproto_short_input_diverges:
  assumes "mp_state st = STATE_HEADER" "mp_input_buffer st @ data \<noteq> []" "length (mp_input_buffer st @ data) < 48"
  shows "mp_feed on_frame us ns data st = None"
proof -
  let ?s = "feed_entry us data st"
  have "left (mp_buffer ?s) = int (length (mp_input_buffer st @ data))" by (simp add: left_def SrsBuffer_new_def)
  moreover have "0 < length (mp_input_buffer st @ data)" using assms(2) by (rule iffD2 [OF length_greater_0_conv])
  ultimately have "left (mp_buffer ?s) > 0" "mp_step on_frame us ns ?s = (srs_success, ?s)"
    using assms(1,3) by (simp_all only: mp_step_def parseHeader_def feed_entry_simps) simp_all
  then have "mp_loop on_frame us ns ?s = None" by (rule mp_loop_stuck)
  then show ?thesis using assms(2) by (simp add: mp_feed_eq)
qed

theorem myproto_short_input_diverges_witness:
  "mp_feed (\<lambda>sent p. srs_success) 0 0 (header_bytes mp_demo_header @ replicate 12 9)
     (MyProtoAdapter_new ''c'' (AdapterStatsManager_new 0)) = None"
  by (rule myproto_short_input_diverges) (simp_all add: MyProtoAdapter_new_def header_bytes_def)

definition mp_poisoned :: "MyProtoAdapter \<Rightarrow> bool" where
  "mp_poisoned st \<longleftrightarrow> mp_state st = STATE_HEADER \<and>
     (\<exists>h rest. mp_input_buffer st = header_bytes h @ rest \<and> 13 \<le> length rest \<and> mf_magic h \<noteq> 0x12345678)"

text \<open>
  A bad header poisons the connection: when the input starts with a complete header whose magic
  number is wrong, \<open>feed\<close> returns an error and keeps all the input, so the adapter is again in such a
  state. Every later call fails in the same way, pushes nothing, and lets the input grow.
\<close>

theorem myproto_bad_header_poisons:
  assumes "mp_poisoned st"
  shows "\<exists>st'. mp_feed on_frame us ns data st = Some (Inl ERROR_RTMP_MESSAGE_DECODE, st') \<and>
    mp_poisoned st' \<and> mp_input_buffer st' = mp_input_buffer st @ data \<and>
    mp_source_bridge st' = mp_source_bridge st"
proof -
  obtain h rest where p: "mp_state st = STATE_HEADER" "mp_input_buffer st = header_bytes h @ rest"
      "13 \<le> length rest" "mf_magic h \<noteq> 0x12345678"
    using assms by (auto simp: mp_poisoned_def)
  let ?s = "feed_entry us data st"
  obtain b where b: "read_header (mp_buffer ?s) = Inr (h, b)"
    by (rule read_header_ok [of "mp_buffer ?s" h "rest @ data"]) (use p(2) in simp_all)
  have left: "left (mp_buffer ?s) = int (length (header_bytes h @ rest @ data))"
    using p(2) by (simp add: left_def SrsBuffer_new_def)
  then have "mp_step on_frame us ns ?s = (Inl ERROR_RTMP_MESSAGE_DECODE, ?s\<lparr>mp_frame_header := h, mp_buffer := b\<rparr>)"
    using b p by (simp add: mp_step_def parseHeader_def Let_def)
  moreover have "left (mp_buffer ?s) > 0" using left by simp
  ultimately have l: "mp_loop on_frame us ns ?s = Some (Inl ERROR_RTMP_MESSAGE_DECODE, ?s\<lparr>mp_frame_header := h, mp_buffer := b\<rparr>)"
    by (rule mp_loop_error [rotated])
  have "mp_input_buffer st @ data \<noteq> []" using p(2) by (auto simp: header_bytes_def)
  then have "mp_feed on_frame us ns data st = Some (Inl ERROR_RTMP_MESSAGE_DECODE, ?s\<lparr>mp_frame_header := h, mp_buffer := b\<rparr>)"
    using l by (simp add: mp_feed_eq)
  moreover have "mp_poisoned (?s\<lparr>mp_frame_header := h, mp_buffer := b\<rparr>)"
    using p by (auto simp: mp_poisoned_def)
  ultimately show ?thesis by simp
qed

theorem myproto_bad_header_poisons_witness:
  "\<exists>st'. mp_feed (\<lambda>sent p. srs_success) 0 0 [1, 2, 3]
       ((MyProtoAdapter_new ''c'' (AdapterStatsManager_new 0))\<lparr>mp_input_buffer := header_bytes MyProtoFrame_zero @ replicate 13 0\<rparr>) =
     Some (Inl ERROR_RTMP_MESSAGE_DECODE, st') \<and> mp_source_bridge st' = FrameToSourceBridge_new"
proof -
  let ?st = "(MyProtoAdapter_new ''c'' (AdapterStatsManager_new 0))\<lparr>mp_input_buffer := header_bytes MyProtoFrame_zero @ replicate 13 0\<rparr>"
  have "mp_poisoned ?st"
    unfolding mp_poisoned_def
    by (intro conjI exI [of _ MyProtoFrame_zero] exI [of _ "replicate 13 0"])
      (simp_all add: MyProtoAdapter_new_def MyProtoFrame_zero_def)
  from myproto_bad_header_poisons [OF this, of "\<lambda>sent p. srs_success" 0 0 "[1, 2, 3]"]
  show ?thesis by (auto simp: MyProtoAdapter_new_def)
qed

section \<open>Order of the packets\<close>

text \<open>The packets handed to the source, newest first, have non-increasing timestamps down to \<open>0\<close>, and
  none lies after the last accepted DTS.\<close>

fun sent_ok :: "int \<Rightarrow> SrsMediaPacket list option \<Rightarrow> bool" where
  "sent_ok d None \<longleftrightarrow> 0 \<le> d"
| "sent_ok d (Some sent) \<longleftrightarrow> 0 \<le> d \<and> sorted_wrt (\<ge>) (map pkt_timestamp sent) \<and>
     (\<forall>p \<in> set sent. 0 \<le> pkt_timestamp p \<and> pkt_timestamp p \<le> d)"

definition mp_ordered :: "MyProtoAdapter \<Rightarrow> bool" where
  "mp_ordered st \<longleftrightarrow> sent_ok (mp_last_dts_ms st) (br_source (mp_source_bridge st))"

lemma sent_ok_later: "sent_ok d s \<Longrightarrow> d \<le> d' \<Longrightarrow> sent_ok d' s"
  by (cases s) force+

lemma sent_ok_nonneg: "sent_ok d s \<Longrightarrow> 0 \<le> d"
  by (cases s) simp_all

lemma sent_ok_push:
  "sent_ok d (br_source br) \<Longrightarrow> dts_ms f = d \<Longrightarrow> sent_ok d (br_source (snd (push_frame on f br)))"
  by (auto simp: push_frame_def Let_def convert_frame_to_media_packet_def split: option.splits)

lemma mp_ordered_cong:
  "mp_source_bridge st' = mp_source_bridge st \<Longrightarrow> mp_last_dts_ms st' = mp_last_dts_ms st \<Longrightarrow>
     mp_ordered st' = mp_ordered st"
  by (simp add: mp_ordered_def)

lemma push_sent_ok:
  "sent_ok d (br_source (mp_source_bridge st)) \<Longrightarrow> dts_ms f = d \<Longrightarrow>
     sent_ok d (br_source (mp_source_bridge (push_to_source on f st)))"
  by (simp add: push_to_source_def sent_ok_push)

lemma resend_sent_ok:
  assumes "sent_ok d (br_source (mp_source_bridge st))" "dts_ms f = d"
  shows "sent_ok d (br_source (mp_source_bridge (resend_parameter_sets on f st)))"
proof -
  have "sent_ok d (br_source (mp_source_bridge
      (fold (\<lambda>p. push_to_source on (f\<lparr>keyframe := True, payload := psi_data p\<rparr>)) ps s)))"
    if "sent_ok d (br_source (mp_source_bridge s))" for ps :: "ParameterSetInfo list" and s
    using that by (induction ps arbitrary: s) (simp_all add: push_sent_ok assms(2))
  then show ?thesis using assms(1) by (simp add: resend_parameter_sets_def)
qed

lemma emit_ordered:
  assumes "mp_ordered st" "mp_last_dts_ms st \<le> dts_ms f"
  shows "mp_ordered (snd (emit_frame on us b f st))"
proof -
  let ?st = "if mp_hot_start st \<and> mp_stream_started st \<and> keyframe f then resend_parameter_sets on f st else st"
  let ?f = "if b then processBFrameTiming f ?st else f"
  have f: "dts_ms ?f = dts_ms f" "keyframe ?f = keyframe f" by (simp_all add: processBFrameTiming_def)
  have "sent_ok (dts_ms f) (br_source (mp_source_bridge st))"
    using assms sent_ok_later by (simp add: mp_ordered_def)
  then have "sent_ok (dts_ms f) (br_source (mp_source_bridge ?st))" by (simp add: resend_sent_ok)
  then have push: "sent_ok (dts_ms f) (br_source (snd (push_frame on ?f (mp_source_bridge ?st))))"
    using f(1) by (rule sent_ok_push)
  show ?thesis
  proof (cases "mp_drop_b_in_low_latency ?st \<and> b \<and> \<not> keyframe ?f")
    case True
    then have "\<not> keyframe f" using f(2) by blast
    with True assms(1) show ?thesis
      by (simp add: emit_frame_def Let_def mp_ordered_cong [OF on_stats_keeps(2,3)] processBFrameTiming_def)
  next
    case False
    then show ?thesis
      using push unfolding emit_frame_def Let_def
      by (simp only: if_False mp_ordered_cong [OF on_stats_keeps(2,3)])
        (simp add: mp_ordered_def push_to_source_def)
  qed
qed

lemma finish_ordered:
  assumes "mp_ordered st" "mp_last_dts_ms st \<le> dts_ms f"
  shows "mp_ordered (snd (finish_frame on us ns b f st))"
proof -
  let ?r = "snd (start_stream ns f st)"
  have r: "mp_ordered (snd ?r)" "mp_last_dts_ms (snd ?r) \<le> dts_ms f"
    using assms mp_ordered_cong [OF start_stream_keeps(2,3)] start_stream_keeps(3) [of ns f st] by simp_all
  show ?thesis
    unfolding finish_frame_def Let_def case_prod_beta
    by (rule and_then_prop) (use r emit_ordered [OF r] in simp_all)
qed

lemma createStdFrame_ordered:
  assumes "mp_ordered st"
  shows "mp_ordered (snd (createStdFrame on us ns st))"
proof -
  have tail: "mp_ordered (snd (and_then (on_stats g s) (\<lambda>st4.
      and_then (processParameterSets f st4) (finish_frame on us ns b f))))"
    if "mp_ordered s" "mp_last_dts_ms s \<le> dts_ms f" for g s b f
  proof -
    let ?s4 = "snd (on_stats g s)" and ?s5 = "snd (processParameterSets f (snd (on_stats g s)))"
    have 4: "mp_ordered ?s4" "mp_ordered ?s5" "mp_last_dts_ms ?s5 \<le> dts_ms f"
      using that by (simp_all add: mp_ordered_cong [OF on_stats_keeps(2,3)] on_stats_keeps
          mp_ordered_cong [OF processParameterSets_keeps(2,3)] processParameterSets_keeps)
    show ?thesis
      by (intro and_then_prop [where P = mp_ordered]) (use 4 finish_ordered [OF 4(2,3)] in simp_all)
  qed
  have stamp: "mp_source_bridge (snd (stamp_frame st)) = mp_source_bridge st"
      "mp_last_dts_ms (snd (stamp_frame st)) = mp_last_dts_ms st"
    by (simp_all add: stamp_frame_def Let_def)
  have dts: "mp_last_dts_ms st \<le> dts_ms f" if "fst (stamp_frame st) = Some (f, b)" for f b
    using that sent_ok_nonneg assms
    by (auto simp: stamp_frame_def Let_def validateTimestamp_def set_stream_id_def mp_ordered_def split: if_splits)
  have fill: "dts_ms (fst (fill_frame f s)) = dts_ms f" for f s
    by (simp add: fill_frame_def Let_def set_video_params_def set_audio_params_def)
  show ?thesis
  proof (cases "fst (stamp_frame st)")
    case None
    then show ?thesis
      using assms mp_ordered_cong [OF stamp] by (cases "stamp_frame st") (simp add: createStdFrame_def)
  next
    case (Some fb)
    then obtain f b s where e: "stamp_frame st = (Some (f, b), s)" by (cases "stamp_frame st"; cases fb) simp
    then have "mp_last_dts_ms s \<le> dts_ms f" "mp_ordered s"
      using stamp dts [of f b] assms mp_ordered_cong [OF stamp] by simp_all
    then show ?thesis
      using fill [of f s]
      by (cases "fill_frame f s") (simp only: createStdFrame_def e prod.case option.case Let_def,
          intro tail, simp_all add: mp_ordered_def set_payload_def)
  qed
qed

lemma mp_step_ordered: "mp_ordered st \<Longrightarrow> mp_ordered (snd (mp_step on us ns st))"
proof (cases "mp_state st")
  case STATE_HEADER
  assume "mp_ordered st"
  then show ?thesis
    using STATE_HEADER by (simp add: mp_step_def parseHeader_def mp_ordered_def Let_def split: sum.splits prod.splits)
next
  case STATE_PAYLOAD
  assume "mp_ordered st"
  then show ?thesis
    using STATE_PAYLOAD by (simp add: mp_step_def parsePayload_def mp_ordered_def Let_def split: sum.splits prod.splits)
next
  case STATE_COMPLETE
  assume "mp_ordered st"
  then have "mp_ordered (snd (createStdFrame on us ns st))" by (rule createStdFrame_ordered)
  then show ?thesis
    by (cases "createStdFrame on us ns st"; cases "fst (createStdFrame on us ns st)")
      (simp_all add: mp_step_def STATE_COMPLETE mp_ordered_def)
qed

lemma mp_feed_ordered:
  assumes "mp_feed on us ns data st = Some (r, st')" "mp_ordered st"
  shows "mp_ordered st'"
proof (cases "mp_input_buffer st @ data = []")
  case True
  then show ?thesis
    using assms heartbeat_keeps [of "us sdiv 1000" st]
    by (auto simp: mp_feed_def Let_def mp_ordered_def mp_input_side_def)
next
  case False
  have entry: "mp_ordered (feed_entry us data st)" using assms(2) by (simp add: mp_ordered_def)
  obtain r1 s where l: "mp_loop on us ns (feed_entry us data st) = Some (r1, s)"
    using assms(1) False by (auto simp: mp_feed_eq split: option.splits)
  have s: "mp_ordered s" by (rule mp_loop_induct [OF l entry mp_step_ordered])
  have "mp_source_bridge st' = mp_source_bridge s \<and> mp_last_dts_ms st' = mp_last_dts_ms s"
    using assms(1) unfolding mp_feed_eq [OF False] l by (cases r1) (auto split: if_splits)
  then show ?thesis using s mp_ordered_cong by blast
qed

text \<open>The calls made on a started adapter.\<close>

inductive mp_call :: "MyProtoAdapter \<Rightarrow> MyProtoAdapter \<Rightarrow> bool" where
  call_feed: "mp_feed on us ns data st = Some (r, st') \<Longrightarrow> mp_call st st'"
| call_flush: "mp_call st (snd (mp_flush st))"
| call_close: "mp_call st (snd (mp_close st))"

lemma mp_call_ordered: "mp_call st st' \<Longrightarrow> mp_ordered st \<Longrightarrow> mp_ordered st'"
proof (induction rule: mp_call.induct)
  case (call_close st)
  then show ?case
    using sent_ok_nonneg [of "mp_last_dts_ms st"] on_stats_keeps
    by (simp add: mp_close_def Let_def mp_ordered_def on_stats_keeps br_close_def)
next
  case (call_feed on us ns data st r st')
  then show ?case by (rule mp_feed_ordered)
next
  case (call_flush st)
  then show ?case by (simp add: mp_flush_def mp_ordered_def)
qed


definition mp_demo_started :: MyProtoAdapter where
  "mp_demo_started = snd (mp_start (Some (\<lambda>_ _ _. srs_success)) 0 (AdapterInit_new ''v'' ''a'' ''s'')
     (MyProtoAdapter_new ''c'' (AdapterStatsManager_new 0)))"

lemma mp_demo_started_ok:
  "mp_start (Some (\<lambda>_ _ _. srs_success)) 0 (AdapterInit_new ''v'' ''a'' ''s'')
     (MyProtoAdapter_new ''c'' (AdapterStatsManager_new 0)) = (srs_success, mp_demo_started)"
  "br_source (mp_source_bridge mp_demo_started) = Some []"
  by (simp_all add: mp_demo_started_def mp_start_def Let_def on_stats_def br_initialize_def create_source_def
      MyProtoAdapter_new_def add_connection_def asm_lock_def AdapterStatsManager_new_def)


section \<open>The parameter set scan\<close>

lemma start_code_in_bounds: "i + 3 < length d \<Longrightarrow> \<exists>m. start_code_at d i = Inr m"
  by (auto simp: start_code_at_def byte_at_def)

lemma scan_sets_in_bounds:
  assumes "limit + 4 \<le> length d"
  shows "\<exists>s'. scan_sets d limit i s = Inr s'"
  using assms
proof (induction d limit i s rule: scan_sets.induct)
  case (1 d limit i s)
  show ?case
  proof (cases "i < limit")
    case True
    then obtain m where m: "start_code_at d i = Inr m" using start_code_in_bounds [of i d] 1(3) by auto
    have b: "byte_at d (i + 4) = Inr (d ! (i + 4))" using True 1(3) by (simp add: byte_at_def)
    show ?thesis
      using 1(1) [OF True m _ b refl] 1(2) [OF True m] 1(3) True m b
      by (cases m) (simp_all add: scan_sets.simps [of d limit i s] Let_def)
  qed (simp add: scan_sets.simps [of d limit i s])
qed

lemma scan_sets_3: "\<exists>e. scan_sets [0, 0, 1] (nat ((3 - 4) mod 2 ^ 64)) 0 s = Inl e"
proof -
  have l: "nat ((3 - 4) mod 2 ^ 64) = 18446744073709551615" by simp
  show ?thesis
    unfolding l
    by (simp add: scan_sets.simps [of _ _ 0] scan_sets.simps [of _ _ "Suc 0"] scan_sets.simps [of _ _ "Suc (Suc 0)"]
        scan_sets.simps [of _ _ "Suc (Suc (Suc 0))"] start_code_at_def byte_at_def)
qed

lemma frame_payload_long:
  assumes "p \<noteq> []" "p \<noteq> [0, 0, 1]"
  shows "4 \<le> length (frame_payload ''H264'' p)"
proof (cases "has_annexb_start p")
  case True
  then have "length p = 3 \<or> 4 \<le> length p" by (auto simp: has_annexb_start_def)
  then consider "4 \<le> length p" | "length p = 3" "p ! 0 = 0" "p ! 1 = 0" "p ! 2 = 1"
    using True by (auto simp: has_annexb_start_def)
  then show ?thesis
  proof cases
    case 2
    then have "p = [0, 0, 1]" by (intro nth_equalityI) (auto simp: less_Suc_eq numeral_3_eq_3 numeral_2_eq_2)
    with assms show ?thesis by simp
  qed (use True assms(1) in \<open>simp add: frame_payload_def\<close>)
qed (use assms in \<open>simp add: frame_payload_def Suc_le_eq\<close>)

text \<open>
  When the parameter set scan of an H.264 key frame leaves its payload: never, except for the payload
  \<open>00 00 01\<close>. Such a start code alone is kept as it is, its size 3 makes the loop bound \<open>size - 4\<close> wrap
  around, and the scan reads past the end of the vector.
\<close>

theorem parameter_scan_out_of_bounds_iff:
  assumes "keyframe frame" "codec frame = ''H264''" "payload frame = frame_payload ''H264'' p" "p \<noteq> []"
  shows "fst (processParameterSets frame st) \<noteq> srs_success \<longleftrightarrow> p = [0, 0, 1]"
proof (cases "p = [0, 0, 1]")
  case True
  then have "payload frame = [0, 0, 1]" using assms(3) by (simp add: frame_payload_def has_annexb_start_def)
  then show ?thesis
    using True assms scan_sets_3 [of "(mp_param_manager st, ms_parameter_set_updates (mp_stats st))"]
    by (auto simp: processParameterSets_def)
next
  case False
  let ?d = "payload frame" and ?s = "(mp_param_manager st, ms_parameter_set_updates (mp_stats st))"
  have len: "4 \<le> length ?d" using frame_payload_long [OF assms(4) False] assms(3) by simp
  have "(int (length ?d) - 4) mod 2 ^ 64 \<le> int (length ?d) - 4" using len by (intro zmod_le_nonneg_dividend) simp
  then have "nat ((int (length ?d) - 4) mod 2 ^ 64) + 4 \<le> length ?d" using len by linarith
  from scan_sets_in_bounds [OF this, of 0 ?s] obtain pm n
    where r: "scan_sets ?d (nat ((int (length ?d) - 4) mod 2 ^ 64)) 0 ?s = Inr (pm, n)" by auto
  have "fst (processParameterSets frame st) = srs_success"
    using len by (simp only: processParameterSets_def Let_def r sum.case prod.case assms(1,2) split: if_split) auto
  then show ?thesis using False by simp
qed

theorem parameter_scan_out_of_bounds_iff_witness:
  "fst (processParameterSets (StdFrame_default\<lparr>codec := ''H264'', keyframe := True, payload := [0, 0, 1]\<rparr>)
     (MyProtoAdapter_new ''c'' (AdapterStatsManager_new 0))) \<noteq> srs_success"
  using parameter_scan_out_of_bounds_iff [of "StdFrame_default\<lparr>codec := ''H264'', keyframe := True, payload := [0, 0, 1]\<rparr>"
      "[0, 0, 1]" "MyProtoAdapter_new ''c'' (AdapterStatsManager_new 0)"]
  by (simp add: frame_payload_def has_annexb_start_def)

end
