(* ===== verification/Raw_Stream.thy ===== *)
theory Raw_Stream
  imports Kernel_Buffer
begin

text \<open>
  The raw stream helpers of \<open>protocol/srs_protocol_raw_avc.cpp\<close>: cutting an Annex-B byte stream into NAL
  units, cutting an ADTS stream into AAC frames, and packing both for FLV. A pointer into a buffer is the
  list of the bytes from there to the end of the memory block (\<open>data() + pos()\<close> is \<open>remaining\<close>); a frame is such a pointer with a size, so
  that a read past the frame and a read past the block are different things.
\<close>

section \<open>Pointers\<close>

type_synonym frame_ptr = "u8 list \<times> int"

definition deref :: "u8 list \<Rightarrow> int \<Rightarrow> u8 res" where
  "deref p i = (if 0 \<le> i \<and> i < int (length p) then Inr (p ! nat i) else Inl UNDEFINED_READ)"

text \<open>\<open>string(frame, nb_frame)\<close>.\<close>

definition frame_string :: "frame_ptr \<Rightarrow> u8 list res" where
  "frame_string f = (case f of (p, n) \<Rightarrow>
     if n < 0 \<or> n > int (length p) then Inl UNDEFINED_READ else Inr (take (nat n) p))"

section \<open>Start codes\<close>

text \<open>\<open>srs_avc_startswith_annexb\<close>: the length of the start code \<open>N[00] 00 00 01\<close> at the cursor, if any.
  \<open>k\<close> is \<open>p - bytes\<close>.\<close>

function annexb_loop :: "SrsBuffer \<Rightarrow> int \<Rightarrow> (int option) res" where
  "annexb_loop b k =
     (if \<not> require (k + 3) b then Inr None
      else res_bind (deref (remaining b) k) (\<lambda>c0. if c0 \<noteq> 0 then Inr None
      else res_bind (deref (remaining b) (k + 1)) (\<lambda>c1. if c1 \<noteq> 0 then Inr None
      else res_bind (deref (remaining b) (k + 2)) (\<lambda>c2. if c2 = 1 then Inr (Some (k + 3))
      else annexb_loop b (k + 1)))))"
  by pat_completeness auto
termination
  by (relation "measure (\<lambda>(b, k). nat (buf_nb b - buf_p b - k))") (auto simp: require_def split: if_splits)

declare annexb_loop.simps [simp del]

definition srs_avc_startswith_annexb :: "SrsBuffer \<Rightarrow> (int option) res" where
  "srs_avc_startswith_annexb b = annexb_loop b 0"

text \<open>The inner loop of \<open>annexb_demux\<close>: skip to the next start code or to the end.\<close>

function find_annexb :: "SrsBuffer \<Rightarrow> SrsBuffer res" where
  "find_annexb b =
     (if buf_empty b then Inr b
      else res_bind (srs_avc_startswith_annexb b) (\<lambda>m. if m \<noteq> None then Inr b
      else res_bind (skip 1 b) (\<lambda>b'. find_annexb b')))"
  by pat_completeness auto
termination
  by (relation "measure (\<lambda>b. nat (buf_nb b - buf_p b))") (auto simp: buf_empty_def skip_def split: if_splits)

declare find_annexb.simps [simp del]

definition annexb_demux :: "srs_error \<Rightarrow> SrsBuffer \<Rightarrow> (frame_ptr option \<times> SrsBuffer) res" where
  "annexb_demux no_prefix b0 =
     (if buf_empty b0 then Inr (None, b0)
      else res_bind (srs_avc_startswith_annexb b0) (\<lambda>m.
        case m of
          None \<Rightarrow> Inl no_prefix
        | Some pnb_start_code \<Rightarrow>
            (let start = pos b0 + pnb_start_code in
             res_bind (skip pnb_start_code b0) (\<lambda>b1.
             res_bind (find_annexb b1) (\<lambda>b2.
               Inr (Some (drop (nat start) (buf_bytes b2), pos b2 - start), b2))))))"

section \<open>SrsRawH264Stream\<close>

definition avc_annexb_demux :: "SrsBuffer \<Rightarrow> (frame_ptr option \<times> SrsBuffer) res" where
  "avc_annexb_demux b = annexb_demux ERROR_H264_API_NO_PREFIXED b"

definition avc_nalu_type_is :: "u8 \<Rightarrow> frame_ptr \<Rightarrow> bool res" where
  "avc_nalu_type_is t f =
     (if \<not> snd f > 0 then Inl ASSERT_FAILED else res_bind (deref (fst f) 0) (\<lambda>c. Inr (c AND 0x1f = t)))"

definition avc_is_sps :: "frame_ptr \<Rightarrow> bool res" where
  "avc_is_sps f = avc_nalu_type_is 7 f"

definition avc_is_pps :: "frame_ptr \<Rightarrow> bool res" where
  "avc_is_pps f = avc_nalu_type_is 8 f"

text \<open>The output string keeps its value for a short SPS; \<open>sps0\<close> is that value.\<close>

definition avc_sps_demux :: "frame_ptr \<Rightarrow> u8 list \<Rightarrow> u8 list res" where
  "avc_sps_demux f sps0 = (if snd f < 4 then Inr sps0 else frame_string f)"

definition avc_pps_demux :: "frame_ptr \<Rightarrow> u8 list res" where
  "avc_pps_demux f = (if snd f \<le> 0 then Inl ERROR_STREAM_CASTER_AVC_PPS else frame_string f)"

text \<open>A packet written field by field into a new block of the size computed beforehand.\<close>

fun write_fields :: "(SrsBuffer \<Rightarrow> SrsBuffer res) list \<Rightarrow> SrsBuffer \<Rightarrow> SrsBuffer res" where
  "write_fields [] b = Inr b"
| "write_fields (w # ws) b = res_bind (w b) (write_fields ws)"

definition write_packet :: "nat \<Rightarrow> (SrsBuffer \<Rightarrow> SrsBuffer res) list \<Rightarrow> u8 list res" where
  "write_packet nb_packet ws =
     res_bind (write_fields ws (SrsBuffer_new (replicate nb_packet 0))) (\<lambda>b. Inr (buf_bytes b))"

definition avc_mux_sequence_header :: "u8 list \<Rightarrow> u8 list \<Rightarrow> u8 list res" where
  "avc_mux_sequence_header sps pps =
     (let nb_packet = 5 + (3 + length sps) + (3 + length pps) in
      if \<not> length sps \<ge> 4 then Inl ASSERT_FAILED
      else write_packet nb_packet
        [write_1bytes 0x01, write_1bytes (sps ! 1), write_1bytes 0x00, write_1bytes (sps ! 3),
         write_1bytes (0xfc OR 0x03),
         write_1bytes (0xe0 OR 0x01), write_2bytes (of_nat (length sps)), write_string sps,
         write_1bytes 0x01, write_2bytes (of_nat (length pps)), write_string pps])"

definition avc_mux_ipb_frame :: "frame_ptr \<Rightarrow> u8 list res" where
  "avc_mux_ipb_frame f =
     write_packet (nat (4 + snd f)) [write_4bytes (of_int (snd f)), write_bytes (fst f) (snd f)]"

text \<open>The FLV tag header of a video packet; \<open>CompositionTime\<close> is the low 24 bits of \<open>pts - dts\<close>.\<close>

definition mux_video2flv :: "u8 \<Rightarrow> u8 list \<Rightarrow> u8 \<Rightarrow> u8 \<Rightarrow> u32 \<Rightarrow> u32 \<Rightarrow> u8 list" where
  "mux_video2flv codec_id video frame_type avc_packet_type dts pts =
     (let cts = pts - dts in
      [push_bit 4 frame_type OR codec_id, avc_packet_type, byte_of cts 2, byte_of cts 1, byte_of cts 0] @ video)"

definition mux_avc2flv :: "u8 list \<Rightarrow> u8 \<Rightarrow> u8 \<Rightarrow> u32 \<Rightarrow> u32 \<Rightarrow> u8 list" where
  "mux_avc2flv video frame_type avc_packet_type dts pts = mux_video2flv 7 video frame_type avc_packet_type dts pts"

section \<open>SrsRawHEVCStream\<close>

definition hevc_annexb_demux :: "SrsBuffer \<Rightarrow> (frame_ptr option \<times> SrsBuffer) res" where
  "hevc_annexb_demux b = annexb_demux ERROR_HEVC_API_NO_PREFIXED b"

definition SrsHevcNaluTypeParse :: "u8 \<Rightarrow> u8" where
  "SrsHevcNaluTypeParse code = drop_bit 1 (code AND 0x7E)"

definition hevc_nalu_type_is :: "u8 \<Rightarrow> frame_ptr \<Rightarrow> bool res" where
  "hevc_nalu_type_is t f =
     (if \<not> snd f > 0 then Inl ASSERT_FAILED
      else res_bind (deref (fst f) 0) (\<lambda>c. Inr (SrsHevcNaluTypeParse c = t)))"

definition hevc_is_vps :: "frame_ptr \<Rightarrow> bool res" where
  "hevc_is_vps f = hevc_nalu_type_is 32 f"

definition hevc_is_sps :: "frame_ptr \<Rightarrow> bool res" where
  "hevc_is_sps f = hevc_nalu_type_is 33 f"

definition hevc_is_pps :: "frame_ptr \<Rightarrow> bool res" where
  "hevc_is_pps f = hevc_nalu_type_is 34 f"

definition hevc_vps_demux :: "frame_ptr \<Rightarrow> u8 list res" where
  "hevc_vps_demux f = (if snd f \<le> 0 then Inl ERROR_STREAM_CASTER_HEVC_VPS else frame_string f)"

definition hevc_sps_demux :: "frame_ptr \<Rightarrow> u8 list \<Rightarrow> u8 list res" where
  "hevc_sps_demux f sps0 = (if snd f < 4 then Inr sps0 else frame_string f)"

definition hevc_pps_demux :: "frame_ptr \<Rightarrow> u8 list res" where
  "hevc_pps_demux f = (if snd f \<le> 0 then Inl ERROR_STREAM_CASTER_HEVC_PPS else frame_string f)"

text \<open>The fields of \<open>SrsHevcDecoderConfigurationRecord\<close> that the sequence header carries. The parser of VPS
  and SPS that fills them, \<open>hevc_demux\<close>, is an argument.\<close>

record HevcConf =
  general_profile_space :: u8
  general_tier_flag :: u8
  general_profile_idc :: u8
  general_profile_compatibility_flags :: u32
  general_constraint_indicator_flags :: u64
  general_level_idc :: u8
  min_spatial_segmentation_idc :: u16
  parallelism_type :: u8
  chroma_format :: u8
  bit_depth_luma_minus8 :: u8
  bit_depth_chroma_minus8 :: u8
  avg_frame_rate :: u16
  constant_frame_rate :: u8
  num_temporal_layers :: u8
  temporal_id_nested :: u8

definition hevc_mux_sequence_header ::
    "(u8 list \<Rightarrow> u8 list \<Rightarrow> HevcConf res) \<Rightarrow> u8 list \<Rightarrow> u8 list \<Rightarrow> u8 list list \<Rightarrow> u8 list res" where
  "hevc_mux_sequence_header hevc_demux vps sps pps =
     (let pps_size = sum_list (map (\<lambda>it. 2 + length it) pps);
          nb_packet = nat (23 + 5 + int (length vps) + 5 + int (length sps) + 5 + int pps_size - 2)
      in res_bind (hevc_demux vps sps) (\<lambda>info.
         write_packet nb_packet
          ([write_1bytes 0x01,
            write_1bytes (push_bit 6 (general_profile_space info AND 0x03) OR
                          push_bit 5 (general_tier_flag info AND 0x01) OR (general_profile_idc info AND 0x1f)),
            write_4bytes (general_profile_compatibility_flags info),
            write_2bytes (ucast (drop_bit 32 (general_constraint_indicator_flags info) AND 0xffff)),
            write_4bytes (ucast (general_constraint_indicator_flags info AND 0xffffffff)),
            write_1bytes (general_level_idc info),
            write_2bytes (0xf000 OR (min_spatial_segmentation_idc info AND 0x0fff)),
            write_1bytes (0xfc OR (parallelism_type info AND 0x03)),
            write_1bytes (0xfc OR (chroma_format info AND 0x03)),
            write_1bytes (0xf8 OR (bit_depth_luma_minus8 info AND 0x07)),
            write_1bytes (0xf8 OR (bit_depth_chroma_minus8 info AND 0x07)),
            write_2bytes (avg_frame_rate info),
            write_1bytes ((push_bit 6 (constant_frame_rate info) OR 0xc0) OR
                          (push_bit 3 (num_temporal_layers info) OR 0x38) OR
                          (push_bit 2 (temporal_id_nested info) OR 0x04) OR (3 AND 0x03)),
            write_1bytes 0x03,
            write_1bytes (32 AND 0x3f), write_2bytes 0x01, write_2bytes (of_nat (length vps)), write_string vps,
            write_1bytes (33 AND 0x3f), write_2bytes 0x01, write_2bytes (of_nat (length sps)), write_string sps,
            write_1bytes (34 AND 0x3f), write_2bytes (of_nat (length pps))] @
           concat (map (\<lambda>it. [write_2bytes (of_nat (length it)), write_string it]) pps))))"

definition hevc_mux_ipb_frame :: "frame_ptr \<Rightarrow> u8 list res" where
  "hevc_mux_ipb_frame f =
     write_packet (nat (4 + snd f)) [write_4bytes (of_int (snd f)), write_bytes (fst f) (snd f)]"

definition mux_hevc2flv :: "u8 list \<Rightarrow> u8 \<Rightarrow> u8 \<Rightarrow> u32 \<Rightarrow> u32 \<Rightarrow> u8 list" where
  "mux_hevc2flv video frame_type avc_packet_type dts pts = mux_video2flv 12 video frame_type avc_packet_type dts pts"

definition mux_hevc2flv_enhanced :: "u8 list \<Rightarrow> u8 \<Rightarrow> u8 \<Rightarrow> u8 list" where
  "mux_hevc2flv_enhanced video frame_type packet_type =
     [0x80 OR push_bit 4 frame_type OR packet_type, 0x68, 0x76, 0x63, 0x31] @ video"

section \<open>SrsRawAacStream\<close>

text \<open>The enumerations \<open>SrsAacObjectType\<close> and \<open>SrsAacProfile\<close> by their values.\<close>

definition srs_aac_ts2rtmp :: "u8 \<Rightarrow> u8" where
  "srs_aac_ts2rtmp profile =
     (if profile = 0 then 1 else if profile = 1 then 2 else if profile = 2 then 3 else 0)"

record SrsRawAacStreamCodec =
  protection_absent :: u8
  aac_object :: u8
  sampling_frequency_index :: u8
  channel_configuration :: u8
  frame_length :: u16
  sound_format :: u8
  sound_rate :: u8
  sound_size :: u8
  sound_type :: u8
  aac_packet_type :: u8

definition srs_aac_startswith_adts :: "SrsBuffer \<Rightarrow> bool res" where
  "srs_aac_startswith_adts b =
     (if \<not> require 2 b then Inr False
      else res_bind (deref (remaining b) 0) (\<lambda>c0. if c0 \<noteq> 0xff then Inr False
      else res_bind (deref (remaining b) 1) (\<lambda>c1. Inr (c1 AND 0xf0 = 0xf0))))"

text \<open>The FLV sample rate for a sampling frequency index.\<close>

definition adts_sound_rate :: "u8 \<Rightarrow> u8" where
  "adts_sound_rate i =
     (if i \<le> 0x0c \<and> i > 0x0a then 0 else if i \<le> 0x0a \<and> i > 0x07 then 1
      else if i \<le> 0x07 \<and> i > 0x04 then 2 else 3)"

text \<open>The fixed and the variable header; \<open>aac_packet_type\<close> is set by the caller.\<close>

definition adts_codec :: "u8 \<Rightarrow> u16 \<Rightarrow> u32 \<Rightarrow> SrsRawAacStreamCodec" where
  "adts_codec pav sfiv abfv =
     (let profile = ucast (drop_bit 14 sfiv AND 0x03);
          sfi = ucast (drop_bit 10 sfiv AND 0x0f);
          chan = ucast (drop_bit 6 sfiv AND 0x07)
      in \<lparr>protection_absent = pav AND 0x01, aac_object = srs_aac_ts2rtmp profile,
          sampling_frequency_index = sfi, channel_configuration = chan,
          frame_length = (push_bit 11 sfiv AND 0x1800) OR ucast (drop_bit 13 abfv AND 0x07ff),
          sound_format = 10, sound_rate = adts_sound_rate sfi, sound_size = 1,
          sound_type = (if chan \<le> 1 then 0 else 1), aac_packet_type = 0\<rparr>)"

definition adts_demux :: "SrsBuffer \<Rightarrow> ((frame_ptr \<times> SrsRawAacStreamCodec) option \<times> SrsBuffer) res" where
  "adts_demux b0 =
     (if buf_empty b0 then Inr (None, b0)
      else if \<not> require 7 b0 then Inl ERROR_AAC_ADTS_HEADER
      else res_bind (srs_aac_startswith_adts b0) (\<lambda>adts. if \<not> adts then Inl ERROR_AAC_REQUIRED_ADTS
      else res_bind (read_1bytes b0) (\<lambda>(_, b1).
           res_bind (read_1bytes b1) (\<lambda>(v, b2).
           res_bind (read_2bytes b2) (\<lambda>(sfiv, b3).
           res_bind (read_3bytes b3) (\<lambda>(abfv, b4).
             (let c = adts_codec (v AND 0x0f) sfiv abfv in
              res_bind (if protection_absent c = 0
                        then (if \<not> require 2 b4 then Inl ERROR_AAC_ADTS_HEADER
                              else res_bind (read_2bytes b4) (\<lambda>(_, b). Inr b))
                        else Inr b4) (\<lambda>b5.
              (let adts_header_size = pos b5 - pos b0;
                   raw_data_size = sint (frame_length c) - adts_header_size
               in if \<not> require raw_data_size b5 then Inl ERROR_AAC_ADTS_HEADER
                  else res_bind (skip raw_data_size b5) (\<lambda>b6.
                    Inr (Some ((remaining b5, raw_data_size), c), b6)))))))))))"

definition aac_mux_sequence_header :: "SrsRawAacStreamCodec \<Rightarrow> u8 list res" where
  "aac_mux_sequence_header c =
     (if aac_object c = 0 then Inl ERROR_AAC_DATA_INVALID
      else (let i0 = sampling_frequency_index c;
                i = (if i0 \<ge> 15
                     then (if sound_rate c = 0 then 0x0c else if sound_rate c = 1 then 0x0a
                           else if sound_rate c = 2 then 0x07 else if sound_rate c = 3 then 0x04 else i0)
                     else i0)
            in if i \<ge> 15 then Inl ERROR_AAC_DATA_INVALID
               else Inr [(push_bit 3 (aac_object c) AND 0xf8) OR (drop_bit 1 i AND 0x07),
                         (push_bit 7 i AND 0x80) OR (push_bit 3 (channel_configuration c) AND 0x78)]))"

definition mux_aac2flv :: "frame_ptr \<Rightarrow> SrsRawAacStreamCodec \<Rightarrow> u8 list res" where
  "mux_aac2flv f c =
     res_bind (frame_string f) (\<lambda>d.
       (let audio_header = (sound_type c AND 0x01) OR (push_bit 1 (sound_size c) AND 0x02) OR
              (push_bit 2 (sound_rate c) AND 0x0c) OR (push_bit 4 (sound_format c) AND 0xf0)
        in Inr ([audio_header] @ (if sound_format c = 10 then [aac_packet_type c] else []) @ d)))"

section \<open>Start codes on byte lists\<close>

text \<open>The length of the start code at the front of a list, and the number of bytes before the next one.\<close>

fun start_code :: "u8 list \<Rightarrow> nat option" where
  "start_code (x # y # z # r) =
     (if x \<noteq> 0 \<or> y \<noteq> 0 then None else if z = 1 then Some 3 else map_option Suc (start_code (y # z # r)))"
| "start_code _ = None"

fun until_code :: "u8 list \<Rightarrow> nat" where
  "until_code [] = 0"
| "until_code (x # xs) = (if start_code (x # xs) = None then Suc (until_code xs) else 0)"

lemma until_code_le: "until_code xs \<le> length xs"
  by (induction xs) auto

lemma start_code_short: "length xs < 3 \<Longrightarrow> start_code xs = None"
  by (cases xs rule: start_code.cases) auto

lemma start_code_le: "start_code xs = Some n \<Longrightarrow> 3 \<le> n \<and> n \<le> length xs"
  by (induction xs arbitrary: n rule: start_code.induct) (auto split: if_splits)

lemma start_code_unfold:
  "start_code xs = (if length xs < 3 then None
     else if xs ! 0 \<noteq> 0 \<or> xs ! 1 \<noteq> 0 then None
     else if xs ! 2 = 1 then Some 3 else map_option Suc (start_code (tl xs)))"
  by (cases xs rule: start_code.cases) auto

lemma deref_nth: "k < length p \<Longrightarrow> deref p (int k) = Inr (p ! k)"
  by (simp add: deref_def)

lemma annexb_loop_eq:
  assumes "buf_inv b"
  shows "annexb_loop b (int k) =
    Inr (map_option (\<lambda>n. int (k + n)) (start_code (drop k (remaining b))))"
proof (induction "length (remaining b) - k" arbitrary: k rule: less_induct)
  case less
  let ?r = "remaining b"
  show ?case
  proof (cases "k + 3 \<le> length ?r")
    case False
    then show ?thesis
      using assms by (simp add: annexb_loop.simps [of b "int k"] require_remaining start_code_short)
  next
    case True
    have "annexb_loop b (int (Suc k)) = Inr (map_option (\<lambda>n. int (Suc k + n)) (start_code (drop (Suc k) ?r)))"
      using True by (intro less) simp
    moreover have "deref ?r (int k + 1) = Inr (?r ! (k + 1))" "deref ?r (int k + 2) = Inr (?r ! (k + 2))"
      using True deref_nth [of "k + 1" ?r] deref_nth [of "k + 2" ?r] by (simp_all add: add.commute)
    moreover have "drop (Suc k) ?r = tl (drop k ?r)" by (simp add: drop_Suc drop_tl)
    moreover have "\<not> length ?r - k < 3" using True by linarith
    ultimately show ?thesis
      using True assms start_code_unfold [of "drop k ?r"] deref_nth [of k ?r]
      by (cases "start_code (tl (drop k ?r))")
        (simp_all add: annexb_loop.simps [of b "int k"] require_remaining ac_simps)
  qed
qed

lemma startswith_eq: "buf_inv b \<Longrightarrow> srs_avc_startswith_annexb b = Inr (map_option int (start_code (remaining b)))"
  using annexb_loop_eq [of b 0] by (simp add: srs_avc_startswith_annexb_def)

text \<open>The buffer \<open>n\<close> bytes further on.\<close>

definition advance :: "nat \<Rightarrow> SrsBuffer \<Rightarrow> SrsBuffer" where
  "advance n b = b\<lparr>buf_p := buf_p b + int n\<rparr>"

lemma advance_ok:
  assumes "buf_inv b" "n \<le> length (remaining b)"
  shows "skip (int n) b = Inr (advance n b)" "buf_inv (advance n b)" "remaining (advance n b) = drop n (remaining b)"
    "buf_bytes (advance n b) = buf_bytes b" "pos (advance n b) = pos b + int n"
  using assms skip_ok [OF assms] next_bytes_ok [OF assms] by (simp_all add: advance_def pos_def)

lemma advance_simps [simp]: "advance 0 b = b" "advance m (advance n b) = advance (n + m) b"
  by (simp_all add: advance_def)

lemma find_annexb_eq:
  assumes "buf_inv b"
  shows "find_annexb b = Inr (advance (until_code (remaining b)) b)"
  using assms
proof (induction "remaining b" arbitrary: b)
  case Nil
  then have "remaining b = []" by simp
  then show ?case using Nil(2) by (simp add: find_annexb.simps [of b] buf_empty_remaining)
next
  case (Cons x xs)
  have r: "remaining b = x # xs" using Cons(2) by simp
  have a: "skip 1 b = Inr (advance 1 b)" "buf_inv (advance 1 b)" "remaining (advance 1 b) = xs"
    using advance_ok [of b 1] Cons.prems r by simp_all
  show ?case
    using Cons.hyps(1) [OF a(3) [symmetric] a(2)] Cons.prems r a
    by (cases "start_code (x # xs)")
      (simp_all add: find_annexb.simps [of b] buf_empty_remaining startswith_eq)
qed

lemma annexb_demux_eq:
  assumes "buf_inv b" "remaining b \<noteq> []"
  shows "annexb_demux e b = (case start_code (remaining b) of
      None \<Rightarrow> Inl e
    | Some n \<Rightarrow> (let r = drop n (remaining b); m = until_code r in
        Inr (Some (r, int m), advance (n + m) b)))"
proof (cases "start_code (remaining b)")
  case None
  then show ?thesis using assms by (simp add: annexb_demux_def buf_empty_remaining startswith_eq)
next
  case (Some n)
  note a = advance_ok [OF assms(1) conjunct2 [OF start_code_le [OF Some]]]
  have "drop (nat (pos b + int n)) (buf_bytes b) = drop n (remaining b)"
    using assms(1) by (simp add: remaining_def pos_def buf_inv_def nat_add_distrib add.commute)
  then show ?thesis
    using assms Some a find_annexb_eq [OF a(2)]
    by (simp add: annexb_demux_def buf_empty_remaining startswith_eq Let_def) (simp add: advance_def pos_def)
qed

subsection \<open>Reading the front of a buffer\<close>

lemma read_1_Cons:
  assumes "buf_inv b" "remaining b = x # r"
  shows "read_1bytes b = Inr (x, advance 1 b)" "buf_inv (advance 1 b)" "remaining (advance 1 b) = r"
  using advance_ok [of b 1] read_be_ok [of b 1 x r] assms
  by (simp_all add: read_1bytes_def advance_def be_bytes_def le_bytes_def byte_of_u8)

lemma read_be_front:
  assumes "buf_inv b" "remaining b = be_bytes n w @ r"
  shows "read_be n b = Inr (take_bit (8 * n) w :: 'a::len word, advance n b)" "buf_inv (advance n b)"
    "remaining (advance n b) = r"
  using advance_ok [of b n] next_bytes_ok [of b n] assms
  by (simp_all add: read_be_def be_word_be_bytes advance_def)

lemma read_2_front:
  assumes "buf_inv b" "remaining b = be_bytes 2 (w :: u16) @ r"
  shows "read_2bytes b = Inr (w, advance 2 b)" "buf_inv (advance 2 b)" "remaining (advance 2 b) = r"
  using read_be_front [OF assms] by (simp_all add: read_2bytes_def take_bit_full)

lemma read_3_front:
  assumes "buf_inv b" "remaining b = be_bytes 3 (w :: u32) @ r"
  shows "read_3bytes b = Inr (take_bit 24 w, advance 3 b)" "buf_inv (advance 3 b)" "remaining (advance 3 b) = r"
  using read_be_front [OF assms] by (simp_all add: read_3bytes_def)

lemma read_4_front:
  assumes "buf_inv b" "remaining b = be_bytes 4 (w :: u32) @ r"
  shows "read_4bytes b = Inr (w, advance 4 b)" "buf_inv (advance 4 b)" "remaining (advance 4 b) = r"
  using read_be_front [OF assms] by (simp_all add: read_4bytes_def take_bit_full)

lemma read_bytes_front:
  assumes "buf_inv b" "remaining b = xs @ r"
  shows "read_bytes (int (length xs)) b = Inr (xs, advance (length xs) b)" "buf_inv (advance (length xs) b)"
    "remaining (advance (length xs) b) = r"
  using advance_ok [of b "length xs"] next_bytes_ok [of b "length xs"] assms
  by (simp_all add: read_bytes_def advance_def)

lemma read_2_any:
  assumes "buf_inv b" "remaining b = x # y # r"
  shows "read_2bytes b = Inr (be_word [x, y], advance 2 b)" "buf_inv (advance 2 b)" "remaining (advance 2 b) = r"
  using advance_ok [of b 2] next_bytes_ok [of b 2] assms
  by (simp_all add: read_2bytes_def read_be_def advance_def)

subsection \<open>NAL units\<close>

text \<open>A NAL unit as it stands in a byte stream: not empty, without a start code inside, and not ending
  with a zero byte.\<close>

definition nal_unit :: "u8 list \<Rightarrow> bool" where
  "nal_unit u \<longleftrightarrow> u \<noteq> [] \<and> last u \<noteq> 0 \<and> (\<forall>i < length u. start_code (drop i u) = None)"

lemma nal_unit_tl: "nal_unit (x # u) \<Longrightarrow> u \<noteq> [] \<Longrightarrow> nal_unit u"
  unfolding nal_unit_def by (metis (no_types, lifting) Suc_less_eq drop_Suc_Cons last_ConsR length_Cons)

lemma start_code_append:
  "u \<noteq> [] \<Longrightarrow> last u \<noteq> 0 \<Longrightarrow> start_code u = None \<Longrightarrow> start_code (u @ r) = None"
proof (induction u rule: start_code.induct, goal_cases)
  case (1 x y z w)
  then show ?case by (auto split: if_splits)
next
  case (4 x y)
  then show ?case by (cases r) auto
next
  case (3 x)
  then show ?case by (cases r rule: start_code.cases) auto
qed auto

lemma until_code_unit:
  assumes "nal_unit u" "r = [] \<or> start_code r \<noteq> None"
  shows "until_code (u @ r) = length u"
  using assms(1)
proof (induction u)
  case Nil
  then show ?case by (simp add: nal_unit_def)
next
  case (Cons x u)
  have "start_code (x # u) = None" "last (x # u) \<noteq> 0" using Cons.prems by (auto simp: nal_unit_def)
  then have "start_code ((x # u) @ r) = None" by (intro start_code_append) simp_all
  moreover have "until_code (u @ r) = length u"
  proof (cases "u = []")
    case True
    then show ?thesis using assms(2) by (cases r) auto
  next
    case False
    then show ?thesis using Cons nal_unit_tl by blast
  qed
  ultimately show ?case by simp
qed

definition annexb_code :: "nat \<Rightarrow> u8 list" where
  "annexb_code n = replicate n 0 @ [0, 0, 1]"

lemma start_code_annexb: "start_code (annexb_code n @ r) = Some (n + 3)"
proof (induction n)
  case (Suc n)
  obtain w where "annexb_code n @ r = 0 # 0 # w" by (cases n; cases "n - 1") (auto simp: annexb_code_def)
  with Suc show ?case by (simp add: annexb_code_def)
qed (simp add: annexb_code_def)

definition annexb_stream :: "(nat \<times> u8 list) list \<Rightarrow> u8 list" where
  "annexb_stream us = concat (map (\<lambda>(n, u). annexb_code n @ u) us)"

lemma annexb_stream_simps [simp]:
  "annexb_stream [] = []" "annexb_stream ((n, u) # us) = annexb_code n @ u @ annexb_stream us"
  by (simp_all add: annexb_stream_def)

lemma annexb_stream_starts: "us \<noteq> [] \<Longrightarrow> start_code (annexb_stream us) \<noteq> None"
  by (cases us) (auto simp: start_code_annexb)

lemma annexb_demux_unit:
  assumes "buf_inv b" "remaining b = annexb_stream ((n, u) # us)" "nal_unit u"
  obtains b' where "annexb_demux e b = Inr (Some (u @ annexb_stream us, int (length u)), b')"
    "buf_inv b'" "remaining b' = annexb_stream us"
proof -
  have ne: "remaining b \<noteq> []" using assms(2) by (simp add: annexb_code_def)
  have u: "until_code (u @ annexb_stream us) = length u"
    using until_code_unit [OF assms(3), of "annexb_stream us"] annexb_stream_starts [of us] by (cases us) simp_all
  have l: "n + 3 + length u \<le> length (remaining b)" using assms(2) by (simp add: annexb_code_def)
  have d: "drop (n + 3) (remaining b) = u @ annexb_stream us" using assms(2) by (simp add: annexb_code_def)
  then have "drop (n + 3 + length u) (remaining b) = annexb_stream us"
    by (metis add.commute append_eq_conv_conj drop_drop)
  with that [of "advance (n + 3 + length u) b"] advance_ok [OF assms(1) l] annexb_demux_eq [OF assms(1) ne, of e]
  show thesis using assms(2) d u by (simp add: start_code_annexb Let_def)
qed

section \<open>Packets\<close>

text \<open>A write operation that appends \<open>vs\<close> to what has been written so far.\<close>

definition written :: "SrsBuffer \<Rightarrow> u8 list" where
  "written b = take (nat (buf_p b)) (buf_bytes b)"

definition appends :: "(SrsBuffer \<Rightarrow> SrsBuffer res) \<Rightarrow> u8 list \<Rightarrow> bool" where
  "appends w vs \<longleftrightarrow> (\<forall>b. buf_inv b \<longrightarrow> length vs \<le> length (remaining b) \<longrightarrow>
     (\<exists>b'. w b = Inr b' \<and> buf_inv b' \<and> written b' = written b @ vs \<and>
       length (remaining b') = length (remaining b) - length vs))"

lemma put_bytes_appends: "appends (put_bytes vs) vs"
  unfolding appends_def
  by (auto simp: put_bytes_def require_def buf_inv_def remaining_def written_def nat_add_distrib)

lemma appends_ops [intro, simp]:
  "appends (write_1bytes v1) [v1]"
  "appends (write_2bytes v2) (be_bytes 2 v2)"
  "appends (write_3bytes v4) (be_bytes 3 v4)"
  "appends (write_4bytes v4) (be_bytes 4 v4)"
  "appends (write_8bytes v8) (be_bytes 8 v8)"
  using put_bytes_appends
  by (simp_all add: write_1bytes_def [abs_def] write_2bytes_def [abs_def] write_3bytes_def [abs_def]
      write_4bytes_def [abs_def] write_8bytes_def [abs_def] be_bytes_def le_bytes_def upt_widths)

lemma appends_string [intro, simp]: "appends (write_string vs) vs"
  using put_bytes_appends [of vs] by (auto simp: write_string_def appends_def)

lemma appends_bytes [intro, simp]: "n \<le> length d \<Longrightarrow> appends (write_bytes d (int n)) (take n d)"
  using put_bytes_appends [of "take n d"]
  by (auto simp: write_bytes_def appends_def require_remaining min_def)

lemma write_fields_ok:
  assumes "list_all2 appends ws vss" "buf_inv b" "length (concat vss) \<le> length (remaining b)"
  shows "\<exists>b'. write_fields ws b = Inr b' \<and> buf_inv b' \<and> written b' = written b @ concat vss \<and>
    length (remaining b') = length (remaining b) - length (concat vss)"
  using assms
proof (induction ws vss arbitrary: b rule: list_all2_induct)
  case (Cons w ws vs vss)
  then obtain b1 where 1: "w b = Inr b1" "buf_inv b1" "written b1 = written b @ vs"
      "length (remaining b1) = length (remaining b) - length vs"
    unfolding appends_def by force
  with Cons.IH [of b1] Cons.prems show ?case by auto
qed simp

lemma write_packet_ok:
  assumes "list_all2 appends ws vss" "n = length (concat vss)"
  shows "write_packet n ws = Inr (concat vss)"
proof -
  let ?b = "SrsBuffer_new (replicate n 0)"
  obtain b where b: "write_fields ws ?b = Inr b" "buf_inv b" "written b = written ?b @ concat vss"
      "length (remaining b) = 0"
    using write_fields_ok [OF assms(1), of ?b] assms(2) by auto
  have "written b = buf_bytes b" using b(4) by (simp add: written_def remaining_def)
  moreover have "written ?b = []" by (simp add: written_def SrsBuffer_new_def)
  ultimately show ?thesis using b by (simp add: write_packet_def)
qed

lemma avc_sequence_header_bytes:
  assumes "4 \<le> length sps"
  shows "avc_mux_sequence_header sps pps = Inr
    ([0x01, sps ! 1, 0x00, sps ! 3, 0xff, 0xe1] @ be_bytes 2 (of_nat (length sps) :: u16) @ sps @
     [0x01] @ be_bytes 2 (of_nat (length pps) :: u16) @ pps)"
proof -
  let ?ws = "[write_1bytes 0x01, write_1bytes (sps ! 1), write_1bytes 0x00, write_1bytes (sps ! 3),
    write_1bytes (0xfc OR 0x03), write_1bytes (0xe0 OR 0x01), write_2bytes (of_nat (length sps)),
    write_string sps, write_1bytes 0x01, write_2bytes (of_nat (length pps)), write_string pps]"
  have "avc_mux_sequence_header sps pps = write_packet (5 + (3 + length sps) + (3 + length pps)) ?ws"
    using assms by (simp add: avc_mux_sequence_header_def)
  also have "\<dots> = Inr (concat [[0x01], [sps ! 1], [0x00], [sps ! 3], [0xff], [0xe1],
      be_bytes 2 (of_nat (length sps) :: u16), sps, [0x01], be_bytes 2 (of_nat (length pps) :: u16), pps])"
    by (rule write_packet_ok) simp_all
  finally show ?thesis by simp
qed

lemma mux_ipb_frame_bytes:
  assumes "n \<le> length p"
  shows "avc_mux_ipb_frame (p, int n) = Inr (be_bytes 4 (of_nat n :: u32) @ take n p)"
    "hevc_mux_ipb_frame (p, int n) = Inr (be_bytes 4 (of_nat n :: u32) @ take n p)"
proof -
  have "write_packet (nat (4 + int n)) [write_4bytes (of_int (int n)), write_bytes p (int n)] =
      Inr (concat [be_bytes 4 (of_nat n :: u32), take n p])"
    using assms by (intro write_packet_ok) (simp_all add: min_def nat_add_distrib)
  then show "avc_mux_ipb_frame (p, int n) = Inr (be_bytes 4 (of_nat n :: u32) @ take n p)"
    "hevc_mux_ipb_frame (p, int n) = Inr (be_bytes 4 (of_nat n :: u32) @ take n p)"
    by (simp_all add: avc_mux_ipb_frame_def hevc_mux_ipb_frame_def)
qed

end
