(* ===== verification/Kernel_Codec.thy ===== *)
theory Kernel_Codec
  imports Raw_Stream
begin

text \<open>
  The video codec configuration of \<open>kernel/srs_kernel_codec.hpp\<close> with the HEVC parameter sets. The structures of
  parameter sets have no constructor: their integers hold whatever the memory held. \<open>SrsVideoCodecConfig_new\<close>
  therefore takes that memory as an argument and sets what the constructors set. Fields that no code assigns (VUI, HRD,
  reference picture sets, extensions) are left out. A C array is a function on its index; the bounds are those of the
  code. The vectors \<open>sub_layer_*\<close> of one index are one record; \<open>sub_layer_reserved_zero_7bits_\<close>, \<open>33bits_\<close> and
  \<open>35bits_\<close>, which no code resizes, are always empty and have no field.
\<close>

section \<open>HEVC structures\<close>

record SrsHevcNalData =
  nal_unit_length :: u16
  nal_unit_data :: "u8 list"

record SrsHevcHvccNalu =
  array_completeness :: u8
  nal_unit_type :: u8
  num_nalus :: u16
  nal_data_vec :: "SrsHevcNalData list"

record ptl_profile =
  pf_profile_space :: u8
  pf_tier_flag :: u8
  pf_profile_idc :: u8
  pf_profile_compatibility_flag :: "nat \<Rightarrow> u8"
  pf_progressive_source_flag :: u8
  pf_interlaced_source_flag :: u8
  pf_non_packed_constraint_flag :: u8
  pf_frame_only_constraint_flag :: u8
  pf_max_12bit_constraint_flag :: u8
  pf_max_10bit_constraint_flag :: u8
  pf_max_8bit_constraint_flag :: u8
  pf_max_422chroma_constraint_flag :: u8
  pf_max_420chroma_constraint_flag :: u8
  pf_max_monochrome_constraint_flag :: u8
  pf_intra_constraint_flag :: u8
  pf_one_picture_only_constraint_flag :: u8
  pf_lower_bit_rate_constraint_flag :: u8
  pf_reserved_zero_34bits :: u64
  pf_reserved_zero_43bits :: u64
  pf_inbld_flag :: u8
  pf_reserved_zero_bit :: u8

definition ptl_profile_new :: ptl_profile where
  "ptl_profile_new = \<lparr>pf_profile_space = 0, pf_tier_flag = 0, pf_profile_idc = 0,
     pf_profile_compatibility_flag = (\<lambda>_. 0), pf_progressive_source_flag = 0, pf_interlaced_source_flag = 0,
     pf_non_packed_constraint_flag = 0, pf_frame_only_constraint_flag = 0, pf_max_12bit_constraint_flag = 0,
     pf_max_10bit_constraint_flag = 0, pf_max_8bit_constraint_flag = 0, pf_max_422chroma_constraint_flag = 0,
     pf_max_420chroma_constraint_flag = 0, pf_max_monochrome_constraint_flag = 0, pf_intra_constraint_flag = 0,
     pf_one_picture_only_constraint_flag = 0, pf_lower_bit_rate_constraint_flag = 0, pf_reserved_zero_34bits = 0,
     pf_reserved_zero_43bits = 0, pf_inbld_flag = 0, pf_reserved_zero_bit = 0\<rparr>"

record SrsHevcProfileTierLevel =
  ptl_general :: ptl_profile
  ptl_max_14bit_constraint_flag :: u32
  ptl_reserved_zero_7bits :: u8
  ptl_reserved_zero_33bits :: u64
  ptl_reserved_zero_35bits :: u64
  ptl_general_level_idc :: u8
  sub_layer_profile_present_flag :: "u8 list"
  sub_layer_level_present_flag :: "u8 list"
  ptl_reserved_zero_2bits :: "nat \<Rightarrow> u8"
  ptl_sub_layer :: "ptl_profile list"
  sub_layer_level_idc :: "u8 list"

definition SrsHevcProfileTierLevel_new :: SrsHevcProfileTierLevel where
  "SrsHevcProfileTierLevel_new = \<lparr>ptl_general = ptl_profile_new, ptl_max_14bit_constraint_flag = 0,
     ptl_reserved_zero_7bits = 0, ptl_reserved_zero_33bits = 0, ptl_reserved_zero_35bits = 0,
     ptl_general_level_idc = 0, sub_layer_profile_present_flag = [], sub_layer_level_present_flag = [],
     ptl_reserved_zero_2bits = (\<lambda>_. 0), ptl_sub_layer = [], sub_layer_level_idc = []\<rparr>"

record SrsHevcScalingListData =
  scaling_list_pred_mode_flag :: "nat \<times> nat \<Rightarrow> u32"
  scaling_list_pred_matrix_id_delta :: "nat \<times> nat \<Rightarrow> u32"
  scaling_list_dc_coef_minus8 :: "nat \<times> nat \<Rightarrow> u32"
  ScalingList :: "nat \<times> nat \<times> nat \<Rightarrow> u32"
  coefNum :: nat

record SrsHevcRbspVps =
  vps_video_parameter_set_id :: u8
  vps_base_layer_internal_flag :: u8
  vps_base_layer_available_flag :: u8
  vps_max_layers_minus1 :: u8
  vps_max_sub_layers_minus1 :: u8
  vps_temporal_id_nesting_flag :: u8
  vps_reserved_0xffff_16bits :: u32
  vps_ptl :: SrsHevcProfileTierLevel
  vps_sub_layer_ordering_info_present_flag :: u8
  vps_max_dec_pic_buffering_minus1 :: "nat \<Rightarrow> u32"
  vps_max_num_reorder_pics :: "nat \<Rightarrow> u32"
  vps_max_latency_increase_plus1 :: "nat \<Rightarrow> u32"
  vps_max_layer_id :: u8
  vps_num_layer_sets_minus1 :: u32

record SrsHevcRbspSps =
  sps_video_parameter_set_id :: u8
  sps_max_sub_layers_minus1 :: u8
  sps_temporal_id_nesting_flag :: u8
  sps_ptl :: SrsHevcProfileTierLevel
  sps_seq_parameter_set_id :: u32
  chroma_format_idc :: u32
  separate_colour_plane_flag :: u8
  pic_width_in_luma_samples :: u32
  pic_height_in_luma_samples :: u32
  conformance_window_flag :: u32
  conf_win_left_offset :: u32
  conf_win_right_offset :: u32
  conf_win_top_offset :: u32
  conf_win_bottom_offset :: u32
  sps_bit_depth_luma_minus8 :: u32
  sps_bit_depth_chroma_minus8 :: u32
  log2_max_pic_order_cnt_lsb_minus4 :: u32

record SrsHevcRbspPps =
  pps_pic_parameter_set_id :: u8
  pps_seq_parameter_set_id :: u8
  dependent_slice_segments_enabled_flag :: u8
  output_flag_present_flag :: u8
  num_extra_slice_header_bits :: u8
  sign_data_hiding_enabled_flag :: u8
  cabac_init_present_flag :: u8
  num_ref_idx_l0_default_active_minus1 :: u32
  num_ref_idx_l1_default_active_minus1 :: u32
  init_qp_minus26 :: u32
  constrained_intra_pred_flag :: u8
  transform_skip_enabled_flag :: u8
  cu_qp_delta_enabled_flag :: u8
  diff_cu_qp_delta_depth :: u32
  pps_cb_qp_offset :: u32
  pps_cr_qp_offset :: u32
  pps_slice_chroma_qp_offsets_present_flag :: u8
  weighted_pred_flag :: u8
  weighted_bipred_flag :: u32
  transquant_bypass_enabled_flag :: u8
  tiles_enabled_flag :: u8
  entropy_coding_sync_enabled_flag :: u8
  num_tile_columns_minus1 :: u32
  num_tile_rows_minus1 :: u32
  uniform_spacing_flag :: u32
  column_width_minus1 :: "u32 list"
  row_height_minus1 :: "u32 list"
  loop_filter_across_tiles_enabled_flag :: u8
  pps_loop_filter_across_slices_enabled_flag :: u8
  deblocking_filter_control_present_flag :: u8
  deblocking_filter_override_enabled_flag :: u8
  pps_deblocking_filter_disabled_flag :: u8
  pps_beta_offset_div2 :: u32
  pps_tc_offset_div2 :: u32
  pps_scaling_list_data_present_flag :: u8
  pps_scaling_list_data :: SrsHevcScalingListData
  lists_modification_present_flag :: u8
  log2_parallel_merge_level_minus2 :: u32
  slice_segment_header_extension_present_flag :: u8
  pps_extension_present_flag :: u8
  pps_range_extension_flag :: u8
  pps_multilayer_extension_flag :: u8
  pps_3d_extension_flag :: u8
  pps_scc_extension_flag :: u8
  pps_extension_4bits :: u8

text \<open>The configuration record extends the fields that the raw stream writes into a sequence header.\<close>

record SrsHevcDecoderConfigurationRecord = HevcConf +
  configuration_version :: u8
  length_size_minus_one :: u8
  nalu_vec :: "SrsHevcHvccNalu list"
  vps_table :: "nat \<Rightarrow> SrsHevcRbspVps"
  sps_table :: "nat \<Rightarrow> SrsHevcRbspSps"
  pps_table :: "nat \<Rightarrow> SrsHevcRbspPps"

text \<open>What the implicit constructors set: vectors are empty, \<open>SrsHevcProfileTierLevel\<close> is zeroed.\<close>

definition hevc_conf_new :: "SrsHevcDecoderConfigurationRecord \<Rightarrow> SrsHevcDecoderConfigurationRecord" where
  "hevc_conf_new mem = mem\<lparr>nalu_vec := [],
     vps_table := (\<lambda>i. (vps_table mem i)\<lparr>vps_ptl := SrsHevcProfileTierLevel_new\<rparr>),
     sps_table := (\<lambda>i. (sps_table mem i)\<lparr>sps_ptl := SrsHevcProfileTierLevel_new\<rparr>),
     pps_table := (\<lambda>i. (pps_table mem i)\<lparr>column_width_minus1 := [], row_height_minus1 := []\<rparr>)\<rparr>"

section \<open>Codec configuration\<close>

datatype SrsAvcPayloadFormat = SrsAvcPayloadFormatGuess | SrsAvcPayloadFormatAnnexb | SrsAvcPayloadFormatIbmf

text \<open>\<open>frame_rate_\<close> is a \<open>double\<close> that only ever holds a 16-bit integer.\<close>

record SrsVideoCodecConfig =
  vco_id :: u8
  vco_frame_rate :: u16
  vco_width :: u32
  vco_height :: u32
  avc_extra_data :: "u8 list"
  avc_profile :: u8
  avc_level :: u8
  hevc_profile :: u8
  hevc_level :: u8
  NAL_unit_length :: u8
  sequenceParameterSetNALUnit :: "u8 list"
  pictureParameterSetNALUnit :: "u8 list"
  payload_format :: SrsAvcPayloadFormat
  hevc_dec_conf_record :: SrsHevcDecoderConfigurationRecord

definition SrsVideoCodecConfig_new :: "SrsVideoCodecConfig \<Rightarrow> SrsVideoCodecConfig" where
  "SrsVideoCodecConfig_new mem = mem\<lparr>vco_id := 0, vco_frame_rate := 0, vco_width := 0, vco_height := 0,
     avc_extra_data := [], avc_profile := 0, avc_level := 0, NAL_unit_length := 0,
     sequenceParameterSetNALUnit := [], pictureParameterSetNALUnit := [],
     payload_format := SrsAvcPayloadFormatGuess,
     hevc_dec_conf_record := hevc_conf_new (hevc_dec_conf_record mem)\<rparr>"

definition is_avc_codec_ok :: "SrsVideoCodecConfig \<Rightarrow> bool" where
  "is_avc_codec_ok v \<longleftrightarrow> avc_extra_data v \<noteq> []"

lemma SrsVideoCodecConfig_new_sel [simp]:
  "vco_id (SrsVideoCodecConfig_new mem) = 0" "avc_extra_data (SrsVideoCodecConfig_new mem) = []"
  "NAL_unit_length (SrsVideoCodecConfig_new mem) = 0" "vco_width (SrsVideoCodecConfig_new mem) = 0"
  "vco_height (SrsVideoCodecConfig_new mem) = 0"
  "sequenceParameterSetNALUnit (SrsVideoCodecConfig_new mem) = []"
  "pictureParameterSetNALUnit (SrsVideoCodecConfig_new mem) = []"
  "payload_format (SrsVideoCodecConfig_new mem) = SrsAvcPayloadFormatGuess"
  "nalu_vec (hevc_dec_conf_record (SrsVideoCodecConfig_new mem)) = []"
  by (simp_all add: SrsVideoCodecConfig_new_def hevc_conf_new_def)

section \<open>Memory that is all zero\<close>

definition zero_scaling :: SrsHevcScalingListData where
  "zero_scaling = \<lparr>scaling_list_pred_mode_flag = (\<lambda>_. 0), scaling_list_pred_matrix_id_delta = (\<lambda>_. 0),
     scaling_list_dc_coef_minus8 = (\<lambda>_. 0), ScalingList = (\<lambda>_. 0), coefNum = 0\<rparr>"

definition zero_vps :: SrsHevcRbspVps where
  "zero_vps = \<lparr>vps_video_parameter_set_id = 0, vps_base_layer_internal_flag = 0, vps_base_layer_available_flag = 0,
     vps_max_layers_minus1 = 0, vps_max_sub_layers_minus1 = 0, vps_temporal_id_nesting_flag = 0,
     vps_reserved_0xffff_16bits = 0, vps_ptl = SrsHevcProfileTierLevel_new,
     vps_sub_layer_ordering_info_present_flag = 0, vps_max_dec_pic_buffering_minus1 = (\<lambda>_. 0),
     vps_max_num_reorder_pics = (\<lambda>_. 0), vps_max_latency_increase_plus1 = (\<lambda>_. 0),
     vps_max_layer_id = 0, vps_num_layer_sets_minus1 = 0\<rparr>"

definition zero_sps :: SrsHevcRbspSps where
  "zero_sps = \<lparr>sps_video_parameter_set_id = 0, sps_max_sub_layers_minus1 = 0, sps_temporal_id_nesting_flag = 0,
     sps_ptl = SrsHevcProfileTierLevel_new, sps_seq_parameter_set_id = 0, chroma_format_idc = 0,
     separate_colour_plane_flag = 0, pic_width_in_luma_samples = 0, pic_height_in_luma_samples = 0,
     conformance_window_flag = 0, conf_win_left_offset = 0, conf_win_right_offset = 0,
     conf_win_top_offset = 0, conf_win_bottom_offset = 0, sps_bit_depth_luma_minus8 = 0,
     sps_bit_depth_chroma_minus8 = 0, log2_max_pic_order_cnt_lsb_minus4 = 0\<rparr>"

definition zero_pps :: SrsHevcRbspPps where
  "zero_pps = \<lparr>pps_pic_parameter_set_id = 0, pps_seq_parameter_set_id = 0, dependent_slice_segments_enabled_flag = 0,
     output_flag_present_flag = 0, num_extra_slice_header_bits = 0, sign_data_hiding_enabled_flag = 0,
     cabac_init_present_flag = 0, num_ref_idx_l0_default_active_minus1 = 0,
     num_ref_idx_l1_default_active_minus1 = 0, init_qp_minus26 = 0, constrained_intra_pred_flag = 0,
     transform_skip_enabled_flag = 0, cu_qp_delta_enabled_flag = 0, diff_cu_qp_delta_depth = 0,
     pps_cb_qp_offset = 0, pps_cr_qp_offset = 0, pps_slice_chroma_qp_offsets_present_flag = 0,
     weighted_pred_flag = 0, weighted_bipred_flag = 0, transquant_bypass_enabled_flag = 0,
     tiles_enabled_flag = 0, entropy_coding_sync_enabled_flag = 0, num_tile_columns_minus1 = 0,
     num_tile_rows_minus1 = 0, uniform_spacing_flag = 0, column_width_minus1 = [], row_height_minus1 = [],
     loop_filter_across_tiles_enabled_flag = 0, pps_loop_filter_across_slices_enabled_flag = 0,
     deblocking_filter_control_present_flag = 0, deblocking_filter_override_enabled_flag = 0,
     pps_deblocking_filter_disabled_flag = 0, pps_beta_offset_div2 = 0, pps_tc_offset_div2 = 0,
     pps_scaling_list_data_present_flag = 0, pps_scaling_list_data = zero_scaling,
     lists_modification_present_flag = 0, log2_parallel_merge_level_minus2 = 0,
     slice_segment_header_extension_present_flag = 0, pps_extension_present_flag = 0,
     pps_range_extension_flag = 0, pps_multilayer_extension_flag = 0, pps_3d_extension_flag = 0,
     pps_scc_extension_flag = 0, pps_extension_4bits = 0\<rparr>"

definition zero_conf :: SrsHevcDecoderConfigurationRecord where
  "zero_conf = \<lparr>general_profile_space = 0, general_tier_flag = 0, general_profile_idc = 0,
     general_profile_compatibility_flags = 0, general_constraint_indicator_flags = 0, general_level_idc = 0,
     min_spatial_segmentation_idc = 0, parallelism_type = 0, chroma_format = 0, bit_depth_luma_minus8 = 0,
     bit_depth_chroma_minus8 = 0, avg_frame_rate = 0, constant_frame_rate = 0, num_temporal_layers = 0,
     temporal_id_nested = 0, configuration_version = 0, length_size_minus_one = 0, nalu_vec = [],
     vps_table = (\<lambda>_. zero_vps), sps_table = (\<lambda>_. zero_sps),
     pps_table = (\<lambda>_. zero_pps)\<rparr>"

definition zero_memory :: SrsVideoCodecConfig where
  "zero_memory = \<lparr>vco_id = 0, vco_frame_rate = 0, vco_width = 0, vco_height = 0, avc_extra_data = [], avc_profile = 0,
     avc_level = 0, hevc_profile = 0, hevc_level = 0, NAL_unit_length = 0, sequenceParameterSetNALUnit = [],
     pictureParameterSetNALUnit = [], payload_format = SrsAvcPayloadFormatGuess,
     hevc_dec_conf_record = zero_conf\<rparr>"

end
