(* ===== verification/Kernel_Hevc.thy ===== *)
theory Kernel_Hevc
  imports Kernel_Codec Kernel_Bit_Buffer
begin

text \<open>
  The parser of HEVC parameter sets in \<open>kernel/srs_kernel_packet.cpp\<close>: \<open>hevc_demux_hvcc\<close> reads a decoder configuration
  record and the VPS, SPS and PPS in it. The functions for RBSP data read one field after the other into the structure;
  they are lists of steps on the bit buffer and the structure, and stop at the first error with what was stored so far.
  A \<open>resize\<close> is taken to find the memory it asks for.
\<close>

section \<open>Emulation prevention\<close>

text \<open>\<open>srs_rbsp_remove_emulation_bytes\<close>: \<open>rbsp\<close> holds the bytes written so far.\<close>

function rbsp_loop :: "SrsBuffer \<Rightarrow> u8 list \<Rightarrow> u8 list res" where
  "rbsp_loop b rbsp =
     (if buf_empty b then Inr rbsp
      else res_bind (read_1bytes b) (\<lambda>(x, b1).
        if length rbsp \<ge> 2 \<and> rbsp ! (length rbsp - 2) = 0 \<and> rbsp ! (length rbsp - 1) = 0 \<and> x = 3
        then (if buf_empty b1 then Inr (rbsp @ [x])
              else res_bind (read_1bytes b1) (\<lambda>(ev, b2).
                if ev > 3 then rbsp_loop b2 (rbsp @ [x, ev]) else rbsp_loop b2 (rbsp @ [ev])))
        else rbsp_loop b1 (rbsp @ [x])))"
  by pat_completeness auto
termination
  by (relation "measure (\<lambda>(b, rbsp). nat (buf_nb b - buf_p b))")
    (auto simp: buf_empty_def read_1bytes_def read_be_def next_bytes_def res_bind_Inr_iff split: if_splits prod.splits)

declare rbsp_loop.simps [simp del]

definition srs_rbsp_remove_emulation_bytes :: "SrsBuffer \<Rightarrow> u8 list res" where
  "srs_rbsp_remove_emulation_bytes b = rbsp_loop b []"

section \<open>Steps on a bit buffer\<close>

type_synonym 's bs_step = "SrsBitBuffer \<times> 's \<Rightarrow> (SrsBitBuffer \<times> 's) outcome"

fun bs_seq :: "'s bs_step list \<Rightarrow> 's bs_step" where
  "bs_seq [] st = (srs_success, st)"
| "bs_seq (f # fs) st = and_then (f st) (bs_seq fs)"

definition bs_require :: "int \<Rightarrow> 's bs_step" where
  "bs_require n st = ((if require_bits n (fst st) then srs_success else Inl ERROR_HEVC_DECODE_ERROR), st)"

text \<open>A read whose value is stored by \<open>put\<close>, which is the update function of a field.\<close>

definition bs_read ::
    "(SrsBitBuffer \<Rightarrow> ('a::len word \<times> SrsBitBuffer) res) \<Rightarrow> (('b::len word \<Rightarrow> 'b word) \<Rightarrow> 's \<Rightarrow> 's) \<Rightarrow> 's bs_step" where
  "bs_read rd put st =
     with_res (rd (fst st)) st (\<lambda>(x, bs). (srs_success, bs, put (\<lambda>_. ucast x) (snd st)))"

abbreviation bs_bit :: "(('b::len word \<Rightarrow> 'b word) \<Rightarrow> 's \<Rightarrow> 's) \<Rightarrow> 's bs_step" where
  "bs_bit \<equiv> bs_read read_bit"

abbreviation bs_bits :: "int \<Rightarrow> (('b::len word \<Rightarrow> 'b word) \<Rightarrow> 's \<Rightarrow> 's) \<Rightarrow> 's bs_step" where
  "bs_bits n \<equiv> bs_read (read_bits n)"

abbreviation bs_8bits :: "(('b::len word \<Rightarrow> 'b word) \<Rightarrow> 's \<Rightarrow> 's) \<Rightarrow> 's bs_step" where
  "bs_8bits \<equiv> bs_read read_8bits"

abbreviation bs_ue :: "(('b::len word \<Rightarrow> 'b word) \<Rightarrow> 's \<Rightarrow> 's) \<Rightarrow> 's bs_step" where
  "bs_ue \<equiv> bs_read read_bits_ue"

abbreviation bs_se :: "(('b::len word \<Rightarrow> 'b word) \<Rightarrow> 's \<Rightarrow> 's) \<Rightarrow> 's bs_step" where
  "bs_se \<equiv> bs_read read_bits_se"

text \<open>Steps that depend on what was read, and assignments.\<close>

definition bs_dyn :: "('s \<Rightarrow> 's bs_step list) \<Rightarrow> 's bs_step" where
  "bs_dyn f st = bs_seq (f (snd st)) st"

definition bs_set :: "('s \<Rightarrow> 's) \<Rightarrow> 's bs_step" where
  "bs_set f st = (srs_success, fst st, f (snd st))"

text \<open>A wide field: \<open>hi\<close> reads the upper bits, 32 more follow.\<close>

definition read_wide :: "(SrsBitBuffer \<Rightarrow> ('a::len word \<times> SrsBitBuffer) res) \<Rightarrow> SrsBitBuffer \<Rightarrow> (u64 \<times> SrsBitBuffer) res" where
  "read_wide hi s = res_bind (hi s) (\<lambda>(bits_tmp_hi, s1).
     res_bind (read_bits 32 s1) (\<lambda>(bits_tmp, s2). Inr (push_bit 32 (ucast bits_tmp_hi) OR ucast bits_tmp, s2)))"

text \<open>Steps on a part of the structure, through a pointer to it.\<close>

definition bs_on :: "('v \<Rightarrow> 's) \<Rightarrow> (('s \<Rightarrow> 's) \<Rightarrow> 'v \<Rightarrow> 'v) \<Rightarrow> 's bs_step list \<Rightarrow> 'v bs_step" where
  "bs_on get upd steps st =
     (case bs_seq steps (fst st, get (snd st)) of (r, bs, s) \<Rightarrow> (r, bs, upd (\<lambda>_. s) (snd st)))"

definition resize :: "nat \<Rightarrow> 'a \<Rightarrow> 'a list \<Rightarrow> 'a list" where
  "resize n x xs = take n xs @ replicate (n - length xs) x"

definition upd_nth :: "nat \<Rightarrow> ('a \<Rightarrow> 'a) \<Rightarrow> 'a list \<Rightarrow> 'a list" where
  "upd_nth i f xs = xs[i := f (xs ! i)]"

definition upd_at :: "'i \<Rightarrow> ('a \<Rightarrow> 'a) \<Rightarrow> ('i \<Rightarrow> 'a) \<Rightarrow> 'i \<Rightarrow> 'a" where
  "upd_at i f a = a(i := f (a i))"

section \<open>Profile, tier and level\<close>

definition profile_is :: "nat list \<Rightarrow> ptl_profile \<Rightarrow> bool" where
  "profile_is ids p \<longleftrightarrow> list_ex (\<lambda>k. pf_profile_idc p = of_nat k \<or> pf_profile_compatibility_flag p k \<noteq> 0) ids"

text \<open>
  \<open>get\<close> and \<open>upd\<close> point to the profile to fill. For a sub-layer, the fields of 7, 33 and 35 bits are elements of
  empty vectors, and the flag \<open>max_14bit\<close> goes to the general profile.
\<close>

definition bs_outside :: "(SrsBitBuffer \<Rightarrow> ('a::len word \<times> SrsBitBuffer) res) \<Rightarrow> 's bs_step" where
  "bs_outside rd st = with_res (rd (fst st)) st (\<lambda>_. (Inl UNDEFINED_WRITE, st))"

definition ptl_reserved ::
    "bool \<Rightarrow> (SrsHevcProfileTierLevel \<Rightarrow> ptl_profile) \<Rightarrow> ((ptl_profile \<Rightarrow> ptl_profile) \<Rightarrow> SrsHevcProfileTierLevel \<Rightarrow>
      SrsHevcProfileTierLevel) \<Rightarrow> SrsHevcProfileTierLevel bs_step list" where
  "ptl_reserved general get upd =
     [bs_dyn (\<lambda>t.
        if profile_is [4, 5, 6, 7, 8, 9, 10, 11] (get t)
        then [bs_bit (upd \<circ> pf_max_12bit_constraint_flag_update), bs_bit (upd \<circ> pf_max_10bit_constraint_flag_update),
              bs_bit (upd \<circ> pf_max_8bit_constraint_flag_update), bs_bit (upd \<circ> pf_max_422chroma_constraint_flag_update),
              bs_bit (upd \<circ> pf_max_420chroma_constraint_flag_update),
              bs_bit (upd \<circ> pf_max_monochrome_constraint_flag_update),
              bs_bit (upd \<circ> pf_intra_constraint_flag_update),
              bs_bit (upd \<circ> pf_one_picture_only_constraint_flag_update),
              bs_bit (upd \<circ> pf_lower_bit_rate_constraint_flag_update)] @
             (if profile_is [5, 9, 10, 11] (get t)
              then [bs_bit ptl_max_14bit_constraint_flag_update,
                    if general then bs_read (read_wide read_bit) ptl_reserved_zero_33bits_update
                    else bs_outside (read_wide read_bit)]
              else [bs_read (read_wide (read_bits 2)) (upd \<circ> pf_reserved_zero_34bits_update)])
        else if profile_is [2] (get t)
        then [if general then bs_bits 7 ptl_reserved_zero_7bits_update else bs_outside (read_bits 7),
              bs_bit (upd \<circ> pf_one_picture_only_constraint_flag_update),
              if general then bs_read (read_wide (read_bits 3)) ptl_reserved_zero_35bits_update
              else bs_outside (read_wide (read_bits 3))]
        else [bs_read (read_wide (read_bits 11)) (upd \<circ> pf_reserved_zero_43bits_update)]),
      bs_dyn (\<lambda>t.
        if profile_is [1, 2, 3, 4, 5, 9, 11] (get t) then [bs_bit (upd \<circ> pf_inbld_flag_update)]
        else [bs_bit (upd \<circ> pf_reserved_zero_bit_update)])]"

definition ptl_profile_steps ::
    "bool \<Rightarrow> (SrsHevcProfileTierLevel \<Rightarrow> ptl_profile) \<Rightarrow> ((ptl_profile \<Rightarrow> ptl_profile) \<Rightarrow> SrsHevcProfileTierLevel \<Rightarrow>
      SrsHevcProfileTierLevel) \<Rightarrow> SrsHevcProfileTierLevel bs_step list" where
  "ptl_profile_steps general get upd =
     [bs_require 88, bs_bits 2 (upd \<circ> pf_profile_space_update), bs_bit (upd \<circ> pf_tier_flag_update),
      bs_bits 5 (upd \<circ> pf_profile_idc_update)] @
     map (\<lambda>j. bs_bit (upd \<circ> pf_profile_compatibility_flag_update \<circ> upd_at j)) [0..<32] @
     [bs_bit (upd \<circ> pf_progressive_source_flag_update), bs_bit (upd \<circ> pf_interlaced_source_flag_update),
      bs_bit (upd \<circ> pf_non_packed_constraint_flag_update), bs_bit (upd \<circ> pf_frame_only_constraint_flag_update)] @
     ptl_reserved general get upd"

definition ptl_sub_layers :: "nat \<Rightarrow> SrsHevcProfileTierLevel bs_step list" where
  "ptl_sub_layers n =
     concat (map (\<lambda>i.
       [bs_dyn (\<lambda>t. if sub_layer_profile_present_flag t ! i \<noteq> 0
                   then ptl_profile_steps False (\<lambda>t. ptl_sub_layer t ! i) (ptl_sub_layer_update \<circ> upd_nth i) else []),
        bs_dyn (\<lambda>t. if sub_layer_level_present_flag t ! i \<noteq> 0
                   then [bs_require 8, bs_bits 8 (sub_layer_level_idc_update \<circ> upd_nth i)] else [])]) [0..<n])"

definition hevc_demux_rbsp_ptl :: "bool \<Rightarrow> nat \<Rightarrow> SrsHevcProfileTierLevel bs_step list" where
  "hevc_demux_rbsp_ptl profile_present_flag n =
     (if profile_present_flag then ptl_profile_steps True ptl_general ptl_general_update else []) @
     [bs_require 8, bs_8bits ptl_general_level_idc_update,
      bs_set (sub_layer_profile_present_flag_update (resize n 0) \<circ> sub_layer_level_present_flag_update (resize n 0))] @
     concat (map (\<lambda>i. [bs_require 2, bs_bit (sub_layer_profile_present_flag_update \<circ> upd_nth i),
                       bs_bit (sub_layer_level_present_flag_update \<circ> upd_nth i)]) [0..<n]) @
     concat (map (\<lambda>i. [bs_require 2, bs_bits 2 (ptl_reserved_zero_2bits_update \<circ> upd_at i)])
               (if n > 0 then [n..<8] else [])) @
     [bs_set (ptl_sub_layer_update (resize n ptl_profile_new) \<circ> sub_layer_level_idc_update (resize n 0))] @
     ptl_sub_layers n"

section \<open>Video parameter set\<close>

text \<open>The elements of the tables, as \<open>SrsVideoCodecConfig\<close> holds them, with their update functions.\<close>

definition the_vps :: "nat \<Rightarrow> SrsVideoCodecConfig \<Rightarrow> SrsHevcRbspVps" where
  "the_vps i v = vps_table (hevc_dec_conf_record v) i"

definition the_vps_update :: "nat \<Rightarrow> (SrsHevcRbspVps \<Rightarrow> SrsHevcRbspVps) \<Rightarrow> SrsVideoCodecConfig \<Rightarrow> SrsVideoCodecConfig" where
  "the_vps_update i f = hevc_dec_conf_record_update (vps_table_update (upd_at i f))"

definition the_sps :: "nat \<Rightarrow> SrsVideoCodecConfig \<Rightarrow> SrsHevcRbspSps" where
  "the_sps i v = sps_table (hevc_dec_conf_record v) i"

definition the_sps_update :: "nat \<Rightarrow> (SrsHevcRbspSps \<Rightarrow> SrsHevcRbspSps) \<Rightarrow> SrsVideoCodecConfig \<Rightarrow> SrsVideoCodecConfig" where
  "the_sps_update i f = hevc_dec_conf_record_update (sps_table_update (upd_at i f))"

definition the_pps :: "nat \<Rightarrow> SrsVideoCodecConfig \<Rightarrow> SrsHevcRbspPps" where
  "the_pps i v = pps_table (hevc_dec_conf_record v) i"

definition the_pps_update :: "nat \<Rightarrow> (SrsHevcRbspPps \<Rightarrow> SrsHevcRbspPps) \<Rightarrow> SrsVideoCodecConfig \<Rightarrow> SrsVideoCodecConfig" where
  "the_pps_update i f = hevc_dec_conf_record_update (pps_table_update (upd_at i f))"

text \<open>\<open>dec_conf_rec->general_*\<close> are taken from the profile of the VPS.\<close>

definition conf_general :: "SrsHevcProfileTierLevel \<Rightarrow> SrsVideoCodecConfig \<Rightarrow> SrsVideoCodecConfig" where
  "conf_general t = hevc_dec_conf_record_update (\<lambda>c. c\<lparr>general_profile_idc := pf_profile_idc (ptl_general t),
     general_level_idc := ptl_general_level_idc t, general_tier_flag := pf_tier_flag (ptl_general t)\<rparr>)"

definition vps_ordering :: "SrsHevcRbspVps \<Rightarrow> SrsHevcRbspVps bs_step list" where
  "vps_ordering p =
     (let n = unat (vps_max_sub_layers_minus1 p) in
      concat (map (\<lambda>i. [bs_ue (vps_max_dec_pic_buffering_minus1_update \<circ> upd_at i),
                        bs_ue (vps_max_num_reorder_pics_update \<circ> upd_at i),
                        bs_ue (vps_max_latency_increase_plus1_update \<circ> upd_at i)])
                [if vps_sub_layer_ordering_info_present_flag p \<noteq> 0 then 0 else n..<n + 1]))"

definition vps_steps :: "nat \<Rightarrow> SrsVideoCodecConfig bs_step list" where
  "vps_steps i =
     [bs_on (the_vps i) (the_vps_update i)
        [bs_set (vps_video_parameter_set_id_update (\<lambda>_. of_nat i)),
         bs_bit vps_base_layer_internal_flag_update, bs_bit vps_base_layer_available_flag_update,
         bs_bits 6 vps_max_layers_minus1_update, bs_bits 3 vps_max_sub_layers_minus1_update,
         bs_bit vps_temporal_id_nesting_flag_update, bs_bits 16 vps_reserved_0xffff_16bits_update,
         bs_dyn (\<lambda>p. [bs_on vps_ptl vps_ptl_update (hevc_demux_rbsp_ptl True (unat (vps_max_sub_layers_minus1 p)))])],
      bs_set (\<lambda>v. conf_general (vps_ptl (the_vps i v)) v),
      bs_on (the_vps i) (the_vps_update i)
        [bs_require 1, bs_bit vps_sub_layer_ordering_info_present_flag_update,
         bs_dyn vps_ordering,
         bs_require 6, bs_bits 6 vps_max_layer_id_update, bs_ue vps_num_layer_sets_minus1_update]]"

text \<open>The bit buffer of an RBSP function is local.\<close>

definition run_steps :: "'s bs_step list \<Rightarrow> SrsBitBuffer \<Rightarrow> 's \<Rightarrow> 's outcome" where
  "run_steps steps bs s = (case bs_seq steps (bs, s) of (r, _, s') \<Rightarrow> (r, s'))"

definition hevc_demux_vps_rbsp :: "u8 list \<Rightarrow> SrsVideoCodecConfig \<Rightarrow> SrsVideoCodecConfig outcome" where
  "hevc_demux_vps_rbsp rbsp v =
     (let b = SrsBuffer_new rbsp in
      if \<not> require 4 b then (Inl ERROR_HEVC_DECODE_ERROR, v)
      else with_res (read_bits 4 (SrsBitBuffer_new b)) v (\<lambda>(i, bs).
        if sint i < 0 \<or> sint i > 16 then (Inl ERROR_HEVC_DECODE_ERROR, v)
        else run_steps (vps_steps (unat i)) bs v))"

section \<open>Sequence parameter set\<close>

definition sps_crop_window :: "nat \<Rightarrow> SrsVideoCodecConfig \<Rightarrow> SrsVideoCodecConfig" where
  "sps_crop_window i v =
     (let s = the_sps i v;
          sub_width_c = (if (chroma_format_idc s = 1 \<or> chroma_format_idc s = 2) \<and> separate_colour_plane_flag s = 0 then 2 else 1);
          sub_height_c = (if chroma_format_idc s = 1 \<and> separate_colour_plane_flag s = 0 then 2 else 1)
      in v\<lparr>vco_width := vco_width v - (sub_width_c * conf_win_right_offset s + sub_width_c * conf_win_left_offset s),
           vco_height := vco_height v - (sub_height_c * conf_win_bottom_offset s + sub_height_c * conf_win_top_offset s)\<rparr>)"

definition sps_steps :: "nat \<Rightarrow> SrsVideoCodecConfig bs_step list" where
  "sps_steps i =
     (let fld = bs_on (the_sps i) (the_sps_update i) in
      [fld [bs_ue chroma_format_idc_update,
            bs_dyn (\<lambda>s. if chroma_format_idc s = 3 then [bs_require 1, bs_bit separate_colour_plane_flag_update] else []),
            bs_ue pic_width_in_luma_samples_update, bs_ue pic_height_in_luma_samples_update],
       bs_set (\<lambda>v. v\<lparr>vco_width := pic_width_in_luma_samples (the_sps i v),
                      vco_height := pic_height_in_luma_samples (the_sps i v)\<rparr>),
       fld [bs_require 1, bs_bit conformance_window_flag_update],
       bs_dyn (\<lambda>v. if conformance_window_flag (the_sps i v) \<noteq> 0
                  then [fld [bs_ue conf_win_left_offset_update, bs_ue conf_win_right_offset_update,
                             bs_ue conf_win_top_offset_update, bs_ue conf_win_bottom_offset_update],
                        bs_set (sps_crop_window i)] else []),
       fld [bs_ue sps_bit_depth_luma_minus8_update, bs_ue sps_bit_depth_chroma_minus8_update],
       bs_set (\<lambda>v. hevc_dec_conf_record_update (\<lambda>c. c\<lparr>
         bit_depth_luma_minus8 := ucast (sps_bit_depth_luma_minus8 (the_sps i v) + 8),
         bit_depth_chroma_minus8 := ucast (sps_bit_depth_chroma_minus8 (the_sps i v) + 8)\<rparr>) v),
       fld [bs_ue log2_max_pic_order_cnt_lsb_minus4_update]])"

definition hevc_demux_sps_rbsp :: "bool \<Rightarrow> u8 list \<Rightarrow> SrsVideoCodecConfig \<Rightarrow> SrsVideoCodecConfig outcome" where
  "hevc_demux_sps_rbsp parse_sps rbsp v0 =
     (if \<not> parse_sps then (srs_success, v0)
      else (let b = SrsBuffer_new rbsp in
        if \<not> require 2 b then (Inl ERROR_HEVC_DECODE_ERROR, v0)
        else with_res (read_1bytes b) v0 (\<lambda>(nutv, b1).
          (let sub_layers = drop_bit 1 nutv AND 0x07 in
           case bs_seq (hevc_demux_rbsp_ptl True (unat sub_layers)) (SrsBitBuffer_new b1, SrsHevcProfileTierLevel_new) of
             (Inl e, _) \<Rightarrow> (Inl e, v0)
           | (Inr _, bs, t) \<Rightarrow>
               (let v = v0\<lparr>hevc_profile := pf_profile_idc (ptl_general t), hevc_level := ptl_general_level_idc t\<rparr> in
                with_res (read_bits_ue bs) v (\<lambda>(i, bs1).
                  if i \<ge> 16 then (Inl ERROR_HEVC_DECODE_ERROR, v)
                  else run_steps (sps_steps (unat i)) bs1 (the_sps_update (unat i) (\<lambda>s.
                    s\<lparr>sps_video_parameter_set_id := drop_bit 4 nutv AND 0x0f, sps_max_sub_layers_minus1 := sub_layers,
                      sps_temporal_id_nesting_flag := nutv AND 0x01, sps_seq_parameter_set_id := i, sps_ptl := t\<rparr>) v)))))))"

section \<open>Picture parameter set\<close>

text \<open>Scaling lists. \<open>nextCoef\<close> is an \<open>int\<close>; \<open>%\<close> rounds towards zero.\<close>

definition scaling_coef :: "nat \<times> nat \<Rightarrow> nat \<Rightarrow> (u32 \<times> SrsHevcScalingListData) bs_step" where
  "scaling_coef m i st =
     with_res (read_bits_se (fst st)) st (\<lambda>(delta, bs).
       (let (nextCoef, sld) = snd st; next_coef = of_int (sint (nextCoef + delta + 256) smod 256)
        in (srs_success, bs, next_coef, sld\<lparr>ScalingList := (ScalingList sld)((fst m, snd m, i) := next_coef)\<rparr>)))"

definition scaling_coefs :: "nat \<times> nat \<Rightarrow> u32 \<Rightarrow> SrsHevcScalingListData bs_step" where
  "scaling_coefs m nextCoef st =
     (case bs_seq (map (scaling_coef m) [0..<coefNum (snd st)]) (fst st, nextCoef, snd st) of
        (r, bs, _, sld) \<Rightarrow> (r, bs, sld))"

definition scaling_matrix :: "nat \<times> nat \<Rightarrow> SrsHevcScalingListData bs_step list" where
  "scaling_matrix m =
     [bs_bit (scaling_list_pred_mode_flag_update \<circ> upd_at m),
      bs_dyn (\<lambda>sld.
        if scaling_list_pred_mode_flag sld m = 0
        then [bs_ue (scaling_list_pred_matrix_id_delta_update \<circ> upd_at m)]
        else bs_set (\<lambda>s. s\<lparr>coefNum := min 64 (2 ^ (4 + 2 * fst m))\<rparr>) #
          (if fst m > 1
           then (let d = (fst m - 2, snd m) in
                 [bs_se (scaling_list_dc_coef_minus8_update \<circ> upd_at d),
                  bs_dyn (\<lambda>s. [scaling_coefs m (scaling_list_dc_coef_minus8 s d + 8)])])
           else [scaling_coefs m 8]))]"

definition scaling_lists :: "SrsHevcScalingListData bs_step list" where
  "scaling_lists =
     concat (map (\<lambda>sizeId. concat (map (\<lambda>matrixId. scaling_matrix (sizeId, matrixId))
       (if sizeId = 3 then [0, 3] else [0..<6]))) [0..<4])"

definition pps_tiles :: "SrsHevcRbspPps bs_step list" where
  "pps_tiles =
     [bs_ue num_tile_columns_minus1_update, bs_ue num_tile_rows_minus1_update,
      bs_require 1, bs_bit uniform_spacing_flag_update,
      bs_dyn (\<lambda>p. if uniform_spacing_flag p \<noteq> 0 then []
        else (let c = unat (num_tile_columns_minus1 p); r = unat (num_tile_rows_minus1 p) in
              bs_set (column_width_minus1_update (resize c 0) \<circ> row_height_minus1_update (resize r 0)) #
              map (\<lambda>i. bs_ue (column_width_minus1_update \<circ> upd_nth i)) [0..<c] @
              map (\<lambda>i. bs_ue (row_height_minus1_update \<circ> upd_nth i)) [0..<r])),
      bs_require 1, bs_bit loop_filter_across_tiles_enabled_flag_update]"

definition pps_deblocking :: "SrsHevcRbspPps bs_step list" where
  "pps_deblocking =
     [bs_require 2, bs_bit pps_loop_filter_across_slices_enabled_flag_update,
      bs_bit deblocking_filter_control_present_flag_update,
      bs_dyn (\<lambda>p. if deblocking_filter_control_present_flag p = 0 then []
        else [bs_require 2, bs_bit deblocking_filter_override_enabled_flag_update,
              bs_bit pps_deblocking_filter_disabled_flag_update,
              bs_dyn (\<lambda>p. if pps_deblocking_filter_disabled_flag p \<noteq> 0 then []
                else [bs_se pps_beta_offset_div2_update, bs_se pps_tc_offset_div2_update])])]"

definition pps_extension :: "SrsHevcRbspPps bs_step list" where
  "pps_extension =
     [bs_require 2, bs_bit slice_segment_header_extension_present_flag_update, bs_bit pps_extension_present_flag_update,
      bs_dyn (\<lambda>p. if pps_extension_present_flag p = 0 then []
        else [bs_require 8, bs_bit pps_range_extension_flag_update, bs_bit pps_multilayer_extension_flag_update,
              bs_bit pps_3d_extension_flag_update, bs_bit pps_scc_extension_flag_update,
              bs_bits 4 pps_extension_4bits_update])]"

definition pps_steps :: "SrsHevcRbspPps bs_step list" where
  "pps_steps =
     [bs_ue pps_seq_parameter_set_id_update,
      bs_require 7, bs_bit dependent_slice_segments_enabled_flag_update, bs_bit output_flag_present_flag_update,
      bs_bits 3 num_extra_slice_header_bits_update, bs_bit sign_data_hiding_enabled_flag_update,
      bs_bit cabac_init_present_flag_update,
      bs_ue num_ref_idx_l0_default_active_minus1_update, bs_ue num_ref_idx_l1_default_active_minus1_update,
      bs_se init_qp_minus26_update,
      bs_require 3, bs_bit constrained_intra_pred_flag_update, bs_bit transform_skip_enabled_flag_update,
      bs_bit cu_qp_delta_enabled_flag_update,
      bs_dyn (\<lambda>p. if cu_qp_delta_enabled_flag p \<noteq> 0 then [bs_ue diff_cu_qp_delta_depth_update] else []),
      bs_se pps_cb_qp_offset_update, bs_se pps_cr_qp_offset_update,
      bs_require 6, bs_bit pps_slice_chroma_qp_offsets_present_flag_update, bs_bit weighted_pred_flag_update,
      bs_bit weighted_bipred_flag_update, bs_bit transquant_bypass_enabled_flag_update,
      bs_bit tiles_enabled_flag_update, bs_bit entropy_coding_sync_enabled_flag_update,
      bs_dyn (\<lambda>p. if tiles_enabled_flag p \<noteq> 0 then pps_tiles else [])] @
     pps_deblocking @
     [bs_require 1, bs_bit pps_scaling_list_data_present_flag_update,
      bs_dyn (\<lambda>p. if pps_scaling_list_data_present_flag p = 0 then []
        else [bs_on pps_scaling_list_data pps_scaling_list_data_update scaling_lists]),
      bs_require 1, bs_bit lists_modification_present_flag_update, bs_ue log2_parallel_merge_level_minus2_update] @
     pps_extension"

definition hevc_demux_pps_rbsp :: "u8 list \<Rightarrow> SrsVideoCodecConfig \<Rightarrow> SrsVideoCodecConfig outcome" where
  "hevc_demux_pps_rbsp rbsp v =
     with_res (read_bits_ue (SrsBitBuffer_new (SrsBuffer_new rbsp))) v (\<lambda>(i, bs).
       if i \<ge> 64 then (Inl ERROR_HEVC_DECODE_ERROR, v)
       else run_steps [bs_on (the_pps (unat i)) (the_pps_update (unat i))
              (bs_set (pps_pic_parameter_set_id_update (\<lambda>_. ucast i)) # pps_steps)] bs v)"

section \<open>Configuration record\<close>

text \<open>The header of a parameter set unit, the same code in \<open>hevc_demux_vps\<close>, \<open>hevc_demux_sps\<close> and \<open>hevc_demux_pps\<close>.\<close>

definition hevc_nal_rbsp :: "u8 \<Rightarrow> SrsBuffer \<Rightarrow> u8 list res" where
  "hevc_nal_rbsp t b =
     (if \<not> require 1 b then Inl ERROR_HEVC_DECODE_ERROR
      else res_bind (read_1bytes b) (\<lambda>(nutv, b1).
        if drop_bit 7 nutv AND 0x01 \<noteq> 0 then Inl ERROR_HEVC_DECODE_ERROR
        else if drop_bit 1 nutv AND 0x3f \<noteq> t then Inl ERROR_HEVC_DECODE_ERROR
        else res_bind (skip 1 b1) srs_rbsp_remove_emulation_bytes))"

definition hevc_demux_vps :: "SrsBuffer \<Rightarrow> SrsVideoCodecConfig \<Rightarrow> SrsVideoCodecConfig outcome" where
  "hevc_demux_vps b v = with_res (hevc_nal_rbsp 32 b) v (\<lambda>rbsp. hevc_demux_vps_rbsp rbsp v)"

definition hevc_demux_sps :: "bool \<Rightarrow> SrsBuffer \<Rightarrow> SrsVideoCodecConfig \<Rightarrow> SrsVideoCodecConfig outcome" where
  "hevc_demux_sps parse_sps b v = with_res (hevc_nal_rbsp 33 b) v (\<lambda>rbsp. hevc_demux_sps_rbsp parse_sps rbsp v)"

definition hevc_demux_pps :: "SrsBuffer \<Rightarrow> SrsVideoCodecConfig \<Rightarrow> SrsVideoCodecConfig outcome" where
  "hevc_demux_pps b v = with_res (hevc_nal_rbsp 34 b) v (\<lambda>rbsp. hevc_demux_pps_rbsp rbsp v)"

definition hevc_demux_vps_sps_pps :: "bool \<Rightarrow> SrsHevcHvccNalu \<Rightarrow> SrsVideoCodecConfig \<Rightarrow> SrsVideoCodecConfig outcome" where
  "hevc_demux_vps_sps_pps parse_sps nal v =
     (case nal_data_vec nal of [] \<Rightarrow> (srs_success, v)
      | d # _ \<Rightarrow>
          (let b = SrsBuffer_new (nal_unit_data d) in
           if nal_unit_type nal = 32 then hevc_demux_vps b v
           else if nal_unit_type nal = 33 then hevc_demux_sps parse_sps b v
           else if nal_unit_type nal = 34 then hevc_demux_pps b v
           else (srs_success, v)))"

primrec hvcc_units :: "nat \<Rightarrow> SrsBuffer \<Rightarrow> (SrsHevcNalData list \<times> SrsBuffer) res" where
  "hvcc_units 0 b = Inr ([], b)"
| "hvcc_units (Suc n) b =
     (if \<not> require 2 b then Inl ERROR_HEVC_DECODE_ERROR
      else res_bind (read_2bytes b) (\<lambda>(len, b1).
        if \<not> require (uint len) b1 then Inl ERROR_HEVC_DECODE_ERROR
        else res_bind (read_bytes (uint len) b1) (\<lambda>(d, b2).
             res_bind (hvcc_units n b2) (\<lambda>(ds, b3).
               Inr (\<lparr>nal_unit_length = len, nal_unit_data = d\<rparr> # ds, b3)))))"

primrec hvcc_arrays :: "bool \<Rightarrow> nat \<Rightarrow> SrsBuffer \<Rightarrow> SrsVideoCodecConfig \<Rightarrow> SrsVideoCodecConfig outcome" where
  "hvcc_arrays parse_sps 0 b v = (srs_success, v)"
| "hvcc_arrays parse_sps (Suc n) b v =
     (if \<not> require 3 b then (Inl ERROR_HEVC_DECODE_ERROR, v)
      else with_res (read_1bytes b) v (\<lambda>(data_byte, b1).
           with_res (read_2bytes b1) v (\<lambda>(num, b2).
           with_res (hvcc_units (unat num) b2) v (\<lambda>(ds, b3).
             (let nal = \<lparr>array_completeness = drop_bit 7 data_byte AND 0x01, nal_unit_type = data_byte AND 0x3f,
                         num_nalus = num, nal_data_vec = ds\<rparr>
              in and_then (hevc_demux_vps_sps_pps parse_sps nal
                            (hevc_dec_conf_record_update (nalu_vec_update (\<lambda>ns. ns @ [nal])) v))
                   (hvcc_arrays parse_sps n b3))))))"

text \<open>
  The fixed part. The 48 flags are read as \<open>int32_t\<close> and \<open>int16_t\<close>, which C++ extends by their sign. Each record
  assignment below is one of the code; the reads cannot fail after the check for 23 bytes.
\<close>

definition hvcc_fixed :: "SrsBuffer \<Rightarrow> SrsHevcDecoderConfigurationRecord \<Rightarrow> (SrsHevcDecoderConfigurationRecord \<times> SrsBuffer) res" where
  "hvcc_fixed b1 c =
     res_bind (read_1bytes b1) (\<lambda>(prof, b2).
     res_bind (read_4bytes b2) (\<lambda>(compat, b3).
     res_bind (read_4bytes b3) (\<lambda>(flags_hi, b4).
     res_bind (read_2bytes b4) (\<lambda>(flags_lo, b5).
     res_bind (read_1bytes b5) (\<lambda>(lev, b6).
     res_bind (read_2bytes b6) (\<lambda>(seg, b7).
     res_bind (read_1bytes b7) (\<lambda>(par, b8).
     res_bind (read_1bytes b8) (\<lambda>(chroma, b9).
     res_bind (read_1bytes b9) (\<lambda>(luma_depth, b10).
     res_bind (read_1bytes b10) (\<lambda>(chroma_depth, b11).
     res_bind (read_2bytes b11) (\<lambda>(rate, b12).
     res_bind (read_1bytes b12) (\<lambda>(data_byte, b13).
       Inr (c\<lparr>general_profile_space := drop_bit 6 prof AND 0x03, general_tier_flag := drop_bit 5 prof AND 0x01,
              general_profile_idc := prof AND 0x1F, general_profile_compatibility_flags := compat,
              general_constraint_indicator_flags := push_bit 16 (scast flags_hi) OR scast flags_lo,
              general_level_idc := lev, min_spatial_segmentation_idc := seg AND 0x0fff,
              parallelism_type := par AND 0x03, chroma_format := chroma AND 0x03,
              bit_depth_luma_minus8 := luma_depth AND 0x07, bit_depth_chroma_minus8 := chroma_depth AND 0x07,
              avg_frame_rate := rate, constant_frame_rate := drop_bit 6 data_byte AND 0x03,
              num_temporal_layers := drop_bit 3 data_byte AND 0x07, temporal_id_nested := drop_bit 2 data_byte AND 0x01,
              length_size_minus_one := data_byte AND 0x03\<rparr>, b13)))))))))))))"

definition hevc_demux_hvcc :: "bool \<Rightarrow> SrsBuffer \<Rightarrow> SrsVideoCodecConfig \<Rightarrow> SrsVideoCodecConfig outcome" where
  "hevc_demux_hvcc parse_sps b0 v0 =
     (let v1 = (if left b0 > 0 then v0\<lparr>avc_extra_data := remaining b0\<rparr> else v0) in
      if \<not> require 23 b0 then (Inl ERROR_HEVC_DECODE_ERROR, v1)
      else with_res (read_1bytes b0) v1 (\<lambda>(version, b1).
        (let v2 = hevc_dec_conf_record_update (configuration_version_update (\<lambda>_. version)) v1 in
         if version \<noteq> 1 then (Inl ERROR_HEVC_DECODE_ERROR, v2)
         else with_res (hvcc_fixed b1 (hevc_dec_conf_record v2)) v2 (\<lambda>(c, b2).
           (let v3 = v2\<lparr>hevc_dec_conf_record := c, vco_frame_rate := avg_frame_rate c,
                        NAL_unit_length := length_size_minus_one c\<rparr>
            in if NAL_unit_length v3 = 2 then (Inl ERROR_HEVC_DECODE_ERROR, v3)
               else with_res (read_1bytes b2) v3 (\<lambda>(numOfArrays, b3).
                 hvcc_arrays parse_sps (unat numOfArrays) b3
                   (hevc_dec_conf_record_update (nalu_vec_update (\<lambda>_. [])) v3)))))))"

section \<open>Slice headers\<close>

definition parse_hevc_nalu_type :: "u8 list \<Rightarrow> u8 res" where
  "parse_hevc_nalu_type sample = (case sample of [] \<Rightarrow> Inl ERROR_NALU_EMPTY | h # _ \<Rightarrow> Inr (SrsHevcNaluTypeParse h))"

definition parse_hevc_bframe :: "u8 list \<Rightarrow> SrsVideoCodecConfig \<Rightarrow> bool res" where
  "parse_hevc_bframe sample v =
     res_bind (parse_hevc_nalu_type sample) (\<lambda>nalu_type.
       if nalu_type > 9 then Inr False
       else res_bind (skip 2 (SrsBuffer_new sample)) (\<lambda>b.
            res_bind (read_bit (SrsBitBuffer_new b)) (\<lambda>(first_slice, s1).
            res_bind (read_bits_ue s1) (\<lambda>(i, s2).
              if i \<ge> 64 then Inl ERROR_HEVC_DECODE_ERROR
              else (let pps = the_pps (unat i) v in
                res_bind (if first_slice = 0 \<and> dependent_slice_segments_enabled_flag pps \<noteq> 0 then read_bit s2 else Inr (0, s2)) (\<lambda>(dep, s3).
                if dep \<noteq> 0 then Inl ERROR_HEVC_DECODE_ERROR
                else res_bind (((\<lambda>r. res_bind r (skip_bits 1)) ^^ unat (num_extra_slice_header_bits pps)) (Inr s3)) (\<lambda>s4.
                     res_bind (read_bits_ue s4) (\<lambda>(slice_type, _). Inr (slice_type = 0)))))))))"

section \<open>The parser that the raw stream uses\<close>

text \<open>\<open>SrsRawHEVCStream::mux_sequence_header\<close> parses VPS and SPS with a fresh \<open>SrsFormat\<close>.\<close>

definition hevc_conf_of :: "SrsVideoCodecConfig \<Rightarrow> u8 list \<Rightarrow> u8 list \<Rightarrow> HevcConf res" where
  "hevc_conf_of mem vps sps =
     (case and_then (hevc_demux_vps (SrsBuffer_new vps) (SrsVideoCodecConfig_new mem)) (hevc_demux_sps True (SrsBuffer_new sps)) of
        (Inl e, _) \<Rightarrow> Inl e
      | (Inr _, v) \<Rightarrow> Inr (HevcConf.truncate (hevc_dec_conf_record v)))"

end
