(* ===== verification/Kernel_Format.thy ===== *)
theory Kernel_Format
  imports Kernel_Hevc
begin

text \<open>
  \<open>SrsFormat\<close> of \<open>kernel/srs_kernel_packet.cpp\<close>: the parser of FLV audio and video packets that the live
  source runs on every packet pushed to it. It keeps the codec configuration of the last sequence headers
  and the samples of the last packet. The operations return their error and the state, which keeps the
  assignments made before an error. Enumerations are their values. \<open>mem\<close> is the memory in which a codec
  configuration is created.
\<close>

section \<open>State\<close>

record SrsAudioCodecConfig =
  aco_id :: u8
  aco_sound_rate :: u8
  aco_sound_size :: u8
  aco_sound_type :: u8
  aco_object :: u8
  aac_sample_rate :: u8
  aac_channels :: u8
  aac_extra_data :: "u8 list"

definition SrsAudioCodecConfig_new :: SrsAudioCodecConfig where
  "SrsAudioCodecConfig_new = \<lparr>aco_id = 16, aco_sound_rate = 0xff, aco_sound_size = 2, aco_sound_type = 2,
     aco_object = 0, aac_sample_rate = 15, aac_channels = 0, aac_extra_data = []\<rparr>"

definition is_aac_codec_ok :: "SrsAudioCodecConfig \<Rightarrow> bool" where
  "is_aac_codec_ok a \<longleftrightarrow> aac_extra_data a \<noteq> []"

record SrsParsedPacket =
  pp_dts :: int
  pp_cts :: u32
  pp_samples :: "u8 list list"

record SrsParsedAudioPacket = SrsParsedPacket +
  pap_aac_packet_type :: u8

record SrsParsedVideoPacket = SrsParsedPacket +
  pvp_frame_type :: u8
  pvp_avc_packet_type :: u8
  has_idr :: bool
  has_aud :: bool
  has_sps_pps :: bool
  first_nalu_type :: u8

definition SrsParsedAudioPacket_new :: SrsParsedAudioPacket where
  "SrsParsedAudioPacket_new = \<lparr>pp_dts = 0, pp_cts = 0, pp_samples = [], pap_aac_packet_type = 0xff\<rparr>"

definition SrsParsedVideoPacket_new :: SrsParsedVideoPacket where
  "SrsParsedVideoPacket_new = \<lparr>pp_dts = 0, pp_cts = 0, pp_samples = [], pvp_frame_type = 0,
     pvp_avc_packet_type = 6, has_idr = False, has_aud = False, has_sps_pps = False, first_nalu_type = 0\<rparr>"

record SrsFormat =
  fmt_audio :: "SrsParsedAudioPacket option"
  fmt_acodec :: "SrsAudioCodecConfig option"
  fmt_video :: "SrsParsedVideoPacket option"
  fmt_vcodec :: "SrsVideoCodecConfig option"
  fmt_raw :: "(u8 list \<times> int) option"
  avc_parse_sps :: bool
  try_annexb_first :: bool

definition SrsFormat_new :: SrsFormat where
  "SrsFormat_new = \<lparr>fmt_audio = None, fmt_acodec = None, fmt_video = None, fmt_vcodec = None, fmt_raw = None,
     avc_parse_sps = True, try_annexb_first = True\<rparr>"

definition fmt_initialize :: "SrsVideoCodecConfig \<Rightarrow> SrsFormat \<Rightarrow> SrsFormat" where
  "fmt_initialize mem f = (if fmt_vcodec f = None then f\<lparr>fmt_vcodec := Some (SrsVideoCodecConfig_new mem)\<rparr> else f)"

section \<open>Samples\<close>

definition SrsMaxNbSamples :: nat where "SrsMaxNbSamples = 256"

definition add_sample :: "frame_ptr \<Rightarrow> 'a SrsParsedPacket_scheme \<Rightarrow> unit res \<times> 'a SrsParsedPacket_scheme" where
  "add_sample s p =
     (if snd s \<le> 0 then (srs_success, p)
      else if length (pp_samples p) \<ge> SrsMaxNbSamples then (Inl ERROR_HLS_DECODE_ERROR, p)
      else with_res (frame_string s) p (\<lambda>d. (srs_success, p\<lparr>pp_samples := pp_samples p @ [d]\<rparr>)))"

definition SrsIsIRAP :: "u8 \<Rightarrow> bool" where
  "SrsIsIRAP t \<longleftrightarrow> 16 \<le> t \<and> t \<le> 23"

definition video_add_sample :: "SrsVideoCodecConfig \<Rightarrow> frame_ptr \<Rightarrow> SrsParsedVideoPacket \<Rightarrow> SrsParsedVideoPacket outcome" where
  "video_add_sample c s p0 =
     and_then (add_sample s p0) (\<lambda>p.
       if snd s \<le> 0 then (srs_success, p)
       else with_res (deref (fst s) 0) p (\<lambda>b0.
         if vco_id c = 12 then (srs_success, p\<lparr>has_idr := SrsIsIRAP (SrsHevcNaluTypeParse b0)\<rparr>)
         else (let t = b0 AND 0x1F;
                   p1 = (if t = 5 then p\<lparr>has_idr := True\<rparr>
                         else if t = 7 \<or> t = 8 then p\<lparr>has_sps_pps := True\<rparr>
                         else if t = 9 then p\<lparr>has_aud := True\<rparr> else p)
               in (srs_success, if first_nalu_type p1 = 0 then p1\<lparr>first_nalu_type := t\<rparr> else p1))))"

section \<open>The H.264 sequence header\<close>

fun read_sets :: "nat \<Rightarrow> SrsBuffer \<Rightarrow> u8 list \<Rightarrow> SrsBuffer res \<times> u8 list" where
  "read_sets 0 b s = (Inr b, s)"
| "read_sets (Suc n) b s =
     (if \<not> require 2 b then (Inl ERROR_HLS_DECODE_ERROR, s)
      else with_res (read_2bytes b) s (\<lambda>(len, b1).
        if \<not> require (uint len) b1 then (Inl ERROR_HLS_DECODE_ERROR, s)
        else if len > 0 then with_res (read_bytes (uint len) b1) s (\<lambda>(bs, b2). read_sets n b2 bs)
        else read_sets n b1 s))"

primrec avc_ue_suffix :: "nat \<Rightarrow> u32 \<Rightarrow> SrsBitBuffer \<Rightarrow> (u32 \<times> SrsBitBuffer) res" where
  "avc_ue_suffix 0 v s = Inr (v, s)"
| "avc_ue_suffix (Suc k) v s =
     (if bit_empty s then Inl ERROR_AVC_NALU_UEV
      else res_bind (read_bit s) (\<lambda>(x, t). avc_ue_suffix k (v + push_bit k (ucast x)) t))"

text \<open>The first loop of \<open>srs_avc_nalu_read_uev\<close> is that of \<open>read_bits_ue\<close>.\<close>

definition srs_avc_nalu_read_uev :: "SrsBitBuffer \<Rightarrow> (u32 \<times> SrsBitBuffer) res" where
  "srs_avc_nalu_read_uev s =
     (if bit_empty s then Inl ERROR_AVC_NALU_UEV
      else res_bind (ue_zeros (-1) 0 s) (\<lambda>(leadingZeroBits, t).
        if leadingZeroBits \<ge> 31 then Inl ERROR_AVC_NALU_UEV
        else avc_ue_suffix (nat leadingZeroBits) (push_bit (nat leadingZeroBits) 1 - 1) t))"

definition srs_avc_nalu_read_bit :: "SrsBitBuffer \<Rightarrow> (u8 \<times> SrsBitBuffer) res" where
  "srs_avc_nalu_read_bit s = (if bit_empty s then Inl ERROR_AVC_NALU_UEV else read_bit s)"

text \<open>Reads whose values are not used.\<close>

primrec skip_uevs :: "nat \<Rightarrow> SrsBitBuffer \<Rightarrow> SrsBitBuffer res" where
  "skip_uevs 0 s = Inr s"
| "skip_uevs (Suc n) s = res_bind (srs_avc_nalu_read_uev s) (\<lambda>(_, t). skip_uevs n t)"

primrec skip_flags :: "nat \<Rightarrow> SrsBitBuffer \<Rightarrow> SrsBitBuffer res" where
  "skip_flags 0 s = Inr s"
| "skip_flags (Suc n) s = res_bind (srs_avc_nalu_read_bit s) (\<lambda>(_, t). skip_flags n t)"

text \<open>The fields that only the high profiles have.\<close>

definition sps_chroma :: "u8 \<Rightarrow> SrsBitBuffer \<Rightarrow> SrsBitBuffer res" where
  "sps_chroma profile_idc s0 =
     (if profile_idc \<in> {100, 110, 122, 244, 44, 83, 86, 118, 128}
      then res_bind (srs_avc_nalu_read_uev s0) (\<lambda>(chroma_format_idc, s1).
           res_bind (skip_flags (if chroma_format_idc = 3 then 1 else 0) s1) (\<lambda>s2.
           res_bind (skip_uevs 2 s2) (\<lambda>s3.
           res_bind (skip_flags 1 s3) (\<lambda>s4.
           res_bind (srs_avc_nalu_read_bit s4) (\<lambda>(seq_scaling_matrix_present_flag, s5).
             if seq_scaling_matrix_present_flag \<noteq> 0
             then skip_flags (if chroma_format_idc \<noteq> 3 then 8 else 12) s5 else Inr s5)))))
      else Inr s0)"

definition sps_pic_order :: "SrsBitBuffer \<Rightarrow> SrsBitBuffer res" where
  "sps_pic_order s0 =
     res_bind (srs_avc_nalu_read_uev s0) (\<lambda>(pic_order_cnt_type, s1).
       if pic_order_cnt_type = 0 then skip_uevs 1 s1
       else if pic_order_cnt_type = 1
       then res_bind (skip_flags 1 s1) (\<lambda>s2.
            res_bind (skip_uevs 2 s2) (\<lambda>s3.
            res_bind (srs_avc_nalu_read_uev s3) (\<lambda>(num_ref_frames_in_pic_order_cnt_cycle, s4).
              if sint num_ref_frames_in_pic_order_cnt_cycle < 0 then Inl ERROR_HLS_DECODE_ERROR
              else skip_uevs (unat num_ref_frames_in_pic_order_cnt_cycle) s4)))
       else Inr s1)"

definition sps_crop :: "SrsBitBuffer \<Rightarrow> ((u32 \<times> u32 \<times> u32 \<times> u32) \<times> SrsBitBuffer) res" where
  "sps_crop s0 =
     res_bind (srs_avc_nalu_read_bit s0) (\<lambda>(frame_cropping_flag, s1).
       if frame_cropping_flag \<noteq> 0
       then res_bind (srs_avc_nalu_read_uev s1) (\<lambda>(l, s2).
            res_bind (srs_avc_nalu_read_uev s2) (\<lambda>(r, s3).
            res_bind (srs_avc_nalu_read_uev s3) (\<lambda>(t, s4).
            res_bind (srs_avc_nalu_read_uev s4) (\<lambda>(m, s5). Inr ((l, r, t, m), s5)))))
       else Inr ((0, 0, 0, 0), s1))"

text \<open>The bits of the SPS from \<open>seq_parameter_set_id\<close> on: width and height of the picture.\<close>

definition sps_size :: "u8 \<Rightarrow> SrsBitBuffer \<Rightarrow> (u32 \<times> u32) res" where
  "sps_size profile_idc s0 =
     res_bind (srs_avc_nalu_read_uev s0) (\<lambda>(seq_parameter_set_id, s1).
       if sint seq_parameter_set_id < 0 then Inl ERROR_HLS_DECODE_ERROR
       else
       res_bind (sps_chroma profile_idc s1) (\<lambda>s2.
       res_bind (skip_uevs 1 s2) (\<lambda>s3.
       res_bind (sps_pic_order s3) (\<lambda>s4.
       res_bind (skip_uevs 1 s4) (\<lambda>s5.
       res_bind (skip_flags 1 s5) (\<lambda>s6.
       res_bind (srs_avc_nalu_read_uev s6) (\<lambda>(pic_width_in_mbs_minus1, s7).
       res_bind (srs_avc_nalu_read_uev s7) (\<lambda>(pic_height_in_map_units_minus1, s8).
       res_bind (srs_avc_nalu_read_bit s8) (\<lambda>(frame_mbs_only_flag, s9).
       res_bind (skip_flags (if frame_mbs_only_flag = 0 then 1 else 0) s9) (\<lambda>s10.
       res_bind (skip_flags 1 s10) (\<lambda>s11.
       res_bind (sps_crop s11) (\<lambda>((l, r, t, m), s12).
       res_bind (skip_flags 1 s12) (\<lambda>s13.
         Inr ((pic_width_in_mbs_minus1 + 1) * 16 - l * 2 - r * 2,
              (2 - ucast frame_mbs_only_flag) * (pic_height_in_map_units_minus1 + 1) * 16 - t * 2 - m * 2))))))))))))))"

definition avc_demux_sps_rbsp :: "bool \<Rightarrow> u8 list \<Rightarrow> SrsVideoCodecConfig \<Rightarrow> SrsVideoCodecConfig outcome" where
  "avc_demux_sps_rbsp parse_sps rbsp v =
     (if \<not> parse_sps then (srs_success, v)
      else (let b0 = SrsBuffer_new rbsp in
        if \<not> require 3 b0 then (Inl ERROR_HLS_DECODE_ERROR, v)
        else with_res (read_1bytes b0) v (\<lambda>(profile_idc, b1).
          if profile_idc = 0 then (Inl ERROR_HLS_DECODE_ERROR, v)
          else with_res (read_1bytes b1) v (\<lambda>(flags, b2).
            if flags AND 0x03 \<noteq> 0 then (Inl ERROR_HLS_DECODE_ERROR, v)
            else with_res (read_1bytes b2) v (\<lambda>(level_idc, b3).
              if level_idc = 0 then (Inl ERROR_HLS_DECODE_ERROR, v)
              else with_res (sps_size profile_idc (SrsBitBuffer_new b3)) v (\<lambda>(w, h).
                (srs_success, v\<lparr>vco_width := w, vco_height := h\<rparr>)))))))"

definition avc_demux_sps :: "bool \<Rightarrow> SrsVideoCodecConfig \<Rightarrow> SrsVideoCodecConfig outcome" where
  "avc_demux_sps parse_sps v =
     (if sequenceParameterSetNALUnit v = [] then (srs_success, v)
      else (let b0 = SrsBuffer_new (sequenceParameterSetNALUnit v) in
        if \<not> require 1 b0 then (Inl ERROR_HLS_DECODE_ERROR, v)
        else with_res (read_1bytes b0) v (\<lambda>(nutv, b1).
          if drop_bit 7 nutv AND 0x01 \<noteq> 0 then (Inl ERROR_HLS_DECODE_ERROR, v)
          else if drop_bit 5 nutv AND 0x03 = 0 then (Inl ERROR_HLS_DECODE_ERROR, v)
          else if nutv AND 0x1F \<noteq> 7 then (Inl ERROR_HLS_DECODE_ERROR, v)
          else with_res (srs_rbsp_remove_emulation_bytes b1) v (\<lambda>rbsp.
            avc_demux_sps_rbsp parse_sps rbsp v))))"

text \<open>The picture parameter sets of \<open>avc_demux_sps_pps\<close>.\<close>

definition demux_pps :: "bool \<Rightarrow> SrsBuffer \<Rightarrow> SrsVideoCodecConfig \<Rightarrow> SrsVideoCodecConfig outcome" where
  "demux_pps parse_sps b0 v0 =
     (if \<not> require 1 b0 then (Inl ERROR_HLS_DECODE_ERROR, v0)
      else with_res (read_1bytes b0) v0 (\<lambda>(n, b1).
        if n AND 0x1f = 0 then (Inl ERROR_HLS_DECODE_ERROR, v0)
        else (let (r, pps) = read_sets (unat (n AND 0x1f)) b1 (pictureParameterSetNALUnit v0);
                  v = v0\<lparr>pictureParameterSetNALUnit := pps\<rparr>
              in with_res r v (\<lambda>b2. avc_demux_sps parse_sps v))))"

definition demux_sps :: "bool \<Rightarrow> SrsBuffer \<Rightarrow> SrsVideoCodecConfig \<Rightarrow> SrsVideoCodecConfig outcome" where
  "demux_sps parse_sps b0 v0 =
     (if \<not> require 1 b0 then (Inl ERROR_HLS_DECODE_ERROR, v0)
      else with_res (read_1bytes b0) v0 (\<lambda>(n, b1).
        if n AND 0x1f = 0 then (Inl ERROR_HLS_DECODE_ERROR, v0)
        else (let (r, sps) = read_sets (unat (n AND 0x1f)) b1 (sequenceParameterSetNALUnit v0);
                  v = v0\<lparr>sequenceParameterSetNALUnit := sps\<rparr>
              in with_res r v (\<lambda>b2. demux_pps parse_sps b2 v))))"

definition avc_demux_sps_pps :: "bool \<Rightarrow> SrsBuffer \<Rightarrow> SrsVideoCodecConfig \<Rightarrow> SrsVideoCodecConfig outcome" where
  "avc_demux_sps_pps parse_sps b0 v0 =
     (let v1 = (if left b0 > 0 then v0\<lparr>avc_extra_data := remaining b0\<rparr> else v0) in
      if \<not> require 6 b0 then (Inl ERROR_HLS_DECODE_ERROR, v1)
      else with_res (read_1bytes b0) v1 (\<lambda>(_, b1).
           with_res (read_1bytes b1) v1 (\<lambda>(profile, b2).
           (let v2 = v1\<lparr>avc_profile := profile\<rparr> in
            with_res (read_1bytes b2) v2 (\<lambda>(_, b3).
            with_res (read_1bytes b3) v2 (\<lambda>(level, b4).
            (let v3 = v2\<lparr>avc_level := level\<rparr> in
             with_res (read_1bytes b4) v3 (\<lambda>(lengthSizeMinusOne, b5).
             (let v4 = v3\<lparr>NAL_unit_length := lengthSizeMinusOne AND 0x03\<rparr> in
              if NAL_unit_length v4 = 2 then (Inl ERROR_HLS_DECODE_ERROR, v4)
              else demux_sps parse_sps b5 v4)))))))))"

section \<open>Video packets\<close>

lemma annexb_loop_ge: "annexb_loop b k = Inr (Some n) \<Longrightarrow> k + 3 \<le> n"
proof (induction b k rule: annexb_loop.induct)
  case (1 b k)
  then show ?case by (subst (asm) annexb_loop.simps) (force simp: res_bind_Inr_iff split: if_splits)
qed

lemma find_annexb_mono: "find_annexb b = Inr b' \<Longrightarrow> buf_p b \<le> buf_p b' \<and> buf_nb b' = buf_nb b"
proof (induction b rule: find_annexb.induct)
  case (1 b)
  then show ?case by (subst (asm) (2) find_annexb.simps) (force simp: res_bind_Inr_iff skip_def split: if_splits)
qed

lemma skip_Inr: "skip n b = Inr b' \<Longrightarrow> buf_p b' = buf_p b + n \<and> buf_nb b' = buf_nb b"
  by (auto simp: skip_def split: if_splits)

text \<open>The loop of \<open>do_avc_demux_annexb_format\<close>; the state is the packet and the buffer.\<close>

function annexb_samples ::
    "SrsVideoCodecConfig \<Rightarrow> SrsBuffer \<Rightarrow> SrsParsedVideoPacket \<Rightarrow> (SrsParsedVideoPacket \<times> SrsBuffer) outcome" where
  "annexb_samples c b p =
     (if buf_empty b then (srs_success, p, b)
      else (case srs_avc_startswith_annexb b of
          Inl e \<Rightarrow> (Inl e, p, b)
        | Inr None \<Rightarrow> (srs_success, p, b)
        | Inr (Some nb_start_code) \<Rightarrow>
            (case skip nb_start_code b of
               Inl e \<Rightarrow> (Inl e, p, b)
             | Inr b1 \<Rightarrow>
                 (case find_annexb b1 of
                    Inl e \<Rightarrow> (Inl e, p, b1)
                  | Inr b2 \<Rightarrow>
                      (if pos b2 - pos b1 \<le> 0 then annexb_samples c b2 p
                       else (case video_add_sample c (remaining b1, pos b2 - pos b1) p of
                               (Inl e, p') \<Rightarrow> (Inl e, p', b2)
                             | (Inr _, p') \<Rightarrow> annexb_samples c b2 p'))))))"
  by pat_completeness auto
termination
  by (relation "measure (\<lambda>(c, b, p). nat (buf_nb b - buf_p b))")
    (force simp: srs_avc_startswith_annexb_def buf_empty_def dest: annexb_loop_ge skip_Inr find_annexb_mono)+

declare annexb_samples.simps [simp del]

definition do_avc_demux_annexb_format ::
    "SrsVideoCodecConfig \<Rightarrow> SrsBuffer \<Rightarrow> SrsParsedVideoPacket \<Rightarrow> (SrsParsedVideoPacket \<times> SrsBuffer) outcome" where
  "do_avc_demux_annexb_format c b p =
     with_res (srs_avc_startswith_annexb b) (p, b) (\<lambda>m.
       if m = None then (Inl ERROR_HLS_DECODE_ERROR, p, b) else annexb_samples c b p)"

text \<open>\<open>NALUnitLength\<close>, read with the sign of its width.\<close>

definition read_nalu_length :: "u8 \<Rightarrow> SrsBuffer \<Rightarrow> (int \<times> SrsBuffer) res" where
  "read_nalu_length nul b =
     (if nul = 3 then res_bind (read_4bytes b) (\<lambda>(n, b'). Inr (sint n, b'))
      else if nul = 1 then res_bind (read_2bytes b) (\<lambda>(n, b'). Inr (sint n, b'))
      else res_bind (read_1bytes b) (\<lambda>(n, b'). Inr (sint n, b')))"

lemma nalu_progress: "\<not> n < 0 \<Longrightarrow> - n - uint (k :: u8) < 1"
  using uint_nonnegative [of k] by linarith

function ibmf_samples ::
    "SrsVideoCodecConfig \<Rightarrow> int \<Rightarrow> int \<Rightarrow> SrsBuffer \<Rightarrow> SrsParsedVideoPacket \<Rightarrow> (SrsParsedVideoPacket \<times> SrsBuffer) outcome" where
  "ibmf_samples c PictureLength i b p =
     (if i < PictureLength
      then (if \<not> require (uint (NAL_unit_length c) + 1) b then (Inl ERROR_HLS_DECODE_ERROR, p, b)
            else (case read_nalu_length (NAL_unit_length c) b of
                Inl e \<Rightarrow> (Inl e, p, b)
              | Inr (NALUnitLength, b1) \<Rightarrow>
                  (if NALUnitLength < 0 then (Inl ERROR_HLS_DECODE_ERROR, p, b1)
                   else if \<not> require NALUnitLength b1 then (Inl ERROR_HLS_DECODE_ERROR, p, b1)
                   else (case video_add_sample c (remaining b1, NALUnitLength) p of
                           (Inl e, p') \<Rightarrow> (Inl e, p', b1)
                         | (Inr _, p') \<Rightarrow>
                             (case skip NALUnitLength b1 of
                                Inl e \<Rightarrow> (Inl e, p', b1)
                              | Inr b2 \<Rightarrow>
                                  ibmf_samples c PictureLength (i + uint (NAL_unit_length c) + 1 + NALUnitLength) b2 p')))))
      else (srs_success, p, b))"
  by pat_completeness auto
termination
  by (relation "measure (\<lambda>(c, n, i, b, p). nat (n - i))") (auto intro: nalu_progress)

declare ibmf_samples.simps [simp del]

definition do_avc_demux_ibmf_format ::
    "SrsVideoCodecConfig \<Rightarrow> SrsBuffer \<Rightarrow> SrsParsedVideoPacket \<Rightarrow> (SrsParsedVideoPacket \<times> SrsBuffer) outcome" where
  "do_avc_demux_ibmf_format c b p =
     (if NAL_unit_length c = 2 then (Inl ASSERT_FAILED, p, b) else ibmf_samples c (left b) 0 b p)"

text \<open>\<open>avc_demux_annexb_format\<close> and \<open>avc_demux_ibmf_format\<close>: on an error the cursor goes back, the samples stay.\<close>

definition restoring ::
    "(SrsBuffer \<Rightarrow> SrsParsedVideoPacket \<Rightarrow> (SrsParsedVideoPacket \<times> SrsBuffer) outcome) \<Rightarrow> SrsBuffer \<Rightarrow>
      SrsParsedVideoPacket \<Rightarrow> (SrsParsedVideoPacket \<times> SrsBuffer) outcome" where
  "restoring demux b p =
     (case demux b p of
        (Inr u, q) \<Rightarrow> (Inr u, q)
      | (Inl e, p', b') \<Rightarrow>
          (case skip (pos b - pos b') b' of Inl e' \<Rightarrow> (Inl e', p', b') | Inr b'' \<Rightarrow> (Inl e, p', b'')))"

definition avc_demux_annexb_format ::
    "SrsVideoCodecConfig \<Rightarrow> SrsBuffer \<Rightarrow> SrsParsedVideoPacket \<Rightarrow> (SrsParsedVideoPacket \<times> SrsBuffer) outcome" where
  "avc_demux_annexb_format c = restoring (do_avc_demux_annexb_format c)"

definition avc_demux_ibmf_format ::
    "SrsVideoCodecConfig \<Rightarrow> SrsBuffer \<Rightarrow> SrsParsedVideoPacket \<Rightarrow> (SrsParsedVideoPacket \<times> SrsBuffer) outcome" where
  "avc_demux_ibmf_format c = restoring (do_avc_demux_ibmf_format c)"

definition video_nalu_demux ::
    "bool \<Rightarrow> SrsBuffer \<Rightarrow> SrsVideoCodecConfig \<times> SrsParsedVideoPacket \<Rightarrow> (SrsVideoCodecConfig \<times> SrsParsedVideoPacket) outcome" where
  "video_nalu_demux annexb_first b vp =
     (let (c, p) = vp;
          try = (\<lambda>annexb b p. if annexb then avc_demux_annexb_format c b p else avc_demux_ibmf_format c b p);
          done = (\<lambda>r. (fst r, c, fst (snd r)));
          fmt = (\<lambda>annexb. if annexb then SrsAvcPayloadFormatAnnexb else SrsAvcPayloadFormatIbmf)
      in if \<not> is_avc_codec_ok c then (srs_success, c, p)
         else if vco_id c = 12 then done (do_avc_demux_ibmf_format c b p)
         else case payload_format c of
           SrsAvcPayloadFormatIbmf \<Rightarrow> done (try False b p)
         | SrsAvcPayloadFormatAnnexb \<Rightarrow> done (try True b p)
         | SrsAvcPayloadFormatGuess \<Rightarrow>
             (case try annexb_first b p of
                (Inr _, p1, _) \<Rightarrow> (srs_success, c\<lparr>payload_format := fmt annexb_first\<rparr>, p1)
              | (Inl _, p1, b1) \<Rightarrow>
                  (case try (\<not> annexb_first) b1 p1 of
                     (Inr _, p2, _) \<Rightarrow> (srs_success, c\<lparr>payload_format := fmt (\<not> annexb_first)\<rparr>, p2)
                   | (Inl e, p2, _) \<Rightarrow> (Inl e, c, p2))))"

definition video_initialize :: "SrsParsedVideoPacket \<Rightarrow> SrsParsedVideoPacket" where
  "video_initialize p = p\<lparr>first_nalu_type := 0, has_idr := False, has_sps_pps := False, has_aud := False,
     pp_samples := [], pp_dts := 0, pp_cts := 0\<rparr>"

text \<open>The first byte, and the four-character code of an extended header: frame type, codec, packet type.\<close>

definition video_header :: "SrsBuffer \<Rightarrow> (bool \<times> u8 \<times> u8 \<times> u8 \<times> SrsBuffer) res" where
  "video_header b0 =
     (if \<not> require 1 b0 then Inl ERROR_HLS_DECODE_ERROR
      else res_bind (read_1bytes b0) (\<lambda>(x, b1).
        if x AND 0x80 = 0 then Inr (False, drop_bit 4 x AND 0x0f, x AND 0x0f, 6, b1)
        else if \<not> require 4 b1 then Inl ERROR_HLS_DECODE_ERROR
        else res_bind (read_4bytes b1) (\<lambda>(four_cc, b2).
          Inr (True, drop_bit 4 x AND 0x07, if four_cc = 0x68766331 then 12 else 0, x AND 0x0f, b2))))"

text \<open>Packet type and composition time.\<close>

definition video_times :: "bool \<Rightarrow> u8 \<Rightarrow> SrsBuffer \<Rightarrow> (u8 \<times> u32 \<times> SrsBuffer) res" where
  "video_times ext packet_type b0 =
     (if \<not> ext
      then (if \<not> require 4 b0 then Inl ERROR_HLS_DECODE_ERROR
            else res_bind (read_1bytes b0) (\<lambda>(t, b1).
                 res_bind (read_3bytes b1) (\<lambda>(cts, b2). Inr (t, cts, b2))))
      else if packet_type = 1
      then (if \<not> require 3 b0 then Inl ERROR_HLS_DECODE_ERROR
            else res_bind (read_3bytes b0) (\<lambda>(cts, b1). Inr (packet_type, cts, b1)))
      else Inr (packet_type, 0, b0))"

text \<open>The body of a packet, by codec and packet type.\<close>

definition video_body ::
    "bool \<Rightarrow> bool \<Rightarrow> u8 \<Rightarrow> SrsBuffer \<Rightarrow>
      SrsVideoCodecConfig \<times> SrsParsedVideoPacket \<Rightarrow> (SrsVideoCodecConfig \<times> SrsParsedVideoPacket) outcome" where
  "video_body parse_sps annexb_first packet_type b vp =
     (let (c, p) = vp in
      if vco_id c = 12
      then (if packet_type = 0 then (case hevc_demux_hvcc parse_sps b c of (r, c') \<Rightarrow> (r, c', p))
            else if packet_type = 1 \<or> packet_type = 3 then video_nalu_demux annexb_first b vp
            else (srs_success, vp))
      else if packet_type = 0 then (case avc_demux_sps_pps parse_sps b c of (r, c') \<Rightarrow> (r, c', p))
      else if packet_type = 1 then video_nalu_demux annexb_first b vp
      else (srs_success, vp))"

definition video_avc_demux ::
    "SrsVideoCodecConfig \<Rightarrow> SrsBuffer \<Rightarrow> int \<Rightarrow> SrsFormat \<Rightarrow> SrsFormat outcome" where
  "video_avc_demux mem b0 timestamp f0 =
     with_res (video_header b0) f0 (\<lambda>(ext, frame_type, codec_id, packet_type0, b1).
       (let c0 = (case fmt_vcodec f0 of None \<Rightarrow> SrsVideoCodecConfig_new mem | Some c \<Rightarrow> c);
            p0 = (case fmt_video f0 of None \<Rightarrow> SrsParsedVideoPacket_new | Some p \<Rightarrow> p);
            p1 = (video_initialize p0)\<lparr>pvp_frame_type := frame_type\<rparr>;
            f1 = f0\<lparr>fmt_vcodec := Some c0, fmt_video := Some p1\<rparr>
        in if frame_type = 5 then (srs_success, f1)
           else if \<not> (codec_id = 7 \<or> codec_id = 12) then (Inl ERROR_HLS_DECODE_ERROR, f1)
           else (let c1 = c0\<lparr>vco_id := codec_id\<rparr>; f2 = f1\<lparr>fmt_vcodec := Some c1\<rparr> in
             with_res (video_times ext packet_type0 b1) f2 (\<lambda>(packet_type, composition_time, b2).
               (let p2 = p1\<lparr>pp_dts := timestamp, pp_cts := composition_time, pvp_avc_packet_type := packet_type\<rparr>;
                    r = video_body (avc_parse_sps f2) (try_annexb_first f2) packet_type b2 (c1, p2)
                in (fst r, f2\<lparr>fmt_raw := Some (remaining b2, left b2), fmt_vcodec := Some (fst (snd r)),
                              fmt_video := Some (snd (snd r))\<rparr>))))))"

definition on_video ::
    "SrsVideoCodecConfig \<Rightarrow> int \<Rightarrow> u8 list \<Rightarrow> SrsFormat \<Rightarrow> SrsFormat outcome" where
  "on_video mem timestamp data f =
     (if data = [] then (srs_success, f) else video_avc_demux mem (SrsBuffer_new data) timestamp f)"

definition is_avc_sequence_header :: "SrsFormat \<Rightarrow> bool" where
  "is_avc_sequence_header f \<longleftrightarrow>
     (case (fmt_vcodec f, fmt_video f) of
        (Some c, Some p) \<Rightarrow> vco_id c \<in> {7, 12, 13} \<and> pvp_avc_packet_type p = 0
      | _ \<Rightarrow> False)"

section \<open>Audio packets\<close>

definition audio_initialize :: "SrsParsedAudioPacket \<Rightarrow> SrsParsedAudioPacket" where
  "audio_initialize p = p\<lparr>pp_samples := [], pp_dts := 0, pp_cts := 0\<rparr>"

definition audio_aac_sequence_header_demux :: "u8 list \<Rightarrow> SrsAudioCodecConfig \<Rightarrow> SrsAudioCodecConfig outcome" where
  "audio_aac_sequence_header_demux data a0 =
     (let b0 = SrsBuffer_new data in
      if \<not> require 2 b0 then (Inl ERROR_HLS_DECODE_ERROR, a0)
      else with_res (read_1bytes b0) a0 (\<lambda>(x, b1).
           with_res (read_1bytes b1) a0 (\<lambda>(y, b2).
           (let object_type = drop_bit 3 x AND 0x1f;
                a = a0\<lparr>aac_channels := drop_bit 3 y AND 0x0f,
                       aac_sample_rate := (push_bit 1 x AND 0x0e) OR (drop_bit 7 y AND 0x01),
                       aco_object := object_type\<rparr>
            in if object_type = 0 then (Inl ERROR_HLS_DECODE_ERROR, a) else (srs_success, a)))))"

text \<open>The header byte of an FLV audio packet.\<close>

definition sound_header :: "u8 \<Rightarrow> SrsAudioCodecConfig \<Rightarrow> SrsAudioCodecConfig" where
  "sound_header x a = a\<lparr>aco_id := drop_bit 4 x AND 0x0f, aco_sound_type := x AND 0x01,
     aco_sound_rate := drop_bit 2 x AND 0x03, aco_sound_size := drop_bit 1 x AND 0x01\<rparr>"

definition srs_aac_srates :: "nat list" where
  "srs_aac_srates = [96000, 88200, 64000, 48000, 44100, 32000, 24000, 22050, 16000, 12000, 11025, 8000, 7350, 0, 0, 0]"

text \<open>The end of \<open>audio_aac_demux\<close>: the sample rate of the sequence header replaces that of the packet.\<close>

definition reset_sound_rate :: "SrsAudioCodecConfig \<Rightarrow> SrsAudioCodecConfig res" where
  "reset_sound_rate a =
     (if aac_sample_rate a = 15 then Inr a
      else if unat (aac_sample_rate a) \<ge> length srs_aac_srates then Inl UNDEFINED_READ
      else (let r = srs_aac_srates ! unat (aac_sample_rate a) in
            Inr (if r = 11025 then a\<lparr>aco_sound_rate := 1\<rparr> else if r = 22050 then a\<lparr>aco_sound_rate := 2\<rparr>
                 else if r = 44100 then a\<lparr>aco_sound_rate := 3\<rparr> else a)))"

text \<open>Below, the state is the codec configuration, the packet and the raw data.\<close>

type_synonym audio_state = "SrsAudioCodecConfig \<times> SrsParsedAudioPacket \<times> (u8 list \<times> int) option"

definition aac_body :: "SrsBuffer \<Rightarrow> u8 \<Rightarrow> audio_state \<Rightarrow> bool \<times> audio_state outcome" where
  "aac_body b packet_type st =
     (let (a, p, raw) = st in
      if packet_type = 0
      then (True, if left b > 0
                  then (case audio_aac_sequence_header_demux (remaining b) (a\<lparr>aac_extra_data := remaining b\<rparr>) of
                          (r, a') \<Rightarrow> (r, a', p, raw))
                  else (srs_success, st))
      else if packet_type = 1
      then (if \<not> is_aac_codec_ok a then (False, srs_success, st)
            else (True, case add_sample (remaining b, left b) p of (r, p') \<Rightarrow> (r, a, p', raw)))
      else (True, srs_success, st))"

definition audio_aac_demux :: "SrsBuffer \<Rightarrow> int \<Rightarrow> audio_state \<Rightarrow> audio_state outcome" where
  "audio_aac_demux b0 timestamp st0 =
     (let (a0, p0, raw0) = st0; p1 = p0\<lparr>pp_cts := 0, pp_dts := timestamp\<rparr> in
      with_res (read_1bytes b0) (a0, p1, raw0) (\<lambda>(x, b1).
        (let a1 = sound_header x a0 in
         if aco_id a1 = 2 then (Inl ERROR_HLS_TRY_MP3, a1, p1, raw0)
         else if aco_id a1 \<noteq> 10 then (Inl ERROR_HLS_DECODE_ERROR, a1, p1, raw0)
         else if \<not> require 1 b1 then (Inl ERROR_HLS_DECODE_ERROR, a1, p1, raw0)
         else with_res (read_1bytes b1) (a1, p1, raw0) (\<lambda>(packet_type, b2).
           (let p2 = p1\<lparr>pap_aac_packet_type := packet_type\<rparr>;
                (go, r) = aac_body b2 packet_type (a1, p2, Some (remaining b2, left b2))
            in if \<not> go then r
               else and_then r (\<lambda>(a, p, raw). with_res (reset_sound_rate a) (a, p, raw) (\<lambda>a'. (srs_success, a', p, raw))))))))"

definition audio_mp3_demux :: "SrsBuffer \<Rightarrow> int \<Rightarrow> bool \<Rightarrow> audio_state \<Rightarrow> audio_state outcome" where
  "audio_mp3_demux b0 timestamp fresh st0 =
     (let (a0, p0, raw0) = st0;
          p1 = p0\<lparr>pp_cts := 0, pp_dts := timestamp, pap_aac_packet_type := if fresh then 63 else 64\<rparr>
      in with_res (read_1bytes b0) (a0, p1, raw0) (\<lambda>(x, b1).
           (let a1 = sound_header x a0; raw = Some (remaining b1, left b1) in
            if aco_id a1 \<noteq> 2 then (Inl ASSERT_FAILED, a1, p1, raw0)
            else (case add_sample (remaining b1, left b1) p1 of (r, p2) \<Rightarrow> (r, a1, p2, raw)))))"

definition on_audio :: "int \<Rightarrow> u8 list \<Rightarrow> SrsFormat \<Rightarrow> SrsFormat outcome" where
  "on_audio timestamp data f =
     (if data = [] then (srs_success, f)
      else (let b = SrsBuffer_new data in
        with_res (read_1bytes b) f (\<lambda>(v, _).
          (let codec_id = drop_bit 4 v AND 0x0f in
           if codec_id \<noteq> 2 \<and> codec_id \<noteq> 10 \<and> codec_id \<noteq> 13 then (Inl ERROR_RTC_RTP_MUXER, f)
           else (let fresh = (fmt_acodec f = None);
                     a = (case fmt_acodec f of None \<Rightarrow> SrsAudioCodecConfig_new | Some a \<Rightarrow> a);
                     p = audio_initialize (case fmt_audio f of None \<Rightarrow> SrsParsedAudioPacket_new | Some p \<Rightarrow> p);
                     st = (a, p, fmt_raw f);
                     r = (if codec_id = 2 then audio_mp3_demux b timestamp fresh st
                          else if codec_id = 10 then audio_aac_demux b timestamp st
                          else (Inl ERROR_NOT_IMPLEMENTED, st))
                 in case r of (e, a', p', raw') \<Rightarrow>
                      (e, f\<lparr>fmt_acodec := Some a', fmt_audio := Some p', fmt_raw := raw'\<rparr>))))))"

definition on_aac_sequence_header :: "u8 list \<Rightarrow> SrsFormat \<Rightarrow> SrsFormat outcome" where
  "on_aac_sequence_header data f =
     (let a = (case fmt_acodec f of None \<Rightarrow> SrsAudioCodecConfig_new | Some a \<Rightarrow> a);
          p = audio_initialize (case fmt_audio f of None \<Rightarrow> SrsParsedAudioPacket_new | Some p \<Rightarrow> p)
      in case audio_aac_sequence_header_demux data a of
           (e, a') \<Rightarrow> (e, f\<lparr>fmt_acodec := Some a', fmt_audio := Some p\<rparr>))"

definition is_aac_sequence_header :: "SrsFormat \<Rightarrow> bool" where
  "is_aac_sequence_header f \<longleftrightarrow>
     (case (fmt_acodec f, fmt_audio f) of
        (Some a, Some p) \<Rightarrow> aco_id a = 10 \<and> pap_aac_packet_type p = 0
      | _ \<Rightarrow> False)"

definition is_mp3_sequence_header :: "SrsFormat \<Rightarrow> bool" where
  "is_mp3_sequence_header f \<longleftrightarrow>
     (case (fmt_acodec f, fmt_audio f) of
        (Some a, Some p) \<Rightarrow> aco_id a = 2 \<and> pap_aac_packet_type p = 63
      | _ \<Rightarrow> False)"

end
