(* ===== verification/Ts_Crc.thy ===== *)
theory Ts_Crc
  imports Srs_Prelude
begin

text \<open>
  The table-driven CRC-32 of \<open>kernel/srs_kernel_ts.cpp\<close> that protects the PSI sections of a transport
  stream. It computes in 64-bit registers; the reference is the 32-bit shift register of the
  standard, bit by bit.
\<close>

section \<open>The code\<close>

primrec crc32_reflect_loop :: "nat \<Rightarrow> u64 \<Rightarrow> u64 \<Rightarrow> u64" where
  "crc32_reflect_loop 0 data res = res"
| "crc32_reflect_loop (Suc n) data res =
     (let data' = drop_bit 1 data in crc32_reflect_loop n data' (push_bit 1 res OR (data' AND 0x01)))"

definition crc32_reflect :: "u64 \<Rightarrow> nat \<Rightarrow> u64" where
  "crc32_reflect data width = crc32_reflect_loop (width - 1) data (data AND 0x01)"

definition crc32_make_entry :: "u32 \<Rightarrow> bool \<Rightarrow> nat \<Rightarrow> u32" where
  "crc32_make_entry poly reflect_in i =
     (let reg = of_nat i :: u64;
          reg = (if reflect_in then crc32_reflect reg 8 else reg);
          reg = push_bit 24 reg;
          reg = ((\<lambda>reg. if reg AND 0x80000000 \<noteq> 0 then push_bit 1 reg XOR ucast poly else push_bit 1 reg) ^^ 8) reg;
          reg = (if reflect_in then crc32_reflect reg 32 else reg)
      in ucast (reg AND 0xffffffff))"

definition crc32_make_table :: "u32 \<Rightarrow> bool \<Rightarrow> u32 list" where
  "crc32_make_table poly reflect_in = map (crc32_make_entry poly reflect_in) [0..<256]"

definition crc32_table_driven :: "u32 list \<Rightarrow> u8 list \<Rightarrow> u32 \<Rightarrow> bool \<Rightarrow> u32 \<Rightarrow> bool \<Rightarrow> u32 \<Rightarrow> u32" where
  "crc32_table_driven t p previous reflect_in xor_in reflect_out xor_out =
     (let reg =
            (if \<not> reflect_in
             then fold (\<lambda>v reg. let tblidx = (ucast (drop_bit 24 reg XOR ucast v) :: u8)
                                in ucast (t ! unat tblidx) XOR push_bit 8 reg) p (ucast xor_in :: u64)
             else crc32_reflect
               (fold (\<lambda>v reg. let tblidx = (ucast (reg XOR ucast v) :: u8)
                              in ucast (t ! unat tblidx) XOR drop_bit 8 reg) p
                  (ucast previous XOR crc32_reflect (ucast xor_in) 32)) 32);
          reg = (if reflect_out then crc32_reflect reg 32 else reg);
          reg = reg XOR ucast xor_out
      in ucast (reg AND 0xffffffff))"

definition srs_crc32_mpegts :: "u8 list \<Rightarrow> u32" where
  "srs_crc32_mpegts buf =
     crc32_table_driven (crc32_make_table 0x04C11DB7 False) buf 0x00 False 0xffffffff False 0x0"

section \<open>The shift register\<close>

text \<open>One bit of the division by the polynomial, and one byte.\<close>

definition crc_shift :: "u32 \<Rightarrow> u32" where
  "crc_shift r = (if bit r 31 then push_bit 1 r XOR 0x04C11DB7 else push_bit 1 r)"

definition crc_byte :: "u8 \<Rightarrow> u32 \<Rightarrow> u32" where
  "crc_byte v r = (crc_shift ^^ 8) (r XOR push_bit 24 (ucast v))"

definition crc_reference :: "u8 list \<Rightarrow> u32" where
  "crc_reference p = fold crc_byte p 0xffffffff"

lemma crc_shift_alt: "crc_shift r = push_bit 1 r XOR (if bit r 31 then 0x04C11DB7 else 0)"
  by (simp add: crc_shift_def)

lemma crc_shift_xor: "crc_shift (a XOR b) = crc_shift a XOR crc_shift b"
  by (simp add: crc_shift_alt push_bit_xor bit_xor_iff ac_simps)

lemma crc_shifts_xor: "(crc_shift ^^ n) (a XOR b) = (crc_shift ^^ n) a XOR (crc_shift ^^ n) b"
  by (induction n) (simp_all add: crc_shift_xor)

text \<open>While no bit reaches the top, the register only shifts.\<close>

lemma crc_shifts_low:
  assumes "\<And>i. 32 \<le> i + n \<Longrightarrow> \<not> bit r i"
  shows "(crc_shift ^^ n) r = push_bit n r"
  using assms
proof (induction n)
  case (Suc n)
  have "(crc_shift ^^ n) r = push_bit n r" using Suc by simp
  moreover have "\<not> bit (push_bit n r) 31" using Suc.prems [of "31 - n"] by (auto simp: bit_push_bit_iff)
  ultimately show ?case unfolding funpow.simps comp_def by (simp add: crc_shift_def push_bit_push_bit del: push_bit_of_1)
qed simp

text \<open>The shift is reversible: the lowest bit of its result is the bit that fell out at the top.\<close>

lemma crc_shift_bit0: "bit (crc_shift r) 0 \<longleftrightarrow> bit r 31"
proof -
  have "bit (0x04C11DB7 :: u32) 0" by simp
  then show ?thesis unfolding crc_shift_alt bit_xor_iff bit_push_bit_iff by simp
qed

lemma xor_cancel: "(a :: 'a::len word) XOR c = b XOR c \<Longrightarrow> a = b"
  by (metis xor.assoc xor.right_neutral xor_self_eq)

lemma crc_shift_inj: "crc_shift a = crc_shift b \<Longrightarrow> a = b"
proof (rule bit_word_eqI)
  fix i
  assume eq: "crc_shift a = crc_shift b" and i: "i < LENGTH(32)"
  have top: "bit a 31 = bit b 31" using eq crc_shift_bit0 by metis
  have p: "push_bit 1 a = push_bit 1 b"
    by (rule xor_cancel [of _ "if bit b 31 then 0x04C11DB7 else 0"]) (use eq top in \<open>unfold crc_shift_alt, simp only:\<close>)
  show "bit a i = bit b i"
  proof (cases "i = 31")
    case False
    then have "Suc i < 32" using i by simp
    then show ?thesis using arg_cong [OF p, of "\<lambda>x. bit x (Suc i)"] unfolding bit_push_bit_iff by simp
  qed (use top in simp)
qed

lemma crc_shifts_inj: "(crc_shift ^^ n) a = (crc_shift ^^ n) b \<Longrightarrow> a = b"
  by (induction n) (auto dest: crc_shift_inj)

lemma crc_byte_inj: "crc_byte v a = crc_byte v b \<Longrightarrow> a = b"
proof -
  assume "crc_byte v a = crc_byte v b"
  then have "a XOR push_bit 24 (ucast v) = b XOR push_bit 24 (ucast v)"
    unfolding crc_byte_def by (rule crc_shifts_inj)
  then show ?thesis by (rule xor_cancel)
qed

section \<open>The code computes the shift register\<close>

lemma top_bit: "(r :: u64) AND 0x80000000 \<noteq> 0 \<longleftrightarrow> bit r 31"
  using and_exp_eq_0_iff_not_bit [of r 31] by simp

lemma ucast_low: "(ucast ((r :: u64) AND 0xffffffff) :: u32) = ucast r"
proof (rule bit_word_eqI)
  fix i
  assume "i < LENGTH(32)"
  moreover have "(0xffffffff :: u64) = mask 32" by (simp add: mask_eq_exp_minus_1)
  ultimately show "bit (ucast (r AND 0xffffffff) :: u32) i = bit (ucast r :: u32) i"
    by (simp only: bit_and_iff bit_mask_iff bit_ucast_iff) auto
qed

lemma ucast_push: "(ucast (push_bit n (r :: u64)) :: u32) = push_bit n (ucast r)"
  by (rule bit_word_eqI) (auto simp: bit_push_bit_iff bit_ucast_iff)

lemma ucast_xor: "(ucast ((a :: u64) XOR b) :: u32) = ucast a XOR ucast b"
  by (rule bit_word_eqI) (auto simp: bit_xor_iff bit_ucast_iff)

lemma ucast_shift:
  "(ucast (if (r :: u64) AND 0x80000000 \<noteq> 0 then push_bit 1 r XOR ucast (0x04C11DB7 :: u32) else push_bit 1 r) :: u32) =
   crc_shift (ucast r)"
  unfolding top_bit by (simp add: crc_shift_def ucast_push ucast_xor bit_ucast_iff del: push_bit_Suc)

lemma ucast_shifts:
  "(ucast (((\<lambda>r. if (r :: u64) AND 0x80000000 \<noteq> 0 then push_bit 1 r XOR ucast (0x04C11DB7 :: u32)
       else push_bit 1 r) ^^ n) r) :: u32) = (crc_shift ^^ n) (ucast r)"
proof (induction n)
  case (Suc n)
  then show ?case unfolding funpow.simps comp_def ucast_shift by simp
qed simp

lemma table_entry:
  assumes "i < 256"
  shows "crc32_make_table 0x04C11DB7 False ! i = (crc_shift ^^ 8) (push_bit 24 (of_nat i))"
proof -
  have "crc32_make_table 0x04C11DB7 False ! i = crc32_make_entry 0x04C11DB7 False i"
    using assms by (simp add: crc32_make_table_def)
  also have "\<dots> = (crc_shift ^^ 8) (push_bit 24 (of_nat i))"
    unfolding crc32_make_entry_def Let_def if_False ucast_low ucast_shifts ucast_push
    by (rule arg_cong [of _ _ "\<lambda>x. (crc_shift ^^ 8) (push_bit 24 x)"], rule bit_word_eqI)
      (auto simp: bit_ucast_iff unsigned_of_nat bit_simps)
  finally show ?thesis .
qed

text \<open>One byte by the table: the eight shifts of the top byte, and the rest moved up.\<close>

lemma crc_byte_table:
  "crc_byte v r = (crc_shift ^^ 8) (push_bit 24 (ucast (ucast (drop_bit 24 r XOR ucast v) :: u8))) XOR push_bit 8 r"
proof -
  let ?hi = "push_bit 24 (ucast (ucast (drop_bit 24 r XOR ucast v) :: u8)) :: u32"
  let ?lo = "take_bit 24 r"
  have "r XOR push_bit 24 (ucast v) = ?hi XOR ?lo"
    by (rule bit_word_eqI) (auto simp: bit_xor_iff bit_push_bit_iff bit_ucast_iff bit_take_bit_iff bit_drop_bit_eq)
  then have "crc_byte v r = (crc_shift ^^ 8) ?hi XOR (crc_shift ^^ 8) ?lo"
    by (simp only: crc_byte_def crc_shifts_xor)
  also have "(crc_shift ^^ 8) ?lo = push_bit 8 ?lo"
    by (rule crc_shifts_low) (simp add: bit_take_bit_iff)
  also have "push_bit 8 ?lo = push_bit 8 r"
    by (rule bit_word_eqI) (auto simp: bit_push_bit_iff bit_take_bit_iff)
  finally show ?thesis .
qed

lemma table_step:
  fixes reg :: u64
  shows "(ucast (let tblidx = (ucast (drop_bit 24 reg XOR ucast v) :: u8)
      in ucast (crc32_make_table 0x04C11DB7 False ! unat tblidx) XOR push_bit 8 reg) :: u32) = crc_byte v (ucast reg)"
proof -
  let ?i = "ucast (drop_bit 24 reg XOR ucast v) :: u8"
  have i: "?i = ucast (drop_bit 24 (ucast reg :: u32) XOR ucast v)"
    by (rule bit_word_eqI) (auto simp: bit_xor_iff bit_ucast_iff bit_drop_bit_eq)
  have "unat ?i < 256" using unsigned_less [of ?i, where ?'a = nat] by simp
  then have "crc32_make_table 0x04C11DB7 False ! unat ?i = (crc_shift ^^ 8) (push_bit 24 (ucast ?i))"
    by (subst table_entry) (simp_all add: unsigned_def)
  moreover have "(ucast (ucast w :: u64) :: u32) = w" for w :: u32
    by (rule bit_word_eqI) (simp add: bit_ucast_iff)
  ultimately show ?thesis unfolding Let_def ucast_xor ucast_push crc_byte_table i by simp
qed

lemma table_fold:
  fixes reg :: u64
  shows "(ucast (fold (\<lambda>v reg. let tblidx = (ucast (drop_bit 24 reg XOR ucast v) :: u8)
      in ucast (crc32_make_table 0x04C11DB7 False ! unat tblidx) XOR push_bit 8 reg) p reg) :: u32) =
    fold crc_byte p (ucast reg)"
proof (induction p arbitrary: reg)
  case (Cons v p)
  show ?case unfolding fold.simps comp_def Cons.IH table_step ..
qed simp

lemma srs_crc32_mpegts_eq: "srs_crc32_mpegts buf = crc_reference buf"
proof -
  have "(ucast (ucast (0xffffffff :: u32) :: u64) :: u32) = 0xffffffff" by simp
  then show ?thesis
    using table_fold [of buf "ucast (0xffffffff :: u32)"]
    by (simp add: srs_crc32_mpegts_def crc32_table_driven_def ucast_low crc_reference_def)
qed

lemma crc_fold_inj: "fold crc_byte ys a = fold crc_byte ys b \<Longrightarrow> a = b"
  by (induction ys arbitrary: a b) (auto dest: crc_byte_inj)

text \<open>
  C19. The table-driven checksum of the PSI sections, computed in 64-bit registers, is the CRC-32 of
  the 32-bit shift register with polynomial \<open>0x04C11DB7\<close>, for every sequence of bytes.
\<close>

theorem crc32_mpegts_correct: "srs_crc32_mpegts buf = crc_reference buf"
  by (rule srs_crc32_mpegts_eq)

text \<open>
  The checksum detects every error that is confined to one byte: two sections that differ in one
  byte have different checksums.
\<close>

theorem crc32_detects_byte_error:
  assumes "v \<noteq> w"
  shows "srs_crc32_mpegts (xs @ v # ys) \<noteq> srs_crc32_mpegts (xs @ w # ys)"
proof
  assume "srs_crc32_mpegts (xs @ v # ys) = srs_crc32_mpegts (xs @ w # ys)"
  then have "fold crc_byte ys (crc_byte v (crc_reference xs)) = fold crc_byte ys (crc_byte w (crc_reference xs))"
    by (simp add: srs_crc32_mpegts_eq crc_reference_def)
  then have "crc_byte v (crc_reference xs) = crc_byte w (crc_reference xs)"
    by (rule crc_fold_inj)
  then have "crc_reference xs XOR push_bit 24 (ucast v) = crc_reference xs XOR push_bit 24 (ucast w)"
    unfolding crc_byte_def by (rule crc_shifts_inj)
  then have "push_bit 24 (ucast v :: u32) = push_bit 24 (ucast w)"
    by (intro xor_cancel [of "push_bit 24 (ucast v)" "crc_reference xs"]) (simp add: xor.commute)
  then have *: "bit (push_bit 24 (ucast v :: u32)) (24 + i) = bit (push_bit 24 (ucast w :: u32)) (24 + i)" for i
    by simp
  have "bit v i = bit w i" if "i < 8" for i
    using that * [of i] by (simp add: bit_push_bit_iff bit_ucast_iff)
  then have "v = w" by (intro bit_word_eqI) simp
  with assms show False ..
qed

theorem crc32_detects_byte_error_witness:
  "srs_crc32_mpegts ([0, 0xb0] @ 1 # [2]) \<noteq> srs_crc32_mpegts ([0, 0xb0] @ 3 # [2])"
  by (rule crc32_detects_byte_error) simp

end
