(* ===== verification/Kernel_Ts.thy ===== *)
theory Kernel_Ts
  imports Raw_Stream Std_Map Ts_Crc
begin

text \<open>
  The transport stream decoder of \<open>kernel/srs_kernel_ts.cpp\<close>: packets with their adaptation field, the PAT
  and PMT sections that say what a PID carries, and the PES packets that are collected into messages.
  A channel is reached through its PID, so the pointer \<open>msg->channel_\<close> is the PID of the message. The
  handler of \<open>SrsTsContext::decode\<close> is an argument, with a state of its own. Fields that the decoder writes
  and nothing reads (the clock references of the adaptation field, the optional PES header fields) are
  not kept; the bytes they take are.
\<close>

section \<open>Data\<close>

abbreviation SRS_TS_PACKET_SIZE :: int where "SRS_TS_PACKET_SIZE \<equiv> 188"

datatype SrsTsPidApply =
    SrsTsPidApplyReserved
  | SrsTsPidApplyPAT
  | SrsTsPidApplyPMT
  | SrsTsPidApplyVideo
  | SrsTsPidApplyAudio

text \<open>\<open>SrsTsStream\<close> and \<open>SrsTsPESStreamId\<close> by their values.\<close>

record SrsTsMessage =
  msg_channel :: u16
  msg_continuity_counter :: u8
  msg_dts :: u64
  msg_pts :: u64
  msg_sid :: u8
  msg_PES_packet_length :: u16
  msg_payload :: "u8 list"
  msg_start_pts :: u64
  msg_write_pcr :: bool
  msg_is_discontinuity :: bool

definition SrsTsMessage_new :: "u16 \<Rightarrow> SrsTsMessage" where
  "SrsTsMessage_new c = \<lparr>msg_channel = c, msg_continuity_counter = 0, msg_dts = 0, msg_pts = 0, msg_sid = 0,
     msg_PES_packet_length = 0, msg_payload = [], msg_start_pts = 0, msg_write_pcr = False,
     msg_is_discontinuity = False\<rparr>"

record SrsTsChannel =
  ch_pid :: u16
  ch_apply :: SrsTsPidApply
  ch_stream :: u8
  ch_msg :: "SrsTsMessage option"
  ch_continuity_counter :: u8

definition SrsTsChannel_new :: SrsTsChannel where
  "SrsTsChannel_new = \<lparr>ch_pid = 0, ch_apply = SrsTsPidApplyReserved, ch_stream = 0, ch_msg = None,
     ch_continuity_counter = 0\<rparr>"

text \<open>The last four fields are of the encoder.\<close>

record SrsTsContext =
  ctx_pids :: "(u16, SrsTsChannel) smap"
  ctx_pure_audio :: bool
  ctx_ready :: bool
  ctx_sync_byte :: u8
  ctx_vcodec :: u8
  ctx_acodec :: u8

definition SrsTsContext_new :: SrsTsContext where
  "SrsTsContext_new = \<lparr>ctx_pids = [], ctx_pure_audio = False, ctx_ready = False, ctx_sync_byte = 0x47,
     ctx_vcodec = 0, ctx_acodec = 16\<rparr>"

definition ctx_reset :: "SrsTsContext \<Rightarrow> SrsTsContext" where
  "ctx_reset ctx = ctx\<lparr>ctx_ready := False, ctx_vcodec := 0, ctx_acodec := 16\<rparr>"

record SrsTsPacket =
  pk_payload_unit_start_indicator :: bool
  pk_pid :: u16
  pk_adaption_field_control :: u8
  pk_continuity_counter :: u8

section \<open>Context\<close>

definition ctx_get :: "u16 \<Rightarrow> SrsTsContext \<Rightarrow> SrsTsChannel option" where
  "ctx_get pid ctx = sm_find (ctx_pids ctx) pid"

definition ctx_set :: "u16 \<Rightarrow> SrsTsPidApply \<Rightarrow> u8 \<Rightarrow> SrsTsContext \<Rightarrow> SrsTsContext" where
  "ctx_set pid apply_pid stream ctx =
     (let channel = (case sm_find (ctx_pids ctx) pid of None \<Rightarrow> SrsTsChannel_new | Some c \<Rightarrow> c) in
      ctx\<lparr>ctx_pids := sm_put pid (channel\<lparr>ch_pid := pid, ch_apply := apply_pid, ch_stream := stream\<rparr>) (ctx_pids ctx)\<rparr>)"

definition on_pmt_parsed :: "SrsTsContext \<Rightarrow> SrsTsContext" where
  "on_pmt_parsed ctx = ctx\<lparr>ctx_pure_audio := \<not> list_ex (\<lambda>(_, c). ch_apply c = SrsTsPidApplyVideo) (ctx_pids ctx)\<rparr>"

text \<open>The assignment \<open>channel->msg_ = m\<close>.\<close>

definition put_msg :: "u16 \<Rightarrow> SrsTsMessage option \<Rightarrow> SrsTsContext \<Rightarrow> SrsTsContext" where
  "put_msg pid m ctx =
     (case sm_find (ctx_pids ctx) pid of
        None \<Rightarrow> ctx
      | Some c \<Rightarrow> ctx\<lparr>ctx_pids := sm_put pid (c\<lparr>ch_msg := m\<rparr>) (ctx_pids ctx)\<rparr>)"

section \<open>Messages\<close>

definition msg_dump :: "SrsBuffer \<Rightarrow> SrsTsMessage \<Rightarrow> (SrsTsMessage \<times> SrsBuffer) res" where
  "msg_dump b msg =
     (if buf_empty b then Inr (msg, b)
      else (let nb = buf_nb b - pos b;
                nb_bytes = (if msg_PES_packet_length msg > 0
                            then min nb (uint (msg_PES_packet_length msg) - int (length (msg_payload msg))) else nb)
            in if nb_bytes > 0
               then (if \<not> require nb_bytes b then Inl ERROR_STREAM_CASTER_TS_PSE
                     else res_bind (frame_string (remaining b, nb_bytes)) (\<lambda>bytes.
                          res_bind (skip nb_bytes b) (\<lambda>b'.
                            Inr (msg\<lparr>msg_payload := msg_payload msg @ bytes\<rparr>, b'))))
               else Inr (msg, b)))"

definition msg_completed :: "bool \<Rightarrow> SrsTsMessage \<Rightarrow> bool" where
  "msg_completed payload_unit_start_indicator msg =
     (if msg_PES_packet_length msg = 0 then payload_unit_start_indicator
      else int (length (msg_payload msg)) \<ge> uint (msg_PES_packet_length msg))"

definition msg_fresh :: "SrsTsMessage \<Rightarrow> bool" where
  "msg_fresh msg \<longleftrightarrow> msg_PES_packet_length msg = 0 \<and> msg_payload msg = []"

section \<open>Adaptation field\<close>

text \<open>A flag of a byte, and a step that is taken only if the flag is set.\<close>

abbreviation flag :: "u8 \<Rightarrow> nat \<Rightarrow> bool" where "flag v i \<equiv> drop_bit i v AND 0x01 \<noteq> 0"

definition opt :: "bool \<Rightarrow> (SrsBuffer \<Rightarrow> SrsBuffer res) \<Rightarrow> SrsBuffer \<Rightarrow> SrsBuffer res" where
  "opt c f b = (if c then f b else Inr b)"

text \<open>A field of \<open>n\<close> bytes that is read after a check for its presence.\<close>

definition field :: "srs_error \<Rightarrow> int \<Rightarrow> SrsBuffer \<Rightarrow> SrsBuffer res" where
  "field e n b = (if \<not> require n b then Inl e else skip n b)"

definition af_private_data :: "SrsBuffer \<Rightarrow> SrsBuffer res" where
  "af_private_data b =
     (if \<not> require 1 b then Inl ERROR_STREAM_CASTER_TS_AF
      else res_bind (read_1bytes b) (\<lambda>(len, b1).
        opt (len > 0) (field ERROR_STREAM_CASTER_TS_AF (uint len)) b1))"

definition af_extension :: "SrsBuffer \<Rightarrow> SrsBuffer res" where
  "af_extension b =
     (let pos_af_ext = pos b in
      if \<not> require 2 b then Inl ERROR_STREAM_CASTER_TS_AF
      else res_bind (read_1bytes b) (\<lambda>(adaptation_field_extension_length, b1).
           res_bind (read_1bytes b1) (\<lambda>(ltwfv, b2).
           res_bind (opt (flag ltwfv 7) (field ERROR_STREAM_CASTER_TS_AF 2) b2) (\<lambda>b3.
           res_bind (opt (flag ltwfv 6) (field ERROR_STREAM_CASTER_TS_AF 3) b3) (\<lambda>b4.
           res_bind (opt (flag ltwfv 5) (field ERROR_STREAM_CASTER_TS_AF 5) b4) (\<lambda>b5.
             skip (uint adaptation_field_extension_length - (pos b5 - pos_af_ext)) b5))))))"

definition af_decode :: "u8 \<Rightarrow> SrsBuffer \<Rightarrow> SrsBuffer res" where
  "af_decode adaption_field_control b =
     (if \<not> require 2 b then Inl ERROR_STREAM_CASTER_TS_AF
      else res_bind (read_1bytes b) (\<lambda>(adaption_field_length, b1).
        if adaption_field_control = 3 \<and> adaption_field_length > 182 then Inl ERROR_STREAM_CASTER_TS_AF
        else if adaption_field_control = 2 \<and> adaption_field_length \<noteq> 183 then Inl ERROR_STREAM_CASTER_TS_AF
        else if adaption_field_length = 0 then Inr b1
        else (let pos_af = pos b1 in
          res_bind (read_1bytes b1) (\<lambda>(tmpv, b2).
          res_bind (opt (flag tmpv 4) (field ERROR_STREAM_CASTER_TS_AF 6) b2) (\<lambda>b3.
          res_bind (opt (flag tmpv 3) (field ERROR_STREAM_CASTER_TS_AF 6) b3) (\<lambda>b4.
          res_bind (opt (flag tmpv 2) (field ERROR_STREAM_CASTER_TS_AF 1) b4) (\<lambda>b5.
          res_bind (opt (flag tmpv 1) af_private_data b5) (\<lambda>b6.
          res_bind (opt (flag tmpv 0) af_extension b6) (\<lambda>b7.
            skip (uint adaption_field_length - (pos b7 - pos_af)) b7)))))))))"

section \<open>PES header\<close>

record SrsMpegPES =
  pes_stream_id :: u8
  pes_PTS_DTS_flags :: u8
  pes_pts :: u64
  pes_dts :: u64
  pes_has_payload :: bool
  pes_nb_payload :: int

definition SrsMpegPES_new :: SrsMpegPES where
  "SrsMpegPES_new = \<lparr>pes_stream_id = 0, pes_PTS_DTS_flags = 0, pes_pts = 0, pes_dts = 0,
     pes_has_payload = False, pes_nb_payload = 0\<rparr>"

definition decode_33bits_dts_pts :: "SrsBuffer \<Rightarrow> (u64 \<times> SrsBuffer) res" where
  "decode_33bits_dts_pts b =
     (if \<not> require 5 b then Inl ERROR_STREAM_CASTER_TS_PSE
      else res_bind (read_1bytes b) (\<lambda>(v1, b1).
        if v1 AND 0x01 \<noteq> 0x01 \<or> drop_bit 4 v1 AND 0x0f = 0x00 then Inl ERROR_STREAM_CASTER_TS_PSE
        else res_bind (read_2bytes b1) (\<lambda>(v2, b2).
        if v2 AND 0x01 \<noteq> 0x01 then Inl ERROR_STREAM_CASTER_TS_PSE
        else res_bind (read_2bytes b2) (\<lambda>(v3, b3).
        if v3 AND 0x01 \<noteq> 0x01 then Inl ERROR_STREAM_CASTER_TS_PSE
        else (let dts_pts_30_32 = ucast (drop_bit 1 v1 AND 0x07);
                  dts_pts_15_29 = ucast (drop_bit 1 v2 AND 0x7fff);
                  dts_pts_0_14 = ucast (drop_bit 1 v3 AND 0x7fff)
              in Inr ((push_bit 30 dts_pts_30_32 AND 0x1c0000000) OR (push_bit 15 dts_pts_15_29 AND 0x3fff8000) OR
                      (dts_pts_0_14 AND 0x7fff), b3))))))"

definition pes_times :: "u8 \<Rightarrow> SrsBuffer \<Rightarrow> (u64 \<times> u64 \<times> SrsBuffer) res" where
  "pes_times PTS_DTS_flags b =
     (if PTS_DTS_flags = 0x2 then res_bind (decode_33bits_dts_pts b) (\<lambda>(pts, b1). Inr (pts, pts, b1))
      else if PTS_DTS_flags = 0x3
      then res_bind (decode_33bits_dts_pts b) (\<lambda>(pts, b1).
           res_bind (decode_33bits_dts_pts b1) (\<lambda>(dts, b2). Inr (pts, dts, b2)))
      else Inr (0, 0, b))"

definition pes_pack_header :: "int \<Rightarrow> SrsBuffer \<Rightarrow> SrsBuffer res" where
  "pes_pack_header nb_required b =
     res_bind (read_1bytes b) (\<lambda>(pack_field_length, b1).
       if pack_field_length > 0
       then (if \<not> require (nb_required - 16 - 1 + uint pack_field_length) b1 then Inl ERROR_STREAM_CASTER_TS_PSE
             else res_bind (read_bytes (uint pack_field_length) b1) (\<lambda>(_, b2). Inr b2))
       else Inr b1)"

definition pes_extension_2 :: "SrsBuffer \<Rightarrow> SrsBuffer res" where
  "pes_extension_2 b =
     res_bind (read_1bytes b) (\<lambda>(v, b1).
       (let PES_extension_field_length = v AND 0x7F in
        opt (PES_extension_field_length > 0)
          (field ERROR_STREAM_CASTER_TS_PSE (uint PES_extension_field_length)) b1))"

text \<open>The bytes of the extension that are checked together, \<open>nb_required\<close>.\<close>

definition pes_extension_required :: "u8 \<Rightarrow> int" where
  "pes_extension_required efv =
     (if flag efv 7 then 16 else 0) + (if flag efv 6 then 1 else 0) +
     (if flag efv 5 then 2 else 0) + (if flag efv 4 then 2 else 0) + (if flag efv 0 then 1 else 0)"

definition pes_extension :: "SrsBuffer \<Rightarrow> SrsBuffer res" where
  "pes_extension b =
     res_bind (read_1bytes b) (\<lambda>(efv, b1).
       (let nb_required = pes_extension_required efv in
           if \<not> require nb_required b1 then Inl ERROR_STREAM_CASTER_TS_PSE
           else res_bind (opt (flag efv 7) (\<lambda>b. res_bind (read_bytes 16 b) (\<lambda>(_, b'). Inr b')) b1) (\<lambda>b2.
                res_bind (opt (flag efv 6) (pes_pack_header nb_required) b2) (\<lambda>b3.
                res_bind (opt (flag efv 5) (\<lambda>b. res_bind (read_1bytes b) (\<lambda>(_, b').
                  res_bind (read_1bytes b') (\<lambda>(_, b''). Inr b''))) b3) (\<lambda>b4.
                res_bind (opt (flag efv 4) (\<lambda>b. res_bind (read_2bytes b) (\<lambda>(_, b'). Inr b')) b4) (\<lambda>b5.
                opt (flag efv 0) pes_extension_2 b5))))))"

definition pes_header_required :: "u8 \<Rightarrow> int" where
  "pes_header_required pefv =
     (let PTS_DTS_flags = drop_bit 6 pefv AND 0x03 in
      (if PTS_DTS_flags = 0x2 then 5 else 0) + (if PTS_DTS_flags = 0x3 then 10 else 0) +
      (if flag pefv 5 then 6 else 0) + (if flag pefv 4 then 3 else 0) + (if flag pefv 3 then 1 else 0) +
      (if flag pefv 2 then 1 else 0) + (if flag pefv 1 then 2 else 0) + (if flag pefv 0 then 1 else 0))"

text \<open>The optional header of a PES packet, up to its stuffing bytes. \<open>oocv\<close> holds fields that are not kept.\<close>

definition pes_header :: "SrsBuffer \<Rightarrow> ((u8 \<times> u64 \<times> u64) \<times> SrsBuffer) res" where
  "pes_header b =
     (if \<not> require 3 b then Inl ERROR_STREAM_CASTER_TS_PSE
      else res_bind (read_1bytes b) (\<lambda>(oocv, b1).
           res_bind (read_1bytes b1) (\<lambda>(pefv, b2).
           res_bind (read_1bytes b2) (\<lambda>(PES_header_data_length, b3).
           (let pos_header = pos b3;
                PTS_DTS_flags = drop_bit 6 pefv AND 0x03
            in if \<not> require (pes_header_required pefv) b3 then Inl ERROR_STREAM_CASTER_TS_PSE
               else res_bind (pes_times PTS_DTS_flags b3) (\<lambda>(pts, dts, b4).
                    res_bind (opt (flag pefv 5) (skip 6) b4) (\<lambda>b5.
                    res_bind (opt (flag pefv 4) (\<lambda>b. res_bind (read_3bytes b) (\<lambda>(_, b'). Inr b')) b5) (\<lambda>b6.
                    res_bind (opt (flag pefv 3) (\<lambda>b. res_bind (read_1bytes b) (\<lambda>(_, b'). Inr b')) b6) (\<lambda>b7.
                    res_bind (opt (flag pefv 2) (\<lambda>b. res_bind (read_1bytes b) (\<lambda>(_, b'). Inr b')) b7) (\<lambda>b8.
                    res_bind (opt (flag pefv 1) (\<lambda>b. res_bind (read_2bytes b) (\<lambda>(_, b'). Inr b')) b8) (\<lambda>b9.
                    res_bind (opt (flag pefv 0) pes_extension b9) (\<lambda>b10.
                    (let nb_stuffings = uint PES_header_data_length - (pos b10 - pos_header) in
                     res_bind (opt (nb_stuffings > 0) (field ERROR_STREAM_CASTER_TS_PSE nb_stuffings) b10) (\<lambda>b11.
                       Inr ((PTS_DTS_flags, pts, dts), b11)))))))))))))))"

definition pes_decode :: "SrsBuffer \<Rightarrow> (SrsMpegPES \<times> SrsBuffer) res" where
  "pes_decode b =
     (if \<not> require 6 b then Inl ERROR_STREAM_CASTER_TS_PSE
      else res_bind (read_3bytes b) (\<lambda>(packet_start_code_prefix, b1).
           res_bind (read_1bytes b1) (\<lambda>(stream_id, b2).
           res_bind (read_2bytes b2) (\<lambda>(PES_packet_length, b3).
           if packet_start_code_prefix AND 0xFFFFFF \<noteq> 0x01 then Inl ERROR_STREAM_CASTER_TS_PSE
           else (let pos_packet = pos b3; pes = SrsMpegPES_new\<lparr>pes_stream_id := stream_id\<rparr> in
             if stream_id \<notin> {0xbc, 0xbe, 0xbf, 0xf0, 0xf1, 0xff, 0xf2, 0xf8}
             then res_bind (pes_header b3) (\<lambda>((PTS_DTS_flags, pts, dts), b4).
               (let pes = pes\<lparr>pes_PTS_DTS_flags := PTS_DTS_flags, pes_pts := pts, pes_dts := dts\<rparr>;
                    nb_packet = uint PES_packet_length - (pos b4 - pos_packet)
                in if PES_packet_length > 0 \<and> nb_packet < 0 then Inl ERROR_STREAM_CASTER_TS_PSE
                   else Inr (pes\<lparr>pes_nb_payload := (if PES_packet_length > 0 then nb_packet else 0),
                                 pes_has_payload := True\<rparr>, b4)))
             else if stream_id \<noteq> 0xbe
             then (if PES_packet_length = 0 then Inl ERROR_GB_PS_PSE
                   else Inr (pes\<lparr>pes_nb_payload := uint PES_packet_length, pes_has_payload := True\<rparr>, b3))
             else res_bind (skip (buf_nb b3 - pos b3) b3) (\<lambda>b4. Inr (pes, b4)))))))"

section \<open>PES packets\<close>

text \<open>An operation on the stream and the context: a failure ends the parsing of the packet, the changes of
  the context stay.\<close>

type_synonym ts_result = "(SrsTsMessage option \<times> SrsBuffer) res \<times> SrsTsContext"

text \<open>The unit start: the header of a PES packet goes into the message \<open>msg\<close> of the channel.\<close>

definition pes_unit_start :: "SrsBuffer \<Rightarrow> SrsTsMessage \<Rightarrow> SrsBuffer res \<times> SrsTsMessage" where
  "pes_unit_start b msg =
     (case pes_decode b of
        Inl e \<Rightarrow> (Inl e, msg)
      | Inr (pes, b1) \<Rightarrow>
          (let msg1 = msg\<lparr>msg_sid := pes_stream_id pes\<rparr>;
               msg2 = (if pes_PTS_DTS_flags pes = 0x02 \<or> pes_PTS_DTS_flags pes = 0x03
                       then msg1\<lparr>msg_dts := pes_dts pes, msg_pts := pes_pts pes\<rparr> else msg1)
           in if pes_has_payload pes
              then (let msg3 = msg2\<lparr>msg_PES_packet_length := of_int (pes_nb_payload pes)\<rparr> in
                    case msg_dump b1 msg3 of Inl e \<Rightarrow> (Inl e, msg3) | Inr (msg4, b2) \<Rightarrow> (Inr b2, msg4))
              else (Inr b1, msg2)))"

definition pes_payload_decode :: "SrsTsPacket \<Rightarrow> SrsBuffer \<Rightarrow> SrsTsContext \<Rightarrow> ts_result" where
  "pes_payload_decode packet b ctx =
     (let pid = pk_pid packet; us = pk_payload_unit_start_indicator packet; cc = pk_continuity_counter packet in
      case ctx_get pid ctx of
        None \<Rightarrow> (Inl ERROR_STREAM_CASTER_TS_PSE, ctx)
      | Some channel \<Rightarrow>
          (let msg = (case ch_msg channel of None \<Rightarrow> SrsTsMessage_new pid | Some m \<Rightarrow> m);
               is_fresh_msg = msg_fresh msg;
               next = (msg_continuity_counter msg + 1) AND 0x0f
           in if is_fresh_msg \<and> \<not> us
              then (case skip (buf_nb b - pos b) b of
                      Inl e \<Rightarrow> (Inl e, put_msg pid (Some msg) ctx)
                    | Inr b1 \<Rightarrow> (Inr (None, b1), put_msg pid None ctx))
              else if \<not> is_fresh_msg \<and> msg_PES_packet_length msg > 0 \<and> \<not> msg_completed us msg \<and> us
              then (case skip (pos b * -1) b of
                      Inl e \<Rightarrow> (Inl e, ctx)
                    | Inr b1 \<Rightarrow> (Inr (None, b1), put_msg pid None ctx))
              else if \<not> is_fresh_msg \<and> msg_continuity_counter msg \<ge> cc \<and> next > cc
              then (case skip (buf_nb b - pos b) b of
                      Inl e \<Rightarrow> (Inl e, ctx)
                    | Inr b1 \<Rightarrow> (Inr (None, b1), ctx))
              else if \<not> is_fresh_msg \<and> next \<noteq> cc
              then (case skip (pos b * -1) b of
                      Inl e \<Rightarrow> (Inl e, ctx)
                    | Inr b1 \<Rightarrow> (Inr (None, b1), put_msg pid None ctx))
              else (let msg1 = msg\<lparr>msg_continuity_counter := cc\<rparr> in
                if \<not> is_fresh_msg \<and> msg_completed us msg1
                then (case skip (pos b * -1) b of
                        Inl e \<Rightarrow> (Inl e, put_msg pid None ctx)
                      | Inr b1 \<Rightarrow> (Inr (Some msg1, b1), put_msg pid None ctx))
                else (case (if \<not> us then (case msg_dump b msg1 of Inl e \<Rightarrow> (Inl e, msg1) | Inr (m, b1) \<Rightarrow> (Inr b1, m))
                            else pes_unit_start b msg1) of
                        (Inl e, msg2) \<Rightarrow> (Inl e, put_msg pid (Some msg2) ctx)
                      | (Inr b1, msg2) \<Rightarrow>
                          if is_fresh_msg \<and> msg_PES_packet_length msg2 = 0
                          then (Inr (None, b1), put_msg pid (Some msg2) ctx)
                          else if msg_completed us msg2 then (Inr (Some msg2, b1), put_msg pid None ctx)
                          else (Inr (None, b1), put_msg pid (Some msg2) ctx)))))"

section \<open>PSI sections\<close>

type_synonym psi_result = "SrsBuffer res \<times> SrsTsContext"

text \<open>The PAT programs; \<open>n\<close> is the number of rounds of the loop.\<close>

primrec pat_programs :: "nat \<Rightarrow> SrsBuffer \<Rightarrow> SrsTsContext \<Rightarrow> psi_result" where
  "pat_programs 0 b ctx = (Inr b, ctx)"
| "pat_programs (Suc n) b ctx =
     (if \<not> require 4 b then (Inl ERROR_STREAM_CASTER_TS_PAT, ctx)
      else with_res (read_4bytes b) ctx (\<lambda>(tmpv, b1).
        pat_programs n b1 (ctx_set (ucast (tmpv AND 0x1FFF)) SrsTsPidApplyPMT 0 ctx)))"

definition pat_psi_decode :: "SrsTsPacket \<Rightarrow> u16 \<Rightarrow> SrsBuffer \<Rightarrow> SrsTsContext \<Rightarrow> psi_result" where
  "pat_psi_decode packet section_length b ctx =
     (if \<not> require 5 b then (Inl ERROR_STREAM_CASTER_TS_PAT, ctx)
      else with_res (read_bytes 5 b) ctx (\<lambda>(_, b1).
        (let program_bytes = uint section_length - 4 - (pos b1 - pos b) in
         case pat_programs (nat ((program_bytes + 3) div 4)) b1 ctx of
           (Inl e, ctx1) \<Rightarrow> (Inl e, ctx1)
         | (Inr b2, ctx1) \<Rightarrow> (Inr b2, on_pmt_parsed (ctx_set (pk_pid packet) SrsTsPidApplyPAT 0 ctx1)))))"

definition pmt_es_info :: "SrsBuffer \<Rightarrow> ((u8 \<times> u16) \<times> SrsBuffer) res" where
  "pmt_es_info b =
     (if \<not> require 5 b then Inl ERROR_STREAM_CASTER_TS_PMT
      else res_bind (read_1bytes b) (\<lambda>(stream_type, b1).
           res_bind (read_2bytes b1) (\<lambda>(epv, b2).
           res_bind (read_2bytes b2) (\<lambda>(eilv, b3).
           (let ES_info_length = eilv AND 0x0FFF in
            res_bind (opt (ES_info_length > 0) (field ERROR_STREAM_CASTER_TS_PMT (uint ES_info_length)) b3) (\<lambda>b4.
              Inr ((stream_type, epv AND 0x1FFF), b4)))))))"

definition apply_es :: "u8 \<Rightarrow> u16 \<Rightarrow> SrsTsContext \<Rightarrow> SrsTsContext" where
  "apply_es stream_type elementary_PID ctx =
     (if stream_type \<in> {0x1b, 0x24, 0x10} then ctx_set elementary_PID SrsTsPidApplyVideo stream_type ctx
      else if stream_type \<in> {0x0f, 0x81, 0x8a, 0x03} then ctx_set elementary_PID SrsTsPidApplyAudio stream_type ctx
      else ctx)"

lemma pmt_es_info_moves: "pmt_es_info b = Inr (i, b') \<Longrightarrow> buf_p b < buf_p b'"
  by (auto simp: pmt_es_info_def read_1bytes_def read_2bytes_def read_be_def next_bytes_def res_bind_Inr_iff
      opt_def field_def skip_def Let_def word_less_def split: if_splits)

function pmt_infos :: "int \<Rightarrow> SrsBuffer \<Rightarrow> SrsTsContext \<Rightarrow> psi_result" where
  "pmt_infos ES_EOF_pos b ctx =
     (if \<not> pos b < ES_EOF_pos then (Inr b, ctx)
      else (case pmt_es_info b of
              Inl e \<Rightarrow> (Inl e, ctx)
            | Inr ((stream_type, elementary_PID), b1) \<Rightarrow>
                pmt_infos ES_EOF_pos b1 (apply_es stream_type elementary_PID ctx)))"
  by pat_completeness auto
termination
  by (relation "measure (\<lambda>(e, b, _). nat (e - pos b))") (auto simp: pos_def dest: pmt_es_info_moves)

declare pmt_infos.simps [simp del]

definition pmt_psi_decode :: "SrsTsPacket \<Rightarrow> u16 \<Rightarrow> SrsBuffer \<Rightarrow> SrsTsContext \<Rightarrow> psi_result" where
  "pmt_psi_decode packet section_length b ctx =
     (if \<not> require 9 b then (Inl ERROR_STREAM_CASTER_TS_PMT, ctx)
      else with_res (read_bytes 7 b) ctx (\<lambda>(_, b1).
           with_res (read_2bytes b1) ctx (\<lambda>(pilv, b2).
           (let program_info_length = pilv AND 0xFFF in
            with_res (opt (program_info_length > 0) (field ERROR_STREAM_CASTER_TS_PMT (uint program_info_length)) b2)
              ctx (\<lambda>b3.
              (case pmt_infos (pos b3 + uint section_length - 4 - 9 - uint program_info_length) b3 ctx of
                 (Inl e, ctx1) \<Rightarrow> (Inl e, ctx1)
               | (Inr b4, ctx1) \<Rightarrow> (Inr b4, ctx_set (pk_pid packet) SrsTsPidApplyPMT 0 ctx1)))))))"

text \<open>\<open>SrsTsPayloadPSI::decode\<close> with the virtual \<open>psi_decode\<close> as an argument. The pointer field is read and not
  used. \<open>sections\<close> are the bytes that the checksum covers.\<close>

definition psi_decode ::
    "(SrsTsPacket \<Rightarrow> u16 \<Rightarrow> SrsBuffer \<Rightarrow> SrsTsContext \<Rightarrow> psi_result) \<Rightarrow> SrsTsPacket \<Rightarrow> SrsBuffer \<Rightarrow> SrsTsContext \<Rightarrow> ts_result" where
  "psi_decode psi packet b ctx =
     with_res (opt (pk_payload_unit_start_indicator packet) (field ERROR_STREAM_CASTER_TS_PSI 1) b) ctx (\<lambda>b1.
       if \<not> require 3 b1 then (Inl ERROR_STREAM_CASTER_TS_PSI, ctx)
       else with_res (read_1bytes b1) ctx (\<lambda>(table_id, b2).
            with_res (read_2bytes b2) ctx (\<lambda>(slv, b3).
            (let section_length = slv AND 0x0FFF in
             if section_length = 0 then (Inr (None, b3), ctx)
             else if \<not> require (uint section_length) b3 then (Inl ERROR_STREAM_CASTER_TS_PSI, ctx)
             else (case psi packet section_length b3 ctx of
                     (Inl e, ctx1) \<Rightarrow> (Inl e, ctx1)
                   | (Inr b4, ctx1) \<Rightarrow>
                       if \<not> require 4 b4 then (Inl ERROR_STREAM_CASTER_TS_PSI, ctx1)
                       else with_res (read_4bytes b4) ctx1 (\<lambda>(CRC_32, b5).
                            with_res (frame_string (remaining b1, pos b5 - pos b1 - 4)) ctx1 (\<lambda>sections.
                            if srs_crc32_mpegts sections \<noteq> CRC_32 then (Inl ERROR_STREAM_CASTER_TS_PSI, ctx1)
                            else with_res (opt (\<not> buf_empty b5) (skip (buf_nb b5 - pos b5)) b5) ctx1 (\<lambda>b6.
                              (Inr (None, b6), ctx1)))))))))"

section \<open>Packets\<close>

definition ts_header :: "SrsBuffer \<Rightarrow> (SrsTsPacket \<times> SrsBuffer) res" where
  "ts_header b =
     (if \<not> require 4 b then Inl ERROR_STREAM_CASTER_TS_HEADER
      else res_bind (read_1bytes b) (\<lambda>(sync_byte, b1).
        if sync_byte \<noteq> 0x47 then Inl ERROR_STREAM_CASTER_TS_SYNC_BYTE
        else res_bind (read_2bytes b1) (\<lambda>(pidv, b2).
             res_bind (read_1bytes b2) (\<lambda>(ccv, b3).
               Inr (\<lparr>pk_payload_unit_start_indicator = (drop_bit 14 pidv AND 0x01 \<noteq> 0),
                     pk_pid = pidv AND 0x1FFF,
                     pk_adaption_field_control = drop_bit 4 ccv AND 0x03,
                     pk_continuity_counter = ccv AND 0x0F\<rparr>, b3)))))"

definition ts_packet_decode :: "SrsBuffer \<Rightarrow> SrsTsContext \<Rightarrow> ts_result" where
  "ts_packet_decode b ctx =
     with_res (ts_header b) ctx (\<lambda>(packet, b1).
       (let afc = pk_adaption_field_control packet in
        with_res (opt (afc = 2 \<or> afc = 3) (af_decode afc) b1) ctx (\<lambda>b2.
          (let nb_payload = SRS_TS_PACKET_SIZE - (pos b2 - pos b) in
           if afc = 1 \<or> afc = 3
           then (if pk_pid packet = 0 then psi_decode pat_psi_decode packet b2 ctx
                 else (let channel = ctx_get (pk_pid packet) ctx;
                           apply_is = (\<lambda>a. channel \<noteq> None \<and> ch_apply (the channel) = a)
                       in if apply_is SrsTsPidApplyPMT then psi_decode pmt_psi_decode packet b2 ctx
                          else if apply_is SrsTsPidApplyVideo \<or> apply_is SrsTsPidApplyAudio
                          then pes_payload_decode packet b2 ctx
                          else with_res (skip (min (left b2) nb_payload) b2) ctx (\<lambda>b3. (Inr (None, b3), ctx))))
           else (Inr (None, b2), ctx)))))"

end
