(* ===== verification/Ts_Handler.thy ===== *)
theory Ts_Handler
  imports Adapter_Core Adapter_Stats Kernel_Format Kernel_Ts
begin

text \<open>
  \<open>QuicFecTsAdapter::TsHandlerAdapter\<close> (\<open>adapter/adapters/quic_fec_ts_adapter.cpp\<close>): the messages of the transport
  stream decoder become FLV packets for the live source. The record holds the members of the handler
  and what it reaches through \<open>adapter_\<close>: the bridge to the live source, the connection id and the statistics
  singleton. The live source is an argument: \<open>on_frame\<close> gives its answer to a packet, and \<open>drops\<close> says of an
  error of the live source whether its description contains \<open>drop\<close> or \<open>sps/pps\<close>. The parser of the HEVC
  parameter sets is the argument \<open>hevc_demux\<close>.
\<close>

section \<open>State\<close>

record TsHandlerAdapter =
  h264_sps :: "u8 list"
  h264_sps_changed :: bool
  h264_pps :: "u8 list"
  h264_pps_changed :: bool
  h264_sps_pps_sent :: bool
  h265_vps :: "u8 list"
  h265_sps :: "u8 list"
  h265_pps :: "u8 list"
  h265_vps_sps_pps_changed :: bool
  h265_vps_sps_pps_sent :: bool
  aac_specific_config :: "u8 list"
  th_source_bridge :: "FrameToSourceBridge option"
  th_connection_id :: string
  th_stats :: AdapterStatsManager

definition TsHandlerAdapter_new :: "FrameToSourceBridge option \<Rightarrow> string \<Rightarrow> AdapterStatsManager \<Rightarrow> TsHandlerAdapter" where
  "TsHandlerAdapter_new bridge cid stats =
     \<lparr>h264_sps = [], h264_sps_changed = False, h264_pps = [], h264_pps_changed = False, h264_sps_pps_sent = False,
      h265_vps = [], h265_sps = [], h265_pps = [], h265_vps_sps_pps_changed = False, h265_vps_sps_pps_sent = False,
      aac_specific_config = [], th_source_bridge = bridge, th_connection_id = cid, th_stats = stats\<rparr>"

type_synonym live_source = "SrsMediaPacket list \<Rightarrow> SrsMediaPacket \<Rightarrow> unit res"

text \<open>The results that end the process.\<close>

definition crashes :: "srs_error \<Rightarrow> bool" where
  "crashes e \<longleftrightarrow> e \<in> {ASSERT_FAILED, UNDEFINED_READ, DIVISION_BY_ZERO, OUT_OF_RANGE, DEADLOCK}"

section \<open>Delivery\<close>

definition push_to_live_source ::
    "live_source \<Rightarrow> SrsFrameType \<Rightarrow> u32 \<Rightarrow> u8 list \<Rightarrow> 'a TsHandlerAdapter_scheme \<Rightarrow> 'a TsHandlerAdapter_scheme outcome" where
  "push_to_live_source on_frame type timestamp data st =
     (case th_source_bridge st of
        None \<Rightarrow> (Inl ERROR_NO_SOURCE, st)
      | Some br \<Rightarrow>
          (case br_source br of
             None \<Rightarrow> (Inl ERROR_NO_SOURCE, st)
           | Some sent \<Rightarrow>
               (let msg = \<lparr>pkt_timestamp = uint timestamp, pkt_message_type = type, pkt_stream_id = 0, pkt_payload = Some data\<rparr>
                in (on_frame sent msg, st\<lparr>th_source_bridge := Some (br\<lparr>br_source := Some (msg # sent)\<rparr>)\<rparr>))))"

definition th_update_frame_stats ::
    "bool \<Rightarrow> bool \<Rightarrow> 'a TsHandlerAdapter_scheme \<Rightarrow> 'a TsHandlerAdapter_scheme outcome" where
  "th_update_frame_stats video key st =
     with_res (update_frame_stats (th_connection_id st) video key False (th_stats st)) st (\<lambda>m.
       (srs_success, st\<lparr>th_stats := m\<rparr>))"

section \<open>H.264\<close>

definition write_h264_sps_pps ::
    "live_source \<Rightarrow> u32 \<Rightarrow> u32 \<Rightarrow> 'a TsHandlerAdapter_scheme \<Rightarrow> 'a TsHandlerAdapter_scheme outcome" where
  "write_h264_sps_pps on_frame dts pts st =
     (if \<not> h264_sps_changed st \<or> \<not> h264_pps_changed st then (srs_success, st)
      else with_res (avc_mux_sequence_header (h264_sps st) (h264_pps st)) st (\<lambda>sh.
        (let flv = mux_avc2flv sh 1 0 dts pts in
         and_then (push_to_live_source on_frame SrsFrameTypeVideo dts flv st) (\<lambda>st1.
           (srs_success, st1\<lparr>h264_sps_changed := False, h264_pps_changed := False, h264_sps_pps_sent := True\<rparr>)))))"

definition write_h264_ipb_frame ::
    "live_source \<Rightarrow> frame_ptr \<Rightarrow> u32 \<Rightarrow> u32 \<Rightarrow> 'a TsHandlerAdapter_scheme \<Rightarrow> 'a TsHandlerAdapter_scheme outcome" where
  "write_h264_ipb_frame on_frame frame dts pts st =
     (if \<not> h264_sps_pps_sent st then (Inl ERROR_H264_DROP_BEFORE_SPS_PPS, st)
      else with_res (deref (fst frame) 0) st (\<lambda>c.
        (let frame_type = (if c AND 0x1f = 5 then 1 else 2) in
         with_res (avc_mux_ipb_frame frame) st (\<lambda>ibp.
           (let flv = mux_avc2flv ibp frame_type 1 dts pts in
            and_then (push_to_live_source on_frame SrsFrameTypeVideo dts flv st) (\<lambda>st1.
              th_update_frame_stats True (frame_type = 1) st1))))))"

text \<open>Whether the text of an error of \<open>write_h264_ipb_frame\<close> matches: the code's own \<open>drop sps/pps\<close> does, its
  \<open>Source not available\<close> does not.\<close>

definition mentions_drop :: "(srs_error \<Rightarrow> bool) \<Rightarrow> 'a TsHandlerAdapter_scheme \<Rightarrow> srs_error \<Rightarrow> bool" where
  "mentions_drop drops st e =
     (if \<not> h264_sps_pps_sent st then True
      else (case th_source_bridge st of None \<Rightarrow> False | Some br \<Rightarrow> br_source br \<noteq> None \<and> drops e))"

text \<open>The body of the loop of \<open>on_ts_video\<close> for a unit that is not empty.\<close>

definition on_h264_unit ::
    "live_source \<Rightarrow> (srs_error \<Rightarrow> bool) \<Rightarrow> u32 \<Rightarrow> u32 \<Rightarrow> frame_ptr \<Rightarrow> 'a TsHandlerAdapter_scheme \<Rightarrow> 'a TsHandlerAdapter_scheme outcome" where
  "on_h264_unit on_frame drops dts pts frame st =
     with_res (deref (fst frame) 0) st (\<lambda>c.
     if c AND 0x1f = 9 then (srs_success, st)
     else with_res (avc_is_sps frame) st (\<lambda>is_sps.
     if is_sps
     then with_res (avc_sps_demux frame []) st (\<lambda>sps.
            if h264_sps st = sps then (srs_success, st)
            else write_h264_sps_pps on_frame dts pts (st\<lparr>h264_sps_changed := True, h264_sps := sps\<rparr>))
     else with_res (avc_is_pps frame) st (\<lambda>is_pps.
     if is_pps
     then with_res (avc_pps_demux frame) st (\<lambda>pps.
            if h264_pps st = pps then (srs_success, st)
            else write_h264_sps_pps on_frame dts pts (st\<lparr>h264_pps_changed := True, h264_pps := pps\<rparr>))
     else (case write_h264_ipb_frame on_frame frame dts pts st of
             (Inl e, st1) \<Rightarrow>
               if \<not> crashes e \<and> mentions_drop drops st e then (srs_success, st1) else (Inl e, st1)
           | (Inr u, st1) \<Rightarrow> (Inr u, st1)))))"

text \<open>Both demuxers move on: the termination of the loops.\<close>

lemma find_annexb_ge: "find_annexb b = Inr b' \<Longrightarrow> buf_p b \<le> buf_p b' \<and> buf_nb b' = buf_nb b"
proof (induction b rule: find_annexb.induct)
  case (1 b)
  then show ?case
    by (subst (asm) (2) find_annexb.simps) (force simp: res_bind_Inr_iff skip_def split: if_splits)
qed

lemma annexb_demux_moves:
  assumes "annexb_demux e b = Inr (f, b')" "\<not> buf_empty b"
  shows "buf_p b < buf_p b' \<and> buf_nb b' = buf_nb b"
  using assms
  by (auto simp: annexb_demux_def res_bind_Inr_iff Let_def srs_avc_startswith_annexb_def skip_def
      split: option.splits if_splits dest!: annexb_loop_ge find_annexb_ge)

text \<open>The loop of \<open>on_ts_video\<close>. A failure of \<open>annexb_demux\<close> is freed; the size of the buffer object never changes, so
  the loop is left.\<close>

function h264_loop ::
    "live_source \<Rightarrow> (srs_error \<Rightarrow> bool) \<Rightarrow> u32 \<Rightarrow> u32 \<Rightarrow> SrsBuffer \<Rightarrow> 'a TsHandlerAdapter_scheme \<Rightarrow> 'a TsHandlerAdapter_scheme outcome" where
  "h264_loop on_frame drops dts pts avs st =
     (if buf_empty avs then (srs_success, st)
      else case avc_annexb_demux avs of
             Inl e \<Rightarrow> (if crashes e then (Inl e, st) else (srs_success, st))
           | Inr (None, avs1) \<Rightarrow> h264_loop on_frame drops dts pts avs1 st
           | Inr (Some frame, avs1) \<Rightarrow>
               if snd frame = 0 then h264_loop on_frame drops dts pts avs1 st
               else and_then (on_h264_unit on_frame drops dts pts frame st) (\<lambda>st1.
                      h264_loop on_frame drops dts pts avs1 st1))"
  by pat_completeness auto
termination
  by (relation "measure (\<lambda>(_, _, _, _, avs, _). nat (buf_nb avs - buf_p avs))")
    (auto simp: avc_annexb_demux_def buf_empty_def dest!: annexb_demux_moves)

declare h264_loop.simps [simp del]

text \<open>The timestamps: ticks of the 90 kHz clock to milliseconds.\<close>

definition ts_dts :: "SrsTsMessage \<Rightarrow> u32" where
  "ts_dts msg = ucast (msg_dts msg div 90)"

definition ts_pts :: "SrsTsMessage \<Rightarrow> u32" where
  "ts_pts msg = (if msg_pts msg > 0 then ucast (msg_pts msg div 90) else ts_dts msg)"

definition on_ts_video ::
    "live_source \<Rightarrow> (srs_error \<Rightarrow> bool) \<Rightarrow> SrsTsMessage \<Rightarrow> SrsBuffer \<Rightarrow> 'a TsHandlerAdapter_scheme \<Rightarrow> 'a TsHandlerAdapter_scheme outcome" where
  "on_ts_video on_frame drops msg avs st =
     (if th_source_bridge st = None then (srs_success, st)
      else h264_loop on_frame drops (ts_dts msg) (ts_pts msg) avs st)"

section \<open>AAC\<close>

definition write_audio_raw_frame ::
    "live_source \<Rightarrow> frame_ptr \<Rightarrow> SrsRawAacStreamCodec \<Rightarrow> u32 \<Rightarrow> 'a TsHandlerAdapter_scheme \<Rightarrow> 'a TsHandlerAdapter_scheme outcome" where
  "write_audio_raw_frame on_frame frame cdc dts st =
     with_res (mux_aac2flv frame cdc) st (\<lambda>data.
       and_then (push_to_live_source on_frame SrsFrameTypeAudio dts data st) (\<lambda>st1.
         th_update_frame_stats False False st1))"

definition on_aac_frame ::
    "live_source \<Rightarrow> u32 \<Rightarrow> frame_ptr \<Rightarrow> SrsRawAacStreamCodec \<Rightarrow> 'a TsHandlerAdapter_scheme \<Rightarrow> 'a TsHandlerAdapter_scheme outcome" where
  "on_aac_frame on_frame dts frame cdc st =
     and_then
       (if aac_specific_config st = []
        then with_res (aac_mux_sequence_header cdc) st (\<lambda>sh.
          write_audio_raw_frame on_frame (sh, int (length sh)) (cdc\<lparr>aac_packet_type := 0\<rparr>) dts
            (st\<lparr>aac_specific_config := sh\<rparr>))
        else (srs_success, st))
       (\<lambda>st1. write_audio_raw_frame on_frame frame (cdc\<lparr>aac_packet_type := 1\<rparr>) dts st1)"

lemma read_be_p: "read_be n b = Inr (v, b') \<Longrightarrow> b' = b\<lparr>buf_p := buf_p b + int n\<rparr>"
  by (auto simp: read_be_def res_bind_Inr_iff next_bytes_def split: if_splits)

lemma adts_demux_moves:
  assumes "adts_demux b = Inr (f, b')" "\<not> buf_empty b"
  shows "buf_p b < buf_p b' \<and> buf_nb b' = buf_nb b"
  using assms
  by (auto simp: adts_demux_def res_bind_Inr_iff Let_def read_1bytes_def read_2bytes_def read_3bytes_def skip_def
      require_def split: if_splits dest!: read_be_p)

function aac_loop ::
    "live_source \<Rightarrow> u32 \<Rightarrow> SrsBuffer \<Rightarrow> 'a TsHandlerAdapter_scheme \<Rightarrow> 'a TsHandlerAdapter_scheme outcome" where
  "aac_loop on_frame dts avs st =
     (if buf_empty avs then (srs_success, st)
      else case adts_demux avs of
             Inl e \<Rightarrow> (Inl e, st)
           | Inr (None, avs1) \<Rightarrow> aac_loop on_frame dts avs1 st
           | Inr (Some (frame, cdc), avs1) \<Rightarrow>
               if snd frame \<le> 0 then aac_loop on_frame dts avs1 st
               else and_then (on_aac_frame on_frame dts frame cdc st) (\<lambda>st1. aac_loop on_frame dts avs1 st1))"
  by pat_completeness auto
termination
  by (relation "measure (\<lambda>(_, _, avs, _). nat (buf_nb avs - buf_p avs))")
    (auto simp: buf_empty_def dest!: adts_demux_moves)

declare aac_loop.simps [simp del]

definition on_ts_audio ::
    "live_source \<Rightarrow> SrsTsMessage \<Rightarrow> SrsBuffer \<Rightarrow> 'a TsHandlerAdapter_scheme \<Rightarrow> 'a TsHandlerAdapter_scheme outcome" where
  "on_ts_audio on_frame msg avs st =
     (if th_source_bridge st = None then (srs_success, st) else aac_loop on_frame (ts_dts msg) avs st)"

section \<open>HEVC\<close>

type_synonym hevc_parser = "u8 list \<Rightarrow> u8 list \<Rightarrow> HevcConf res"

definition write_h265_vps_sps_pps ::
    "hevc_parser \<Rightarrow> live_source \<Rightarrow> u32 \<Rightarrow> u32 \<Rightarrow> 'a TsHandlerAdapter_scheme \<Rightarrow> 'a TsHandlerAdapter_scheme outcome" where
  "write_h265_vps_sps_pps hevc_demux on_frame dts pts st =
     (if \<not> h265_vps_sps_pps_changed st then (srs_success, st)
      else if h265_vps st = [] \<or> h265_sps st = [] \<or> h265_pps st = [] then (srs_success, st)
      else with_res (hevc_mux_sequence_header hevc_demux (h265_vps st) (h265_sps st) [h265_pps st]) st (\<lambda>sh.
        (let flv = mux_hevc2flv sh 1 0 dts pts in
         and_then (push_to_live_source on_frame SrsFrameTypeVideo dts flv st) (\<lambda>st1.
           (srs_success, st1\<lparr>h265_vps_sps_pps_changed := False, h265_vps_sps_pps_sent := True\<rparr>)))))"

definition write_h265_ipb_frame ::
    "live_source \<Rightarrow> frame_ptr \<Rightarrow> u32 \<Rightarrow> u32 \<Rightarrow> 'a TsHandlerAdapter_scheme \<Rightarrow> 'a TsHandlerAdapter_scheme outcome" where
  "write_h265_ipb_frame on_frame frame dts pts st =
     (if \<not> h265_vps_sps_pps_sent st then (Inl ERROR_H264_DROP_BEFORE_SPS_PPS, st)
      else with_res (deref (fst frame) 0) st (\<lambda>c.
        (let frame_type = (if SrsIsIRAP (SrsHevcNaluTypeParse c) then 1 else 2) in
         with_res (hevc_mux_ipb_frame frame) st (\<lambda>ipb.
           (let flv = mux_hevc2flv ipb frame_type 1 dts pts in
            and_then (push_to_live_source on_frame SrsFrameTypeVideo dts flv st) (\<lambda>st1.
              th_update_frame_stats True (frame_type = 1) st1))))))"

definition on_hevc_unit ::
    "hevc_parser \<Rightarrow> live_source \<Rightarrow> u32 \<Rightarrow> u32 \<Rightarrow> frame_ptr \<Rightarrow> 'a TsHandlerAdapter_scheme \<Rightarrow> 'a TsHandlerAdapter_scheme outcome" where
  "on_hevc_unit hevc_demux on_frame dts pts frame st =
     with_res (deref (fst frame) 0) st (\<lambda>c.
     (let nt = SrsHevcNaluTypeParse c in
     if nt = 39 \<or> nt = 40 \<or> nt = 35 then (srs_success, st)
     else with_res (hevc_is_vps frame) st (\<lambda>is_vps.
     if is_vps
     then with_res (hevc_vps_demux frame) st (\<lambda>vps.
            if h265_vps st = vps then (srs_success, st)
            else write_h265_vps_sps_pps hevc_demux on_frame dts pts
                   (st\<lparr>h265_vps_sps_pps_changed := True, h265_vps := vps\<rparr>))
     else with_res (hevc_is_sps frame) st (\<lambda>is_sps.
     if is_sps
     then with_res (hevc_sps_demux frame []) st (\<lambda>sps.
            if h265_sps st = sps then (srs_success, st)
            else write_h265_vps_sps_pps hevc_demux on_frame dts pts
                   (st\<lparr>h265_vps_sps_pps_changed := True, h265_sps := sps\<rparr>))
     else with_res (hevc_is_pps frame) st (\<lambda>is_pps.
     if is_pps
     then with_res (hevc_pps_demux frame) st (\<lambda>pps.
            if h265_pps st = pps then (srs_success, st)
            else write_h265_vps_sps_pps hevc_demux on_frame dts pts
                   (st\<lparr>h265_vps_sps_pps_changed := True, h265_pps := pps\<rparr>))
     else write_h265_ipb_frame on_frame frame dts pts st)))))"

function hevc_loop ::
    "hevc_parser \<Rightarrow> live_source \<Rightarrow> u32 \<Rightarrow> u32 \<Rightarrow> SrsBuffer \<Rightarrow> 'a TsHandlerAdapter_scheme \<Rightarrow> 'a TsHandlerAdapter_scheme outcome" where
  "hevc_loop hevc_demux on_frame dts pts avs st =
     (if buf_empty avs then (srs_success, st)
      else case hevc_annexb_demux avs of
             Inl e \<Rightarrow> (Inl e, st)
           | Inr (None, avs1) \<Rightarrow> (Inl UNDEFINED_READ, st)
           | Inr (Some frame, avs1) \<Rightarrow>
               and_then (on_hevc_unit hevc_demux on_frame dts pts frame st) (\<lambda>st1.
                 hevc_loop hevc_demux on_frame dts pts avs1 st1))"
  by pat_completeness auto
termination
  by (relation "measure (\<lambda>(_, _, _, _, avs, _). nat (buf_nb avs - buf_p avs))")
    (auto simp: hevc_annexb_demux_def buf_empty_def dest!: annexb_demux_moves)

declare hevc_loop.simps [simp del]

definition on_ts_video_hevc ::
    "hevc_parser \<Rightarrow> live_source \<Rightarrow> SrsTsMessage \<Rightarrow> SrsBuffer \<Rightarrow> 'a TsHandlerAdapter_scheme \<Rightarrow> 'a TsHandlerAdapter_scheme outcome" where
  "on_ts_video_hevc hevc_demux on_frame msg avs st =
     (if th_source_bridge st = None then (srs_success, st)
      else hevc_loop hevc_demux on_frame (ts_dts msg) (ts_pts msg) avs st)"

section \<open>Messages\<close>

text \<open>\<open>strm\<close> is \<open>msg->channel_->stream_\<close>; the payload of a message is never null.\<close>

definition on_ts_message ::
    "hevc_parser \<Rightarrow> live_source \<Rightarrow> (srs_error \<Rightarrow> bool) \<Rightarrow> u8 \<Rightarrow> SrsTsMessage \<Rightarrow> 'a TsHandlerAdapter_scheme
      \<Rightarrow> 'a TsHandlerAdapter_scheme outcome" where
  "on_ts_message hevc_demux on_frame drops strm msg st =
     (if th_source_bridge st = None then (srs_success, st)
      else if strm \<noteq> 0x1b \<and> strm \<noteq> 0x24 \<and> strm \<noteq> 0x0f then (Inl ERROR_STREAM_CASTER_TS_CODEC, st)
      else (let avs = SrsBuffer_new (msg_payload msg) in
        if strm = 0x1b then on_ts_video on_frame drops msg avs st
        else if strm = 0x24 then on_ts_video_hevc hevc_demux on_frame msg avs st
        else on_ts_audio on_frame msg avs st))"

end
