(* ===== verification/Ts_Context.thy ===== *)
theory Ts_Context
  imports Kernel_Ts
begin

text \<open>
  The decoding loop of \<open>SrsTsContext\<close>. Some branches of the PES decoder rewind the stream to its start, so the
  loop needs an argument why it ends: every rewind removes the unfinished message of a channel, and a
  message stays unfinished only when the stream has been used up.
\<close>

section \<open>Progress\<close>

text \<open>\<open>b'\<close> is the same block with the cursor at least \<open>n\<close> bytes further on.\<close>

definition moves :: "int \<Rightarrow> SrsBuffer \<Rightarrow> SrsBuffer \<Rightarrow> bool" where
  "moves n b b' \<longleftrightarrow> buf_bytes b' = buf_bytes b \<and> buf_nb b' = buf_nb b \<and> buf_p b + n \<le> buf_p b'"

lemma moves_refl [simp]: "moves 0 b b"
  by (simp add: moves_def)

lemma moves_trans: "moves m a b \<Longrightarrow> moves n b c \<Longrightarrow> k \<le> m + n \<Longrightarrow> moves k a c"
  by (auto simp: moves_def)

lemma moves_weaken: "moves n a b \<Longrightarrow> k \<le> n \<Longrightarrow> moves k a b"
  by (auto simp: moves_def)

lemma next_bytes_moves: "next_bytes n b = Inr (v, b') \<Longrightarrow> moves (int n) b b'"
  by (auto simp: next_bytes_def moves_def split: if_splits)

lemma read_be_moves: "read_be n b = Inr (v, b') \<Longrightarrow> moves (int n) b b'"
  by (auto simp: read_be_def res_bind_Inr_iff dest: next_bytes_moves)

lemma reads_move:
  "read_1bytes b = Inr (v1, b') \<Longrightarrow> moves 1 b b'"
  "read_2bytes b = Inr (v2, b') \<Longrightarrow> moves 2 b b'"
  "read_3bytes b = Inr (v3, b') \<Longrightarrow> moves 3 b b'"
  "read_4bytes b = Inr (v4, b') \<Longrightarrow> moves 4 b b'"
  by (auto simp: read_1bytes_def read_2bytes_def read_3bytes_def read_4bytes_def dest: read_be_moves)

lemma read_bytes_moves: "read_bytes n b = Inr (v, b') \<Longrightarrow> moves n b b' \<and> 0 \<le> n"
  by (auto simp: read_bytes_def require_def dest!: next_bytes_moves split: if_splits)

lemma read_bytes_moves_0: "read_bytes n b = Inr (v, b') \<Longrightarrow> moves 0 b b'"
  by (auto dest: read_bytes_moves moves_weaken)

lemma skip_moves: "skip n b = Inr b' \<Longrightarrow> b' = b\<lparr>buf_p := buf_p b + n\<rparr>"
  by (auto simp: skip_def split: if_splits)

lemma field_moves: "field e n b = Inr b' \<Longrightarrow> moves n b b' \<and> 0 \<le> n"
  by (auto simp: field_def require_def moves_def dest!: skip_moves split: if_splits)

lemma opt_moves: "opt c f b = Inr b' \<Longrightarrow> (\<And>b'. f b = Inr b' \<Longrightarrow> moves 0 b b') \<Longrightarrow> moves 0 b b'"
  by (auto simp: opt_def split: if_splits)

lemma opt_field_moves: "opt c (field e n) b = Inr b' \<Longrightarrow> moves 0 b b'"
  by (rule opt_moves) (auto dest: field_moves moves_weaken)

lemma af_private_data_moves: "af_private_data b = Inr b' \<Longrightarrow> moves 0 b b'"
  by (auto simp: af_private_data_def res_bind_Inr_iff split: if_splits
      dest!: reads_move opt_field_moves intro: moves_trans)

definition same_block :: "SrsBuffer \<Rightarrow> SrsBuffer \<Rightarrow> bool" where
  "same_block b b' \<longleftrightarrow> buf_bytes b' = buf_bytes b \<and> buf_nb b' = buf_nb b"

lemma moves_same: "moves n b b' \<Longrightarrow> same_block b b'"
  by (simp add: moves_def same_block_def)

lemma same_block_trans: "same_block a b \<Longrightarrow> same_block b c \<Longrightarrow> same_block a c"
  by (simp add: same_block_def)

lemma af_extension_block: "af_extension b = Inr b' \<Longrightarrow> same_block b b'"
  by (auto simp: af_extension_def res_bind_Inr_iff Let_def moves_def same_block_def split: if_splits
      dest!: reads_move opt_field_moves skip_moves)

lemma opt_af_blocks:
  "opt c af_private_data b = Inr b' \<Longrightarrow> same_block b b'"
  "opt c af_extension b = Inr b' \<Longrightarrow> same_block b b'"
  by (auto simp: opt_def same_block_def moves_def split: if_splits
      dest!: af_private_data_moves af_extension_block [unfolded same_block_def])

text \<open>Wherever its parts end, the adaptation field ends where its length says.\<close>

lemma le_add_uint: "x \<le> y \<Longrightarrow> x \<le> y + uint a" "x \<le> y \<Longrightarrow> x \<le> uint a + y"
  using uint_ge_0 [of a] by linarith+

lemma af_decode_moves: "af_decode c b = Inr b' \<Longrightarrow> moves 1 b b'"
  by (auto simp: af_decode_def res_bind_Inr_iff Let_def pos_def moves_def same_block_def split: if_splits
      dest!: reads_move skip_moves opt_field_moves opt_af_blocks intro: le_add_uint)

lemma decode_33bits_moves: "decode_33bits_dts_pts b = Inr (v, b') \<Longrightarrow> moves 5 b b'"
  by (auto simp: decode_33bits_dts_pts_def res_bind_Inr_iff Let_def moves_def split: if_splits dest!: reads_move)

lemma pes_times_moves: "pes_times f b = Inr (p, d, b') \<Longrightarrow> moves 0 b b'"
  by (auto simp: pes_times_def res_bind_Inr_iff moves_def split: if_splits dest!: decode_33bits_moves)

lemma pes_pack_header_moves: "pes_pack_header k b = Inr b' \<Longrightarrow> moves 0 b b'"
  by (auto simp: res_bind_Inr_iff moves_def pes_pack_header_def split: if_splits dest!: reads_move read_bytes_moves_0)

lemma pes_extension_2_moves: "pes_extension_2 b = Inr b' \<Longrightarrow> moves 0 b b'"
  by (auto simp: res_bind_Inr_iff Let_def moves_def pes_extension_2_def dest!: reads_move opt_field_moves)

lemma pes_parts_move:
  "opt c (skip 6) b = Inr b' \<Longrightarrow> moves 0 b b'"
  "opt c (\<lambda>b. res_bind (read_3bytes b) (\<lambda>(_, b'). Inr b')) b = Inr b' \<Longrightarrow> moves 0 b b'"
  "opt c (\<lambda>b. res_bind (read_2bytes b) (\<lambda>(_, b'). Inr b')) b = Inr b' \<Longrightarrow> moves 0 b b'"
  "opt c (\<lambda>b. res_bind (read_1bytes b) (\<lambda>(_, b'). Inr b')) b = Inr b' \<Longrightarrow> moves 0 b b'"
  "opt c (\<lambda>b. res_bind (read_bytes n b) (\<lambda>(_, b'). Inr b')) b = Inr b' \<Longrightarrow> moves 0 b b'"
  "opt c (\<lambda>b. res_bind (read_1bytes b) (\<lambda>(_, b'). res_bind (read_1bytes b') (\<lambda>(_, b''). Inr b''))) b = Inr b' \<Longrightarrow> moves 0 b b'"
  "opt c (pes_pack_header k) b = Inr b' \<Longrightarrow> moves 0 b b'"
  "opt c pes_extension_2 b = Inr b' \<Longrightarrow> moves 0 b b'"
  by (auto simp: opt_def res_bind_Inr_iff moves_def split: if_splits
      dest!: reads_move skip_moves read_bytes_moves_0 pes_pack_header_moves pes_extension_2_moves)

lemma pes_extension_moves: "pes_extension b = Inr b' \<Longrightarrow> moves 0 b b'"
  by (auto simp: pes_extension_def res_bind_Inr_iff Let_def split: if_splits
      dest!: reads_move pes_parts_move) (auto simp: moves_def)

lemma opt_pes_extension_moves: "opt c pes_extension b = Inr b' \<Longrightarrow> moves 0 b b'"
  by (rule opt_moves) (auto dest: pes_extension_moves)

lemma pes_header_moves: "pes_header b = Inr (h, b') \<Longrightarrow> moves 3 b b'"
  by (auto simp: pes_header_def res_bind_Inr_iff Let_def split: if_splits
      dest!: reads_move pes_times_moves pes_parts_move opt_pes_extension_moves opt_field_moves) (auto simp: moves_def)

lemma pes_decode_moves: "pes_decode b = Inr (pes, b') \<Longrightarrow> moves 6 b b'"
  by (auto simp: pes_decode_def res_bind_Inr_iff Let_def moves_def pos_def require_def split: if_splits
      dest!: reads_move pes_header_moves skip_moves)

text \<open>The PIDs with an unfinished message.\<close>

definition pending :: "SrsTsContext \<Rightarrow> u16 set" where
  "pending ctx = {pid. \<exists>c. ctx_get pid ctx = Some c \<and> ch_msg c \<noteq> None}"

lemma finite_pending [simp]: "finite (pending ctx)"
proof (rule finite_subset)
  show "pending ctx \<subseteq> fst ` set (ctx_pids ctx)"
    by (force simp: pending_def ctx_get_def dest: sm_find_SomeD)
qed simp

lemma pending_ctx_set [simp]: "pending (ctx_set pid a st ctx) = pending ctx"
  by (auto simp: pending_def ctx_get_def ctx_set_def Let_def sm_find_put_app SrsTsChannel_new_def split: option.splits if_splits)

lemma pending_on_pmt_parsed [simp]: "pending (on_pmt_parsed ctx) = pending ctx"
  by (simp add: pending_def ctx_get_def on_pmt_parsed_def)

lemma pending_apply_es [simp]: "pending (apply_es t pid ctx) = pending ctx"
  by (simp add: apply_es_def)

lemma pending_put_None: "pending (put_msg pid None ctx) = pending ctx - {pid}"
  by (auto simp: pending_def ctx_get_def put_msg_def sm_find_put_app split: option.splits)

lemma pending_put_None_less: "pid \<in> pending ctx \<Longrightarrow> card (pending (put_msg pid None ctx)) < card (pending ctx)"
  unfolding pending_put_None by (rule card_Diff1_less) simp_all

lemma pending_put_None_le: "card (pending (put_msg pid None ctx)) \<le> card (pending ctx)"
  by (simp add: pending_put_None card_Diff1_le)

text \<open>What a step of the decoder achieves: the stream ends, an unfinished message goes, or the cursor moves on.\<close>

definition progress :: "SrsBuffer \<Rightarrow> SrsTsContext \<Rightarrow> SrsBuffer \<Rightarrow> SrsTsContext \<Rightarrow> bool" where
  "progress b ctx b' ctx' \<longleftrightarrow> buf_empty b' \<or> card (pending ctx') < card (pending ctx) \<or>
     card (pending ctx') \<le> card (pending ctx) \<and> moves 1 b b'"

lemma progress_mono: "moves 0 a b \<Longrightarrow> progress b ctx b' ctx' \<Longrightarrow> progress a ctx b' ctx'"
  by (auto simp: progress_def intro: moves_trans)

lemma pat_programs_moves: "pat_programs n b ctx = (Inr b', ctx') \<Longrightarrow> moves 0 b b' \<and> pending ctx' = pending ctx"
proof (induction n arbitrary: b ctx)
  case (Suc n)
  then show ?case
    by (cases "read_4bytes b")
      (auto simp: case_prod_unfold split: if_splits dest!: Suc.IH reads_move intro: moves_trans)
qed simp

lemma pat_psi_decode_moves: "pat_psi_decode p l b ctx = (Inr b', ctx') \<Longrightarrow> moves 0 b b' \<and> pending ctx' = pending ctx"
proof -
  assume a: "pat_psi_decode p l b ctx = (Inr b', ctx')"
  then obtain v b1 where 1: "read_bytes 5 b = Inr (v, b1)"
    by (cases "read_bytes 5 b") (auto simp: pat_psi_decode_def split: if_splits)
  from a 1 obtain ctx1 n where 2: "pat_programs n b1 ctx = (Inr b', ctx1)" "pending ctx' = pending ctx1"
    by (auto simp: pat_psi_decode_def Let_def split: if_splits prod.splits sum.splits)
  show ?thesis using read_bytes_moves_0 [OF 1] pat_programs_moves [OF 2(1)] 2(2) by (simp add: moves_def)
qed

lemma pmt_es_info_moves_0: "pmt_es_info b = Inr (i, b') \<Longrightarrow> moves 0 b b'"
  by (auto simp: pmt_es_info_def res_bind_Inr_iff Let_def moves_def split: if_splits dest!: reads_move opt_field_moves)

lemma pmt_infos_moves: "pmt_infos e b ctx = (Inr b', ctx') \<Longrightarrow> moves 0 b b' \<and> pending ctx' = pending ctx"
proof (induction e b ctx rule: pmt_infos.induct)
  case (1 e b ctx)
  show ?case
  proof (cases "pos b < e")
    case True
    then obtain t pid b1 where i: "pmt_es_info b = Inr ((t, pid), b1)"
      and r: "pmt_infos e b1 (apply_es t pid ctx) = (Inr b', ctx')"
      using 1(2) by (auto simp: pmt_infos.simps [of e b] split: sum.splits)
    show ?thesis using 1(1) [OF _ i refl refl r] True pmt_es_info_moves_0 [OF i] by (auto intro: moves_trans)
  next
    case False
    then show ?thesis using 1(2) by (simp add: pmt_infos.simps)
  qed
qed

lemma pmt_psi_decode_moves: "pmt_psi_decode p l b ctx = (Inr b', ctx') \<Longrightarrow> moves 0 b b' \<and> pending ctx' = pending ctx"
proof -
  assume a: "pmt_psi_decode p l b ctx = (Inr b', ctx')"
  then obtain v b1 where 1: "read_bytes 7 b = Inr (v, b1)"
    by (cases "read_bytes 7 b") (auto simp: pmt_psi_decode_def split: if_splits)
  with a obtain pilv b2 where 2: "read_2bytes b1 = Inr (pilv, b2)"
    by (cases "read_2bytes b1") (auto simp: pmt_psi_decode_def split: if_splits)
  let ?o = "opt (pilv AND 0xFFF > 0) (field ERROR_STREAM_CASTER_TS_PMT (uint (pilv AND 0xFFF))) b2"
  from a 1 2 obtain b3 where 3: "?o = Inr b3"
    by (cases ?o) (auto simp: pmt_psi_decode_def Let_def split: if_splits)
  from a 1 2 3 obtain ctx1 e where 4: "pmt_infos e b3 ctx = (Inr b', ctx1)" "pending ctx' = pending ctx1"
    by (auto simp: pmt_psi_decode_def Let_def split: if_splits prod.splits sum.splits)
  show ?thesis
    using read_bytes_moves_0 [OF 1] reads_move(2) [OF 2] opt_field_moves [OF 3] pmt_infos_moves [OF 4(1)] 4(2)
    by (simp add: moves_def)
qed

lemma psi_decode_moves:
  assumes "psi_decode psi p b ctx = (Inr (m, b'), ctx')"
    and psi: "\<And>l b ctx b' ctx'. psi p l b ctx = (Inr b', ctx') \<Longrightarrow> moves 0 b b' \<and> pending ctx' = pending ctx"
  shows "moves 3 b b' \<and> pending ctx' = pending ctx"
proof -
  let ?o = "opt (pk_payload_unit_start_indicator p) (field ERROR_STREAM_CASTER_TS_PSI 1) b"
  obtain b1 where 1: "?o = Inr b1"
    using assms(1) by (cases ?o) (auto simp: psi_decode_def)
  obtain tid b2 where 2: "read_1bytes b1 = Inr (tid, b2)"
    using assms(1) 1 by (cases "read_1bytes b1") (auto simp: psi_decode_def split: if_splits)
  obtain slv b3 where 3: "read_2bytes b2 = Inr (slv, b3)"
    using assms(1) 1 2 by (cases "read_2bytes b2") (auto simp: psi_decode_def split: if_splits)
  have m3: "moves 3 b b3"
    using opt_field_moves [OF 1] reads_move(1) [OF 2] reads_move(2) [OF 3] by (simp add: moves_def)
  show ?thesis
  proof (cases "slv AND 0x0FFF = 0")
    case True
    then show ?thesis using assms(1) 1 2 3 m3 by (auto simp: psi_decode_def Let_def split: if_splits)
  next
    case False
    then obtain b4 ctx1 where 4: "psi p (slv AND 0x0FFF) b3 ctx = (Inr b4, ctx1)"
      using assms(1) 1 2 3 by (auto simp: psi_decode_def Let_def split: if_splits prod.splits sum.splits)
    obtain crc b5 where 5: "read_4bytes b4 = Inr (crc, b5)"
      using assms(1) 1 2 3 4 False
      by (cases "read_4bytes b4") (auto simp: psi_decode_def Let_def split: if_splits)
    let ?s = "frame_string (remaining b1, pos b5 - pos b1 - 4)" and ?k = "opt (\<not> buf_empty b5) (skip (buf_nb b5 - pos b5)) b5"
    obtain s where 6: "?s = Inr s"
      using assms(1) 1 2 3 4 5 False by (cases ?s) (auto simp: psi_decode_def Let_def split: if_splits)
    have 7: "?k = Inr b'" "ctx' = ctx1"
      using assms(1) 1 2 3 4 5 6 False by (cases ?k; auto simp: psi_decode_def Let_def split: if_splits)+
    then have "moves 0 b5 b'"
      by (auto simp: opt_def moves_def buf_empty_def pos_def split: if_splits dest!: skip_moves)
    then show ?thesis using m3 psi [OF 4] reads_move(4) [OF 5] 7(2) by (simp add: moves_def)
  qed
qed

text \<open>A message that is not complete after a dump has taken the rest of the stream.\<close>

lemma msg_dump_rest:
  assumes "msg_dump b m = Inr (m', b')" "\<not> (msg_PES_packet_length m > 0 \<and> uint (msg_PES_packet_length m) \<le> int (length (msg_payload m')))"
  shows "buf_empty b'" "msg_PES_packet_length m' = msg_PES_packet_length m"
  using assms
  by (auto simp: msg_dump_def Let_def res_bind_Inr_iff frame_string_def buf_empty_def pos_def word_greater_zero_iff
      split: if_splits dest!: skip_moves)

lemma msg_dump_length: "msg_dump b m = Inr (m', b') \<Longrightarrow> msg_PES_packet_length m' = msg_PES_packet_length m"
  by (auto simp: msg_dump_def Let_def res_bind_Inr_iff split: if_splits)

lemma msg_dump_moves: "msg_dump b m = Inr (m', b') \<Longrightarrow> moves 0 b b'"
  by (auto simp: msg_dump_def Let_def res_bind_Inr_iff moves_def split: if_splits dest!: skip_moves)

lemma pes_decode_no_payload: "pes_decode b = Inr (pes, b') \<Longrightarrow> \<not> pes_has_payload pes \<Longrightarrow> buf_empty b'"
  by (auto simp: pes_decode_def res_bind_Inr_iff Let_def buf_empty_def pos_def split: if_splits dest!: skip_moves)

lemma pes_unit_start_moves:
  assumes "pes_unit_start b m = (Inr b', m')" "msg_fresh m"
  shows "moves 6 b b'" "\<not> (msg_PES_packet_length m' > 0 \<and> msg_completed True m') \<Longrightarrow> buf_empty b'"
proof -
  obtain pes b1 where p: "pes_decode b = Inr (pes, b1)"
    using assms(1) by (auto simp: pes_unit_start_def split: sum.splits)
  note m = pes_decode_moves [OF p]
  have "moves 6 b b' \<and> (\<not> (msg_PES_packet_length m' > 0 \<and> msg_completed True m') \<longrightarrow> buf_empty b')"
  proof (cases "pes_has_payload pes")
    case True
    then obtain m3 where d: "msg_dump b1 m3 = Inr (m', b')"
      using assms(1) p by (auto simp: pes_unit_start_def Let_def split: sum.splits if_splits)
    show ?thesis
      using m msg_dump_moves [OF d] msg_dump_rest [OF d] msg_dump_length [OF d]
      by (auto simp: msg_completed_def moves_def)
  next
    case False
    then show ?thesis
      using assms(1) p m pes_decode_no_payload [OF p False] by (auto simp: pes_unit_start_def Let_def)
  qed
  then show "moves 6 b b'" "\<not> (msg_PES_packet_length m' > 0 \<and> msg_completed True m') \<Longrightarrow> buf_empty b'" by auto
qed

lemma skip_rest_empty: "skip (buf_nb b - pos b) b = Inr b' \<Longrightarrow> buf_empty b'"
  by (auto simp: buf_empty_def pos_def dest!: skip_moves)

text \<open>A message that is not fresh belongs to its channel already.\<close>

lemma not_fresh_pending:
  "ctx_get pid ctx = Some c \<Longrightarrow> \<not> msg_fresh (case ch_msg c of None \<Rightarrow> SrsTsMessage_new pid | Some m \<Rightarrow> m) \<Longrightarrow> pid \<in> pending ctx"
  by (auto simp: pending_def msg_fresh_def SrsTsMessage_new_def split: option.splits)

lemma pes_progress:
  assumes "pes_payload_decode p b ctx = (Inr (m, b'), ctx')"
  shows "progress b ctx b' ctx'"
proof -
  let ?pid = "pk_pid p" and ?us = "pk_payload_unit_start_indicator p" and ?cc = "pk_continuity_counter p"
  obtain c where c: "ctx_get ?pid ctx = Some c"
    using assms by (cases "ctx_get ?pid ctx") (auto simp: pes_payload_decode_def Let_def)
  define msg where "msg = (case ch_msg c of None \<Rightarrow> SrsTsMessage_new ?pid | Some m \<Rightarrow> m)"
  define msg1 where "msg1 = msg\<lparr>msg_continuity_counter := ?cc\<rparr>"
  define nxt where "nxt = (msg_continuity_counter msg + 1) AND 0x0f"
  define body where "body = (if \<not> ?us then (case msg_dump b msg1 of Inl e \<Rightarrow> (Inl e, msg1) | Inr (m, b1) \<Rightarrow> (Inr b1, m))
                            else pes_unit_start b msg1)"
  note eq = assms [unfolded pes_payload_decode_def Let_def c option.case, folded msg_def, folded msg1_def nxt_def, folded body_def]
  have less: "card (pending (put_msg ?pid None ctx)) < card (pending ctx)" if "\<not> msg_fresh msg"
    using not_fresh_pending [OF c] that pending_put_None_less by (simp add: msg_def)
  have fresh1: "msg_fresh msg1 = msg_fresh msg" "msg_completed u msg1 = msg_completed u msg"
    "msg_PES_packet_length msg1 = msg_PES_packet_length msg" for u
    by (simp_all add: msg1_def msg_fresh_def msg_completed_def)
  consider (drop) "msg_fresh msg" "\<not> ?us"
    | (broken) "\<not> msg_fresh msg" "msg_PES_packet_length msg > 0" "\<not> msg_completed ?us msg" ?us
    | (other) "msg_fresh msg \<longrightarrow> ?us" "\<not> (\<not> msg_fresh msg \<and> msg_PES_packet_length msg > 0 \<and> \<not> msg_completed ?us msg \<and> ?us)"
    by blast
  then show ?thesis
  proof cases
    case drop
    with eq show ?thesis
      by (cases "skip (buf_nb b - pos b) b") (auto simp: progress_def dest: skip_rest_empty)
  next
    case broken
    with eq less show ?thesis by (cases "skip (pos b * -1) b") (auto simp: progress_def)
  next
    case other
    then have ne: "\<not> (msg_fresh msg \<and> \<not> ?us)" by simp
    note eq1 = eq [unfolded if_not_P [OF ne] if_not_P [OF other(2)]]
    consider (dup) "\<not> msg_fresh msg \<and> msg_continuity_counter msg \<ge> ?cc \<and> nxt > ?cc"
      | (gap) "\<not> (\<not> msg_fresh msg \<and> msg_continuity_counter msg \<ge> ?cc \<and> nxt > ?cc)" "\<not> msg_fresh msg \<and> nxt \<noteq> ?cc"
      | (succ) "\<not> (\<not> msg_fresh msg \<and> msg_continuity_counter msg \<ge> ?cc \<and> nxt > ?cc)" "\<not> (\<not> msg_fresh msg \<and> nxt \<noteq> ?cc)"
      by blast
    then show ?thesis
    proof cases
      case dup
      then show ?thesis
        using eq1 [unfolded if_P [OF dup]]
        by (cases "skip (buf_nb b - pos b) b") (auto simp: progress_def dest: skip_rest_empty)
    next
      case gap
      then show ?thesis
        using eq1 [unfolded if_not_P [OF gap(1)] if_P [OF gap(2)]] less
        by (cases "skip (pos b * -1) b") (auto simp: progress_def)
    next
      case succ
      note eq2 = eq1 [unfolded if_not_P [OF succ(1)] if_not_P [OF succ(2)]]
      show ?thesis
      proof (cases "\<not> msg_fresh msg \<and> msg_completed ?us msg1")
        case True
        then show ?thesis
          using eq2 [unfolded if_P [OF True]] less by (cases "skip (pos b * -1) b") (auto simp: progress_def)
      next
        case False
        note eq3 = eq2 [unfolded if_not_P [OF False]]
        then obtain b1 msg2 where body: "body = (Inr b1, msg2)" by (auto split: prod.splits sum.splits)
        show ?thesis
        proof (cases ?us)
          case True
          have f: "msg_fresh msg"
            using False other(2) True
            by (cases "msg_PES_packet_length msg = 0")
              (auto simp: fresh1(2) word_greater_zero_iff, auto simp: msg_completed_def)
          have u: "pes_unit_start b msg1 = (Inr b1, msg2)" using body True by (simp add: body_def)
          show ?thesis
            using eq3 body True f pes_unit_start_moves [OF u] pending_put_None_le [of ?pid ctx]
            by (auto simp: fresh1 progress_def word_greater_zero_iff msg_completed_def moves_def split: if_splits)
        next
          case nus: False
          then have f: "\<not> msg_fresh msg" using other(1) by simp
          have d: "msg_dump b msg1 = Inr (msg2, b1)"
            using body nus by (auto simp: body_def split: sum.splits)
          show ?thesis
            using eq3 body nus f less [OF f] msg_dump_rest [OF d] msg_dump_length [OF d]
            by (auto simp: progress_def msg_completed_def split: if_splits)
        qed
      qed
    qed
  qed
qed

lemma ts_header_moves: "ts_header b = Inr (p, b') \<Longrightarrow> moves 4 b b'"
  by (auto simp: ts_header_def res_bind_Inr_iff moves_def split: if_splits dest!: reads_move)

lemma ts_packet_progress:
  assumes "ts_packet_decode b ctx = (Inr (m, b'), ctx')"
  shows "progress b ctx b' ctx'"
proof -
  obtain p b1 where 1: "ts_header b = Inr (p, b1)"
    using assms by (cases "ts_header b") (auto simp: ts_packet_decode_def)
  let ?afc = "pk_adaption_field_control p" and ?ch = "ctx_get (pk_pid p) ctx"
  let ?o = "opt (?afc = 2 \<or> ?afc = 3) (af_decode ?afc) b1"
  obtain b2 where 2: "?o = Inr b2" using assms 1 by (cases ?o) (auto simp: ts_packet_decode_def)
  have m: "moves 4 b b2"
    using ts_header_moves [OF 1] 2 by (auto simp: opt_def moves_def split: if_splits dest!: af_decode_moves)
  have psi: "progress b ctx b' ctx'" if "psi_decode psi p b2 ctx = (Inr (m, b'), ctx')"
      "psi = pat_psi_decode \<or> psi = pmt_psi_decode" for psi
  proof -
    have "moves 3 b2 b' \<and> pending ctx' = pending ctx"
      using that(2) pat_psi_decode_moves pmt_psi_decode_moves by (intro psi_decode_moves [OF that(1)]) auto
    with m show ?thesis by (auto simp: progress_def moves_def)
  qed
  have skip: "progress b ctx b3 ctx" if "skip (min (left b2) (SRS_TS_PACKET_SIZE - (pos b2 - pos b))) b2 = Inr b3" for b3
    using skip_moves [OF that] m by (auto simp: progress_def moves_def left_def buf_empty_def pos_def min_def split: if_splits)
  have none: "progress b ctx b2 ctx" using m by (auto simp: progress_def intro: moves_weaken)
  have pes: "progress b ctx b' ctx'" if "pes_payload_decode p b2 ctx = (Inr (m, b'), ctx')"
    using pes_progress [OF that] m moves_weaken [of 4 b b2 0] progress_mono by simp
  show ?thesis
    using assms 1 2 psi pes none skip
    by (cases "skip (min (left b2) (SRS_TS_PACKET_SIZE - (pos b2 - pos b))) b2")
      (auto simp: ts_packet_decode_def Let_def split: if_splits)
qed

section \<open>The loop of SrsTsContext\<close>

text \<open>\<open>handler\<close> gets the stream type of the channel and the message.\<close>

function ts_context_decode ::
    "(u8 \<Rightarrow> SrsTsMessage \<Rightarrow> 's \<Rightarrow> 's outcome) \<Rightarrow> SrsBuffer \<Rightarrow> SrsTsContext \<Rightarrow> 's \<Rightarrow> unit res \<times> SrsTsContext \<times> 's" where
  "ts_context_decode handler b ctx s =
     (if buf_empty b then (srs_success, ctx, s)
      else case ts_packet_decode b ctx of
             (Inl e, ctx1) \<Rightarrow> (Inl e, ctx1, s)
           | (Inr (None, b1), ctx1) \<Rightarrow> ts_context_decode handler b1 ctx1 s
           | (Inr (Some msg, b1), ctx1) \<Rightarrow>
               (case ctx_get (msg_channel msg) ctx1 of
                  None \<Rightarrow> (Inl UNDEFINED_READ, ctx1, s)
                | Some channel \<Rightarrow>
                    (case handler (ch_stream channel) msg s of
                       (Inl e, s1) \<Rightarrow> (Inl e, ctx1, s1)
                     | (Inr _, s1) \<Rightarrow> ts_context_decode handler b1 ctx1 s1)))"
  by pat_completeness auto
termination
proof (relation "measures [\<lambda>(h, b, ctx, s). if buf_empty b then 0 else Suc (card (pending ctx)),
    \<lambda>(h, b, ctx, s). nat (buf_nb b - buf_p b)]")
qed (auto simp: progress_def moves_def buf_empty_def dest!: ts_packet_progress [OF sym])

declare ts_context_decode.simps [simp del]

text \<open>
  \<open>ISrsTsHandler\<close>: the decoder calls the handler for every message and relies on nothing but that it keeps
  the invariant of its own state. The decoder then keeps it too, whatever bytes arrive.
\<close>

locale ts_message_handler =
  fixes handler :: "u8 \<Rightarrow> SrsTsMessage \<Rightarrow> 's \<Rightarrow> 's outcome"
    and inv :: "'s \<Rightarrow> bool"
  assumes handler_keeps: "inv s \<Longrightarrow> inv (snd (handler strm msg s))"
begin

lemma decode_keeps: "inv s \<Longrightarrow> inv (snd (snd (ts_context_decode handler b ctx s)))"
proof -
  have "h = handler \<Longrightarrow> inv s \<Longrightarrow> inv (snd (snd (ts_context_decode h b ctx s)))" for h
  proof (induction h b ctx s rule: ts_context_decode.induct)
    case (1 h b ctx s)
    have k: "handler strm msg s = (r, s1) \<Longrightarrow> inv s1" for strm msg r s1
      using handler_keeps [OF 1(4), of strm msg] by simp
    show ?case
      unfolding ts_context_decode.simps [of h b ctx s]
      using 1 k by (fastforce split: prod.splits sum.splits option.splits)
  qed
  then show "inv s \<Longrightarrow> inv (snd (snd (ts_context_decode handler b ctx s)))" by blast
qed

end

section \<open>A packet that aborts the server\<close>

text \<open>A packet whose adaptation field holds nothing but an extension, with the length \<open>e\<close> in it.\<close>

definition af_extension_packet :: "u8 \<Rightarrow> u8 \<Rightarrow> u8 \<Rightarrow> u8 \<Rightarrow> u8 \<Rightarrow> u8 list \<Rightarrow> u8 list" where
  "af_extension_packet pid_high pid_low cc af_length e rest =
     [0x47, pid_high, pid_low, 0x30 OR (cc AND 0x0f), af_length, 0x01, e, 0x00] @ rest"

lemma af_extension_header:
  assumes "buf_inv b" "remaining b = af_extension_packet pid_high pid_low cc af_length e rest"
  obtains p where "ts_header b = Inr (p, advance 4 b)" "pk_adaption_field_control p = 3"
proof -
  note r1 = read_1_Cons [OF assms(1) assms(2) [unfolded af_extension_packet_def append_Cons]]
  note r2 = read_2_any [OF r1(2,3)]
  note r3 = read_1_Cons [OF r2(2,3)]
  have "drop_bit 4 (0x30 OR (cc AND 0x0f)) AND 0x03 = (3 :: u8)" by (simp add: drop_bit_or drop_bit_and)
  moreover have "require 4 b" using assms by (simp add: require_remaining af_extension_packet_def)
  ultimately show thesis
    using that r1 r2 r3 by (simp add: ts_header_def numeral_eq_Suc)
qed

lemma af_extension_decode:
  assumes "buf_inv b" "remaining b = [af_length, 0x01, e, 0x00] @ rest"
    and "0 < af_length" "af_length \<le> 182" "int (length rest) + 2 < uint e"
  shows "af_decode 3 b = Inl ASSERT_FAILED"
proof -
  note r1 = read_1_Cons [OF assms(1) assms(2) [unfolded append_Cons]]
  note r2 = read_1_Cons [OF r1(2,3)]
  note r3 = read_1_Cons [OF r2(2,3)]
  note r4 = read_1_Cons [OF r3(2,3)]
  have "pos (advance 4 b) - pos (advance 2 b) = 2" by (simp add: advance_def pos_def)
  moreover have "skip (uint e - 2) (advance 4 b) = Inl ASSERT_FAILED"
    using assms(1,2,5) by (auto simp: skip_def advance_def buf_inv_def remaining_def dest: arg_cong [of _ _ length])
  ultimately have "af_extension (advance 2 b) = Inl ASSERT_FAILED"
    using r2 r3 r4 by (simp add: af_extension_def require_remaining opt_def numeral_eq_Suc Let_def)
  moreover have "require 2 b" using assms(1,2) by (simp add: require_remaining)
  ultimately show ?thesis
    using r1 r2 assms(3,4) by (simp add: af_decode_def opt_def numeral_eq_Suc Let_def not_less)
qed

lemma af_extension_packet_aborts:
  assumes "length rest = 180" "0 < af_length" "af_length \<le> 182" "183 \<le> e"
  shows "ts_context_decode handler (SrsBuffer_new (af_extension_packet pid_high pid_low cc af_length e rest)) ctx s =
    (Inl ASSERT_FAILED, ctx, s)"
proof -
  let ?b = "SrsBuffer_new (af_extension_packet pid_high pid_low cc af_length e rest)"
  obtain p where p: "ts_header ?b = Inr (p, advance 4 ?b)" "pk_adaption_field_control p = 3"
    using af_extension_header [OF buf_inv_new remaining_new] by blast
  have l: "4 \<le> length (remaining ?b)" by (simp add: af_extension_packet_def)
  have "remaining (advance 4 ?b) = [af_length, 0x01, e, 0x00] @ rest"
    using advance_ok(3) [OF buf_inv_new l] by (simp add: af_extension_packet_def)
  moreover have "183 \<le> uint e" using assms(4) by (simp add: word_le_def)
  ultimately have "af_decode 3 (advance 4 ?b) = Inl ASSERT_FAILED"
    using af_extension_decode [OF advance_ok(2) [OF buf_inv_new l]] assms by simp
  then have "ts_packet_decode ?b ctx = (Inl ASSERT_FAILED, ctx)"
    using p by (simp add: ts_packet_decode_def opt_def Let_def)
  moreover have "\<not> buf_empty ?b" by (simp add: buf_empty_remaining af_extension_packet_def)
  ultimately show ?thesis by (simp add: ts_context_decode.simps [of handler ?b])
qed

text \<open>
  One packet stops the server: when the length byte of the adaptation field extension points
  behind the packet, \<open>SrsTsContext::decode\<close> fails the assertion of \<open>SrsBuffer::skip\<close> instead of returning an error,
  whatever PID the packet has and whatever the state of the context and the handler is.
\<close>

theorem af_extension_aborts:
  assumes "length rest = 180" "0 < af_length" "af_length \<le> 182" "183 \<le> e"
  shows "ts_context_decode handler (SrsBuffer_new (af_extension_packet pid_high pid_low cc af_length e rest)) ctx s =
    (Inl ASSERT_FAILED, ctx, s)"
  by (rule af_extension_packet_aborts [OF assms])

theorem af_extension_aborts_witness:
  "ts_context_decode (\<lambda>_ _ s. (srs_success, s)) (SrsBuffer_new (af_extension_packet 0 0 0 182 183 (replicate 180 0)))
     SrsTsContext_new () = (Inl ASSERT_FAILED, SrsTsContext_new, ())"
  using af_extension_aborts [of "replicate 180 0" 182 183] by simp

end
