(* ===== verification/Quic_Fec_Ts.thy ===== *)
theory Quic_Fec_Ts
  imports Ts_Handler Ts_Context Fec_Group Reorder_Buffer
begin

text \<open>
  \<open>QuicFecTsAdapter\<close> (\<open>adapter/adapters/quic_fec_ts_adapter.cpp\<close>): datagrams are either bare transport stream
  packets or blocks of FEC groups; repaired blocks pass a reorder buffer, and both ways end in the transport
  stream decoder, whose messages go to the handler. The object is one record that extends the handler's.
  The two \<open>static\<close> variables of the code belong to the program and not to an object; here they are fields that
  hold their value at the call. Everything outside is in \<open>quic_env\<close>: the live source and its manager, the
  HEVC parser, the clocks, the id drawn with \<open>rand()\<close>, and what the reorder buffer reads from an erased map node.
\<close>

section \<open>State\<close>

record quic_env =
  env_hevc_demux :: hevc_parser
  env_on_frame :: live_source
  env_drops :: "srs_error \<Rightarrow> bool"
  env_fetch :: "(string \<Rightarrow> string \<Rightarrow> string \<Rightarrow> unit res) option"
  env_now_us :: int
  env_now :: int
  env_default_id :: string
  env_stale :: u64

datatype ProtocolMode = MODE_UNKNOWN | MODE_QUIC_FEC | MODE_BARE_TS

record QuicSessionInfo =
  si_connection_id :: string
  si_last_activity_ms :: int
  si_is_active :: bool

record QuicConfig =
  qc_listen_address :: string
  qc_listen_port :: int
  qc_remote_address :: string
  qc_remote_port :: int
  qc_fec_config :: FecGroupConfig
  qc_reorder_config :: ReorderBufferConfig
  qc_enable_protocol_detection :: bool
  qc_detection_timeout_ms :: int
  qc_max_sessions :: u64
  qc_max_buffer_size :: u64

definition QuicConfig_new :: QuicConfig where
  "QuicConfig_new = \<lparr>qc_listen_address = '''', qc_listen_port = 8443, qc_remote_address = '''', qc_remote_port = 0,
     qc_fec_config = FecGroupConfig_default, qc_reorder_config = ReorderBufferConfig_default,
     qc_enable_protocol_detection = True, qc_detection_timeout_ms = 1000, qc_max_sessions = 100,
     qc_max_buffer_size = 50 * 1024 * 1024\<rparr>"

record QuicStats =
  qs_total_packets_received :: u64
  qs_fec_repaired_packets :: u64
  qs_reordered_packets :: u64
  qs_dropped_packets :: u64
  qs_bare_ts_packets :: u64
  qs_quic_packets :: u64

definition QuicStats_new :: QuicStats where
  "QuicStats_new = \<lparr>qs_total_packets_received = 0, qs_fec_repaired_packets = 0, qs_reordered_packets = 0,
     qs_dropped_packets = 0, qs_bare_ts_packets = 0, qs_quic_packets = 0\<rparr>"

text \<open>\<open>q_events\<close> are the calls of the callbacks, the last one first: \<open>Some\<close> for the start of a stream. \<open>q_output\<close> holds the
  packets given to \<open>output_ts_packets\<close> so far, in order.\<close>

record QuicFecTsAdapter = TsHandlerAdapter +
  q_init :: AdapterInit
  q_config :: QuicConfig
  q_current_mode :: ProtocolMode
  q_sessions :: "(string, QuicSessionInfo) smap"
  q_fec_managers :: "(string, FecRepairManager) smap"
  q_reorder_buffers :: "(string, ReorderBuffer) smap"
  q_ts_context :: "SrsTsContext option"
  q_stats :: QuicStats
  q_on_start_stream :: bool
  q_on_stop_stream :: bool
  q_stream_started :: bool
  q_input_buffer :: "u8 list"
  q_events :: "(string \<times> string \<times> string) option list"
  q_output :: "u8 list list"
  q_global_seq_counter :: u64
  q_last_processed_size :: u64

definition QuicFecTsAdapter_new :: "u64 \<Rightarrow> u64 \<Rightarrow> AdapterStatsManager \<Rightarrow> QuicFecTsAdapter" where
  "QuicFecTsAdapter_new counter last_size stats =
     TsHandlerAdapter.extend (TsHandlerAdapter_new (Some FrameToSourceBridge_new) '''' stats)
       \<lparr>q_init = AdapterInit_new '''' '''' '''', q_config = QuicConfig_new, q_current_mode = MODE_UNKNOWN, q_sessions = [],
        q_fec_managers = [], q_reorder_buffers = [], q_ts_context = Some SrsTsContext_new, q_stats = QuicStats_new,
        q_on_start_stream = False, q_on_stop_stream = False, q_stream_started = False, q_input_buffer = [],
        q_events = [], q_output = [], q_global_seq_counter = counter, q_last_processed_size = last_size\<rparr>"

section \<open>Configuration\<close>

text \<open>An \<open>int\<close> stored in a \<open>size_t\<close>.\<close>

definition to_size :: "int \<Rightarrow> nat" where
  "to_size i = unat (of_int i :: u64)"

definition check :: "bool \<Rightarrow> 's \<Rightarrow> 's outcome" where
  "check bad s = (if bad then Inl ERROR_RTMP_MESSAGE_DECODE else srs_success, s)"

definition config_network :: "AdapterInit \<Rightarrow> QuicConfig \<Rightarrow> QuicConfig outcome" where
  "config_network init c =
     (let c1 = c\<lparr>qc_listen_address := get_param ''listen_address'' ''0.0.0.0'' init,
                 qc_listen_port := get_int_param ''listen_port'' 8443 init,
                 qc_remote_address := get_param ''remote_address'' '''' init,
                 qc_remote_port := get_int_param ''remote_port'' 0 init\<rparr>
      in check (qc_listen_port c1 \<le> 0 \<or> qc_listen_port c1 > 65535) c1)"

definition config_fec :: "AdapterInit \<Rightarrow> QuicConfig \<Rightarrow> QuicConfig outcome" where
  "config_fec init c =
     (let f = \<lparr>fc_k = of_int (get_int_param ''fec_k'' 8 init), fc_n = of_int (get_int_param ''fec_n'' 12 init),
               fc_repair_deadline_ms = get_int_param ''fec_repair_deadline_ms'' 100 init,
               fc_enable_keyframe_relax = get_bool_param ''fec_keyframe_relax'' True init\<rparr>;
          c1 = c\<lparr>qc_fec_config := f\<rparr>
      in and_then (check (fc_k f \<le> 0 \<or> fc_k f > 255) c1) (\<lambda>c2.
         and_then (check (fc_n f < fc_k f \<or> fc_n f > 255) c2) (\<lambda>c3.
           check (fc_repair_deadline_ms f \<le> 0 \<or> fc_repair_deadline_ms f > 10000) c3)))"

definition config_reorder :: "AdapterInit \<Rightarrow> QuicConfig \<Rightarrow> QuicConfig outcome" where
  "config_reorder init c =
     (let r = \<lparr>reorder_window_ms = get_int_param ''reorder_window_ms'' 200 init,
               enable_keyframe_relax = get_bool_param ''reorder_keyframe_relax'' True init,
               keyframe_relax_ms = get_int_param ''reorder_keyframe_relax_ms'' 100 init,
               max_buffer_size = to_size (get_int_param ''reorder_max_buffer_size'' (10 * 1024 * 1024) init)\<rparr>;
          c1 = c\<lparr>qc_reorder_config := r\<rparr>
      in and_then (check (reorder_window_ms r \<le> 0 \<or> reorder_window_ms r > 5000) c1) (\<lambda>c2.
           check (max_buffer_size r < 1024 * 1024 \<or> max_buffer_size r > 500 * 1024 * 1024) c2))"

definition config_limits :: "AdapterInit \<Rightarrow> QuicConfig \<Rightarrow> QuicConfig outcome" where
  "config_limits init c =
     (let c1 = c\<lparr>qc_enable_protocol_detection := get_bool_param ''enable_protocol_detection'' True init,
                 qc_detection_timeout_ms := get_int_param ''detection_timeout_ms'' 1000 init\<rparr>
      in and_then (check (qc_detection_timeout_ms c1 \<le> 0 \<or> qc_detection_timeout_ms c1 > 10000) c1) (\<lambda>c2.
         (let c3 = c2\<lparr>qc_max_sessions := of_int (get_int_param ''max_sessions'' 100 init),
                      qc_max_buffer_size := of_int (get_int_param ''max_buffer_size'' (50 * 1024 * 1024) init)\<rparr>
          in and_then (check (qc_max_sessions c3 \<le> 0 \<or> qc_max_sessions c3 > 10000) c3) (\<lambda>c4.
               check (qc_max_buffer_size c4 < 1024 * 1024 \<or> qc_max_buffer_size c4 > 1024 * 1024 * 1024) c4))))"

definition init_config :: "AdapterInit \<Rightarrow> QuicConfig \<Rightarrow> QuicConfig outcome" where
  "init_config init c =
     and_then (config_network init c) (\<lambda>c1. and_then (config_fec init c1) (\<lambda>c2.
     and_then (config_reorder init c2) (config_limits init)))"

definition new_fec_manager :: "QuicConfig \<Rightarrow> FecRepairManager" where
  "new_fec_manager c =
     fm_set_max_groups (unat (fc_k (qc_fec_config c) * 10)) (fm_set_config (qc_fec_config c) FecRepairManager_new)"

definition q_start :: "quic_env \<Rightarrow> AdapterInit \<Rightarrow> QuicFecTsAdapter \<Rightarrow> QuicFecTsAdapter outcome" where
  "q_start env init st =
     (let cid = get_param ''connection_id'' '''' init;
          st1 = st\<lparr>q_init := init, q_current_mode := MODE_UNKNOWN, q_stream_started := False,
                   th_connection_id := (if cid = [] then env_default_id env else cid),
                   q_config := (q_config st)\<lparr>qc_remote_address := get_param ''client_ip'' '''' init,
                                             qc_remote_port := get_int_param ''client_port'' 0 init\<rparr>\<rparr>
      in case init_config init (q_config st1) of
           (Inl e, c) \<Rightarrow> (Inl e, st1\<lparr>q_config := c\<rparr>)
         | (Inr _, c) \<Rightarrow>
             (let st2 = st1\<lparr>q_config := c\<rparr> in
              case th_source_bridge st2 of
                None \<Rightarrow> (Inl UNDEFINED_READ, st2)
              | Some br \<Rightarrow>
                  (case br_initialize (env_fetch env) (ai_vhost init) (ai_app init) (ai_stream init) br of
                     (Inl e, br1) \<Rightarrow> (Inl e, st2\<lparr>th_source_bridge := Some br1\<rparr>)
                   | (Inr _, br1) \<Rightarrow>
                       (let st3 = st2\<lparr>th_source_bridge := Some br1,
                              q_fec_managers := sm_put (th_connection_id st2) (new_fec_manager c) (q_fec_managers st2),
                              q_reorder_buffers := sm_put (th_connection_id st2) (ReorderBuffer_new (qc_reorder_config c))
                                (q_reorder_buffers st2)\<rparr>
                        in with_res (add_connection (env_now env) (th_connection_id st3) ''quic_fec_ts'' (ai_vhost init)
                               (ai_app init) (ai_stream init) (qc_remote_address c) (qc_remote_port c) (th_stats st3)) st3
                             (\<lambda>m. (srs_success, st3\<lparr>th_stats := m\<rparr>))))))"

section \<open>Output\<close>

text \<open>What \<open>output_ts_packets\<close> does with a packet of the video PID \<open>0x0100\<close> after decoding it: a message of unbounded
  length that has grown enough is handled at once.\<close>

definition early_message :: "quic_env \<Rightarrow> QuicFecTsAdapter \<Rightarrow> QuicFecTsAdapter outcome" where
  "early_message env st =
     (case q_ts_context st of
        None \<Rightarrow> (Inl UNDEFINED_READ, st)
      | Some ctx \<Rightarrow>
          (case ctx_get 0x0100 ctx of
             None \<Rightarrow> (srs_success, st)
           | Some channel \<Rightarrow>
               (case ch_msg channel of
                  None \<Rightarrow> (srs_success, st)
                | Some msg \<Rightarrow>
                    (let accumulated_size = of_nat (length (msg_payload msg)) :: u64 in
                     if msg_PES_packet_length msg = 0 \<and> accumulated_size \<ge> 1300 \<and>
                        accumulated_size > q_last_processed_size st + 1000
                     then (case on_ts_message (env_hevc_demux env) (env_on_frame env) (env_drops env) (ch_stream channel) msg st of
                             (r, st1) \<Rightarrow>
                               (case r of
                                  Inl e \<Rightarrow> if crashes e then (Inl e, st1)
                                    else (srs_success, st1\<lparr>q_ts_context := Some (put_msg 0x0100 None ctx),
                                                           q_last_processed_size := accumulated_size\<rparr>)
                                | Inr _ \<Rightarrow> (srs_success, st1\<lparr>q_ts_context := Some (put_msg 0x0100 None ctx),
                                                              q_last_processed_size := accumulated_size\<rparr>)))
                     else (srs_success, st)))))"

definition output_packet :: "quic_env \<Rightarrow> u8 list \<Rightarrow> QuicFecTsAdapter \<Rightarrow> QuicFecTsAdapter outcome" where
  "output_packet env packet st =
     (if length packet \<noteq> 188 then (srs_success, st)
      else (let pid = push_bit 8 (ucast (packet ! 1 AND 0x1f) :: u16) OR ucast (packet ! 2) in
        case q_ts_context st of
          None \<Rightarrow> (Inl UNDEFINED_READ, st)
        | Some ctx \<Rightarrow>
            (case ts_context_decode (on_ts_message (env_hevc_demux env) (env_on_frame env) (env_drops env))
                    (SrsBuffer_new packet) ctx st of
               (Inl e, ctx1, st1) \<Rightarrow>
                 (if crashes e then Inl e else srs_success, st1\<lparr>q_ts_context := Some ctx1\<rparr>)
             | (Inr _, ctx1, st1) \<Rightarrow>
                 (let st2 = st1\<lparr>q_ts_context := Some ctx1\<rparr> in
                  if pid = 0x0100 then early_message env st2 else (srs_success, st2)))))"

fun output_loop :: "quic_env \<Rightarrow> u8 list list \<Rightarrow> QuicFecTsAdapter \<Rightarrow> QuicFecTsAdapter outcome" where
  "output_loop env [] st = (srs_success, st)"
| "output_loop env (p # ps) st = and_then (output_packet env p st) (output_loop env ps)"

definition begin_stream :: "quic_env \<Rightarrow> QuicFecTsAdapter \<Rightarrow> QuicFecTsAdapter outcome" where
  "begin_stream env st =
     (if q_stream_started st then (srs_success, st)
      else (let st1 = st\<lparr>q_stream_started := True\<rparr>; init = q_init st1 in
        with_res (update_first_frame_time (env_now env) (th_connection_id st1) (th_stats st1)) st1 (\<lambda>m.
          (srs_success, st1\<lparr>th_stats := m,
             q_events := (if q_on_start_stream st1
                          then Some (ai_vhost init, ai_app init, ai_stream init) # q_events st1 else q_events st1)\<rparr>))))"

definition output_ts_packets :: "quic_env \<Rightarrow> u8 list list \<Rightarrow> QuicFecTsAdapter \<Rightarrow> QuicFecTsAdapter outcome" where
  "output_ts_packets env packets st =
     (if packets = [] then (srs_success, st)
      else and_then (begin_stream env (st\<lparr>q_output := q_output st @ packets\<rparr>)) (\<lambda>st1.
           and_then (output_loop env packets st1) (\<lambda>st2. th_update_frame_stats True False st2)))"

section \<open>Bare transport stream\<close>

text \<open>The part of \<open>handle_bare_ts_data\<close> under the second lock: the packets cut from the input and the input that is left.\<close>

definition bare_split :: "u8 list \<Rightarrow> u8 list list \<times> u8 list" where
  "bare_split input =
     (let sync_pos = (case find_sync 0 input of None \<Rightarrow> 0 | Some i \<Rightarrow> i);
          input1 = drop sync_pos input
      in if length input1 < 188 then ([], input1)
         else (cut_packets input1, drop (188 * (length input1 div 188)) input1))"

definition handle_bare_ts_data :: "quic_env \<Rightarrow> u8 list \<Rightarrow> QuicFecTsAdapter \<Rightarrow> QuicFecTsAdapter outcome" where
  "handle_bare_ts_data env data st =
     (let (packets, rest) = bare_split (q_input_buffer st @ data);
          st1 = st\<lparr>q_input_buffer := rest\<rparr>
      in if packets = [] then (srs_success, st1) else output_ts_packets env packets st1)"

section \<open>FEC and reordering\<close>

definition handle_quic_data ::
    "quic_env \<Rightarrow> string \<Rightarrow> u8 list \<Rightarrow> u64 \<Rightarrow> bool \<Rightarrow> u32 \<Rightarrow> u32 \<Rightarrow> int \<Rightarrow> bool \<Rightarrow> QuicFecTsAdapter \<Rightarrow> QuicFecTsAdapter outcome" where
  "handle_quic_data env cid data seq_num is_parity group_id block_index timestamp_ms is_keyframe st =
     (let st1 = st\<lparr>th_connection_id := cid\<rparr>;
          mgr = (case sm_find (q_fec_managers st1) cid of None \<Rightarrow> new_fec_manager (q_config st1) | Some m \<Rightarrow> m);
          st2 = st1\<lparr>q_reorder_buffers := (case sm_find (q_reorder_buffers st1) cid of
                       None \<Rightarrow> sm_put cid (ReorderBuffer_new (qc_reorder_config (q_config st1))) (q_reorder_buffers st1)
                     | Some _ \<Rightarrow> q_reorder_buffers st1)\<rparr>
      in case fm_add_block (env_now_us env) group_id block_index data is_parity timestamp_ms seq_num is_keyframe mgr of
           (r, mgr1) \<Rightarrow> (r, st2\<lparr>q_fec_managers := sm_put cid mgr1 (q_fec_managers st2)\<rparr>))"

text \<open>Restored packets get the next numbers of the program-wide counter; errors of the buffer are logged.\<close>

fun enqueue :: "int \<Rightarrow> (u8 list \<times> bool) list \<Rightarrow> u64 \<Rightarrow> ReorderBuffer \<Rightarrow> u64 \<times> ReorderBuffer" where
  "enqueue timestamp_ms [] counter rb = (counter, rb)"
| "enqueue timestamp_ms ((data, is_keyframe) # ds) counter rb =
     enqueue timestamp_ms ds (counter + 1) (snd (add_packet (counter + 1) data timestamp_ms is_keyframe rb))"

definition process_session :: "quic_env \<Rightarrow> string \<Rightarrow> FecRepairManager \<Rightarrow> QuicFecTsAdapter \<Rightarrow> QuicFecTsAdapter" where
  "process_session env cid mgr st =
     (let ((restored, _, is_keyframes), mgr1) = check_and_repair_with_metadata (env_now_us env) mgr;
          st1 = st\<lparr>q_fec_managers := sm_put cid mgr1 (q_fec_managers st)\<rparr>;
          stats = q_stats st1
      in if restored = [] then st1
         else (let st2 = st1\<lparr>q_stats := stats\<lparr>qs_fec_repaired_packets := qs_fec_repaired_packets stats + of_nat (length restored)\<rparr>\<rparr>
               in case sm_find (q_reorder_buffers st2) cid of
                    None \<Rightarrow> st2
                  | Some rb \<Rightarrow>
                      (let (counter, rb1) = enqueue (env_now_us env sdiv 1000) (zip restored is_keyframes) (q_global_seq_counter st2) rb
                       in st2\<lparr>q_global_seq_counter := counter, q_reorder_buffers := sm_put cid rb1 (q_reorder_buffers st2)\<rparr>)))"

definition process_fec_groups :: "quic_env \<Rightarrow> QuicFecTsAdapter \<Rightarrow> QuicFecTsAdapter outcome" where
  "process_fec_groups env st =
     (srs_success, fold (\<lambda>(cid, mgr). process_session env cid mgr) (q_fec_managers st) st)"

definition process_reorder_buffer :: "quic_env \<Rightarrow> string \<Rightarrow> QuicFecTsAdapter \<Rightarrow> QuicFecTsAdapter outcome" where
  "process_reorder_buffer env cid st =
     (case sm_find (q_reorder_buffers st) cid of
        None \<Rightarrow> (srs_success, st)
      | Some rb \<Rightarrow>
          if \<not> has_ready_packets rb then (srs_success, st)
          else (let (ordered, rb1) = get_ordered_packets (env_stale env) (env_now_us env sdiv 1000) rb;
                    st1 = st\<lparr>q_reorder_buffers := sm_put cid rb1 (q_reorder_buffers st)\<rparr>;
                    stats = q_stats st1
                in if ordered = [] then (srs_success, st1)
                   else output_ts_packets env ordered
                     (st1\<lparr>q_stats := stats\<lparr>qs_reordered_packets := qs_reordered_packets stats + of_nat (length ordered)\<rparr>\<rparr>)))"

section \<open>Feeding\<close>

definition set_mode :: "ProtocolMode \<Rightarrow> QuicFecTsAdapter \<Rightarrow> QuicFecTsAdapter" where
  "set_mode m st =
     (let stats = q_stats st in
      st\<lparr>q_current_mode := m,
         q_stats := (if m = MODE_BARE_TS then stats\<lparr>qs_bare_ts_packets := qs_bare_ts_packets stats + 1\<rparr>
                     else stats\<lparr>qs_quic_packets := qs_quic_packets stats + 1\<rparr>)\<rparr>)"

definition detect_protocol :: "u8 list \<Rightarrow> QuicFecTsAdapter \<Rightarrow> QuicFecTsAdapter" where
  "detect_protocol data st =
     (let seq_num = le_word (take 8 data) :: u64; group_id = le_word (take 4 (drop 8 data)) :: u32 in
      if length data < 4 then st
      else if data ! 0 = 0x47 \<and> \<not> (length data \<ge> 188 * 2 \<and> data ! 188 \<noteq> 0x47) then set_mode MODE_BARE_TS st
      else if data ! 0 AND 0x80 \<noteq> 0 then set_mode MODE_QUIC_FEC st
      else if length data \<ge> 16 \<and> (seq_num > 0 \<and> seq_num < 0x7fffffffffffffff \<or> group_id > 0 \<and> group_id < 0x7fffffff)
      then set_mode MODE_QUIC_FEC st
      else if \<not> qc_enable_protocol_detection (q_config st)
      then st\<lparr>q_current_mode := (if get_param ''default_mode'' ''quic_fec'' (q_init st) = ''bare_ts''
                                 then MODE_BARE_TS else MODE_QUIC_FEC)\<rparr>
      else st)"

definition cleanup_expired_sessions :: "quic_env \<Rightarrow> QuicFecTsAdapter \<Rightarrow> QuicFecTsAdapter" where
  "cleanup_expired_sessions env st =
     (let now_ms = env_now_us env sdiv 1000;
          expired = map fst (filter (\<lambda>(_, s). si_is_active s \<and> now_ms - si_last_activity_ms s > 300000) (q_sessions st));
          sessions = fold sm_erase expired (q_sessions st);
          gone = filter (\<lambda>id. sm_find sessions id = None \<and> id \<noteq> th_connection_id st) (map fst (q_fec_managers st))
      in st\<lparr>q_sessions := sessions, q_fec_managers := fold sm_erase gone (q_fec_managers st),
            q_reorder_buffers := fold sm_erase gone (q_reorder_buffers st)\<rparr>)"

text \<open>The second half of \<open>feed\<close>; errors are logged and freed, a crash is not an error object.\<close>

definition feed_tail :: "quic_env \<Rightarrow> QuicFecTsAdapter \<Rightarrow> QuicFecTsAdapter outcome" where
  "feed_tail env st =
     (let st1 = (if qs_total_packets_received (q_stats st) mod 100 = 0 then cleanup_expired_sessions env st else st) in
      and_then (process_fec_groups env st1) (\<lambda>st2.
        (case process_reorder_buffer env (th_connection_id st2) st2 of
           (Inl e, st3) \<Rightarrow> (if crashes e then Inl e else srs_success, st3)
         | (Inr _, st3) \<Rightarrow> (srs_success, st3))))"

definition q_feed :: "quic_env \<Rightarrow> u8 list \<Rightarrow> QuicFecTsAdapter \<Rightarrow> QuicFecTsAdapter outcome" where
  "q_feed env data st =
     (if data = [] then (srs_success, st)
      else (let stats = q_stats st;
                st1 = st\<lparr>q_stats := stats\<lparr>qs_total_packets_received := qs_total_packets_received stats + 1\<rparr>\<rparr>;
                st2 = (if q_current_mode st1 = MODE_UNKNOWN \<and> qc_enable_protocol_detection (q_config st1)
                       then detect_protocol data st1 else st1)
            in if q_current_mode st2 = MODE_BARE_TS
               then and_then (handle_bare_ts_data env data st2) (feed_tail env)
               else if length data < 16 then (Inl ERROR_RTMP_MESSAGE_DECODE, st2)
               else (let seq_num = le_word (take 8 data) :: u64; group_id = le_word (take 4 (drop 8 data)) :: u32;
                         block_index = le_word (take 2 (drop 12 data)) :: u16; flags = data ! 14;
                         payload = drop 16 data
                     in if seq_num = 0 \<and> group_id = 0 \<or> payload = [] then (srs_success, st2)
                        else and_then
                          (handle_quic_data env (th_connection_id st2) payload seq_num (flags AND 0x01 \<noteq> 0) group_id
                             (ucast block_index) (env_now_us env sdiv 1000) (flags AND 0x02 \<noteq> 0) st2) (\<lambda>st3.
                          (let stats = q_stats st3 in
                           feed_tail env (st3\<lparr>q_stats := stats\<lparr>qs_quic_packets := qs_quic_packets stats + 1\<rparr>\<rparr>))))))"

definition q_parseFrame :: "QuicFecTsAdapter \<Rightarrow> QuicFecTsAdapter outcome" where
  "q_parseFrame st = (srs_success, st)"

definition q_flush :: "quic_env \<Rightarrow> QuicFecTsAdapter \<Rightarrow> QuicFecTsAdapter outcome" where
  "q_flush env st =
     and_then (process_fec_groups env st) (\<lambda>st1.
     and_then (process_reorder_buffer env (th_connection_id st1) st1) (\<lambda>st2.
       (srs_success, st2\<lparr>q_input_buffer := []\<rparr>)))"

text \<open>\<open>close\<close> also destroys the handler: its members are those of no object any more.\<close>

definition q_close :: "QuicFecTsAdapter \<Rightarrow> QuicFecTsAdapter outcome" where
  "q_close st =
     (let st1 = st\<lparr>q_events := (if q_stream_started st \<and> q_on_stop_stream st then None # q_events st else q_events st),
                   q_sessions := [], q_fec_managers := [], q_reorder_buffers := [], q_input_buffer := [],
                   q_ts_context := None, th_source_bridge := None\<rparr>
      in and_then (if th_connection_id st1 \<noteq> []
           then with_res (remove_connection (th_connection_id st1) (th_stats st1)) st1 (\<lambda>m. (srs_success, st1\<lparr>th_stats := m\<rparr>))
           else (srs_success, st1))
         (\<lambda>st2. (srs_success, st2\<lparr>q_stream_started := False, q_current_mode := MODE_UNKNOWN\<rparr>)))"

definition q_setOnStartStream :: "bool \<Rightarrow> QuicFecTsAdapter \<Rightarrow> QuicFecTsAdapter" where
  "q_setOnStartStream callback st = st\<lparr>q_on_start_stream := callback\<rparr>"

definition q_setOnStopStream :: "bool \<Rightarrow> QuicFecTsAdapter \<Rightarrow> QuicFecTsAdapter" where
  "q_setOnStopStream callback st = st\<lparr>q_on_stop_stream := callback\<rparr>"

end
