(* ===== verification/Format_Props.thy ===== *)
theory Format_Props
  imports Kernel_Format
begin

text \<open>
  What \<open>SrsFormat\<close> makes of the packets that the raw stream helpers write: the parser returns the NAL units,
  parameter sets and AAC frames that were packed, except where its guess of the payload format goes wrong.
\<close>

lemma be_bytes_3: "be_bytes 3 (w :: u32) = [byte_of w 2, byte_of w 1, byte_of w 0]"
  by (simp add: be_bytes_def le_bytes_def upt_widths)

lemma be_bytes_4: "be_bytes 4 (w :: u32) = [byte_of w 3, byte_of w 2, byte_of w 1, byte_of w 0]"
  by (simp add: be_bytes_def le_bytes_def upt_widths)

section \<open>Video packets\<close>

text \<open>The tag header of a packet without an extended header.\<close>

lemma video_header_flv:
  assumes "buf_inv b" "remaining b = (push_bit 4 ft OR 7) # r" "ft < 8"
  shows "video_header b = Inr (False, ft, 7, 6, advance 1 b)"
proof -
  have *: "(push_bit 4 ft OR 7) AND 0x80 = 0 \<and> drop_bit 4 (push_bit 4 ft OR 7) AND 0x0f = ft \<and>
      (push_bit 4 ft OR 7) AND 0x0f = 7"
  proof -
    have "ft \<in> {0, 1, 2, 3, 4, 5, 6, 7}"
    proof -
      have "unat ft < 8" using assms(3) by (simp add: word_less_nat_alt)
      then have "unat ft \<in> {0, 1, 2, 3, 4, 5, 6, 7}" by auto
      then have "of_nat (unat ft) \<in> (of_nat ` {0, 1, 2, 3, 4, 5, 6, 7} :: u8 set)" by (rule imageI)
      then show ?thesis by simp
    qed
    then show ?thesis by auto
  qed
  then show ?thesis
    using assms read_1_Cons [OF assms(1,2)] by (simp add: video_header_def require_remaining)
qed

lemma video_times_flv:
  assumes "buf_inv b" "remaining b = t # be_bytes 3 cts @ r"
  shows "video_times False x b = Inr (t, take_bit 24 cts, advance 4 b)"
  using assms read_1_Cons [OF assms] read_3_front [of "advance 1 b"]
  by (simp add: video_times_def require_remaining)

text \<open>\<open>on_video\<close> on an H.264 packet with the five bytes of FLV header in front of \<open>v\<close>.\<close>

definition packet_of :: "SrsFormat \<Rightarrow> u8 \<Rightarrow> int \<Rightarrow> u32 \<Rightarrow> u8 \<Rightarrow> SrsParsedVideoPacket" where
  "packet_of f ft ts cts t =
     (video_initialize (case fmt_video f of None \<Rightarrow> SrsParsedVideoPacket_new | Some p \<Rightarrow> p))
       \<lparr>pvp_frame_type := ft, pp_dts := ts, pp_cts := cts, pvp_avc_packet_type := t\<rparr>"

definition config_of :: "SrsVideoCodecConfig \<Rightarrow> SrsFormat \<Rightarrow> SrsVideoCodecConfig" where
  "config_of mem f = (case fmt_vcodec f of None \<Rightarrow> SrsVideoCodecConfig_new mem | Some c \<Rightarrow> c)\<lparr>vco_id := 7\<rparr>"

lemma on_video_flv:
  assumes "ft < 8" "ft \<noteq> 5"
  obtains b where "buf_inv b" "remaining b = v"
    "on_video mem ts (mux_avc2flv v ft t dts pts) f =
      (let r = video_body (avc_parse_sps f) (try_annexb_first f) t b
                 (config_of mem f, packet_of f ft ts (take_bit 24 (pts - dts)) t)
       in (fst r, f\<lparr>fmt_raw := Some (v, int (length v)), fmt_vcodec := Some (fst (snd r)),
                    fmt_video := Some (snd (snd r))\<rparr>))"
proof -
  let ?d = "mux_avc2flv v ft t dts pts"
  let ?b = "SrsBuffer_new ?d" and ?b5 = "advance 5 (SrsBuffer_new ?d)"
  have r: "remaining ?b = (push_bit 4 ft OR 7) # t # be_bytes 3 (pts - dts) @ v"
    by (simp add: mux_avc2flv_def mux_video2flv_def Let_def be_bytes_3)
  note 1 = read_1_Cons(2,3) [OF buf_inv_new r]
  note 2 = video_times_flv [OF 1]
  have l: "5 \<le> length (remaining ?b)" by (simp add: mux_avc2flv_def mux_video2flv_def Let_def)
  have b5: "buf_inv ?b5" "remaining ?b5 = v"
    using advance_ok(2,3) [OF buf_inv_new l] by (simp_all add: mux_avc2flv_def mux_video2flv_def Let_def)
  have "on_video mem ts ?d f = video_avc_demux mem ?b ts f"
    by (simp add: on_video_def mux_avc2flv_def mux_video2flv_def Let_def)
  also have "\<dots> = (let r = video_body (avc_parse_sps f) (try_annexb_first f) t ?b5
                 (config_of mem f, packet_of f ft ts (take_bit 24 (pts - dts)) t)
       in (fst r, f\<lparr>fmt_raw := Some (v, int (length v)), fmt_vcodec := Some (fst (snd r)),
                    fmt_video := Some (snd (snd r))\<rparr>))"
    using assms b5 video_header_flv [OF buf_inv_new r assms(1)] 2 left_remaining [OF b5(1)]
    by (simp add: video_avc_demux_def Let_def config_of_def packet_of_def)
  finally show thesis by (rule that [OF b5])
qed

section \<open>NAL units in FLV\<close>

lemma unat_byte_of: "unat (byte_of (w :: u32) i) = unat w div 2 ^ (8 * i) mod 256"
proof -
  have "unat (drop_bit (8 * i) w) = unat w div 2 ^ (8 * i)"
    by (simp only: unat_drop_bit_eq) (simp add: drop_bit_eq_div)
  then show ?thesis by (simp add: byte_of_def unsigned_ucast_eq take_bit_eq_mod)
qed

lemma byte_of_eq_iff: "byte_of (w :: u32) i = of_nat k \<longleftrightarrow> unat w div 2 ^ (8 * i) mod 256 = k" if "k < 256"
  using that by (auto simp: word_unat_eq_iff unat_byte_of unat_of_nat)

lemma start_code_length:
  assumes "n = length u" "0 < n" "n < 2 ^ 31"
  shows "start_code (be_bytes 4 (of_nat n :: u32) @ u) \<noteq> None \<longleftrightarrow> n = 1 \<or> 256 \<le> n \<and> n < 512"
proof -
  let ?w = "of_nat n :: u32"
  have n: "unat ?w = n" using assms(3) by (simp add: unat_of_nat)
  obtain x v where u: "u = x # v" using assms by (cases u) auto
  have "start_code (be_bytes 4 ?w @ u) \<noteq> None \<longleftrightarrow>
      byte_of ?w 3 = 0 \<and> byte_of ?w 2 = 0 \<and>
      (byte_of ?w 1 = 1 \<or> byte_of ?w 1 = 0 \<and>
       (byte_of ?w 0 = 1 \<or> byte_of ?w 0 = 0 \<and> start_code (byte_of ?w 1 # byte_of ?w 0 # u) \<noteq> None))"
    by (auto simp: be_bytes_4 u)
  also have "\<dots> \<longleftrightarrow> n < 65536 \<and> (n div 256 = 1 \<or> n div 256 = 0 \<and> n mod 256 = 1)"
  proof -
    have high: "byte_of ?w 3 = 0 \<and> byte_of ?w 2 = 0 \<longleftrightarrow> n < 65536"
    proof -
      have "byte_of ?w 3 = 0 \<longleftrightarrow> n < 16777216"
        using byte_of_eq_iff [of 0 ?w 3] n assms(3) by (simp add: div_eq_0_iff less_mult_imp_div_less)
      moreover have "n < 16777216 \<Longrightarrow> byte_of ?w 2 = 0 \<longleftrightarrow> n < 65536"
        using byte_of_eq_iff [of 0 ?w 2] n by (simp add: div_eq_0_iff less_mult_imp_div_less)
      ultimately show ?thesis by auto
    qed
    have low: "byte_of ?w 1 = 1 \<longleftrightarrow> n div 256 = 1" "byte_of ?w 1 = 0 \<longleftrightarrow> n div 256 = 0" if "n < 65536"
      using that byte_of_eq_iff [of 0 ?w 1] byte_of_eq_iff [of 1 ?w 1] n by (simp_all add: less_mult_imp_div_less)
    have zero: "byte_of ?w 0 = 1 \<longleftrightarrow> n mod 256 = 1" "byte_of ?w 0 = 0 \<longleftrightarrow> n mod 256 = 0"
      using byte_of_eq_iff [of 0 ?w 0] byte_of_eq_iff [of 1 ?w 0] n by simp_all
    have pos: "\<not> (n div 256 = 0 \<and> n mod 256 = 0)" using assms(2) by (metis div_mult_mod_eq mult_0 add_0 less_irrefl)
    show ?thesis
    proof (cases "n < 65536")
      case True
      then show ?thesis using high low [OF True] zero pos by metis
    next
      case False
      then show ?thesis using high by metis
    qed
  qed
  also have "\<dots> \<longleftrightarrow> n = 1 \<or> 256 \<le> n \<and> n < 512"
  proof -
    have "n div 256 = 1 \<longleftrightarrow> 256 \<le> n \<and> n < 512" by (auto simp: div_nat_eqI)
    moreover have "n div 256 = 0 \<and> n mod 256 = 1 \<longleftrightarrow> n = 1" by (auto simp: div_eq_0_iff)
    ultimately show ?thesis by linarith
  qed
  finally show ?thesis .
qed

lemma video_add_sample_ok:
  assumes "vco_id c \<noteq> 12" "pp_samples p = []" "u \<noteq> []"
  obtains p' where "video_add_sample c (u @ r, int (length u)) p = (srs_success, p')" "pp_samples p' = [u]"
    "pvp_frame_type p' = pvp_frame_type p" "pp_dts p' = pp_dts p" "pp_cts p' = pp_cts p"
    "pvp_avc_packet_type p' = pvp_avc_packet_type p"
    "has_aud p' \<longleftrightarrow> has_aud p \<or> hd u AND 0x1F = 9" "has_sps_pps p' \<longleftrightarrow> has_sps_pps p \<or> hd u AND 0x1F \<in> {7, 8}"
proof -
  have "add_sample (u @ r, int (length u)) p = (srs_success, p\<lparr>pp_samples := [u]\<rparr>)"
    using assms by (simp add: add_sample_def SrsMaxNbSamples_def frame_string_def)
  moreover have "deref (u @ r) 0 = Inr (hd u)" using assms(3) by (cases u) (auto simp: deref_def)
  ultimately show thesis using assms that by (simp add: video_add_sample_def Let_def)
qed

text \<open>One unit in the ISO format.\<close>

lemma ibmf_one:
  assumes "buf_inv b" "remaining b = be_bytes 4 (of_nat (length u) :: u32) @ u" "u \<noteq> []" "length u < 2 ^ 31"
    and "NAL_unit_length c = 3" "vco_id c \<noteq> 12" "pp_samples p = []"
  obtains p' b' where "do_avc_demux_ibmf_format c b p = (srs_success, p', b')" "pp_samples p' = [u]"
    "pvp_frame_type p' = pvp_frame_type p" "pp_dts p' = pp_dts p" "pp_cts p' = pp_cts p"
    "pvp_avc_packet_type p' = pvp_avc_packet_type p"
    "has_aud p' \<longleftrightarrow> has_aud p \<or> hd u AND 0x1F = 9" "has_sps_pps p' \<longleftrightarrow> has_sps_pps p \<or> hd u AND 0x1F \<in> {7, 8}"
proof -
  let ?w = "of_nat (length u) :: u32"
  have "uint ?w = int (length u)" using assms(4) by (simp add: uint_nat unat_of_nat)
  then have w: "sint ?w = int (length u)" using assms(4) by (simp add: sint_uint signed_take_bit_int_eq_self)
  note 1 = read_4_front [OF assms(1,2)]
  note 2 = advance_ok(1) [OF 1(2), of "length u"]
  obtain p' where p': "video_add_sample c (u @ [], int (length u)) p = (srs_success, p')" "pp_samples p' = [u]"
    "pvp_frame_type p' = pvp_frame_type p" "pp_dts p' = pp_dts p" "pp_cts p' = pp_cts p"
    "pvp_avc_packet_type p' = pvp_avc_packet_type p"
    "has_aud p' \<longleftrightarrow> has_aud p \<or> hd u AND 0x1F = 9" "has_sps_pps p' \<longleftrightarrow> has_sps_pps p \<or> hd u AND 0x1F \<in> {7, 8}"
    using video_add_sample_ok [OF assms(6,7,3)] by blast
  have l: "left b = int (4 + length u)" using left_remaining [OF assms(1)] assms(2) by simp
  have "do_avc_demux_ibmf_format c b p = (srs_success, p', advance (4 + length u) b)"
    using assms 1 2 p' w l
    by (simp add: do_avc_demux_ibmf_format_def ibmf_samples.simps [of c "4 + int (length u)"] require_remaining
        read_nalu_length_def)
  then show thesis using that p' by blast
qed

text \<open>The parser that has taken a sequence header with four-byte lengths, and has not settled on Annex-B.\<close>

definition ready_for_flv :: "SrsFormat \<Rightarrow> bool" where
  "ready_for_flv f \<longleftrightarrow> (\<exists>c. fmt_vcodec f = Some c \<and> avc_extra_data c \<noteq> [] \<and> NAL_unit_length c = 3 \<and>
     payload_format c \<noteq> SrsAvcPayloadFormatAnnexb)"

lemma annexb_refuses:
  assumes "buf_inv b" "start_code (remaining b) = None"
  shows "avc_demux_annexb_format c b p = (Inl ERROR_HLS_DECODE_ERROR, p, b)"
  using assms by (simp add: avc_demux_annexb_format_def restoring_def do_avc_demux_annexb_format_def startswith_eq
      pos_def skip_def buf_inv_def)

lemma packet_of_fields:
  "pp_samples (packet_of f ft ts cts t) = []" "pvp_frame_type (packet_of f ft ts cts t) = ft"
  "pp_dts (packet_of f ft ts cts t) = ts" "pp_cts (packet_of f ft ts cts t) = cts"
  "pvp_avc_packet_type (packet_of f ft ts cts t) = t"
  by (simp_all add: packet_of_def video_initialize_def)

text \<open>The video packet parsed from one NAL unit.\<close>

definition parsed_as :: "SrsFormat \<Rightarrow> u8 list list \<Rightarrow> u8 \<Rightarrow> int \<Rightarrow> u32 \<Rightarrow> bool" where
  "parsed_as f units ft ts cts \<longleftrightarrow> (\<exists>p. fmt_video f = Some p \<and> pp_samples p = units \<and> pvp_frame_type p = ft \<and>
     pp_dts p = ts \<and> pp_cts p = cts \<and> pvp_avc_packet_type p = 1)"

lemma frame_roundtrip:
  assumes "ready_for_flv f" "u \<noteq> []" "length u < 2 ^ 31" "ft < 8" "ft \<noteq> 5"
    and "fmt_vcodec f = Some c" "payload_format c = SrsAvcPayloadFormatGuess \<Longrightarrow> try_annexb_first f \<Longrightarrow>
        \<not> (length u = 1 \<or> 256 \<le> length u \<and> length u < 512)"
  obtains f' where "avc_mux_ipb_frame (u @ r, int (length u)) = Inr (be_bytes 4 (of_nat (length u) :: u32) @ u)"
    "on_video mem ts (mux_avc2flv (be_bytes 4 (of_nat (length u) :: u32) @ u) ft 1 dts pts) f = (srs_success, f')"
    "parsed_as f' [u] ft ts (take_bit 24 (pts - dts))" "ready_for_flv f'"
    "fmt_vcodec f' = Some (c\<lparr>vco_id := 7, payload_format := SrsAvcPayloadFormatIbmf\<rparr>)"
    "fmt_acodec f' = fmt_acodec f" "fmt_audio f' = fmt_audio f" "try_annexb_first f' = try_annexb_first f"
    "\<exists>p. fmt_video f' = Some p \<and> (has_aud p \<longleftrightarrow> hd u AND 0x1F = 9) \<and> (has_sps_pps p \<longleftrightarrow> hd u AND 0x1F \<in> {7, 8})"
proof -
  let ?v = "be_bytes 4 (of_nat (length u) :: u32) @ u" and ?c = "config_of mem f"
  let ?p = "packet_of f ft ts (take_bit 24 (pts - dts)) 1"
  obtain b where b: "buf_inv b" "remaining b = ?v"
    "on_video mem ts (mux_avc2flv ?v ft 1 dts pts) f =
      (let r = video_body (avc_parse_sps f) (try_annexb_first f) 1 b (?c, ?p)
       in (fst r, f\<lparr>fmt_raw := Some (?v, int (length ?v)), fmt_vcodec := Some (fst (snd r)),
                    fmt_video := Some (snd (snd r))\<rparr>))"
    by (rule on_video_flv [OF assms(4,5)])
  have c: "vco_id ?c = 7" "avc_extra_data ?c \<noteq> []" "NAL_unit_length ?c = 3" "payload_format ?c = payload_format c"
      "payload_format c \<noteq> SrsAvcPayloadFormatAnnexb" "?c = c\<lparr>vco_id := 7\<rparr>"
    using assms(1,6) by (auto simp: ready_for_flv_def config_of_def)
  obtain p' b' where i: "do_avc_demux_ibmf_format ?c b ?p = (srs_success, p', b')" "pp_samples p' = [u]"
    "pvp_frame_type p' = ft" "pp_dts p' = ts" "pp_cts p' = take_bit 24 (pts - dts)" "pvp_avc_packet_type p' = 1"
    "has_aud p' \<longleftrightarrow> hd u AND 0x1F = 9" "has_sps_pps p' \<longleftrightarrow> hd u AND 0x1F \<in> {7, 8}"
    using ibmf_one [OF b(1,2) assms(2,3) c(3), of ?p] c(1)
    by (auto simp: packet_of_fields packet_of_def video_initialize_def)
  have ibmf: "avc_demux_ibmf_format ?c b ?p = (srs_success, p', b')"
    using i(1) by (simp add: avc_demux_ibmf_format_def restoring_def)
  have no_code: "avc_demux_annexb_format ?c b ?p = (Inl ERROR_HLS_DECODE_ERROR, ?p, b)"
    if "payload_format c = SrsAvcPayloadFormatGuess" "try_annexb_first f"
    using annexb_refuses [OF b(1)] start_code_length [of "length u" u] assms(2,3) assms(7) [OF that] b(2) by auto
  have body: "video_body (avc_parse_sps f) (try_annexb_first f) 1 b (?c, ?p) =
      (srs_success, ?c\<lparr>payload_format := SrsAvcPayloadFormatIbmf\<rparr>, p')"
    using c ibmf no_code
    by (cases "payload_format c") (simp_all add: video_body_def video_nalu_demux_def is_avc_codec_ok_def Let_def)
  show thesis
    by (rule that [of "f\<lparr>fmt_raw := Some (?v, int (length ?v)), fmt_video := Some p',
          fmt_vcodec := Some (?c\<lparr>payload_format := SrsAvcPayloadFormatIbmf\<rparr>)\<rparr>"])
      (use b(3) body i c mux_ipb_frame_bytes(1) [of "length u" "u @ r"] in
        \<open>simp_all add: Let_def parsed_as_def ready_for_flv_def\<close>)
qed


definition demo_format :: SrsFormat where
  "demo_format = SrsFormat_new\<lparr>fmt_vcodec := Some ((SrsVideoCodecConfig_new zero_memory)\<lparr>avc_extra_data := [1], NAL_unit_length := 3\<rparr>)\<rparr>"


text \<open>A packet that looks like Annex-B is cut at the start code that its length bytes form.\<close>

lemma annexb_one:
  assumes "buf_inv b" "remaining b = annexb_code 0 @ u" "nal_unit u" "vco_id c \<noteq> 12" "pp_samples p = []"
  obtains p' b' where "avc_demux_annexb_format c b p = (srs_success, p', b')" "pp_samples p' = [u]"
    "pvp_frame_type p' = pvp_frame_type p" "pp_dts p' = pp_dts p" "pp_cts p' = pp_cts p"
    "pvp_avc_packet_type p' = pvp_avc_packet_type p"
proof -
  have ne: "u \<noteq> []" using assms(3) by (simp add: nal_unit_def)
  have sc: "start_code (remaining b) = Some 3" using start_code_annexb [of 0 u] assms(2) by simp
  have l: "3 \<le> length (remaining b)" using assms(2) by (simp add: annexb_code_def)
  note a = advance_ok [OF assms(1) l]
  have r: "remaining (advance 3 b) = u" using a(3) assms(2) by (simp add: annexb_code_def)
  have uc: "until_code u = length u" using until_code_unit [OF assms(3), of "[]"] by simp
  note a2 = advance_ok [OF a(2), of "length u"]
  obtain p' where p': "video_add_sample c (u @ [], int (length u)) p = (srs_success, p')" "pp_samples p' = [u]"
    "pvp_frame_type p' = pvp_frame_type p" "pp_dts p' = pp_dts p" "pp_cts p' = pp_cts p"
    "pvp_avc_packet_type p' = pvp_avc_packet_type p"
    using video_add_sample_ok [OF assms(4,5) ne] by blast
  have e: "remaining (advance (3 + length u) b) = []" "buf_inv (advance (3 + length u) b)"
    using a2 r by simp_all
  have "annexb_samples c b p = annexb_samples c (advance (3 + length u) b) p'"
    using assms(1,2) a a2 r uc sc p'(1) ne find_annexb_eq [OF a(2)] l
    by (subst annexb_samples.simps) (simp add: buf_empty_remaining startswith_eq)
  also have "\<dots> = (srs_success, p', advance (3 + length u) b)"
    using e by (subst annexb_samples.simps) (simp add: buf_empty_remaining)
  finally have "do_avc_demux_annexb_format c b p = (srs_success, p', advance (3 + length u) b)"
    using assms(1) sc by (simp add: do_avc_demux_annexb_format_def startswith_eq)
  then show thesis using that p' by (simp add: avc_demux_annexb_format_def restoring_def)
qed

lemma length_code_256:
  assumes "256 \<le> n" "n < 512"
  shows "be_bytes 4 (of_nat n :: u32) = [0, 0, 1, of_nat (n mod 256)]"
proof -
  have n: "unat (of_nat n :: u32) = n" using assms by (simp add: unat_of_nat)
  have "n div 256 = 1" using assms by (simp add: div_nat_eqI)
  then have "byte_of (of_nat n :: u32) 3 = 0" "byte_of (of_nat n :: u32) 2 = 0" "byte_of (of_nat n :: u32) 1 = 1"
    using byte_of_eq_iff [of 0 "of_nat n" 3] byte_of_eq_iff [of 0 "of_nat n" 2] byte_of_eq_iff [of 1 "of_nat n" 1]
      n assms by simp_all
  moreover have "byte_of (of_nat n :: u32) 0 = of_nat (n mod 256)"
    using byte_of_eq_iff [of "n mod 256" "of_nat n" 0] n by simp
  ultimately show ?thesis by (simp add: be_bytes_4)
qed

lemma nal_unit_Cons: "nal_unit u \<Longrightarrow> hd u \<noteq> 0 \<Longrightarrow> nal_unit (x # u)"
  unfolding nal_unit_def
proof (intro conjI allI impI)
  fix i
  assume u: "u \<noteq> [] \<and> last u \<noteq> 0 \<and> (\<forall>i<length u. start_code (drop i u) = None)" "hd u \<noteq> 0" "i < length (x # u)"
  then show "start_code (drop i (x # u)) = None"
  proof (cases i)
    case 0
    then show ?thesis using u by (cases u; cases "tl u") auto
  qed auto
qed auto

text \<open>
  The guess of the payload format can go wrong for good: if the first NAL unit after the sequence
  header has 256 to 511 bytes, its length \<open>00 00 01 xx\<close> is taken for an Annex-B start code. The parser reports
  success, returns the unit with the last length byte in front, and settles on Annex-B; from then on it
  rejects every correctly packed unit of any other size, 1 apart.
\<close>

theorem avc_format_guess_wrong:
  assumes "fmt_vcodec f = Some c" "avc_extra_data c \<noteq> []" "payload_format c = SrsAvcPayloadFormatGuess"
    and "try_annexb_first f" "nal_unit u" "hd u \<noteq> 0" "256 \<le> length u" "length u < 512" "ft < 8" "ft \<noteq> 5"
  shows "\<exists>v f'. avc_mux_ipb_frame (u, int (length u)) = Inr v \<and>
    on_video mem ts (mux_avc2flv v ft 1 dts pts) f = (srs_success, f') \<and>
    parsed_as f' [of_nat (length u mod 256) # u] ft ts (take_bit 24 (pts - dts)) \<and>
    (\<forall>w ts dts pts. w \<noteq> [] \<and> length w < 2 ^ 31 \<and> \<not> (length w = 1 \<or> 256 \<le> length w \<and> length w < 512) \<longrightarrow>
      (\<exists>v. avc_mux_ipb_frame (w, int (length w)) = Inr v \<and>
        fst (on_video mem ts (mux_avc2flv v ft 1 dts pts) f') = Inl ERROR_HLS_DECODE_ERROR))"
proof -
  let ?v = "be_bytes 4 (of_nat (length u) :: u32) @ u" and ?c = "config_of mem f"
  let ?p = "packet_of f ft ts (take_bit 24 (pts - dts)) 1" and ?u = "of_nat (length u mod 256) # u"
  obtain b where b: "buf_inv b" "remaining b = ?v"
    "on_video mem ts (mux_avc2flv ?v ft 1 dts pts) f =
      (let r = video_body (avc_parse_sps f) (try_annexb_first f) 1 b (?c, ?p)
       in (fst r, f\<lparr>fmt_raw := Some (?v, int (length ?v)), fmt_vcodec := Some (fst (snd r)),
                    fmt_video := Some (snd (snd r))\<rparr>))"
    by (rule on_video_flv [OF assms(9,10)])
  have c: "vco_id ?c = 7" "avc_extra_data ?c \<noteq> []" "payload_format ?c = SrsAvcPayloadFormatGuess"
    using assms(1-3) by (auto simp: config_of_def)
  have r: "remaining b = annexb_code 0 @ ?u" using b(2) length_code_256 [OF assms(7,8)] by (simp add: annexb_code_def)
  obtain p' b' where i: "avc_demux_annexb_format ?c b ?p = (srs_success, p', b')" "pp_samples p' = [?u]"
    "pvp_frame_type p' = ft" "pp_dts p' = ts" "pp_cts p' = take_bit 24 (pts - dts)" "pvp_avc_packet_type p' = 1"
    using annexb_one [OF b(1) r nal_unit_Cons [OF assms(5,6)], of ?c ?p] c(1) by (auto simp: packet_of_fields)
  let ?f' = "f\<lparr>fmt_raw := Some (?v, int (length ?v)), fmt_video := Some p',
    fmt_vcodec := Some (?c\<lparr>payload_format := SrsAvcPayloadFormatAnnexb\<rparr>)\<rparr>"
  have first: "on_video mem ts (mux_avc2flv ?v ft 1 dts pts) f = (srs_success, ?f')"
    using b(3) c i(1) assms(4) by (simp add: Let_def video_body_def video_nalu_demux_def is_avc_codec_ok_def)
  have later: "fst (on_video mem ts (mux_avc2flv (be_bytes 4 (of_nat (length w) :: u32) @ w) ft 1 dts pts) ?f') =
      Inl ERROR_HLS_DECODE_ERROR"
    if w: "w \<noteq> []" "length w < 2 ^ 31" "\<not> (length w = 1 \<or> 256 \<le> length w \<and> length w < 512)" for w ts dts pts
  proof -
    let ?x = "be_bytes 4 (of_nat (length w) :: u32) @ w" and ?c' = "config_of mem ?f'"
    let ?q = "packet_of ?f' ft ts (take_bit 24 (pts - dts)) 1"
    obtain b2 where b2: "buf_inv b2" "remaining b2 = ?x"
      "on_video mem ts (mux_avc2flv ?x ft 1 dts pts) ?f' =
        (let r = video_body (avc_parse_sps ?f') (try_annexb_first ?f') 1 b2 (?c', ?q)
         in (fst r, ?f'\<lparr>fmt_raw := Some (?x, int (length ?x)), fmt_vcodec := Some (fst (snd r)),
                      fmt_video := Some (snd (snd r))\<rparr>))"
      by (rule on_video_flv [OF assms(9,10)])
    have "start_code (remaining b2) = None" using start_code_length [of "length w" w] w b2(2) by auto
    note n = annexb_refuses [OF b2(1) this, of ?c' ?q]
    have "vco_id ?c' = 7" "avc_extra_data ?c' \<noteq> []" "payload_format ?c' = SrsAvcPayloadFormatAnnexb"
      using c(2) by (simp_all add: config_of_def)
    then show ?thesis
      unfolding b2(3) using n by (simp add: Let_def video_body_def video_nalu_demux_def is_avc_codec_ok_def)
  qed
  show ?thesis
    using first later i mux_ipb_frame_bytes(1) [of "length u" u] mux_ipb_frame_bytes(1) [of "length w" w for w]
    by (intro exI [of _ ?v] exI [of _ ?f']) (simp add: parsed_as_def)
qed

lemma nal_unit_nonzero: "u \<noteq> [] \<Longrightarrow> 0 \<notin> set u \<Longrightarrow> nal_unit u"
  unfolding nal_unit_def
proof (intro conjI allI impI)
  fix i
  assume u: "0 \<notin> set u" "i < length u"
  then obtain x xs where "drop i u = x # xs" "x \<noteq> 0"
    by (metis Cons_nth_drop_Suc nth_mem)
  then show "start_code (drop i u) = None" by (cases xs; cases "tl xs") auto
qed (auto dest: last_in_set)

theorem avc_format_guess_wrong_witness:
  "\<exists>v f'. avc_mux_ipb_frame (0x65 # replicate 299 1, 300) = Inr v \<and>
    on_video zero_memory 40 (mux_avc2flv v 1 1 40 80) demo_format = (srs_success, f') \<and>
    parsed_as f' [44 # 0x65 # replicate 299 1] 1 40 40 \<and>
    (\<exists>v. avc_mux_ipb_frame ([0x41, 9], 2) = Inr v \<and>
      fst (on_video zero_memory 80 (mux_avc2flv v 1 1 80 80) f') = Inl ERROR_HLS_DECODE_ERROR)"
proof -
  let ?u = "0x65 # replicate 299 (1 :: u8)" and ?h = zero_memory
  obtain v f' where *: "avc_mux_ipb_frame (?u, int (length ?u)) = Inr v"
    "on_video ?h 40 (mux_avc2flv v 1 1 40 80) demo_format = (srs_success, f')"
    "parsed_as f' [of_nat (length ?u mod 256) # ?u] 1 40 (take_bit 24 (80 - 40))"
    "\<And>w ts dts pts. w \<noteq> [] \<and> length w < 2 ^ 31 \<and> \<not> (length w = 1 \<or> 256 \<le> length w \<and> length w < 512) \<longrightarrow>
      (\<exists>v. avc_mux_ipb_frame (w, int (length w)) = Inr v \<and>
        fst (on_video ?h ts (mux_avc2flv v 1 1 dts pts) f') = Inl ERROR_HLS_DECODE_ERROR)"
    using avc_format_guess_wrong [of demo_format "(SrsVideoCodecConfig_new zero_memory)\<lparr>avc_extra_data := [1], NAL_unit_length := 3\<rparr>"
        ?u 1 ?h 40 40 80] nal_unit_nonzero [of ?u]
    by (auto simp: demo_format_def SrsVideoCodecConfig_new_def SrsFormat_new_def)
  from *(4) [of "[0x41, 9]" 80 80 80] *(1-3) show ?thesis by auto
qed

section \<open>The sequence header\<close>

lemma read_sets_one:
  assumes "buf_inv b" "remaining b = be_bytes 2 (of_nat (length s) :: u16) @ s @ r" "s \<noteq> []" "length s < 65536"
  shows "read_sets (Suc 0) b s0 = (Inr (advance (2 + length s) b), s)"
proof -
  note 1 = read_2_front [OF assms(1,2)]
  have l: "uint (of_nat (length s) :: u16) = int (length s)" using assms(4) by (simp add: uint_nat unat_of_nat)
  have "(0 :: u16) < of_nat (length s)" using assms(3,4) by (simp add: word_less_nat_alt unat_of_nat)
  then show ?thesis
    using assms 1 l read_bytes_front [OF 1(2,3)] by (simp add: require_remaining)
qed

declare read_sets.simps(2) [simp del]

lemma avc_demux_sps_keeps:
  "avc_demux_sps ps v = (r, v') \<Longrightarrow> \<exists>w h. v' = v\<lparr>vco_width := w, vco_height := h\<rparr>"
proof -
  have self: "\<exists>w h. v = v\<lparr>vco_width := w, vco_height := h\<rparr>" for v :: SrsVideoCodecConfig
    by (rule exI [of _ "vco_width v"], rule exI [of _ "vco_height v"]) simp
  show "avc_demux_sps ps v = (r, v') \<Longrightarrow> ?thesis"
    using self [of v]
    by (auto simp: avc_demux_sps_def avc_demux_sps_rbsp_def with_res_def Let_def split: if_splits sum.splits prod.splits)
qed

lemma avc_sequence_header_demux:
  assumes "buf_inv b" "4 \<le> length sps" "length sps < 65536" "pps \<noteq> []" "length pps < 65536"
    and "avc_mux_sequence_header sps pps = Inr sh" "remaining b = sh"
  obtains r w h where "avc_demux_sps_pps ps b v = (r, v\<lparr>avc_extra_data := sh, avc_profile := sps ! 1,
    avc_level := sps ! 3, NAL_unit_length := 3, sequenceParameterSetNALUnit := sps,
    pictureParameterSetNALUnit := pps, vco_width := w, vco_height := h\<rparr>)"
proof -
  let ?r6 = "be_bytes 2 (of_nat (length sps) :: u16) @ sps @ [0x01] @ be_bytes 2 (of_nat (length pps) :: u16) @ pps"
  have sh: "sh = [0x01, sps ! 1, 0x00, sps ! 3, 0xff, 0xe1] @ ?r6"
    using avc_sequence_header_bytes [OF assms(2), of pps] assms(6) by simp
  let ?v1 = "v\<lparr>avc_extra_data := sh, avc_profile := sps ! 1, avc_level := sps ! 3, NAL_unit_length := 3\<rparr>"
  let ?v2 = "?v1\<lparr>sequenceParameterSetNALUnit := sps, pictureParameterSetNALUnit := pps\<rparr>"
  have s1: "remaining b = 0x01 # [sps ! 1, 0x00, sps ! 3, 0xff, 0xe1] @ ?r6" using assms(7) sh by simp
  note 1 = read_1_Cons [OF assms(1) s1]
  note 2 = read_1_Cons [OF 1(2), of "sps ! 1" "[0x00, sps ! 3, 0xff, 0xe1] @ ?r6"]
  note 3 = read_1_Cons [of "advance 2 b" "0x00" "[sps ! 3, 0xff, 0xe1] @ ?r6"]
  note 4 = read_1_Cons [of "advance 3 b" "sps ! 3" "[0xff, 0xe1] @ ?r6"]
  note 5 = read_1_Cons [of "advance 4 b" "0xff" "[0xe1] @ ?r6"]
  note 6 = read_1_Cons [of "advance 5 b" "0xe1" "?r6"]
  have b6: "buf_inv (advance 6 b)" "remaining (advance 6 b) = ?r6"
    using advance_ok [OF assms(1), of 6] s1 by simp_all
  note 7 = read_sets_one [OF b6(1), of sps "[0x01] @ be_bytes 2 (of_nat (length pps) :: u16) @ pps"]
  let ?b7 = "advance (8 + length sps) b"
  have b7: "buf_inv ?b7" "remaining ?b7 = 0x01 # be_bytes 2 (of_nat (length pps) :: u16) @ pps"
    using advance_ok [OF b6(1), of "2 + length sps"] b6(2) by (simp_all add: ac_simps)
  note 8 = read_1_Cons [OF b7]
  note 9 = read_sets_one [OF 8(2), of pps "[]"]
  obtain r v' where d: "avc_demux_sps ps ?v2 = (r, v')" by fastforce
  have pps: "demux_pps ps ?b7 (?v1\<lparr>sequenceParameterSetNALUnit := sps\<rparr>) = (r, v')"
    using 8 9 d assms(4,5) b7 by (simp add: demux_pps_def require_remaining)
  have "sps \<noteq> []" using assms(2) by auto
  then have "demux_sps ps (advance 5 b) ?v1 = (r, v')"
    using 6 7 pps assms(2,3) b6 advance_ok [OF assms(1), of 5] s1
    by (auto simp: demux_sps_def require_remaining ac_simps)
  then have "avc_demux_sps_pps ps b v = (r, v')"
    using 1 2 3 4 5 assms(7) s1 left_remaining [OF assms(1)] assms(1) sh
    by (simp add: avc_demux_sps_pps_def require_remaining Let_def eval_nat_numeral)
  moreover obtain w h where "v' = ?v2\<lparr>vco_width := w, vco_height := h\<rparr>" using avc_demux_sps_keeps [OF d] by blast
  ultimately show thesis using that by simp
qed

lemma avc_header_parsed:
  assumes "4 \<le> length sps" "length sps < 65536" "pps \<noteq> []" "length pps < 65536"
    and "case fmt_vcodec f of None \<Rightarrow> True | Some c \<Rightarrow> payload_format c \<noteq> SrsAvcPayloadFormatAnnexb"
  shows "\<exists>sh f' c. avc_mux_sequence_header sps pps = Inr sh \<and>
    snd (on_video mem ts (mux_avc2flv sh 1 0 dts pts) f) = f' \<and> fmt_vcodec f' = Some c \<and>
    sequenceParameterSetNALUnit c = sps \<and> pictureParameterSetNALUnit c = pps \<and> avc_extra_data c = sh \<and>
    avc_profile c = sps ! 1 \<and> avc_level c = sps ! 3 \<and> is_avc_sequence_header f' \<and> ready_for_flv f' \<and>
    vco_id c = 7 \<and> fmt_acodec f' = fmt_acodec f \<and>
    (\<exists>p. fmt_video f' = Some p \<and> pvp_frame_type p = 1 \<and> pvp_avc_packet_type p = 0)"
proof -
  obtain sh where sh: "avc_mux_sequence_header sps pps = Inr sh" "sh \<noteq> []"
    using avc_sequence_header_bytes [OF assms(1), of pps] by simp
  obtain b where b: "buf_inv b" "remaining b = sh"
    "on_video mem ts (mux_avc2flv sh 1 0 dts pts) f =
      (let r = video_body (avc_parse_sps f) (try_annexb_first f) 0 b
                 (config_of mem f, packet_of f 1 ts (take_bit 24 (pts - dts)) 0)
       in (fst r, f\<lparr>fmt_raw := Some (sh, int (length sh)), fmt_vcodec := Some (fst (snd r)),
                    fmt_video := Some (snd (snd r))\<rparr>))"
    by (rule on_video_flv [of 1]) simp_all
  obtain r w h where d: "avc_demux_sps_pps (avc_parse_sps f) b (config_of mem f) = (r, (config_of mem f)\<lparr>avc_extra_data := sh,
    avc_profile := sps ! 1, avc_level := sps ! 3, NAL_unit_length := 3, sequenceParameterSetNALUnit := sps,
    pictureParameterSetNALUnit := pps, vco_width := w, vco_height := h\<rparr>)"
    by (rule avc_sequence_header_demux [OF b(1) assms(1-4) sh(1) b(2)])
  have c: "vco_id (config_of mem f) = 7" "payload_format (config_of mem f) \<noteq> SrsAvcPayloadFormatAnnexb"
    using assms(5) by (auto simp: config_of_def SrsVideoCodecConfig_new_def split: option.splits)
  show ?thesis
    using sh c b(3) d
    by (intro exI [of _ sh] exI [of _ "snd (on_video mem ts (mux_avc2flv sh 1 0 dts pts) f)"])
      (simp add: Let_def video_body_def is_avc_sequence_header_def ready_for_flv_def packet_of_fields)
qed



section \<open>Emulation prevention\<close>

text \<open>What an encoder does to a raw byte sequence (7.4.1 of the H.264 standard): a byte 3 goes in front of
  every byte up to 3 that follows two zero bytes of the NAL unit. \<open>z\<close> counts these zero bytes.\<close>

fun nal_escape :: "nat \<Rightarrow> u8 list \<Rightarrow> u8 list" where
  "nal_escape z [] = []"
| "nal_escape z (x # xs) =
     (if z \<ge> 2 \<and> x \<le> 3 then 3 # x # nal_escape (if x = 0 then 1 else 0) xs
      else x # nal_escape (if x = 0 then z + 1 else 0) xs)"

definition zeros :: "u8 list \<Rightarrow> nat" where
  "zeros xs = length (takeWhile (\<lambda>x. x = 0) (rev xs))"

lemma zeros_simps [simp]: "zeros [] = 0" "zeros (xs @ [x]) = (if x = 0 then Suc (zeros xs) else 0)"
  by (simp_all add: zeros_def)

lemma zeros_two [simp]:
  "zeros [x] = (if x = 0 then 1 else 0)"
  "zeros (xs @ [x, y]) = (if y = 0 then if x = 0 then Suc (Suc (zeros xs)) else 1 else 0)"
  by (simp_all add: zeros_def)

lemma zeros_le: "zeros xs \<le> length xs"
  unfolding zeros_def by (metis length_rev length_takeWhile_le)

lemma zeros_end: "n \<le> zeros xs \<Longrightarrow> \<exists>ys. xs = ys @ replicate n 0"
proof (induction n arbitrary: xs)
  case (Suc n)
  then obtain ys y where xs: "xs = ys @ [y]" by (cases xs rule: rev_cases) auto
  with Suc show ?case by (fastforce simp: replicate_append_same [symmetric] split: if_splits)
qed simp

lemma two_zeros: "length xs \<ge> 2 \<and> xs ! (length xs - 2) = 0 \<and> xs ! (length xs - 1) = 0 \<longleftrightarrow> 2 \<le> zeros xs"
proof (cases xs rule: rev_cases)
  case (snoc ys y)
  then show ?thesis by (cases ys rule: rev_cases) (auto simp: nth_append)
qed simp

lemma rbsp_loop_escape:
  assumes "buf_inv b" "remaining b = nal_escape z xs" "\<nexists>p q. acc @ xs = p @ [0, 0, 0, 3] @ q"
    and "z = 0 \<and> zeros acc = 0 \<or> z = 1 \<and> (zeros acc = 1 \<or> 3 \<le> zeros acc) \<or> z = 2 \<and> 2 \<le> zeros acc"
  shows "rbsp_loop b acc = Inr (acc @ xs)"
  using assms
proof (induction xs arbitrary: b z acc)
  case Nil
  then show ?case by (simp add: rbsp_loop.simps [of b] buf_empty_remaining)
next
  case (Cons x xs)
  have ne: "\<not> buf_empty b" using Cons.prems(1,2) by (simp add: buf_empty_remaining split: if_splits)
  have rest: "\<nexists>p q. (acc @ [x]) @ xs = p @ [0, 0, 0, 3] @ q" using Cons.prems(3) by simp
  show ?case
  proof (cases "z \<ge> 2 \<and> x \<le> 3")
    case True
    then have r: "remaining b = 3 # x # nal_escape (if x = 0 then 1 else 0) xs" using Cons.prems(2) by simp
    note 1 = read_1_Cons [OF Cons.prems(1) r]
    note 2 = read_1_Cons [OF 1(2,3)]
    have "rbsp_loop (advance (Suc (Suc 0)) b) (acc @ [x]) = Inr ((acc @ [x]) @ xs)"
      using 2 Cons.prems(4) True rest by (intro Cons.IH [where z = "if x = 0 then 1 else 0"]) auto
    then show ?thesis
      using 1 2 ne True Cons.prems(4) two_zeros [of acc]
      by (subst rbsp_loop.simps) (auto simp: buf_empty_remaining not_less)
  next
    case False
    then have r: "remaining b = x # nal_escape (if x = 0 then z + 1 else 0) xs"
      using Cons.prems(2) by (simp split: if_splits)
    note 1 = read_1_Cons [OF Cons.prems(1) r]
    have IH: "rbsp_loop (advance 1 b) (acc @ [x]) = Inr ((acc @ [x]) @ xs)"
      using 1 Cons.prems(4) False rest
      by (intro Cons.IH [where z = "if x = 0 then z + 1 else 0"]) (auto split: if_splits)
    have "\<not> (2 \<le> zeros acc \<and> x = 3)"
    proof
      assume *: "2 \<le> zeros acc \<and> x = 3"
      then have "3 \<le> zeros acc" using False Cons.prems(4) by auto
      then obtain ys where "acc = ys @ replicate 3 0" using zeros_end by blast
      then have "acc @ x # xs = ys @ [0, 0, 0, 3] @ xs" using * by (simp add: numeral_3_eq_3)
      then show False using Cons.prems(3) by blast
    qed
    then show ?thesis
      using 1 ne IH two_zeros [of acc] by (subst rbsp_loop.simps) auto
  qed
qed

text \<open>
  Removing the emulation prevention bytes inverts the encoder on every raw byte sequence that does
  not contain the bytes \<open>00 00 00 03\<close>.
\<close>

theorem emulation_bytes_roundtrip:
  assumes "\<nexists>p q. xs = p @ [0, 0, 0, 3] @ q"
  shows "srs_rbsp_remove_emulation_bytes (SrsBuffer_new (nal_escape 0 xs)) = Inr xs"
  using rbsp_loop_escape [OF buf_inv_new remaining_new, of "[]" xs 0] assms
  by (simp add: srs_rbsp_remove_emulation_bytes_def)

theorem emulation_bytes_roundtrip_witness:
  "nal_escape 0 [0, 0, 1, 0, 0, 0] = [0, 0, 3, 1, 0, 0, 3, 0] \<and>
   srs_rbsp_remove_emulation_bytes (SrsBuffer_new [0, 0, 3, 1, 0, 0, 3, 0]) = Inr [0, 0, 1, 0, 0, 0]"
proof -
  have "\<nexists>p q. [0, 0, 1, 0, 0, 0 :: u8] = p @ [0, 0, 0, 3] @ q" by (auto simp: append_eq_Cons_conv Cons_eq_append_conv)
  from emulation_bytes_roundtrip [OF this] show ?thesis by simp
qed

text \<open>The excluded bytes: the test for two zero bytes looks at the bytes written instead of the bytes read, so
  that the zero after a removed byte counts twice, and a 3 of the data is dropped.\<close>

lemma emulation_bytes_lost:
  "srs_rbsp_remove_emulation_bytes (SrsBuffer_new (nal_escape 0 [0, 0, 0, 3, 1])) = Inr [0, 0, 0, 1]"
  by (simp add: srs_rbsp_remove_emulation_bytes_def SrsBuffer_new_def rbsp_loop.simps buf_empty_def read_1bytes_def
      read_be_def next_bytes_def require_def be_word_def)

section \<open>AAC\<close>

lemma small_words:
  "(w :: u8) < 16 \<Longrightarrow> w \<in> {0, 1, 2, 3, 4, 5, 6, 7, 8, 9, 10, 11, 12, 13, 14, 15}"
  "(w :: u8) < 8 \<Longrightarrow> w \<in> {0, 1, 2, 3, 4, 5, 6, 7}"
  "(w :: u8) < 4 \<Longrightarrow> w \<in> {0, 1, 2, 3}"
proof -
  have *: "w \<in> of_nat ` {..<n}" if "unat w < n" for n and w :: u8
    using that by (intro image_eqI [of _ _ "unat w"]) simp_all
  show "w < 16 \<Longrightarrow> w \<in> {0, 1, 2, 3, 4, 5, 6, 7, 8, 9, 10, 11, 12, 13, 14, 15}"
    using * [of w 16] by (auto simp: word_less_nat_alt lessThan_nat_numeral lessThan_Suc)
  show "w < 8 \<Longrightarrow> w \<in> {0, 1, 2, 3, 4, 5, 6, 7}"
    using * [of w 8] by (auto simp: word_less_nat_alt lessThan_nat_numeral lessThan_Suc)
  show "w < 4 \<Longrightarrow> w \<in> {0, 1, 2, 3}"
    using * [of w 4] by (auto simp: word_less_nat_alt lessThan_nat_numeral lessThan_Suc)
qed

lemma ucast_masked:
  "(ucast ((x :: u16) AND 0x0f) :: u8) < 16" "(ucast ((x :: u16) AND 0x07) :: u8) < 8"
proof -
  have "unat ((x :: u16) AND mask n) < 2 ^ n" for n
    by (simp add: unsigned_take_bit_eq flip: take_bit_eq_mask)
  from this [of 4] this [of 3] have "unat (x AND 0x0f) < 16" "unat (x AND 0x07) < 8"
    by (simp_all add: mask_eq_exp_minus_1)
  then show "(ucast (x AND 0x0f) :: u8) < 16" "(ucast (x AND 0x07) :: u8) < 8"
    by (simp_all add: word_less_nat_alt unsigned_ucast_eq take_bit_nat_eq_self)
qed

lemma adts_codec_ranges:
  "aac_object (adts_codec v sfiv abfv) < 4" "sampling_frequency_index (adts_codec v sfiv abfv) < 16"
  "channel_configuration (adts_codec v sfiv abfv) < 8" "sound_format (adts_codec v sfiv abfv) = 10"
  "sound_rate (adts_codec v sfiv abfv) < 4" "sound_size (adts_codec v sfiv abfv) = 1"
  "sound_type (adts_codec v sfiv abfv) = 0 \<or> sound_type (adts_codec v sfiv abfv) = 1"
  using ucast_masked
  by (simp_all add: adts_codec_def Let_def srs_aac_ts2rtmp_def adts_sound_rate_def)

text \<open>The two bytes of the AudioSpecificConfig.\<close>

lemma asc_fields:
  assumes "obj < 4" "i < 16" "ch < 8"
  defines "x \<equiv> (push_bit 3 obj AND 0xf8) OR (drop_bit 1 i AND 0x07)"
    and "y \<equiv> (push_bit 7 i AND 0x80) OR (push_bit 3 ch AND 0x78)"
  shows "drop_bit 3 x AND 0x1f = (obj :: u8)" "(push_bit 1 x AND 0x0e) OR (drop_bit 7 y AND 0x01) = i"
    "drop_bit 3 y AND 0x0f = ch"
proof -
  have "\<forall>obj \<in> {0, 1, 2, 3 :: u8}. \<forall>i \<in> {0, 1, 2, 3, 4, 5, 6, 7, 8, 9, 10, 11, 12, 13, 14, 15 :: u8}.
      drop_bit 3 ((push_bit 3 obj AND 0xf8) OR (drop_bit 1 i AND 0x07)) AND 0x1f = obj \<and>
      push_bit 1 ((push_bit 3 obj AND 0xf8) OR (drop_bit 1 i AND 0x07)) AND 0x0e = push_bit 1 (drop_bit 1 i)"
    by simp
  moreover have "\<forall>ch \<in> {0, 1, 2, 3, 4, 5, 6, 7 :: u8}. \<forall>i \<in> {0, 1, 2, 3, 4, 5, 6, 7, 8, 9, 10, 11, 12, 13, 14, 15 :: u8}.
      drop_bit 3 ((push_bit 7 i AND 0x80) OR (push_bit 3 ch AND 0x78)) AND 0x0f = ch \<and>
      push_bit 1 (drop_bit 1 i) OR (drop_bit 7 ((push_bit 7 i AND 0x80) OR (push_bit 3 ch AND 0x78)) AND 0x01) = i"
    by simp
  ultimately show "drop_bit 3 x AND 0x1f = obj" "(push_bit 1 x AND 0x0e) OR (drop_bit 7 y AND 0x01) = i"
    "drop_bit 3 y AND 0x0f = ch"
    using small_words(3) [OF assms(1)] small_words(1) [OF assms(2)] small_words(2) [OF assms(3)]
    unfolding x_def y_def by metis+
qed

lemma audio_header_fields:
  assumes "ty = 0 \<or> ty = 1" "rate < 4"
  defines "x \<equiv> (ty AND 0x01) OR (push_bit 1 (1 :: u8) AND 0x02) OR (push_bit 2 rate AND 0x0c) OR (push_bit 4 10 AND 0xf0)"
  shows "drop_bit 4 x AND 0x0f = 10"
proof -
  have "\<forall>ty \<in> {0, 1 :: u8}. \<forall>rate \<in> {0, 1, 2, 3 :: u8}.
      drop_bit 4 ((ty AND 0x01) OR (push_bit 1 (1 :: u8) AND 0x02) OR (push_bit 2 rate AND 0x0c) OR (push_bit 4 10 AND 0xf0)) AND 0x0f = 10"
    by simp
  then show ?thesis using small_words(3) [OF assms(2)] assms(1) unfolding x_def by blast
qed

lemma adts_demux_frame:
  assumes "buf_inv b" "remaining b = 0xff # v # be_bytes 2 sfiv @ be_bytes 3 abfv @ d @ r"
    and "v AND 0xf0 = 0xf0" "(v AND 0x0f) AND 0x01 = 1" "c = adts_codec (v AND 0x0f) sfiv (take_bit 24 abfv)"
    and "sint (frame_length c) = int (7 + length d)"
  shows "adts_demux b = Inr (Some ((d @ r, int (length d)), c), advance (7 + length d) b)"
proof -
  note 1 = read_1_Cons [OF assms(1,2)]
  note 2 = read_1_Cons [OF 1(2,3)]
  note 3 = read_2_front [OF 2(2,3)]
  note 4 = read_3_front [OF 3(2,3)]
  have "protection_absent c = 1" using assms(4,5) by (simp add: adts_codec_def Let_def)
  moreover have "deref (remaining b) 0 = Inr 0xff" "deref (remaining b) 1 = Inr v"
    using assms(2) by (simp_all add: deref_def)
  moreover have "pos (advance 7 b) - pos b = 7" by (simp add: pos_def advance_def)
  moreover have "skip (int (length d)) (advance 7 b) = Inr (advance (7 + length d) b)"
    "require (int (length d)) (advance 7 b)" "remaining (advance 7 b) = d @ r"
    using advance_ok [OF 4(2), of "length d"] 4 require_remaining [OF 4(2)] by (simp_all add: eval_nat_numeral)
  ultimately show ?thesis
    using 1 2 3 4 assms
    by (simp add: adts_demux_def srs_aac_startswith_adts_def require_remaining buf_empty_remaining Let_def
        eval_nat_numeral)
qed

lemma aac_sequence_header_ok:
  assumes "c = adts_codec v sfiv abfv" "aac_object c \<noteq> 0" "sampling_frequency_index c \<noteq> 15"
  obtains x y where "aac_mux_sequence_header c = Inr [x, y]" "drop_bit 3 x AND 0x1f = aac_object c"
    "(push_bit 1 x AND 0x0e) OR (drop_bit 7 y AND 0x01) = sampling_frequency_index c"
    "drop_bit 3 y AND 0x0f = channel_configuration c"
proof -
  have "sampling_frequency_index c < 16" using adts_codec_ranges(2) assms(1) by simp
  then have "\<not> 15 \<le> sampling_frequency_index c"
    using assms(3) small_words(1) [of "sampling_frequency_index c"] by (auto simp: word_le_nat_alt)
  then have "aac_mux_sequence_header c =
      Inr [(push_bit 3 (aac_object c) AND 0xf8) OR (drop_bit 1 (sampling_frequency_index c) AND 0x07),
        (push_bit 7 (sampling_frequency_index c) AND 0x80) OR (push_bit 3 (channel_configuration c) AND 0x78)]"
    unfolding aac_mux_sequence_header_def Let_def using assms(2) by (simp only: if_False)
  moreover note asc_fields [of "aac_object c" "sampling_frequency_index c" "channel_configuration c"]
  ultimately show thesis using that adts_codec_ranges(1-3) [of v sfiv abfv] assms(1) by blast
qed

lemma audio_packet_demux:
  assumes "x = (ty AND 0x01) OR (push_bit 1 (1 :: u8) AND 0x02) OR (push_bit 2 rate AND 0x0c) OR (push_bit 4 10 AND 0xf0)"
    and "ty = 0 \<or> ty = 1" "rate < 4"
    and "a = (case fmt_acodec f of None \<Rightarrow> SrsAudioCodecConfig_new | Some a \<Rightarrow> a)"
    and "p = (audio_initialize (case fmt_audio f of None \<Rightarrow> SrsParsedAudioPacket_new | Some p \<Rightarrow> p))
                \<lparr>pp_cts := 0, pp_dts := ts, pap_aac_packet_type := t\<rparr>"
  obtains b where "buf_inv b" "remaining b = d"
    "on_audio ts ([x, t] @ d) f =
      (let (go, r) = aac_body b t (sound_header x a, p, Some (d, int (length d)));
           r' = (if \<not> go then r else and_then r (\<lambda>(a, p, raw). with_res (reset_sound_rate a) (a, p, raw)
                   (\<lambda>a'. (srs_success, a', p, raw))))
       in (fst r', f\<lparr>fmt_acodec := Some (fst (snd r')), fmt_audio := Some (fst (snd (snd r'))),
                     fmt_raw := snd (snd (snd r'))\<rparr>))"
proof -
  let ?b = "SrsBuffer_new ([x, t] @ d)"
  have r: "remaining ?b = x # t # d" by simp
  note 1 = read_1_Cons [OF buf_inv_new r]
  note 2 = read_1_Cons [OF 1(2,3)]
  have id: "drop_bit 4 x AND 0x0f = 10" using audio_header_fields [OF assms(2,3)] assms(1) by simp
  show thesis
  proof (rule that [of "advance (1 + 1) ?b"])
    show "buf_inv (advance (1 + 1) ?b)" "remaining (advance (1 + 1) ?b) = d" using 2 by simp_all
    have l: "left (advance (1 + 1) ?b) = int (length d)" using 2 left_remaining by fastforce
    obtain go r where ab: "aac_body (advance (1 + 1) ?b) t (sound_header x a, p, Some (d, int (length d))) = (go, r)"
      by (meson surj_pair)
    show "on_audio ts ([x, t] @ d) f = (let (go, r) = aac_body (advance (1 + 1) ?b) t
        (sound_header x a, p, Some (d, int (length d)));
           r' = (if \<not> go then r else and_then r (\<lambda>(a, p, raw). with_res (reset_sound_rate a) (a, p, raw)
                   (\<lambda>a'. (srs_success, a', p, raw))))
       in (fst r', f\<lparr>fmt_acodec := Some (fst (snd r')), fmt_audio := Some (fst (snd (snd r'))),
                     fmt_raw := snd (snd (snd r'))\<rparr>))"
      using 1 2 id l ab assms(4,5)
      by (simp add: on_audio_def audio_aac_demux_def sound_header_def require_remaining case_prod_beta Let_def)
  qed
qed

text \<open>The first byte of the FLV packets for a frame of the codec \<open>c\<close>.\<close>

definition aac_tag :: "SrsRawAacStreamCodec \<Rightarrow> u8" where
  "aac_tag c = (sound_type c AND 0x01) OR (push_bit 1 1 AND 0x02) OR (push_bit 2 (sound_rate c) AND 0x0c) OR (push_bit 4 10 AND 0xf0)"

text \<open>The codec that the parser holds agrees with \<open>c\<close>.\<close>

definition aac_agrees :: "SrsRawAacStreamCodec \<Rightarrow> SrsAudioCodecConfig \<Rightarrow> bool" where
  "aac_agrees c a \<longleftrightarrow> aco_object a = aac_object c \<and> aac_sample_rate a = sampling_frequency_index c \<and>
     aac_channels a = channel_configuration c \<and> aac_extra_data a \<noteq> []"

lemma reset_sound_rate_agrees:
  assumes "aac_agrees c a" "sampling_frequency_index c < 16"
  shows "\<exists>a'. reset_sound_rate a = Inr a' \<and> aac_agrees c a' \<and> aco_id a' = aco_id a"
  using assms by (simp add: aac_agrees_def reset_sound_rate_def srs_aac_srates_def word_less_nat_alt Let_def)

lemma aac_header_parsed:
  assumes c: "c = adts_codec v sfiv abfv" and o: "aac_object c \<noteq> 0"
    and xy: "drop_bit 3 x AND 0x1f = aac_object c"
      "(push_bit 1 x AND 0x0e) OR (drop_bit 7 y AND 0x01) = sampling_frequency_index c"
      "drop_bit 3 y AND 0x0f = channel_configuration c"
  obtains f1 a1 where "on_audio ts ([aac_tag c, 0] @ [x, y]) f = (srs_success, f1)" "fmt_acodec f1 = Some a1" "aac_agrees c a1"
    "is_aac_sequence_header f1" "fmt_vcodec f1 = fmt_vcodec f" "try_annexb_first f1 = try_annexb_first f"
    "avc_parse_sps f1 = avc_parse_sps f" "\<exists>p. fmt_audio f1 = Some p \<and> pap_aac_packet_type p = 0" "aco_id a1 = 10"
proof -
  note rg = adts_codec_ranges [of v sfiv abfv, folded c]
  have id: "drop_bit 4 (aac_tag c) AND 0x0f = 10" unfolding aac_tag_def by (rule audio_header_fields [OF rg(7,5)])
  let ?a = "sound_header (aac_tag c) (case fmt_acodec f of None \<Rightarrow> SrsAudioCodecConfig_new | Some a \<Rightarrow> a)"
  let ?p = "(audio_initialize (case fmt_audio f of None \<Rightarrow> SrsParsedAudioPacket_new | Some p \<Rightarrow> p))
    \<lparr>pp_cts := 0, pp_dts := ts, pap_aac_packet_type := 0\<rparr>"
  let ?a' = "?a\<lparr>aac_extra_data := [x, y], aac_channels := channel_configuration c,
    aac_sample_rate := sampling_frequency_index c, aco_object := aac_object c\<rparr>"
  obtain b where b: "buf_inv b" "remaining b = [x, y]"
    "on_audio ts ([aac_tag c, 0] @ [x, y]) f =
      (let (go, r) = aac_body b 0 (?a, ?p, Some ([x, y], int (length [x, y])));
           r' = (if \<not> go then r else and_then r (\<lambda>(a, p, raw). with_res (reset_sound_rate a) (a, p, raw)
                   (\<lambda>a'. (srs_success, a', p, raw))))
       in (fst r', f\<lparr>fmt_acodec := Some (fst (snd r')), fmt_audio := Some (fst (snd (snd r'))),
                     fmt_raw := snd (snd (snd r'))\<rparr>))"
    by (rule audio_packet_demux [OF aac_tag_def rg(7,5) refl refl, where t = 0 and d = "[x, y]" and f = f and ts = ts])
  have "audio_aac_sequence_header_demux [x, y] (?a\<lparr>aac_extra_data := [x, y]\<rparr>) = (srs_success, ?a')"
    using xy o read_1_Cons [OF buf_inv_new, of "[x, y]" x "[y]"] read_1_Cons [of "advance 1 (SrsBuffer_new [x, y])" y "[]"]
    by (simp add: audio_aac_sequence_header_demux_def Let_def require_remaining)
  then have body: "aac_body b 0 (?a, ?p, Some ([x, y], int (length [x, y]))) =
      (True, srs_success, ?a', ?p, Some ([x, y], int (length [x, y])))"
    using b(1,2) left_remaining [OF b(1)] by (simp add: aac_body_def)
  obtain a2 where "reset_sound_rate ?a' = Inr a2" "aac_agrees c a2" "aco_id a2 = 10"
    using reset_sound_rate_agrees [of c ?a'] rg(2) id by (auto simp: sound_header_def aac_agrees_def)
  then show thesis
    using that [of "f\<lparr>fmt_acodec := Some a2, fmt_audio := Some ?p, fmt_raw := Some ([x, y], int (length [x, y]))\<rparr>" a2]
      b(3) body by (simp add: is_aac_sequence_header_def)
qed

lemma aac_frame_parsed:
  assumes c: "c = adts_codec v sfiv abfv" and a1: "fmt_acodec f1 = Some a1" "aac_agrees c a1" and d: "d \<noteq> []"
  obtains f2 a2 p2 where "on_audio ts ([aac_tag c, 1] @ d) f1 = (srs_success, f2)" "fmt_acodec f2 = Some a2" "fmt_audio f2 = Some p2"
    "aac_agrees c a2" "pp_samples p2 = [d]" "pp_dts p2 = ts"
    "aco_id a2 = 10" "pap_aac_packet_type p2 = 1" "fmt_vcodec f2 = fmt_vcodec f1" "try_annexb_first f2 = try_annexb_first f1"
proof -
  note rg = adts_codec_ranges [of v sfiv abfv, folded c]
  let ?a = "sound_header (aac_tag c) (case fmt_acodec f1 of None \<Rightarrow> SrsAudioCodecConfig_new | Some a \<Rightarrow> a)"
  let ?p = "(audio_initialize (case fmt_audio f1 of None \<Rightarrow> SrsParsedAudioPacket_new | Some p \<Rightarrow> p))
    \<lparr>pp_cts := 0, pp_dts := ts, pap_aac_packet_type := 1\<rparr>"
  obtain b where b: "buf_inv b" "remaining b = d"
    "on_audio ts ([aac_tag c, 1] @ d) f1 =
      (let (go, r) = aac_body b 1 (?a, ?p, Some (d, int (length d)));
           r' = (if \<not> go then r else and_then r (\<lambda>(a, p, raw). with_res (reset_sound_rate a) (a, p, raw)
                   (\<lambda>a'. (srs_success, a', p, raw))))
       in (fst r', f1\<lparr>fmt_acodec := Some (fst (snd r')), fmt_audio := Some (fst (snd (snd r'))),
                     fmt_raw := snd (snd (snd r'))\<rparr>))"
    by (rule audio_packet_demux [OF aac_tag_def rg(7,5) refl refl, where t = 1 and d = d and f = f1 and ts = ts])
  have "add_sample (d, int (length d)) ?p = (srs_success, ?p\<lparr>pp_samples := [d]\<rparr>)"
    using d by (simp add: add_sample_def audio_initialize_def SrsMaxNbSamples_def frame_string_def)
  then have body: "aac_body b 1 (?a, ?p, Some (d, int (length d))) =
      (True, srs_success, ?a, ?p\<lparr>pp_samples := [d]\<rparr>, Some (d, int (length d)))"
    using b(1,2) left_remaining [OF b(1)] a1 by (simp add: aac_body_def is_aac_codec_ok_def sound_header_def aac_agrees_def)
  have id: "drop_bit 4 (aac_tag c) AND 0x0f = 10" unfolding aac_tag_def by (rule audio_header_fields [OF rg(7,5)])
  obtain a2 where "reset_sound_rate ?a = Inr a2" "aac_agrees c a2" "aco_id a2 = 10"
    using reset_sound_rate_agrees [of c ?a] rg(2) a1 id by (auto simp: sound_header_def aac_agrees_def)
  then show thesis
    using that [of "f1\<lparr>fmt_acodec := Some a2, fmt_audio := Some (?p\<lparr>pp_samples := [d]\<rparr>), fmt_raw := Some (d, int (length d))\<rparr>" a2]
      b(3) body by simp
qed



end
