(* ===== verification/Ts_Handler_Props.thy ===== *)
theory Ts_Handler_Props
  imports Ts_Handler Format_Props
begin

text \<open>
  What the transport stream handler hands to the live source: the units of a PES packet, in order and
  unchanged; never a frame before its sequence header; and the inputs that stop the server.
\<close>

section \<open>Delivery of H.264 units\<close>

text \<open>The packets handed to the live source so far, the last one first.\<close>

definition sent_packets :: "'a TsHandlerAdapter_scheme \<Rightarrow> SrsMediaPacket list option" where
  "sent_packets st = Option.bind (th_source_bridge st) br_source"

definition accepting :: "live_source \<Rightarrow> bool" where
  "accepting on_frame \<longleftrightarrow> (\<forall>sent p. on_frame sent p = srs_success)"

text \<open>A NAL unit that carries picture data.\<close>

definition h264_slice :: "u8 list \<Rightarrow> bool" where
  "h264_slice u \<longleftrightarrow> nal_unit u \<and> length u < 2 ^ 31 \<and> hd u AND 0x1f \<notin> {7, 8, 9}"

definition slice_type :: "u8 list \<Rightarrow> u8" where
  "slice_type u = (if hd u AND 0x1f = 5 then 1 else 2)"

definition slice_packet :: "u32 \<Rightarrow> u32 \<Rightarrow> u8 list \<Rightarrow> SrsMediaPacket" where
  "slice_packet dts pts u = \<lparr>pkt_timestamp = uint dts, pkt_message_type = SrsFrameTypeVideo, pkt_stream_id = 0,
     pkt_payload = Some (mux_avc2flv (be_bytes 4 (of_nat (length u) :: u32) @ u) (slice_type u) 1 dts pts)\<rparr>"

text \<open>A handler that has sent its sequence header and can deliver.\<close>

definition ready_handler :: "'a TsHandlerAdapter_scheme \<Rightarrow> bool" where
  "ready_handler st \<longleftrightarrow> h264_sps_pps_sent st \<and> sent_packets st \<noteq> None \<and> \<not> asm_locked (th_stats st)"

lemma update_both_unlocked:
  "\<not> asm_locked m \<Longrightarrow> \<exists>m'. update_both cid f m = Inr m' \<and> \<not> asm_locked m'"
  by (cases "sm_find (asm_connections m) cid")
    (simp_all add: update_both_def get_connection_def asm_lock_def asm_unlock_def)

lemma deref_0: "u \<noteq> [] \<Longrightarrow> deref (u @ r) 0 = Inr (hd u)"
  by (cases u) (simp_all add: deref_def)

lemma push_and_count:
  assumes "accepting on_frame" "ready_handler st" "sent_packets st = Some sent"
  shows "\<exists>st'. and_then (push_to_live_source on_frame t ts d st) (th_update_frame_stats v k) = (srs_success, st') \<and>
    ready_handler st' \<and>
    sent_packets st' = Some (\<lparr>pkt_timestamp = uint ts, pkt_message_type = t, pkt_stream_id = 0, pkt_payload = Some d\<rparr> # sent)"
proof -
  obtain br where br: "th_source_bridge st = Some br" "br_source br = Some sent"
    using assms(3) by (auto simp: sent_packets_def bind_eq_Some_conv)
  obtain m where "update_frame_stats (th_connection_id st) v k False (th_stats st) = Inr m" "\<not> asm_locked m"
    using assms(2) update_both_unlocked unfolding update_frame_stats_def ready_handler_def by blast
  then show ?thesis
    using assms br
    by (simp add: push_to_live_source_def th_update_frame_stats_def Let_def accepting_def sent_packets_def ready_handler_def)
qed

lemma slice_delivered:
  assumes "accepting on_frame" "ready_handler st" "sent_packets st = Some sent" "h264_slice u"
  shows "\<exists>st'. on_h264_unit on_frame drops dts pts (u @ r, int (length u)) st = (srs_success, st') \<and>
    ready_handler st' \<and> sent_packets st' = Some (slice_packet dts pts u # sent)"
proof -
  have u: "u \<noteq> []" "hd u AND 0x1f \<noteq> 7" "hd u AND 0x1f \<noteq> 8" "hd u AND 0x1f \<noteq> 9"
    using assms(4) by (auto simp: h264_slice_def nal_unit_def)
  have "on_h264_unit on_frame drops dts pts (u @ r, int (length u)) st =
      (case write_h264_ipb_frame on_frame (u @ r, int (length u)) dts pts st of
             (Inl e, st1) \<Rightarrow>
               if \<not> crashes e \<and> mentions_drop drops st e then (srs_success, st1) else (Inl e, st1)
           | (Inr u, st1) \<Rightarrow> (Inr u, st1))"
    using u by (simp add: on_h264_unit_def deref_0 avc_is_sps_def avc_is_pps_def avc_nalu_type_is_def)
  moreover have "write_h264_ipb_frame on_frame (u @ r, int (length u)) dts pts st =
      and_then (push_to_live_source on_frame SrsFrameTypeVideo dts
        (mux_avc2flv (be_bytes 4 (of_nat (length u) :: u32) @ u) (slice_type u) 1 dts pts) st)
        (th_update_frame_stats True (slice_type u = 1))"
    using u(1) assms(2) mux_ipb_frame_bytes(1) [of "length u" "u @ r"]
    by (simp add: write_h264_ipb_frame_def deref_0 slice_type_def ready_handler_def)
  ultimately show ?thesis
    using push_and_count [OF assms(1-3), of SrsFrameTypeVideo dts
        "mux_avc2flv (be_bytes 4 (of_nat (length u) :: u32) @ u) (slice_type u) 1 dts pts" True "slice_type u = 1"]
    by (auto simp: slice_packet_def)
qed

lemma slices_delivered:
  assumes "accepting on_frame" "list_all (\<lambda>(n, u). h264_slice u) us"
    and "ready_handler st" "sent_packets st = Some sent" "buf_inv b" "remaining b = annexb_stream us"
  shows "\<exists>st'. h264_loop on_frame drops dts pts b st = (srs_success, st') \<and> ready_handler st' \<and>
    sent_packets st' = Some (rev (map (\<lambda>(n, u). slice_packet dts pts u) us) @ sent)"
  using assms(2-)
proof (induction us arbitrary: b st sent)
  case Nil
  then show ?case by (auto simp: h264_loop.simps buf_empty_remaining)
next
  case (Cons nu us)
  obtain n u where nu: "nu = (n, u)" by fastforce
  have u: "h264_slice u" "nal_unit u" using Cons.prems(1) nu by (auto simp: h264_slice_def)
  obtain b' where b': "avc_annexb_demux b = Inr (Some (u @ annexb_stream us, int (length u)), b')"
      "buf_inv b'" "remaining b' = annexb_stream us"
    using annexb_demux_unit [OF Cons.prems(4) Cons.prems(5) [unfolded nu] u(2)]
    unfolding avc_annexb_demux_def by blast
  obtain st1 where st1: "on_h264_unit on_frame drops dts pts (u @ annexb_stream us, int (length u)) st = (srs_success, st1)"
      "ready_handler st1" "sent_packets st1 = Some (slice_packet dts pts u # sent)"
    using slice_delivered [OF assms(1) Cons.prems(2,3) u(1)] by blast
  have "\<not> buf_empty b" using Cons.prems(4,5) nu by (simp add: buf_empty_remaining annexb_code_def)
  moreover have "u \<noteq> []" using u(2) by (simp add: nal_unit_def)
  ultimately have "h264_loop on_frame drops dts pts b st = h264_loop on_frame drops dts pts b' st1"
    using b'(1) st1(1) by (simp add: h264_loop.simps [of _ _ _ _ b])
  then show ?case
    using Cons.IH [OF _ st1(2,3) b'(2,3)] Cons.prems(1) nu by auto
qed

text \<open>The parser of the live source on the packets it gets: result and samples of each.\<close>

fun parse_packets ::
    "SrsVideoCodecConfig \<Rightarrow> SrsMediaPacket list \<Rightarrow> SrsFormat \<Rightarrow> (unit res \<times> u8 list list) list" where
  "parse_packets mem [] f = []"
| "parse_packets mem (p # ps) f =
     (case on_video mem (pkt_timestamp p) (the (pkt_payload p)) f of
        (r, f') \<Rightarrow> (r, case fmt_video f' of None \<Rightarrow> [] | Some v \<Rightarrow> pp_samples v) # parse_packets mem ps f')"

definition length_prefixed :: "SrsFormat \<Rightarrow> bool" where
  "length_prefixed f \<longleftrightarrow> ready_for_flv f \<and> (\<exists>c. fmt_vcodec f = Some c \<and> payload_format c = SrsAvcPayloadFormatIbmf)"

lemma parse_slices:
  assumes "list_all (\<lambda>(n, u). h264_slice u) us" "length_prefixed f"
  shows "parse_packets mem (map (\<lambda>(n, u). slice_packet dts pts u) us) f = map (\<lambda>(n, u). (srs_success, [u])) us"
  using assms
proof (induction us arbitrary: f)
  case (Cons nu us)
  obtain n u where nu: "nu = (n, u)" by fastforce
  have u: "u \<noteq> []" "length u < 2 ^ 31" using Cons.prems(1) nu by (auto simp: h264_slice_def nal_unit_def)
  obtain c where c: "fmt_vcodec f = Some c" "payload_format c = SrsAvcPayloadFormatIbmf" and f: "ready_for_flv f"
    using Cons.prems(2) by (auto simp: length_prefixed_def)
  have ft: "slice_type u < 8" "slice_type u \<noteq> 5" by (simp_all add: slice_type_def)
  obtain f' where f': "on_video mem (uint dts) (mux_avc2flv (be_bytes 4 (of_nat (length u) :: u32) @ u) (slice_type u) 1 dts pts) f
      = (srs_success, f')" "parsed_as f' [u] (slice_type u) (uint dts) (take_bit 24 (pts - dts))" "ready_for_flv f'"
      "fmt_vcodec f' = Some (c\<lparr>vco_id := 7, payload_format := SrsAvcPayloadFormatIbmf\<rparr>)"
    by (rule frame_roundtrip [OF f u ft c(1), where r = "[]" and mem = mem and ts = "uint dts" and dts = dts and pts = pts])
      (simp_all add: c(2))
  then show ?case
    using Cons nu by (auto simp: slice_packet_def parsed_as_def length_prefixed_def)
qed simp


definition demo_handler :: TsHandlerAdapter where
  "demo_handler = TsHandlerAdapter_new (Some (FrameToSourceBridge_new\<lparr>br_source := Some []\<rparr>)) ''c'' (AdapterStatsManager_new 0)"

definition demo_ibmf :: SrsFormat where
  "demo_ibmf = SrsFormat_new\<lparr>fmt_vcodec := Some ((SrsVideoCodecConfig_new zero_memory)\<lparr>avc_extra_data := [1], NAL_unit_length := 3,
     payload_format := SrsAvcPayloadFormatIbmf\<rparr>)\<rparr>"

definition demo_message :: "u8 list \<Rightarrow> SrsTsMessage" where
  "demo_message p = (SrsTsMessage_new 256)\<lparr>msg_dts := 900, msg_payload := p\<rparr>"


section \<open>Sequence headers come first\<close>

datatype media = Avc | Hevc | Aac

text \<open>The packets of a medium: \<open>t\<close> is 0 for a sequence header and 1 for a frame.\<close>

fun tagged :: "media \<Rightarrow> u8 \<Rightarrow> SrsMediaPacket \<Rightarrow> bool" where
  "tagged Avc t p \<longleftrightarrow> pkt_message_type p = SrsFrameTypeVideo \<and> (\<exists>x v. pkt_payload p = Some (x # t # v) \<and> x AND 0x0f = 7)"
| "tagged Hevc t p \<longleftrightarrow> pkt_message_type p = SrsFrameTypeVideo \<and> (\<exists>x v. pkt_payload p = Some (x # t # v) \<and> x AND 0x0f = 12)"
| "tagged Aac t p \<longleftrightarrow> pkt_message_type p = SrsFrameTypeAudio \<and> (\<exists>x v. pkt_payload p = Some (x # t # v))"

definition has_header :: "media \<Rightarrow> SrsMediaPacket list \<Rightarrow> bool" where
  "has_header m pkts \<longleftrightarrow> (\<exists>q \<in> set pkts. tagged m 0 q)"

text \<open>In a log with the last packet first: every frame has a sequence header of its medium before it.\<close>

fun headers_first :: "media \<Rightarrow> SrsMediaPacket list \<Rightarrow> bool" where
  "headers_first m [] \<longleftrightarrow> True"
| "headers_first m (p # older) \<longleftrightarrow> headers_first m older \<and> (tagged m 1 p \<longrightarrow> has_header m older)"

fun announced :: "media \<Rightarrow> 'a TsHandlerAdapter_scheme \<Rightarrow> bool" where
  "announced Avc st = h264_sps_pps_sent st"
| "announced Hevc st = h265_vps_sps_pps_sent st"
| "announced Aac st = (aac_specific_config st \<noteq> [])"

definition headers_inv :: "'a TsHandlerAdapter_scheme \<Rightarrow> bool" where
  "headers_inv st \<longleftrightarrow> (\<forall>pkts. sent_packets st = Some pkts \<longrightarrow>
     (\<forall>m. headers_first m pkts \<and> (announced m st \<longrightarrow> has_header m pkts)))"

lemma media_all: "(\<forall>m. P m) \<longleftrightarrow> P Avc \<and> P Hevc \<and> P Aac"
  by (metis media.exhaust)

lemma nibble: "(push_bit 4 ft OR 7) AND 0x0f = (7 :: u8)" "(push_bit 4 ft OR 12) AND 0x0f = (12 :: u8)"
proof -
  have m: "(0x0f :: u8) = mask 4" by (simp add: mask_eq_exp_minus_1)
  have "take_bit 4 (push_bit 4 ft) = (0 :: u8)"
    by (rule bit_word_eqI) (auto simp: bit_take_bit_iff bit_push_bit_iff)
  then show "(push_bit 4 ft OR 7) AND 0x0f = (7 :: u8)" "(push_bit 4 ft OR 12) AND 0x0f = (12 :: u8)"
    unfolding m take_bit_eq_mask [symmetric] by (simp_all add: take_bit_or)
qed

definition media_packet :: "SrsFrameType \<Rightarrow> u32 \<Rightarrow> u8 list \<Rightarrow> SrsMediaPacket" where
  "media_packet type ts d = \<lparr>pkt_timestamp = uint ts, pkt_message_type = type, pkt_stream_id = 0, pkt_payload = Some d\<rparr>"

lemma tagged_video:
  "tagged m t (media_packet SrsFrameTypeVideo ts (mux_avc2flv v ft t' dts pts)) \<longleftrightarrow> m = Avc \<and> t = t'"
  "tagged m t (media_packet SrsFrameTypeVideo ts (mux_hevc2flv v ft t' dts pts)) \<longleftrightarrow> m = Hevc \<and> t = t'"
  by (cases m; auto simp: media_packet_def mux_avc2flv_def mux_hevc2flv_def mux_video2flv_def Let_def nibble)+

lemma push_sent:
  "sent_packets (snd (push_to_live_source on_frame t ts d st)) = map_option (\<lambda>sent. media_packet t ts d # sent) (sent_packets st)"
  "announced m (snd (push_to_live_source on_frame t ts d st)) = announced m st"
  by (cases m; auto simp: push_to_live_source_def sent_packets_def media_packet_def Let_def split: option.splits)+

lemma stats_sent:
  "sent_packets (snd (th_update_frame_stats v k st)) = sent_packets st"
  "announced m (snd (th_update_frame_stats v k st)) = announced m st"
  by (cases m; auto simp: th_update_frame_stats_def sent_packets_def with_res_def split: sum.splits)+

lemma headers_inv_cong:
  "sent_packets st' = sent_packets st \<Longrightarrow> (\<And>m. announced m st' = announced m st) \<Longrightarrow> headers_inv st \<Longrightarrow> headers_inv st'"
  by (simp add: headers_inv_def)

lemma stats_inv: "headers_inv st \<Longrightarrow> headers_inv (snd (th_update_frame_stats v k st))"
  by (erule headers_inv_cong [OF stats_sent])

text \<open>A frame of an announced medium may be pushed, and so may a sequence header.\<close>

lemma push_inv:
  assumes "headers_inv st" "\<And>m. tagged m 1 (media_packet t ts d) \<Longrightarrow> announced m st"
  shows "headers_inv (snd (push_to_live_source on_frame t ts d st))"
  using assms unfolding headers_inv_def push_sent by (auto simp: has_header_def)

lemma push_frame_inv:
  assumes "headers_inv st" "\<And>m. tagged m 1 (media_packet t ts d) \<Longrightarrow> announced m st"
  shows "headers_inv (snd (and_then (push_to_live_source on_frame t ts d st) (th_update_frame_stats v k)))"
  by (rule and_then_prop [where P = headers_inv]) (use push_inv [OF assms] stats_inv in blast)+

lemma new_header_inv:
  assumes "headers_inv st" "sent_packets st' = map_option (\<lambda>sent. p # sent) (sent_packets st)"
    and "tagged m 0 p" "\<forall>m'. \<not> tagged m' 1 p" "\<forall>m'. announced m' st' \<longrightarrow> m' = m \<or> announced m' st"
  shows "headers_inv st'"
  using assms unfolding headers_inv_def by (auto simp: has_header_def)

text \<open>Announcing a medium after its sequence header has been handed over.\<close>

lemma push_header_inv:
  assumes "headers_inv st" "tagged m 0 (media_packet t ts d)" "\<And>m. \<not> tagged m 1 (media_packet t ts d)"
    and "\<And>st. sent_packets (g st) = sent_packets st" "\<And>st m'. announced m' (g st) \<Longrightarrow> m' = m \<or> announced m' st"
  shows "headers_inv (snd (and_then (push_to_live_source on_frame t ts d st) (\<lambda>st1. (srs_success, g st1))))"
proof (cases "fst (push_to_live_source on_frame t ts d st)")
  case (Inl e)
  then show ?thesis
    using push_inv [OF assms(1), of t ts d on_frame] assms(3) by (simp add: and_then_def case_prod_unfold)
next
  case (Inr u)
  have "headers_inv (g (snd (push_to_live_source on_frame t ts d st)))"
  proof (rule new_header_inv [OF assms(1) _ assms(2)])
    show "\<forall>m'. announced m' (g (snd (push_to_live_source on_frame t ts d st))) \<longrightarrow> m' = m \<or> announced m' st"
      using assms(5) by (metis push_sent(2))
  qed (simp_all add: assms(3,4) push_sent)
  with Inr show ?thesis by (simp add: and_then_def case_prod_unfold)
qed

lemmas with_res_inv = with_res_prop [where P = headers_inv]

lemma write_h264_sps_pps_inv: "headers_inv st \<Longrightarrow> headers_inv (snd (write_h264_sps_pps on_frame dts pts st))"
  unfolding write_h264_sps_pps_def Let_def
  by (auto intro!: with_res_inv push_header_inv [where m = Avc] simp: tagged_video sent_packets_def elim: announced.elims)

lemma write_h265_inv: "headers_inv st \<Longrightarrow> headers_inv (snd (write_h265_vps_sps_pps hevc_demux on_frame dts pts st))"
  unfolding write_h265_vps_sps_pps_def Let_def
  by (auto intro!: with_res_inv push_header_inv [where m = Hevc] simp: tagged_video sent_packets_def elim: announced.elims)

lemma write_ipb_inv:
  "headers_inv st \<Longrightarrow> headers_inv (snd (write_h264_ipb_frame on_frame frame dts pts st))"
  "headers_inv st \<Longrightarrow> headers_inv (snd (write_h265_ipb_frame on_frame frame dts pts st))"
  unfolding write_h264_ipb_frame_def write_h265_ipb_frame_def Let_def
  by (auto intro!: with_res_inv push_frame_inv simp: tagged_video)

lemma parameter_inv:
  assumes "headers_inv st"
  shows "headers_inv (st\<lparr>h264_sps_changed := c, h264_sps := v\<rparr>)" "headers_inv (st\<lparr>h264_pps_changed := c, h264_pps := v\<rparr>)"
    "headers_inv (st\<lparr>h265_vps_sps_pps_changed := c, h265_vps := v\<rparr>)"
    "headers_inv (st\<lparr>h265_vps_sps_pps_changed := c, h265_sps := v\<rparr>)"
    "headers_inv (st\<lparr>h265_vps_sps_pps_changed := c, h265_pps := v\<rparr>)"
  using assms by (auto simp: headers_inv_def media_all sent_packets_def)

lemma on_h264_unit_inv: "headers_inv st \<Longrightarrow> headers_inv (snd (on_h264_unit on_frame drops dts pts frame st))"
  unfolding on_h264_unit_def
  using write_ipb_inv(1) [of st on_frame frame dts pts]
  by (auto intro!: with_res_inv write_h264_sps_pps_inv parameter_inv split: prod.splits sum.splits)

lemma on_hevc_unit_inv: "headers_inv st \<Longrightarrow> headers_inv (snd (on_hevc_unit hevc_demux on_frame dts pts frame st))"
  unfolding on_hevc_unit_def Let_def
  by (auto intro!: with_res_inv write_h265_inv write_ipb_inv parameter_inv)

lemma h264_loop_inv: "headers_inv st \<Longrightarrow> headers_inv (snd (h264_loop on_frame drops dts pts avs st))"
proof (induction on_frame drops dts pts avs st rule: h264_loop.induct)
  case (1 on_frame drops dts pts avs st)
  show ?case
    unfolding h264_loop.simps [of on_frame drops dts pts avs]
    using 1 by (auto split: sum.splits option.splits intro!: and_then_prop [where P = headers_inv] on_h264_unit_inv)
      (blast intro: on_h264_unit_inv)
qed

lemma hevc_loop_inv: "headers_inv st \<Longrightarrow> headers_inv (snd (hevc_loop hevc_demux on_frame dts pts avs st))"
proof (induction hevc_demux on_frame dts pts avs st rule: hevc_loop.induct)
  case (1 hevc_demux on_frame dts pts avs st)
  show ?case
    unfolding hevc_loop.simps [of hevc_demux on_frame dts pts avs]
    using 1 by (auto split: sum.splits option.splits intro!: and_then_prop [where P = headers_inv] on_hevc_unit_inv)
      (blast intro: on_hevc_unit_inv)
qed

lemma mux_aac_packet:
  assumes "mux_aac2flv frame c = Inr d" "sound_format c = 10"
  shows "tagged m t (media_packet SrsFrameTypeAudio ts d) \<longleftrightarrow> m = Aac \<and> t = aac_packet_type c"
  using assms by (cases m) (auto simp: mux_aac2flv_def res_bind_Inr_iff media_packet_def Let_def)

lemma write_audio_inv:
  assumes "headers_inv st" "sound_format c = 10" "aac_packet_type c = 1 \<Longrightarrow> announced Aac st"
  shows "headers_inv (snd (write_audio_raw_frame on_frame frame c dts st))"
  unfolding write_audio_raw_frame_def
  by (intro with_res_inv push_frame_inv assms(1)) (use assms(2,3) in \<open>simp add: mux_aac_packet\<close>)

text \<open>The sequence header of AAC is remembered before it is written; writing it cannot fail.\<close>

lemma write_audio_header_inv:
  assumes "headers_inv st" "sound_format c = 10" "aac_packet_type c = 0"
  shows "headers_inv (snd (write_audio_raw_frame on_frame (sh, int (length sh)) c dts (st\<lparr>aac_specific_config := v\<rparr>)))"
proof -
  obtain d where d: "mux_aac2flv (sh, int (length sh)) c = Inr d"
    by (simp add: mux_aac2flv_def frame_string_def Let_def)
  let ?st = "st\<lparr>aac_specific_config := v\<rparr>"
  let ?p = "push_to_live_source on_frame SrsFrameTypeAudio dts d ?st"
  have s: "sent_packets ?st = sent_packets st" by (simp add: sent_packets_def)
  have a: "announced m ?st \<Longrightarrow> m = Aac \<or> announced m st" for m by (cases m) simp_all
  have "headers_inv (snd ?p)"
    by (rule new_header_inv [OF assms(1), of _ "media_packet SrsFrameTypeAudio dts d" Aac])
      (use a s in \<open>simp_all add: push_sent mux_aac_packet [OF d assms(2)] assms(3)\<close>)
  then have "headers_inv (snd (and_then ?p (th_update_frame_stats False False)))"
    by (intro and_then_prop [where P = headers_inv] stats_inv)
  with d show ?thesis by (simp add: write_audio_raw_frame_def)
qed

lemma write_audio_announced: "announced m (snd (write_audio_raw_frame on_frame frame c dts st)) = announced m st"
  by (auto simp: write_audio_raw_frame_def with_res_def and_then_def case_prod_unfold stats_sent push_sent split: sum.splits)

lemma aac_header_not_empty: "aac_mux_sequence_header c = Inr sh \<Longrightarrow> sh \<noteq> []"
  by (auto simp: aac_mux_sequence_header_def Let_def write_packet_def res_bind_Inr_iff split: if_splits)

lemma on_aac_frame_inv:
  assumes "headers_inv st" "sound_format c = 10"
  shows "headers_inv (snd (on_aac_frame on_frame dts frame c st))"
proof (cases "aac_specific_config st = []")
  case True
  show ?thesis
  proof (cases "aac_mux_sequence_header c")
    case (Inl e)
    then show ?thesis using True assms(1) by (simp add: on_aac_frame_def)
  next
    case (Inr sh)
    let ?w = "write_audio_raw_frame on_frame (sh, int (length sh)) (c\<lparr>aac_packet_type := 0\<rparr>) dts (st\<lparr>aac_specific_config := sh\<rparr>)"
    have w: "headers_inv (snd ?w)" by (rule write_audio_header_inv [OF assms(1)]) (simp_all add: assms(2))
    have "announced Aac (snd ?w) = announced Aac (st\<lparr>aac_specific_config := sh\<rparr>)" by (rule write_audio_announced)
    then have "announced Aac (snd ?w)" using aac_header_not_empty [OF Inr] by simp
    then have "headers_inv (snd (and_then ?w (write_audio_raw_frame on_frame frame (c\<lparr>aac_packet_type := 1\<rparr>) dts)))"
      by (intro and_then_prop [where P = headers_inv] w write_audio_inv) (simp_all add: assms(2))
    then show ?thesis using True Inr by (simp add: on_aac_frame_def)
  qed
next
  case False
  then show ?thesis using assms by (simp add: on_aac_frame_def write_audio_inv)
qed

lemma adts_sound_format: "adts_demux b = Inr (Some (f, c), b') \<Longrightarrow> sound_format c = 10"
  by (auto simp: adts_demux_def adts_codec_def res_bind_Inr_iff Let_def split: if_splits)

lemma aac_loop_inv: "headers_inv st \<Longrightarrow> headers_inv (snd (aac_loop on_frame dts avs st))"
proof (induction on_frame dts avs st rule: aac_loop.induct)
  case (1 on_frame dts avs st)
  show ?case
    unfolding aac_loop.simps [of on_frame dts avs]
    using 1 by (auto split: sum.splits option.splits intro!: and_then_prop [where P = headers_inv] on_aac_frame_inv
        dest: adts_sound_format) (blast intro: on_aac_frame_inv adts_sound_format)
qed

lemma on_ts_message_inv:
  "headers_inv st \<Longrightarrow> headers_inv (snd (on_ts_message hevc_demux on_frame drops strm msg st))"
  by (simp add: on_ts_message_def on_ts_video_def on_ts_video_hevc_def on_ts_audio_def Let_def
      h264_loop_inv hevc_loop_inv aac_loop_inv)

text \<open>Any sequence of messages, with the stream types of their channels; errors do not stop the stream.\<close>

definition run_messages ::
    "hevc_parser \<Rightarrow> live_source \<Rightarrow> (srs_error \<Rightarrow> bool) \<Rightarrow> (u8 \<times> SrsTsMessage) list \<Rightarrow> TsHandlerAdapter \<Rightarrow> TsHandlerAdapter" where
  "run_messages hevc_demux on_frame drops msgs =
     fold (\<lambda>(strm, msg) st. snd (on_ts_message hevc_demux on_frame drops strm msg st)) msgs"

lemma run_messages_inv: "headers_inv st \<Longrightarrow> headers_inv (run_messages hevc_demux on_frame drops msgs st)"
  unfolding run_messages_def by (induction msgs arbitrary: st) (auto intro: on_ts_message_inv)

text \<open>
  No frame goes out before its sequence header: from a new handler on, whatever messages arrive
  and however the live source answers, every H.264, HEVC and AAC frame handed to the live source has a
  sequence header of the same codec handed over before it.
\<close>

theorem ts_headers_first:
  assumes "sent_packets (run_messages hevc_demux on_frame drops msgs
      (TsHandlerAdapter_new (Some (FrameToSourceBridge_new\<lparr>br_source := Some []\<rparr>)) cid stats)) = Some pkts"
  shows "headers_first m pkts"
proof -
  let ?st = "TsHandlerAdapter_new (Some (FrameToSourceBridge_new\<lparr>br_source := Some []\<rparr>)) cid stats"
  have "headers_inv ?st"
    by (simp add: headers_inv_def media_all sent_packets_def TsHandlerAdapter_new_def)
  from run_messages_inv [OF this] assms show ?thesis unfolding headers_inv_def by blast
qed

theorem ts_headers_first_witness:
  "\<exists>pkts. sent_packets (run_messages (\<lambda>_ _. Inl ERROR_HLS_DECODE_ERROR) (\<lambda>_ _. srs_success) (\<lambda>_. False)
      [(0x1b, demo_message [0, 0, 1, 0x67, 0x64, 0, 0x1f, 0, 0, 1, 0x68, 0xee, 0, 0, 1, 0x65, 0xb8])] demo_handler) = Some pkts \<and>
    map (tagged Avc 1) pkts = [True, False] \<and> headers_first Avc pkts"
proof -
  let ?sent = "sent_packets (run_messages (\<lambda>_ _. Inl ERROR_HLS_DECODE_ERROR) (\<lambda>_ _. srs_success) (\<lambda>_. False)
      [(0x1b, demo_message [0, 0, 1, 0x67, 0x64, 0, 0x1f, 0, 0, 1, 0x68, 0xee, 0, 0, 1, 0x65, 0xb8])] demo_handler)"
  have "map_option (map (\<lambda>p. (pkt_message_type p, pkt_payload p))) ?sent =
      Some [(SrsFrameTypeVideo, Some [0x17, 1, 0, 0, 0, 0, 0, 0, 2, 0x65, 0xb8]),
        (SrsFrameTypeVideo, Some [0x17, 0, 0, 0, 0, 1, 0x64, 0, 0x1f, 0xff, 0xe1, 0, 4, 0x67, 0x64, 0, 0x1f, 1, 0, 2, 0x68, 0xee])]"
    by code_simp
  then obtain p q where pq: "?sent = Some [p, q]" "tagged Avc 1 p" "\<not> tagged Avc 1 q" by auto
  have "headers_first Avc [p, q]"
    using ts_headers_first [OF pq(1) [unfolded demo_handler_def]] by blast
  with pq show ?thesis by (intro exI [of _ "[p, q]"]) simp
qed

section \<open>Inputs that stop the server\<close>

text \<open>
  An HEVC message that starts with two start codes in a row stops the server: the empty unit
  between them fails the assertion of \<open>is_vps\<close>. The H.264 loop skips empty units, the HEVC loop does not.
\<close>

theorem hevc_empty_unit_aborts:
  assumes "th_source_bridge st \<noteq> None" "msg_payload msg = annexb_code m @ annexb_code n @ rest"
  shows "on_ts_message hevc_demux on_frame drops 0x24 msg st = (Inl ASSERT_FAILED, st)"
proof -
  let ?b = "SrsBuffer_new (msg_payload msg)" and ?r = "annexb_code n @ rest"
  have sc: "start_code (remaining ?b) = Some (m + 3)" using assms(2) by (simp add: start_code_annexb)
  have ne: "remaining ?b \<noteq> []" using assms(2) by (simp add: annexb_code_def)
  have d: "drop (m + 3) (remaining ?b) = ?r" using assms(2) by (simp add: annexb_code_def)
  obtain x xs where r: "?r = x # xs" "x = 0" by (cases n) (auto simp: annexb_code_def)
  have "until_code ?r = 0" using r(1) start_code_annexb [of n rest] by simp
  with d have "hevc_annexb_demux ?b = Inr (Some (?r, 0), advance (m + 3) ?b)"
    using annexb_demux_eq [OF buf_inv_new ne, of ERROR_HEVC_API_NO_PREFIXED] sc
    by (simp add: hevc_annexb_demux_def Let_def)
  moreover have "on_hevc_unit hevc_demux on_frame dts pts (?r, 0) st = (Inl ASSERT_FAILED, st)" for dts pts
    unfolding r by (simp add: on_hevc_unit_def deref_def SrsHevcNaluTypeParse_def hevc_is_vps_def hevc_nalu_type_is_def)
  moreover have "\<not> buf_empty ?b" using ne by (simp add: buf_empty_remaining)
  ultimately have "hevc_loop hevc_demux on_frame dts pts ?b st = (Inl ASSERT_FAILED, st)" for dts pts
    by (simp add: hevc_loop.simps [of _ _ _ _ ?b])
  then show ?thesis using assms(1) by (simp add: on_ts_message_def on_ts_video_hevc_def Let_def)
qed

theorem hevc_empty_unit_aborts_witness:
  "on_ts_message (\<lambda>_ _. Inl ERROR_HLS_DECODE_ERROR) (\<lambda>_ _. srs_success) (\<lambda>_. False) 0x24
     (demo_message [0, 0, 1, 0, 0, 1, 0x26]) demo_handler = (Inl ASSERT_FAILED, demo_handler)"
  using hevc_empty_unit_aborts [of demo_handler "demo_message [0, 0, 1, 0, 0, 1, 0x26]" 0 0 "[0x26]"]
  by (simp add: demo_handler_def TsHandlerAdapter_new_def demo_message_def annexb_code_def)

text \<open>
  A short SPS stops the server: on a handler that holds an SPS, an SPS unit of fewer than four bytes
  followed by a new PPS makes \<open>mux_sequence_header\<close> fail its assertion. \<open>sps_demux\<close> returns success with an empty
  string for a short SPS, and the handler takes that string for a changed SPS.
\<close>

theorem h264_short_sps_aborts:
  assumes "th_source_bridge st \<noteq> None" "h264_sps st \<noteq> []" "msg_payload msg = annexb_stream ((m, s) # (n, p) # us)"
    and "nal_unit s" "length s < 4" "hd s AND 0x1f = 7" "nal_unit p" "hd p AND 0x1f = 8" "p \<noteq> h264_pps st"
  shows "fst (on_ts_message hevc_demux on_frame drops 0x1b msg st) = Inl ASSERT_FAILED"
proof -
  let ?b = "SrsBuffer_new (msg_payload msg)" and ?r1 = "annexb_stream ((n, p) # us)" and ?r2 = "annexb_stream us"
  let ?st1 = "st\<lparr>h264_sps_changed := True, h264_sps := []\<rparr>"
  have ne: "s \<noteq> []" "p \<noteq> []" using assms(4,7) by (simp_all add: nal_unit_def)
  obtain b1 where b1: "avc_annexb_demux ?b = Inr (Some (s @ ?r1, int (length s)), b1)" "buf_inv b1" "remaining b1 = ?r1"
    using annexb_demux_unit [OF buf_inv_new _ assms(4)] assms(3) unfolding avc_annexb_demux_def by (metis remaining_new)
  obtain b2 where b2: "avc_annexb_demux b1 = Inr (Some (p @ ?r2, int (length p)), b2)"
    using annexb_demux_unit [OF b1(2,3) assms(7)] unfolding avc_annexb_demux_def by blast
  have e: "\<not> buf_empty ?b" "\<not> buf_empty b1"
    using assms(3) b1 by (simp_all add: buf_empty_remaining annexb_code_def)
  have loops: "h264_loop on_frame drops dts pts ?b st =
      and_then (on_h264_unit on_frame drops dts pts (s @ ?r1, int (length s)) st) (h264_loop on_frame drops dts pts b1)"
    "h264_loop on_frame drops dts pts b1 st' =
      and_then (on_h264_unit on_frame drops dts pts (p @ ?r2, int (length p)) st') (h264_loop on_frame drops dts pts b2)" for dts pts st'
    using b1(1) b2 e ne by (simp_all add: h264_loop.simps [of _ _ _ _ ?b] h264_loop.simps [of _ _ _ _ b1])
  have abort: "fst (write_h264_sps_pps on_frame dts pts st') = Inl ASSERT_FAILED"
    if "h264_sps st' = []" "h264_sps_changed st'" "h264_pps_changed st'" for dts pts and st' :: "'a TsHandlerAdapter_scheme"
    using that by (simp add: write_h264_sps_pps_def avc_mux_sequence_header_def)
  have 1: "on_h264_unit on_frame drops dts pts (s @ ?r1, int (length s)) st = write_h264_sps_pps on_frame dts pts ?st1" for dts pts
    using ne assms(2,5,6) by (simp add: on_h264_unit_def deref_0 avc_is_sps_def avc_nalu_type_is_def avc_sps_demux_def)
  have 2: "on_h264_unit on_frame drops dts pts (p @ ?r2, int (length p)) ?st1 =
      write_h264_sps_pps on_frame dts pts (?st1\<lparr>h264_pps_changed := True, h264_pps := p\<rparr>)" for dts pts
    using ne assms(8,9)
    by (auto simp: on_h264_unit_def deref_0 avc_is_sps_def avc_is_pps_def avc_nalu_type_is_def avc_pps_demux_def frame_string_def)
  have "fst (h264_loop on_frame drops dts pts ?b st) = Inl ASSERT_FAILED" for dts pts
  proof (cases "h264_pps_changed st")
    case True
    then show ?thesis using abort [of ?st1] unfolding loops 1 by (auto simp: and_then_def case_prod_unfold split: sum.splits)
  next
    case False
    then have "write_h264_sps_pps on_frame dts pts ?st1 = (srs_success, ?st1)" by (simp add: write_h264_sps_pps_def)
    then show ?thesis
      using abort [of "?st1\<lparr>h264_pps_changed := True, h264_pps := p\<rparr>"] unfolding loops(1) 1
      by (simp add: loops(2) 2) (auto simp: and_then_def case_prod_unfold split: sum.splits)
  qed
  then show ?thesis using assms(1) by (simp add: on_ts_message_def on_ts_video_def Let_def)
qed

theorem h264_short_sps_aborts_witness:
  "fst (on_ts_message (\<lambda>_ _. Inl ERROR_HLS_DECODE_ERROR) (\<lambda>_ _. srs_success) (\<lambda>_. False) 0x1b
     (demo_message [0, 0, 1, 0x67, 1, 0, 0, 1, 0x68, 2]) (demo_handler\<lparr>h264_sps := [0x67, 0x64, 0, 0x1f]\<rparr>)) = Inl ASSERT_FAILED"
proof -
  have "nal_unit [0x67, 1]" "nal_unit [0x68, 2]" by (simp_all add: nal_unit_def All_less_Suc)
  then show ?thesis
    using h264_short_sps_aborts [of "demo_handler\<lparr>h264_sps := [0x67, 0x64, 0, 0x1f]\<rparr>" "demo_message [0, 0, 1, 0x67, 1, 0, 0, 1, 0x68, 2]"
        0 "[0x67, 1]" 0 "[0x68, 2]" "[]"]
    by (simp add: demo_handler_def TsHandlerAdapter_new_def demo_message_def annexb_code_def)
qed

end
