(* ===== verification/Quic_Fec_Ts_Props.thy ===== *)
theory Quic_Fec_Ts_Props
  imports Quic_Fec_Ts Ts_Handler_Props
begin

text \<open>
  What \<open>QuicFecTsAdapter\<close> guarantees: the configuration it accepts, the memory a connection can take,
  the delivery of bare transport streams however they are cut into datagrams, and the order of what reaches the live source.
\<close>

section \<open>The handler leaves the transport state alone\<close>

definition session_of :: "'a TsHandlerAdapter_scheme \<Rightarrow> string \<times> 'a" where
  "session_of st = (th_connection_id st, TsHandlerAdapter.more st)"

definition same_session :: "string \<times> 'a \<Rightarrow> 'a TsHandlerAdapter_scheme \<Rightarrow> bool" where
  "same_session x st \<longleftrightarrow> session_of st = x"

lemmas session_simps = same_session_def session_of_def

lemma same_session_refl: "same_session (session_of st) st"
  by (simp add: same_session_def)

lemma same_session_update [simp]:
  "same_session x (st\<lparr>h264_sps := v1\<rparr>) = same_session x st" "same_session x (st\<lparr>h264_sps_changed := b\<rparr>) = same_session x st"
  "same_session x (st\<lparr>h264_pps := v1\<rparr>) = same_session x st" "same_session x (st\<lparr>h264_pps_changed := b\<rparr>) = same_session x st"
  "same_session x (st\<lparr>h264_sps_pps_sent := b\<rparr>) = same_session x st" "same_session x (st\<lparr>h265_vps := v1\<rparr>) = same_session x st"
  "same_session x (st\<lparr>h265_sps := v1\<rparr>) = same_session x st" "same_session x (st\<lparr>h265_pps := v1\<rparr>) = same_session x st"
  "same_session x (st\<lparr>h265_vps_sps_pps_changed := b\<rparr>) = same_session x st"
  "same_session x (st\<lparr>h265_vps_sps_pps_sent := b\<rparr>) = same_session x st"
  "same_session x (st\<lparr>aac_specific_config := v1\<rparr>) = same_session x st"
  by (simp_all add: session_simps)

lemma push_frame: "same_session x st \<Longrightarrow> same_session x (snd (push_to_live_source on_frame t ts d st))"
  by (simp add: push_to_live_source_def session_simps Let_def split: option.splits)

lemma stats_frame: "same_session x st \<Longrightarrow> same_session x (snd (th_update_frame_stats v k st))"
  by (cases "update_frame_stats (th_connection_id st) v k False (th_stats st)")
    (simp_all add: th_update_frame_stats_def session_simps)

lemmas frame_rules = with_res_prop [where P = "same_session x"] and_then_prop [where P = "same_session x"] push_frame stats_frame for x

lemma write_frames:
  assumes "same_session x st"
  shows "same_session x (snd (write_h264_sps_pps on_frame dts pts st))"
    "same_session x (snd (write_h265_vps_sps_pps hevc_demux on_frame dts pts st))"
    "same_session x (snd (write_h264_ipb_frame on_frame frame dts pts st))"
    "same_session x (snd (write_h265_ipb_frame on_frame frame dts pts st))"
    "same_session x (snd (write_audio_raw_frame on_frame frame c dts st))"
  unfolding write_h264_sps_pps_def write_h265_vps_sps_pps_def write_h264_ipb_frame_def write_h265_ipb_frame_def
    write_audio_raw_frame_def Let_def
  using assms by (auto intro!: frame_rules)

lemma unit_frames:
  assumes "same_session x st"
  shows "same_session x (snd (on_h264_unit on_frame drops dts pts frame st))"
    "same_session x (snd (on_hevc_unit hevc_demux on_frame dts pts frame st))"
    "same_session x (snd (on_aac_frame on_frame dts frame c st))"
proof -
  show "same_session x (snd (on_h264_unit on_frame drops dts pts frame st))"
    unfolding on_h264_unit_def using assms write_frames(3) [OF assms, of on_frame frame dts pts]
    by (auto intro!: frame_rules write_frames split: prod.splits sum.splits)
  show "same_session x (snd (on_hevc_unit hevc_demux on_frame dts pts frame st))"
    unfolding on_hevc_unit_def Let_def using assms by (auto intro!: frame_rules write_frames)
  show "same_session x (snd (on_aac_frame on_frame dts frame c st))"
    unfolding on_aac_frame_def using assms by (auto intro!: frame_rules write_frames)
qed

lemma h264_loop_frame: "same_session x st \<Longrightarrow> same_session x (snd (h264_loop on_frame drops dts pts avs st))"
proof (induction on_frame drops dts pts avs st rule: h264_loop.induct)
  case (1 on_frame drops dts pts avs st)
  show ?case
    unfolding h264_loop.simps [of on_frame drops dts pts avs]
    using 1 unit_frames(1) [OF 1(4)] by (auto split: sum.splits option.splits intro!: frame_rules)
qed

lemma hevc_loop_frame: "same_session x st \<Longrightarrow> same_session x (snd (hevc_loop hevc_demux on_frame dts pts avs st))"
proof (induction hevc_demux on_frame dts pts avs st rule: hevc_loop.induct)
  case (1 hevc_demux on_frame dts pts avs st)
  show ?case
    unfolding hevc_loop.simps [of hevc_demux on_frame dts pts avs]
    using 1 unit_frames(2) [OF 1(2)] by (auto split: sum.splits option.splits intro!: frame_rules)
qed

lemma aac_loop_frame: "same_session x st \<Longrightarrow> same_session x (snd (aac_loop on_frame dts avs st))"
proof (induction on_frame dts avs st rule: aac_loop.induct)
  case (1 on_frame dts avs st)
  show ?case
    unfolding aac_loop.simps [of on_frame dts avs]
    using 1 unit_frames(3) [OF 1(4)] by (auto split: sum.splits option.splits intro!: frame_rules)
qed

lemma on_ts_message_frame:
  "same_session x st \<Longrightarrow> same_session x (snd (on_ts_message hevc_demux on_frame drops strm msg st))"
  by (simp add: on_ts_message_def on_ts_video_def on_ts_video_hevc_def on_ts_audio_def Let_def
      h264_loop_frame hevc_loop_frame aac_loop_frame)

interpretation frame: ts_message_handler "on_ts_message hevc_demux on_frame drops" "same_session x" for hevc_demux on_frame drops x
  by unfold_locales (rule on_ts_message_frame)

interpretation headers: ts_message_handler "on_ts_message hevc_demux on_frame drops" headers_inv for hevc_demux on_frame drops
  by unfold_locales (rule on_ts_message_inv)

section \<open>The connection\<close>

lemma session_eq:
  assumes "same_session (session_of st) st'"
  shows "th_connection_id st' = th_connection_id st" "q_init st' = q_init st" "q_config st' = q_config st"
    "q_current_mode st' = q_current_mode st" "q_sessions st' = q_sessions st" "q_fec_managers st' = q_fec_managers st"
    "q_reorder_buffers st' = q_reorder_buffers st" "q_ts_context st' = q_ts_context st" "q_stats st' = q_stats st"
    "q_on_start_stream st' = q_on_start_stream st" "q_on_stop_stream st' = q_on_stop_stream st"
    "q_stream_started st' = q_stream_started st" "q_input_buffer st' = q_input_buffer st"
    "q_output st' = q_output st" "q_global_seq_counter st' = q_global_seq_counter st"
  using assms unfolding session_simps
  by (cases st rule: QuicFecTsAdapter.cases_scheme, cases st' rule: QuicFecTsAdapter.cases_scheme,
      simp only: TsHandlerAdapter.simps QuicFecTsAdapter.simps prod.inject QuicFecTsAdapter.ext_inject)+

text \<open>The part of the state that the output of packets leaves alone.\<close>

definition transport where
  "transport st = (th_connection_id st, q_init st, q_config st, q_current_mode st, q_sessions st, q_fec_managers st,
     q_reorder_buffers st, q_stats st, q_input_buffer st, q_global_seq_counter st)"

definition emitted where
  "emitted x out st \<longleftrightarrow> transport st = x \<and> q_output st = out"

lemma emitted_update [simp]:
  "emitted x out (st\<lparr>q_ts_context := c\<rparr>) = emitted x out st"
  "emitted x out (st\<lparr>q_last_processed_size := n\<rparr>) = emitted x out st"
  "emitted x out (st\<lparr>q_stream_started := b\<rparr>) = emitted x out st"
  "emitted x out (st\<lparr>q_events := es\<rparr>) = emitted x out st"
  "emitted x out (st\<lparr>th_stats := m\<rparr>) = emitted x out st"
  by (simp_all add: emitted_def transport_def)

lemma emitted_session: "same_session (session_of st) st' \<Longrightarrow> emitted x out st \<Longrightarrow> emitted x out st'"
  using session_eq [of st st'] by (simp add: emitted_def transport_def)

lemma emitted_message:
  "emitted x out st \<Longrightarrow> emitted x out (snd (on_ts_message hevc_demux on_frame drops strm msg st))"
  by (erule emitted_session [rotated]) (simp add: frame.handler_keeps same_session_refl)

interpretation emit: ts_message_handler "on_ts_message hevc_demux on_frame drops" "emitted x out" for hevc_demux on_frame drops x out
  by unfold_locales (rule emitted_message)

lemma emitted_stats: "emitted x out st \<Longrightarrow> emitted x out (snd (th_update_frame_stats v k st))"
  by (erule emitted_session [rotated]) (simp add: stats_frame same_session_refl)

lemma emitted_handled:
  "on_ts_message hevc_demux on_frame drops strm msg st = (r, st1) \<Longrightarrow> emitted x out st \<Longrightarrow> emitted x out st1"
  using emitted_message [of x out st hevc_demux on_frame drops strm msg] by simp

lemma emitted_early: "emitted x out st \<Longrightarrow> emitted x out (snd (early_message env st))"
  by (auto simp: early_message_def Let_def split: option.splits prod.splits sum.splits dest: emitted_handled)

lemma emitted_decoded:
  "ts_context_decode (on_ts_message hevc_demux on_frame drops) b ctx st = (r, ctx1, st1) \<Longrightarrow> emitted x out st \<Longrightarrow> emitted x out st1"
  using emit.decode_keeps [of x out st hevc_demux on_frame drops b ctx] by simp

lemma emitted_packet: "emitted x out st \<Longrightarrow> emitted x out (snd (output_packet env p st))"
  by (auto simp: output_packet_def Let_def intro!: emitted_early split: option.splits prod.splits sum.splits dest: emitted_decoded)

lemma emitted_loop: "emitted x out st \<Longrightarrow> emitted x out (snd (output_loop env ps st))"
  by (induction env ps st rule: output_loop.induct)
    (auto intro!: and_then_prop [where P = "emitted x out"] emitted_packet)

lemma emitted_begin: "emitted x out st \<Longrightarrow> emitted x out (snd (begin_stream env st))"
  by (auto simp: begin_stream_def Let_def with_res_def split: sum.splits)

lemma output_ts_packets_emits:
  "emitted (transport st) (q_output st @ ps) (snd (output_ts_packets env ps st))"
proof (cases "ps = []")
  case True
  then show ?thesis by (simp add: output_ts_packets_def emitted_def)
next
  case False
  let ?st = "st\<lparr>q_output := q_output st @ ps\<rparr>"
  have "emitted (transport st) (q_output st @ ps) ?st" by (simp add: emitted_def transport_def)
  then show ?thesis
    using False unfolding output_ts_packets_def
    by (auto intro!: and_then_prop [where P = "emitted (transport st) (q_output st @ ps)"] emitted_begin emitted_loop emitted_stats)
qed

section \<open>Configuration\<close>

definition config_valid :: "QuicConfig \<Rightarrow> bool" where
  "config_valid c \<longleftrightarrow> 0 < qc_listen_port c \<and> qc_listen_port c \<le> 65535 \<and>
     0 < fc_k (qc_fec_config c) \<and> fc_k (qc_fec_config c) \<le> fc_n (qc_fec_config c) \<and> fc_n (qc_fec_config c) \<le> 255 \<and>
     0 < fc_repair_deadline_ms (qc_fec_config c) \<and> fc_repair_deadline_ms (qc_fec_config c) \<le> 10000 \<and>
     0 < reorder_window_ms (qc_reorder_config c) \<and> reorder_window_ms (qc_reorder_config c) \<le> 5000 \<and>
     1024 * 1024 \<le> max_buffer_size (qc_reorder_config c) \<and> max_buffer_size (qc_reorder_config c) \<le> 500 * 1024 * 1024 \<and>
     0 < qc_detection_timeout_ms c \<and> qc_detection_timeout_ms c \<le> 10000 \<and>
     0 < qc_max_sessions c \<and> qc_max_sessions c \<le> 10000 \<and>
     1024 * 1024 \<le> qc_max_buffer_size c \<and> qc_max_buffer_size c \<le> 1024 * 1024 * 1024"

lemma check_ok: "fst (check bad s) = srs_success \<longleftrightarrow> \<not> bad" "snd (check bad s) = s"
  by (simp_all add: check_def)

lemma check_eq: "check bad s = (Inr u, s') \<longleftrightarrow> \<not> bad \<and> s' = s"
  by (auto simp: check_def)

lemma config_network_ok:
  "config_network init c = (Inr u, c') \<Longrightarrow>
     0 < qc_listen_port c' \<and> qc_listen_port c' \<le> 65535"
  by (auto simp: config_network_def Let_def check_eq)

lemma config_fec_ok:
  "config_fec init c = (Inr u, c') \<Longrightarrow> 0 < fc_k (qc_fec_config c') \<and> fc_k (qc_fec_config c') \<le> fc_n (qc_fec_config c') \<and>
     fc_n (qc_fec_config c') \<le> 255 \<and> 0 < fc_repair_deadline_ms (qc_fec_config c') \<and>
     fc_repair_deadline_ms (qc_fec_config c') \<le> 10000 \<and> qc_listen_port c' = qc_listen_port c"
  by (auto simp: config_fec_def Let_def and_then_ok check_ok check_eq not_less not_le word_gt_0)

lemma config_reorder_ok:
  "config_reorder init c = (Inr u, c') \<Longrightarrow> 0 < reorder_window_ms (qc_reorder_config c') \<and>
     reorder_window_ms (qc_reorder_config c') \<le> 5000 \<and> 1024 * 1024 \<le> max_buffer_size (qc_reorder_config c') \<and>
     max_buffer_size (qc_reorder_config c') \<le> 500 * 1024 * 1024 \<and> qc_listen_port c' = qc_listen_port c \<and>
     qc_fec_config c' = qc_fec_config c"
  by (auto simp: config_reorder_def Let_def and_then_ok check_ok check_eq not_less not_le)

lemma config_limits_ok:
  "config_limits init c = (Inr u, c') \<Longrightarrow> 0 < qc_detection_timeout_ms c' \<and> qc_detection_timeout_ms c' \<le> 10000 \<and>
     0 < qc_max_sessions c' \<and> qc_max_sessions c' \<le> 10000 \<and> 1024 * 1024 \<le> qc_max_buffer_size c' \<and>
     qc_max_buffer_size c' \<le> 1024 * 1024 * 1024 \<and> qc_listen_port c' = qc_listen_port c \<and>
     qc_fec_config c' = qc_fec_config c \<and> qc_reorder_config c' = qc_reorder_config c"
  by (auto simp: config_limits_def Let_def and_then_ok check_ok check_eq not_less not_le word_gt_0)

lemma init_config_valid: "init_config init c = (Inr u, c') \<Longrightarrow> config_valid c'"
proof -
  assume "init_config init c = (Inr u, c')"
  then obtain c1 c2 c3 where "config_network init c = (Inr (), c1)" "config_fec init c1 = (Inr (), c2)"
    "config_reorder init c2 = (Inr (), c3)" "config_limits init c3 = (Inr u, c')"
    unfolding init_config_def and_then_ok by (metis prod.collapse)
  from config_network_ok [OF this(1)] config_fec_ok [OF this(2)] config_reorder_ok [OF this(3)] config_limits_ok [OF this(4)]
  show ?thesis unfolding config_valid_def by simp
qed

section \<open>Bounds\<close>

definition managers_ok :: "string \<Rightarrow> QuicConfig \<Rightarrow> (string, FecRepairManager) smap \<Rightarrow> bool" where
  "managers_ok cid c ms \<longleftrightarrow> sm_wf ms \<and>
     (\<forall>(i, m) \<in> set ms. i = cid \<and> fm_inv m \<and> fm_max_groups m = 10 * unat (fc_k (qc_fec_config c)))"

definition buffers_ok :: "string \<Rightarrow> QuicConfig \<Rightarrow> (string, ReorderBuffer) smap \<Rightarrow> bool" where
  "buffers_ok cid c rbs \<longleftrightarrow> sm_wf rbs \<and>
     (\<forall>(i, rb) \<in> set rbs. i = cid \<and> rb_config rb = qc_reorder_config c \<and>
        get_buffer_size rb \<le> max_buffer_size (qc_reorder_config c))"

definition session_inv :: "QuicFecTsAdapter \<Rightarrow> bool" where
  "session_inv st \<longleftrightarrow> config_valid (q_config st) \<and> managers_ok (th_connection_id st) (q_config st) (q_fec_managers st) \<and>
     buffers_ok (th_connection_id st) (q_config st) (q_reorder_buffers st) \<and> length (q_input_buffer st) < 188"

lemma config_valid_k: "config_valid c \<Longrightarrow> unat (fc_k (qc_fec_config c) * 10) = 10 * unat (fc_k (qc_fec_config c)) \<and>
    0 < unat (fc_k (qc_fec_config c)) \<and> unat (fc_k (qc_fec_config c)) \<le> 255"
proof -
  assume v: "config_valid c"
  then have "fc_k (qc_fec_config c) \<le> 255" unfolding config_valid_def by (meson order_trans)
  then have k: "unat (fc_k (qc_fec_config c)) \<le> 255" by (simp add: word_le_nat_alt)
  moreover have "unat (fc_k (qc_fec_config c) * 10) = unat (fc_k (qc_fec_config c)) * unat (10 :: u32)"
    using k by (intro unat_mult_lem [THEN iffD1]) simp
  ultimately show ?thesis using v by (simp add: config_valid_def word_less_nat_alt)
qed

lemma new_fec_manager_inv:
  assumes "config_valid c"
  shows "fm_inv (new_fec_manager c)" "fm_max_groups (new_fec_manager c) = 10 * unat (fc_k (qc_fec_config c))"
  using assms config_valid_k [OF assms]
  by (simp_all add: new_fec_manager_def fm_inv_def fm_set_max_groups_def fm_set_config_def FecRepairManager_new_def config_valid_def)

lemma new_buffer_size: "get_buffer_size (ReorderBuffer_new c) = 0" "rb_config (ReorderBuffer_new c) = c"
  by (simp_all add: get_buffer_size_def ReorderBuffer_new_def)

lemma managers_ok_put:
  assumes "managers_ok cid c ms" "fm_inv m" "fm_max_groups m = 10 * unat (fc_k (qc_fec_config c))"
  shows "managers_ok cid c (sm_put cid m ms)"
  using assms by (auto simp: managers_ok_def sm_wf_put dest!: sm_put_set)

lemma managers_ok_find:
  "managers_ok cid c ms \<Longrightarrow> (i, m) \<in> set ms \<Longrightarrow>
     i = cid \<and> fm_inv m \<and> fm_max_groups m = 10 * unat (fc_k (qc_fec_config c))"
  by (auto simp: managers_ok_def)

lemma buffers_ok_put:
  assumes "buffers_ok cid c rbs" "rb_config rb = qc_reorder_config c" "get_buffer_size rb \<le> max_buffer_size (qc_reorder_config c)"
  shows "buffers_ok cid c (sm_put cid rb rbs)"
  using assms by (auto simp: buffers_ok_def sm_wf_put dest!: sm_put_set)

lemma buffers_ok_find:
  "buffers_ok cid c rbs \<Longrightarrow> sm_find rbs i = Some rb \<Longrightarrow>
     i = cid \<and> rb_config rb = qc_reorder_config c \<and> get_buffer_size rb \<le> max_buffer_size (qc_reorder_config c)"
  by (auto simp: buffers_ok_def dest!: sm_find_SomeD)

lemma session_inv_transport: "transport st' = transport st \<Longrightarrow> session_inv st' = session_inv st"
  by (simp add: session_inv_def transport_def)

lemma output_inv: "session_inv st \<Longrightarrow> session_inv (snd (output_ts_packets env ps st))"
  using output_ts_packets_emits [of st ps env] session_inv_transport [of "snd (output_ts_packets env ps st)" st]
  by (simp add: emitted_def)

lemma bare_split_rest: "length (snd (bare_split xs)) < 188"
proof -
  have "length (drop (188 * (length ys div 188)) ys) < 188" for ys :: "u8 list"
    by (simp add: minus_mult_div_eq_mod)
  then show ?thesis by (auto simp: bare_split_def Let_def simp del: length_drop drop_drop)
qed

lemma handle_bare_inv: "session_inv st \<Longrightarrow> session_inv (snd (handle_bare_ts_data env data st))"
proof -
  assume inv: "session_inv st"
  obtain ps rest where b: "bare_split (q_input_buffer st @ data) = (ps, rest)" by fastforce
  have "session_inv (st\<lparr>q_input_buffer := rest\<rparr>)"
    using inv bare_split_rest [of "q_input_buffer st @ data"] b by (simp add: session_inv_def)
  then show ?thesis by (simp add: handle_bare_ts_data_def b output_inv Let_def)
qed

lemma handle_quic_inv:
  assumes inv: "session_inv st" and "data \<noteq> []"
  shows "session_inv (snd (handle_quic_data env (th_connection_id st) data s par gid bi ts kf st))"
proof -
  let ?c = "q_config st" and ?cid = "th_connection_id st"
  define mgr where "mgr = (case sm_find (q_fec_managers st) ?cid of None \<Rightarrow> new_fec_manager ?c | Some m \<Rightarrow> m)"
  define rbs where "rbs = (case sm_find (q_reorder_buffers st) ?cid of
     None \<Rightarrow> sm_put ?cid (ReorderBuffer_new (qc_reorder_config ?c)) (q_reorder_buffers st) | Some _ \<Rightarrow> q_reorder_buffers st)"
  obtain r m where add: "fm_add_block (env_now_us env) gid bi data par ts s kf mgr = (r, m)" by fastforce
  have v: "config_valid ?c" and ms: "managers_ok ?cid ?c (q_fec_managers st)" and rb: "buffers_ok ?cid ?c (q_reorder_buffers st)"
    using inv by (simp_all add: session_inv_def)
  have mgr: "fm_inv mgr" "fm_max_groups mgr = 10 * unat (fc_k (qc_fec_config ?c))"
    using new_fec_manager_inv [OF v] managers_ok_find [OF ms]
    by (auto simp: mgr_def split: option.splits dest: sm_find_SomeD)
  then have pos: "0 < fm_max_groups mgr" using config_valid_k [OF v] by simp
  have "managers_ok ?cid ?c (sm_put ?cid m (q_fec_managers st))"
    using fm_add_block_inv [OF mgr(1) pos assms(2) add] mgr(2) by (intro managers_ok_put ms) simp_all
  moreover have "buffers_ok ?cid ?c rbs"
    using rb buffers_ok_put [OF rb, of "ReorderBuffer_new (qc_reorder_config ?c)"] by (simp add: rbs_def new_buffer_size split: option.splits)
  moreover have "snd (handle_quic_data env ?cid data s par gid bi ts kf st) =
      st\<lparr>th_connection_id := ?cid, q_reorder_buffers := rbs, q_fec_managers := sm_put ?cid m (q_fec_managers st)\<rparr>"
    using add by (simp add: handle_quic_data_def mgr_def rbs_def Let_def)
  ultimately show ?thesis using inv by (simp add: session_inv_def)
qed

lemma enqueue_bounded:
  "enqueue ts ds n rb = (n', rb') \<Longrightarrow> get_buffer_size rb \<le> max_buffer_size (rb_config rb) \<Longrightarrow>
     rb_config rb' = rb_config rb \<and> get_buffer_size rb' \<le> max_buffer_size (rb_config rb)"
proof (induction ts ds n rb rule: enqueue.induct)
  case (2 ts d kf ds n rb)
  then show ?case using add_packet_bounded [OF 2(3), of "n + 1" d ts kf] by (simp add: add_packet_config)
qed simp

lemma process_session_inv:
  assumes inv: "session_inv st" and m: "cid = th_connection_id st" "fm_inv m"
    "fm_max_groups m = 10 * unat (fc_k (qc_fec_config (q_config st)))"
  shows "session_inv (process_session env cid m st)"
    and "th_connection_id (process_session env cid m st) = th_connection_id st" "q_config (process_session env cid m st) = q_config st"
proof -
  obtain restored x kfs m1 where c: "check_and_repair_with_metadata (env_now_us env) m = ((restored, x, kfs), m1)"
    by (metis prod.collapse)
  have "0 < fm_max_groups m" using config_valid_k inv m(3) by (auto simp: session_inv_def)
  then have m1: "fm_inv m1" "fm_max_groups m1 = fm_max_groups m" using fm_step_inv [OF fm_check [OF c] m(2)] by simp_all
  let ?st1 = "st\<lparr>q_fec_managers := sm_put cid m1 (q_fec_managers st)\<rparr>"
  have st1: "session_inv ?st1"
    using inv m m1 by (simp add: session_inv_def managers_ok_put)
  show "session_inv (process_session env cid m st)"
  proof (cases "restored = [] \<or> sm_find (q_reorder_buffers st) cid = None")
    case True
    then show ?thesis using st1 by (auto simp: process_session_def c session_inv_def Let_def)
  next
    case False
    then obtain rb where rb: "sm_find (q_reorder_buffers st) cid = Some rb" by blast
    obtain n rb1 where e: "enqueue (env_now_us env sdiv 1000) (zip restored kfs) (q_global_seq_counter st) rb = (n, rb1)" by fastforce
    have bok: "buffers_ok (th_connection_id st) (q_config st) (q_reorder_buffers st)" using inv by (simp add: session_inv_def)
    note f = buffers_ok_find [OF bok rb]
    have "buffers_ok (th_connection_id st) (q_config st) (sm_put cid rb1 (q_reorder_buffers st))"
      using enqueue_bounded [OF e] f m(1) buffers_ok_put [OF bok, of rb1] by simp
    then show ?thesis using st1 False rb e by (simp add: process_session_def c session_inv_def Let_def)
  qed
qed (simp_all add: process_session_def Let_def split: prod.splits option.splits)

lemma process_fec_inv: "session_inv st \<Longrightarrow> session_inv (snd (process_fec_groups env st))"
proof -
  have "session_inv (fold (\<lambda>(cid, mgr). process_session env cid mgr) ms s)"
    if "session_inv s" "th_connection_id s = cid" "q_config s = c"
      "\<forall>(i, m) \<in> set ms. i = cid \<and> fm_inv m \<and> fm_max_groups m = 10 * unat (fc_k (qc_fec_config c))" for ms s cid c
    using that
  proof (induction ms arbitrary: s)
    case (Cons e ms)
    obtain i m where e: "e = (i, m)" by fastforce
    show ?case using Cons.prems process_session_inv [of s i m env] by (simp add: e Cons.IH)
  qed simp
  moreover have "session_inv st \<Longrightarrow> \<forall>(i, m) \<in> set (q_fec_managers st). i = th_connection_id st \<and> fm_inv m \<and>
      fm_max_groups m = 10 * unat (fc_k (qc_fec_config (q_config st)))"
    by (simp add: session_inv_def managers_ok_def)
  ultimately show "session_inv st \<Longrightarrow> session_inv (snd (process_fec_groups env st))"
    unfolding process_fec_groups_def by simp
qed

lemma process_reorder_inv: "session_inv st \<Longrightarrow> session_inv (snd (process_reorder_buffer env cid st))"
proof -
  assume inv: "session_inv st"
  show ?thesis
  proof (cases "sm_find (q_reorder_buffers st) cid")
    case None
    then show ?thesis using inv by (simp add: process_reorder_buffer_def)
  next
    case (Some rb)
    obtain ps rb1 where g: "get_ordered_packets (env_stale env) (env_now_us env sdiv 1000) rb = (ps, rb1)" by fastforce
    have bok: "buffers_ok (th_connection_id st) (q_config st) (q_reorder_buffers st)" using inv by (simp add: session_inv_def)
    note f = buffers_ok_find [OF bok Some]
    have "buffers_ok (th_connection_id st) (q_config st) (sm_put cid rb1 (q_reorder_buffers st))"
      using get_ordered_shrinks [OF g] f buffers_ok_put [OF bok, of rb1] by simp
    then have "session_inv (st\<lparr>q_reorder_buffers := sm_put cid rb1 (q_reorder_buffers st), q_stats := x\<rparr>)" for x
      using inv by (simp add: session_inv_def)
    from output_inv [OF this] this [of "q_stats st"] show ?thesis
      using inv by (simp add: process_reorder_buffer_def Some g Let_def)
  qed
qed

lemma cleanup_inv: "session_inv st \<Longrightarrow> session_inv (cleanup_expired_sessions env st)"
  by (auto simp: cleanup_expired_sessions_def Let_def session_inv_def managers_ok_def buffers_ok_def fold_sm_erase sm_wf_filter)

lemma feed_tail_state:
  "snd (feed_tail env st) =
     (let st1 = (if qs_total_packets_received (q_stats st) mod 100 = 0 then cleanup_expired_sessions env st else st);
          st2 = snd (process_fec_groups env st1)
      in snd (process_reorder_buffer env (th_connection_id st2) st2))"
  by (auto simp: feed_tail_def Let_def process_fec_groups_def split: prod.splits sum.splits)

lemma feed_tail_inv: "session_inv st \<Longrightarrow> session_inv (snd (feed_tail env st))"
  by (simp add: feed_tail_state Let_def process_reorder_inv process_fec_inv cleanup_inv)

lemma session_inv_update [simp]:
  "session_inv (st\<lparr>q_stats := x\<rparr>) = session_inv st" "session_inv (st\<lparr>q_current_mode := m\<rparr>) = session_inv st"
  "session_inv (st\<lparr>q_on_start_stream := b\<rparr>) = session_inv st" "session_inv (st\<lparr>q_on_stop_stream := b\<rparr>) = session_inv st"
  "session_inv st \<Longrightarrow> session_inv (st\<lparr>q_input_buffer := []\<rparr>)"
  by (simp_all add: session_inv_def)

lemma detect_inv: "session_inv (detect_protocol data st) = session_inv st"
  by (simp add: detect_protocol_def set_mode_def Let_def)

lemma detect_cid: "th_connection_id (detect_protocol data st) = th_connection_id st"
  by (simp add: detect_protocol_def set_mode_def Let_def)

lemma q_feed_inv: "session_inv st \<Longrightarrow> session_inv (snd (q_feed env data st))"
proof -
  assume inv: "session_inv st"
  define st2 where "st2 = (let stats = q_stats st; st1 = st\<lparr>q_stats := stats\<lparr>qs_total_packets_received := qs_total_packets_received stats + 1\<rparr>\<rparr> in
     if q_current_mode st1 = MODE_UNKNOWN \<and> qc_enable_protocol_detection (q_config st1) then detect_protocol data st1 else st1)"
  have st2: "session_inv st2" using inv by (simp add: st2_def Let_def detect_inv)
  have "session_inv (snd (and_then (handle_quic_data env (th_connection_id st2) (drop 16 data) s par gid bi ts kf st2) (\<lambda>st3.
      (let stats = q_stats st3 in feed_tail env (st3\<lparr>q_stats := stats\<lparr>qs_quic_packets := qs_quic_packets stats + 1\<rparr>\<rparr>)))))"
    if "16 < length data" for s par gid bi ts kf
    by (rule and_then_prop [where P = session_inv])
      (use st2 that in \<open>simp_all add: handle_quic_inv feed_tail_inv Let_def\<close>)
  then show ?thesis
    using inv st2 unfolding q_feed_def Let_def [of "q_stats st"] Let_def [of "st\<lparr>q_stats := _\<rparr>"]
    unfolding st2_def [unfolded Let_def, symmetric]
    by (auto simp: Let_def intro!: and_then_prop [where P = session_inv] handle_bare_inv feed_tail_inv handle_quic_inv)
qed

lemma q_flush_inv: "session_inv st \<Longrightarrow> session_inv (snd (q_flush env st))"
  unfolding q_flush_def
  by (intro and_then_prop [where P = session_inv]) (simp_all add: process_fec_inv process_reorder_inv)

lemma q_close_inv: "session_inv st \<Longrightarrow> session_inv (snd (q_close st))"
  by (auto simp: q_close_def Let_def session_inv_def managers_ok_def buffers_ok_def with_res_def split: sum.splits)

inductive q_step :: "QuicFecTsAdapter \<Rightarrow> QuicFecTsAdapter \<Rightarrow> bool" where
  q_step_feed: "q_step st (snd (q_feed env data st))"
| q_step_flush: "q_step st (snd (q_flush env st))"
| q_step_parse: "q_step st (snd (q_parseFrame st))"
| q_step_start_cb: "q_step st (q_setOnStartStream callback st)"
| q_step_stop_cb: "q_step st (q_setOnStopStream callback st)"
| q_step_close: "q_step st (snd (q_close st))"

lemma q_step_inv: "q_step st st' \<Longrightarrow> session_inv st \<Longrightarrow> session_inv st'"
  by (induction rule: q_step.induct)
    (simp_all add: q_feed_inv q_flush_inv q_close_inv q_parseFrame_def q_setOnStartStream_def q_setOnStopStream_def)

lemma q_steps_inv: "q_step\<^sup>*\<^sup>* st st' \<Longrightarrow> session_inv st \<Longrightarrow> session_inv st'"
  by (induction rule: rtranclp_induct) (auto intro: q_step_inv)

text \<open>What a successful start has set up.\<close>

lemma q_start_ok:
  assumes "q_start env init st = (Inr u, st')"
  shows "config_valid (q_config st')" "th_source_bridge st' \<noteq> None"
    "q_fec_managers st' = sm_put (th_connection_id st') (new_fec_manager (q_config st')) (q_fec_managers st)"
    "q_reorder_buffers st' = sm_put (th_connection_id st') (ReorderBuffer_new (qc_reorder_config (q_config st'))) (q_reorder_buffers st)"
    "q_current_mode st' = MODE_UNKNOWN" "q_input_buffer st' = q_input_buffer st" "q_output st' = q_output st"
    "q_ts_context st' = q_ts_context st"
  using assms unfolding q_start_def Let_def with_res_def
  by (auto split: prod.splits sum.splits option.splits dest: init_config_valid)

lemma q_start_inv:
  assumes "q_start env init (QuicFecTsAdapter_new counter last_size stats) = (Inr u, st)"
  shows "session_inv st"
proof -
  note s = q_start_ok [OF assms]
  have "managers_ok (th_connection_id st) (q_config st) (q_fec_managers st)"
    unfolding s(3) by (rule managers_ok_put) (simp_all add: new_fec_manager_inv s(1) managers_ok_def QuicFecTsAdapter_new_def
        TsHandlerAdapter.extend_def)
  moreover have "buffers_ok (th_connection_id st) (q_config st) (q_reorder_buffers st)"
    unfolding s(4) by (rule buffers_ok_put) (simp_all add: new_buffer_size buffers_ok_def QuicFecTsAdapter_new_def
        TsHandlerAdapter.extend_def)
  moreover have "q_input_buffer st = []" unfolding s(6) by (simp add: QuicFecTsAdapter_new_def TsHandlerAdapter.extend_def)
  ultimately show ?thesis using s(1) by (simp add: session_inv_def)
qed


definition demo_env :: quic_env where
  "demo_env = \<lparr>env_hevc_demux = (\<lambda>_ _. Inl ERROR_HLS_DECODE_ERROR), env_on_frame = (\<lambda>_ _. srs_success), env_drops = (\<lambda>_. False),
     env_fetch = Some (\<lambda>_ _ _. srs_success), env_now_us = 5000000, env_now = 5000, env_default_id = ''c1'', env_stale = 0\<rparr>"

definition demo_init :: AdapterInit where
  "demo_init = AdapterInit_new ''v'' ''live'' ''s''"

definition demo_adapter :: QuicFecTsAdapter where
  "demo_adapter = snd (q_start demo_env demo_init (QuicFecTsAdapter_new 0 0 (AdapterStatsManager_new 1000)))"

lemma demo_start: "q_start demo_env demo_init (QuicFecTsAdapter_new 0 0 (AdapterStatsManager_new 1000)) = (srs_success, demo_adapter)"
proof -
  have "fst (q_start demo_env demo_init (QuicFecTsAdapter_new 0 0 (AdapterStatsManager_new 1000))) = srs_success"
    by (simp add: q_start_def Let_def demo_env_def demo_init_def AdapterInit_new_def get_param_def get_int_param_def
        get_bool_param_def init_config_def config_network_def config_fec_def config_reorder_def config_limits_def check_def
        to_size_def QuicFecTsAdapter_new_def TsHandlerAdapter_new_def TsHandlerAdapter.extend_def br_initialize_def
        create_source_def FrameToSourceBridge_new_def add_connection_def asm_lock_def AdapterStatsManager_new_def)
  then show ?thesis unfolding demo_adapter_def by (metis prod.collapse)
qed


section \<open>Headers before frames\<close>

lemma headers_inv_update [simp]:
  "headers_inv (st\<lparr>q_ts_context := c\<rparr>) = headers_inv st" "headers_inv (st\<lparr>q_last_processed_size := n\<rparr>) = headers_inv st"
  "headers_inv (st\<lparr>q_stream_started := b\<rparr>) = headers_inv st" "headers_inv (st\<lparr>q_events := es\<rparr>) = headers_inv st"
  "headers_inv (st\<lparr>q_output := out\<rparr>) = headers_inv st" "headers_inv (st\<lparr>q_input_buffer := inp\<rparr>) = headers_inv st"
  "headers_inv (st\<lparr>q_stats := x\<rparr>) = headers_inv st" "headers_inv (st\<lparr>q_current_mode := m\<rparr>) = headers_inv st"
  "headers_inv (st\<lparr>q_fec_managers := ms\<rparr>) = headers_inv st" "headers_inv (st\<lparr>q_reorder_buffers := rbs\<rparr>) = headers_inv st"
  "headers_inv (st\<lparr>q_global_seq_counter := n\<rparr>) = headers_inv st" "headers_inv (st\<lparr>q_sessions := ss\<rparr>) = headers_inv st"
  "headers_inv (st\<lparr>q_on_start_stream := b\<rparr>) = headers_inv st" "headers_inv (st\<lparr>q_on_stop_stream := b\<rparr>) = headers_inv st"
  by (simp_all add: headers_inv_def media_all sent_packets_def)

lemma headers_inv_handler_update [simp]:
  "headers_inv (st\<lparr>th_stats := x\<rparr>) = headers_inv st" "headers_inv (st\<lparr>th_connection_id := cid\<rparr>) = headers_inv st"
  by (simp_all add: headers_inv_def media_all sent_packets_def)

lemma headers_handled:
  "on_ts_message hevc_demux on_frame drops strm msg st = (r, st1) \<Longrightarrow> headers_inv st \<Longrightarrow> headers_inv st1"
  using headers.handler_keeps [of st hevc_demux on_frame drops strm msg] by simp

lemma headers_decoded:
  "ts_context_decode (on_ts_message hevc_demux on_frame drops) b ctx st = (r, ctx1, st1) \<Longrightarrow> headers_inv st \<Longrightarrow> headers_inv st1"
  using headers.decode_keeps [of st hevc_demux on_frame drops b ctx] by simp

lemma headers_early: "headers_inv st \<Longrightarrow> headers_inv (snd (early_message env st))"
  by (auto simp: early_message_def Let_def split: option.splits prod.splits sum.splits dest: headers_handled)

lemma headers_packet: "headers_inv st \<Longrightarrow> headers_inv (snd (output_packet env p st))"
  by (auto simp: output_packet_def Let_def intro!: headers_early split: option.splits prod.splits sum.splits dest: headers_decoded)

lemma headers_loop: "headers_inv st \<Longrightarrow> headers_inv (snd (output_loop env ps st))"
  by (induction env ps st rule: output_loop.induct) (auto intro!: and_then_prop [where P = headers_inv] headers_packet)

lemma headers_begin: "headers_inv st \<Longrightarrow> headers_inv (snd (begin_stream env st))"
  by (auto simp: begin_stream_def Let_def with_res_def split: sum.splits)

lemma headers_output: "headers_inv st \<Longrightarrow> headers_inv (snd (output_ts_packets env ps st))"
  unfolding output_ts_packets_def
  by (auto intro!: and_then_prop [where P = headers_inv] headers_begin headers_loop stats_inv)

lemma headers_bare: "headers_inv st \<Longrightarrow> headers_inv (snd (handle_bare_ts_data env data st))"
  by (auto simp: handle_bare_ts_data_def Let_def intro!: headers_output split: prod.splits)

lemma headers_quic: "headers_inv st \<Longrightarrow> headers_inv (snd (handle_quic_data env cid data s par gid bi ts kf st))"
  by (auto simp: handle_quic_data_def Let_def split: prod.splits)

lemma headers_session: "headers_inv st \<Longrightarrow> headers_inv (process_session env cid m st)"
  by (auto simp: process_session_def Let_def split: prod.splits option.splits)

lemma headers_fec: "headers_inv st \<Longrightarrow> headers_inv (snd (process_fec_groups env st))"
proof -
  have "headers_inv s \<Longrightarrow> headers_inv (fold (\<lambda>(cid, mgr). process_session env cid mgr) ms s)" for ms s
    by (induction ms arbitrary: s) (auto intro: headers_session)
  then show "headers_inv st \<Longrightarrow> headers_inv (snd (process_fec_groups env st))" by (simp add: process_fec_groups_def)
qed

lemma headers_reorder: "headers_inv st \<Longrightarrow> headers_inv (snd (process_reorder_buffer env cid st))"
  by (auto simp: process_reorder_buffer_def Let_def intro!: headers_output split: prod.splits option.splits)

lemma headers_tail: "headers_inv st \<Longrightarrow> headers_inv (snd (feed_tail env st))"
  by (simp add: feed_tail_state Let_def headers_reorder headers_fec cleanup_expired_sessions_def)

lemma headers_detect: "headers_inv (detect_protocol data st) = headers_inv st"
  by (simp add: detect_protocol_def set_mode_def Let_def)

lemma headers_feed: "headers_inv st \<Longrightarrow> headers_inv (snd (q_feed env data st))"
  unfolding q_feed_def Let_def
  by (auto intro!: and_then_prop [where P = headers_inv] headers_bare headers_tail headers_quic simp: headers_detect)

lemma headers_step: "q_step st st' \<Longrightarrow> headers_inv st \<Longrightarrow> headers_inv st'"
proof (induction rule: q_step.induct)
  case (q_step_flush st env)
  then show ?case
    unfolding q_flush_def by (intro and_then_prop [where P = headers_inv]) (simp_all add: headers_fec headers_reorder)
next
  case (q_step_close st)
  have "sent_packets (snd (q_close st)) = None"
    by (auto simp: q_close_def Let_def sent_packets_def with_res_def split: sum.splits)
  then show ?case by (simp add: headers_inv_def)
qed (simp_all add: headers_feed q_parseFrame_def q_setOnStartStream_def q_setOnStopStream_def)


section \<open>Bare transport streams\<close>

lemma blocks_prefix:
  assumes "\<forall>p \<in> set out. length p = n" "\<forall>p \<in> set ps. length p = n" "0 < n" "concat out @ rest = concat ps"
  shows "out = take (length out) ps \<and> rest = concat (drop (length out) ps)"
  using assms
proof (induction out arbitrary: ps)
  case (Cons p out)
  from Cons.prems obtain q qs where ps: "ps = q # qs" by (cases ps) auto
  then have "p = q \<and> concat out @ rest = concat qs" using Cons.prems by (simp add: append_eq_append_conv)
  with Cons.IH [of qs] Cons.prems ps show ?case by simp
qed simp

lemma bare_split_aligned:
  assumes "bare_split xs = (qs, rest)" "xs = [] \<or> hd xs = 0x47"
  shows "concat qs @ rest = xs \<and> (\<forall>q \<in> set qs. length q = 188)"
proof -
  have "(case find_sync 0 xs of None \<Rightarrow> 0 | Some i \<Rightarrow> i) = 0" using assms(2) by (cases xs) auto
  then have "bare_split xs = (if length xs < 188 then ([], xs) else (cut_packets xs, drop (188 * (length xs div 188)) xs))"
    by (simp add: bare_split_def)
  with assms(1) cut_packets_concat [of xs] show ?thesis by (auto split: if_splits)
qed

definition quiet :: "QuicFecTsAdapter \<Rightarrow> bool" where
  "quiet st \<longleftrightarrow> (\<forall>(i, m) \<in> set (q_fec_managers st). fm_groups m = []) \<and> (\<forall>(i, rb) \<in> set (q_reorder_buffers st). rb_buffer rb = [])"

lemma check_and_repair_quiet:
  "fm_groups m = [] \<Longrightarrow> check_and_repair_with_metadata now m = (([], [], []), m)"
  by (simp add: check_and_repair_with_metadata_def check_and_repair_blocks_def)

lemma process_session_quiet:
  "fm_groups m = [] \<Longrightarrow> process_session env i m st = st\<lparr>q_fec_managers := sm_put i m (q_fec_managers st)\<rparr>"
  by (simp add: process_session_def check_and_repair_quiet)

definition bare_inv :: "u8 list \<Rightarrow> QuicFecTsAdapter \<Rightarrow> bool" where
  "bare_inv fed st \<longleftrightarrow> q_current_mode st = MODE_BARE_TS \<and> quiet st \<and> concat (q_output st) @ q_input_buffer st = fed \<and>
     length (q_input_buffer st) < 188 \<and> (\<forall>p \<in> set (q_output st). length p = 188)"

lemma bare_inv_update [simp]:
  "bare_inv fed (st\<lparr>q_stats := x\<rparr>) = bare_inv fed st"
  by (simp add: bare_inv_def quiet_def)

lemma bare_inv_manager: "bare_inv fed st \<Longrightarrow> fm_groups m = [] \<Longrightarrow> bare_inv fed (st\<lparr>q_fec_managers := sm_put i m (q_fec_managers st)\<rparr>)"
  by (auto simp: bare_inv_def quiet_def dest!: sm_put_set)

lemma bare_inv_sessions:
  "bare_inv fed st \<Longrightarrow> \<forall>(i, m) \<in> set ms. fm_groups m = [] \<Longrightarrow>
     bare_inv fed (fold (\<lambda>(cid, mgr). process_session env cid mgr) ms st)"
  by (induction ms arbitrary: st) (auto simp: process_session_quiet bare_inv_manager)

lemma bare_inv_fec: "bare_inv fed st \<Longrightarrow> bare_inv fed (snd (process_fec_groups env st))"
proof -
  assume inv: "bare_inv fed st"
  then have "\<forall>(i, m) \<in> set (q_fec_managers st). fm_groups m = []" by (simp add: bare_inv_def quiet_def)
  from bare_inv_sessions [OF inv this] show ?thesis by (simp add: process_fec_groups_def)
qed

lemma process_reorder_quiet: "quiet st \<Longrightarrow> process_reorder_buffer env cid st = (srs_success, st)"
  by (auto simp: process_reorder_buffer_def quiet_def has_ready_packets_def split: option.splits dest!: sm_find_SomeD)

lemma bare_inv_cleanup: "bare_inv fed st \<Longrightarrow> bare_inv fed (cleanup_expired_sessions env st)"
  by (auto simp: cleanup_expired_sessions_def Let_def bare_inv_def quiet_def fold_sm_erase)

lemma bare_inv_tail: "bare_inv fed st \<Longrightarrow> bare_inv fed (snd (feed_tail env st))"
proof -
  have r: "bare_inv fed s \<Longrightarrow> process_reorder_buffer env cid s = (srs_success, s)" for s cid
    by (simp add: bare_inv_def process_reorder_quiet)
  show "bare_inv fed st \<Longrightarrow> bare_inv fed (snd (feed_tail env st))"
    by (simp add: feed_tail_state Let_def r bare_inv_fec bare_inv_cleanup)
qed

lemma bare_inv_handle:
  assumes "bare_inv fed st" "concat ps = fed @ data @ later" "\<forall>p \<in> set ps. length p = 188 \<and> hd p = 0x47"
  shows "bare_inv (fed @ data) (snd (handle_bare_ts_data env data st))"
proof -
  obtain qs rest where b: "bare_split (q_input_buffer st @ data) = (qs, rest)" by fastforce
  let ?out = "q_output st" and ?inp = "q_input_buffer st @ data" and ?st = "st\<lparr>q_input_buffer := rest\<rparr>"
  have fed: "concat ?out @ q_input_buffer st = fed" "\<forall>p \<in> set ?out. length p = 188" using assms(1) by (simp_all add: bare_inv_def)
  have "?inp @ later = concat (drop (length ?out) ps)"
    using blocks_prefix [of ?out 188 ps "?inp @ later"] fed assms(2,3) by auto
  then have hd: "?inp = [] \<or> hd ?inp = 0x47"
  proof (cases "drop (length ?out) ps")
    case (Cons p qs)
    then have "p \<in> set ps" by (metis in_set_dropD list.set_intros(1))
    then have "p \<noteq> []" "hd p = 0x47" using assms(3) by auto
    with Cons \<open>?inp @ later = concat (drop (length ?out) ps)\<close> show ?thesis by (metis concat.simps(2) hd_append2)
  qed simp
  note sp = bare_split_aligned [OF b hd]
  have len: "length rest < 188" using bare_split_rest [of ?inp] b by simp
  have fd: "fed @ data = concat ?out @ concat qs @ rest" using sp fed(1) by auto
  show ?thesis
  proof (cases "qs = []")
    case True
    then show ?thesis using assms(1) b sp fd len by (simp add: handle_bare_ts_data_def bare_inv_def quiet_def)
  next
    case False
    then have "snd (handle_bare_ts_data env data st) = snd (output_ts_packets env qs ?st)"
      by (simp add: handle_bare_ts_data_def b)
    moreover have "emitted (transport ?st) (?out @ qs) (snd (output_ts_packets env qs ?st))"
      using output_ts_packets_emits [of ?st qs env] by simp
    ultimately show ?thesis using assms(1) sp fd len by (auto simp: bare_inv_def quiet_def emitted_def transport_def)
  qed
qed

lemma bare_inv_feed:
  assumes "bare_inv fed st" "concat ps = fed @ data @ later" "\<forall>p \<in> set ps. length p = 188 \<and> hd p = 0x47"
  shows "bare_inv (fed @ data) (snd (q_feed env data st))"
proof (cases "data = []")
  case False
  define st1 where "st1 = st\<lparr>q_stats := (q_stats st)\<lparr>qs_total_packets_received := qs_total_packets_received (q_stats st) + 1\<rparr>\<rparr>"
  have m: "q_current_mode st1 = MODE_BARE_TS" and i: "bare_inv fed st1" using assms(1) by (simp_all add: st1_def bare_inv_def quiet_def)
  have "q_feed env data st = and_then (handle_bare_ts_data env data st1) (feed_tail env)"
    using False m unfolding q_feed_def Let_def st1_def [symmetric] by simp
  moreover have "bare_inv (fed @ data) (snd (and_then (handle_bare_ts_data env data st1) (feed_tail env)))"
    by (rule and_then_prop [where P = "bare_inv (fed @ data)"]) (auto intro: bare_inv_tail bare_inv_handle [OF i assms(2,3)])
  ultimately show ?thesis by simp
qed (use assms(1) in \<open>simp add: q_feed_def\<close>)

fun q_feeds :: "(quic_env \<times> u8 list) list \<Rightarrow> QuicFecTsAdapter \<Rightarrow> QuicFecTsAdapter outcome" where
  "q_feeds [] st = (srs_success, st)"
| "q_feeds ((env, data) # es) st = and_then (q_feed env data st) (q_feeds es)"

lemma bare_inv_feeds:
  assumes "bare_inv fed st" "concat ps = fed @ concat (map snd es)" "\<forall>p \<in> set ps. length p = 188 \<and> hd p = 0x47"
    and "q_feeds es st = (r, st')"
  shows "\<exists>n. bare_inv (take n (concat ps)) st' \<and> (r = srs_success \<longrightarrow> n = length (concat ps))"
  using assms
proof (induction es arbitrary: fed st)
  case Nil
  then show ?case by (intro exI [of _ "length (concat ps)"]) simp
next
  case (Cons e es)
  obtain env data where e: "e = (env, data)" by fastforce
  obtain r1 st1 where f: "q_feed env data st = (r1, st1)" by fastforce
  have fd: "bare_inv (fed @ data) st1"
    using bare_inv_feed [OF Cons.prems(1), of ps data "concat (map snd es)" env] Cons.prems(2,3) e f by simp
  show ?case
  proof (cases r1)
    case (Inl x)
    then have "st' = st1" "r = Inl x" using Cons.prems(4) e f by simp_all
    then show ?thesis using fd Cons.prems(2) e by (intro exI [of _ "length (fed @ data)"]) simp
  next
    case (Inr u)
    then have "q_feeds es st1 = (r, st')" using Cons.prems(4) e f by simp
    with Cons.IH [OF fd _ Cons.prems(3)] Cons.prems(2) e show ?thesis by simp
  qed
qed

lemma bare_detected:
  assumes "concat ps = data @ later" "\<forall>p \<in> set ps. length p = 188 \<and> hd p = 0x47" "4 \<le> length data"
  shows "detect_protocol data st = set_mode MODE_BARE_TS st"
proof -
  obtain p qs where ps: "ps = p # qs" using assms(1,3) by (cases ps) auto
  then have p: "length p = 188" "hd p = 0x47" using assms(2) by auto
  have h: "concat ps ! 0 = 0x47" using p ps by (cases p) auto
  then have d0: "data ! 0 = 0x47" using assms(1,3) by (cases data) auto
  have "data ! 188 = 0x47" if long: "188 * 2 \<le> length data"
  proof -
    obtain q rs where qs: "qs = q # rs" using long assms(1) ps p arg_cong [OF assms(1), of length] by (cases qs) auto
    then have q: "q \<noteq> []" "hd q = 0x47" using assms(2) ps by auto
    have "data ! 188 = concat ps ! 188" using long assms(1) by (simp add: nth_append)
    also have "\<dots> = q ! 0" using p q by (simp add: ps qs nth_append)
    finally show ?thesis using q by (simp add: hd_conv_nth)
  qed
  with d0 assms(3) show ?thesis by (auto simp: detect_protocol_def Let_def)
qed

lemma first_bare_feed:
  assumes "concat ps = data @ later" "\<forall>p \<in> set ps. length p = 188 \<and> hd p = 0x47" "4 \<le> length data"
    and "q_current_mode st = MODE_UNKNOWN" "qc_enable_protocol_detection (q_config st)" "quiet st" "q_output st = []" "q_input_buffer st = []"
  shows "bare_inv data (snd (q_feed env data st))"
proof -
  define st1 where "st1 = st\<lparr>q_stats := (q_stats st)\<lparr>qs_total_packets_received := qs_total_packets_received (q_stats st) + 1\<rparr>\<rparr>"
  define st2 where "st2 = set_mode MODE_BARE_TS st1"
  have i: "bare_inv [] st2" using assms(6-8) by (simp add: st2_def st1_def bare_inv_def quiet_def set_mode_def Let_def)
  have d: "detect_protocol data st1 = st2" unfolding st2_def by (rule bare_detected [OF assms(1-3)])
  have m: "q_current_mode st2 = MODE_BARE_TS" by (simp add: st2_def set_mode_def Let_def)
  have u: "q_current_mode st1 = MODE_UNKNOWN" "qc_enable_protocol_detection (q_config st1)" using assms(4,5) by (simp_all add: st1_def)
  have "data \<noteq> []" using assms(3) by auto
  then have "q_feed env data st = and_then (handle_bare_ts_data env data st2) (feed_tail env)"
    using m u d unfolding q_feed_def Let_def st1_def [symmetric] by simp
  moreover have "bare_inv data (snd (and_then (handle_bare_ts_data env data st2) (feed_tail env)))"
    using bare_inv_handle [OF i, of ps data later env] assms(1,2)
    by (intro and_then_prop [where P = "bare_inv data"]) (auto intro: bare_inv_tail)
  ultimately show ?thesis by simp
qed

lemma started_quiet:
  assumes "q_start env init (QuicFecTsAdapter_new counter last_size stats) = (Inr u, st)"
  shows "quiet st" "q_output st = []" "q_input_buffer st = []"
  using q_start_ok [OF assms]
  by (auto simp: quiet_def QuicFecTsAdapter_new_def TsHandlerAdapter.extend_def new_fec_manager_def fm_set_max_groups_def
      fm_set_config_def FecRepairManager_new_def ReorderBuffer_new_def)


lemmas demo_start_defs = demo_adapter_def q_start_def Let_def demo_env_def demo_init_def AdapterInit_new_def get_param_def
  get_int_param_def get_bool_param_def init_config_def config_network_def config_fec_def config_reorder_def config_limits_def
  check_def to_size_def QuicFecTsAdapter_new_def TsHandlerAdapter_new_def TsHandlerAdapter.extend_def br_initialize_def
  create_source_def FrameToSourceBridge_new_def add_connection_def asm_lock_def AdapterStatsManager_new_def

lemma demo_detection: "qc_enable_protocol_detection (q_config demo_adapter)"
  by (simp add: demo_start_defs)

definition demo_null :: "u8 list" where
  "demo_null = 0x47 # 0x1f # 0xff # 0x10 # replicate 184 0"


section \<open>Detection\<close>

lemma output_mode: "q_current_mode (snd (output_ts_packets env ps st)) = q_current_mode st"
  "q_config (snd (output_ts_packets env ps st)) = q_config st"
  using output_ts_packets_emits [of st ps env] by (simp_all add: emitted_def transport_def)

definition mode_of :: "QuicFecTsAdapter \<Rightarrow> ProtocolMode \<times> QuicConfig" where
  "mode_of st = (q_current_mode st, q_config st)"

lemma mode_bare: "mode_of (snd (handle_bare_ts_data env data st)) = mode_of st"
  by (simp add: handle_bare_ts_data_def Let_def mode_of_def output_mode split: prod.splits)

lemma mode_quic: "mode_of (snd (handle_quic_data env cid data s par gid bi ts kf st)) = mode_of st"
  by (simp add: handle_quic_data_def Let_def mode_of_def split: prod.splits)

lemma mode_fec: "mode_of (snd (process_fec_groups env st)) = mode_of st"
proof -
  have "mode_of (process_session env i m s) = mode_of s" for i m s
    by (simp add: process_session_def Let_def mode_of_def split: prod.splits option.splits)
  then have "mode_of (fold (\<lambda>(cid, mgr). process_session env cid mgr) ms s) = mode_of s" for ms s
    by (induction ms arbitrary: s) auto
  then show ?thesis by (simp add: process_fec_groups_def)
qed

lemma mode_reorder: "mode_of (snd (process_reorder_buffer env cid st)) = mode_of st"
  by (simp add: process_reorder_buffer_def Let_def mode_of_def output_mode split: prod.splits option.splits)

lemma mode_tail: "mode_of (snd (feed_tail env st)) = mode_of st"
  unfolding feed_tail_state Let_def mode_reorder mode_fec by (simp add: cleanup_expired_sessions_def Let_def mode_of_def)

lemma mode_stats [simp]: "mode_of (st\<lparr>q_stats := x\<rparr>) = mode_of st"
  by (simp add: mode_of_def)

lemma mode_of_set_mode: "mode_of (set_mode m st) = (m, q_config st)"
  by (simp add: set_mode_def mode_of_def Let_def)

lemma and_then_mode:
  "mode_of (snd p) = x \<Longrightarrow> (\<forall>s. mode_of s = x \<longrightarrow> mode_of (snd (k s)) = x) \<Longrightarrow> mode_of (snd (and_then p k)) = x"
  by (rule and_then_prop [where P = "\<lambda>s. mode_of s = x"]) auto

lemma q_feed_mode:
  "mode_of (snd (q_feed env data st)) =
     (if data \<noteq> [] \<and> q_current_mode st = MODE_UNKNOWN \<and> qc_enable_protocol_detection (q_config st)
      then mode_of (detect_protocol data st) else mode_of st)"
proof -
  have d: "mode_of (detect_protocol data (st\<lparr>q_stats := x\<rparr>)) = mode_of (detect_protocol data st)" for x
    unfolding detect_protocol_def Let_def by (simp add: if_distrib [of mode_of] mode_of_set_mode) (auto simp: mode_of_def)
  show ?thesis
    unfolding q_feed_def Let_def
    by (auto intro!: and_then_mode simp: mode_bare mode_quic mode_tail d)
qed

lemma q_feeds_mode:
  "q_current_mode st \<noteq> MODE_UNKNOWN \<or> \<not> qc_enable_protocol_detection (q_config st) \<Longrightarrow> mode_of (snd (q_feeds es st)) = mode_of st"
proof (induction es arbitrary: st)
  case (Cons e es)
  obtain env data where e: "e = (env, data)" by fastforce
  have m: "mode_of (snd (q_feed env data st)) = mode_of st" using Cons.prems by (auto simp: q_feed_mode)
  then have "mode_of (snd (q_feeds es (snd (q_feed env data st)))) = mode_of st"
    using Cons.IH [of "snd (q_feed env data st)"] Cons.prems by (auto simp: mode_of_def)
  with m show ?case unfolding e q_feeds.simps by (rule and_then_prop [where P = "\<lambda>s. mode_of s = mode_of st"])
qed simp

definition fec_datagram :: "u64 \<Rightarrow> u32 \<Rightarrow> u16 \<Rightarrow> u8 \<Rightarrow> u8 list \<Rightarrow> u8 list" where
  "fec_datagram sq gid bi flags payld = le_bytes 8 sq @ le_bytes 4 gid @ le_bytes 2 bi @ [flags, 0] @ payld"

text \<open>
  The protocol is decided by the first datagram alone, and wrongly for some FEC streams: when the sequence
  number of the first datagram ends in the byte \<open>0x47\<close> and the datagram is shorter than two transport stream packets, the
  adapter takes the stream for a bare transport stream, and no later datagram ever changes that.
\<close>

theorem fec_stream_misdetected:
  assumes "q_current_mode st = MODE_UNKNOWN" "qc_enable_protocol_detection (q_config st)"
    and "(ucast sq :: u8) = 0x47" "length payld < 360"
  shows "q_current_mode (snd (q_feeds ((env, fec_datagram sq gid bi flags payld) # es) st)) = MODE_BARE_TS"
proof -
  let ?d = "fec_datagram sq gid bi flags payld"
  have "byte_of sq 0 = 0x47" using assms(3) by (simp add: byte_of_def)
  then have d: "?d ! 0 = 0x47" "length ?d = length payld + 16"
    by (simp_all add: fec_datagram_def le_bytes_def upt_conv_Cons)
  then have "detect_protocol ?d st = set_mode MODE_BARE_TS st" using assms(4) by (simp add: detect_protocol_def Let_def)
  moreover have "?d \<noteq> []" using d(2) by auto
  ultimately have m: "q_current_mode (snd (q_feed env ?d st)) = MODE_BARE_TS"
    using q_feed_mode [of env ?d st] assms(1,2) by (simp add: mode_of_def set_mode_def Let_def)
  then have "q_current_mode (snd (q_feeds es (snd (q_feed env ?d st)))) = MODE_BARE_TS"
    using q_feeds_mode [of "snd (q_feed env ?d st)" es] by (simp add: mode_of_def)
  with m show ?thesis unfolding q_feeds.simps by (rule and_then_prop [where P = "\<lambda>s. q_current_mode s = MODE_BARE_TS"])
qed

text \<open>
  With protocol detection switched off the parameter \<open>default_mode\<close> has no effect: the code that reads it is called only
  when detection is on, so the adapter stays in the unknown mode, which is handled as FEC, whatever is fed.
\<close>

theorem detection_off_never_bare:
  assumes "q_current_mode st = MODE_UNKNOWN" "\<not> qc_enable_protocol_detection (q_config st)"
  shows "q_current_mode (snd (q_feeds es st)) = MODE_UNKNOWN"
  using q_feeds_mode [of st es] assms by (simp add: mode_of_def)

theorem detection_off_never_bare_witness:
  "q_current_mode (snd (q_feeds [(demo_env, demo_null)]
     (demo_adapter\<lparr>q_config := (q_config demo_adapter)\<lparr>qc_enable_protocol_detection := False\<rparr>\<rparr>))) = MODE_UNKNOWN"
  by (rule detection_off_never_bare) (simp_all add: q_start_ok(5) [OF demo_start])

theorem fec_stream_misdetected_witness:
  "q_current_mode (snd (q_feeds [(demo_env, fec_datagram 0x147 1 0 0 [7]), (demo_env, fec_datagram 0x148 1 1 0 [8])] demo_adapter)) = MODE_BARE_TS"
  using fec_stream_misdetected [of demo_adapter "0x147" "[7]" demo_env 1 0 0 "[(demo_env, fec_datagram 0x148 1 1 0 [8])]"]
    demo_detection q_start_ok(5) [OF demo_start] by simp

section \<open>The counter shared by all connections\<close>

text \<open>Turns of one connection: the other connections draw \<open>others\<close> numbers, then \<open>process_session\<close> files the restored
  packets \<open>ds\<close> and \<open>process_reorder_buffer\<close> polls the buffer. The result is what is output.\<close>

fun turns ::
    "u64 \<Rightarrow> (nat \<times> int \<times> (u8 list \<times> bool) list) list \<Rightarrow> u64 \<Rightarrow> ReorderBuffer \<Rightarrow> u8 list list" where
  "turns stale [] counter rb = []"
| "turns stale ((others, now, ds) # ts) counter rb =
     (let (counter1, rb1) = enqueue now ds (counter + of_nat others) rb;
          (ps, rb2) = (if has_ready_packets rb1 then get_ordered_packets stale now rb1 else ([], rb1))
      in ps @ turns stale ts counter1 rb2)"

text \<open>The buffer waits for a number that has been drawn.\<close>

definition stalled :: "ReorderBuffer \<Rightarrow> nat \<Rightarrow> bool" where
  "stalled rb n \<longleftrightarrow> rb_expected_sequence rb \<noteq> 0 \<and> unat (rb_expected_sequence rb) \<le> n \<and> \<not> has_ready_packets rb"

lemma add_packet_stalled: "stalled rb n \<Longrightarrow> unat s > n \<Longrightarrow> stalled (snd (add_packet s d t kf rb)) n"
  by (auto simp: stalled_def add_packet_def Let_def has_ready_packets_def sm_find_put_app)

lemma stalled_mono: "stalled rb n \<Longrightarrow> n \<le> m \<Longrightarrow> stalled rb m"
  by (simp add: stalled_def)

lemma unat_plus_small: "unat c + n < 2 ^ 64 \<Longrightarrow> unat (c + of_nat n) = unat c + n" for c :: u64
proof -
  assume n: "unat c + n < 2 ^ 64"
  then have "unat (of_nat n :: u64) = n" by (simp add: unat_of_nat)
  with n show ?thesis by (simp add: unat_word_ariths)
qed

lemma enqueue_stalled:
  assumes "stalled rb (unat c)" "unat c + length ds < 2 ^ 64" "enqueue t ds c rb = (c', rb')"
  shows "stalled rb' (unat c') \<and> unat c' = unat c + length ds"
  using assms
proof (induction t ds c rb rule: enqueue.induct)
  case (2 t d kf ds c rb)
  have c: "unat (c + 1) = unat c + 1" using unat_plus_small [of c 1] 2(3) by simp
  let ?rb = "snd (add_packet (c + 1) d t kf rb)"
  have "stalled ?rb (unat c)" by (rule add_packet_stalled [OF 2(2)]) (simp add: c)
  then have "stalled ?rb (unat (c + 1))" by (rule stalled_mono) (simp add: c)
  moreover have "unat (c + 1) + length ds < 2 ^ 64" using 2(3) c by simp
  moreover have "enqueue t ds (c + 1) ?rb = (c', rb')" using 2(4) by simp
  ultimately have "stalled rb' (unat c') \<and> unat c' = unat (c + 1) + length ds" by (rule 2(1))
  then show ?case unfolding c by auto
qed simp

text \<open>
  Restored packets are numbered from one counter for the whole program, but every connection waits for the
  next number in its own buffer. Once another connection has drawn the number that a buffer waits for, the connection outputs nothing
  ever again: in each of its further turns the other connections draw any amount of numbers, its own restored packets
  are filed and its buffer is polled, and no packet comes out, as long as the 64-bit counter does not wrap.
\<close>

theorem shared_counter_stalls:
  assumes "stalled rb (unat counter)"
    and "unat counter + sum_list (map (\<lambda>(others, now, ds). others + length ds) ts) < 2 ^ 64"
  shows "turns stale ts counter rb = []"
  using assms
proof (induction stale ts counter rb rule: turns.induct)
  case (2 stale others now ds ts counter rb)
  have c: "unat (counter + of_nat others) = unat counter + others" using 2(3) by (intro unat_plus_small) simp
  obtain c1 rb1 where e: "enqueue now ds (counter + of_nat others) rb = (c1, rb1)" by fastforce
  have "stalled rb (unat (counter + of_nat others))" by (rule stalled_mono [OF 2(2)]) (simp add: c)
  from enqueue_stalled [OF this _ e] have "stalled rb1 (unat c1) \<and> unat c1 = unat counter + others + length ds"
    unfolding c using 2(3) by auto
  then have s: "stalled rb1 (unat c1)" and n: "unat c1 = unat counter + others + length ds" by (rule conjunct1, rule conjunct2)
  have nr: "\<not> has_ready_packets rb1" using s by (simp add: stalled_def)
  have "unat c1 + sum_list (map (\<lambda>(others, now, ds). others + length ds) ts) < 2 ^ 64" unfolding n using 2(3) by simp
  with s have "turns stale ts c1 rb1 = []" using nr by (intro 2(1) [OF e [symmetric] refl, of _ "[]"]) simp_all
  then show ?case using nr by (simp add: e)
qed simp

theorem shared_counter_stalls_witness:
  "turns 0 [(0, 1000, [(demo_packet 1, False)]), (7, 2000, [(demo_packet 2, False), (demo_packet 3, True)])] 2
     (set_expected_sequence 2 (ReorderBuffer_new ReorderBufferConfig_default)) = []"
  by (rule shared_counter_stalls) (simp_all add: stalled_def set_expected_sequence_def ReorderBuffer_new_def has_ready_packets_def)


end
