(* ===== verification/Hevc_Props.thy ===== *)
theory Hevc_Props
  imports Format_Props
begin

text \<open>
  Properties of the HEVC parameter set parser: it cannot run out of bits, what an SPS says is what is stored, and which
  inputs end the server.
\<close>

section \<open>Steps that cannot run out of bits\<close>

text \<open>
  \<open>bs_safe n steps m\<close>: started with at least \<open>n\<close> bits, the steps end with an error outside of \<open>bad\<close> or with at least
  \<open>m\<close> bits left.
\<close>

definition safe_after :: "srs_error set \<Rightarrow> nat \<Rightarrow> (SrsBitBuffer \<times> 's) outcome \<Rightarrow> bool" where
  "safe_after bad m r \<longleftrightarrow> (case r of (Inl e, _) \<Rightarrow> e \<notin> bad
     | (Inr _, bs, _) \<Rightarrow> bit_inv bs \<and> m \<le> length (bits_of bs))"

definition bs_safe :: "srs_error set \<Rightarrow> nat \<Rightarrow> 's bs_step list \<Rightarrow> nat \<Rightarrow> bool" where
  "bs_safe bad n steps m \<longleftrightarrow>
     (\<forall>bs s. bit_inv bs \<longrightarrow> n \<le> length (bits_of bs) \<longrightarrow> safe_after bad m (bs_seq steps (bs, s)))"

lemma safe_after_simps [simp]:
  "safe_after bad m (Inl e, st) \<longleftrightarrow> e \<notin> bad"
  "safe_after bad m (Inr u, bs, s) \<longleftrightarrow> bit_inv bs \<and> m \<le> length (bits_of bs)"
  by (simp_all add: safe_after_def)

lemma bs_seq_append: "bs_seq (fs @ gs) st = and_then (bs_seq fs st) (bs_seq gs)"
proof (induction fs arbitrary: st)
  case (Cons f fs)
  then show ?case by (cases "f st"; cases "fst (f st)") auto
qed simp

lemma safe_and_then:
  assumes "safe_after bad k r" and "\<And>bs s. bit_inv bs \<Longrightarrow> k \<le> length (bits_of bs) \<Longrightarrow> safe_after bad m (g (bs, s))"
  shows "safe_after bad m (and_then r g)"
  using assms by (cases r; cases "fst r") auto

lemma bs_safe_append: "bs_safe bad n fs k \<Longrightarrow> bs_safe bad k gs m \<Longrightarrow> bs_safe bad n (fs @ gs) m"
  unfolding bs_safe_def bs_seq_append by (blast intro: safe_and_then)

lemma bs_safe_Cons:
  assumes "\<And>bs s. bit_inv bs \<Longrightarrow> n \<le> length (bits_of bs) \<Longrightarrow> safe_after bad k (f (bs, s))" and "bs_safe bad k fs m"
  shows "bs_safe bad n (f # fs) m"
  unfolding bs_safe_def
proof (intro allI impI)
  fix bs s assume "bit_inv bs" "n \<le> length (bits_of bs)"
  then have "safe_after bad k (f (bs, s))" by (rule assms(1))
  then show "safe_after bad m (bs_seq (f # fs) (bs, s))"
    using assms(2) by (simp add: bs_safe_def safe_and_then)
qed

lemma safe_after_weaken: "safe_after bad m r \<Longrightarrow> m' \<le> m \<Longrightarrow> safe_after bad m' r"
  by (cases r; cases "fst r") auto

lemma bs_safe_weaken: "bs_safe bad n fs m \<Longrightarrow> n \<le> n' \<Longrightarrow> m' \<le> m \<Longrightarrow> bs_safe bad n' fs m'"
  unfolding bs_safe_def by (meson order_trans safe_after_weaken)

lemma bs_safe_Nil: "m \<le> n \<Longrightarrow> bs_safe bad n [] m"
  by (simp add: bs_safe_def)

lemma bs_safe_concat:
  assumes "\<And>i. i \<in> set is \<Longrightarrow> bs_safe bad n (f i) n"
  shows "bs_safe bad n (concat (map f is)) n"
  using assms by (induction "is") (auto intro: bs_safe_append bs_safe_Nil)

text \<open>The reads: a read is safe when it takes no more bits than are there.\<close>

definition takes :: "nat \<Rightarrow> (SrsBitBuffer \<Rightarrow> ('a \<times> SrsBitBuffer) res) \<Rightarrow> bool" where
  "takes k rd \<longleftrightarrow> (\<forall>s. bit_inv s \<longrightarrow> k \<le> length (bits_of s) \<longrightarrow>
     (\<exists>x t. rd s = Inr (x, t) \<and> bit_inv t \<and> length (bits_of t) = length (bits_of s) - k))"

lemma takes_bit: "takes 1 read_bit"
  unfolding takes_def
proof (intro allI impI)
  fix s assume s: "bit_inv s" "1 \<le> length (bits_of s)"
  then obtain x xs where "bits_of s = x # xs" by (cases "bits_of s") auto
  with s(1) show "\<exists>x t. read_bit s = Inr (x, t) \<and> bit_inv t \<and> length (bits_of t) = length (bits_of s) - 1"
    by (metis read_bit_ok diff_Suc_1 length_Cons)
qed

lemma takes_bits:
  assumes "k \<le> 32"
  shows "takes k (read_bits (int k))"
  unfolding takes_def
proof (intro allI impI)
  fix s assume s: "bit_inv s" "k \<le> length (bits_of s)"
  have len: "length (take k (bits_of s)) = k" using s(2) by simp
  obtain t where "read_bits (int (length (take k (bits_of s)))) s = Inr (of_nat (bits_val (take k (bits_of s))), t)"
    "bit_inv t" "bits_of t = drop k (bits_of s)"
    using read_bits_ok [OF s(1), of "take k (bits_of s)" "drop k (bits_of s)"] assms unfolding len by auto
  then show "\<exists>x t. read_bits (int k) s = Inr (x, t) \<and> bit_inv t \<and> length (bits_of t) = length (bits_of s) - k"
    unfolding len by simp
qed

lemma takes_8bits: "takes 8 read_8bits"
  unfolding takes_def
proof (intro allI impI)
  fix s assume s: "bit_inv s" "8 \<le> length (bits_of s)"
  show "\<exists>x t. read_8bits s = Inr (x, t) \<and> bit_inv t \<and> length (bits_of t) = length (bits_of s) - 8"
  proof (cases "cb_left s")
    case 0
    have b: "buf_inv (stream s)" using s(1) by (simp add: bit_inv_def)
    obtain y ys where r: "remaining (stream s) = y # ys"
      using s(2) 0 by (cases "remaining (stream s)") (auto simp: bits_of_def)
    then have "\<not> buf_empty (stream s)" by (simp add: buf_empty_remaining [OF b])
    then show ?thesis
      using 0 r read_1bytes_ok [OF b r] by (simp add: read_8bits_def bits_of_def bit_inv_def)
  next
    case (Suc k)
    then show ?thesis
      using s takes_bits [of 8] by (auto simp: read_8bits_def takes_def)
  qed
qed

lemma takes_wide: "takes k hi \<Longrightarrow> takes (k + 32) (read_wide hi)"
  unfolding takes_def
proof (intro allI impI)
  fix s
  assume hi: "\<forall>s. bit_inv s \<longrightarrow> k \<le> length (bits_of s) \<longrightarrow>
      (\<exists>x t. hi s = Inr (x, t) \<and> bit_inv t \<and> length (bits_of t) = length (bits_of s) - k)"
    and s: "bit_inv s" "k + 32 \<le> length (bits_of s)"
  then obtain x t where t: "hi s = Inr (x, t)" "bit_inv t" "length (bits_of t) = length (bits_of s) - k"
    by (meson add_leD1)
  then obtain y u where "read_bits 32 t = Inr (y, u)" "bit_inv u" "length (bits_of u) = length (bits_of t) - 32"
    using takes_bits [of 32] s(2) by (auto simp: takes_def)
  with t show "\<exists>x t. read_wide hi s = Inr (x, t) \<and> bit_inv t \<and> length (bits_of t) = length (bits_of s) - (k + 32)"
    by (simp add: read_wide_def)
qed

text \<open>Exp-Golomb codes check for the end themselves.\<close>

definition checked :: "(SrsBitBuffer \<Rightarrow> ('a \<times> SrsBitBuffer) res) \<Rightarrow> bool" where
  "checked rd \<longleftrightarrow> (\<forall>s. bit_inv s \<longrightarrow> (case rd s of Inl e \<Rightarrow> e \<in> {ERROR_HEVC_NALU_UEV, ERROR_HEVC_NALU_SEV}
     | Inr (_, t) \<Rightarrow> bit_inv t))"

lemma read_bit_more: "bit_inv s \<Longrightarrow> \<not> bit_empty s \<Longrightarrow> \<exists>x t. read_bit s = Inr (x, t) \<and> bit_inv t"
  using takes_bit unfolding takes_def by (metis bit_empty_iff length_0_conv less_one not_le)

lemma ue_zeros_inv: "bit_inv s \<Longrightarrow> \<exists>z t. ue_zeros n x s = Inr (z, t) \<and> bit_inv t"
proof (induction n x s rule: ue_zeros.induct)
  case (1 n x s)
  show ?case
  proof (cases "x = 0 \<and> \<not> bit_empty s")
    case True
    then obtain y t where "read_bit s = Inr (y, t)" "bit_inv t" using read_bit_more "1.prems" by blast
    then show ?thesis using True "1.IH" by (subst ue_zeros.simps) auto
  next
    case False
    then show ?thesis using "1.prems" by (subst ue_zeros.simps) auto
  qed
qed

lemma ue_suffix_inv: "bit_inv s \<Longrightarrow> case ue_suffix k v s of Inl e \<Rightarrow> e = ERROR_HEVC_NALU_UEV | Inr (_, t) \<Rightarrow> bit_inv t"
proof (induction k arbitrary: v s)
  case (Suc k)
  then show ?case using read_bit_more [of s] by auto
qed simp

lemma checked_ue: "checked read_bits_ue"
  unfolding checked_def
proof (intro allI impI)
  fix s assume s: "bit_inv s"
  obtain z t where t: "ue_zeros (-1) 0 s = Inr (z, t)" "bit_inv t" using ue_zeros_inv [OF s] by blast
  show "case read_bits_ue s of Inl e \<Rightarrow> e \<in> {ERROR_HEVC_NALU_UEV, ERROR_HEVC_NALU_SEV} | Inr (_, t) \<Rightarrow> bit_inv t"
    using t(1) ue_suffix_inv [OF t(2), of "nat z" "push_bit (nat z) 1 - 1"]
    by (auto simp: read_bits_ue_def split: sum.splits)
qed

lemma checked_se: "checked read_bits_se"
  using checked_ue unfolding checked_def read_bits_se_def
  by (auto simp: res_bind_def split: sum.splits if_splits prod.splits)

lemma takes_read:
  assumes "takes k rd" and "k \<le> n" and "bs_safe bad (n - k) fs m"
  shows "bs_safe bad n (bs_read rd put # fs) m"
proof (rule bs_safe_Cons [OF _ assms(3)])
  fix bs s assume "bit_inv bs" "n \<le> length (bits_of bs)"
  then show "safe_after bad (n - k) (bs_read rd put (bs, s))"
    using assms(1,2) unfolding takes_def by (fastforce simp: bs_read_def)
qed

lemma checked_read:
  assumes "checked rd" and "bad \<inter> {ERROR_HEVC_NALU_UEV, ERROR_HEVC_NALU_SEV} = {}" and "bs_safe bad 0 fs m"
  shows "bs_safe bad n (bs_read rd put # fs) m"
proof (rule bs_safe_Cons [OF _ assms(3)])
  fix bs s assume "bit_inv bs"
  then show "safe_after bad 0 (bs_read rd put (bs, s))"
    using assms(1,2) unfolding checked_def bs_read_def by (cases "rd bs") auto
qed

lemma bs_safe_require:
  assumes "ERROR_HEVC_DECODE_ERROR \<notin> bad" and "bs_safe bad (max n k) fs m"
  shows "bs_safe bad n (bs_require (int k) # fs) m"
proof (rule bs_safe_Cons [OF _ assms(2)])
  fix bs s assume "bit_inv bs" "n \<le> length (bits_of bs)"
  then show "safe_after bad (max n k) (bs_require (int k) (bs, s))"
    using assms(1) by (auto simp: bs_require_def require_bits_def left_bits_length)
qed

lemma bs_safe_dyn:
  assumes "\<And>s. bs_safe bad n (f s) k" and "bs_safe bad k fs m"
  shows "bs_safe bad n (bs_dyn f # fs) m"
proof (rule bs_safe_Cons [OF _ assms(2)])
  fix bs s assume "bit_inv bs" "n \<le> length (bits_of bs)"
  then show "safe_after bad k (bs_dyn f (bs, s))"
    using assms(1) [of s] by (simp add: bs_dyn_def bs_safe_def)
qed

lemma bs_safe_set: "bs_safe bad n fs m \<Longrightarrow> bs_safe bad n (bs_set f # fs) m"
  by (auto simp: bs_set_def intro: bs_safe_Cons [where k = n])

lemma bs_safe_on:
  assumes "bs_safe bad n gs k" and "bs_safe bad k fs m"
  shows "bs_safe bad n (bs_on get upd gs # fs) m"
proof (rule bs_safe_Cons [OF _ assms(2)])
  fix bs s assume "bit_inv bs" "n \<le> length (bits_of bs)"
  then have "safe_after bad k (bs_seq gs (bs, get s))" using assms(1) by (simp add: bs_safe_def)
  then show "safe_after bad k (bs_on get upd gs (bs, s))"
    unfolding bs_on_def safe_after_def by (auto split: prod.splits sum.splits)
qed

lemma bs_safe_outside:
  assumes "takes k rd" and "k \<le> n" and "UNDEFINED_WRITE \<notin> bad" and "bs_safe bad (n - k) fs m"
  shows "bs_safe bad n (bs_outside rd # fs) m"
proof (rule bs_safe_Cons [OF _ assms(4)])
  fix bs s assume "bit_inv bs" "n \<le> length (bits_of bs)"
  then show "safe_after bad (n - k) (bs_outside rd (bs, s))"
    using assms(1-3) unfolding takes_def bs_outside_def
    by (metis fst_conv order_trans safe_after_simps(1) split_conv with_res_simps(2))
qed

lemma takes_bits_numeral: "(numeral k :: nat) \<le> 32 \<Longrightarrow> takes (numeral k) (read_bits (numeral k))"
  using takes_bits [of "numeral k"] by simp

lemma bs_safe_require_numeral:
  "ERROR_HEVC_DECODE_ERROR \<notin> bad \<Longrightarrow> bs_safe bad (max n (numeral k)) fs m \<Longrightarrow> bs_safe bad n (bs_require (numeral k) # fs) m"
  "ERROR_HEVC_DECODE_ERROR \<notin> bad \<Longrightarrow> bs_safe bad (max n 1) fs m \<Longrightarrow> bs_safe bad n (bs_require 1 # fs) m"
  using bs_safe_require [of bad n "numeral k" fs m] bs_safe_require [of bad n 1 fs m] by simp_all

lemmas bs_safe_read_rules =
  takes_read [OF takes_bit] takes_read [OF takes_8bits] takes_read [OF takes_bits_numeral]
  takes_read [OF takes_wide [OF takes_bit]] takes_read [OF takes_wide [OF takes_bits_numeral]]
  checked_read [OF checked_ue] checked_read [OF checked_se]
  bs_safe_outside [OF takes_bits_numeral] bs_safe_outside [OF takes_wide [OF takes_bit]]
  bs_safe_outside [OF takes_wide [OF takes_bits_numeral]]
  bs_safe_require_numeral bs_safe_set bs_safe_Nil

lemma bs_safe_bits: "bs_safe bad (n + length js) (map (\<lambda>j. bs_bit (f j)) js) n"
proof (induction js)
  case (Cons j js)
  then show ?case by (auto intro!: takes_read [OF takes_bit])
qed (simp add: bs_safe_Nil)

text \<open>The errors that end the process and that a parser must not return.\<close>

definition fatal_errors :: "srs_error set" where
  "fatal_errors = {ASSERT_FAILED, UNDEFINED_READ, DIVISION_BY_ZERO, OUT_OF_RANGE, DEADLOCK}"

lemma fatal_errors_simps [simp]:
  "ERROR_HEVC_DECODE_ERROR \<notin> fatal_errors" "UNDEFINED_WRITE \<notin> fatal_errors" "ERROR_HEVC_NALU_UEV \<notin> fatal_errors"
  "ERROR_HEVC_NALU_SEV \<notin> fatal_errors"
  by (simp_all add: fatal_errors_def)

lemma ptl_reserved_safe:
  assumes "bad = fatal_errors \<or> bad = insert UNDEFINED_WRITE fatal_errors \<and> general"
  shows "bs_safe bad 44 (ptl_reserved general get upd) 0"
proof -
  have bad: "ERROR_HEVC_DECODE_ERROR \<notin> bad" "general \<or> UNDEFINED_WRITE \<notin> bad" using assms by auto
  show ?thesis
    unfolding ptl_reserved_def
    by (rule bs_safe_dyn [where k = 1]; (rule bs_safe_dyn [where k = 0])?)
      (use bad in \<open>auto intro!: bs_safe_read_rules\<close>)
qed

lemma ptl_profile_safe:
  assumes "bad = fatal_errors \<or> bad = insert UNDEFINED_WRITE fatal_errors \<and> general"
  shows "bs_safe bad 0 (ptl_profile_steps general get upd) 0"
proof -
  have bad: "ERROR_HEVC_DECODE_ERROR \<notin> bad" using assms by auto
  have bits: "bs_safe bad 80 (map (\<lambda>j. bs_bit (upd \<circ> pf_profile_compatibility_flag_update \<circ> upd_at j)) [0..<32]) 48"
    using bs_safe_bits [of bad 48 "[0..<32]"] by simp
  show ?thesis
    unfolding ptl_profile_steps_def
    by (rule bs_safe_append [OF _ bs_safe_append [OF bits bs_safe_append [OF _ ptl_reserved_safe [OF assms]]]])
      (use bad in \<open>auto intro!: bs_safe_read_rules\<close>)
qed

lemma ptl_safe:
  assumes "bad = fatal_errors \<or> bad = insert UNDEFINED_WRITE fatal_errors \<and> n = 0"
  shows "bs_safe bad 0 (hevc_demux_rbsp_ptl True n) 0"
proof -
  have bad: "ERROR_HEVC_DECODE_ERROR \<notin> bad" and bad': "bad = fatal_errors \<or> bad = insert UNDEFINED_WRITE fatal_errors \<and> True"
    using assms by auto
  have flags: "bs_safe bad 0 (concat (map (\<lambda>i. [bs_require 2, bs_bit (f i), bs_bit (g i)]) is)) 0" for f g "is"
    by (rule bs_safe_concat, rule bs_safe_weaken [where m = 0]) (use bad in \<open>auto intro!: bs_safe_read_rules\<close>)
  have zeros: "bs_safe bad 0 (concat (map (\<lambda>i. [bs_require 2, bs_bits 2 (f i)]) is)) 0" for f "is"
    by (rule bs_safe_concat) (use bad in \<open>auto intro!: bs_safe_read_rules\<close>)
  have subs: "bs_safe bad 0 (ptl_sub_layers n) 0"
  proof (cases "n = 0")
    case False
    then have b: "bad = fatal_errors" using assms by simp
    show ?thesis
      unfolding ptl_sub_layers_def b
      by (intro bs_safe_concat bs_safe_dyn [where k = 0])
        (auto intro!: bs_safe_read_rules ptl_profile_safe)
  qed (simp add: ptl_sub_layers_def bs_safe_Nil)
  show ?thesis
    unfolding hevc_demux_rbsp_ptl_def if_True
    by (rule bs_safe_append [OF ptl_profile_safe [OF bad'] bs_safe_append [OF _ bs_safe_append [OF flags
          bs_safe_append [OF zeros bs_safe_append [OF _ subs]]]]])
      (use bad in \<open>auto intro!: bs_safe_read_rules\<close>)
qed

lemma vps_ordering_safe: "bad \<inter> {ERROR_HEVC_NALU_UEV, ERROR_HEVC_NALU_SEV} = {} \<Longrightarrow> bs_safe bad 0 (vps_ordering p) 0"
  unfolding vps_ordering_def Let_def by (intro bs_safe_concat) (auto intro!: bs_safe_read_rules)

lemma vps_steps_safe: "bs_safe fatal_errors 28 (vps_steps i) 0"
proof -
  have head: "bs_safe fatal_errors 28
      [bs_set (vps_video_parameter_set_id_update (\<lambda>_. of_nat i)),
       bs_bit vps_base_layer_internal_flag_update, bs_bit vps_base_layer_available_flag_update,
       bs_bits 6 vps_max_layers_minus1_update, bs_bits 3 vps_max_sub_layers_minus1_update,
       bs_bit vps_temporal_id_nesting_flag_update, bs_bits 16 vps_reserved_0xffff_16bits_update,
       bs_dyn (\<lambda>p. [bs_on vps_ptl vps_ptl_update (hevc_demux_rbsp_ptl True (unat (vps_max_sub_layers_minus1 p)))])] 0"
    by (auto intro!: bs_safe_read_rules bs_safe_dyn [where k = 0] bs_safe_on [where k = 0] ptl_safe)
  have tail: "bs_safe fatal_errors 0
      [bs_require 1, bs_bit vps_sub_layer_ordering_info_present_flag_update, bs_dyn vps_ordering,
       bs_require 6, bs_bits 6 vps_max_layer_id_update, bs_ue vps_num_layer_sets_minus1_update] 0"
    by (auto intro!: bs_safe_read_rules bs_safe_dyn [where k = 0] vps_ordering_safe)
  show ?thesis
    unfolding vps_steps_def by (intro bs_safe_on [where k = 0] head bs_safe_set tail bs_safe_Nil) simp
qed

lemma sps_steps_safe:
  assumes "bad \<subseteq> insert UNDEFINED_WRITE fatal_errors"
  shows "bs_safe bad 0 (sps_steps i) 0"
proof -
  have bad: "ERROR_HEVC_DECODE_ERROR \<notin> bad" "bad \<inter> {ERROR_HEVC_NALU_UEV, ERROR_HEVC_NALU_SEV} = {}"
    using assms by (auto simp: fatal_errors_def)
  show ?thesis
    unfolding sps_steps_def Let_def
    by (intro bs_safe_on [where k = 0] bs_safe_dyn [where k = 0] bs_safe_set bs_safe_Nil)
      (use bad in \<open>auto intro!: bs_safe_read_rules bs_safe_dyn [where k = 0] bs_safe_on [where k = 0]\<close>)
qed

lemma run_steps_safe:
  assumes "bs_safe bad n steps 0" "bit_inv bs" "n \<le> length (bits_of bs)" "e \<in> bad"
  shows "fst (run_steps steps bs s) \<noteq> Inl e"
proof -
  have "safe_after bad 0 (bs_seq steps (bs, s))" using assms(1-3) by (simp add: bs_safe_def)
  then show ?thesis using assms(4) by (auto simp: run_steps_def safe_after_def split: prod.splits sum.splits)
qed

lemma vps_rbsp_safe:
  assumes "e \<in> fatal_errors"
  shows "fst (hevc_demux_vps_rbsp rbsp v) \<noteq> Inl e"
proof (cases "require 4 (SrsBuffer_new rbsp)")
  case False
  then show ?thesis using assms by (auto simp: hevc_demux_vps_rbsp_def fatal_errors_def)
next
  case True
  let ?s = "SrsBitBuffer_new (SrsBuffer_new rbsp)"
  have s: "bit_inv ?s" by simp
  have n: "32 \<le> length (bits_of ?s)"
    using True by (simp add: bits_of_new length_concat_byte_bits require_remaining)
  obtain x t where t: "read_bits 4 ?s = Inr (x, t)" "bit_inv t" "length (bits_of t) = length (bits_of ?s) - 4"
    using takes_bits [of 4] s n unfolding takes_def by fastforce
  then show ?thesis
    using True n assms run_steps_safe [OF vps_steps_safe t(2) _ assms]
    by (auto simp: hevc_demux_vps_rbsp_def fatal_errors_def)
qed

lemma sps_rbsp_demux:
  assumes "xs \<noteq> []"
    and "bs_seq (hevc_demux_rbsp_ptl True (unat (drop_bit 1 x AND 0x07)))
      (SrsBitBuffer_new ((SrsBuffer_new (x # xs))\<lparr>buf_p := buf_p (SrsBuffer_new (x # xs)) + 1\<rparr>), SrsHevcProfileTierLevel_new) = (q, bs, t)"
  shows "hevc_demux_sps_rbsp True (x # xs) v =
      (case q of Inl e \<Rightarrow> (Inl e, v)
       | Inr _ \<Rightarrow>
         (let w = v\<lparr>hevc_profile := pf_profile_idc (ptl_general t), hevc_level := ptl_general_level_idc t\<rparr> in
          with_res (read_bits_ue bs) w (\<lambda>(i, bs1).
            if i \<ge> 16 then (Inl ERROR_HEVC_DECODE_ERROR, w)
            else run_steps (sps_steps (unat i)) bs1 (the_sps_update (unat i) (\<lambda>s.
              s\<lparr>sps_video_parameter_set_id := drop_bit 4 x AND 0x0f, sps_max_sub_layers_minus1 := drop_bit 1 x AND 0x07,
                sps_temporal_id_nesting_flag := x AND 0x01, sps_seq_parameter_set_id := i, sps_ptl := t\<rparr>) w))))"
proof -
  have "require 2 (SrsBuffer_new (x # xs))" using assms(1) by (cases xs) (simp_all add: require_remaining)
  then show ?thesis
    using assms(2) read_1bytes_ok(1) [OF buf_inv_new remaining_new, of x xs]
    by (simp add: hevc_demux_sps_rbsp_def Let_def del: One_nat_def split: sum.split)
qed

lemma sps_rbsp_safe:
  assumes "e \<in> fatal_errors \<or> e = UNDEFINED_WRITE \<and> drop_bit 1 (hd rbsp) AND 0x07 = 0"
  shows "fst (hevc_demux_sps_rbsp p rbsp v) \<noteq> Inl e"
proof (cases "p \<and> require 2 (SrsBuffer_new rbsp)")
  case False
  then show ?thesis using assms by (auto simp: hevc_demux_sps_rbsp_def fatal_errors_def)
next
  case True
  then obtain x xs where r: "rbsp = x # xs" by (cases rbsp) (auto simp: require_remaining)
  let ?b = "SrsBuffer_new rbsp" and ?n = "unat (drop_bit 1 x AND 0x07)"
  note 1 = read_1bytes_ok [of ?b x xs, simplified, OF r]
  define bad where "bad = (if ?n = 0 then insert UNDEFINED_WRITE fatal_errors else fatal_errors)"
  define s where "s = SrsBitBuffer_new (?b\<lparr>buf_p := buf_p ?b + 1\<rparr>)"
  have s: "bit_inv s" using 1 by (simp add: s_def r)
  have e: "e \<in> bad" using assms r by (auto simp: bad_def)
  have ptl: "safe_after bad 0 (bs_seq (hevc_demux_rbsp_ptl True ?n) (s, SrsHevcProfileTierLevel_new))"
    using ptl_safe [of bad ?n] s by (auto simp: bad_def bs_safe_def)
  obtain q bs t where q: "bs_seq (hevc_demux_rbsp_ptl True ?n) (s, SrsHevcProfileTierLevel_new) = (q, bs, t)"
    by (metis surj_pair)
  have "xs \<noteq> []" using True r by (auto simp: require_remaining)
  note demux = sps_rbsp_demux [OF this q [unfolded s_def r], of v]
  show ?thesis
  proof (cases q)
    case (Inl e')
    then show ?thesis using demux ptl q e r True by (auto simp: safe_after_def)
  next
    case (Inr u)
    then have bs: "bit_inv bs" using ptl q by (simp add: safe_after_def)
    have ue: "case read_bits_ue bs of Inl e \<Rightarrow> e \<in> {ERROR_HEVC_NALU_UEV, ERROR_HEVC_NALU_SEV} | Inr (_, t) \<Rightarrow> bit_inv t"
      using checked_ue bs unfolding checked_def by blast
    show ?thesis
    proof (cases "read_bits_ue bs")
      case (Inl e')
      then have "e' \<notin> bad" using ue by (auto simp: bad_def fatal_errors_def)
      then show ?thesis using demux Inr Inl e r True by (auto simp: Let_def)
    next
      case (Inr y)
      then have "bit_inv (snd y)" using ue by (cases y) simp
      then have "fst (run_steps (sps_steps i) (snd y) w) \<noteq> Inl e" for i w
        by (intro run_steps_safe [OF sps_steps_safe _ _ e]) (auto simp: bad_def)
      moreover have "e \<noteq> ERROR_HEVC_DECODE_ERROR" using e by (auto simp: bad_def fatal_errors_def split: if_splits)
      ultimately show ?thesis using demux \<open>q = Inr u\<close> Inr r True by (cases y) (simp add: Let_def)
    qed
  qed
qed

section \<open>Units\<close>

lemma rbsp_loop_total: "buf_inv b \<Longrightarrow> \<exists>ys. rbsp_loop b acc = Inr (acc @ ys)"
proof (induction b acc rule: rbsp_loop.induct)
  case (1 b acc)
  show ?case
  proof (cases "remaining b")
    case Nil
    then show ?thesis using "1.prems" by (simp add: rbsp_loop.simps [of b] buf_empty_remaining)
  next
    case (Cons x xs)
    note x = read_1_Cons [OF "1.prems" Cons]
    have ne: "\<not> buf_empty b" using Cons "1.prems" by (simp add: buf_empty_remaining)
    show ?thesis
    proof (cases xs)
      case Nil
      then have "rbsp_loop (advance 1 b) (acc @ [x]) = Inr (acc @ [x])"
        using x by (simp add: rbsp_loop.simps [of "advance 1 b"] buf_empty_remaining del: One_nat_def)
      then show ?thesis using x ne Nil by (subst rbsp_loop.simps) (simp add: buf_empty_remaining)
    next
      case (Cons y ys)
      note y = read_1_Cons [OF x(2) x(3) [unfolded Cons]]
      show ?thesis
      proof (cases "length acc \<ge> 2 \<and> acc ! (length acc - 2) = 0 \<and> acc ! (length acc - 1) = 0 \<and> x = 3")
        case True
        have "\<not> buf_empty (advance 1 b)" using x(2,3) Cons by (simp add: buf_empty_remaining)
        note IH = "1.IH"(1,2) [OF ne x(1) refl True this y(1) refl]
        show ?thesis
          using IH y(2) True x(1) ne \<open>\<not> buf_empty (advance 1 b)\<close> y(1)
          by (cases "y > 3") (fastforce simp: rbsp_loop.simps [of b] simp del: advance_simps)+
      next
        case False
        then show ?thesis
          using "1.IH"(3) [OF ne x(1) refl False x(2)] x(1) ne by (auto simp: rbsp_loop.simps [of b])
      qed
    qed
  qed
qed

text \<open>What \<open>hevc_nal_rbsp\<close> makes of a unit of at least two bytes: an error, or the payload that starts with the third.\<close>

lemma hevc_nal_rbsp_cases:
  assumes "2 \<le> length nal"
  obtains "hevc_nal_rbsp t (SrsBuffer_new nal) = Inl ERROR_HEVC_DECODE_ERROR"
  | "hevc_nal_rbsp t (SrsBuffer_new nal) = Inr []"
  | rbsp where "hevc_nal_rbsp t (SrsBuffer_new nal) = Inr (nal ! 2 # rbsp)"
proof -
  obtain x y r where n: "nal = x # y # r" using assms by (cases nal; cases "tl nal") auto
  let ?b = "SrsBuffer_new nal"
  note x = read_1_Cons [OF buf_inv_new remaining_new [of nal, unfolded n], folded n]
  have y: "skip 1 (advance 1 ?b) = Inr (advance 2 ?b)" "buf_inv (advance 2 ?b)" "remaining (advance 2 ?b) = r"
    using advance_ok [OF x(2), of 1] x(3) by (simp_all del: One_nat_def add: drop_Cons')
  have "rbsp_loop (advance 2 ?b) [] = Inr [] \<or> (\<exists>ys. rbsp_loop (advance 2 ?b) [] = Inr (nal ! 2 # ys))"
  proof (cases r)
    case Nil
    then show ?thesis using y by (simp add: rbsp_loop.simps [of "advance 2 ?b"] buf_empty_remaining)
  next
    case (Cons z zs)
    note z = read_1_Cons [OF y(2) y(3) [unfolded Cons]]
    obtain ys where "rbsp_loop (advance 1 (advance 2 ?b)) [z] = Inr ([z] @ ys)" using rbsp_loop_total [OF z(2)] by blast
    then show ?thesis
      using z(1) y(2,3) n Cons by (subst (2) rbsp_loop.simps) (auto simp: buf_empty_remaining simp del: advance_simps)
  qed
  moreover have "hevc_nal_rbsp t ?b = (if drop_bit 7 x AND 1 \<noteq> 0 \<or> drop_bit 1 x AND 63 \<noteq> t
      then Inl ERROR_HEVC_DECODE_ERROR else rbsp_loop (advance 2 ?b) [])"
    using x(1) y(1) assms
    by (simp add: hevc_nal_rbsp_def require_remaining srs_rbsp_remove_emulation_bytes_def del: advance_simps One_nat_def)
  ultimately show thesis using that by (cases "drop_bit 7 x AND 1 \<noteq> 0 \<or> drop_bit 1 x AND 63 \<noteq> t") auto
qed

text \<open>
  C31. The parser of VPS and SPS never fails an assertion and never reads outside of the unit, for every unit of at
  least two bytes and every state of the codec configuration; it can write outside of a vector only when the SPS has
  sub-layers.
\<close>

theorem hevc_vps_sps_never_abort:
  assumes "2 \<le> length nal" and "e \<in> fatal_errors"
  shows "fst (hevc_demux_vps (SrsBuffer_new nal) v) \<noteq> Inl e \<and> fst (hevc_demux_sps p (SrsBuffer_new nal) v) \<noteq> Inl e \<and>
    (drop_bit 1 (nal ! 2) AND 0x07 = 0 \<longrightarrow> fst (hevc_demux_sps p (SrsBuffer_new nal) v) \<noteq> Inl UNDEFINED_WRITE)"
proof -
  have e: "e \<noteq> ERROR_HEVC_DECODE_ERROR" using assms(2) by (auto simp: fatal_errors_def)
  have sps: "fst (hevc_demux_sps_rbsp p [] v) = Inl ERROR_HEVC_DECODE_ERROR \<or> fst (hevc_demux_sps_rbsp p [] v) = srs_success"
    by (simp add: hevc_demux_sps_rbsp_def require_remaining)
  have "fst (hevc_demux_vps (SrsBuffer_new nal) v) \<noteq> Inl e"
    by (rule hevc_nal_rbsp_cases [OF assms(1), of 32])
      (use e vps_rbsp_safe [OF assms(2), of _ v] in \<open>simp_all add: hevc_demux_vps_def\<close>)
  moreover have "fst (hevc_demux_sps p (SrsBuffer_new nal) v) \<noteq> Inl e'"
    if "e' \<in> fatal_errors \<or> e' = UNDEFINED_WRITE \<and> drop_bit 1 (nal ! 2) AND 0x07 = 0" for e'
  proof (rule hevc_nal_rbsp_cases [OF assms(1), of 33])
    assume "hevc_nal_rbsp 33 (SrsBuffer_new nal) = Inr []"
    then show ?thesis using sps that by (auto simp: hevc_demux_sps_def fatal_errors_def)
  next
    fix r assume "hevc_nal_rbsp 33 (SrsBuffer_new nal) = Inr (nal ! 2 # r)"
    then show ?thesis using sps_rbsp_safe [of e' "nal ! 2 # r" p v] that by (simp add: hevc_demux_sps_def)
  qed (use that in \<open>auto simp: hevc_demux_sps_def fatal_errors_def\<close>)
  ultimately show ?thesis using assms(2) by blast
qed

theorem hevc_vps_sps_never_abort_witness:
  "fst (hevc_demux_sps True (SrsBuffer_new [0x42, 1, 1, 2]) zero_memory) \<noteq> Inl ASSERT_FAILED"
  using hevc_vps_sps_never_abort [of "[0x42, 1, 1, 2]" ASSERT_FAILED zero_memory True] by (simp add: fatal_errors_def)

section \<open>Steps on given bits\<close>

text \<open>\<open>reads steps bits s s'\<close>: on these bits, followed by any others, the steps succeed and take the structure to \<open>s'\<close>.\<close>

definition reads :: "'s bs_step list \<Rightarrow> bool list \<Rightarrow> 's \<Rightarrow> 's \<Rightarrow> bool" where
  "reads steps bits s s' \<longleftrightarrow>
     (\<forall>bs rest. bit_inv bs \<longrightarrow> bits_of bs = bits @ rest \<longrightarrow>
        (\<exists>bs'. bs_seq steps (bs, s) = (srs_success, bs', s') \<and> bit_inv bs' \<and> bits_of bs' = rest))"

lemma readsE:
  assumes "reads steps bits s s'" "bit_inv bs" "bits_of bs = bits @ rest"
  obtains bs' where "bs_seq steps (bs, s) = (srs_success, bs', s')" "bit_inv bs'" "bits_of bs' = rest"
  using assms unfolding reads_def by blast

lemma reads_Nil: "reads [] [] s s"
  by (simp add: reads_def)

lemma reads_append:
  assumes "reads fs p s t" "reads gs q t u"
  shows "reads (fs @ gs) (p @ q) s u"
  unfolding reads_def
proof (intro allI impI)
  fix bs rest assume b: "bit_inv bs" "bits_of bs = (p @ q) @ rest"
  then obtain bs1 where 1: "bs_seq fs (bs, s) = (srs_success, bs1, t)" "bit_inv bs1" "bits_of bs1 = q @ rest"
    using readsE [OF assms(1)] by (metis append_assoc)
  obtain bs2 where "bs_seq gs (bs1, t) = (srs_success, bs2, u)" "bit_inv bs2" "bits_of bs2 = rest"
    using readsE [OF assms(2) 1(2,3)] .
  then show "\<exists>bs'. bs_seq (fs @ gs) (bs, s) = (srs_success, bs', u) \<and> bit_inv bs' \<and> bits_of bs' = rest"
    using 1(1) by (simp add: bs_seq_append)
qed

lemma reads_Cons: "reads [f] p s t \<Longrightarrow> reads fs q t u \<Longrightarrow> reads (f # fs) (p @ q) s u"
  using reads_append [of "[f]" p s t fs q u] by simp

text \<open>A read that takes the bits \<open>bits\<close> and returns \<open>x\<close>.\<close>

definition returns :: "(SrsBitBuffer \<Rightarrow> ('a \<times> SrsBitBuffer) res) \<Rightarrow> bool list \<Rightarrow> 'a \<Rightarrow> bool" where
  "returns rd bits x \<longleftrightarrow>
     (\<forall>s rest. bit_inv s \<longrightarrow> bits_of s = bits @ rest \<longrightarrow> (\<exists>t. rd s = Inr (x, t) \<and> bit_inv t \<and> bits_of t = rest))"

lemma returns_bit: "returns read_bit [x] (of_bool x)"
  unfolding returns_def by (metis append_Cons append_Nil read_bit_ok)

lemma returns_bits: "length P \<le> 32 \<Longrightarrow> k = int (length P) \<Longrightarrow> returns (read_bits k) P (of_nat (bits_val P))"
  unfolding returns_def by (metis read_bits_ok)

lemma returns_ue: "n < 2 ^ 31 - 1 \<Longrightarrow> returns read_bits_ue (ue_encode n) (of_nat n)"
  unfolding returns_def by (metis read_bits_ue_encode)

lemma bits_val_take: "bits_val (map (bit x) (rev [0..<n])) = take_bit n (unat x)" for x :: "'a::len word"
proof (induction n)
  case (Suc n)
  then show ?case by (simp add: take_bit_Suc_from_most bit_unsigned_iff)
qed simp

lemma bits_val_byte: "bits_val (byte_bits x) = unat x"
proof -
  have "(unsigned x :: nat) < 2 ^ LENGTH(8)" by (rule unsigned_less)
  then show ?thesis unfolding byte_bits_def bits_val_take by (simp add: take_bit_nat_eq_self)
qed

lemma returns_8bits:
  assumes "length P = 8"
  shows "returns read_8bits P (of_nat (bits_val P))"
  unfolding returns_def
proof (intro allI impI)
  fix s rest assume s: "bit_inv s" "bits_of s = P @ rest"
  show "\<exists>t. read_8bits s = Inr (of_nat (bits_val P), t) \<and> bit_inv t \<and> bits_of t = rest"
  proof (cases "cb_left s")
    case 0
    have b: "buf_inv (stream s)" using s(1) by (simp add: bit_inv_def)
    obtain y ys where r: "remaining (stream s) = y # ys"
      using s(2) 0 assms by (cases "remaining (stream s)") (auto simp: bits_of_def)
    then have e: "\<not> buf_empty (stream s)" by (simp add: buf_empty_remaining [OF b])
    have "P @ rest = byte_bits y @ concat (map byte_bits ys)" using s(2) 0 r by (simp add: bits_of_def)
    then have P: "P = byte_bits y" "rest = concat (map byte_bits ys)" using assms by (simp_all add: append_eq_append_conv)
    then show ?thesis
      using 0 e read_1bytes_ok [OF b r] by (simp add: read_8bits_def bits_of_def bit_inv_def bits_val_byte)
  next
    case (Suc k)
    obtain t where "read_bits 8 s = Inr (of_nat (bits_val P), t)" "bit_inv t" "bits_of t = rest"
      using returns_bits [of P 8] assms s unfolding returns_def by auto
    then show ?thesis using Suc by (simp add: read_8bits_def unsigned_of_nat take_bit_nat_eq_self bits_val_less
          word_of_nat_eq_iff)
  qed
qed

lemma returns_wide:
  assumes "returns hi P x" "length Q = 32"
  shows "\<exists>y. returns (read_wide hi) (P @ Q) y"
proof (intro exI)
  show "returns (read_wide hi) (P @ Q) (push_bit 32 (ucast x) OR ucast (of_nat (bits_val Q) :: u32))"
    unfolding returns_def
  proof (intro allI impI)
    fix s rest assume s: "bit_inv s" "bits_of s = (P @ Q) @ rest"
    then obtain t where t: "hi s = Inr (x, t)" "bit_inv t" "bits_of t = Q @ rest"
      using assms(1) unfolding returns_def by (metis append_assoc)
    then obtain u where "read_bits 32 t = Inr (of_nat (bits_val Q), u)" "bit_inv u" "bits_of u = rest"
      using returns_bits [of Q 32] assms(2) unfolding returns_def by auto
    with t show "\<exists>u. read_wide hi s = Inr (push_bit 32 (ucast x) OR ucast (of_nat (bits_val Q) :: u32), u) \<and>
        bit_inv u \<and> bits_of u = rest"
      by (simp add: read_wide_def)
  qed
qed

lemma reads_read:
  assumes "returns rd bits x" "reads fs rest (put (\<lambda>_. ucast x) s) t"
  shows "reads (bs_read rd put # fs) (bits @ rest) s t"
proof (rule reads_Cons [OF _ assms(2)])
  show "reads [bs_read rd put] bits s (put (\<lambda>_. ucast x) s)"
    using assms(1) unfolding reads_def returns_def by (fastforce simp: bs_read_def)
qed

lemma reads_bit: "reads fs rest (put (\<lambda>_. ucast (of_bool x :: u8)) s) t \<Longrightarrow> reads (bs_bit put # fs) (x # rest) s t"
  using reads_read [OF returns_bit] by (metis append_Cons append_Nil)

lemma reads_bits:
  assumes "length P \<le> 32" "k = int (length P)" "reads fs rest (put (\<lambda>_. ucast (of_nat (bits_val P) :: u32)) s) t"
  shows "reads (bs_bits k put # fs) (P @ rest) s t"
  by (rule reads_read [where put = put, OF returns_bits [OF assms(1,2)] assms(3)])

lemma reads_ue:
  assumes "n < 2 ^ 31 - 1" "reads fs rest (put (\<lambda>_. ucast (of_nat n :: u32)) s) t"
  shows "reads (bs_ue put # fs) (ue_encode n @ rest) s t"
  by (rule reads_read [where put = put, OF returns_ue [OF assms(1)] assms(2)])

lemma reads_require:
  assumes "reads fs bits s t" "k \<le> int (length bits)" "0 \<le> k"
  shows "reads (bs_require k # fs) bits s t"
  unfolding reads_def
proof (intro allI impI)
  fix bs rest assume b: "bit_inv bs" "bits_of bs = bits @ rest"
  then have "require_bits k bs" using assms(2,3) by (simp add: require_bits_def left_bits_length)
  then show "\<exists>bs'. bs_seq (bs_require k # fs) (bs, s) = (srs_success, bs', t) \<and> bit_inv bs' \<and> bits_of bs' = rest"
    using assms(1) b by (simp add: bs_require_def reads_def)
qed

lemma reads_dyn: "reads (f s) p s t \<Longrightarrow> reads fs q t u \<Longrightarrow> reads (bs_dyn f # fs) (p @ q) s u"
  by (rule reads_Cons) (fastforce simp: reads_def bs_dyn_def)+

lemma reads_set: "reads fs bits (f s) t \<Longrightarrow> reads (bs_set f # fs) bits s t"
  by (auto simp: reads_def bs_set_def)

lemma reads_on:
  assumes "reads gs p (get s) t" "reads fs q (upd (\<lambda>_. t) s) u"
  shows "reads (bs_on get upd gs # fs) (p @ q) s u"
proof (rule reads_Cons [OF _ assms(2)])
  show "reads [bs_on get upd gs] p s (upd (\<lambda>_. t) s)"
    using assms(1) unfolding reads_def by (fastforce simp: bs_on_def)
qed

text \<open>\<open>bs_exact k steps f\<close>: the steps take any \<open>k\<close> bits and leave \<open>f\<close> as it is.\<close>

definition bs_exact :: "nat \<Rightarrow> 's bs_step list \<Rightarrow> ('s \<Rightarrow> 'b) \<Rightarrow> bool" where
  "bs_exact k steps f \<longleftrightarrow> (\<forall>P s. length P = k \<longrightarrow> (\<exists>s'. reads steps P s s' \<and> f s' = f s))"

definition exactly :: "nat \<Rightarrow> (SrsBitBuffer \<Rightarrow> ('a \<times> SrsBitBuffer) res) \<Rightarrow> bool" where
  "exactly k rd \<longleftrightarrow> (\<forall>P. length P = k \<longrightarrow> (\<exists>x. returns rd P x))"

lemma exactly_bit: "exactly 1 read_bit"
  unfolding exactly_def using returns_bit by (metis One_nat_def length_0_conv length_Suc_conv)

lemma exactly_bits: "numeral k \<le> (32 :: nat) \<Longrightarrow> exactly (numeral k) (read_bits (numeral k))"
  unfolding exactly_def using returns_bits by (metis of_nat_numeral)

lemma exactly_8bits: "exactly 8 read_8bits"
  unfolding exactly_def using returns_8bits by blast

lemma exactly_wide:
  assumes "exactly k hi"
  shows "exactly (k + 32) (read_wide hi)"
  unfolding exactly_def
proof (intro allI impI)
  fix P :: "bool list" assume P: "length P = k + 32"
  then obtain x where "returns hi (take k P) x" using assms unfolding exactly_def by (metis length_take min_absorb2 le_add1)
  then show "\<exists>y. returns (read_wide hi) P y" using returns_wide [of hi "take k P" x "drop k P"] P by simp
qed

lemma bs_exact_Nil: "bs_exact 0 [] f"
  by (auto simp: bs_exact_def intro: reads_Nil)

lemma bs_exact_append:
  assumes "bs_exact j fs f" "bs_exact k gs f"
  shows "bs_exact (j + k) (fs @ gs) f"
  unfolding bs_exact_def
proof (intro allI impI)
  fix P :: "bool list" and s assume P: "length P = j + k"
  then obtain t where t: "reads fs (take j P) s t" "f t = f s"
    using assms(1) unfolding bs_exact_def by (metis length_take min_absorb2 le_add1)
  have "length (drop j P) = k" using P by simp
  then obtain u where "reads gs (drop j P) t u" "f u = f t" using assms(2) unfolding bs_exact_def by blast
  then show "\<exists>u. reads (fs @ gs) P s u \<and> f u = f s"
    using t reads_append [OF t(1), of gs "drop j P" u] by auto
qed

lemma bs_exact_Cons: "bs_exact j [g] f \<Longrightarrow> bs_exact k fs f \<Longrightarrow> n = j + k \<Longrightarrow> bs_exact n (g # fs) f"
  using bs_exact_append [of j "[g]" f k fs] by simp

lemma bs_exact_read:
  assumes "exactly j rd" "\<And>g s. f (put g s) = f s" "j \<le> n" "bs_exact (n - j) fs f"
  shows "bs_exact n (bs_read rd put # fs) f"
proof (rule bs_exact_Cons [OF _ assms(4)])
  show "bs_exact j [bs_read rd put] f"
    unfolding bs_exact_def
  proof (intro allI impI)
    fix P :: "bool list" and s assume "length P = j"
    then obtain x where "returns rd P x" using assms(1) unfolding exactly_def by blast
    from reads_read [OF this reads_Nil, of put s] assms(2)
    show "\<exists>s'. reads [bs_read rd put] P s s' \<and> f s' = f s" by auto
  qed
qed (use assms(3) in simp)

lemma bs_exact_dyn:
  assumes "\<And>s. bs_exact j (g s) f" "j \<le> n" "bs_exact (n - j) fs f"
  shows "bs_exact n (bs_dyn g # fs) f"
proof (rule bs_exact_Cons [OF _ assms(3)])
  show "bs_exact j [bs_dyn g] f"
    unfolding bs_exact_def
  proof (intro allI impI)
    fix P :: "bool list" and s assume "length P = j"
    then obtain t where t: "reads (g s) P s t" "f t = f s" using assms(1) [of s] unfolding bs_exact_def by blast
    have "reads [bs_dyn g] P s t" using reads_dyn [of g s P t "[]" "[]" t] t(1) reads_Nil [of t] by simp
    with t(2) show "\<exists>s'. reads [bs_dyn g] P s s' \<and> f s' = f s" by blast
  qed
qed (use assms(2) in simp)

lemma bs_exact_set: "(\<And>s. f (h s) = f s) \<Longrightarrow> bs_exact n fs f \<Longrightarrow> bs_exact n (bs_set h # fs) f"
  unfolding bs_exact_def by (metis reads_set)

lemma bs_exact_map_bit:
  assumes "\<And>j g s. f (put j g s) = f s"
  shows "bs_exact (length js) (map (\<lambda>j. bs_bit (put j)) js) f"
  using assms by (induction js) (auto intro!: bs_exact_Nil bs_exact_read [OF exactly_bit])

lemmas bs_exact_rules =
  bs_exact_read [OF exactly_bit] bs_exact_read [OF exactly_bits] bs_exact_read [OF exactly_8bits]
  bs_exact_read [OF exactly_wide [OF exactly_bit]] bs_exact_read [OF exactly_wide [OF exactly_bits]]
  bs_exact_set bs_exact_Nil

abbreviation general_idc :: "SrsHevcProfileTierLevel \<Rightarrow> u8" where
  "general_idc t \<equiv> pf_profile_idc (ptl_general t)"

lemma ptl_reserved_exact: "bs_exact 44 (ptl_reserved True ptl_general ptl_general_update) general_idc"
  unfolding ptl_reserved_def
  by (rule bs_exact_dyn [where j = 43]; (rule bs_exact_dyn [where j = 1])?) (auto intro!: bs_exact_rules)

lemma ptl_profile_reads:
  assumes "length A = 2" "length B = 5" "length C = 80"
  shows "\<exists>t. reads (ptl_profile_steps True ptl_general ptl_general_update) (A @ x # B @ C) s t \<and>
    general_idc t = of_nat (bits_val B)"
proof -
  let ?u = "\<lambda>j. ptl_general_update \<circ> pf_profile_compatibility_flag_update \<circ> upd_at j"
  let ?flags = "[bs_bit (ptl_general_update \<circ> pf_progressive_source_flag_update),
      bs_bit (ptl_general_update \<circ> pf_interlaced_source_flag_update),
      bs_bit (ptl_general_update \<circ> pf_non_packed_constraint_flag_update),
      bs_bit (ptl_general_update \<circ> pf_frame_only_constraint_flag_update)]"
  have map: "bs_exact 32 (map (\<lambda>j. bs_bit (?u j)) [0..<32]) general_idc"
    using bs_exact_map_bit [of general_idc ?u "[0..<32]"] by simp
  have flags: "bs_exact 4 ?flags general_idc" by (auto intro!: bs_exact_rules)
  have "bs_exact 80 (map (\<lambda>j. bs_bit (?u j)) [0..<32] @ ?flags @ ptl_reserved True ptl_general ptl_general_update) general_idc"
    using bs_exact_append [OF map bs_exact_append [OF flags ptl_reserved_exact]] by simp
  then obtain t where t: "reads (map (\<lambda>j. bs_bit (?u j)) [0..<32] @ ?flags @ ptl_reserved True ptl_general ptl_general_update) C
      ((ptl_general_update \<circ> pf_profile_idc_update) (\<lambda>_. ucast (of_nat (bits_val B) :: u32))
        ((ptl_general_update \<circ> pf_tier_flag_update) (\<lambda>_. ucast (of_bool x :: u8))
          ((ptl_general_update \<circ> pf_profile_space_update) (\<lambda>_. ucast (of_nat (bits_val A) :: u32)) s))) t"
    "general_idc t = ucast (of_nat (bits_val B) :: u32)"
    using assms(3) unfolding bs_exact_def by fastforce
  have "reads (ptl_profile_steps True ptl_general ptl_general_update) (A @ x # B @ C) s t"
    unfolding ptl_profile_steps_def append.simps
    by (rule reads_require, rule reads_bits, simp_all only: assms, simp_all, rule reads_bit, rule reads_bits)
      (use assms t(1) in simp_all)
  moreover have "bits_val B < 2 ^ 32" using bits_val_less [of B] assms(2) by simp
  ultimately show ?thesis using t(2) by (auto simp: unsigned_of_nat take_bit_nat_eq_self)
qed

lemma ptl_reads:
  assumes "length A = 2" "length B = 5" "length C = 80" "length L = 8"
  shows "\<exists>t. reads (hevc_demux_rbsp_ptl True 0) (A @ x # B @ C @ L) s t \<and>
    general_idc t = of_nat (bits_val B) \<and> ptl_general_level_idc t = of_nat (bits_val L)"
proof -
  obtain t where t: "reads (ptl_profile_steps True ptl_general ptl_general_update) (A @ x # B @ C) s t"
    "general_idc t = of_nat (bits_val B)"
    using ptl_profile_reads [OF assms(1-3)] by blast
  let ?u = "(ptl_sub_layer_update (resize 0 ptl_profile_new) \<circ> sub_layer_level_idc_update (resize 0 0))
      ((sub_layer_profile_present_flag_update (resize 0 0) \<circ> sub_layer_level_present_flag_update (resize 0 0))
        (ptl_general_level_idc_update (\<lambda>_. ucast (of_nat (bits_val L) :: u8)) t))"
  have "reads ([bs_require 8, bs_8bits ptl_general_level_idc_update,
      bs_set (sub_layer_profile_present_flag_update (resize 0 0) \<circ> sub_layer_level_present_flag_update (resize 0 0))] @
      [bs_set (ptl_sub_layer_update (resize 0 ptl_profile_new) \<circ> sub_layer_level_idc_update (resize 0 0))]) (L @ []) t ?u"
    unfolding append.simps
    by (rule reads_require, rule reads_read [OF returns_8bits [OF assms(4)]])
      (use assms(4) in \<open>auto intro!: reads_set reads_Nil\<close>)
  from reads_append [OF t(1) this] show ?thesis
    using t(2) by (intro exI [of _ ?u]) (simp add: hevc_demux_rbsp_ptl_def ptl_sub_layers_def)
qed

section \<open>Sequence parameter sets\<close>

text \<open>The fields of an SPS after its identifier, as H.265 (7.3.2.2.1) writes them; \<open>crop\<close> is the conformance window.\<close>

definition crop_bits :: "(nat \<times> nat \<times> nat \<times> nat) option \<Rightarrow> bool list" where
  "crop_bits crop = (case crop of None \<Rightarrow> [False]
     | Some (l, r, t, b) \<Rightarrow> True # ue_encode l @ ue_encode r @ ue_encode t @ ue_encode b)"

definition sps_bits ::
    "nat \<Rightarrow> bool \<Rightarrow> nat \<Rightarrow> nat \<Rightarrow> (nat \<times> nat \<times> nat \<times> nat) option \<Rightarrow> nat \<Rightarrow> nat \<Rightarrow> nat \<Rightarrow> bool list" where
  "sps_bits chroma sep w h crop luma_depth chroma_depth lsb =
     (ue_encode chroma @ (if chroma = 3 then [sep] else []) @ ue_encode w @ ue_encode h) @ crop_bits crop @
     (ue_encode luma_depth @ ue_encode chroma_depth) @ ue_encode lsb"

lemma the_sps_simps [simp]:
  "the_sps i (the_sps_update i f v) = f (the_sps i v)" "vco_width (the_sps_update i f v) = vco_width v"
  "vco_height (the_sps_update i f v) = vco_height v" "hevc_profile (the_sps_update i f v) = hevc_profile v"
  "hevc_level (the_sps_update i f v) = hevc_level v"
  "the_sps i (v\<lparr>vco_width := a\<rparr>) = the_sps i v" "the_sps i (v\<lparr>vco_height := a\<rparr>) = the_sps i v"
  "the_sps i (v\<lparr>hevc_profile := b\<rparr>) = the_sps i v" "the_sps i (v\<lparr>hevc_level := b\<rparr>) = the_sps i v"
  "the_sps i (hevc_dec_conf_record_update (\<lambda>c. c\<lparr>bit_depth_luma_minus8 := f1 c, bit_depth_chroma_minus8 := f2 c\<rparr>) v) = the_sps i v"
  by (simp_all add: the_sps_def the_sps_update_def upd_at_def)

lemma small_ne: "n < 2 ^ 31 - 1 \<Longrightarrow> of_nat n = (3 :: u32) \<longleftrightarrow> n = 3" "n < 2 ^ 31 - 1 \<Longrightarrow> of_nat n = (2 :: u32) \<longleftrightarrow> n = 2"
  "n < 2 ^ 31 - 1 \<Longrightarrow> of_nat n = (1 :: u32) \<longleftrightarrow> n = 1"
  using of_nat_u32 [of n] by (auto simp: word_unat_eq_iff)

text \<open>The stored picture format.\<close>

definition sps_format :: "nat \<Rightarrow> bool \<Rightarrow> nat \<Rightarrow> nat \<Rightarrow> SrsHevcRbspSps \<Rightarrow> SrsHevcRbspSps" where
  "sps_format chroma sep w h s = s\<lparr>chroma_format_idc := of_nat chroma,
     separate_colour_plane_flag := (if chroma = 3 then of_bool sep else separate_colour_plane_flag s),
     pic_width_in_luma_samples := of_nat w, pic_height_in_luma_samples := of_nat h\<rparr>"

lemma sps_format_reads:
  assumes "chroma < 2 ^ 31 - 1" "w < 2 ^ 31 - 1" "h < 2 ^ 31 - 1"
  shows "reads [bs_ue chroma_format_idc_update,
      bs_dyn (\<lambda>s. if chroma_format_idc s = 3 then [bs_require 1, bs_bit separate_colour_plane_flag_update] else []),
      bs_ue pic_width_in_luma_samples_update, bs_ue pic_height_in_luma_samples_update]
    (ue_encode chroma @ (if chroma = 3 then [sep] else []) @ ue_encode w @ ue_encode h) s (sps_format chroma sep w h s)"
proof -
  let ?s1 = "s\<lparr>chroma_format_idc := of_nat chroma\<rparr>"
  let ?s2 = "?s1\<lparr>separate_colour_plane_flag := (if chroma = 3 then of_bool sep else separate_colour_plane_flag s)\<rparr>"
  let ?s3 = "?s2\<lparr>pic_width_in_luma_samples := of_nat w\<rparr>"
  have tail: "reads [bs_ue pic_width_in_luma_samples_update, bs_ue pic_height_in_luma_samples_update]
      (ue_encode w @ ue_encode h @ []) ?s2 (sps_format chroma sep w h s)"
    by (intro reads_ue assms) (auto simp: sps_format_def intro: reads_Nil)
  have mid: "reads (if chroma_format_idc ?s1 = 3 then [bs_require 1, bs_bit separate_colour_plane_flag_update] else [])
      (if chroma = 3 then [sep] else []) ?s1 ?s2"
    using small_ne(1) [OF assms(1)]
    by (auto intro!: reads_require reads_bit) (auto intro: reads_Nil)
  have "reads [bs_dyn (\<lambda>s. if chroma_format_idc s = 3 then [bs_require 1, bs_bit separate_colour_plane_flag_update] else []),
      bs_ue pic_width_in_luma_samples_update, bs_ue pic_height_in_luma_samples_update]
    ((if chroma = 3 then [sep] else []) @ ue_encode w @ ue_encode h) ?s1 (sps_format chroma sep w h s)"
    by (rule reads_dyn, rule mid) (use tail in simp)
  then show ?thesis by (intro reads_ue [OF assms(1)]) simp
qed

definition sps_window :: "(nat \<times> nat \<times> nat \<times> nat) option \<Rightarrow> SrsHevcRbspSps \<Rightarrow> SrsHevcRbspSps" where
  "sps_window crop s = (case crop of None \<Rightarrow> s\<lparr>conformance_window_flag := 0\<rparr>
     | Some (l, r, t, b) \<Rightarrow> s\<lparr>conformance_window_flag := 1, conf_win_left_offset := of_nat l,
         conf_win_right_offset := of_nat r, conf_win_top_offset := of_nat t, conf_win_bottom_offset := of_nat b\<rparr>)"

definition crop_ok :: "(nat \<times> nat \<times> nat \<times> nat) option \<Rightarrow> bool" where
  "crop_ok crop \<longleftrightarrow> (case crop of None \<Rightarrow> True
     | Some (l, r, t, b) \<Rightarrow> l < 2 ^ 31 - 1 \<and> r < 2 ^ 31 - 1 \<and> t < 2 ^ 31 - 1 \<and> b < 2 ^ 31 - 1)"

text \<open>The configuration after the window: the crop is in chroma units.\<close>

definition crop_config :: "(nat \<times> nat \<times> nat \<times> nat) option \<Rightarrow> nat \<Rightarrow> SrsVideoCodecConfig \<Rightarrow> SrsVideoCodecConfig" where
  "crop_config crop i v = (let u = the_sps_update i (sps_window crop) v in
     if crop = None then u else sps_crop_window i u)"

lemma the_sps_update_compose [simp]: "the_sps_update i f (the_sps_update i g v) = the_sps_update i (f \<circ> g) v"
  by (simp add: the_sps_update_def upd_at_def comp_def)

lemma the_sps_update_const: "the_sps_update i (\<lambda>_. f (the_sps i v)) v = the_sps_update i f v"
  by (simp add: the_sps_update_def the_sps_def upd_at_def)

lemma reads_fld:
  assumes "reads gs p (the_sps i v) (f (the_sps i v))" "reads fs q (the_sps_update i f v) u"
  shows "reads (bs_on (the_sps i) (the_sps_update i) gs # fs) (p @ q) v u"
proof (rule reads_on)
  show "reads gs p (the_sps i v) (f (the_sps i v))" by (rule assms(1))
  show "reads fs q (the_sps_update i (\<lambda>_. f (the_sps i v)) v) u"
    unfolding the_sps_update_const by (rule assms(2))
qed

abbreviation window_step :: "nat \<Rightarrow> SrsVideoCodecConfig bs_step" where
  "window_step i \<equiv>
     bs_dyn (\<lambda>v. if conformance_window_flag (the_sps i v) \<noteq> 0
       then [bs_on (the_sps i) (the_sps_update i)
               [bs_ue conf_win_left_offset_update, bs_ue conf_win_right_offset_update,
                bs_ue conf_win_top_offset_update, bs_ue conf_win_bottom_offset_update],
             bs_set (sps_crop_window i)] else [])"

lemma crop_reads:
  assumes "crop_ok crop" "reads fs rest (crop_config crop i v) u"
  shows "reads
    (bs_on (the_sps i) (the_sps_update i) [bs_require 1, bs_bit conformance_window_flag_update] # window_step i # fs)
    (crop_bits crop @ rest) v u"
proof (cases crop)
  case None
  have "reads (window_step i # fs)
      ([] @ rest) (the_sps_update i (sps_window crop) v) u"
    by (rule reads_dyn [where t = "the_sps_update i (sps_window crop) v"])
      (use assms(2) None in \<open>simp_all add: reads_Nil sps_window_def crop_config_def\<close>)
  then have "reads (bs_on (the_sps i) (the_sps_update i) [bs_require 1, bs_bit conformance_window_flag_update] # window_step i # fs) ([False] @ ([] @ rest)) v u"
    by (intro reads_fld [where f = "sps_window crop"] reads_require reads_bit)
      (use None in \<open>simp_all add: reads_Nil sps_window_def\<close>)
  then show ?thesis using None by (simp add: crop_bits_def)
next
  case (Some c)
  obtain l r t b where c: "c = (l, r, t, b)" by (cases c)
  let ?flag = "\<lambda>s. s\<lparr>conformance_window_flag := 1\<rparr>"
  let ?win = "\<lambda>s. s\<lparr>conf_win_left_offset := of_nat l, conf_win_right_offset := of_nat r,
      conf_win_top_offset := of_nat t, conf_win_bottom_offset := of_nat b\<rparr>"
  have ok: "l < 2 ^ 31 - 1" "r < 2 ^ 31 - 1" "t < 2 ^ 31 - 1" "b < 2 ^ 31 - 1"
    using assms(1) Some c by (simp_all add: crop_ok_def)
  have w: "the_sps_update i (?win \<circ> ?flag) v = the_sps_update i (sps_window crop) v"
    by (rule arg_cong [where f = "\<lambda>f. the_sps_update i f v"]) (simp add: fun_eq_iff Some c sps_window_def)
  have "reads [bs_on (the_sps i) (the_sps_update i)
          [bs_ue conf_win_left_offset_update, bs_ue conf_win_right_offset_update,
           bs_ue conf_win_top_offset_update, bs_ue conf_win_bottom_offset_update],
        bs_set (sps_crop_window i)]
      ((ue_encode l @ ue_encode r @ ue_encode t @ ue_encode b @ []) @ []) (the_sps_update i ?flag v) (crop_config crop i v)"
    by (intro reads_fld [where f = ?win] reads_ue ok reads_set)
      (use Some w in \<open>simp_all add: reads_Nil crop_config_def\<close>)
  then have dyn: "reads (window_step i # fs)
      ((ue_encode l @ ue_encode r @ ue_encode t @ ue_encode b) @ rest) (the_sps_update i ?flag v) u"
    by (intro reads_dyn [where t = "crop_config crop i v"] assms(2)) simp
  have "reads (bs_on (the_sps i) (the_sps_update i) [bs_require 1, bs_bit conformance_window_flag_update] # window_step i # fs)
      ([True] @ (ue_encode l @ ue_encode r @ ue_encode t @ ue_encode b) @ rest) v u"
    by (intro reads_fld [where f = ?flag] dyn reads_require reads_bit) (simp_all add: reads_Nil)
  then show ?thesis using Some c by (simp add: crop_bits_def)
qed

text \<open>The whole of the fields, and what is stored.\<close>

definition sps_ok :: "nat \<Rightarrow> nat \<Rightarrow> nat \<Rightarrow> (nat \<times> nat \<times> nat \<times> nat) option \<Rightarrow> nat \<Rightarrow> nat \<Rightarrow> nat \<Rightarrow> bool" where
  "sps_ok chroma w h crop luma_depth chroma_depth lsb \<longleftrightarrow> chroma < 2 ^ 31 - 1 \<and> w < 2 ^ 31 - 1 \<and> h < 2 ^ 31 - 1 \<and>
     crop_ok crop \<and> luma_depth < 2 ^ 31 - 1 \<and> chroma_depth < 2 ^ 31 - 1 \<and> lsb < 2 ^ 31 - 1"

lemma sps_steps_reads:
  assumes "sps_ok chroma w h crop luma_depth chroma_depth lsb"
    and s: "s = sps_window crop (sps_format chroma sep w h (the_sps i v))"
  shows "\<exists>v'. reads (sps_steps i) (sps_bits chroma sep w h crop luma_depth chroma_depth lsb) v v' \<and>
    hevc_profile v' = hevc_profile v \<and> hevc_level v' = hevc_level v \<and>
    the_sps i v' = s\<lparr>sps_bit_depth_luma_minus8 := of_nat luma_depth, sps_bit_depth_chroma_minus8 := of_nat chroma_depth,
      log2_max_pic_order_cnt_lsb_minus4 := of_nat lsb\<rparr> \<and>
    (let unit = (\<lambda>formats. if chroma \<in> formats \<and> separate_colour_plane_flag s = 0 then 2 else 1);
         (l, r, t, b) = (case crop of None \<Rightarrow> (0, 0, 0, 0) | Some c \<Rightarrow> c)
     in vco_width v' = of_nat w - (unit {1, 2} * of_nat r + unit {1, 2} * of_nat l) \<and>
        vco_height v' = of_nat h - (unit {1} * of_nat b + unit {1} * of_nat t))"
proof -
  have ok: "chroma < 2 ^ 31 - 1" "w < 2 ^ 31 - 1" "h < 2 ^ 31 - 1" "crop_ok crop" "luma_depth < 2 ^ 31 - 1"
    "chroma_depth < 2 ^ 31 - 1" "lsb < 2 ^ 31 - 1"
    using assms(1) by (simp_all add: sps_ok_def)
  define v1 where "v1 = the_sps_update i (sps_format chroma sep w h) v"
  define v2 where "v2 = v1\<lparr>vco_width := pic_width_in_luma_samples (the_sps i v1),
      vco_height := pic_height_in_luma_samples (the_sps i v1)\<rparr>"
  define v3 where "v3 = crop_config crop i v2"
  define v4 where "v4 = the_sps_update i (\<lambda>s. s\<lparr>sps_bit_depth_luma_minus8 := of_nat luma_depth,
      sps_bit_depth_chroma_minus8 := of_nat chroma_depth\<rparr>) v3"
  define v5 where "v5 = hevc_dec_conf_record_update (\<lambda>c. c\<lparr>
      bit_depth_luma_minus8 := ucast (sps_bit_depth_luma_minus8 (the_sps i v4) + 8),
      bit_depth_chroma_minus8 := ucast (sps_bit_depth_chroma_minus8 (the_sps i v4) + 8)\<rparr>) v4"
  define v6 where "v6 = the_sps_update i (\<lambda>s. s\<lparr>log2_max_pic_order_cnt_lsb_minus4 := of_nat lsb\<rparr>) v5"
  note defs = v1_def v2_def v3_def v4_def v5_def v6_def
  have lsb: "reads [bs_on (the_sps i) (the_sps_update i) [bs_ue log2_max_pic_order_cnt_lsb_minus4_update]]
      ((ue_encode lsb @ []) @ []) v5 v6"
    by (intro reads_fld [where f = "\<lambda>s. s\<lparr>log2_max_pic_order_cnt_lsb_minus4 := of_nat lsb\<rparr>"] reads_ue ok)
      (simp_all add: reads_Nil v6_def)
  have depth: "reads (bs_on (the_sps i) (the_sps_update i)
        [bs_ue sps_bit_depth_luma_minus8_update, bs_ue sps_bit_depth_chroma_minus8_update] #
      bs_set (\<lambda>v. hevc_dec_conf_record_update (\<lambda>c. c\<lparr>
        bit_depth_luma_minus8 := ucast (sps_bit_depth_luma_minus8 (the_sps i v) + 8),
        bit_depth_chroma_minus8 := ucast (sps_bit_depth_chroma_minus8 (the_sps i v) + 8)\<rparr>) v) #
      [bs_on (the_sps i) (the_sps_update i) [bs_ue log2_max_pic_order_cnt_lsb_minus4_update]])
      ((ue_encode luma_depth @ ue_encode chroma_depth @ []) @ ((ue_encode lsb @ []) @ [])) v3 v6"
    by (rule reads_fld [where f = "\<lambda>s. s\<lparr>sps_bit_depth_luma_minus8 := of_nat luma_depth,
          sps_bit_depth_chroma_minus8 := of_nat chroma_depth\<rparr>"], (intro reads_ue ok; simp add: reads_Nil), rule reads_set)
      (use lsb in \<open>simp add: v4_def [symmetric] v5_def [symmetric]\<close>)
  have "reads (sps_steps i) (sps_bits chroma sep w h crop luma_depth chroma_depth lsb) v v6"
    unfolding sps_steps_def Let_def sps_bits_def
    by (rule reads_fld [where f = "sps_format chroma sep w h"], rule sps_format_reads [OF ok(1-3)], rule reads_set,
        rule crop_reads [OF ok(4)])
      (use depth in \<open>simp add: v1_def [symmetric] v2_def [symmetric] v3_def [symmetric]\<close>)
  moreover have "the_sps i v3 = s"
    by (cases crop) (auto simp: v3_def v2_def v1_def crop_config_def sps_crop_window_def Let_def s)
  moreover have "the_sps i v6 = (the_sps i v3)\<lparr>sps_bit_depth_luma_minus8 := of_nat luma_depth,
      sps_bit_depth_chroma_minus8 := of_nat chroma_depth, log2_max_pic_order_cnt_lsb_minus4 := of_nat lsb\<rparr>"
    by (simp add: v6_def v5_def v4_def)
  moreover have "hevc_profile v6 = hevc_profile v \<and> hevc_level v6 = hevc_level v"
    by (auto simp: defs crop_config_def sps_crop_window_def Let_def split: option.splits)
  moreover have "vco_width v6 = vco_width v3 \<and> vco_height v6 = vco_height v3"
    by (simp add: v6_def v5_def v4_def)
  moreover have "let unit = (\<lambda>formats. if chroma \<in> formats \<and> separate_colour_plane_flag s = 0 then 2 else 1);
         (l, r, t, b) = (case crop of None \<Rightarrow> (0, 0, 0, 0) | Some c \<Rightarrow> c)
     in vco_width v3 = of_nat w - (unit {1, 2} * of_nat r + unit {1, 2} * of_nat l) \<and>
        vco_height v3 = of_nat h - (unit {1} * of_nat b + unit {1} * of_nat t)"
    by (cases crop) (auto simp: v3_def v2_def v1_def crop_config_def sps_crop_window_def Let_def s sps_window_def
        sps_format_def small_ne [OF ok(1)])
  ultimately show ?thesis by (intro exI [of _ v6]) (simp only: simp_thms)
qed



section \<open>Configuration records\<close>

lemma read_be_any:
  assumes "buf_inv b" "n \<le> length (remaining b)"
  shows "read_be n b = Inr (be_word (take n (remaining b)), advance n b)"
  using next_bytes_ok(1) [OF assms] by (simp add: read_be_def advance_def)

lemma read_be_at:
  assumes "buf_inv b" "n + m \<le> length (remaining b)"
  shows "read_be m (advance n b) = Inr (be_word (take m (drop n (remaining b))), advance (n + m) b)"
proof -
  have "m \<le> length (drop n (remaining b))" using assms(2) by simp
  then show ?thesis using read_be_any [of "advance n b" m] advance_ok [OF assms(1), of n] assms(2) by simp
qed

lemma hvcc_fixed_ok:
  assumes "buf_inv b" "21 \<le> length (remaining b)"
  shows "\<exists>c'. hvcc_fixed b c = Inr (c', advance 21 b) \<and> length_size_minus_one c' = remaining b ! 20 AND 0x03"
proof -
  have last: "be_word (take 1 (drop 20 (remaining b))) = remaining b ! 20"
    using assms(2) by (cases "drop 20 (remaining b)") (auto simp: be_word_def hd_drop_conv_nth [symmetric])
  note rd = read_be_at [OF assms(1)]
  show ?thesis
    using assms(2) last
    by (simp add: hvcc_fixed_def read_op_defs read_be_any [OF assms(1)] rd [of 1 4] rd [of 5 4] rd [of 9 2] rd [of 11 1]
        rd [of 12 2] rd [of 14 1] rd [of 15 1] rd [of 16 1] rd [of 17 1] rd [of 18 2] rd [of 20 1] del: One_nat_def advance_simps(2))
qed

lemma one_byte_unit:
  assumes "t \<in> {32, 33, 34}"
  shows "hevc_nal_rbsp t (SrsBuffer_new [push_bit 1 t]) = Inl ASSERT_FAILED"
  using assms read_1_Cons [OF buf_inv_new remaining_new, of "push_bit 1 t" "[]"] advance_ok(1-3) [of "SrsBuffer_new [push_bit 1 t]" 1]
  by (auto simp: hevc_nal_rbsp_def require_remaining skip_def SrsBuffer_new_def advance_def read_1bytes_def read_be_def
      next_bytes_def require_def be_word_def)

lemma one_unit_array:
  assumes "buf_inv b" "remaining b = x # 0 # 1 # 0 # 1 # d # rest" "t = x AND 0x3f"
    and "hevc_demux_vps_sps_pps parse_sps \<lparr>array_completeness = drop_bit 7 x AND 0x01, nal_unit_type = t,
        num_nalus = 1, nal_data_vec = [\<lparr>nal_unit_length = 1, nal_unit_data = [d]\<rparr>]\<rparr>
      (hevc_dec_conf_record_update (nalu_vec_update (\<lambda>ns. ns @ [\<lparr>array_completeness = drop_bit 7 x AND 0x01,
        nal_unit_type = t, num_nalus = 1, nal_data_vec = [\<lparr>nal_unit_length = 1, nal_unit_data = [d]\<rparr>]\<rparr>])) v) = (Inl e, w)"
  shows "fst (hvcc_arrays parse_sps (Suc n) b v) = Inl e"
proof -
  note 1 = read_1_Cons [OF assms(1,2)]
  note 2 = read_2_any [OF 1(2,3)]
  note 3 = read_2_any [OF 2(2,3)]
  have r: "read_bytes 1 (advance 2 (advance 2 (advance 1 b))) = Inr ([d], advance 1 (advance 2 (advance 2 (advance 1 b))))"
    using next_bytes_ok(1) [OF 3(2), of 1] 3(3) by (simp add: read_bytes_def require_remaining [OF 3(2)] advance_def)
  have w: "be_word [0, 1] = (1 :: u16)" by (simp add: be_word_def)
  have "hvcc_units 1 (advance 2 (advance 1 b)) = Inr ([\<lparr>nal_unit_length = 1, nal_unit_data = [d]\<rparr>],
      advance 1 (advance 2 (advance 2 (advance 1 b))))"
    using 3 r 2(2,3) by (simp add: require_remaining w)
  then show ?thesis
    using 1 2 assms w by (simp add: require_remaining Let_def del: One_nat_def advance_simps(2))
qed

lemma one_byte_unit_demux:
  assumes "t \<in> {32, 33, 34}"
  shows "hevc_demux_vps_sps_pps parse_sps \<lparr>array_completeness = c, nal_unit_type = t,
      num_nalus = 1, nal_data_vec = [\<lparr>nal_unit_length = 1, nal_unit_data = [push_bit 1 t]\<rparr>]\<rparr> v = (Inl ASSERT_FAILED, v)"
  using assms one_byte_unit [OF assms]
  by (auto simp: hevc_demux_vps_sps_pps_def hevc_demux_vps_def hevc_demux_sps_def hevc_demux_pps_def)

lemma hvcc_short_unit:
  assumes "buf_inv b" "remaining b = 1 # h @ n # t # 0 # 1 # 0 # 1 # push_bit 1 t # rest"
    and "length h = 21" "h ! 20 AND 0x03 \<noteq> 2" "n \<noteq> 0" "t \<in> {32, 33, 34}"
  shows "fst (hevc_demux_hvcc parse_sps b v) = Inl ASSERT_FAILED"
proof -
  note 1 = read_1_Cons [OF assms(1,2)]
  have l: "require 23 b" using assms(1-3) by (simp add: require_remaining)
  let ?v = "if left b > 0 then v\<lparr>avc_extra_data := remaining b\<rparr> else v"
  let ?v2 = "hevc_dec_conf_record_update (configuration_version_update (\<lambda>_. 1)) ?v"
  obtain c where c: "hvcc_fixed (advance 1 b) (hevc_dec_conf_record ?v2) = Inr (c, advance 21 (advance 1 b))"
    "length_size_minus_one c = h ! 20 AND 0x03"
    using hvcc_fixed_ok [OF 1(2), of "hevc_dec_conf_record ?v2"] 1(3) assms(3) by (auto simp: nth_append)
  have adv: "buf_inv (advance 21 (advance 1 b))"
    "remaining (advance 21 (advance 1 b)) = n # t # 0 # 1 # 0 # 1 # push_bit 1 t # rest"
    using advance_ok [OF 1(2), of 21] 1(3) assms(3) by simp_all
  note 2 = read_1_Cons [OF adv]
  obtain m where m: "unat n = Suc m" using assms(5) by (metis not0_implies_Suc unat_eq_zero)
  have t: "t AND 0x3f = t" using assms(6) by auto
  have "fst (hvcc_arrays parse_sps (Suc m) (advance 1 (advance 21 (advance 1 b))) w) = Inl ASSERT_FAILED" for w
    by (rule one_unit_array [OF 2(2,3) t [symmetric]]) (rule one_byte_unit_demux [OF assms(6)])
  then show ?thesis
    using l 1(1) c assms(4) 2(1) m by (simp add: hevc_demux_hvcc_def Let_def del: One_nat_def advance_simps(2) hvcc_arrays.simps)
qed

text \<open>
  C32. A parameter set of one byte ends the server: \<open>skip(1)\<close> over the second byte of the unit header is not checked.
  It is enough that any publisher sends a sequence header whose first unit is such a VPS, SPS or PPS, or that a
  transport stream brings such a VPS.
\<close>

theorem hevc_short_unit_aborts:
  assumes "length h = 21" "h ! 20 AND 0x03 \<noteq> 2" "n \<noteq> 0" "t \<in> {32, 33, 34}"
  shows "fst (on_video mem ts (mux_hevc2flv (1 # h @ n # t # 0 # 1 # 0 # 1 # push_bit 1 t # rest) 1 0 dts pts) f) =
      Inl ASSERT_FAILED \<and>
    hevc_mux_sequence_header (hevc_conf_of mem) [0x40] sps pps = Inl ASSERT_FAILED"
proof -
  let ?v = "1 # h @ n # t # 0 # 1 # 0 # 1 # push_bit 1 t # rest"
  let ?d = "mux_hevc2flv ?v 1 0 dts pts"
  have d: "?d = 0x1c # 0 # be_bytes 3 (pts - dts) @ ?v"
    by (simp add: mux_hevc2flv_def mux_video2flv_def Let_def be_bytes_3)
  let ?b = "SrsBuffer_new ?d"
  have r: "remaining ?b = 0x1c # 0 # be_bytes 3 (pts - dts) @ ?v" using d by simp
  note 1 = read_1_Cons [OF buf_inv_new r]
  note 2 = video_times_flv [OF 1(2,3)]
  have "drop_bit 4 0x1c AND 0x0f = (1 :: u8)" "0x1c AND 0x80 = (0 :: u8)" "0x1c AND 0x0f = (12 :: u8)" by simp_all
  then have head: "video_header ?b = Inr (False, 1, 12, 6, advance 1 ?b)"
    using r 1(1) by (simp only: video_header_def require_remaining [OF buf_inv_new]) (simp del: One_nat_def)
  have b5: "buf_inv (advance 4 (advance 1 ?b))" "remaining (advance 4 (advance 1 ?b)) = ?v"
    using advance_ok [OF 1(2), of 4] 1(3) by simp_all
  have hvcc: "fst (hevc_demux_hvcc p (advance 4 (advance 1 ?b)) c) = Inl ASSERT_FAILED" for p c
    by (rule hvcc_short_unit [OF b5 assms])
  have "fst (on_video mem ts ?d f) = Inl ASSERT_FAILED"
    using head 2 hvcc d
    by (simp add: on_video_def video_avc_demux_def Let_def video_body_def case_prod_beta del: advance_simps(2))
  moreover have "hevc_mux_sequence_header (hevc_conf_of mem) [0x40] sps pps = Inl ASSERT_FAILED"
    using one_byte_unit [of 32]
    by (simp add: hevc_mux_sequence_header_def hevc_conf_of_def hevc_demux_vps_def Let_def)
  ultimately show ?thesis by simp
qed

theorem hevc_short_unit_aborts_witness:
  "fst (on_video zero_memory 0 (mux_hevc2flv (1 # replicate 21 0 @ [1, 33, 0, 1, 0, 1, 66]) 1 0 0 0) SrsFormat_new) = Inl ASSERT_FAILED"
  using hevc_short_unit_aborts [of "replicate 21 0" 1 33 zero_memory 0 "[]" 0 0 SrsFormat_new] by simp

text \<open>
  Further inputs on which the parser goes wrong: an SPS with a sub-layer of profile 2, whose fields are elements of
  empty vectors; a PPS that ends within its scaling lists; a slice of one byte in the check for B frames; and a
  configuration record with bit 15 of the constraint flags set, which is taken for a sign.
\<close>

lemma sps_sub_layer_writes_outside:
  "fst (hevc_demux_sps_rbsp True [2, 1, 0, 0, 0, 0, 0, 0, 0, 0, 0, 0, 93, 128, 0, 2, 0, 0, 0, 0, 15, 255, 255, 255, 255, 255]
     zero_memory) = Inl UNDEFINED_WRITE"
  by code_simp

lemma pps_scaling_list_aborts: "fst (hevc_demux_pps_rbsp [192, 113, 128, 85] zero_memory) = Inl ASSERT_FAILED"
  by code_simp

lemma bframe_short_slice_aborts: "parse_hevc_bframe [2] v = Inl ASSERT_FAILED" "parse_hevc_bframe [2, 1] v = Inl ASSERT_FAILED"
  by (simp_all add: parse_hevc_bframe_def parse_hevc_nalu_type_def SrsHevcNaluTypeParse_def skip_def SrsBuffer_new_def
      read_bit_def fetch_byte_def SrsBitBuffer_new_def buf_empty_def)

lemma constraint_flags_sign:
  "(case hvcc_fixed (SrsBuffer_new ([1, 0, 0, 0, 0] @ [0x90, 0, 0, 0, 0x80, 0] @ replicate 10 0)) zero_conf of
      Inr (c, _) \<Rightarrow> general_constraint_indicator_flags c | Inl _ \<Rightarrow> 0) = 0xFFFFFFFFFFFF8000"
  by code_simp

end
