(* ===== verification/Ts_Encode.thy ===== *)
theory Ts_Encode
  imports Ts_Context
begin

text \<open>
  The transport stream encoder of \<open>kernel/srs_kernel_ts.cpp\<close>: \<open>SrsTsContext::encode\<close> writes the PAT and PMT
  when a codec changes and splits a message into packets of 188 bytes. The packet, its adaptation field and
  its payload are records of the fields that \<open>size\<close> and \<open>encode\<close> read, extending those of the decoder.
  A field of a signed type is the word of its bits. The methods \<open>size\<close> store lengths in their object and
  return it. The stream writer is an argument \<open>wr\<close> with a state of its own. The contents of the block that
  \<open>new char[188]\<close> returns are an argument: \<open>mem i\<close> are the bytes of the \<open>i\<close>th block of the call.
\<close>

section \<open>Adaptation field\<close>

record SrsTsAdaptationField =
  af_adaption_field_length :: u8
  af_discontinuity_indicator :: u8
  af_random_access_indicator :: u8
  af_elementary_stream_priority_indicator :: u8
  af_PCR_flag :: u8
  af_OPCR_flag :: u8
  af_splicing_point_flag :: u8
  af_transport_private_data_flag :: u8
  af_adaptation_field_extension_flag :: u8
  af_program_clock_reference_base :: u64
  af_const1_value0 :: u8
  af_program_clock_reference_extension :: u16
  af_splice_countdown :: u8
  af_transport_private_data :: "u8 list"
  af_adaptation_field_extension_length :: u8
  af_ltw_flag :: u8
  af_piecewise_rate_flag :: u8
  af_seamless_splice_flag :: u8
  af_const1_value1 :: u8
  nb_af_ext_reserved :: int
  nb_af_reserved :: int

definition SrsTsAdaptationField_new :: SrsTsAdaptationField where
  "SrsTsAdaptationField_new = \<lparr>af_adaption_field_length = 0, af_discontinuity_indicator = 0,
     af_random_access_indicator = 0, af_elementary_stream_priority_indicator = 0, af_PCR_flag = 0,
     af_OPCR_flag = 0, af_splicing_point_flag = 0, af_transport_private_data_flag = 0,
     af_adaptation_field_extension_flag = 0, af_program_clock_reference_base = 0, af_const1_value0 = 0x3F,
     af_program_clock_reference_extension = 0, af_splice_countdown = 0, af_transport_private_data = [],
     af_adaptation_field_extension_length = 0, af_ltw_flag = 0, af_piecewise_rate_flag = 0,
     af_seamless_splice_flag = 0, af_const1_value1 = 0x1F, nb_af_ext_reserved = 0, nb_af_reserved = 0\<rparr>"

definition af_size :: "SrsTsAdaptationField \<Rightarrow> int \<times> SrsTsAdaptationField" where
  "af_size af =
     (let sz = 2 + (if af_PCR_flag af \<noteq> 0 then 6 else 0) + (if af_OPCR_flag af \<noteq> 0 then 6 else 0) +
               (if af_splicing_point_flag af \<noteq> 0 then 1 else 0) +
               (if af_transport_private_data_flag af \<noteq> 0 then 1 + int (length (af_transport_private_data af)) else 0) +
               (if af_adaptation_field_extension_flag af \<noteq> 0
                then 2 + uint (af_adaptation_field_extension_length af) else 0) +
               nb_af_ext_reserved af + nb_af_reserved af
      in (sz, af\<lparr>af_adaption_field_length := of_int (sz - 1)\<rparr>))"

text \<open>The clock reference is written through a pointer to the six bytes that are skipped.\<close>

definition af_pcrv :: "SrsTsAdaptationField \<Rightarrow> u64" where
  "af_pcrv af = ucast (af_program_clock_reference_extension af AND 0x1ff) OR
     (push_bit 9 (ucast (af_const1_value0 af)) AND 0x7E00) OR
     (push_bit 15 (af_program_clock_reference_base af) AND 0xFFFFFFFF8000)"

definition af_tmpv :: "SrsTsAdaptationField \<Rightarrow> u8" where
  "af_tmpv af = (af_adaptation_field_extension_flag af AND 0x01) OR
     (push_bit 7 (af_discontinuity_indicator af) AND 0x80) OR
     (push_bit 6 (af_random_access_indicator af) AND 0x40) OR
     (push_bit 5 (af_elementary_stream_priority_indicator af) AND 0x20) OR
     (push_bit 4 (af_PCR_flag af) AND 0x10) OR (push_bit 3 (af_OPCR_flag af) AND 0x08) OR
     (push_bit 2 (af_splicing_point_flag af) AND 0x04) OR
     (push_bit 1 (af_transport_private_data_flag af) AND 0x02)"

definition af_encode_private_data :: "u8 list \<Rightarrow> SrsBuffer \<Rightarrow> SrsBuffer res" where
  "af_encode_private_data d b =
     (if \<not> require 1 b then Inl ERROR_STREAM_CASTER_TS_AF
      else res_bind (write_1bytes (of_nat (length d)) b) (\<lambda>b1.
        opt (d \<noteq> []) (\<lambda>b. if \<not> require (int (length d)) b then Inl ERROR_STREAM_CASTER_TS_AF
                          else write_bytes d (int (length d)) b) b1))"

definition af_encode_extension :: "SrsTsAdaptationField \<Rightarrow> SrsBuffer \<Rightarrow> SrsBuffer res" where
  "af_encode_extension af b =
     (if \<not> require 2 b then Inl ERROR_STREAM_CASTER_TS_AF
      else res_bind (write_1bytes (af_adaptation_field_extension_length af) b) (\<lambda>b1.
           res_bind (write_1bytes ((af_const1_value1 af AND 0x1F) OR (push_bit 7 (af_ltw_flag af) AND 0x80) OR
             (push_bit 6 (af_piecewise_rate_flag af) AND 0x40) OR
             (push_bit 5 (af_seamless_splice_flag af) AND 0x20)) b1) (\<lambda>b2.
           res_bind (opt (af_ltw_flag af \<noteq> 0) (field ERROR_STREAM_CASTER_TS_AF 2) b2) (\<lambda>b3.
           res_bind (opt (af_piecewise_rate_flag af \<noteq> 0) (field ERROR_STREAM_CASTER_TS_AF 3) b3) (\<lambda>b4.
           res_bind (opt (af_seamless_splice_flag af \<noteq> 0) (field ERROR_STREAM_CASTER_TS_AF 5) b4) (\<lambda>b5.
             opt (nb_af_ext_reserved af \<noteq> 0) (skip (nb_af_ext_reserved af)) b5))))))"

definition af_encode :: "u8 \<Rightarrow> SrsTsAdaptationField \<Rightarrow> SrsBuffer \<Rightarrow> SrsBuffer res" where
  "af_encode adaption_field_control af b =
     (if \<not> require 2 b then Inl ERROR_STREAM_CASTER_TS_AF
      else res_bind (write_1bytes (af_adaption_field_length af) b) (\<lambda>b1.
        if adaption_field_control = 3 \<and> af_adaption_field_length af > 182 then Inl ERROR_STREAM_CASTER_TS_AF
        else if adaption_field_control = 2 \<and> af_adaption_field_length af \<noteq> 183 then Inl ERROR_STREAM_CASTER_TS_AF
        else if af_adaption_field_length af = 0 then Inr b1
        else res_bind (write_1bytes (af_tmpv af) b1) (\<lambda>b2.
             res_bind (opt (af_PCR_flag af \<noteq> 0)
               (\<lambda>b. if \<not> require 6 b then Inl ERROR_STREAM_CASTER_TS_AF else put_bytes (be_bytes 6 (af_pcrv af)) b) b2) (\<lambda>b3.
             res_bind (opt (af_OPCR_flag af \<noteq> 0) (field ERROR_STREAM_CASTER_TS_AF 6) b3) (\<lambda>b4.
             res_bind (opt (af_splicing_point_flag af \<noteq> 0)
               (\<lambda>b. if \<not> require 1 b then Inl ERROR_STREAM_CASTER_TS_AF else write_1bytes (af_splice_countdown af) b) b4) (\<lambda>b5.
             res_bind (opt (af_transport_private_data_flag af \<noteq> 0)
               (af_encode_private_data (af_transport_private_data af)) b5) (\<lambda>b6.
             res_bind (opt (af_adaptation_field_extension_flag af \<noteq> 0) (af_encode_extension af) b6) (\<lambda>b7.
               opt (nb_af_reserved af \<noteq> 0) (skip (nb_af_reserved af)) b7))))))))"

section \<open>PES packets\<close>

record SrsMpegPESOut = SrsMpegPES +
  pes_packet_start_code_prefix :: u32
  pes_PES_packet_length :: u16
  pes_const2bits :: u8
  pes_PES_scrambling_control :: u8
  pes_PES_priority :: u8
  pes_data_alignment_indicator :: u8
  pes_copyright :: u8
  pes_original_or_copy :: u8
  pes_ESCR_flag :: u8
  pes_ES_rate_flag :: u8
  pes_DSM_trick_mode_flag :: u8
  pes_additional_copy_info_flag :: u8
  pes_PES_CRC_flag :: u8
  pes_PES_extension_flag :: u8
  pes_PES_header_data_length :: u8
  pes_PES_private_data_flag :: u8
  pes_pack_header_field_flag :: u8
  pes_program_packet_sequence_counter_flag :: u8
  pes_P_STD_buffer_flag :: u8
  pes_const1_value0 :: u8
  pes_PES_extension_flag_2 :: u8
  pes_pack_field :: "u8 list"
  pes_PES_extension_field :: "u8 list"
  pes_nb_stuffings :: int

definition SrsMpegPESOut_new :: SrsMpegPESOut where
  "SrsMpegPESOut_new = SrsMpegPES.extend SrsMpegPES_new \<lparr>pes_packet_start_code_prefix = 0, pes_PES_packet_length = 0,
     pes_const2bits = 0x02, pes_PES_scrambling_control = 0, pes_PES_priority = 0, pes_data_alignment_indicator = 0,
     pes_copyright = 0, pes_original_or_copy = 0, pes_ESCR_flag = 0, pes_ES_rate_flag = 0,
     pes_DSM_trick_mode_flag = 0, pes_additional_copy_info_flag = 0, pes_PES_CRC_flag = 0,
     pes_PES_extension_flag = 0, pes_PES_header_data_length = 0, pes_PES_private_data_flag = 0,
     pes_pack_header_field_flag = 0, pes_program_packet_sequence_counter_flag = 0, pes_P_STD_buffer_flag = 0,
     pes_const1_value0 = 0x07, pes_PES_extension_flag_2 = 0, pes_pack_field = [], pes_PES_extension_field = [],
     pes_nb_stuffings = 0\<rparr>"

text \<open>\<open>nb_required\<close> of the extension and of the optional fields; \<open>size\<close> adds up the same numbers.\<close>

definition pes_ext_required :: "SrsMpegPESOut \<Rightarrow> int" where
  "pes_ext_required pes =
     (if pes_PES_private_data_flag pes \<noteq> 0 then 16 else 0) +
     (if pes_pack_header_field_flag pes \<noteq> 0 then 1 + int (length (pes_pack_field pes)) else 0) +
     (if pes_program_packet_sequence_counter_flag pes \<noteq> 0 then 2 else 0) +
     (if pes_P_STD_buffer_flag pes \<noteq> 0 then 2 else 0) +
     (if pes_PES_extension_flag_2 pes \<noteq> 0 then 1 + int (length (pes_PES_extension_field pes)) else 0)"

definition pes_opt_required :: "SrsMpegPESOut \<Rightarrow> int" where
  "pes_opt_required pes =
     (if pes_PTS_DTS_flags pes = 0x2 then 5 else 0) + (if pes_PTS_DTS_flags pes = 0x3 then 10 else 0) +
     (if pes_ESCR_flag pes \<noteq> 0 then 6 else 0) + (if pes_ES_rate_flag pes \<noteq> 0 then 3 else 0) +
     (if pes_DSM_trick_mode_flag pes \<noteq> 0 then 1 else 0) + (if pes_additional_copy_info_flag pes \<noteq> 0 then 1 else 0) +
     (if pes_PES_CRC_flag pes \<noteq> 0 then 2 else 0) + (if pes_PES_extension_flag pes \<noteq> 0 then 1 else 0)"

definition pes_size :: "SrsMpegPESOut \<Rightarrow> int \<times> SrsMpegPESOut" where
  "pes_size pes =
     (if pes_stream_id pes \<notin> {0xbc, 0xbe, 0xbf, 0xf0, 0xf1, 0xff, 0xf2, 0xf8}
      then (let sz = 6 + 3 + pes_opt_required pes +
                     (if pes_PES_extension_flag pes \<noteq> 0 then pes_ext_required pes else 0)
            in (sz + pes_nb_stuffings pes, pes\<lparr>pes_PES_header_data_length := of_int (sz - 9)\<rparr>))
      else (0, pes\<lparr>pes_PES_header_data_length := 0\<rparr>))"

definition encode_33bits_dts_pts :: "u8 \<Rightarrow> u64 \<Rightarrow> SrsBuffer \<Rightarrow> SrsBuffer res" where
  "encode_33bits_dts_pts fb v b =
     (if \<not> require 5 b then Inl ERROR_STREAM_CASTER_TS_PSE
      else (let val1 = push_bit 4 (ucast fb) OR push_bit 1 (drop_bit 30 v AND 0x07) OR 1;
                val2 = push_bit 1 (drop_bit 15 v AND 0x7fff) OR 1;
                val3 = push_bit 1 (v AND 0x7fff) OR 1
            in put_bytes [byte_of val1 0, byte_of val2 1, byte_of val2 0, byte_of val3 1, byte_of val3 0] b))"

definition pes_pplv :: "SrsMpegPESOut \<Rightarrow> int" where
  "pes_pplv pes =
     (if pes_PES_packet_length pes > 0
      then (let pplv = uint (pes_PES_packet_length pes) + 3 + uint (pes_PES_header_data_length pes) in
            if pplv > 0xFFFF then 0 else pplv)
      else 0)"

definition pes_encode_extension :: "SrsMpegPESOut \<Rightarrow> SrsBuffer \<Rightarrow> SrsBuffer res" where
  "pes_encode_extension pes b =
     res_bind (write_1bytes ((pes_PES_extension_flag_2 pes AND 0x01) OR
       (push_bit 7 (pes_PES_private_data_flag pes) AND 0x80) OR
       (push_bit 6 (pes_pack_header_field_flag pes) AND 0x40) OR
       (push_bit 5 (pes_program_packet_sequence_counter_flag pes) AND 0x20) OR
       (push_bit 4 (pes_P_STD_buffer_flag pes) AND 0x10) OR (push_bit 1 (pes_const1_value0 pes) AND 0xE0)) b) (\<lambda>b1.
       if \<not> require (pes_ext_required pes) b1 then Inl ERROR_STREAM_CASTER_TS_PSE
       else skip (pes_ext_required pes) b1)"

definition pes_oocv :: "SrsMpegPESOut \<Rightarrow> u8" where
  "pes_oocv pes = (pes_original_or_copy pes AND 0x01) OR (push_bit 6 (pes_const2bits pes) AND 0xC0) OR
     (push_bit 4 (pes_PES_scrambling_control pes) AND 0x30) OR (push_bit 3 (pes_PES_priority pes) AND 0x08) OR
     (push_bit 2 (pes_data_alignment_indicator pes) AND 0x04) OR (push_bit 1 (pes_copyright pes) AND 0x02)"

definition pes_pefv :: "SrsMpegPESOut \<Rightarrow> u8" where
  "pes_pefv pes = (pes_PES_extension_flag pes AND 0x01) OR (push_bit 6 (pes_PTS_DTS_flags pes) AND 0xC0) OR
     (push_bit 5 (pes_ESCR_flag pes) AND 0x20) OR (push_bit 4 (pes_ES_rate_flag pes) AND 0x10) OR
     (push_bit 3 (pes_DSM_trick_mode_flag pes) AND 0x08) OR
     (push_bit 2 (pes_additional_copy_info_flag pes) AND 0x04) OR (push_bit 1 (pes_PES_CRC_flag pes) AND 0x02)"

definition pes_encode :: "SrsMpegPESOut \<Rightarrow> SrsBuffer \<Rightarrow> SrsBuffer res" where
  "pes_encode pes b =
     (if \<not> require 6 b then Inl ERROR_STREAM_CASTER_TS_PSE
      else res_bind (write_3bytes (pes_packet_start_code_prefix pes) b) (\<lambda>b1.
           res_bind (write_1bytes (pes_stream_id pes) b1) (\<lambda>b2.
           res_bind (write_2bytes (of_int (pes_pplv pes)) b2) (\<lambda>b3.
           if pes_packet_start_code_prefix pes AND 0xFFFFFF \<noteq> 0x01 then Inl ERROR_STREAM_CASTER_TS_PSE
           else if \<not> require 3 b3 then Inl ERROR_STREAM_CASTER_TS_PSE
           else res_bind (write_1bytes (pes_oocv pes) b3) (\<lambda>b4.
                res_bind (write_1bytes (pes_pefv pes) b4) (\<lambda>b5.
                res_bind (write_1bytes (pes_PES_header_data_length pes) b5) (\<lambda>b6.
                if \<not> require (pes_opt_required pes) b6 then Inl ERROR_STREAM_CASTER_TS_PSE
                else res_bind (opt (pes_PTS_DTS_flags pes = 0x2) (encode_33bits_dts_pts 0x02 (pes_pts pes)) b6) (\<lambda>b7.
                     res_bind (opt (pes_PTS_DTS_flags pes = 0x3) (\<lambda>b.
                       res_bind (encode_33bits_dts_pts 0x03 (pes_pts pes) b)
                         (encode_33bits_dts_pts 0x01 (pes_dts pes))) b7) (\<lambda>b8.
                     res_bind (opt (pes_ESCR_flag pes \<noteq> 0) (skip 6) b8) (\<lambda>b9.
                     res_bind (opt (pes_ES_rate_flag pes \<noteq> 0) (skip 3) b9) (\<lambda>b10.
                     res_bind (opt (pes_DSM_trick_mode_flag pes \<noteq> 0) (skip 1) b10) (\<lambda>b11.
                     res_bind (opt (pes_additional_copy_info_flag pes \<noteq> 0) (skip 1) b11) (\<lambda>b12.
                     res_bind (opt (pes_PES_CRC_flag pes \<noteq> 0) (skip 2) b12) (\<lambda>b13.
                     res_bind (opt (pes_PES_extension_flag pes \<noteq> 0) (pes_encode_extension pes) b13) (\<lambda>b14.
                       opt (pes_nb_stuffings pes \<noteq> 0) (skip (pes_nb_stuffings pes)) b14)))))))))))))))"

section \<open>PSI sections\<close>

record SrsTsPayloadPSI =
  psi_pointer_field :: u8
  psi_table_id :: u8
  psi_section_syntax_indicator :: u8
  psi_const0_value :: u8
  psi_const1_value :: u8
  psi_section_length :: u16

record SrsTsPayloadPATProgram =
  prg_number :: u16
  prg_const1_value :: u8
  prg_pid :: u16

record SrsTsPayloadPAT = SrsTsPayloadPSI +
  pat_transport_stream_id :: u16
  pat_version_number :: u8
  pat_current_next_indicator :: u8
  pat_section_number :: u8
  pat_last_section_number :: u8
  pat_programs_out :: "SrsTsPayloadPATProgram list"

record SrsTsPayloadPMTESInfo =
  es_stream_type :: u8
  es_const1_value0 :: u8
  es_elementary_PID :: u16
  es_const1_value1 :: u8
  es_ES_info :: "u8 list"

record SrsTsPayloadPMT = SrsTsPayloadPSI +
  pmt_program_number :: u16
  pmt_const1_value0 :: u8
  pmt_version_number :: u8
  pmt_current_next_indicator :: u8
  pmt_section_number :: u8
  pmt_last_section_number :: u8
  pmt_const1_value1 :: u8
  pmt_PCR_PID :: u16
  pmt_const1_value2 :: u8
  pmt_program_info_desc :: "u8 list"
  pmt_infos_out :: "SrsTsPayloadPMTESInfo list"

definition SrsTsPayloadPSI_new :: SrsTsPayloadPSI where
  "SrsTsPayloadPSI_new = \<lparr>psi_pointer_field = 0, psi_table_id = 0, psi_section_syntax_indicator = 0,
     psi_const0_value = 0, psi_const1_value = 3, psi_section_length = 0\<rparr>"

definition SrsTsPayloadPATProgram_new :: "u16 \<Rightarrow> u16 \<Rightarrow> SrsTsPayloadPATProgram" where
  "SrsTsPayloadPATProgram_new n p = \<lparr>prg_number = n, prg_const1_value = 0x07, prg_pid = p\<rparr>"

definition SrsTsPayloadPAT_new :: SrsTsPayloadPAT where
  "SrsTsPayloadPAT_new = SrsTsPayloadPSI.extend SrsTsPayloadPSI_new \<lparr>pat_transport_stream_id = 0,
     pat_version_number = 0, pat_current_next_indicator = 0, pat_section_number = 0, pat_last_section_number = 0,
     pat_programs_out = []\<rparr>"

definition SrsTsPayloadPMTESInfo_new :: "u8 \<Rightarrow> u16 \<Rightarrow> SrsTsPayloadPMTESInfo" where
  "SrsTsPayloadPMTESInfo_new st epid = \<lparr>es_stream_type = st, es_const1_value0 = 7, es_elementary_PID = epid,
     es_const1_value1 = 0x0f, es_ES_info = []\<rparr>"

definition SrsTsPayloadPMT_new :: SrsTsPayloadPMT where
  "SrsTsPayloadPMT_new = SrsTsPayloadPSI.extend SrsTsPayloadPSI_new \<lparr>pmt_program_number = 0, pmt_const1_value0 = 3,
     pmt_version_number = 0, pmt_current_next_indicator = 0, pmt_section_number = 0, pmt_last_section_number = 0,
     pmt_const1_value1 = 7, pmt_PCR_PID = 0, pmt_const1_value2 = 0x0f, pmt_program_info_desc = [],
     pmt_infos_out = []\<rparr>"

text \<open>\<open>size\<close> and \<open>encode\<close> of a section, with the virtual \<open>psi_size\<close> and \<open>psi_encode\<close> as arguments.\<close>

definition psi_size ::
    "('a SrsTsPayloadPSI_scheme \<Rightarrow> int) \<Rightarrow> bool \<Rightarrow> 'a SrsTsPayloadPSI_scheme \<Rightarrow> int \<times> 'a SrsTsPayloadPSI_scheme" where
  "psi_size sz payload_unit_start_indicator psi =
     (let psi1 = psi\<lparr>psi_section_length := of_int (sz psi + 4)\<rparr> in
      ((if payload_unit_start_indicator then 1 else 0) + 3 + uint (psi_section_length psi1), psi1))"

definition psi_slv :: "'a SrsTsPayloadPSI_scheme \<Rightarrow> u16" where
  "psi_slv psi = (psi_section_length psi AND 0x0FFF) OR
     (push_bit 15 (ucast (psi_section_syntax_indicator psi)) AND 0x8000) OR
     (push_bit 14 (ucast (psi_const0_value psi)) AND 0x4000) OR (push_bit 12 (ucast (psi_const1_value psi)) AND 0x3000)"

definition psi_encode ::
    "('a SrsTsPayloadPSI_scheme \<Rightarrow> SrsBuffer \<Rightarrow> SrsTsContext \<Rightarrow> psi_result) \<Rightarrow> bool \<Rightarrow>
     'a SrsTsPayloadPSI_scheme \<Rightarrow> SrsBuffer \<Rightarrow> SrsTsContext \<Rightarrow> psi_result" where
  "psi_encode enc payload_unit_start_indicator psi b ctx =
     with_res (opt payload_unit_start_indicator (\<lambda>b.
         if \<not> require 1 b then Inl ERROR_STREAM_CASTER_TS_PSI else write_1bytes (psi_pointer_field psi) b) b) ctx (\<lambda>b1.
       if \<not> require 3 b1 then (Inl ERROR_STREAM_CASTER_TS_PSI, ctx)
       else with_res (write_1bytes (psi_table_id psi) b1) ctx (\<lambda>b2.
            with_res (write_2bytes (psi_slv psi) b2) ctx (\<lambda>b3.
            if psi_section_length psi = 0 then (Inr b3, ctx)
            else if \<not> require (uint (psi_section_length psi)) b3 then (Inl ERROR_STREAM_CASTER_TS_PSI, ctx)
            else (case enc psi b3 ctx of
                    (Inl e, ctx1) \<Rightarrow> (Inl e, ctx1)
                  | (Inr b4, ctx1) \<Rightarrow>
                      if \<not> require 4 b4 then (Inl ERROR_STREAM_CASTER_TS_PSI, ctx1)
                      else with_res (frame_string (drop (nat (pos b1)) (buf_bytes b4), pos b4 - pos b1)) ctx1 (\<lambda>sections.
                           with_res (write_4bytes (srs_crc32_mpegts sections) b4) ctx1 (\<lambda>b5. (Inr b5, ctx1)))))))"

definition program_encode :: "SrsTsPayloadPATProgram \<Rightarrow> SrsBuffer \<Rightarrow> SrsBuffer res" where
  "program_encode program b =
     (if \<not> require 4 b then Inl ERROR_STREAM_CASTER_TS_PAT
      else write_4bytes ((ucast (prg_pid program) AND 0x1FFF) OR
             (push_bit 16 (ucast (prg_number program)) AND 0xFFFF0000) OR
             (push_bit 13 (ucast (prg_const1_value program)) AND 0xE000)) b)"

definition pat_psi_size :: "SrsTsPayloadPAT \<Rightarrow> int" where
  "pat_psi_size pat = 5 + sum_list (map (\<lambda>program. 4) (pat_programs_out pat))"

primrec pat_encode_programs :: "SrsTsPayloadPATProgram list \<Rightarrow> SrsBuffer \<Rightarrow> SrsTsContext \<Rightarrow> psi_result" where
  "pat_encode_programs [] b ctx = (Inr b, ctx)"
| "pat_encode_programs (program # ps) b ctx =
     with_res (program_encode program b) ctx (\<lambda>b1.
       pat_encode_programs ps b1 (ctx_set (prg_pid program) SrsTsPidApplyPMT 0 ctx))"

definition pat_psi_encode :: "u16 \<Rightarrow> SrsTsPayloadPAT \<Rightarrow> SrsBuffer \<Rightarrow> SrsTsContext \<Rightarrow> psi_result" where
  "pat_psi_encode pid pat b ctx =
     (if \<not> require 5 b then (Inl ERROR_STREAM_CASTER_TS_PAT, ctx)
      else with_res (write_2bytes (pat_transport_stream_id pat) b) ctx (\<lambda>b1.
           with_res (write_1bytes ((pat_current_next_indicator pat AND 0x01) OR
             (push_bit 1 (pat_version_number pat) AND 0x3E) OR (push_bit 6 (psi_const1_value pat) AND 0xC0)) b1) ctx (\<lambda>b2.
           with_res (write_1bytes (pat_section_number pat) b2) ctx (\<lambda>b3.
           with_res (write_1bytes (pat_last_section_number pat) b3) ctx (\<lambda>b4.
           (case pat_encode_programs (pat_programs_out pat) b4 ctx of
              (Inl e, ctx1) \<Rightarrow> (Inl e, ctx1)
            | (Inr b5, ctx1) \<Rightarrow> (Inr b5, ctx_set pid SrsTsPidApplyPAT 0 ctx1)))))))"

definition es_info_size :: "SrsTsPayloadPMTESInfo \<Rightarrow> int" where
  "es_info_size info = 5 + int (length (es_ES_info info))"

definition es_info_encode :: "SrsTsPayloadPMTESInfo \<Rightarrow> SrsBuffer \<Rightarrow> SrsBuffer res" where
  "es_info_encode info b =
     (if \<not> require 5 b then Inl ERROR_STREAM_CASTER_TS_PMT
      else res_bind (write_1bytes (es_stream_type info) b) (\<lambda>b1.
           res_bind (write_2bytes ((es_elementary_PID info AND 0x1FFF) OR
             (push_bit 13 (ucast (es_const1_value0 info)) AND 0xE000)) b1) (\<lambda>b2.
           res_bind (write_2bytes ((of_nat (length (es_ES_info info)) AND 0x0FFF) OR
             (push_bit 12 (ucast (es_const1_value1 info)) AND 0xF000)) b2) (\<lambda>b3.
           opt (es_ES_info info \<noteq> []) (\<lambda>b.
             if \<not> require (int (length (es_ES_info info))) b then Inl ERROR_STREAM_CASTER_TS_PMT
             else write_bytes (es_ES_info info) (int (length (es_ES_info info))) b) b3))))"

definition pmt_psi_size :: "SrsTsPayloadPMT \<Rightarrow> int" where
  "pmt_psi_size pmt = 9 + int (length (pmt_program_info_desc pmt)) + sum_list (map es_info_size (pmt_infos_out pmt))"

primrec pmt_encode_infos :: "SrsTsPayloadPMTESInfo list \<Rightarrow> SrsBuffer \<Rightarrow> SrsTsContext \<Rightarrow> psi_result" where
  "pmt_encode_infos [] b ctx = (Inr b, ctx)"
| "pmt_encode_infos (info # is) b ctx =
     with_res (es_info_encode info b) ctx (\<lambda>b1.
       pmt_encode_infos is b1 (apply_es (es_stream_type info) (es_elementary_PID info) ctx))"

definition pmt_psi_encode :: "u16 \<Rightarrow> SrsTsPayloadPMT \<Rightarrow> SrsBuffer \<Rightarrow> SrsTsContext \<Rightarrow> psi_result" where
  "pmt_psi_encode pid pmt b ctx =
     (if \<not> require 9 b then (Inl ERROR_STREAM_CASTER_TS_PMT, ctx)
      else with_res (write_2bytes (pmt_program_number pmt) b) ctx (\<lambda>b1.
           with_res (write_1bytes ((pmt_current_next_indicator pmt AND 0x01) OR
             (push_bit 6 (pmt_const1_value0 pmt) AND 0xC0) OR (push_bit 1 (pmt_version_number pmt) AND 0xFE)) b1) ctx (\<lambda>b2.
           with_res (write_1bytes (pmt_section_number pmt) b2) ctx (\<lambda>b3.
           with_res (write_1bytes (pmt_last_section_number pmt) b3) ctx (\<lambda>b4.
           with_res (write_2bytes ((pmt_PCR_PID pmt AND 0x1FFF) OR
             (push_bit 13 (ucast (pmt_const1_value1 pmt)) AND 0xE000)) b4) ctx (\<lambda>b5.
           with_res (write_2bytes ((of_nat (length (pmt_program_info_desc pmt)) AND 0xFFF) OR
             (push_bit 12 (ucast (pmt_const1_value2 pmt)) AND 0xF000)) b5) ctx (\<lambda>b6.
           with_res (opt (pmt_program_info_desc pmt \<noteq> []) (\<lambda>b.
               if \<not> require (int (length (pmt_program_info_desc pmt))) b then Inl ERROR_STREAM_CASTER_TS_PMT
               else write_bytes (pmt_program_info_desc pmt) (int (length (pmt_program_info_desc pmt))) b) b6) ctx (\<lambda>b7.
           (case pmt_encode_infos (pmt_infos_out pmt) b7 ctx of
              (Inl e, ctx1) \<Rightarrow> (Inl e, ctx1)
            | (Inr b8, ctx1) \<Rightarrow> (Inr b8, ctx_set pid SrsTsPidApplyPMT 0 ctx1))))))))))"

section \<open>Packets\<close>

datatype SrsTsPayload =
    SrsTsPayloadPES SrsMpegPESOut
  | SrsTsPayload_PAT SrsTsPayloadPAT
  | SrsTsPayload_PMT SrsTsPayloadPMT

record SrsTsPacketOut = SrsTsPacket +
  pk_sync_byte :: u8
  pk_transport_error_indicator :: u8
  pk_transport_priority :: u8
  pk_transport_scrambling_control :: u8
  pk_adaptation_field :: "SrsTsAdaptationField option"
  pk_payload :: "SrsTsPayload option"

definition payload_size :: "bool \<Rightarrow> SrsTsPayload \<Rightarrow> int \<times> SrsTsPayload" where
  "payload_size us p =
     (case p of
        SrsTsPayloadPES pes \<Rightarrow> (let (sz, pes1) = pes_size pes in (sz, SrsTsPayloadPES pes1))
      | SrsTsPayload_PAT pat \<Rightarrow> (let (sz, pat1) = psi_size pat_psi_size us pat in (sz, SrsTsPayload_PAT pat1))
      | SrsTsPayload_PMT pmt \<Rightarrow> (let (sz, pmt1) = psi_size pmt_psi_size us pmt in (sz, SrsTsPayload_PMT pmt1)))"

definition payload_encode :: "SrsTsPacketOut \<Rightarrow> SrsTsPayload \<Rightarrow> SrsBuffer \<Rightarrow> SrsTsContext \<Rightarrow> psi_result" where
  "payload_encode packet p b ctx =
     (case p of
        SrsTsPayloadPES pes \<Rightarrow> (pes_encode pes b, ctx)
      | SrsTsPayload_PAT pat \<Rightarrow>
          psi_encode (pat_psi_encode (pk_pid packet)) (pk_payload_unit_start_indicator packet) pat b ctx
      | SrsTsPayload_PMT pmt \<Rightarrow>
          psi_encode (pmt_psi_encode (pk_pid packet)) (pk_payload_unit_start_indicator packet) pmt b ctx)"

definition packet_size :: "SrsTsPacketOut \<Rightarrow> int \<times> SrsTsPacketOut" where
  "packet_size pkt =
     (let (sz1, pkt1) = (case pk_adaptation_field pkt of None \<Rightarrow> (0, pkt)
                         | Some af \<Rightarrow> (let (sz, af1) = af_size af in (sz, pkt\<lparr>pk_adaptation_field := Some af1\<rparr>)));
          (sz2, pkt2) = (case pk_payload pkt1 of None \<Rightarrow> (0, pkt1)
                         | Some p \<Rightarrow> (let (sz, p1) = payload_size (pk_payload_unit_start_indicator pkt1) p
                                     in (sz, pkt1\<lparr>pk_payload := Some p1\<rparr>)))
      in (4 + sz1 + sz2, pkt2))"

definition packet_pidv :: "SrsTsPacketOut \<Rightarrow> u16" where
  "packet_pidv pkt = (pk_pid pkt AND 0x1FFF) OR (push_bit 13 (ucast (pk_transport_priority pkt)) AND 0x2000) OR
     (push_bit 15 (ucast (pk_transport_error_indicator pkt)) AND 0x8000) OR
     (push_bit 14 (of_bool (pk_payload_unit_start_indicator pkt)) AND 0x4000)"

definition packet_ccv :: "SrsTsPacketOut \<Rightarrow> u8" where
  "packet_ccv pkt = (pk_continuity_counter pkt AND 0x0F) OR
     (push_bit 6 (pk_transport_scrambling_control pkt) AND 0xC0) OR
     (push_bit 4 (pk_adaption_field_control pkt) AND 0x30)"

definition packet_encode :: "SrsTsPacketOut \<Rightarrow> SrsBuffer \<Rightarrow> SrsTsContext \<Rightarrow> psi_result" where
  "packet_encode pkt b ctx =
     (if \<not> require 4 b then (Inl ERROR_STREAM_CASTER_TS_HEADER, ctx)
      else with_res (write_1bytes (pk_sync_byte pkt) b) ctx (\<lambda>b1.
           with_res (write_2bytes (packet_pidv pkt) b1) ctx (\<lambda>b2.
           with_res (write_1bytes (packet_ccv pkt) b2) ctx (\<lambda>b3.
           with_res (case pk_adaptation_field pkt of None \<Rightarrow> Inr b3
                     | Some af \<Rightarrow> af_encode (pk_adaption_field_control pkt) af b3) ctx (\<lambda>b4.
             case pk_payload pkt of None \<Rightarrow> (Inr b4, ctx) | Some p \<Rightarrow> payload_encode pkt p b4 ctx)))))"

definition packet_padding :: "int \<Rightarrow> SrsTsPacketOut \<Rightarrow> SrsTsPacketOut" where
  "packet_padding nb_stuffings pkt =
     (let (af, nb) = (case pk_adaptation_field pkt of
                        Some af \<Rightarrow> (af, nb_stuffings)
                      | None \<Rightarrow> (let (sz, af) = af_size SrsTsAdaptationField_new in (af, max 0 (nb_stuffings - sz))));
          pkt1 = pkt\<lparr>pk_adaptation_field := Some (af\<lparr>nb_af_reserved := nb\<rparr>)\<rparr>
      in if pk_adaption_field_control pkt1 = 1 then pkt1\<lparr>pk_adaption_field_control := 3\<rparr> else pkt1)"

definition SrsTsPacket_new :: "bool \<Rightarrow> u16 \<Rightarrow> u8 \<Rightarrow> SrsTsPayload option \<Rightarrow> SrsTsPacketOut" where
  "SrsTsPacket_new us pid cc p = \<lparr>pk_payload_unit_start_indicator = us, pk_pid = pid, pk_adaption_field_control = 1,
     pk_continuity_counter = cc, pk_sync_byte = 0x47, pk_transport_error_indicator = 0, pk_transport_priority = 0,
     pk_transport_scrambling_control = 0, pk_adaptation_field = None, pk_payload = p\<rparr>"

definition create_pat :: "u16 \<Rightarrow> u16 \<Rightarrow> SrsTsPacketOut" where
  "create_pat pmt_number pmt_pid =
     SrsTsPacket_new True 0 0 (Some (SrsTsPayload_PAT (SrsTsPayloadPAT_new\<lparr>psi_pointer_field := 0, psi_table_id := 0x00,
       psi_section_syntax_indicator := 1, psi_section_length := 0, pat_transport_stream_id := 1,
       pat_version_number := 0, pat_current_next_indicator := 1, pat_section_number := 0,
       pat_last_section_number := 0, pat_programs_out := [SrsTsPayloadPATProgram_new pmt_number pmt_pid]\<rparr>)))"

definition create_pmt :: "u16 \<Rightarrow> u16 \<Rightarrow> u16 \<Rightarrow> u8 \<Rightarrow> u16 \<Rightarrow> u8 \<Rightarrow> SrsTsPacketOut res" where
  "create_pmt pmt_number pmt_pid vpid vs apid as =
     (let pmt = SrsTsPayloadPMT_new\<lparr>psi_pointer_field := 0, psi_table_id := 0x02, psi_section_syntax_indicator := 1,
            psi_section_length := 0, pmt_program_number := pmt_number, pmt_version_number := 0,
            pmt_current_next_indicator := 1, pmt_section_number := 0, pmt_last_section_number := 0\<rparr>;
          pmt1 = (if as = 0x0f \<or> as = 0x03
                  then pmt\<lparr>pmt_PCR_PID := apid, pmt_infos_out := [SrsTsPayloadPMTESInfo_new as apid]\<rparr> else pmt);
          pmt2 = (if vs = 0x1b \<or> vs = 0x24
                  then pmt1\<lparr>pmt_PCR_PID := vpid, pmt_infos_out := pmt_infos_out pmt1 @ [SrsTsPayloadPMTESInfo_new vs vpid]\<rparr>
                  else pmt1)
      in if \<not> (vs = 0x1b \<or> as = 0x0f \<or> as = 0x03 \<or> vs = 0x24) then Inl ASSERT_FAILED
         else Inr (SrsTsPacket_new True pmt_pid 0 (Some (SrsTsPayload_PMT pmt2))))"

definition create_pes_first :: "u16 \<Rightarrow> u8 \<Rightarrow> u8 \<Rightarrow> bool \<Rightarrow> u64 \<Rightarrow> u64 \<Rightarrow> u64 \<Rightarrow> nat \<Rightarrow> SrsTsPacketOut" where
  "create_pes_first pid sid continuity_counter discontinuity pcr dts pts sz =
     (let pes = SrsMpegPESOut_new\<lparr>pes_packet_start_code_prefix := 0x01, pes_stream_id := sid,
            pes_PES_packet_length := (if sz > 0xFFFF then 0 else of_nat sz),
            pes_PTS_DTS_flags := (if dts = pts then 0x02 else 0x03), pes_pts := pts, pes_dts := dts\<rparr>;
          pkt = SrsTsPacket_new True pid continuity_counter (Some (SrsTsPayloadPES pes))
      in if sint pcr \<ge> 0
         then pkt\<lparr>pk_adaptation_field := Some (SrsTsAdaptationField_new\<lparr>af_discontinuity_indicator := of_bool discontinuity,
                    af_PCR_flag := 1, af_program_clock_reference_base := pcr, af_program_clock_reference_extension := 0\<rparr>),
                  pk_adaption_field_control := 3\<rparr>
         else pkt)"

definition create_pes_continue :: "u16 \<Rightarrow> u8 \<Rightarrow> SrsTsPacketOut" where
  "create_pes_continue pid continuity_counter = SrsTsPacket_new False pid continuity_counter None"

section \<open>Context\<close>

type_synonym 'w stream_writer = "'w \<Rightarrow> u8 list \<Rightarrow> unit res \<times> 'w"

definition new_block :: "(nat \<Rightarrow> u8) \<Rightarrow> u8 list" where
  "new_block m = map m [0..<188]"

text \<open>The packet is encoded into the first \<open>nb_buf\<close> bytes of the block \<open>buf\<close>, and the block is written.\<close>

definition write_block ::
    "'w stream_writer \<Rightarrow> SrsTsPacketOut \<Rightarrow> nat \<Rightarrow> u8 list \<Rightarrow> SrsTsContext \<times> 'w \<Rightarrow> (SrsTsContext \<times> 'w) outcome" where
  "write_block wr pkt nb_buf buf = (\<lambda>(ctx, w).
     case packet_encode pkt (SrsBuffer_new (take nb_buf buf)) ctx of
       (Inl e, ctx1) \<Rightarrow> (Inl e, (ctx1, w))
     | (Inr stream, ctx1) \<Rightarrow> (let (r, w1) = wr w (buf_bytes stream @ drop nb_buf buf) in (r, (ctx1, w1))))"

text \<open>The two blocks of \<open>encode_pat_pmt\<close>.\<close>

definition write_psi ::
    "'w stream_writer \<Rightarrow> (nat \<Rightarrow> u8) \<Rightarrow> SrsTsPacketOut \<Rightarrow> SrsTsContext \<times> 'w \<Rightarrow> (SrsTsContext \<times> 'w) outcome" where
  "write_psi wr m pkt0 = (\<lambda>(ctx, w).
     (let (nb_buf, pkt) = packet_size (pkt0\<lparr>pk_sync_byte := ctx_sync_byte ctx\<rparr>) in
      if \<not> nb_buf < SRS_TS_PACKET_SIZE then (Inl ASSERT_FAILED, (ctx, w))
      else write_block wr pkt (nat nb_buf)
             (take (nat nb_buf) (new_block m) @ replicate (nat (SRS_TS_PACKET_SIZE - nb_buf)) 0xFF) (ctx, w)))"

definition encode_pat_pmt ::
    "'w stream_writer \<Rightarrow> (nat \<Rightarrow> nat \<Rightarrow> u8) \<Rightarrow> u16 \<Rightarrow> u8 \<Rightarrow> u16 \<Rightarrow> u8 \<Rightarrow> SrsTsContext \<times> 'w \<Rightarrow> (SrsTsContext \<times> 'w) outcome" where
  "encode_pat_pmt wr mem vpid vs apid as s =
     (if \<not> (vs = 0x1b \<or> as = 0x0f \<or> as = 0x03 \<or> vs = 0x24) then (Inl ERROR_HLS_NO_STREAM, s)
      else and_then (write_psi wr (mem 0) (create_pat 1 0x1001) s) (\<lambda>s1.
           and_then (with_res (create_pmt 1 0x1001 vpid vs apid as) s1 (\<lambda>pkt. write_psi wr (mem 1) pkt s1)) (\<lambda>(ctx, w).
             (srs_success, (ctx\<lparr>ctx_ready := True\<rparr>, w)))))"

text \<open>\<open>channel->continuity_counter_++\<close>: the value before and the channel with the value after.\<close>

definition next_counter :: "u16 \<Rightarrow> SrsTsChannel \<Rightarrow> SrsTsContext \<Rightarrow> SrsTsContext" where
  "next_counter pid channel ctx =
     ctx\<lparr>ctx_pids := sm_put pid (channel\<lparr>ch_continuity_counter := ch_continuity_counter channel + 1\<rparr>) (ctx_pids ctx)\<rparr>"

text \<open>The size of the header and of the piece of the payload \<open>p\<close> that fills the packet, after the stuffing
  of the last packet, and the contents of the block.\<close>

definition pes_layout :: "SrsTsPacketOut \<Rightarrow> u8 list \<Rightarrow> u8 list \<Rightarrow> (SrsTsPacketOut \<times> nat \<times> nat \<times> u8 list) res" where
  "pes_layout pkt0 p buf =
     (let (nb_buf, pkt) = packet_size pkt0;
          left = min (int (length p)) (SRS_TS_PACKET_SIZE - nb_buf);
          nb_stuffings = SRS_TS_PACKET_SIZE - nb_buf - left
      in if \<not> nb_buf < SRS_TS_PACKET_SIZE then Inl ASSERT_FAILED
         else if nb_stuffings > 0
         then (let (nb_buf1, pkt1) = packet_size (packet_padding nb_stuffings pkt);
                   left1 = min (int (length p)) (SRS_TS_PACKET_SIZE - nb_buf1)
               in if \<not> nb_buf1 < SRS_TS_PACKET_SIZE then Inl ASSERT_FAILED
                  else if \<not> SRS_TS_PACKET_SIZE - nb_buf1 - left1 = 0 then Inl ASSERT_FAILED
                  else Inr (pkt1, nat nb_buf1, nat left1, replicate (nat SRS_TS_PACKET_SIZE) 0xFF))
         else Inr (pkt, nat nb_buf, nat left, buf))"

lemma pes_layout_progress: "pes_layout pkt p buf = Inr (pkt1, nb_buf, n, buf1) \<Longrightarrow> p \<noteq> [] \<Longrightarrow> 0 < n"
  by (auto simp: pes_layout_def Let_def min_def split: if_splits prod.splits)

definition msg_is_audio :: "SrsTsMessage \<Rightarrow> bool" where
  "msg_is_audio msg \<longleftrightarrow> drop_bit 5 (msg_sid msg) AND 0x07 = 0x06"

definition msg_is_video :: "SrsTsMessage \<Rightarrow> bool" where
  "msg_is_video msg \<longleftrightarrow> drop_bit 4 (msg_sid msg) AND 0x0f = 0x0e"

text \<open>The packet for the rest of the payload; \<open>first\<close> is \<open>p == start\<close>.\<close>

definition pes_packet :: "u16 \<Rightarrow> SrsTsMessage \<Rightarrow> bool \<Rightarrow> bool \<Rightarrow> u8 \<Rightarrow> SrsTsPacketOut" where
  "pes_packet pid msg pure_audio first continuity_counter =
     (if first
      then (let write_pcr = msg_write_pcr msg \<or> pure_audio \<and> msg_is_audio msg;
                pcr = (if write_pcr then msg_dts msg else - 1)
            in create_pes_first pid (msg_sid msg) continuity_counter (msg_is_discontinuity msg) pcr (msg_dts msg)
                 (msg_pts msg) (length (msg_payload msg)))
      else create_pes_continue pid continuity_counter)"

text \<open>The loop of \<open>encode_pes\<close>; \<open>i\<close> counts its rounds and \<open>p\<close> is the payload from \<open>p\<close> to \<open>end\<close>. The channel
  is found again in each round, where the code keeps the pointer.\<close>

function pes_loop ::
    "'w stream_writer \<Rightarrow> (nat \<Rightarrow> nat \<Rightarrow> u8) \<Rightarrow> SrsTsMessage \<Rightarrow> u16 \<Rightarrow> bool \<Rightarrow> nat \<Rightarrow> u8 list \<Rightarrow> SrsTsContext \<times> 'w \<Rightarrow>
     (SrsTsContext \<times> 'w) outcome" where
  "pes_loop wr mem msg pid pure_audio i p s =
     (if p = [] then (srs_success, s)
      else (case ctx_get pid (fst s) of
              None \<Rightarrow> (Inl ASSERT_FAILED, s)
            | Some channel \<Rightarrow>
                (let pkt0 = (pes_packet pid msg pure_audio (i = 0) (ch_continuity_counter channel))
                              \<lparr>pk_sync_byte := ctx_sync_byte (fst s)\<rparr>;
                     s1 = (next_counter pid channel (fst s), snd s)
                 in case pes_layout pkt0 p (new_block (mem i)) of
                      Inl e \<Rightarrow> (Inl e, s1)
                    | Inr (pkt, nb_buf, n, buf) \<Rightarrow>
                        and_then (write_block wr pkt nb_buf (take nb_buf buf @ take n p @ drop (nb_buf + n) buf) s1)
                          (pes_loop wr mem msg pid pure_audio (Suc i) (drop n p)))))"
  by pat_completeness auto
termination
  by (relation "measure (\<lambda>(_, _, _, _, _, _, p, _). length p)") (auto dest: pes_layout_progress)

declare pes_loop.simps [simp del]

definition encode_pes ::
    "'w stream_writer \<Rightarrow> (nat \<Rightarrow> nat \<Rightarrow> u8) \<Rightarrow> SrsTsMessage \<Rightarrow> u16 \<Rightarrow> u8 \<Rightarrow> bool \<Rightarrow> SrsTsContext \<times> 'w \<Rightarrow>
     (SrsTsContext \<times> 'w) outcome" where
  "encode_pes wr mem msg pid sid pure_audio s =
     (if \<not> ctx_ready (fst s) then (Inl ERROR_TS_CONTEXT_NOT_READY, s)
      else if msg_payload msg = [] then (srs_success, s)
      else if \<not> (sid = 0x1b \<or> sid = 0x0f \<or> sid = 0x03 \<or> sid = 0x24) then (srs_success, s)
      else if ctx_get pid (fst s) = None then (Inl ASSERT_FAILED, s)
      else pes_loop wr mem msg pid pure_audio 0 (msg_payload msg) s)"

definition video_stream :: "u8 \<Rightarrow> u8 \<times> u16" where
  "video_stream vc = (if vc = 7 then (0x1b, 0x100) else if vc = 12 then (0x24, 0x100) else (0, 0))"

definition audio_stream :: "u8 \<Rightarrow> u8 \<times> u16" where
  "audio_stream ac = (if ac = 10 then (0x0f, 0x101) else if ac = 2 then (0x03, 0x102) else (0, 0))"

definition ts_encode ::
    "'w stream_writer \<Rightarrow> (nat \<Rightarrow> nat \<Rightarrow> u8) \<Rightarrow> SrsTsMessage \<Rightarrow> u8 \<Rightarrow> u8 \<Rightarrow> SrsTsContext \<times> 'w \<Rightarrow>
     (SrsTsContext \<times> 'w) outcome" where
  "ts_encode wr mem msg vc ac s =
     (let (vs, video_pid) = video_stream vc; (as, audio_pid) = audio_stream ac in
      if as = 0 \<and> vs = 0 then (Inl ERROR_HLS_NO_STREAM, s)
      else and_then
        (if ctx_vcodec (fst s) \<noteq> vc \<or> ctx_acodec (fst s) \<noteq> ac
         then encode_pat_pmt wr mem video_pid vs audio_pid as ((fst s)\<lparr>ctx_vcodec := vc, ctx_acodec := ac\<rparr>, snd s)
         else (srs_success, s)) (\<lambda>s1.
        if msg_is_audio msg then encode_pes wr (\<lambda>i. mem (i + 2)) msg audio_pid as (vs = 0) s1
        else encode_pes wr (\<lambda>i. mem (i + 2)) msg video_pid vs (vs = 0) s1))"

end
