(* ===== verification/Ts_Mux.thy ===== *)
theory Ts_Mux
  imports Ts_Encode Kernel_Format
begin

text \<open>
  From FLV packets to a transport stream (\<open>kernel/srs_kernel_ts.cpp\<close>): the message cache turns the samples of a parsed
  packet into the payload of a PES message, the context writer encodes it, and the transmuxer joins parser, cache and
  writer. \<open>SrsEncFileWriter\<close> encrypts the packets of an HLS segment. AES and the file below it are arguments.
\<close>

section \<open>Message cache\<close>

record SrsTsMessageCache =
  tsmc_audio :: "SrsTsMessage option"
  tsmc_video :: "SrsTsMessage option"

definition SrsTsMessageCache_new :: SrsTsMessageCache where
  "SrsTsMessageCache_new = \<lparr>tsmc_audio = None, tsmc_video = None\<rparr>"

definition srs_aac_rtmp2ts :: "u8 \<Rightarrow> u8" where
  "srs_aac_rtmp2ts object_type =
     (if object_type = 1 then 0 else if object_type \<in> {5, 29, 2} then 1 else if object_type = 3 then 2 else 3)"

text \<open>The caches below append to the payload of the message.\<close>

definition append_payload :: "u8 list \<Rightarrow> SrsTsMessage \<Rightarrow> SrsTsMessage" where
  "append_payload bs m = m\<lparr>msg_payload := msg_payload m @ bs\<rparr>"

definition do_cache_mp3 :: "SrsParsedAudioPacket \<Rightarrow> SrsTsMessage \<Rightarrow> SrsTsMessage outcome" where
  "do_cache_mp3 frame m = (srs_success, append_payload (concat (pp_samples frame)) m)"

definition adts_header :: "SrsAudioCodecConfig \<Rightarrow> u32 \<Rightarrow> u8 list" where
  "adts_header codec len =
     [0xff, 0xf9,
      (push_bit 6 (srs_aac_rtmp2ts (aco_object codec)) AND 0xc0) OR (push_bit 2 (aac_sample_rate codec) AND 0x3c) OR
        (drop_bit 2 (aac_channels codec) AND 0x01),
      (push_bit 6 (aac_channels codec) AND 0xc0) OR (ucast (drop_bit 11 len) AND 0x03),
      ucast (drop_bit 3 len AND 0xff),
      ucast (push_bit 5 len AND 0xe0) OR 0x1f,
      0xfc]"

fun cache_aac_samples :: "SrsAudioCodecConfig \<Rightarrow> u8 list list \<Rightarrow> SrsTsMessage \<Rightarrow> SrsTsMessage outcome" where
  "cache_aac_samples codec [] m = (srs_success, m)"
| "cache_aac_samples codec (d # ds) m =
     (if d = [] \<or> length d > 0x1fff then (Inl ERROR_HLS_AAC_FRAME_LENGTH, m)
      else cache_aac_samples codec ds (append_payload (adts_header codec (of_nat (length d) + 7) @ d) m))"

definition do_cache_aac :: "SrsAudioCodecConfig \<Rightarrow> SrsParsedAudioPacket \<Rightarrow> SrsTsMessage \<Rightarrow> SrsTsMessage outcome" where
  "do_cache_aac codec frame = cache_aac_samples codec (pp_samples frame)"

text \<open>\<open>aud_inserted\<close> is passed by value, so the assignment to it is lost for the caller.\<close>

definition srs_avc_insert_aud :: "bool \<Rightarrow> SrsTsMessage \<Rightarrow> SrsTsMessage" where
  "srs_avc_insert_aud aud_inserted = append_payload (if \<not> aud_inserted then [0x00, 0x00, 0x00, 0x01] else [0x00, 0x00, 0x01])"

definition insert_nalu :: "bool \<Rightarrow> u8 list \<Rightarrow> SrsTsMessage \<Rightarrow> SrsTsMessage" where
  "insert_nalu aud_inserted u m = append_payload u (srs_avc_insert_aud aud_inserted m)"

fun cache_avc_samples ::
    "SrsVideoCodecConfig \<Rightarrow> bool \<Rightarrow> bool \<Rightarrow> bool \<Rightarrow> u8 list list \<Rightarrow> SrsTsMessage \<Rightarrow> SrsTsMessage outcome" where
  "cache_avc_samples codec has_sets aud_inserted sets_appended [] m = (srs_success, m)"
| "cache_avc_samples codec has_sets aud_inserted sets_appended ([] # ds) m = (Inl ERROR_HLS_AVC_SAMPLE_SIZE, m)"
| "cache_avc_samples codec has_sets aud_inserted sets_appended ((x # d) # ds) m =
     (let sets = x AND 0x1f = 5 \<and> \<not> has_sets \<and> \<not> sets_appended;
          add = (\<lambda>u m. if u \<noteq> [] then insert_nalu aud_inserted u m else m);
          m1 = (if sets then add (pictureParameterSetNALUnit codec) (add (sequenceParameterSetNALUnit codec) m) else m)
      in cache_avc_samples codec has_sets aud_inserted (sets_appended \<or> sets) ds (insert_nalu aud_inserted (x # d) m1))"

definition do_cache_avc :: "SrsVideoCodecConfig \<Rightarrow> SrsParsedVideoPacket \<Rightarrow> SrsTsMessage \<Rightarrow> SrsTsMessage outcome" where
  "do_cache_avc codec frame m =
     (let aud_inserted = False;
          m1 = (if \<not> has_aud frame then insert_nalu aud_inserted [0x09, 0xf0] m else m)
      in cache_avc_samples codec (has_sps_pps frame) aud_inserted False (pp_samples frame) m1)"

fun insert_sets :: "bool \<Rightarrow> SrsHevcHvccNalu list \<Rightarrow> SrsTsMessage \<Rightarrow> bool \<times> SrsTsMessage" where
  "insert_sets aud_inserted [] m = (False, m)"
| "insert_sets aud_inserted (nalu # ns) m =
     (if num_nalus nalu \<le> 0 \<or> nal_data_vec nalu = [] then insert_sets aud_inserted ns m
      else (True, snd (insert_sets aud_inserted ns (insert_nalu aud_inserted (nal_unit_data (hd (nal_data_vec nalu))) m))))"

fun cache_hevc_samples ::
    "SrsVideoCodecConfig \<Rightarrow> bool \<Rightarrow> bool \<Rightarrow> bool \<Rightarrow> u8 list list \<Rightarrow> SrsTsMessage \<Rightarrow> SrsTsMessage outcome" where
  "cache_hevc_samples codec has_sets aud_inserted sets_appended [] m = (srs_success, m)"
| "cache_hevc_samples codec has_sets aud_inserted sets_appended ([] # ds) m = (Inl ERROR_HLS_AVC_SAMPLE_SIZE, m)"
| "cache_hevc_samples codec has_sets aud_inserted sets_appended ((x # d) # ds) m =
     (let (appended, m1) =
        (if SrsIsIRAP (SrsHevcNaluTypeParse x) \<and> \<not> has_sets \<and> \<not> sets_appended
         then insert_sets aud_inserted (nalu_vec (hevc_dec_conf_record codec)) m else (False, m))
      in cache_hevc_samples codec has_sets aud_inserted (sets_appended \<or> appended) ds (insert_nalu aud_inserted (x # d) m1))"

definition do_cache_hevc :: "SrsVideoCodecConfig \<Rightarrow> SrsParsedVideoPacket \<Rightarrow> SrsTsMessage \<Rightarrow> SrsTsMessage outcome" where
  "do_cache_hevc codec frame = cache_hevc_samples codec (has_sps_pps frame) False False (pp_samples frame)"

text \<open>
  The packet's pointer to the codec is an argument. A message created here belongs to no channel; \<open>0\<close> stands for its
  null pointer.
\<close>

definition cache_audio :: "SrsAudioCodecConfig \<Rightarrow> SrsParsedAudioPacket \<Rightarrow> u64 \<Rightarrow> SrsTsMessageCache \<Rightarrow> SrsTsMessageCache outcome" where
  "cache_audio codec frame dts c =
     (let m0 = (case tsmc_audio c of
                  None \<Rightarrow> (SrsTsMessage_new 0)\<lparr>msg_write_pcr := False, msg_dts := dts, msg_pts := dts, msg_start_pts := dts\<rparr>
                | Some m \<Rightarrow> m);
          m = m0\<lparr>msg_sid := 0xc0\<rparr>;
          done = (\<lambda>r. (fst r, c\<lparr>tsmc_audio := Some (snd r)\<rparr>))
      in if \<not> (aco_id codec = 10 \<or> aco_id codec = 2) then done (Inl ASSERT_FAILED, m)
         else if aco_id codec = 10 then done (do_cache_aac codec frame m)
         else done (do_cache_mp3 frame m))"

definition cache_video :: "SrsVideoCodecConfig \<Rightarrow> SrsParsedVideoPacket \<Rightarrow> u64 \<Rightarrow> SrsTsMessageCache \<Rightarrow> SrsTsMessageCache outcome" where
  "cache_video codec frame dts c =
     (let m0 = (case tsmc_video c of
                  None \<Rightarrow> (SrsTsMessage_new 0)\<lparr>msg_write_pcr := (pvp_frame_type frame = 1), msg_start_pts := dts\<rparr>
                | Some m \<Rightarrow> m);
          m = m0\<lparr>msg_dts := dts, msg_pts := dts + scast (pp_cts frame * 90), msg_sid := 0xe0\<rparr>;
          r = (if vco_id codec = 12 then do_cache_hevc codec frame m else do_cache_avc codec frame m)
      in (fst r, c\<lparr>tsmc_video := Some (snd r)\<rparr>))"

section \<open>Context writer\<close>

text \<open>\<open>writer_\<close> and \<open>context_\<close> are pointers to objects of the caller, passed along as state.\<close>

record SrsTsContextWriter =
  tscw_acodec :: u8
  tscw_vcodec :: u8

definition SrsTsContextWriter_new :: "u8 \<Rightarrow> u8 \<Rightarrow> SrsTsContextWriter" where
  "SrsTsContextWriter_new ac vc = \<lparr>tscw_acodec = ac, tscw_vcodec = vc\<rparr>"

definition tscw_write ::
    "'w stream_writer \<Rightarrow> (nat \<Rightarrow> nat \<Rightarrow> u8) \<Rightarrow> SrsTsContextWriter \<Rightarrow> SrsTsMessage \<Rightarrow> SrsTsContext \<times> 'w \<Rightarrow>
      (SrsTsContext \<times> 'w) outcome" where
  "tscw_write wr mem tscw msg = ts_encode wr mem msg (tscw_vcodec tscw) (tscw_acodec tscw)"

section \<open>Transmuxer\<close>

record 'w SrsTsTransmuxer =
  tmx_format :: SrsFormat
  tmx_tsmc :: SrsTsMessageCache
  tmx_tscw :: "SrsTsContextWriter option"
  tmx_context :: SrsTsContext
  tmx_writer :: 'w
  tmx_has_audio :: bool
  tmx_has_video :: bool
  tmx_guess_has_av :: bool

definition SrsTsTransmuxer_new :: "'w \<Rightarrow> 'w SrsTsTransmuxer" where
  "SrsTsTransmuxer_new w = \<lparr>tmx_format = SrsFormat_new, tmx_tsmc = SrsTsMessageCache_new, tmx_tscw = None,
     tmx_context = SrsTsContext_new, tmx_writer = w, tmx_has_audio = True, tmx_has_video = True, tmx_guess_has_av = True\<rparr>"

definition set_has_audio :: "bool \<Rightarrow> 'w SrsTsTransmuxer \<Rightarrow> 'w SrsTsTransmuxer" where
  "set_has_audio v t = t\<lparr>tmx_has_audio := v,
     tmx_tscw := (if v then tmx_tscw t else map_option (tscw_acodec_update (\<lambda>_. 16)) (tmx_tscw t))\<rparr>"

definition set_has_video :: "bool \<Rightarrow> 'w SrsTsTransmuxer \<Rightarrow> 'w SrsTsTransmuxer" where
  "set_has_video v t = t\<lparr>tmx_has_video := v,
     tmx_tscw := (if v then tmx_tscw t else map_option (tscw_vcodec_update (\<lambda>_. 0)) (tmx_tscw t))\<rparr>"

definition set_guess_has_av :: "bool \<Rightarrow> 'w SrsTsTransmuxer \<Rightarrow> 'w SrsTsTransmuxer" where
  "set_guess_has_av v t = t\<lparr>tmx_guess_has_av := v,
     tmx_tscw := (if v then map_option (\<lambda>c. c\<lparr>tscw_acodec := 16, tscw_vcodec := 0\<rparr>) (tmx_tscw t) else tmx_tscw t)\<rparr>"

definition tmx_initialize :: "SrsVideoCodecConfig \<Rightarrow> 'w SrsTsTransmuxer \<Rightarrow> 'w SrsTsTransmuxer" where
  "tmx_initialize vmem t =
     (let acodec = (if tmx_guess_has_av t then 16 else if tmx_has_audio t then 10 else 16);
          vcodec = (if tmx_guess_has_av t then 0 else if tmx_has_video t then 7 else 0)
      in t\<lparr>tmx_format := fmt_initialize vmem (tmx_format t), tmx_tscw := Some (SrsTsContextWriter_new acodec vcodec)\<rparr>)"

text \<open>\<open>flush_audio\<close> and \<open>flush_video\<close>: on an error the message stays in the cache.\<close>

definition tmx_encode :: "'w stream_writer \<Rightarrow> (nat \<Rightarrow> nat \<Rightarrow> u8) \<Rightarrow> SrsTsMessage option \<Rightarrow> 'w SrsTsTransmuxer \<Rightarrow> 'w SrsTsTransmuxer outcome" where
  "tmx_encode wr mem msg t =
     (case (tmx_tscw t, msg) of
        (Some tscw, Some m) \<Rightarrow>
          (case tscw_write wr mem tscw m (tmx_context t, tmx_writer t) of
             (r, ctx, w) \<Rightarrow> (r, t\<lparr>tmx_context := ctx, tmx_writer := w\<rparr>))
      | _ \<Rightarrow> (Inl UNDEFINED_READ, t))"

definition flush_audio :: "'w stream_writer \<Rightarrow> (nat \<Rightarrow> nat \<Rightarrow> u8) \<Rightarrow> 'w SrsTsTransmuxer \<Rightarrow> 'w SrsTsTransmuxer outcome" where
  "flush_audio wr mem t = and_then (tmx_encode wr mem (tsmc_audio (tmx_tsmc t)) t) (\<lambda>t1.
     (srs_success, t1\<lparr>tmx_tsmc := (tmx_tsmc t1)\<lparr>tsmc_audio := None\<rparr>\<rparr>))"

definition flush_video :: "'w stream_writer \<Rightarrow> (nat \<Rightarrow> nat \<Rightarrow> u8) \<Rightarrow> 'w SrsTsTransmuxer \<Rightarrow> 'w SrsTsTransmuxer outcome" where
  "flush_video wr mem t = and_then (tmx_encode wr mem (tsmc_video (tmx_tsmc t)) t) (\<lambda>t1.
     (srs_success, t1\<lparr>tmx_tsmc := (tmx_tsmc t1)\<lparr>tsmc_video := None\<rparr>\<rparr>))"

definition tmx_write_audio ::
    "'w stream_writer \<Rightarrow> (nat \<Rightarrow> nat \<Rightarrow> u8) \<Rightarrow> int \<Rightarrow> u8 list \<Rightarrow> 'w SrsTsTransmuxer \<Rightarrow> 'w SrsTsTransmuxer outcome" where
  "tmx_write_audio wr mem timestamp data t0 =
     and_then (case on_audio timestamp data (tmx_format t0) of (r, f) \<Rightarrow> (r, t0\<lparr>tmx_format := f\<rparr>)) (\<lambda>t.
       case fmt_acodec (tmx_format t) of None \<Rightarrow> (srs_success, t)
       | Some a \<Rightarrow>
         (case fmt_audio (tmx_format t) of None \<Rightarrow> (Inl ASSERT_FAILED, t)
          | Some p \<Rightarrow>
            if aco_id a \<noteq> 10 \<and> aco_id a \<noteq> 2 then (srs_success, t)
            else if aco_id a = 10 \<and> pap_aac_packet_type p = 0 then (srs_success, t)
            else case tmx_tscw t of None \<Rightarrow> (Inl UNDEFINED_READ, t)
            | Some tscw \<Rightarrow>
              (let t1 = (if tscw_acodec tscw \<noteq> aco_id a then t\<lparr>tmx_tscw := Some (tscw\<lparr>tscw_acodec := aco_id a\<rparr>)\<rparr> else t) in
               and_then (case cache_audio a p (of_int (timestamp * 90)) (tmx_tsmc t1) of (r, c) \<Rightarrow> (r, t1\<lparr>tmx_tsmc := c\<rparr>))
                 (flush_audio wr mem))))"

definition tmx_write_video ::
    "'w stream_writer \<Rightarrow> (nat \<Rightarrow> nat \<Rightarrow> u8) \<Rightarrow> SrsVideoCodecConfig \<Rightarrow> int \<Rightarrow> u8 list \<Rightarrow> 'w SrsTsTransmuxer \<Rightarrow>
      'w SrsTsTransmuxer outcome" where
  "tmx_write_video wr mem vmem timestamp data t0 =
     and_then (case on_video vmem timestamp data (tmx_format t0) of (r, f) \<Rightarrow> (r, t0\<lparr>tmx_format := f\<rparr>)) (\<lambda>t.
       case fmt_vcodec (tmx_format t) of None \<Rightarrow> (srs_success, t)
       | Some v \<Rightarrow>
         (case fmt_video (tmx_format t) of None \<Rightarrow> (Inl ASSERT_FAILED, t)
          | Some p \<Rightarrow>
            if pvp_frame_type p = 5 then (srs_success, t)
            else if \<not> (vco_id v = 7 \<or> vco_id v = 12) then (srs_success, t)
            else case tmx_tscw t of None \<Rightarrow> (Inl UNDEFINED_READ, t)
            | Some tscw \<Rightarrow>
              (let t1 = t\<lparr>tmx_tscw := Some (tscw\<lparr>tscw_vcodec := vco_id v\<rparr>)\<rparr> in
               if pvp_frame_type p = 1 \<and> pvp_avc_packet_type p = 0 then (srs_success, t1)
               else and_then (case cache_video v p (of_int (timestamp * 90)) (tmx_tsmc t1) of (r, c) \<Rightarrow> (r, t1\<lparr>tmx_tsmc := c\<rparr>))
                      (flush_video wr mem))))"

section \<open>Encrypted segments\<close>

text \<open>
  \<open>aes k iv bs\<close> stands for \<open>AES_cbc_encrypt\<close>: the cipher text and the vector for the next call. \<open>set_key\<close> stands for
  \<open>AES_set_encrypt_key\<close>, and \<open>wr\<close> and \<open>close_file\<close> for \<open>SrsFileWriter\<close>. \<open>ef_buf\<close> holds the \<open>nb_buf\<close> bytes that are pending.
\<close>

type_synonym 'k aes_cbc = "'k \<Rightarrow> u8 list \<Rightarrow> u8 list \<Rightarrow> u8 list \<times> u8 list"

record ('k, 'w) SrsEncFileWriter =
  ef_key :: 'k
  ef_iv :: "u8 list"
  ef_buf :: "u8 list"
  ef_file :: 'w

definition SrsEncFileWriter_new :: "'k \<Rightarrow> 'w \<Rightarrow> ('k, 'w) SrsEncFileWriter" where
  "SrsEncFileWriter_new k w = \<lparr>ef_key = k, ef_iv = replicate 16 0, ef_buf = [], ef_file = w\<rparr>"

definition HLS_AES_ENCRYPT_BLOCK_LENGTH :: nat where
  "HLS_AES_ENCRYPT_BLOCK_LENGTH = 188 * 4"

definition enc_flush :: "'k aes_cbc \<Rightarrow> 'w stream_writer \<Rightarrow> u8 list \<Rightarrow> ('k, 'w) SrsEncFileWriter \<Rightarrow> ('k, 'w) SrsEncFileWriter outcome" where
  "enc_flush aes wr bs e =
     (let (cipher, iv) = aes (ef_key e) (ef_iv e) bs; (r, w) = wr (ef_file e) cipher
      in (r, e\<lparr>ef_buf := [], ef_iv := iv, ef_file := w\<rparr>))"

definition enc_write :: "'k aes_cbc \<Rightarrow> 'w stream_writer \<Rightarrow> ('k, 'w) SrsEncFileWriter \<Rightarrow> u8 list \<Rightarrow> unit res \<times> ('k, 'w) SrsEncFileWriter" where
  "enc_write aes wr e data =
     (if length data \<noteq> 188 then (Inl ASSERT_FAILED, e)
      else (let e1 = (if length (ef_buf e) < HLS_AES_ENCRYPT_BLOCK_LENGTH then e\<lparr>ef_buf := ef_buf e @ data\<rparr> else e) in
            if length (ef_buf e1) = HLS_AES_ENCRYPT_BLOCK_LENGTH then enc_flush aes wr (ef_buf e1) e1
            else (srs_success, e1)))"

definition config_cipher :: "(u8 list \<Rightarrow> 'k option) \<Rightarrow> u8 list \<Rightarrow> u8 list \<Rightarrow> ('k, 'w) SrsEncFileWriter \<Rightarrow> ('k, 'w) SrsEncFileWriter outcome" where
  "config_cipher set_key key iv e =
     (case set_key key of
        None \<Rightarrow> (Inl ERROR_SYSTEM_FILE_WRITE, e\<lparr>ef_iv := take 16 iv\<rparr>)
      | Some k \<Rightarrow> (srs_success, e\<lparr>ef_iv := take 16 iv, ef_key := k\<rparr>))"

definition enc_close :: "'k aes_cbc \<Rightarrow> 'w stream_writer \<Rightarrow> ('w \<Rightarrow> 'w) \<Rightarrow> ('k, 'w) SrsEncFileWriter \<Rightarrow> ('k, 'w) SrsEncFileWriter" where
  "enc_close aes wr close_file e =
     (let nb_padding = 16 - length (ef_buf e) mod 16;
          e1 = (if length (ef_buf e) > 0
                then snd (enc_flush aes wr (ef_buf e @ replicate nb_padding (of_nat nb_padding)) e) else e)
      in e1\<lparr>ef_file := close_file (ef_file e1)\<rparr>)"

end
