(* ===== verification/Ts_Encode_Props.thy ===== *)
theory Ts_Encode_Props
  imports Ts_Encode
begin

text \<open>
  The bytes that the transport stream encoder writes. \<open>fills\<close> and \<open>puts\<close> say what a write operation leaves in the
  block, with the lemmas that compose them; the 33 bit times, the PES header, the adaptation field and the packet are
  then lists of bytes. \<open>pes_loop_step\<close> is one round of the loop over the payload.
\<close>

lemma be_word_byte_of: "be_word [byte_of w 1, byte_of w 0] = (ucast (w :: u64) :: u16)"
proof (rule bit_word_eqI)
  fix k assume "k < LENGTH(16)"
  then have "k < 16" by simp
  then have "k div 8 = 0 \<and> k mod 8 = k \<and> k < 8 \<or> k div 8 = 1 \<and> k mod 8 = k - 8 \<and> 8 \<le> k"
    by (cases "k < 8") (auto simp: le_div_geq le_mod_geq)
  then show "bit (be_word [byte_of w 1, byte_of w 0] :: u16) k \<longleftrightarrow> bit (ucast w :: u16) k"
    using \<open>k < 16\<close> by (auto simp: be_word_def bit_le_word bit_byte_of bit_ucast_iff nth_Cons' simp del: le_word.simps)
qed

lemma bit_mask_7: "bit (0x07 :: u64) n \<longleftrightarrow> n < 3" "bit (0x7fff :: u64) n \<longleftrightarrow> n < 15"
   "bit (0x07 :: u8) n \<longleftrightarrow> n < 3" "bit (0x7fff :: u16) n \<longleftrightarrow> n < 15"
   "bit (0x3fff8000 :: u64) n \<longleftrightarrow> 15 \<le> n \<and> n < 30"
   "bit (0x1c0000000 :: u64) n \<longleftrightarrow> 30 \<le> n \<and> n < 33"
proof -
  have a: "(0x07 :: u64) = mask 3" "(0x7fff :: u64) = mask 15" "(0x07 :: u8) = mask 3" "(0x7fff :: u16) = mask 15"
    "(0x3fff8000 :: u64) = push_bit 15 (mask 15)" "(0x1c0000000 :: u64) = push_bit 30 (mask 3)"
    by (simp_all add: mask_eq_exp_minus_1 push_bit_eq_mult)
  show "bit (0x07 :: u64) n \<longleftrightarrow> n < 3" "bit (0x7fff :: u64) n \<longleftrightarrow> n < 15"
   "bit (0x07 :: u8) n \<longleftrightarrow> n < 3" "bit (0x7fff :: u16) n \<longleftrightarrow> n < 15"
   "bit (0x3fff8000 :: u64) n \<longleftrightarrow> 15 \<le> n \<and> n < 30"
   "bit (0x1c0000000 :: u64) n \<longleftrightarrow> 30 \<le> n \<and> n < 33"
    unfolding a by (auto simp: bit_mask_iff bit_push_bit_iff)
qed


lemma time_bits: "bit (1 :: u64) n \<longleftrightarrow> n = 0" "bit (1 :: u8) n \<longleftrightarrow> n = 0" "bit (1 :: u16) n \<longleftrightarrow> n = 0"
    "bit (0xf :: u8) n \<longleftrightarrow> n < 4" "bit (push_bit 1 x) n \<longleftrightarrow> 0 < n \<and> n < 64 \<and> bit x (n - 1)" for x :: u64
proof -
  have "(0xf :: u8) = mask 4" by (simp add: mask_eq_exp_minus_1)
  then show "bit (0xf :: u8) n \<longleftrightarrow> n < 4" by (simp only: bit_mask_iff) auto
  show "bit (push_bit 1 x) n \<longleftrightarrow> 0 < n \<and> n < 64 \<and> bit x (n - 1)" by (auto simp only: bit_push_bit_iff) auto
qed (simp_all add: bit_1_iff)

lemmas time_bit_simps = bit_and_iff bit_or_iff bit_byte_of bit_drop_bit_eq bit_ucast_iff time_bits bit_mask_7 o_apply

definition first_val :: "u8 \<Rightarrow> u64 \<Rightarrow> u64" where
  "first_val fb x = push_bit 4 (ucast fb) OR push_bit 1 (x AND 0x07) OR 1"

definition pair_val :: "u64 \<Rightarrow> u64" where
  "pair_val x = push_bit 1 (x AND 0x7fff) OR 1"

lemma bit_first_val: "bit (first_val fb x) n \<longleftrightarrow> n = 0 \<or> 0 < n \<and> n < 4 \<and> bit x (n - 1) \<or> 4 \<le> n \<and> n < 64 \<and> bit fb (n - 4)"
  unfolding first_val_def bit_or_iff time_bits bit_and_iff bit_mask_7
  by (auto simp: bit_push_bit_iff bit_ucast_iff)

lemma bit_pair_val: "bit (pair_val x) n \<longleftrightarrow> n = 0 \<or> 0 < n \<and> n < 16 \<and> bit x (n - 1)"
  unfolding pair_val_def bit_or_iff time_bits bit_and_iff bit_mask_7 by auto

lemma time_first_byte:
  assumes "fb \<in> {1, 2, 3}"
  shows "byte_of (first_val fb x) 0 AND 0x01 = 0x01" "drop_bit 4 (byte_of (first_val fb x) 0) AND 0x0f \<noteq> 0"
    "ucast (drop_bit 1 (byte_of (first_val fb x) 0) AND 0x07) = x AND 0x07"
proof -
  show "byte_of (first_val fb x) 0 AND 0x01 = 0x01" and "ucast (drop_bit 1 (byte_of (first_val fb x) 0) AND 0x07) = x AND 0x07"
    by (rule bit_word_eqI; simp only: time_bit_simps bit_first_val; auto)+
  have "drop_bit 4 (byte_of (first_val fb x) 0) AND 0x0f = fb AND 0x0f"
    by (rule bit_word_eqI) (simp only: time_bit_simps bit_first_val; auto)
  then show "drop_bit 4 (byte_of (first_val fb x) 0) AND 0x0f \<noteq> 0" using assms by auto
qed

lemma time_pair:
  "(ucast (pair_val x) :: u16) AND 0x01 = 0x01"
  "ucast (drop_bit 1 (ucast (pair_val x) :: u16) AND 0x7fff) = x AND 0x7fff"
  by (rule bit_word_eqI; simp only: time_bit_simps bit_pair_val; auto)+

lemma time_assemble:
  "(push_bit 30 (drop_bit 30 v AND 0x07) AND 0x1c0000000) OR (push_bit 15 (drop_bit 15 v AND 0x7fff) AND 0x3fff8000) OR
     ((v AND 0x7fff) AND 0x7fff) = take_bit 33 (v :: u64)"
proof (rule bit_word_eqI)
  fix n
  assume "n < LENGTH(64)"
  then show "bit ((push_bit 30 (drop_bit 30 v AND 0x07) AND 0x1c0000000) OR
      (push_bit 15 (drop_bit 15 v AND 0x7fff) AND 0x3fff8000) OR ((v AND 0x7fff) AND 0x7fff)) n = bit (take_bit 33 v) n"
    by (cases "n < 15"; cases "n < 30"; cases "n < 33")
      (simp_all only: time_bit_simps bit_push_bit_iff bit_take_bit_iff, auto)
qed

definition time_bytes :: "u8 \<Rightarrow> u64 \<Rightarrow> u8 list" where
  "time_bytes fb v = byte_of (first_val fb (drop_bit 30 v)) 0 #
     [byte_of (pair_val (drop_bit 15 v)) 1, byte_of (pair_val (drop_bit 15 v)) 0,
      byte_of (pair_val v) 1, byte_of (pair_val v) 0]"

lemma decode_33bits_time_bytes:
  assumes b: "buf_inv b" "remaining b = time_bytes fb v @ r" and fb: "fb \<in> {1, 2, 3}"
  shows "decode_33bits_dts_pts b = Inr (take_bit 33 v, advance 5 b)" "buf_inv (advance 5 b)" "remaining (advance 5 b) = r"
proof -
  note split = b(2) [unfolded time_bytes_def append_Cons append_Nil]
  note b1 = read_1_Cons [OF b(1) split]
  note b2 = read_2_any [OF b1(2,3), unfolded be_word_byte_of]
  note b3 = read_2_any [OF b2(2,3), unfolded be_word_byte_of]
  have r: "require 5 b" using b by (simp add: require_remaining time_bytes_def)
  have a: "advance 2 (advance 2 (advance 1 b)) = advance 5 b" by (simp add: advance_def)
  show "decode_33bits_dts_pts b = Inr (take_bit 33 v, advance 5 b)"
    using r time_first_byte(2) [OF fb, of "drop_bit 30 v"]
    unfolding decode_33bits_dts_pts_def b1(1) res_bind_simps prod.case b2(1) b3(1) Let_def
      time_first_byte(1,3) [OF fb] time_pair time_assemble a by simp
  show "buf_inv (advance 5 b)" "remaining (advance 5 b) = r" using b3(2,3) a by simp_all
qed

section \<open>What a write leaves in the block\<close>

text \<open>\<open>w\<close> turns the next bytes \<open>xs\<close> of the block into \<open>vs\<close>.\<close>

definition fills :: "(SrsBuffer \<Rightarrow> SrsBuffer res) \<Rightarrow> u8 list \<Rightarrow> u8 list \<Rightarrow> bool" where
  "fills w xs vs \<longleftrightarrow> length vs = length xs \<and> (\<forall>b r. buf_inv b \<longrightarrow> remaining b = xs @ r \<longrightarrow>
     (\<exists>b'. w b = Inr b' \<and> buf_inv b' \<and> written b' = written b @ vs \<and> remaining b' = r))"

definition fillc ::
    "(SrsBuffer \<Rightarrow> SrsTsContext \<Rightarrow> psi_result) \<Rightarrow> u8 list \<Rightarrow> u8 list \<Rightarrow> SrsTsContext \<Rightarrow> SrsTsContext \<Rightarrow> bool" where
  "fillc w xs vs ctx ctx' \<longleftrightarrow> length vs = length xs \<and> (\<forall>b r. buf_inv b \<longrightarrow> remaining b = xs @ r \<longrightarrow>
     (\<exists>b'. w b ctx = (Inr b', ctx') \<and> buf_inv b' \<and> written b' = written b @ vs \<and> remaining b' = r))"

lemma fills_put: "length xs = length vs \<Longrightarrow> fills (put_bytes vs) xs vs"
  unfolding fills_def
proof (intro conjI allI impI, goal_cases)
  case (2 b r)
  let ?i = "nat (buf_p b)"
  have l: "?i + length vs + length r = length (buf_bytes b)"
    using 2(1,2) arg_cong [OF 2(3) [unfolded remaining_def], of length] by (auto simp: buf_inv_def)
  have "drop (?i + length vs) (buf_bytes b) = drop (length vs) (remaining b)"
    by (simp add: remaining_def add.commute)
  then have "drop (?i + length vs) (buf_bytes b) = r" using 2 by simp
  with l 2 show ?case
    by (auto simp: put_bytes_def require_def buf_inv_def written_def remaining_def nat_add_distrib)
qed simp

lemma fills_skip: "fills (skip (int (length xs))) xs xs"
  unfolding fills_def
proof (intro conjI allI impI, goal_cases)
  case (2 b r)
  then have a: "length xs \<le> length (remaining b)" by simp
  have "written (advance (length xs) b) = written b @ take (length xs) (remaining b)"
    using 2(1) a by (simp add: written_def advance_def remaining_def buf_inv_def nat_add_distrib take_add)
  with advance_ok [OF 2(1) a] 2 show ?case by simp
qed simp

lemma fills_write:
  "fills (write_1bytes v1) [x] [v1]"
  "length xs = 2 \<Longrightarrow> fills (write_2bytes v2) xs (be_bytes 2 v2)"
  "length xs = 3 \<Longrightarrow> fills (write_3bytes v4) xs (be_bytes 3 v4)"
  "length xs = 4 \<Longrightarrow> fills (write_4bytes v4) xs (be_bytes 4 v4)"
  using fills_put
  by (simp_all add: write_1bytes_def [abs_def] write_2bytes_def [abs_def] write_3bytes_def [abs_def]
      write_4bytes_def [abs_def] be_bytes_def le_bytes_def upt_widths)

lemma fills_bind:
  assumes "fills w xs vs" "fills k ys us"
  shows "fills (\<lambda>b. res_bind (w b) k) (xs @ ys) (vs @ us)"
  unfolding fills_def
proof (intro conjI allI impI, goal_cases)
  case (2 b r)
  obtain b1 where b1: "w b = Inr b1" "buf_inv b1" "written b1 = written b @ vs" "remaining b1 = ys @ r"
    using assms(1) 2 unfolding fills_def by (metis append.assoc)
  obtain b2 where "k b1 = Inr b2" "buf_inv b2" "written b2 = written b1 @ us" "remaining b2 = r"
    using assms(2) b1 unfolding fills_def by metis
  with b1 show ?case by auto
qed (use assms in \<open>simp add: fills_def\<close>)

lemma fills_require:
  "0 \<le> n \<Longrightarrow> n \<le> int (length xs) \<Longrightarrow> fills w xs vs \<Longrightarrow> fills (\<lambda>b. if \<not> require n b then Inl e else w b) xs vs"
  unfolding fills_def by (auto simp: require_remaining)

lemma fills_Inr: "fills Inr [] []"
  by (auto simp: fills_def)

lemma fills_opt:
  "c \<Longrightarrow> fills w xs vs \<Longrightarrow> fills (opt c w) xs vs"
  "\<not> c \<Longrightarrow> fills (opt c w) [] []"
  by (auto simp: fills_def opt_def)

lemma fillc_with_res:
  assumes "fills w xs vs" "fillc k ys us ctx ctx'"
  shows "fillc (\<lambda>b ctx. with_res (w b) ctx (\<lambda>b1. k b1 ctx)) (xs @ ys) (vs @ us) ctx ctx'"
  unfolding fillc_def
proof (intro conjI allI impI, goal_cases)
  case (2 b r)
  obtain b1 where b1: "w b = Inr b1" "buf_inv b1" "written b1 = written b @ vs" "remaining b1 = ys @ r"
    using assms(1) 2 unfolding fills_def by (metis append.assoc)
  obtain b2 where "k b1 ctx = (Inr b2, ctx')" "buf_inv b2" "written b2 = written b1 @ us" "remaining b2 = r"
    using assms(2) b1 unfolding fillc_def by metis
  with b1 show ?case by auto
qed (use assms in \<open>simp add: fills_def fillc_def\<close>)

lemma fillc_require:
  "0 \<le> n \<Longrightarrow> n \<le> int (length xs) \<Longrightarrow> fillc w xs vs ctx ctx' \<Longrightarrow>
   fillc (\<lambda>b ctx. if \<not> require n b then (Inl e, ctx) else w b ctx) xs vs ctx ctx'"
  unfolding fillc_def by (auto simp: require_remaining)

lemma fillc_block:
  assumes "fillc w xs vs ctx ctx'"
  shows "\<exists>s. w (SrsBuffer_new xs) ctx = (Inr s, ctx') \<and> buf_bytes s = vs"
proof -
  obtain b' where b': "w (SrsBuffer_new xs) ctx = (Inr b', ctx')" "buf_inv b'" "written b' = vs" "remaining b' = []"
    using assms unfolding fillc_def
    by (metis (no_types, opaque_lifting) SrsBuffer_new_def append.right_neutral append_Nil buf_inv_new nat_zero_as_int
        remaining_new written_def take_0 of_nat_0 SrsBuffer.select_convs(1,2))
  then have "buf_bytes b' = vs"
    unfolding written_def remaining_def by (metis append.right_neutral append_take_drop_id)
  with b'(1) show ?thesis by blast
qed


text \<open>An operation that writes all the bytes it moves over.\<close>

definition puts :: "(SrsBuffer \<Rightarrow> SrsBuffer res) \<Rightarrow> u8 list \<Rightarrow> bool" where
  "puts w vs \<longleftrightarrow> (\<forall>xs. length xs = length vs \<longrightarrow> fills w xs vs)"

lemma putsI: "(\<And>xs. length xs = length vs \<Longrightarrow> fills w xs vs) \<Longrightarrow> puts w vs"
  by (simp add: puts_def)

lemma fills_puts: "puts w vs \<Longrightarrow> length xs = length vs \<Longrightarrow> fills w xs vs"
  by (simp add: puts_def)

lemma puts_put: "puts (put_bytes vs) vs"
  by (rule putsI) (rule fills_put)

lemma puts_write:
  "puts (write_1bytes v1) [v1]" "puts (write_2bytes v2) (be_bytes 2 v2)" "puts (write_3bytes v4) (be_bytes 3 v4)"
  "puts (write_4bytes v4) (be_bytes 4 v4)"
  by (rule putsI; auto intro: fills_write simp: length_Suc_conv)+

lemma puts_bind:
  assumes "puts w vs" "puts k us"
  shows "puts (\<lambda>b. res_bind (w b) k) (vs @ us)"
proof (rule putsI)
  fix xs :: "u8 list"
  assume "length xs = length (vs @ us)"
  then have "fills (\<lambda>b. res_bind (w b) k) (take (length vs) xs @ drop (length vs) xs) (vs @ us)"
    using assms by (intro fills_bind) (auto simp: puts_def)
  then show "fills (\<lambda>b. res_bind (w b) k) xs (vs @ us)" by simp
qed

lemma puts_require:
  "0 \<le> n \<Longrightarrow> n \<le> int (length vs) \<Longrightarrow> puts w vs \<Longrightarrow> puts (\<lambda>b. if \<not> require n b then Inl e else w b) vs"
  by (auto simp: puts_def intro!: fills_require [simplified])

lemma puts_Inr: "puts Inr []"
  by (simp add: puts_def fills_Inr)

lemma opt_simps [simp]: "opt True f = f" "opt False f = Inr"
  by (simp_all add: fun_eq_iff opt_def)

lemma res_bind_Inr [simp]: "res_bind r Inr = r"
  by (cases r) auto

section \<open>The bytes of a PES packet\<close>

lemma encode_33bits_eq: "encode_33bits_dts_pts fb v =
    (\<lambda>b. if \<not> require 5 b then Inl ERROR_STREAM_CASTER_TS_PSE else put_bytes (time_bytes fb v) b)"
  by (simp add: fun_eq_iff encode_33bits_dts_pts_def time_bytes_def first_val_def pair_val_def Let_def del: push_bit_of_1 One_nat_def)

lemma length_time_bytes [simp]: "length (time_bytes fb v) = 5"
  by (simp add: time_bytes_def)

lemma puts_33bits: "puts (encode_33bits_dts_pts fb v) (time_bytes fb v)"
  unfolding encode_33bits_eq by (intro puts_require puts_put) simp_all

definition pes_out :: "u8 \<Rightarrow> u64 \<Rightarrow> u64 \<Rightarrow> nat \<Rightarrow> SrsMpegPESOut" where
  "pes_out sid dts pts n = SrsMpegPESOut_new\<lparr>pes_packet_start_code_prefix := 0x01, pes_stream_id := sid,
     pes_PES_packet_length := (if n > 0xFFFF then 0 else of_nat n),
     pes_PTS_DTS_flags := (if dts = pts then 0x02 else 0x03), pes_pts := pts, pes_dts := dts,
     pes_PES_header_data_length := (if dts = pts then 5 else 10)\<rparr>"

definition times_bytes :: "u64 \<Rightarrow> u64 \<Rightarrow> u8 list" where
  "times_bytes dts pts = (if dts = pts then time_bytes 2 pts else time_bytes 3 pts @ time_bytes 1 dts)"

definition pes_bytes :: "u8 \<Rightarrow> u64 \<Rightarrow> u64 \<Rightarrow> nat \<Rightarrow> u8 list" where
  "pes_bytes sid dts pts n =
     be_bytes 3 (1 :: u32) @ [sid] @ be_bytes 2 (of_int (pes_pplv (pes_out sid dts pts n)) :: u16) @
     [0x80] @ [if dts = pts then 0x80 else 0xC0] @ [if dts = pts then 5 else 10] @ times_bytes dts pts"

lemma pes_out_flags:
  "pes_oocv (pes_out sid dts pts n) = 0x80" "pes_pefv (pes_out sid dts pts n) = (if dts = pts then 0x80 else 0xC0)"
  "pes_opt_required (pes_out sid dts pts n) = (if dts = pts then 5 else 10)"
  by (simp_all add: pes_oocv_def pes_pefv_def pes_opt_required_def pes_out_def SrsMpegPESOut_new_def SrsMpegPES_new_def SrsMpegPES.defs)

lemma pes_out_simps:
  "pes_packet_start_code_prefix (pes_out sid dts pts n) = 1" "pes_stream_id (pes_out sid dts pts n) = sid"
  "pes_PTS_DTS_flags (pes_out sid dts pts n) = (if dts = pts then 2 else 3)"
  "pes_pts (pes_out sid dts pts n) = pts" "pes_dts (pes_out sid dts pts n) = dts"
  "pes_PES_header_data_length (pes_out sid dts pts n) = (if dts = pts then 5 else 10)"
  "pes_ESCR_flag (pes_out sid dts pts n) = 0" "pes_ES_rate_flag (pes_out sid dts pts n) = 0"
  "pes_DSM_trick_mode_flag (pes_out sid dts pts n) = 0" "pes_additional_copy_info_flag (pes_out sid dts pts n) = 0"
  "pes_PES_CRC_flag (pes_out sid dts pts n) = 0" "pes_PES_extension_flag (pes_out sid dts pts n) = 0"
  "pes_nb_stuffings (pes_out sid dts pts n) = 0"
  by (simp_all add: pes_out_def SrsMpegPESOut_new_def SrsMpegPES_new_def SrsMpegPES.defs)

lemma length_pes_bytes: "length (pes_bytes sid dts pts n) = (if dts = pts then 14 else 19)"
  by (simp add: pes_bytes_def times_bytes_def)

lemma puts_pes_encode: "puts (pes_encode (pes_out sid dts pts n)) (pes_bytes sid dts pts n)"
proof -
  let ?p = "pes_out sid dts pts n"
  have t: "puts (\<lambda>b6. if \<not> require (if dts = pts then 5 else 10) b6 then Inl ERROR_STREAM_CASTER_TS_PSE
     else res_bind (opt (pes_PTS_DTS_flags ?p = 2) (encode_33bits_dts_pts 2 pts) b6)
       (opt (pes_PTS_DTS_flags ?p = 3) (\<lambda>b. res_bind (encode_33bits_dts_pts 3 pts b) (encode_33bits_dts_pts 1 dts))))
     (times_bytes dts pts)"
  proof (rule puts_require)
    show "puts (\<lambda>b6. res_bind (opt (pes_PTS_DTS_flags ?p = 2) (encode_33bits_dts_pts 2 pts) b6)
       (opt (pes_PTS_DTS_flags ?p = 3) (\<lambda>b. res_bind (encode_33bits_dts_pts 3 pts b) (encode_33bits_dts_pts 1 dts))))
      (times_bytes dts pts)"
      using puts_33bits [of 2 pts] puts_bind [OF puts_33bits puts_33bits, of 3 pts 1 dts]
      by (cases "dts = pts") (simp_all add: pes_out_simps times_bytes_def)
  qed (simp_all add: times_bytes_def)
  have "puts (\<lambda>b. if \<not> require 6 b then Inl ERROR_STREAM_CASTER_TS_PSE
      else res_bind (write_3bytes 1 b) (\<lambda>b1. res_bind (write_1bytes sid b1) (\<lambda>b2.
        res_bind (write_2bytes (of_int (pes_pplv ?p)) b2) (\<lambda>b3.
        if \<not> require 3 b3 then Inl ERROR_STREAM_CASTER_TS_PSE
        else res_bind (write_1bytes 0x80 b3) (\<lambda>b4. res_bind (write_1bytes (if dts = pts then 0x80 else 0xC0) b4) (\<lambda>b5.
          res_bind (write_1bytes (if dts = pts then 5 else 10) b5) (\<lambda>b6.
          if \<not> require (if dts = pts then 5 else 10) b6 then Inl ERROR_STREAM_CASTER_TS_PSE
          else res_bind (opt (pes_PTS_DTS_flags ?p = 2) (encode_33bits_dts_pts 2 pts) b6)
            (opt (pes_PTS_DTS_flags ?p = 3) (\<lambda>b. res_bind (encode_33bits_dts_pts 3 pts b) (encode_33bits_dts_pts 1 dts))))))))))
      (pes_bytes sid dts pts n)"
    unfolding pes_bytes_def by (intro t puts_write puts_require puts_bind) simp_all
  then show ?thesis
    by (simp add: pes_encode_def [abs_def] pes_out_simps pes_out_flags res_bind_assoc cong: if_cong)
qed


text \<open>The adaptation field with a clock reference or for stuffing only, followed by \<open>k\<close> stuffing bytes.\<close>

definition af_fixed :: "u64 option \<Rightarrow> nat" where
  "af_fixed pcr = (if pcr = None then 2 else 8)"

definition af_out :: "bool \<Rightarrow> u64 option \<Rightarrow> nat \<Rightarrow> SrsTsAdaptationField" where
  "af_out disc pcr k =
     (case pcr of None \<Rightarrow> SrsTsAdaptationField_new
      | Some v \<Rightarrow> SrsTsAdaptationField_new\<lparr>af_discontinuity_indicator := of_bool disc, af_PCR_flag := 1,
          af_program_clock_reference_base := v, af_program_clock_reference_extension := 0\<rparr>)
     \<lparr>nb_af_reserved := int k, af_adaption_field_length := of_nat (af_fixed pcr - 1 + k)\<rparr>"

definition af_head :: "bool \<Rightarrow> u64 option \<Rightarrow> nat \<Rightarrow> u8 list" where
  "af_head disc pcr k = [of_nat (af_fixed pcr - 1 + k)] @ [af_tmpv (af_out disc pcr k)] @
     (case pcr of None \<Rightarrow> [] | Some v \<Rightarrow> be_bytes 6 (af_pcrv (af_out disc pcr k)))"

lemma length_af_head: "length (af_head disc pcr k) = af_fixed pcr"
  by (auto simp: af_head_def af_fixed_def split: option.splits)

lemma af_out_simps:
  "af_adaption_field_length (af_out disc pcr k) = of_nat (af_fixed pcr - 1 + k)"
  "nb_af_reserved (af_out disc pcr k) = int k" "af_PCR_flag (af_out disc pcr k) = of_bool (pcr \<noteq> None)"
  "af_OPCR_flag (af_out disc pcr k) = 0" "af_splicing_point_flag (af_out disc pcr k) = 0"
  "af_transport_private_data_flag (af_out disc pcr k) = 0" "af_adaptation_field_extension_flag (af_out disc pcr k) = 0"
  "nb_af_ext_reserved (af_out disc pcr k) = 0"
  by (auto simp: af_out_def SrsTsAdaptationField_new_def split: option.splits)

lemma af_out_size:
  "af_size (af_out disc pcr k) = (int (af_fixed pcr + k), af_out disc pcr k)"
  "af_size ((af_out disc pcr k)\<lparr>nb_af_reserved := int m\<rparr>) = (int (af_fixed pcr + m), af_out disc pcr m)"
  by (auto simp: af_size_def af_out_def af_fixed_def SrsTsAdaptationField_new_def Let_def split: option.splits)

lemma u8_le: "n < 256 \<Longrightarrow> (of_nat n :: u8) > of_nat m \<longleftrightarrow> n > m mod 256" "n < 256 \<Longrightarrow> (of_nat n :: u8) = 0 \<longleftrightarrow> n = 0"
  by (simp_all add: word_less_nat_alt unat_of_nat word_of_nat_eq_0_iff) (auto simp: dvd_def)

lemma fills_af_encode:
  assumes "af_fixed pcr - 1 + k \<le> 182" "length xs = af_fixed pcr" "length ys = k"
  shows "fills (af_encode 3 (af_out disc pcr k)) (xs @ ys) (af_head disc pcr k @ ys)"
proof -
  let ?af = "af_out disc pcr k"
  have l: "\<not> af_adaption_field_length ?af > 182" "af_adaption_field_length ?af \<noteq> 0"
    using u8_le(1) [of "af_fixed pcr - 1 + k" 182] u8_le(2) [of "af_fixed pcr - 1 + k"] assms(1)
    by (simp_all add: af_out_simps af_fixed_def)
  let ?w = "\<lambda>b. res_bind (write_1bytes (of_nat (af_fixed pcr - 1 + k)) b) (\<lambda>b1.
      res_bind (write_1bytes (af_tmpv ?af) b1) (opt (pcr \<noteq> None) (\<lambda>b. if \<not> require 6 b then Inl ERROR_STREAM_CASTER_TS_AF
        else put_bytes (be_bytes 6 (af_pcrv ?af)) b)))"
  have w: "puts ?w (af_head disc pcr k)"
  proof (cases pcr)
    case None
    then show ?thesis
      using puts_bind [OF puts_write(1) puts_write(1), of "of_nat (af_fixed pcr - 1 + k)" "af_tmpv ?af"]
      by (simp add: af_head_def)
  next
    case (Some v)
    have "puts (\<lambda>b. if \<not> require 6 b then Inl ERROR_STREAM_CASTER_TS_AF else put_bytes (be_bytes 6 (af_pcrv ?af)) b)
        (be_bytes 6 (af_pcrv ?af))"
      by (intro puts_require puts_put) simp_all
    from puts_bind [OF puts_write(1) puts_bind [OF puts_write(1) this], of "of_nat (af_fixed pcr - 1 + k)" "af_tmpv ?af"] Some
    show ?thesis by (simp add: af_head_def)
  qed
  have "fills (opt (int k \<noteq> 0) (skip (int k))) ys ys"
    using fills_skip [of ys] assms(3) by (cases "k = 0") (simp_all add: fills_Inr)
  from fills_bind [OF fills_puts [OF w, of xs] this] assms(2)
  have "fills (\<lambda>b. res_bind (?w b) (opt (int k \<noteq> 0) (skip (int k)))) (xs @ ys) (af_head disc pcr k @ ys)"
    by (simp add: length_af_head)
  from fills_require [OF _ _ this, of 2 ERROR_STREAM_CASTER_TS_AF] assms(2)
  have "fills (\<lambda>b. if \<not> require 2 b then Inl ERROR_STREAM_CASTER_TS_AF
      else res_bind (?w b) (opt (int k \<noteq> 0) (skip (int k)))) (xs @ ys) (af_head disc pcr k @ ys)"
    by (simp add: af_fixed_def split: if_splits)
  moreover have "af_encode 3 ?af = (\<lambda>b. if \<not> require 2 b then Inl ERROR_STREAM_CASTER_TS_AF
      else res_bind (?w b) (opt (int k \<noteq> 0) (skip (int k))))"
    using l unfolding af_encode_def fun_eq_iff by (simp add: af_out_simps res_bind_assoc)
  ultimately show ?thesis by simp
qed

section \<open>The packets of a message\<close>

text \<open>A packet as \<open>size\<close> leaves it: \<open>afo\<close> is the clock reference and the stuffing of its adaptation field.\<close>

type_synonym af_shape = "(u64 option \<times> nat) option"

definition pes_pkt :: "bool \<Rightarrow> u16 \<Rightarrow> u8 \<Rightarrow> bool \<Rightarrow> af_shape \<Rightarrow> SrsMpegPESOut option \<Rightarrow> SrsTsPacketOut" where
  "pes_pkt us pid cc disc afo pes = \<lparr>pk_payload_unit_start_indicator = us, pk_pid = pid,
     pk_adaption_field_control = (if afo = None then 1 else 3), pk_continuity_counter = cc, pk_sync_byte = 0x47,
     pk_transport_error_indicator = 0, pk_transport_priority = 0, pk_transport_scrambling_control = 0,
     pk_adaptation_field = map_option (\<lambda>(pcr, k). af_out disc pcr k) afo, pk_payload = map_option SrsTsPayloadPES pes\<rparr>"

lemma pes_pkt_simps:
  "pk_payload_unit_start_indicator (pes_pkt us pid cc disc afo pes) = us" "pk_pid (pes_pkt us pid cc disc afo pes) = pid"
  "pk_adaption_field_control (pes_pkt us pid cc disc afo pes) = (if afo = None then 1 else 3)"
  "pk_continuity_counter (pes_pkt us pid cc disc afo pes) = cc" "pk_sync_byte (pes_pkt us pid cc disc afo pes) = 0x47"
  "pk_adaptation_field (pes_pkt us pid cc disc afo pes) = map_option (\<lambda>(pcr, k). af_out disc pcr k) afo"
  "pk_payload (pes_pkt us pid cc disc afo pes) = map_option SrsTsPayloadPES pes"
  by (simp_all add: pes_pkt_def)

definition af_total :: "af_shape \<Rightarrow> nat" where
  "af_total afo = (case afo of None \<Rightarrow> 0 | Some (pcr, k) \<Rightarrow> af_fixed pcr + k)"

definition pes_total :: "SrsMpegPESOut option \<Rightarrow> nat" where
  "pes_total pes = (case pes of None \<Rightarrow> 0 | Some p \<Rightarrow> 9 + (if pes_PTS_DTS_flags p = 2 then 5 else 10))"

text \<open>Stream ids of packets with the optional header.\<close>

definition plain_sid :: "u8 \<Rightarrow> bool" where
  "plain_sid sid \<longleftrightarrow> sid \<notin> {0xbc, 0xbe, 0xbf, 0xf0, 0xf1, 0xff, 0xf2, 0xf8}"

definition plain_pes :: "SrsMpegPESOut option \<Rightarrow> bool" where
  "plain_pes pes \<longleftrightarrow> (\<forall>p. pes = Some p \<longrightarrow> (\<exists>sid dts pts n. plain_sid sid \<and> p = pes_out sid dts pts n))"

lemma pes_out_size: "plain_sid sid \<Longrightarrow> pes_size (pes_out sid dts pts n) = (int (pes_total (Some (pes_out sid dts pts n))), pes_out sid dts pts n)"
  by (simp add: pes_size_def plain_sid_def pes_out_simps pes_out_flags pes_total_def Let_def)

lemma pes_pkt_size:
  assumes "plain_pes pes"
  shows "packet_size (pes_pkt us pid cc disc afo pes) = (int (4 + af_total afo + pes_total pes), pes_pkt us pid cc disc afo pes)"
proof -
  have "pes = Some p \<Longrightarrow> pes_size p = (int (pes_total (Some p)), p)" for p
    using assms pes_out_size by (auto simp: plain_pes_def)
  then show ?thesis
    by (auto simp: packet_size_def pes_pkt_def af_out_size payload_size_def af_total_def pes_total_def split: option.splits)
qed

text \<open>Stuffing: what \<open>padding\<close> and \<open>size\<close> make of the packet.\<close>

definition stuffed :: "nat \<Rightarrow> af_shape \<Rightarrow> af_shape" where
  "stuffed st afo = (case afo of None \<Rightarrow> Some (None, st - 2) | Some (pcr, k) \<Rightarrow> Some (pcr, st))"

lemma pes_pkt_padding:
  assumes "plain_pes pes"
  shows "packet_size (packet_padding (int st) (pes_pkt us pid cc disc afo pes)) =
    (int (4 + af_total (stuffed st afo) + pes_total pes), pes_pkt us pid cc disc (stuffed st afo) pes)"
proof -
  have p: "pes = Some p \<Longrightarrow> pes_size p = (int (pes_total (Some p)), p)" for p
    using assms pes_out_size by (auto simp: plain_pes_def)
  have new: "af_size SrsTsAdaptationField_new = (2, af_out disc None 0)"
    by (simp add: af_size_def af_out_def SrsTsAdaptationField_new_def af_fixed_def)
  have "max 0 (int st - 2) = int (st - 2)" by linarith
  with p new show ?thesis
    by (auto simp: packet_padding_def packet_size_def pes_pkt_def af_out_size payload_size_def af_total_def pes_total_def
        stuffed_def split: option.splits)
qed

lemma pes_layout_ok:
  assumes "plain_pes pes"
    "packet_size pkt = (int (4 + af_total afo + pes_total pes), pes_pkt us pid cc disc afo pes)" "afo = None \<or> (\<exists>v. afo = Some (Some v, 0))" "p \<noteq> []"
  shows "\<exists>afo' n buf'. pes_layout pkt p buf =
      Inr (pes_pkt us pid cc disc afo' pes, 4 + af_total afo' + pes_total pes, n, buf') \<and>
    4 + af_total afo' + pes_total pes + n = 188 \<and> 0 < n \<and> n \<le> length p \<and>
    (buf' = buf \<and> (afo' = None \<or> (\<exists>v. afo' = Some (v, 0))) \<or> buf' = replicate 188 0xFF)"
proof -
  have t: "pes_total pes \<le> 19" "af_total afo \<le> 8"
    using assms(3) by (auto simp: pes_total_def af_total_def af_fixed_def split: option.splits)
  define base where "base = 4 + af_total afo + pes_total pes"
  have b: "base \<le> 31" using t by (simp add: base_def)
  show ?thesis
  proof (cases "length p + base \<ge> 188")
    case True
    have m: "min (int (length p)) (188 - int base) = int (188 - base)" using True b by linarith
    have "pes_layout pkt p buf = Inr (pes_pkt us pid cc disc afo pes, base, 188 - base, buf)"
      using b unfolding pes_layout_def assms(2) base_def [symmetric] prod.case Let_def m by simp
    then show ?thesis using True b assms(3) unfolding base_def
      by (intro exI [of _ afo] exI [of _ "188 - base"] exI [of _ buf]) (auto simp: base_def)
  next
    case False
    define st where "st = 188 - base - length p"
    have st: "0 < st" "st + base + length p = 188" using False by (simp_all add: st_def)
    have m: "min (int (length p)) (188 - int base) = int (length p)" "188 - int base - int (length p) = int st"
      using st by linarith+
    define nb where "nb = 4 + af_total (stuffed st afo) + pes_total pes"
    define n where "n = min (length p) (188 - nb)"
    have "nb = base + (if afo = None \<and> st = 1 then 2 else st)"
      using assms(3) st(1) by (auto simp: nb_def base_def stuffed_def af_total_def af_fixed_def)
    moreover obtain q where "length p = Suc q" using assms(4) by (cases p) auto
    ultimately have n: "nb + n = 188" "0 < n" "n \<le> length p" "nb < 188"
      using st b by (auto simp: n_def split: if_splits)
    have m2: "min (int (length p)) (188 - int nb) = int n" using n by (simp add: n_def)
    have "pes_layout pkt p buf =
        Inr (pes_pkt us pid cc disc (stuffed st afo) pes, nb, n, replicate 188 0xFF)"
      using b st n unfolding pes_layout_def assms(2) base_def [symmetric] prod.case Let_def m
        pes_pkt_padding [OF assms(1)] nb_def [symmetric] m2 by simp
    then show ?thesis using n unfolding nb_def by blast
  qed
qed

type_synonym pes_head = "(u8 \<times> u64 \<times> u64 \<times> nat) option"

definition head_pes :: "pes_head \<Rightarrow> SrsMpegPESOut option" where
  "head_pes h = map_option (\<lambda>(sid, dts, pts, n). pes_out sid dts pts n) h"

definition head_bytes :: "pes_head \<Rightarrow> u8 list" where
  "head_bytes h = (case h of None \<Rightarrow> [] | Some (sid, dts, pts, n) \<Rightarrow> pes_bytes sid dts pts n)"

definition shape_bytes :: "bool \<Rightarrow> af_shape \<Rightarrow> u8 list" where
  "shape_bytes disc afo = (case afo of None \<Rightarrow> [] | Some (pcr, k) \<Rightarrow> af_head disc pcr k @ replicate k 0xFF)"

definition pkt_head :: "bool \<Rightarrow> u16 \<Rightarrow> u8 \<Rightarrow> af_shape \<Rightarrow> u8 list" where
  "pkt_head us pid cc afo = [0x47] @ be_bytes 2 (packet_pidv (pes_pkt us pid cc False afo None)) @
     [packet_ccv (pes_pkt us pid cc False afo None)]"

definition pkt_bytes :: "bool \<Rightarrow> u16 \<Rightarrow> u8 \<Rightarrow> bool \<Rightarrow> af_shape \<Rightarrow> pes_head \<Rightarrow> u8 list" where
  "pkt_bytes us pid cc disc afo h = pkt_head us pid cc afo @ shape_bytes disc afo @ head_bytes h"

lemma length_head_bytes: "length (head_bytes h) = pes_total (head_pes h)"
  by (auto simp: head_bytes_def head_pes_def pes_total_def length_pes_bytes pes_out_simps split: option.splits)

lemma length_shape_bytes: "length (shape_bytes disc afo) = af_total afo"
  by (auto simp: shape_bytes_def af_total_def length_af_head split: option.splits)

lemma puts_head: "puts (case head_pes h of None \<Rightarrow> Inr | Some p \<Rightarrow> pes_encode p) (head_bytes h)"
  by (cases h) (auto simp: head_pes_def head_bytes_def puts_pes_encode puts_Inr)

lemma fills_shape:
  assumes "af_total afo \<le> 183" "length xs = af_total afo" "\<And>v k. afo = Some (v, k) \<Longrightarrow> k = 0 \<or> xs = replicate (length xs) 0xFF"
  shows "fills (\<lambda>b. case map_option (\<lambda>(pcr, k). af_out disc pcr k) afo of None \<Rightarrow> Inr b | Some af \<Rightarrow> af_encode 3 af b)
    xs (shape_bytes disc afo)"
proof (cases afo)
  case None
  then show ?thesis using assms fills_Inr by (simp add: af_total_def shape_bytes_def)
next
  case (Some a)
  obtain pcr k where a: "a = (pcr, k)" by (cases a)
  let ?m = "af_fixed pcr"
  have l: "length xs = ?m + k" "?m + k \<le> 183" using assms(1,2) Some a by (simp_all add: af_total_def)
  have "k = 0 \<or> xs = replicate (?m + k) 0xFF"
    using assms(3) [of pcr k] Some a unfolding l(1) by blast
  then have r: "drop ?m xs = replicate k 0xFF" using l(1) by (elim disjE) simp_all
  have "fills (af_encode 3 (af_out disc pcr k)) xs (af_head disc pcr k @ drop ?m xs)"
    using l fills_af_encode [of pcr k "take ?m xs" "drop ?m xs" disc] by (auto simp: af_fixed_def split: if_splits)
  then show ?thesis using Some a r by (simp add: shape_bytes_def)
qed

lemma fillc_payload:
  assumes "fills (case head_pes h of None \<Rightarrow> Inr | Some p \<Rightarrow> pes_encode p) xs vs"
  shows "fillc (\<lambda>b ctx. case map_option SrsTsPayloadPES (head_pes h) of None \<Rightarrow> (Inr b, ctx)
     | Some p \<Rightarrow> payload_encode pkt p b ctx) xs vs ctx ctx"
  using assms unfolding fills_def fillc_def
  by (cases "head_pes h") (auto simp: payload_encode_def)

lemma fillc_packet:
  assumes "af_total afo \<le> 183" "length xs = 4 + af_total afo + pes_total (head_pes h)"
    "\<And>v k. afo = Some (v, k) \<Longrightarrow> k = 0 \<or> xs = replicate (length xs) 0xFF"
  shows "fillc (packet_encode (pes_pkt us pid cc disc afo (head_pes h))) xs (pkt_bytes us pid cc disc afo h) ctx ctx"
proof -
  let ?p = "pes_pkt us pid cc disc afo (head_pes h)"
  define xa where "xa = take (af_total afo) (drop 4 xs)"
  define xp where "xp = drop (af_total afo) (drop 4 xs)"
  have xs: "xs = [xs ! 0] @ take 2 (drop 1 xs) @ [xs ! 3] @ xa @ xp"
  proof -
    have "xs = xs ! 0 # drop 1 xs" "drop 3 xs = xs ! 3 # drop 4 xs"
      using Cons_nth_drop_Suc [of 0 xs] Cons_nth_drop_Suc [of 3 xs] assms(2) by simp_all
    moreover have "drop 4 xs = xa @ xp" by (simp only: xa_def xp_def append_take_drop_id)
    ultimately show ?thesis using append_take_drop_id [of 2 "drop 1 xs"] by simp
  qed
  have xa: "fills (\<lambda>b. case map_option (\<lambda>(pcr, k). af_out disc pcr k) afo of None \<Rightarrow> Inr b | Some af \<Rightarrow> af_encode 3 af b)
      xa (shape_bytes disc afo)"
  proof (rule fills_shape [OF assms(1)])
    show "length xa = af_total afo" using assms(2) by (simp add: xa_def)
    fix v k assume "afo = Some (v, k)"
    then show "k = 0 \<or> xa = replicate (length xa) 0xFF"
      using assms(3) [of v k] by (metis (no_types, opaque_lifting) drop_replicate length_replicate take_replicate xa_def)
  qed
  have xp: "fills (case head_pes h of None \<Rightarrow> Inr | Some p \<Rightarrow> pes_encode p) xp (head_bytes h)"
    using assms(2) by (intro fills_puts [OF puts_head]) (simp add: xp_def length_head_bytes)
  have "fillc (\<lambda>b ctx. if \<not> require 4 b then (Inl ERROR_STREAM_CASTER_TS_HEADER, ctx)
      else with_res (write_1bytes 0x47 b) ctx (\<lambda>b1. with_res (write_2bytes (packet_pidv ?p) b1) ctx (\<lambda>b2.
        with_res (write_1bytes (packet_ccv ?p) b2) ctx (\<lambda>b3.
        with_res (case map_option (\<lambda>(pcr, k). af_out disc pcr k) afo of None \<Rightarrow> Inr b3 | Some af \<Rightarrow> af_encode 3 af b3) ctx (\<lambda>b4.
          case map_option SrsTsPayloadPES (head_pes h) of None \<Rightarrow> (Inr b4, ctx) | Some p \<Rightarrow> payload_encode ?p p b4 ctx)))))
      ([xs ! 0] @ take 2 (drop 1 xs) @ [xs ! 3] @ xa @ xp)
      ([0x47] @ be_bytes 2 (packet_pidv ?p) @ [packet_ccv ?p] @ shape_bytes disc afo @ head_bytes h) ctx ctx"
    by (rule fillc_require, simp, simp add: xa_def xp_def assms(2),
        intro fillc_with_res fills_write fillc_payload [OF xp] xa) (simp add: assms(2))
  moreover have "packet_encode ?p = (\<lambda>b ctx. if \<not> require 4 b then (Inl ERROR_STREAM_CASTER_TS_HEADER, ctx)
      else with_res (write_1bytes 0x47 b) ctx (\<lambda>b1. with_res (write_2bytes (packet_pidv ?p) b1) ctx (\<lambda>b2.
        with_res (write_1bytes (packet_ccv ?p) b2) ctx (\<lambda>b3.
        with_res (case map_option (\<lambda>(pcr, k). af_out disc pcr k) afo of None \<Rightarrow> Inr b3 | Some af \<Rightarrow> af_encode 3 af b3) ctx (\<lambda>b4.
          case map_option SrsTsPayloadPES (head_pes h) of None \<Rightarrow> (Inr b4, ctx) | Some p \<Rightarrow> payload_encode ?p p b4 ctx)))))"
    by (cases afo; hypsubst; simp add: packet_encode_def [abs_def] pes_pkt_simps cong: if_cong)
  moreover have "packet_pidv ?p = packet_pidv (pes_pkt us pid cc False afo None)"
    "packet_ccv ?p = packet_ccv (pes_pkt us pid cc False afo None)"
    by (simp_all add: packet_pidv_def packet_ccv_def pes_pkt_def)
  ultimately show ?thesis using xs by (simp add: pkt_bytes_def pkt_head_def)
qed

lemma create_first_eq:
  "(create_pes_first pid sid cc disc pcr dts pts n)\<lparr>pk_sync_byte := 0x47\<rparr> =
    (pes_pkt True pid cc disc (if sint pcr \<ge> 0 then Some (Some pcr, 0) else None) None)
      \<lparr>pk_adaptation_field := (if sint pcr \<ge> 0 then Some ((af_out disc (Some pcr) 0)\<lparr>af_adaption_field_length := 0\<rparr>) else None),
       pk_payload := Some (SrsTsPayloadPES ((pes_out sid dts pts n)\<lparr>pes_PES_header_data_length := 0\<rparr>))\<rparr>"
proof -
  have p: "SrsMpegPESOut_new\<lparr>pes_packet_start_code_prefix := 1, pes_stream_id := sid,
      pes_PES_packet_length := (if n > 0xFFFF then 0 else of_nat n), pes_PTS_DTS_flags := (if dts = pts then 2 else 3),
      pes_pts := pts, pes_dts := dts\<rparr> = pes_out sid dts pts n\<lparr>pes_PES_header_data_length := 0\<rparr>"
    by (simp add: pes_out_def SrsMpegPESOut_new_def SrsMpegPES_new_def SrsMpegPES.defs)
  have a: "SrsTsAdaptationField_new\<lparr>af_discontinuity_indicator := of_bool disc, af_PCR_flag := 1,
      af_program_clock_reference_base := pcr, af_program_clock_reference_extension := 0\<rparr> =
      (af_out disc (Some pcr) 0)\<lparr>af_adaption_field_length := 0\<rparr>"
    by (simp add: af_out_def SrsTsAdaptationField_new_def)
  show ?thesis
    unfolding create_pes_first_def p a Let_def by (simp add: SrsTsPacket_new_def pes_pkt_def)
qed

lemma create_first_size:
  assumes "plain_sid sid"
  shows "packet_size ((create_pes_first pid sid cc disc pcr dts pts n)\<lparr>pk_sync_byte := 0x47\<rparr>) =
    (let afo = (if sint pcr \<ge> 0 then Some (Some pcr, 0) else None); pes = Some (pes_out sid dts pts n) in
     (int (4 + af_total afo + pes_total pes), pes_pkt True pid cc disc afo pes))"
proof -
  have "pes_size (pes_out sid dts pts n\<lparr>pes_PES_header_data_length := l\<rparr>) =
      (int (pes_total (Some (pes_out sid dts pts n))), pes_out sid dts pts n)" for l
    using assms by (simp add: pes_size_def plain_sid_def pes_out_def pes_opt_required_def pes_total_def Let_def
      SrsMpegPESOut_new_def SrsMpegPES_new_def SrsMpegPES.defs)
  moreover have "af_size ((af_out disc (Some pcr) 0)\<lparr>af_adaption_field_length := 0\<rparr>) = (8, af_out disc (Some pcr) 0)"
    by (simp add: af_size_def af_out_def af_fixed_def SrsTsAdaptationField_new_def)
  ultimately show ?thesis
    unfolding create_first_eq
    by (simp add: packet_size_def payload_size_def Let_def pes_pkt_def af_total_def af_fixed_def)
qed

lemma create_continue_size:
  "packet_size ((create_pes_continue pid cc)\<lparr>pk_sync_byte := 0x47\<rparr>) =
    (int (4 + af_total None + pes_total None), pes_pkt False pid cc disc None None)"
  by (simp add: create_pes_continue_def packet_size_def SrsTsPacket_new_def pes_pkt_def af_total_def pes_total_def)

text \<open>The PES header of a packet of the message.\<close>

definition msg_head :: "SrsTsMessage \<Rightarrow> bool \<Rightarrow> pes_head" where
  "msg_head msg first = (if first then Some (msg_sid msg, msg_dts msg, msg_pts msg, length (msg_payload msg)) else None)"

lemma pes_packet_layout:
  assumes "plain_sid (msg_sid msg)" "p \<noteq> []"
  shows "\<exists>afo n buf'. pes_layout ((pes_packet pid msg pure_audio first cc)\<lparr>pk_sync_byte := 0x47\<rparr>) p buf =
      Inr (pes_pkt first pid cc (msg_is_discontinuity msg) afo (head_pes (msg_head msg first)),
        4 + af_total afo + pes_total (head_pes (msg_head msg first)), n, buf') \<and>
    4 + af_total afo + pes_total (head_pes (msg_head msg first)) + n = 188 \<and> 0 < n \<and> n \<le> length p \<and>
    (buf' = buf \<and> (afo = None \<or> (\<exists>v. afo = Some (v, 0))) \<or> buf' = replicate 188 0xFF)"
proof (cases first)
  case True
  have pp: "plain_pes (head_pes (msg_head msg True))"
    using assms(1) by (auto simp: plain_pes_def head_pes_def msg_head_def)
  show ?thesis
    using create_first_size [OF assms(1), of pid cc "msg_is_discontinuity msg"
        "if msg_write_pcr msg \<or> pure_audio \<and> msg_is_audio msg then msg_dts msg else - 1" "msg_dts msg" "msg_pts msg"
        "length (msg_payload msg)"] pes_layout_ok [OF pp _ _ assms(2)] True
    by (simp add: pes_packet_def Let_def msg_head_def head_pes_def split: if_splits)
next
  case False
  have pp: "plain_pes (head_pes (msg_head msg False))" by (simp add: plain_pes_def head_pes_def msg_head_def)
  show ?thesis
    using create_continue_size [of pid cc "msg_is_discontinuity msg"] pes_layout_ok [OF pp _ _ assms(2)] False
    by (simp add: pes_packet_def msg_head_def head_pes_def)
qed

lemma write_block_pes:
  assumes "length buf = 188" "4 + af_total afo + pes_total (head_pes h) + n = 188" "0 < n" "n \<le> length p"
    "\<And>v k. afo = Some (v, k) \<Longrightarrow> k = 0 \<or> buf = replicate 188 0xFF"
  shows "write_block wr (pes_pkt us pid cc disc afo (head_pes h)) (4 + af_total afo + pes_total (head_pes h))
      (take (4 + af_total afo + pes_total (head_pes h)) buf @ take n p @
       drop (4 + af_total afo + pes_total (head_pes h) + n) buf) (ctx, w) =
    (let (r, w1) = wr w (pkt_bytes us pid cc disc afo h @ take n p) in (r, (ctx, w1)))"
proof -
  let ?nb = "4 + af_total afo + pes_total (head_pes h)"
  let ?b = "take ?nb buf @ take n p @ drop (?nb + n) buf"
  have l: "length (take ?nb buf) = ?nb" "take ?nb ?b = take ?nb buf" "drop ?nb ?b = take n p"
    using assms(1,2) by simp_all
  have "fillc (packet_encode (pes_pkt us pid cc disc afo (head_pes h))) (take ?nb buf) (pkt_bytes us pid cc disc afo h) ctx ctx"
  proof (rule fillc_packet)
    fix v k assume "afo = Some (v, k)"
    then show "k = 0 \<or> take ?nb buf = replicate (length (take ?nb buf)) 0xFF"
      using assms(5) [of v k] by (metis length_replicate take_replicate)
  qed (use assms l in auto)
  from fillc_block [OF this] l show ?thesis by (auto simp: write_block_def)
qed

text \<open>One round of the loop: the packet carries the next \<open>n\<close> bytes of the payload and fills its 188 bytes.\<close>

lemma pes_loop_step:
  assumes "plain_sid (msg_sid msg)" "p \<noteq> []" "ctx_get pid ctx = Some channel" "ctx_sync_byte ctx = 0x47"
  obtains afo n where "length (pkt_bytes (i = 0) pid (ch_continuity_counter channel) (msg_is_discontinuity msg) afo (msg_head msg (i = 0))) + n = 188"
    "0 < n" "n \<le> length p"
    "pes_loop wr mem msg pid pure_audio i p (ctx, w) =
       and_then (let (r, w1) = wr w (pkt_bytes (i = 0) pid (ch_continuity_counter channel) (msg_is_discontinuity msg) afo
           (msg_head msg (i = 0)) @ take n p) in (r, (next_counter pid channel ctx, w1)))
         (pes_loop wr mem msg pid pure_audio (Suc i) (drop n p))"
proof -
  let ?h = "msg_head msg (i = 0)"
  let ?cc = "ch_continuity_counter channel"
  obtain afo n buf' where L: "pes_layout ((pes_packet pid msg pure_audio (i = 0) ?cc)\<lparr>pk_sync_byte := 0x47\<rparr>) p (new_block (mem i)) =
      Inr (pes_pkt (i = 0) pid ?cc (msg_is_discontinuity msg) afo (head_pes ?h),
        4 + af_total afo + pes_total (head_pes ?h), n, buf')"
    and n: "4 + af_total afo + pes_total (head_pes ?h) + n = 188" "0 < n" "n \<le> length p"
    and buf: "buf' = new_block (mem i) \<and> (afo = None \<or> (\<exists>v. afo = Some (v, 0))) \<or> buf' = replicate 188 0xFF"
    using pes_packet_layout [OF assms(1,2), of pid pure_audio "i = 0" ?cc "new_block (mem i)"] by blast
  have l: "length buf' = 188" using buf by (auto simp: new_block_def)
  have b: "k = 0 \<or> buf' = replicate 188 0xFF" if "afo = Some (v, k)" for v k using buf that by auto
  have "length (pkt_bytes (i = 0) pid ?cc (msg_is_discontinuity msg) afo ?h) = 4 + af_total afo + pes_total (head_pes ?h)"
    by (simp add: pkt_bytes_def pkt_head_def length_shape_bytes length_head_bytes)
  then show thesis
    using n L write_block_pes [OF l n b, where ?wr = wr] assms
    by (intro that [of afo n]) (simp_all add: pes_loop.simps [of wr mem msg pid pure_audio i p])
qed
end
