(* ===== verification/Ts_Roundtrip.thy ===== *)
theory Ts_Roundtrip
  imports Ts_Encode_Props
begin

text \<open>
  The decoder on the packets of the encoder: header, adaptation field, PES header and payload are read back as they were
  written, and the packets of one message give the message, either at once or, without an announced length, at the start
  of the next unit.
\<close>

section \<open>Reading the packets back\<close>

lemma pkt_head_fields:
  assumes "pid AND 0x1FFF = pid"
  shows "drop_bit 14 (packet_pidv (pes_pkt us pid cc False afo None)) AND 0x01 \<noteq> 0 \<longleftrightarrow> us"
    "packet_pidv (pes_pkt us pid cc False afo None) AND 0x1FFF = pid"
    "drop_bit 4 (packet_ccv (pes_pkt us pid cc False afo None)) AND 0x03 = (if afo = None then 1 else 3)"
    "packet_ccv (pes_pkt us pid cc False afo None) AND 0x0F = cc AND 0x0F"
proof -
  have p: "packet_pidv (pes_pkt us pid cc False afo None) = pid OR (if us then 0x4000 else 0)"
    using assms by (simp add: packet_pidv_def pes_pkt_def)
  have c: "packet_ccv (pes_pkt us pid cc False afo None) = (cc AND 0x0F) OR (if afo = None then 0x10 else 0x30)"
    by (simp add: packet_ccv_def pes_pkt_def)
  have "drop_bit 14 (pid AND 0x1FFF) = 0" by (simp add: drop_bit_and)
  then have h: "drop_bit 14 pid = 0" using assms by simp
  show "drop_bit 14 (packet_pidv (pes_pkt us pid cc False afo None)) AND 0x01 \<noteq> 0 \<longleftrightarrow> us"
    unfolding p using h by (auto simp: bit.conj_disj_distrib2)
  show "packet_pidv (pes_pkt us pid cc False afo None) AND 0x1FFF = pid"
    unfolding p using assms by (auto simp: bit.conj_disj_distrib2)
  show "drop_bit 4 (packet_ccv (pes_pkt us pid cc False afo None)) AND 0x03 = (if afo = None then 1 else 3)"
    unfolding c by (auto simp: drop_bit_or drop_bit_and bit.conj_disj_distrib2 and.assoc)
  show "packet_ccv (pes_pkt us pid cc False afo None) AND 0x0F = cc AND 0x0F"
    unfolding c by (auto simp: bit.conj_disj_distrib2 and.assoc)
qed

lemma pkt_head_decode:
  assumes b: "buf_inv b" "remaining b = pkt_head us pid cc afo @ r" and pid: "pid AND 0x1FFF = pid"
  shows "ts_header b = Inr (\<lparr>pk_payload_unit_start_indicator = us, pk_pid = pid,
      pk_adaption_field_control = (if afo = None then 1 else 3), pk_continuity_counter = cc AND 0x0F\<rparr>, advance 4 b)"
    "buf_inv (advance 4 b)" "remaining (advance 4 b) = r"
proof -
  note h = b(2) [unfolded pkt_head_def append_assoc append_Cons append_Nil]
  note b1 = read_1_Cons [OF b(1) h]
  note b2 = read_2_front [OF b1(2,3)]
  note b3 = read_1_Cons [OF b2(2,3)]
  have a: "advance 1 (advance 2 (advance 1 b)) = advance 4 b" by (simp add: advance_def)
  have "require 4 b" using b(1) h by (simp add: require_remaining)
  then show "ts_header b = Inr (\<lparr>pk_payload_unit_start_indicator = us, pk_pid = pid,
      pk_adaption_field_control = (if afo = None then 1 else 3), pk_continuity_counter = cc AND 0x0F\<rparr>, advance 4 b)"
    unfolding ts_header_def b1(1) b2(1) b3(1) res_bind_simps prod.case pkt_head_fields [OF pid] a by simp
  show "buf_inv (advance 4 b)" "remaining (advance 4 b) = r" using b3(2,3) a by simp_all
qed

lemma field_front:
  assumes "buf_inv b" "remaining b = xs @ r"
  shows "field e (int (length xs)) b = Inr (advance (length xs) b)" "buf_inv (advance (length xs) b)"
    "remaining (advance (length xs) b) = r"
  using advance_ok [of b "length xs"] assms by (simp_all add: field_def require_remaining)

lemma uint_u8: "m < 256 \<Longrightarrow> uint (of_nat m :: u8) = int m"
  by (simp add: unsigned_of_nat take_bit_nat_eq_self_iff)

lemma af_tmpv_out: "af_tmpv (af_out disc pcr k) = (if pcr = None then 0 else if disc then 0x90 else 0x10)"
  by (cases pcr) (simp_all add: af_tmpv_def af_out_def SrsTsAdaptationField_new_def)

lemma af_shape_decode:
  assumes b: "buf_inv b" "remaining b = af_head disc pcr k @ replicate k 0xFF @ r" and k: "af_fixed pcr + k \<le> 183"
  shows "af_decode 3 b = Inr (advance (af_fixed pcr + k) b)" "buf_inv (advance (af_fixed pcr + k) b)"
    "remaining (advance (af_fixed pcr + k) b) = r"
proof -
  let ?t = "af_tmpv (af_out disc pcr k)"
  let ?l = "of_nat (af_fixed pcr - 1 + k) :: u8"
  let ?c = "case pcr of None \<Rightarrow> [] | Some v \<Rightarrow> be_bytes 6 (af_pcrv (af_out disc pcr k))"
  note h = b(2) [unfolded af_head_def append_assoc append_Cons append_Nil]
  note b1 = read_1_Cons [OF b(1) h]
  note b2 = read_1_Cons [OF b1(2,3)]
  have c: "length ?c = af_fixed pcr - 2" by (cases pcr) (simp_all add: af_fixed_def)
  note b3 = field_front [OF b2(2,3)]
  note b7 = field_front [OF b3(2,3)]
  have l: "uint ?l = int (af_fixed pcr - 1 + k)" using k by (intro uint_u8) linarith
  have l2: "\<not> ?l > 182" "?l \<noteq> 0"
    using u8_le(1) [of "af_fixed pcr - 1 + k" 182] u8_le(2) [of "af_fixed pcr - 1 + k"] k by (simp_all add: af_fixed_def)
  have f: "flag ?t 4 \<longleftrightarrow> pcr \<noteq> None" "\<not> flag ?t 3" "\<not> flag ?t 2" "\<not> flag ?t 1" "\<not> flag ?t 0"
    unfolding af_tmpv_out by simp_all
  have o: "opt (pcr \<noteq> None) (field ERROR_STREAM_CASTER_TS_AF 6) (advance 1 (advance 1 b)) = Inr (advance (af_fixed pcr - 2) (advance 1 (advance 1 b)))"
    using b3(1) [of ERROR_STREAM_CASTER_TS_AF] c by (cases pcr) (simp_all add: af_fixed_def)
  have "require 2 b" using b(1) h by (simp add: require_remaining)
  have a: "advance (length (replicate k 0xFF)) (advance (length ?c) (advance 1 (advance 1 b))) = advance (af_fixed pcr + k) b"
    unfolding c by (simp add: advance_def af_fixed_def)
  have p: "pos (advance (af_fixed pcr - 2) (advance 1 (advance 1 b))) - pos (advance 1 b) = int (af_fixed pcr - 1)"
    by (simp add: advance_def pos_def af_fixed_def)
  have s: "skip (int k) (advance (af_fixed pcr - 2) (advance 1 (advance 1 b))) = Inr (advance (af_fixed pcr + k) b)"
    using advance_ok(1) [OF b3(2), of k] b3(3) a by (simp add: c)
  show "af_decode 3 b = Inr (advance (af_fixed pcr + k) b)"
    using \<open>require 2 b\<close> l2 f o s p unfolding af_decode_def b1(1) b2(1) res_bind_simps prod.case Let_def l by simp
  show "buf_inv (advance (af_fixed pcr + k) b)" "remaining (advance (af_fixed pcr + k) b) = r" using b7(2,3) a by simp_all
qed

lemma shape_decode:
  assumes b: "buf_inv b" "remaining b = shape_bytes disc afo @ r" and k: "af_total afo \<le> 183"
  shows "opt (afo \<noteq> None) (af_decode 3) b = Inr (advance (af_total afo) b)" "buf_inv (advance (af_total afo) b)"
    "remaining (advance (af_total afo) b) = r"
proof -
  have "opt (afo \<noteq> None) (af_decode 3) b = Inr (advance (af_total afo) b) \<and> buf_inv (advance (af_total afo) b) \<and>
    remaining (advance (af_total afo) b) = r"
  proof (cases afo)
    case None
    then show ?thesis using b by (simp add: af_total_def shape_bytes_def)
  next
    case (Some a)
    obtain pcr m where a: "a = (pcr, m)" by (cases a)
    show ?thesis
      using af_shape_decode [OF b(1), of disc pcr m r] b(2) k Some a by (simp add: af_total_def shape_bytes_def)
  qed
  then show "opt (afo \<noteq> None) (af_decode 3) b = Inr (advance (af_total afo) b)" "buf_inv (advance (af_total afo) b)"
    "remaining (advance (af_total afo) b) = r" by blast+
qed

definition media_channel :: "SrsTsChannel \<Rightarrow> bool" where
  "media_channel c \<longleftrightarrow> ch_apply c = SrsTsPidApplyVideo \<or> ch_apply c = SrsTsPidApplyAudio"

lemma pkt_decode:
  assumes pid: "pid AND 0x1FFF = pid" "pid \<noteq> 0" and c: "ctx_get pid ctx = Some c" "media_channel c"
    and k: "af_total afo \<le> 183" and blk: "blk = pkt_bytes us pid cc disc afo h @ chunk"
  obtains b k where "ts_packet_decode (SrsBuffer_new blk) ctx = pes_payload_decode \<lparr>pk_payload_unit_start_indicator = us,
      pk_pid = pid, pk_adaption_field_control = (if afo = None then 1 else 3), pk_continuity_counter = cc AND 0x0F\<rparr> b ctx"
    "buf_inv b" "remaining b = head_bytes h @ chunk" "b = advance k (SrsBuffer_new blk)"
proof -
  let ?b = "SrsBuffer_new blk"
  have h: "buf_inv ?b" "remaining ?b = pkt_head us pid cc afo @ shape_bytes disc afo @ head_bytes h @ chunk"
    by (simp_all add: blk pkt_bytes_def)
  note b1 = pkt_head_decode [OF h pid(1)]
  note b2 = shape_decode [OF b1(2,3) k]
  have o: "opt ((if afo = None then 1 else 3 :: u8) = 2 \<or> (if afo = None then 1 else 3 :: u8) = 3) (af_decode (if afo = None then 1 else 3))
      (advance 4 ?b) = Inr (advance (af_total afo) (advance 4 ?b))"
    using b2(1) by (cases afo) (simp_all add: af_total_def)
  have "ts_packet_decode ?b ctx = pes_payload_decode \<lparr>pk_payload_unit_start_indicator = us,
      pk_pid = pid, pk_adaption_field_control = (if afo = None then 1 else 3), pk_continuity_counter = cc AND 0x0F\<rparr>
      (advance (af_total afo) (advance 4 ?b)) ctx"
    using c pid(2) unfolding ts_packet_decode_def b1(1) with_res_simps prod.case Let_def SrsTsPacket.select_convs o
    by (auto simp: media_channel_def)
  then show thesis by (rule that [OF _ b2(2,3) advance_simps(2)])
qed

text \<open>The payload length that a PES packet announces; 0 if the packet is too long for the field.\<close>

definition announced :: "u64 \<Rightarrow> u64 \<Rightarrow> nat \<Rightarrow> nat" where
  "announced dts pts n = (if n + 3 + (if dts = pts then 5 else 10) \<le> 0xFFFF then n else 0)"

lemma pplv_announced:
  assumes "0 < n"
  shows "pes_pplv (pes_out sid dts pts n) =
    (if announced dts pts n = 0 then 0 else int (n + 3 + (if dts = pts then 5 else 10)))"
proof -
  have "n \<le> 0xFFFF \<Longrightarrow> uint (of_nat n :: u16) = int n" by (simp add: unsigned_of_nat take_bit_nat_eq_self_iff)
  moreover have "n \<le> 0xFFFF \<Longrightarrow> (0 :: u16) < of_nat n"
    using assms by (simp add: word_less_nat_alt unat_of_nat)
  ultimately show ?thesis
    using assms by (auto simp: pes_pplv_def pes_out_def announced_def Let_def)
qed

lemma times_decode:
  assumes "buf_inv b" "remaining b = times_bytes dts pts @ r"
  shows "pes_times (if dts = pts then 2 else 3) b =
      Inr (take_bit 33 pts, take_bit 33 dts, advance (length (times_bytes dts pts)) b)"
    "buf_inv (advance (length (times_bytes dts pts)) b)" "remaining (advance (length (times_bytes dts pts)) b) = r"
proof -
  have "pes_times (if dts = pts then 2 else 3) b =
      Inr (take_bit 33 pts, take_bit 33 dts, advance (length (times_bytes dts pts)) b) \<and>
    buf_inv (advance (length (times_bytes dts pts)) b) \<and> remaining (advance (length (times_bytes dts pts)) b) = r"
  proof (cases "dts = pts")
    case True
    then show ?thesis using decode_33bits_time_bytes [OF assms(1), of 2 pts r] assms(2) by (simp add: times_bytes_def pes_times_def)
  next
    case False
    then have "remaining b = time_bytes 3 pts @ time_bytes 1 dts @ r" using assms(2) by (simp add: times_bytes_def)
    note t = decode_33bits_time_bytes [OF assms(1) this]
    show ?thesis using False t decode_33bits_time_bytes [OF t(2,3)] by (simp add: times_bytes_def pes_times_def)
  qed
  then show "pes_times (if dts = pts then 2 else 3) b =
      Inr (take_bit 33 pts, take_bit 33 dts, advance (length (times_bytes dts pts)) b)"
    "buf_inv (advance (length (times_bytes dts pts)) b)" "remaining (advance (length (times_bytes dts pts)) b) = r" by blast+
qed

lemma pes_header_decode:
  assumes b: "buf_inv b" "remaining b = [0x80] @ [if dts = pts then 0x80 else 0xC0] @ [if dts = pts then 5 else 10] @ times_bytes dts pts @ r"
  shows "pes_header b = Inr ((if dts = pts then 2 else 3, take_bit 33 pts, take_bit 33 dts), advance (3 + length (times_bytes dts pts)) b)"
    "buf_inv (advance (3 + length (times_bytes dts pts)) b)" "remaining (advance (3 + length (times_bytes dts pts)) b) = r"
proof -
  let ?f = "if dts = pts then 0x80 else 0xC0 :: u8"
  note h = b(2) [unfolded append_Cons append_Nil]
  note b1 = read_1_Cons [OF b(1) h]
  note b2 = read_1_Cons [OF b1(2,3)]
  note b3 = read_1_Cons [OF b2(2,3)]
  note b4 = times_decode [OF b3(2,3)]
  have a: "advance (length (times_bytes dts pts)) (advance 1 (advance 1 (advance 1 b))) = advance (3 + length (times_bytes dts pts)) b"
    by (simp add: advance_def)
  have l: "length (times_bytes dts pts) = (if dts = pts then 5 else 10)" by (simp add: times_bytes_def)
  have f: "drop_bit 6 ?f AND 0x03 = (if dts = pts then 2 else 3)" "pes_header_required ?f = int (length (times_bytes dts pts))"
    "\<not> flag ?f 5" "\<not> flag ?f 4" "\<not> flag ?f 3" "\<not> flag ?f 2" "\<not> flag ?f 1" "\<not> flag ?f 0"
    by (simp_all add: pes_header_required_def l)
  have r: "require 3 b" "require (int (length (times_bytes dts pts))) (advance 1 (advance 1 (advance 1 b)))"
    using b(1) h b3(2,3) by (simp_all add: require_remaining)
  have n: "uint (if dts = pts then 5 else 10 :: u8) - (pos (advance (3 + length (times_bytes dts pts)) b) - pos (advance 1 (advance 1 (advance 1 b)))) = 0"
    unfolding l by (simp add: advance_def pos_def)
  show "pes_header b = Inr ((if dts = pts then 2 else 3, take_bit 33 pts, take_bit 33 dts), advance (3 + length (times_bytes dts pts)) b)"
    using r unfolding pes_header_def b1(1) b2(1) b3(1) res_bind_simps prod.case Let_def f b4(1) a
    by (simp only: f opt_simps res_bind_simps n) simp
  show "buf_inv (advance (3 + length (times_bytes dts pts)) b)" "remaining (advance (3 + length (times_bytes dts pts)) b) = r"
    using b4(2,3) a by simp_all
qed

lemma uint_u16_int: "0 \<le> x \<Longrightarrow> x < 65536 \<Longrightarrow> uint (of_int x :: u16) = x"
  by (simp add: unsigned_of_int take_bit_int_eq_self)

lemma pes_bytes_decode:
  assumes b: "buf_inv b" "remaining b = pes_bytes sid dts pts n @ r" and sid: "plain_sid sid" and n: "0 < n"
  shows "pes_decode b = Inr (SrsMpegPES_new\<lparr>pes_stream_id := sid, pes_PTS_DTS_flags := (if dts = pts then 2 else 3),
      pes_pts := take_bit 33 pts, pes_dts := take_bit 33 dts, pes_nb_payload := int (announced dts pts n),
      pes_has_payload := True\<rparr>, advance (length (pes_bytes sid dts pts n)) b)"
    "buf_inv (advance (length (pes_bytes sid dts pts n)) b)" "remaining (advance (length (pes_bytes sid dts pts n)) b) = r"
proof -
  let ?l = "of_int (pes_pplv (pes_out sid dts pts n)) :: u16"
  let ?t = "3 + length (times_bytes dts pts)"
  note h = b(2) [unfolded pes_bytes_def append_assoc append_Cons append_Nil]
  note b1 = read_3_front [OF b(1) h]
  note b2 = read_1_Cons [OF b1(2,3)]
  note b3 = read_2_front [OF b2(2,3)]
  note b4 = pes_header_decode [OF b3(2), of dts pts r, simplified append_Cons append_Nil, OF b3(3)]
  have t: "?t = 3 + (if dts = pts then 5 else 10)" by (simp add: times_bytes_def)
  have a: "advance ?t (advance 2 (advance 1 (advance 3 b))) = advance (length (pes_bytes sid dts pts n)) b"
    by (simp add: advance_def pes_bytes_def)
  have p: "pos (advance (length (pes_bytes sid dts pts n)) b) - pos (advance 2 (advance 1 (advance 3 b))) = int ?t"
    by (simp add: advance_def pos_def pes_bytes_def)
  have r: "require 6 b" using b(1) h by (simp add: require_remaining)
  have u: "uint ?l = (if announced dts pts n = 0 then 0 else int (n + ?t))" "?l > 0 \<longleftrightarrow> announced dts pts n \<noteq> 0"
    unfolding pplv_announced [OF n] t word_less_def
    using uint_u16_int [of "int (n + (3 + (if dts = pts then 5 else 10)))"] n
    by (auto simp: announced_def ac_simps split: if_splits)
  show "pes_decode b = Inr (SrsMpegPES_new\<lparr>pes_stream_id := sid, pes_PTS_DTS_flags := (if dts = pts then 2 else 3),
      pes_pts := take_bit 33 pts, pes_dts := take_bit 33 dts, pes_nb_payload := int (announced dts pts n),
      pes_has_payload := True\<rparr>, advance (length (pes_bytes sid dts pts n)) b)"
    using r sid unfolding pes_decode_def b1(1) b2(1) b3(1) b4(1) a res_bind_simps prod.case Let_def p u plain_sid_def
    by (auto simp: announced_def)
  show "buf_inv (advance (length (pes_bytes sid dts pts n)) b)" "remaining (advance (length (pes_bytes sid dts pts n)) b) = r"
    using b4(2,3) a by simp_all
qed

text \<open>Collecting a piece of the payload that does not exceed the announced length.\<close>

lemma msg_dump_chunk:
  assumes b: "buf_inv b" "remaining b = chunk" "chunk \<noteq> []"
    and l: "msg_PES_packet_length m = 0 \<or> int (length (msg_payload m) + length chunk) \<le> uint (msg_PES_packet_length m)"
  shows "msg_dump b m = Inr (m\<lparr>msg_payload := msg_payload m @ chunk\<rparr>, advance (length chunk) b)"
proof -
  have nb: "buf_nb b - pos b = int (length chunk)"
    using left_remaining [OF b(1)] b(2) by (simp add: left_def pos_def)
  have "min (int (length chunk)) (uint (msg_PES_packet_length m) - int (length (msg_payload m))) = int (length chunk)"
    if "msg_PES_packet_length m > 0"
    using l that by auto
  then have m: "(if msg_PES_packet_length m > 0 then min (int (length chunk)) (uint (msg_PES_packet_length m) - int (length (msg_payload m)))
      else int (length chunk)) = int (length chunk)" by simp
  have e: "\<not> buf_empty b" using b buf_empty_remaining [OF b(1)] by simp
  have f: "frame_string (chunk, int (length chunk)) = Inr chunk" by (simp add: frame_string_def)
  have "require (int (length chunk)) b" "skip (int (length chunk)) b = Inr (advance (length chunk) b)"
    using b advance_ok(1) [OF b(1), of "length chunk"] by (simp_all add: require_remaining)
  with e b(3) f show ?thesis unfolding msg_dump_def nb Let_def m b(2) by simp
qed

text \<open>The message that collects the payload.\<close>

definition started :: "u16 \<Rightarrow> u8 \<Rightarrow> u8 \<Rightarrow> u64 \<Rightarrow> u64 \<Rightarrow> nat \<Rightarrow> u8 list \<Rightarrow> SrsTsMessage" where
  "started pid cc sid dts pts n d = (SrsTsMessage_new pid)\<lparr>msg_continuity_counter := cc, msg_sid := sid,
     msg_dts := take_bit 33 dts, msg_pts := take_bit 33 pts, msg_PES_packet_length := of_nat (announced dts pts n),
     msg_payload := d\<rparr>"

lemma started_simps [simp]:
  "msg_continuity_counter (started pid cc sid dts pts n d) = cc" "msg_payload (started pid cc sid dts pts n d) = d"
  "msg_PES_packet_length (started pid cc sid dts pts n d) = of_nat (announced dts pts n)"
  "msg_channel (started pid cc sid dts pts n d) = pid"
  by (simp_all add: started_def SrsTsMessage_new_def)

lemma announced_u16:
  "uint (of_nat (announced dts pts n) :: u16) = int (announced dts pts n)"
  "of_nat (announced dts pts n) = (0 :: u16) \<longleftrightarrow> announced dts pts n = 0"
  "(0 :: u16) < of_nat (announced dts pts n) \<longleftrightarrow> 0 < announced dts pts n"
proof -
  have "announced dts pts n < 65536" by (auto simp: announced_def)
  then show u: "uint (of_nat (announced dts pts n) :: u16) = int (announced dts pts n)"
    using uint_u16_int [of "int (announced dts pts n)"] by simp
  then show "of_nat (announced dts pts n) = (0 :: u16) \<longleftrightarrow> announced dts pts n = 0"
    by (simp only: word_uint_eq_iff unsigned_0 of_nat_eq_0_iff)
  show "(0 :: u16) < of_nat (announced dts pts n) \<longleftrightarrow> 0 < announced dts pts n"
    using u by (simp only: word_less_def unsigned_0 of_nat_0_less_iff)
qed

lemma unit_start_decode:
  assumes b: "buf_inv b" "remaining b = pes_bytes sid dts pts n @ chunk" and sid: "plain_sid sid"
    and n: "chunk \<noteq> []" "length chunk \<le> n"
  obtains b' where "pes_unit_start b ((SrsTsMessage_new pid)\<lparr>msg_continuity_counter := cc\<rparr>) =
      (Inr b', started pid cc sid dts pts n chunk)" "buf_empty b'"
proof -
  have n0: "0 < n" using n by (cases chunk) auto
  note d = pes_bytes_decode [OF b sid n0]
  let ?m = "started pid cc sid dts pts n []"
  have "msg_dump (advance (length (pes_bytes sid dts pts n)) b) ?m =
      Inr (?m\<lparr>msg_payload := chunk\<rparr>, advance (length chunk) (advance (length (pes_bytes sid dts pts n)) b))"
    using msg_dump_chunk [OF d(2,3) n(1), of ?m] n(2) by (auto simp: announced_u16) (auto simp: announced_def split: if_splits)
  moreover have "buf_empty (advance (length chunk) (advance (length (pes_bytes sid dts pts n)) b))"
    using advance_ok(2,3) [OF d(2), of "length chunk"] d(3) by (simp add: buf_empty_remaining)
  ultimately show thesis
    by (intro that) (auto simp: pes_unit_start_def d(1) started_def SrsTsMessage_new_def SrsMpegPES_new_def)
qed

text \<open>What the decoder does with the message after a packet: it is complete, or kept in the channel.\<close>

definition settles :: "u16 \<Rightarrow> SrsTsMessage \<Rightarrow> SrsTsContext \<Rightarrow> SrsBuffer \<Rightarrow> ts_result" where
  "settles pid m ctx b =
     (if msg_PES_packet_length m \<noteq> 0 \<and> int (length (msg_payload m)) \<ge> uint (msg_PES_packet_length m)
      then (Inr (Some m, b), put_msg pid None ctx) else (Inr (None, b), put_msg pid (Some m) ctx))"

lemma first_packet_decode:
  assumes c: "ctx_get pid ctx = Some c" "ch_msg c = None" and sid: "plain_sid sid"
    and b: "buf_inv b" "remaining b = pes_bytes sid dts pts n @ chunk" and n: "chunk \<noteq> []" "length chunk \<le> n"
  obtains b' where "pes_payload_decode \<lparr>pk_payload_unit_start_indicator = True, pk_pid = pid,
      pk_adaption_field_control = afc, pk_continuity_counter = cc\<rparr> b ctx = settles pid (started pid cc sid dts pts n chunk) ctx b'"
    "buf_empty b'"
proof -
  obtain b' where u: "pes_unit_start b ((SrsTsMessage_new pid)\<lparr>msg_continuity_counter := cc\<rparr>) =
      (Inr b', started pid cc sid dts pts n chunk)" "buf_empty b'"
    using unit_start_decode [OF b sid n] by blast
  have f: "msg_fresh (SrsTsMessage_new pid)" by (simp add: msg_fresh_def SrsTsMessage_new_def)
  show thesis
    using c f u
    by (intro that [OF _ u(2)]) (simp add: pes_payload_decode_def Let_def settles_def msg_completed_def)
qed

lemma next_packet_decode:
  assumes c: "ctx_get pid ctx = Some c" "ch_msg c = Some m" and m: "msg_payload m \<noteq> []"
    and cc: "(msg_continuity_counter m + 1) AND 0x0F = cc"
    and b: "buf_inv b" "remaining b = chunk" "chunk \<noteq> []"
    and l: "msg_PES_packet_length m = 0 \<or> int (length (msg_payload m) + length chunk) \<le> uint (msg_PES_packet_length m)"
  obtains b' where "pes_payload_decode \<lparr>pk_payload_unit_start_indicator = False, pk_pid = pid,
      pk_adaption_field_control = afc, pk_continuity_counter = cc\<rparr> b ctx =
      settles pid (m\<lparr>msg_continuity_counter := cc, msg_payload := msg_payload m @ chunk\<rparr>) ctx b'" "buf_empty b'"
proof -
  let ?m = "m\<lparr>msg_continuity_counter := cc\<rparr>"
  have d: "msg_dump b ?m = Inr (?m\<lparr>msg_payload := msg_payload m @ chunk\<rparr>, advance (length chunk) b)"
    using msg_dump_chunk [OF b, of ?m] l by simp
  have e: "buf_empty (advance (length chunk) b)"
    using advance_ok(2,3) [OF b(1), of "length chunk"] b(2) by (simp add: buf_empty_remaining)
  have f: "\<not> msg_fresh m" using m by (simp add: msg_fresh_def)
  have "\<not> msg_completed False ?m" using l b(3) by (cases chunk) (auto simp: msg_completed_def)
  then show thesis
    using c f d cc
    by (intro that [OF _ e]) (simp add: pes_payload_decode_def Let_def settles_def msg_completed_def)
qed

section \<open>Round trip of a message\<close>

text \<open>A writer that keeps the packets, and a receiver that decodes one packet after the other.\<close>

definition collect :: "u8 list list stream_writer" where
  "collect w p = (srs_success, w @ [p])"

fun decode_packets ::
    "(u8 \<Rightarrow> SrsTsMessage \<Rightarrow> 's \<Rightarrow> 's outcome) \<Rightarrow> u8 list list \<Rightarrow> SrsTsContext \<Rightarrow> 's \<Rightarrow> unit res \<times> SrsTsContext \<times> 's" where
  "decode_packets handler [] ctx s = (srs_success, ctx, s)"
| "decode_packets handler (p # ps) ctx s =
     (case ts_context_decode handler (SrsBuffer_new p) ctx s of
        (Inl e, ctx1, s1) \<Rightarrow> (Inl e, ctx1, s1)
      | (Inr _, ctx1, s1) \<Rightarrow> decode_packets handler ps ctx1 s1)"

text \<open>The handler gets the message, and the channel is free again.\<close>

definition delivers ::
    "(u8 \<Rightarrow> SrsTsMessage \<Rightarrow> 's \<Rightarrow> 's outcome) \<Rightarrow> u8 \<Rightarrow> SrsTsMessage \<Rightarrow> SrsTsContext \<Rightarrow> 's \<Rightarrow> unit res \<times> SrsTsContext \<times> 's" where
  "delivers handler strm m ctx s = (let (r, s1) = handler strm m s in (r, put_msg (msg_channel m) None ctx, s1))"

definition concludes ::
    "(u8 \<Rightarrow> SrsTsMessage \<Rightarrow> 's \<Rightarrow> 's outcome) \<Rightarrow> u8 \<Rightarrow> SrsTsMessage \<Rightarrow> SrsTsContext \<Rightarrow> 's \<Rightarrow> unit res \<times> SrsTsContext \<times> 's" where
  "concludes handler strm m ctx s =
     (if msg_PES_packet_length m \<noteq> 0 then delivers handler strm m ctx s
      else (srs_success, put_msg (msg_channel m) (Some m) ctx, s))"

lemma ctx_get_put_msg:
  "ctx_get q (put_msg pid m ctx) = (if q = pid then map_option (\<lambda>c. c\<lparr>ch_msg := m\<rparr>) (ctx_get pid ctx) else ctx_get q ctx)"
  by (auto simp: ctx_get_def put_msg_def sm_find_put_app split: option.splits)

lemma sm_put_put [simp]: "sm_put k v (sm_put k v' m) = sm_put k v m"
  by (induction m) auto

lemma put_msg_put_msg [simp]: "put_msg pid m (put_msg pid m' ctx) = put_msg pid m ctx"
  by (auto simp: put_msg_def sm_find_put_app split: option.splits)

lemma block_decode:
  assumes "ts_packet_decode (SrsBuffer_new blk) ctx = settles pid m ctx b'" "buf_empty b'" "blk \<noteq> []"
    and "ctx_get pid ctx = Some c" "msg_channel m = pid"
  shows "ts_context_decode handler (SrsBuffer_new blk) ctx s =
    (if msg_PES_packet_length m \<noteq> 0 \<and> int (length (msg_payload m)) \<ge> uint (msg_PES_packet_length m)
     then delivers handler (ch_stream c) m ctx s else (srs_success, put_msg pid (Some m) ctx, s))"
proof -
  have "\<not> buf_empty (SrsBuffer_new blk)" using assms(3) by (simp add: buf_empty_remaining)
  with assms show ?thesis
    by (auto simp: ts_context_decode.simps [of handler "SrsBuffer_new blk"] ts_context_decode.simps [of handler b']
        settles_def delivers_def ctx_get_put_msg Let_def split: sum.splits prod.splits)
qed

text \<open>The encoder changes nothing but the counter of the channel.\<close>

definition same_setup :: "u16 \<Rightarrow> SrsTsContext \<Rightarrow> SrsTsContext \<Rightarrow> bool" where
  "same_setup pid e e' \<longleftrightarrow> ctx_ready e' = ctx_ready e \<and> ctx_sync_byte e' = ctx_sync_byte e \<and> ctx_vcodec e' = ctx_vcodec e \<and>
     ctx_acodec e' = ctx_acodec e \<and> (ctx_get pid e' = None) = (ctx_get pid e = None) \<and> (\<forall>q. q \<noteq> pid \<longrightarrow> ctx_get q e' = ctx_get q e)"

lemma same_setup_trans: "same_setup pid e e1 \<Longrightarrow> same_setup pid e1 e2 \<Longrightarrow> same_setup pid e e2"
  by (simp add: same_setup_def)

lemma next_counter_setup: "ctx_get pid e = Some c \<Longrightarrow> same_setup pid e (next_counter pid c e)"
  by (auto simp: same_setup_def next_counter_def ctx_get_def sm_find_put_app)

lemma ctx_get_next_counter: "ctx_get pid (next_counter pid c e) = Some (c\<lparr>ch_continuity_counter := ch_continuity_counter c + 1\<rparr>)"
  by (simp add: next_counter_def ctx_get_def sm_find_put_app)

lemma next_counter_wraps: "((cc AND 0x0F) + 1) AND 0x0F = (cc + 1) AND (0x0F :: u8)"
proof -
  have m: "uint (x AND 0x0F) = uint x mod 16" for x :: u8
    using take_bit_eq_mask [of 4 "uint x"] by (simp add: unsigned_and_eq mask_eq_exp_minus_1 take_bit_eq_mod)
  have s: "uint (x + 1) = (uint x + 1) mod 256" for x :: u8 by (simp add: uint_word_ariths)
  have "(uint cc mod 16 + 1) mod 256 mod 16 = (uint cc + 1) mod 256 mod 16"
    by (simp add: mod_mod_cancel mod_add_left_eq)
  then show ?thesis unfolding word_uint_eq_iff m s by (simp add: m)
qed

text \<open>The counter of the last packet that was written.\<close>

definition last_counter :: "u16 \<Rightarrow> u8 \<Rightarrow> SrsTsContext \<Rightarrow> bool" where
  "last_counter pid cc e \<longleftrightarrow> (cc + 1) AND 0x0F = ch_continuity_counter (the (ctx_get pid e)) AND 0x0F"

lemma last_counter_next: "last_counter pid (ch_continuity_counter c AND 0x0F) (next_counter pid c e)"
  by (simp add: last_counter_def ctx_get_next_counter next_counter_wraps)

lemma pkt_bytes_af: "length (pkt_bytes us pid cc disc afo h) + n = 188 \<Longrightarrow> 0 < n \<Longrightarrow> af_total afo \<le> 183"
  by (simp add: pkt_bytes_def pkt_head_def length_shape_bytes)

lemma pes_loop_roundtrip:
  assumes "plain_sid (msg_sid msg)" "pid AND 0x1FFF = pid" "pid \<noteq> 0" "p \<noteq> []" "0 < i"
    and e: "ctx_get pid e = Some ce" "ctx_sync_byte e = 0x47"
    and d: "ctx_get pid d = Some cd" "media_channel cd" "ch_msg cd = Some m" "msg_payload m \<noteq> []" "msg_channel m = pid"
    and cc: "(msg_continuity_counter m + 1) AND 0x0F = ch_continuity_counter ce AND 0x0F"
    and l: "msg_PES_packet_length m = 0 \<or> int (length (msg_payload m) + length p) = uint (msg_PES_packet_length m)"
  shows "\<exists>ps e' cc'. pes_loop collect mem msg pid pure_audio i p (e, w) = (srs_success, (e', w @ ps)) \<and> same_setup pid e e' \<and>
    (\<forall>q \<in> set ps. length q = 188) \<and> last_counter pid cc' e' \<and> (\<forall>(handler :: u8 \<Rightarrow> SrsTsMessage \<Rightarrow> 's \<Rightarrow> 's outcome) s. decode_packets handler ps d s =
      concludes handler (ch_stream cd) (m\<lparr>msg_continuity_counter := cc', msg_payload := msg_payload m @ p\<rparr>) d s)"
  using assms(4-)
proof (induction "length p" arbitrary: p i e ce d cd m w rule: less_induct)
  case less
  let ?cc = "ch_continuity_counter ce"
  obtain afo n where n: "length (pkt_bytes (i = 0) pid ?cc (msg_is_discontinuity msg) afo (msg_head msg (i = 0))) + n = 188"
      "0 < n" "n \<le> length p"
    and L: "pes_loop collect mem msg pid pure_audio i p (e, w) =
       and_then (let (r, w1) = collect w (pkt_bytes (i = 0) pid ?cc (msg_is_discontinuity msg) afo
           (msg_head msg (i = 0)) @ take n p) in (r, (next_counter pid ce e, w1)))
         (pes_loop collect mem msg pid pure_audio (Suc i) (drop n p))"
    using pes_loop_step [OF assms(1) less.prems(1,3,4)] by metis
  define blk where "blk = pkt_bytes False pid ?cc (msg_is_discontinuity msg) afo None @ take n p"
  have i: "(i = 0) = False" using less.prems(2) by simp
  have L': "pes_loop collect mem msg pid pure_audio i p (e, w) =
      pes_loop collect mem msg pid pure_audio (Suc i) (drop n p) (next_counter pid ce e, w @ [blk])"
    unfolding L by (simp add: collect_def blk_def i msg_head_def)
  obtain b where b: "ts_packet_decode (SrsBuffer_new blk) d = pes_payload_decode \<lparr>pk_payload_unit_start_indicator = False,
      pk_pid = pid, pk_adaption_field_control = (if afo = None then 1 else 3), pk_continuity_counter = ?cc AND 0x0F\<rparr> b d"
    "buf_inv b" "remaining b = take n p"
    using pkt_decode [OF assms(2,3) less.prems(5,6) pkt_bytes_af [OF n(1,2)] blk_def] by (auto simp: head_bytes_def)
  let ?m = "m\<lparr>msg_continuity_counter := ?cc AND 0x0F, msg_payload := msg_payload m @ take n p\<rparr>"
  have t: "take n p \<noteq> []" "length (take n p) = n" using n(2,3) less.prems(1) by auto
  have l: "msg_PES_packet_length m = 0 \<or> int (length (msg_payload m) + length (take n p)) \<le> uint (msg_PES_packet_length m)"
    using less.prems(11) n(3) by auto
  obtain b' where b': "ts_packet_decode (SrsBuffer_new blk) d = settles pid ?m d b'" "buf_empty b'"
    using next_packet_decode [OF less.prems(5,7,8,10) b(2,3) t(1) l] b(1) by metis
  have ne: "blk \<noteq> []" by (simp add: blk_def pkt_bytes_def pkt_head_def)
  have bl: "length blk = 188" using n(1) t(2) by (simp add: blk_def i msg_head_def)
  have B: "ts_context_decode handler (SrsBuffer_new blk) d s = (if msg_PES_packet_length m \<noteq> 0 \<and>
      int (length (msg_payload m @ take n p)) \<ge> uint (msg_PES_packet_length m)
     then delivers handler (ch_stream cd) ?m d s else (srs_success, put_msg pid (Some ?m) d, s))" for handler :: "u8 \<Rightarrow> SrsTsMessage \<Rightarrow> 's \<Rightarrow> 's outcome" and s
    by (subst block_decode [OF b' ne less.prems(5)]) (simp_all add: less.prems(9))
  let ?e = "next_counter pid ce e"
  show ?case
  proof (cases "drop n p = []")
    case True
    then have "take n p = p" by simp
    moreover have "pes_loop collect mem msg pid pure_audio (Suc i) (drop n p) (?e, w @ [blk]) = (srs_success, (?e, w @ [blk]))"
      using True by (simp add: pes_loop.simps)
    ultimately show ?thesis
      using L' next_counter_setup [OF less.prems(3)] less.prems(9,11) B bl last_counter_next [of pid ce e]
      by (intro exI [of _ "[blk]"] exI [of _ ?e] exI [of _ "?cc AND 0x0F"])
        (auto simp: concludes_def delivers_def split: sum.splits prod.splits)
  next
    case False
    let ?d = "put_msg pid (Some ?m) d"
    have d: "ctx_get pid ?d = Some (cd\<lparr>ch_msg := Some ?m\<rparr>)" using less.prems(5) by (simp add: ctx_get_put_msg)
    have "\<exists>ps e' cc'. pes_loop collect mem msg pid pure_audio (Suc i) (drop n p) (?e, w @ [blk]) = (srs_success, (e', (w @ [blk]) @ ps)) \<and>
      same_setup pid ?e e' \<and> (\<forall>q \<in> set ps. length q = 188) \<and> last_counter pid cc' e' \<and> (\<forall>(handler :: u8 \<Rightarrow> SrsTsMessage \<Rightarrow> 's \<Rightarrow> 's outcome) s. decode_packets handler ps ?d s =
        concludes handler (ch_stream (cd\<lparr>ch_msg := Some ?m\<rparr>)) (?m\<lparr>msg_continuity_counter := cc', msg_payload := msg_payload ?m @ drop n p\<rparr>) ?d s)"
      using less.prems n False next_counter_wraps [of ?cc] next_counter_setup [OF less.prems(3)]
      by (intro less.hyps [OF _ _ _ ctx_get_next_counter _ d])
        (auto simp: media_channel_def same_setup_def)
    then obtain ps e' cc' where ps: "pes_loop collect mem msg pid pure_audio i p (e, w) = (srs_success, (e', w @ blk # ps))"
        "same_setup pid ?e e'" "\<forall>q \<in> set ps. length q = 188" "last_counter pid cc' e'" "\<And>(handler :: u8 \<Rightarrow> SrsTsMessage \<Rightarrow> 's \<Rightarrow> 's outcome) s. decode_packets handler ps ?d s =
        concludes handler (ch_stream cd) (m\<lparr>msg_continuity_counter := cc', msg_payload := msg_payload m @ p\<rparr>) ?d s"
      unfolding L' by auto
    have "uint (msg_PES_packet_length m) > int (length (msg_payload m @ take n p))" if "msg_PES_packet_length m \<noteq> 0"
      using less.prems(11) that False t(2) by auto
    then have "ts_context_decode handler (SrsBuffer_new blk) d s = (srs_success, ?d, s)"
      for handler :: "u8 \<Rightarrow> SrsTsMessage \<Rightarrow> 's \<Rightarrow> 's outcome" and s using B [of handler s] by force
    then have "decode_packets handler (blk # ps) d s =
        concludes handler (ch_stream cd) (m\<lparr>msg_continuity_counter := cc', msg_payload := msg_payload m @ p\<rparr>) d s"
      for handler :: "u8 \<Rightarrow> SrsTsMessage \<Rightarrow> 's \<Rightarrow> 's outcome" and s
      using ps(5) less.prems(9) by (simp add: concludes_def delivers_def)
    moreover have "\<forall>q \<in> set (blk # ps). length q = 188" using ps(3) bl by simp
    ultimately show ?thesis using ps(1,4) same_setup_trans [OF next_counter_setup [OF less.prems(3)] ps(2)] by blast
  qed
qed

lemma first_block_decode:
  assumes "plain_sid sid" "pid AND 0x1FFF = pid" "pid \<noteq> 0"
    and d: "ctx_get pid d = Some cd" "media_channel cd" "ch_msg cd = None"
    and blk: "blk = pkt_bytes True pid cc disc afo (Some (sid, dts, pts, n)) @ chunk" "af_total afo \<le> 183"
    and c: "chunk \<noteq> []" "length chunk \<le> n"
  shows "ts_context_decode handler (SrsBuffer_new blk) d s =
    (let m = started pid (cc AND 0x0F) sid dts pts n chunk in
     if announced dts pts n \<noteq> 0 \<and> length chunk = n then delivers handler (ch_stream cd) m d s
     else (srs_success, put_msg pid (Some m) d, s))"
proof -
  let ?m = "started pid (cc AND 0x0F) sid dts pts n chunk"
  obtain b where b: "ts_packet_decode (SrsBuffer_new blk) d = pes_payload_decode \<lparr>pk_payload_unit_start_indicator = True,
      pk_pid = pid, pk_adaption_field_control = (if afo = None then 1 else 3), pk_continuity_counter = cc AND 0x0F\<rparr> b d"
    "buf_inv b" "remaining b = pes_bytes sid dts pts n @ chunk"
    using pkt_decode [OF assms(2,3) d(1,2) blk(2,1)] by (auto simp: head_bytes_def)
  obtain b' where b': "ts_packet_decode (SrsBuffer_new blk) d = settles pid ?m d b'" "buf_empty b'"
    using first_packet_decode [OF d(1,3) assms(1) b(2,3) c] b(1) by metis
  have ne: "blk \<noteq> []" by (simp add: blk(1) pkt_bytes_def pkt_head_def)
  have "announced dts pts n \<noteq> 0 \<Longrightarrow> announced dts pts n = n" by (simp add: announced_def split: if_splits)
  then have "msg_PES_packet_length ?m \<noteq> 0 \<and> int (length (msg_payload ?m)) \<ge> uint (msg_PES_packet_length ?m) \<longleftrightarrow>
      announced dts pts n \<noteq> 0 \<and> length chunk = n"
    using c(2) by (auto simp: announced_u16)
  then show ?thesis by (subst block_decode [OF b' ne d(1)]) (simp_all add: Let_def)
qed

text \<open>A message without announced length is held until the next unit starts. It is delivered then, and the packet
  is decoded again from its start.\<close>

lemma held_block_decode:
  assumes "pid AND 0x1FFF = pid" "pid \<noteq> 0"
    and d: "ctx_get pid d = Some cd" "media_channel cd" "ch_msg cd = Some m"
    and m: "msg_PES_packet_length m = 0" "msg_payload m \<noteq> []" "(msg_continuity_counter m + 1) AND 0x0F = cc AND 0x0F" "msg_channel m = pid"
    and blk: "blk = pkt_bytes True pid cc disc afo h @ chunk" "af_total afo \<le> 183"
  shows "ts_context_decode handler (SrsBuffer_new blk) d s =
    (case handler (ch_stream cd) (m\<lparr>msg_continuity_counter := cc AND 0x0F\<rparr>) s of
       (Inl e, s1) \<Rightarrow> (Inl e, put_msg pid None d, s1)
     | (Inr _, s1) \<Rightarrow> ts_context_decode handler (SrsBuffer_new blk) (put_msg pid None d) s1)"
proof -
  let ?m = "m\<lparr>msg_continuity_counter := cc AND 0x0F\<rparr>"
  obtain b k where b: "ts_packet_decode (SrsBuffer_new blk) d = pes_payload_decode \<lparr>pk_payload_unit_start_indicator = True,
      pk_pid = pid, pk_adaption_field_control = (if afo = None then 1 else 3), pk_continuity_counter = cc AND 0x0F\<rparr> b d"
    "b = advance k (SrsBuffer_new blk)"
    using pkt_decode [OF assms(1,2) d(1,2) blk(2,1)] by metis
  have sk: "skip (pos b * -1) b = Inr (SrsBuffer_new blk)"
    by (simp add: skip_def b(2) advance_def pos_def SrsBuffer_new_def)
  have "\<not> msg_fresh m" using m(2) by (simp add: msg_fresh_def)
  then have p: "ts_packet_decode (SrsBuffer_new blk) d = (Inr (Some ?m, SrsBuffer_new blk), put_msg pid None d)"
    unfolding b(1) using d m sk by (simp add: pes_payload_decode_def Let_def msg_completed_def)
  have "\<not> buf_empty (SrsBuffer_new blk)" by (simp add: buf_empty_remaining blk(1) pkt_bytes_def pkt_head_def)
  then show ?thesis
    using d(1) m(4) by (subst ts_context_decode.simps) (simp add: p ctx_get_put_msg)
qed

text \<open>The packets of a message begin with the start of its unit.\<close>

definition opens :: "u16 \<Rightarrow> u8 \<Rightarrow> u8 list list \<Rightarrow> bool" where
  "opens pid cc ps \<longleftrightarrow> (\<exists>disc afo h chunk qs. ps = (pkt_bytes True pid cc disc afo h @ chunk) # qs \<and> af_total afo \<le> 183)"

lemma encode_pes_roundtrip:
  assumes "plain_sid (msg_sid msg)" "pid AND 0x1FFF = pid" "pid \<noteq> 0" "msg_payload msg \<noteq> []" "strm \<in> {0x1b, 0x0f, 0x03, 0x24}"
    and e: "ctx_get pid e = Some ce" "ctx_sync_byte e = 0x47" "ctx_ready e"
    and d: "ctx_get pid d = Some cd" "media_channel cd" "ch_msg cd = None"
  shows "\<exists>ps e' cc. encode_pes collect mem msg pid strm pure_audio (e, w) = (srs_success, (e', w @ ps)) \<and> same_setup pid e e' \<and>
    (\<forall>q \<in> set ps. length q = 188) \<and> last_counter pid cc e' \<and> opens pid (ch_continuity_counter ce) ps \<and> (\<forall>(handler :: u8 \<Rightarrow> SrsTsMessage \<Rightarrow> 's \<Rightarrow> 's outcome) s. decode_packets handler ps d s =
      concludes handler (ch_stream cd) (started pid cc (msg_sid msg) (msg_dts msg) (msg_pts msg)
        (length (msg_payload msg)) (msg_payload msg)) d s)"
proof -
  let ?p = "msg_payload msg" and ?cc = "ch_continuity_counter ce" and ?e = "next_counter pid ce e"
  let ?st = "started pid (?cc AND 0x0F) (msg_sid msg) (msg_dts msg) (msg_pts msg) (length ?p)"
  obtain afo n where n: "length (pkt_bytes True pid ?cc (msg_is_discontinuity msg) afo (msg_head msg True)) + n = 188"
      "0 < n" "n \<le> length ?p"
    and L: "pes_loop collect mem msg pid pure_audio 0 ?p (e, w) =
       and_then (let (r, w1) = collect w (pkt_bytes True pid ?cc (msg_is_discontinuity msg) afo (msg_head msg True) @ take n ?p)
         in (r, (?e, w1))) (pes_loop collect mem msg pid pure_audio (Suc 0) (drop n ?p))"
    using pes_loop_step [OF assms(1,4) e(1,2), of 0 collect mem pure_audio w] by auto
  define blk where "blk = pkt_bytes True pid ?cc (msg_is_discontinuity msg) afo (Some (msg_sid msg, msg_dts msg, msg_pts msg, length ?p)) @ take n ?p"
  have t: "take n ?p \<noteq> []" "length (take n ?p) = n" using n(2,3) assms(4) by auto
  have bl: "length blk = 188" using n(1) t(2) by (simp add: blk_def msg_head_def)
  have op: "opens pid ?cc (blk # qs)" for qs using pkt_bytes_af [OF n(1,2)] unfolding opens_def blk_def by blast
  have L': "encode_pes collect mem msg pid strm pure_audio (e, w) =
      pes_loop collect mem msg pid pure_audio (Suc 0) (drop n ?p) (?e, w @ [blk])"
    using assms(4,5) e L by (auto simp: encode_pes_def collect_def blk_def msg_head_def)
  have B: "ts_context_decode handler (SrsBuffer_new blk) d s =
     (if announced (msg_dts msg) (msg_pts msg) (length ?p) \<noteq> 0 \<and> n = length ?p then delivers handler (ch_stream cd) (?st (take n ?p)) d s
      else (srs_success, put_msg pid (Some (?st (take n ?p))) d, s))" for handler :: "u8 \<Rightarrow> SrsTsMessage \<Rightarrow> 's \<Rightarrow> 's outcome" and s
    by (subst first_block_decode [OF assms(1-3) d blk_def pkt_bytes_af [OF n(1,2)] t(1)]) (use t(2) n(3) in \<open>simp_all add: Let_def\<close>)
  show ?thesis
  proof (cases "n = length ?p")
    case True
    then have "pes_loop collect mem msg pid pure_audio (Suc 0) (drop n ?p) (?e, w @ [blk]) = (srs_success, (?e, w @ [blk]))"
      by (simp add: pes_loop.simps)
    then show ?thesis
      using L' next_counter_setup [OF e(1)] B True bl last_counter_next [of pid ce e] op [of "[]"]
      by (intro exI [of _ "[blk]"] exI [of _ ?e] exI [of _ "?cc AND 0x0F"])
        (auto simp: concludes_def delivers_def announced_u16 split: sum.splits prod.splits)
  next
    case False
    let ?m = "?st (take n ?p)"
    let ?d = "put_msg pid (Some ?m) d"
    have d': "ctx_get pid ?d = Some (cd\<lparr>ch_msg := Some ?m\<rparr>)" using d(1) by (simp add: ctx_get_put_msg)
    have a: "announced (msg_dts msg) (msg_pts msg) (length ?p) = 0 \<or> announced (msg_dts msg) (msg_pts msg) (length ?p) = length ?p"
      by (simp add: announced_def)
    have sync: "ctx_sync_byte ?e = 0x47" using e(2) next_counter_setup [OF e(1)] by (simp add: same_setup_def)
    have ml: "msg_PES_packet_length ?m = 0 \<or> int (length (msg_payload ?m) + length (drop n ?p)) = uint (msg_PES_packet_length ?m)"
      using a n(3) by (auto simp: announced_u16)
    have "\<exists>ps e' cc'. pes_loop collect mem msg pid pure_audio (Suc 0) (drop n ?p) (?e, w @ [blk]) = (srs_success, (e', (w @ [blk]) @ ps)) \<and>
      same_setup pid ?e e' \<and> (\<forall>q \<in> set ps. length q = 188) \<and> last_counter pid cc' e' \<and> (\<forall>(handler :: u8 \<Rightarrow> SrsTsMessage \<Rightarrow> 's \<Rightarrow> 's outcome) s. decode_packets handler ps ?d s =
        concludes handler (ch_stream (cd\<lparr>ch_msg := Some ?m\<rparr>)) (?m\<lparr>msg_continuity_counter := cc', msg_payload := msg_payload ?m @ drop n ?p\<rparr>) ?d s)"
      by (rule pes_loop_roundtrip [OF assms(1-3) _ _ ctx_get_next_counter sync d' _ _ _ _ _ ml])
        (use n False d(2) next_counter_wraps [of ?cc] t(1) in \<open>auto simp: media_channel_def\<close>)
    then obtain ps e' cc' where ps: "encode_pes collect mem msg pid strm pure_audio (e, w) = (srs_success, (e', w @ blk # ps))"
        "same_setup pid ?e e'" "\<forall>q \<in> set ps. length q = 188" "last_counter pid cc' e'" "\<And>(handler :: u8 \<Rightarrow> SrsTsMessage \<Rightarrow> 's \<Rightarrow> 's outcome) s. decode_packets handler ps ?d s =
        concludes handler (ch_stream cd) (?m\<lparr>msg_continuity_counter := cc', msg_payload := ?p\<rparr>) ?d s"
      unfolding L' by auto
    have "decode_packets handler (blk # ps) d s = concludes handler (ch_stream cd) (?m\<lparr>msg_continuity_counter := cc', msg_payload := ?p\<rparr>) d s"
      for handler :: "u8 \<Rightarrow> SrsTsMessage \<Rightarrow> 's \<Rightarrow> 's outcome" and s
      using ps(5) B [of handler s] False by (simp add: concludes_def delivers_def)
    moreover have "?m\<lparr>msg_continuity_counter := cc', msg_payload := ?p\<rparr> =
        started pid cc' (msg_sid msg) (msg_dts msg) (msg_pts msg) (length ?p) ?p" by (simp add: started_def)
    moreover have "\<forall>q \<in> set (blk # ps). length q = 188" using ps(3) bl by simp
    ultimately show ?thesis using ps(1,4) same_setup_trans [OF next_counter_setup [OF e(1)] ps(2)] op [of ps] by metis
  qed
qed

lemma held_then_decode:
  assumes "pid AND 0x1FFF = pid" "pid \<noteq> 0"
    and d: "ctx_get pid d = Some cd" "media_channel cd" "ch_msg cd = Some m"
    and m: "msg_PES_packet_length m = 0" "msg_payload m \<noteq> []" "(msg_continuity_counter m + 1) AND 0x0F = cc AND 0x0F" "msg_channel m = pid"
    and ps: "opens pid cc ps"
  shows "decode_packets handler ps d s =
    (case handler (ch_stream cd) (m\<lparr>msg_continuity_counter := cc AND 0x0F\<rparr>) s of
       (Inl e, s1) \<Rightarrow> (Inl e, put_msg pid None d, s1)
     | (Inr _, s1) \<Rightarrow> decode_packets handler ps (put_msg pid None d) s1)"
proof -
  obtain disc afo h chunk qs where q: "ps = (pkt_bytes True pid cc disc afo h @ chunk) # qs" "af_total afo \<le> 183"
    using ps by (auto simp: opens_def)
  show ?thesis
    using held_block_decode [OF assms(1,2) d m refl q(2), of handler] by (auto simp: q(1) split: sum.splits prod.splits)
qed
end
