(* ===== verification/Ts_Tables.thy ===== *)
theory Ts_Tables
  imports Ts_Roundtrip
begin

text \<open>
  The program association and program map tables: the bytes of the sections with their checksum, what the decoder makes of
  them, and that writing and reading them sets up the same channels on both sides.
\<close>

section \<open>Writing the tables\<close>

definition putc :: "(SrsBuffer \<Rightarrow> SrsTsContext \<Rightarrow> psi_result) \<Rightarrow> u8 list \<Rightarrow> SrsTsContext \<Rightarrow> SrsTsContext \<Rightarrow> bool" where
  "putc w vs ctx ctx' \<longleftrightarrow> (\<forall>xs. length xs = length vs \<longrightarrow> fillc w xs vs ctx ctx')"

lemma putc_with_res:
  assumes "puts w vs" "putc k us ctx ctx'"
  shows "putc (\<lambda>b ctx. with_res (w b) ctx (\<lambda>b1. k b1 ctx)) (vs @ us) ctx ctx'"
  unfolding putc_def
proof (intro allI impI)
  fix xs :: "u8 list"
  assume "length xs = length (vs @ us)"
  then have "fillc (\<lambda>b ctx. with_res (w b) ctx (\<lambda>b1. k b1 ctx)) (take (length vs) xs @ drop (length vs) xs) (vs @ us) ctx ctx'"
    using assms by (intro fillc_with_res) (auto simp: puts_def putc_def)
  then show "fillc (\<lambda>b ctx. with_res (w b) ctx (\<lambda>b1. k b1 ctx)) xs (vs @ us) ctx ctx'" by simp
qed

lemma putc_require:
  "0 \<le> n \<Longrightarrow> n \<le> int (length vs) \<Longrightarrow> putc w vs ctx ctx' \<Longrightarrow>
   putc (\<lambda>b ctx. if \<not> require n b then (Inl e, ctx) else w b ctx) vs ctx ctx'"
  by (auto simp: putc_def intro!: fillc_require [simplified])

lemma putc_done: "putc (\<lambda>b ctx. (Inr b, f ctx)) [] ctx (f ctx)"
  by (auto simp: putc_def fillc_def)

text \<open>An operation followed by a change of the context.\<close>

lemma putc_then:
  assumes "putc w vs ctx ctx1"
  shows "putc (\<lambda>b ctx. case w b ctx of (Inl e, c) \<Rightarrow> (Inl e, c) | (Inr b1, c) \<Rightarrow> (Inr b1, f c)) vs ctx (f ctx1)"
  using assms unfolding putc_def fillc_def by fastforce

text \<open>Sequencing where the second operation starts from the changed context.\<close>

lemma putc_with_res_ctx:
  assumes "puts w vs" "putc k us (g ctx) ctx'"
  shows "putc (\<lambda>b ctx. with_res (w b) ctx (\<lambda>b1. k b1 (g ctx))) (vs @ us) ctx ctx'"
  using putc_with_res [OF assms(1), of "\<lambda>b _. k b (g ctx)" us ctx ctx'] assms(2)
  by (simp add: putc_def fillc_def)

subsection \<open>The program association table\<close>

definition program_bytes :: "SrsTsPayloadPATProgram \<Rightarrow> u8 list" where
  "program_bytes prg = be_bytes 4 ((ucast (prg_pid prg) AND 0x1FFF) OR (push_bit 16 (ucast (prg_number prg)) AND 0xFFFF0000) OR
     (push_bit 13 (ucast (prg_const1_value prg)) AND 0xE000) :: u32)"

lemma puts_program: "puts (program_encode prg) (program_bytes prg)"
  unfolding program_encode_def [abs_def] program_bytes_def by (intro puts_require puts_write) simp_all

lemma putc_programs:
  "putc (pat_encode_programs ps) (concat (map program_bytes ps)) ctx (fold (\<lambda>p. ctx_set (prg_pid p) SrsTsPidApplyPMT 0) ps ctx)"
proof (induction ps arbitrary: ctx)
  case Nil
  show ?case using putc_done [of "\<lambda>c. c"] by (simp add: fun_eq_iff [symmetric])
next
  case (Cons p ps)
  show ?case using putc_with_res_ctx [OF puts_program Cons.IH, of p] by (simp add: fun_eq_iff [symmetric])
qed

definition pat_body :: "SrsTsPayloadPAT \<Rightarrow> u8 list" where
  "pat_body pat = be_bytes 2 (pat_transport_stream_id pat) @ [(pat_current_next_indicator pat AND 0x01) OR
     (push_bit 1 (pat_version_number pat) AND 0x3E) OR (push_bit 6 (psi_const1_value pat) AND 0xC0)] @
     [pat_section_number pat] @ [pat_last_section_number pat] @ concat (map program_bytes (pat_programs_out pat))"

lemma putc_pat:
  "putc (pat_psi_encode pid pat) (pat_body pat) ctx
     (ctx_set pid SrsTsPidApplyPAT 0 (fold (\<lambda>p. ctx_set (prg_pid p) SrsTsPidApplyPMT 0) (pat_programs_out pat) ctx))"
  unfolding pat_psi_encode_def [abs_def] pat_body_def
  by (intro putc_require putc_with_res puts_write putc_then putc_programs) simp_all

subsection \<open>The program map table\<close>

definition es_bytes :: "SrsTsPayloadPMTESInfo \<Rightarrow> u8 list" where
  "es_bytes info = [es_stream_type info] @
     be_bytes 2 ((es_elementary_PID info AND 0x1FFF) OR (push_bit 13 (ucast (es_const1_value0 info)) AND 0xE000)) @
     be_bytes 2 ((of_nat (length (es_ES_info info)) AND 0x0FFF) OR (push_bit 12 (ucast (es_const1_value1 info)) AND 0xF000) :: u16) @
     es_ES_info info"

lemma puts_write_bytes: "puts (write_bytes d (int (length d))) d"
proof (cases "d = []")
  case True
  then have "write_bytes d (int (length d)) = Inr" by (simp add: write_bytes_def fun_eq_iff)
  then show ?thesis using puts_Inr True by simp
next
  case False
  then have "write_bytes d (int (length d)) = (\<lambda>b. if \<not> require (int (length d)) b then Inl ASSERT_FAILED else put_bytes d b)"
    by (simp add: write_bytes_def fun_eq_iff)
  then show ?thesis using puts_require [OF _ _ puts_put, of "int (length d)" d ASSERT_FAILED] by simp
qed

lemma puts_opt_bytes: "puts (opt (d \<noteq> []) (\<lambda>b. if \<not> require (int (length d)) b then Inl e else write_bytes d (int (length d)) b)) d"
  by (cases "d = []") (auto intro!: puts_Inr puts_require [simplified] puts_write_bytes)

lemma puts_es: "puts (es_info_encode info) (es_bytes info)"
  unfolding es_info_encode_def [abs_def] es_bytes_def
  by (intro puts_require puts_bind puts_write puts_opt_bytes) simp_all

lemma putc_infos:
  "putc (pmt_encode_infos is) (concat (map es_bytes is)) ctx (fold (\<lambda>i. apply_es (es_stream_type i) (es_elementary_PID i)) is ctx)"
proof (induction "is" arbitrary: ctx)
  case Nil
  show ?case using putc_done [of "\<lambda>c. c"] by (simp add: fun_eq_iff [symmetric])
next
  case (Cons i "is")
  show ?case using putc_with_res_ctx [OF puts_es Cons.IH, of i] by (simp add: fun_eq_iff [symmetric])
qed

definition pmt_body :: "SrsTsPayloadPMT \<Rightarrow> u8 list" where
  "pmt_body pmt = be_bytes 2 (pmt_program_number pmt) @ [(pmt_current_next_indicator pmt AND 0x01) OR
     (push_bit 6 (pmt_const1_value0 pmt) AND 0xC0) OR (push_bit 1 (pmt_version_number pmt) AND 0xFE)] @
     [pmt_section_number pmt] @ [pmt_last_section_number pmt] @
     be_bytes 2 ((pmt_PCR_PID pmt AND 0x1FFF) OR (push_bit 13 (ucast (pmt_const1_value1 pmt)) AND 0xE000)) @
     be_bytes 2 ((of_nat (length (pmt_program_info_desc pmt)) AND 0xFFF) OR (push_bit 12 (ucast (pmt_const1_value2 pmt)) AND 0xF000) :: u16) @
     pmt_program_info_desc pmt @ concat (map es_bytes (pmt_infos_out pmt))"

lemma putc_pmt:
  "putc (pmt_psi_encode pid pmt) (pmt_body pmt) ctx (ctx_set pid SrsTsPidApplyPMT 0
     (fold (\<lambda>i. apply_es (es_stream_type i) (es_elementary_PID i)) (pmt_infos_out pmt) ctx))"
  unfolding pmt_psi_encode_def [abs_def] pmt_body_def
  by (intro putc_require putc_with_res puts_write puts_opt_bytes putc_then putc_infos) simp_all

subsection \<open>Sections\<close>

definition section_bytes :: "'a SrsTsPayloadPSI_scheme \<Rightarrow> u8 list \<Rightarrow> u8 list" where
  "section_bytes psi body = [psi_table_id psi] @ be_bytes 2 (psi_slv psi) @ body"

definition psi_bytes :: "'a SrsTsPayloadPSI_scheme \<Rightarrow> u8 list \<Rightarrow> u8 list" where
  "psi_bytes psi body = [psi_pointer_field psi] @ section_bytes psi body @
     be_bytes 4 (srs_crc32_mpegts (section_bytes psi body))"

lemma pos_written: "buf_inv b \<Longrightarrow> pos b = int (length (written b))"
  by (auto simp: pos_def written_def buf_inv_def min_def)

lemma putc_psi:
  assumes e: "putc (enc psi) body ctx ctx'" and l: "uint (psi_section_length psi) = int (length body + 4)"
  shows "putc (psi_encode enc True psi) (psi_bytes psi body) ctx ctx'"
  unfolding putc_def fillc_def
proof (intro allI conjI impI, goal_cases)
  case (2 xs b r)
  define x1 where "x1 = take 1 xs"
  define x3 where "x3 = take 3 (drop 1 xs)"
  define xb where "xb = take (length body) (drop 4 xs)"
  define x4 where "x4 = drop (length body) (drop 4 xs)"
  have len: "length xs = 8 + length body" using 2(1) by (simp add: psi_bytes_def section_bytes_def)
  have lens: "length x1 = 1" "length x3 = 3" "length xb = length body" "length x4 = 4"
    using len by (simp_all add: x1_def x3_def xb_def x4_def)
  have "drop 1 xs = x3 @ drop 4 xs" using append_take_drop_id [of 3 "drop 1 xs"] by (simp add: x3_def)
  then have xs: "xs = x1 @ x3 @ xb @ x4"
    using append_take_drop_id [of 1 xs] append_take_drop_id [of "length body" "drop 4 xs"] by (simp add: x1_def xb_def x4_def)
  have "fills (\<lambda>b. if \<not> require 1 b then Inl ERROR_STREAM_CASTER_TS_PSI else write_1bytes (psi_pointer_field psi) b) x1 [psi_pointer_field psi]"
    using lens(1) by (intro fills_puts [OF puts_require] puts_write) simp_all
  then obtain b1 where b1: "(if \<not> require 1 b then Inl ERROR_STREAM_CASTER_TS_PSI else write_1bytes (psi_pointer_field psi) b) = Inr b1"
      "buf_inv b1" "written b1 = written b @ [psi_pointer_field psi]" "remaining b1 = x3 @ xb @ x4 @ r"
    using 2(2,3) xs unfolding fills_def by (metis append.assoc)
  have "fills (\<lambda>b. res_bind (write_1bytes (psi_table_id psi) b) (write_2bytes (psi_slv psi))) x3 ([psi_table_id psi] @ be_bytes 2 (psi_slv psi))"
    using lens(2) by (intro fills_puts [OF puts_bind] puts_write) simp_all
  then obtain b3 where b3: "res_bind (write_1bytes (psi_table_id psi) b1) (write_2bytes (psi_slv psi)) = Inr b3"
      "buf_inv b3" "written b3 = written b1 @ [psi_table_id psi] @ be_bytes 2 (psi_slv psi)" "remaining b3 = xb @ x4 @ r"
    using b1 unfolding fills_def by metis
  then obtain b2 where b2: "write_1bytes (psi_table_id psi) b1 = Inr b2" "write_2bytes (psi_slv psi) b2 = Inr b3"
    by (auto simp: res_bind_Inr_iff)
  obtain b4 where b4: "enc psi b3 ctx = (Inr b4, ctx')" "buf_inv b4" "written b4 = written b3 @ body" "remaining b4 = x4 @ r"
    using e b3(2,4) lens(3) unfolding putc_def fillc_def by metis
  have "fills (write_4bytes (srs_crc32_mpegts (section_bytes psi body))) x4 (be_bytes 4 (srs_crc32_mpegts (section_bytes psi body)))"
    using lens(4) by (intro fills_write)
  then obtain b5 where b5: "write_4bytes (srs_crc32_mpegts (section_bytes psi body)) b4 = Inr b5" "buf_inv b5"
      "written b5 = written b4 @ be_bytes 4 (srs_crc32_mpegts (section_bytes psi body))" "remaining b5 = r"
    using b4(2,4) unfolding fills_def by metis
  have s: "written b4 = written b1 @ section_bytes psi body" using b3(3) b4(3) by (simp add: section_bytes_def)
  have bb: "buf_bytes b4 = written b4 @ remaining b4" by (simp add: written_def remaining_def)
  have f: "frame_string (drop (nat (pos b1)) (buf_bytes b4), pos b4 - pos b1) = Inr (section_bytes psi body)"
    unfolding bb s pos_written [OF b1(2)] pos_written [OF b4(2)] by (simp add: frame_string_def)
  have rq: "require 3 b1" "require (uint (psi_section_length psi)) b3" "require 4 b4" "psi_section_length psi \<noteq> 0"
    using b1(2,4) b3(2,4) b4(2,4) lens l by (auto simp: require_remaining)
  show ?case
    using b1(1) b2 b4(1) f b5 rq s b1(3)
    by (intro exI [of _ b5]) (simp add: psi_encode_def psi_bytes_def)
qed simp

subsection \<open>Packets\<close>

lemma puts_pkt_head:
  "putc k vs ctx ctx' \<Longrightarrow> putc (\<lambda>b ctx. if \<not> require 4 b then (Inl ERROR_STREAM_CASTER_TS_HEADER, ctx)
     else with_res (write_1bytes 0x47 b) ctx (\<lambda>b1. with_res (write_2bytes (packet_pidv (pes_pkt us pid cc False None None)) b1) ctx (\<lambda>b2.
        with_res (write_1bytes (packet_ccv (pes_pkt us pid cc False None None)) b2) ctx (\<lambda>b3. k b3 ctx))))
     (pkt_head us pid cc None @ vs) ctx ctx'"
  unfolding pkt_head_def append_assoc
  by (intro putc_require putc_with_res puts_write) simp_all

text \<open>A table packet as \<open>size\<close> leaves it.\<close>

definition table_pkt :: "u16 \<Rightarrow> SrsTsPayload \<Rightarrow> SrsTsPacketOut" where
  "table_pkt pid p = (SrsTsPacket_new True pid 0 (Some p))"

lemma write_table:
  assumes sync: "ctx_sync_byte ctx = 0x47"
    and sz: "payload_size True p0 = (int (length vs), p)" "length vs < 184"
    and enc: "putc (payload_encode (table_pkt pid p) p) vs ctx ctx'"
  shows "write_psi wr m (table_pkt pid p0) (ctx, w) =
    (let (r, w1) = wr w (pkt_head True pid 0 None @ vs @ replicate (184 - length vs) 0xFF) in (r, (ctx', w1)))"
proof -
  let ?k = "\<lambda>b ctx. payload_encode (table_pkt pid p) p b ctx"
  have s: "packet_size ((table_pkt pid p0)\<lparr>pk_sync_byte := ctx_sync_byte ctx\<rparr>) = (int (4 + length vs), table_pkt pid p)"
    using sync sz(1) by (simp add: packet_size_def table_pkt_def SrsTsPacket_new_def)
  have h: "packet_pidv (table_pkt pid p) = packet_pidv (pes_pkt True pid 0 False None None)"
    "packet_ccv (table_pkt pid p) = packet_ccv (pes_pkt True pid 0 False None None)"
    by (simp_all add: packet_pidv_def packet_ccv_def table_pkt_def SrsTsPacket_new_def pes_pkt_def)
  have "packet_encode (table_pkt pid p) = (\<lambda>b ctx. if \<not> require 4 b then (Inl ERROR_STREAM_CASTER_TS_HEADER, ctx)
     else with_res (write_1bytes 0x47 b) ctx (\<lambda>b1. with_res (write_2bytes (packet_pidv (pes_pkt True pid 0 False None None)) b1) ctx (\<lambda>b2.
        with_res (write_1bytes (packet_ccv (pes_pkt True pid 0 False None None)) b2) ctx (\<lambda>b3. ?k b3 ctx))))"
    unfolding packet_encode_def [abs_def] h by (simp add: table_pkt_def SrsTsPacket_new_def cong: if_cong)
  then have "putc (packet_encode (table_pkt pid p)) (pkt_head True pid 0 None @ vs) ctx ctx'"
    using puts_pkt_head [OF enc, of True pid 0] by simp
  moreover have "length (take (4 + length vs) (new_block m)) = 4 + length vs" using sz(2) by (simp add: new_block_def)
  ultimately have "fillc (packet_encode (table_pkt pid p)) (take (4 + length vs) (new_block m)) (pkt_head True pid 0 None @ vs) ctx ctx'"
    unfolding putc_def by (simp add: pkt_head_def)
  from fillc_block [OF this] obtain st where
    "packet_encode (table_pkt pid p) (SrsBuffer_new (take (4 + length vs) (new_block m))) ctx = (Inr st, ctx')"
    "buf_bytes st = pkt_head True pid 0 None @ vs" by blast
  moreover have "nat (188 - int (4 + length vs)) = 184 - length vs" "nat (int (4 + length vs)) = 4 + length vs" using sz(2) by linarith+
  ultimately show ?thesis
    using sz(2) unfolding write_psi_def s prod.case by (simp add: write_block_def min_def new_block_def)
qed

section \<open>Reading the tables\<close>

lemma psi_bytes_decode:
  assumes b: "buf_inv b" "remaining b = psi_bytes psi body @ r" and us: "pk_payload_unit_start_indicator packet"
    and l: "psi_slv psi AND 0x0FFF = of_nat (length body + 4)" "length body < 1000"
    and dec: "\<And>b. buf_inv b \<Longrightarrow> remaining b = body @ be_bytes 4 (srs_crc32_mpegts (section_bytes psi body)) @ r \<Longrightarrow>
      f packet (of_nat (length body + 4)) b ctx = (Inr (advance (length body) b), ctx')"
  obtains b' where "psi_decode f packet b ctx = (Inr (None, b'), ctx')" "buf_empty b'"
proof -
  let ?crc = "srs_crc32_mpegts (section_bytes psi body)"
  let ?l = "of_nat (length body + 4) :: u16"
  have rem: "remaining b = psi_pointer_field psi # psi_table_id psi # be_bytes 2 (psi_slv psi) @ body @ be_bytes 4 ?crc @ r"
    using b(2) by (simp add: psi_bytes_def section_bytes_def)
  have "remaining b = [psi_pointer_field psi] @ psi_table_id psi # be_bytes 2 (psi_slv psi) @ body @ be_bytes 4 ?crc @ r" "buf_inv b"
    using rem b(1) by simp_all
  from field_front(1) [OF this(2,1), of ERROR_STREAM_CASTER_TS_PSI] field_front(2,3) [OF this(2,1)] obtain b1 where
    b1: "field ERROR_STREAM_CASTER_TS_PSI 1 b = Inr b1" "buf_inv b1"
      "remaining b1 = psi_table_id psi # be_bytes 2 (psi_slv psi) @ body @ be_bytes 4 ?crc @ r" by auto
  note b2 = read_1_Cons [OF b1(2,3)]
  note b3 = read_2_front [OF b2(2,3)]
  let ?b3 = "advance 2 (advance 1 b1)"
  have ul: "uint ?l = int (length body + 4)" using l(2) uint_u16_int [of "int (length body + 4)"] by simp
  then have l0: "?l \<noteq> 0" by (auto simp: word_uint_eq_iff)
  have r3: "require 3 b1" "require (uint ?l) ?b3"
    using b1(2,3) b3(2,3) ul by (simp_all add: require_remaining)
  note d = dec [OF b3(2,3)]
  have b4: "buf_inv (advance (length body) ?b3)" "remaining (advance (length body) ?b3) = be_bytes 4 ?crc @ r"
    using advance_ok(2,3) [OF b3(2), of "length body"] b3(3) by simp_all
  note b5 = read_4_front [OF b4]
  let ?b5 = "advance 4 (advance (length body) ?b3)"
  have r4: "require 4 (advance (length body) ?b3)" using b4 by (simp add: require_remaining)
  have fs: "frame_string (remaining b1, pos ?b5 - pos b1 - 4) = Inr (section_bytes psi body)"
  proof -
    have "remaining b1 = section_bytes psi body @ be_bytes 4 ?crc @ r" using b1(3) by (simp add: section_bytes_def)
    moreover have "pos ?b5 - pos b1 - 4 = int (length (section_bytes psi body))"
      by (simp add: advance_def pos_def section_bytes_def)
    ultimately show ?thesis by (simp add: frame_string_def)
  qed
  have sk: "skip (buf_nb ?b5 - pos ?b5) ?b5 = Inr (advance (length r) ?b5)"
    using advance_ok(1) [OF b5(2), of "length r"] b5(3) left_remaining [OF b5(2)] by (simp add: left_def pos_def)
  have e: "buf_empty ?b5 \<longleftrightarrow> r = []" "buf_empty (advance (length r) ?b5)"
    using buf_empty_remaining [OF b5(2)] b5(3) advance_ok(2,3) [OF b5(2), of "length r"] by (simp_all add: buf_empty_remaining)
  have "psi_decode f packet b ctx = (Inr (None, if r = [] then ?b5 else advance (length r) ?b5), ctx')"
    using us r3 l0 r4 sk e(1) b1(1) unfolding psi_decode_def
    by (simp add: opt_def b2(1) b3(1) l(1) d b5(1) fs del: of_nat_add advance_simps One_nat_def)
  then show thesis using e by (intro that) auto
qed

lemma program_bytes_decode:
  assumes "buf_inv b" "remaining b = program_bytes (SrsTsPayloadPATProgram_new 1 0x1001) @ r"
  shows "pat_programs 1 b ctx = (Inr (advance 4 b), ctx_set 0x1001 SrsTsPidApplyPMT 0 ctx)"
proof -
  have "program_bytes (SrsTsPayloadPATProgram_new 1 0x1001) = be_bytes 4 (0x1F001 :: u32)"
    by (simp add: program_bytes_def SrsTsPayloadPATProgram_new_def)
  from read_4_front [OF assms(1) assms(2) [unfolded this]] assms show ?thesis
    by (simp add: require_remaining program_bytes_def)
qed

lemma pat_body_decode:
  assumes b: "buf_inv b" "remaining b = pat_body pat @ r" and ps: "pat_programs_out pat = [SrsTsPayloadPATProgram_new 1 0x1001]"
    and us: "pk_pid packet = 0"
  shows "pat_psi_decode packet (of_nat (length (pat_body pat) + 4)) b ctx = (Inr (advance (length (pat_body pat)) b),
    on_pmt_parsed (ctx_set 0 SrsTsPidApplyPAT 0 (ctx_set 0x1001 SrsTsPidApplyPMT 0 ctx)))"
proof -
  let ?p = "program_bytes (SrsTsPayloadPATProgram_new 1 0x1001)"
  define h where "h = take 5 (pat_body pat)"
  have pb: "pat_body pat = h @ ?p" "length h = 5" using ps by (simp_all add: h_def pat_body_def)
  have l: "length (pat_body pat) = 9" using pb by (simp add: program_bytes_def)
  have "remaining b = h @ ?p @ r" using b(2) pb(1) by simp
  note b1 = read_bytes_front [OF b(1) this, unfolded pb(2)]
  have rb: "read_bytes 5 b = Inr (h, advance 5 b)" using b1(1) by simp
  note p = program_bytes_decode [OF b1(2,3)]
  have n: "nat ((uint (of_nat (length (pat_body pat) + 4) :: u16) - 4 - (pos (advance 5 b) - pos b) + 3) div 4) = 1"
    unfolding l by (simp add: advance_def pos_def)
  have r: "require 5 b" using b l by (simp add: require_remaining)
  have a: "advance 4 (advance 5 b) = advance (length (pat_body pat)) b" unfolding l by (simp add: advance_def)
  show ?thesis
    using r us unfolding pat_psi_decode_def rb with_res_simps prod.case Let_def n p a sum.case by simp
qed

lemma es_bytes_new:
  "pid AND 0x1FFF = pid \<Longrightarrow> es_bytes (SrsTsPayloadPMTESInfo_new st pid) = [st] @ be_bytes 2 (pid OR 0xE000) @ be_bytes 2 (0xF000 :: u16)"
  by (simp add: es_bytes_def SrsTsPayloadPMTESInfo_new_def)

lemma es_bytes_decode:
  assumes "buf_inv b" "remaining b = es_bytes (SrsTsPayloadPMTESInfo_new st pid) @ r" "pid AND 0x1FFF = pid"
  shows "pmt_es_info b = Inr ((st, pid), advance 5 b)" "buf_inv (advance 5 b)" "remaining (advance 5 b) = r"
proof -
  note h = assms(2) [unfolded es_bytes_new [OF assms(3)] append_assoc append_Cons append_Nil]
  note b1 = read_1_Cons [OF assms(1) h]
  note b2 = read_2_front [OF b1(2,3)]
  note b3 = read_2_front [OF b2(2,3)]
  have a: "advance 2 (advance 2 (advance 1 b)) = advance 5 b" by (simp add: advance_def)
  have "require 5 b" using assms(1) h by (simp add: require_remaining)
  moreover have "(pid OR 0xE000) AND 0x1FFF = pid" using assms(3) by (simp add: bit.conj_disj_distrib2)
  ultimately show "pmt_es_info b = Inr ((st, pid), advance 5 b)"
    unfolding pmt_es_info_def b1(1) b2(1) b3(1) res_bind_simps prod.case Let_def a by simp
  show "buf_inv (advance 5 b)" "remaining (advance 5 b) = r" using b3(2,3) a by simp_all
qed

lemma pmt_infos_decode:
  assumes "buf_inv b" "remaining b = concat (map es_bytes (map (case_prod SrsTsPayloadPMTESInfo_new) is)) @ r"
    "\<forall>(st, pid) \<in> set is. pid AND 0x1FFF = pid"
  shows "pmt_infos (pos b + 5 * int (length is)) b ctx = (Inr (advance (5 * length is) b), fold (\<lambda>(st, pid). apply_es st pid) is ctx)"
  using assms
proof (induction "is" arbitrary: b ctx)
  case Nil
  then show ?case by (simp add: pmt_infos.simps)
next
  case (Cons i "is")
  obtain st pid where i: "i = (st, pid)" by (cases i)
  have "remaining b = es_bytes (SrsTsPayloadPMTESInfo_new st pid) @ concat (map es_bytes (map (case_prod SrsTsPayloadPMTESInfo_new) is)) @ r"
    using Cons.prems(2) i by simp
  note d = es_bytes_decode [OF Cons.prems(1) this]
  have e: "pos b + 5 * int (length (i # is)) = pos (advance 5 b) + 5 * int (length is)" by (simp add: advance_def pos_def)
  have "pos b < pos (advance 5 b) + 5 * int (length is)" by (simp add: advance_def pos_def)
  then have "pmt_infos (pos (advance 5 b) + 5 * int (length is)) b ctx =
      pmt_infos (pos (advance 5 b) + 5 * int (length is)) (advance 5 b) (apply_es st pid ctx)"
    using d(1) Cons.prems(3) i by (subst pmt_infos.simps) simp
  with Cons.IH [OF d(2,3)] Cons.prems(3) i show ?case unfolding e by simp
qed

lemma length_es_new: "length (es_bytes (SrsTsPayloadPMTESInfo_new st pid)) = 5"
  by (simp add: es_bytes_def SrsTsPayloadPMTESInfo_new_def)

lemma length_es_list: "length (concat (map es_bytes (map (case_prod SrsTsPayloadPMTESInfo_new) is))) = 5 * length is"
  by (induction "is") (auto simp: length_es_new)

lemma pmt_body_decode:
  assumes b: "buf_inv b" "remaining b = pmt_body pmt @ r" and d: "pmt_program_info_desc pmt = []" "pmt_const1_value2 pmt = 0x0f"
    and i: "pmt_infos_out pmt = map (case_prod SrsTsPayloadPMTESInfo_new) is" "\<forall>(st, pid) \<in> set is. pid AND 0x1FFF = pid" "length is \<le> 2"
  shows "pmt_psi_decode packet (of_nat (length (pmt_body pmt) + 4)) b ctx = (Inr (advance (length (pmt_body pmt)) b),
    ctx_set (pk_pid packet) SrsTsPidApplyPMT 0 (fold (\<lambda>(st, pid). apply_es st pid) is ctx))"
proof -
  define es where "es = concat (map es_bytes (map (case_prod SrsTsPayloadPMTESInfo_new) is))"
  define h where "h = take 7 (pmt_body pmt)"
  have pb: "pmt_body pmt = h @ be_bytes 2 (0xF000 :: u16) @ es" "length h = 7"
    using d i(1) by (simp_all add: h_def pmt_body_def es_def)
  have l: "length (pmt_body pmt) = 9 + 5 * length is" using pb length_es_list [of "is"] by (simp add: es_def)
  have "remaining b = h @ be_bytes 2 (0xF000 :: u16) @ es @ r" using b(2) pb(1) by simp
  note b1 = read_bytes_front [OF b(1) this, unfolded pb(2)]
  have rb: "read_bytes 7 b = Inr (h, advance 7 b)" using b1(1) by simp
  note b2 = read_2_front [OF b1(2,3)]
  note p = pmt_infos_decode [OF b2(2) b2(3) [unfolded es_def] i(2)]
  have r: "require 9 b" using b l by (simp add: require_remaining)
  have u: "uint (of_nat (length (pmt_body pmt) + 4) :: u16) = 13 + 5 * int (length is)"
    unfolding l using uint_u16_int [of "13 + 5 * int (length is)"] i(3) by (simp add: ac_simps)
  have e: "pos (advance 2 (advance 7 b)) + uint (of_nat (length (pmt_body pmt) + 4) :: u16) - 4 - 9 - uint (0 :: u16) =
      pos (advance 2 (advance 7 b)) + 5 * int (length is)" unfolding u by simp
  have a: "advance (5 * length is) (advance 2 (advance 7 b)) = advance (length (pmt_body pmt)) b"
    unfolding l by (simp add: advance_def)
  have z: "(0xF000 AND 0xFFF :: u16) = 0" "opt (0 < (0 :: u16)) f x = Inr x" for f x by simp_all
  show ?thesis
    using r unfolding pmt_psi_decode_def rb b2(1) with_res_simps prod.case Let_def z e p a sum.case by simp
qed

section \<open>The tables of the encoder\<close>

definition es_list :: "u16 \<Rightarrow> u8 \<Rightarrow> u16 \<Rightarrow> u8 \<Rightarrow> (u8 \<times> u16) list" where
  "es_list vpid vs apid as = (if as = 0x0f \<or> as = 0x03 then [(as, apid)] else []) @ (if vs = 0x1b \<or> vs = 0x24 then [(vs, vpid)] else [])"

definition table_setup :: "(u8 \<times> u16) list \<Rightarrow> (SrsTsContext \<Rightarrow> SrsTsContext) \<Rightarrow> SrsTsContext \<Rightarrow> SrsTsContext" where
  "table_setup is f ctx = ctx_set 0x1001 SrsTsPidApplyPMT 0 (fold (\<lambda>(st, pid). apply_es st pid) is
     (f (ctx_set 0 SrsTsPidApplyPAT 0 (ctx_set 0x1001 SrsTsPidApplyPMT 0 ctx))))"

definition pat_out :: SrsTsPayloadPAT where
  "pat_out = SrsTsPayloadPAT_new\<lparr>psi_pointer_field := 0, psi_table_id := 0x00,
       psi_section_syntax_indicator := 1, psi_section_length := 13, pat_transport_stream_id := 1,
       pat_version_number := 0, pat_current_next_indicator := 1, pat_section_number := 0,
       pat_last_section_number := 0, pat_programs_out := [SrsTsPayloadPATProgram_new 1 0x1001]\<rparr>"

definition pat_block :: "u8 list" where
  "pat_block = pkt_head True 0 0 None @ psi_bytes pat_out (pat_body pat_out) @ replicate 167 0xFF"

lemma pat_out_simps:
  "pat_programs_out pat_out = [SrsTsPayloadPATProgram_new 1 0x1001]" "length (pat_body pat_out) = 9"
  "psi_slv pat_out AND 0x0FFF = 13" "psi_section_length pat_out = 13"
  by (simp_all add: pat_out_def pat_body_def program_bytes_def psi_slv_def SrsTsPayloadPAT_new_def SrsTsPayloadPSI_new_def
      SrsTsPayloadPSI.defs)

lemma write_pat:
  assumes "ctx_sync_byte ctx = 0x47"
  shows "write_psi wr m (create_pat 1 0x1001) (ctx, w) =
    (let (r, w1) = wr w pat_block in (r, (ctx_set 0 SrsTsPidApplyPAT 0 (ctx_set 0x1001 SrsTsPidApplyPMT 0 ctx), w1)))"
proof -
  let ?q = "SrsTsPayload_PAT (pat_out\<lparr>psi_section_length := 0\<rparr>)"
  have c: "create_pat 1 0x1001 = table_pkt 0 ?q"
    by (simp add: create_pat_def table_pkt_def pat_out_def SrsTsPayloadPAT_new_def SrsTsPayloadPSI_new_def SrsTsPayloadPSI.defs)
  have "payload_size True ?q = (17, SrsTsPayload_PAT pat_out)"
    by (simp add: payload_size_def psi_size_def pat_psi_size_def pat_out_def SrsTsPayloadPAT_new_def SrsTsPayloadPSI_new_def SrsTsPayloadPSI.defs)
  then have sz: "payload_size True ?q = (int (length (psi_bytes pat_out (pat_body pat_out))), SrsTsPayload_PAT pat_out)"
    by (simp add: psi_bytes_def section_bytes_def pat_out_simps)
  have "putc (psi_encode (pat_psi_encode 0) True pat_out) (psi_bytes pat_out (pat_body pat_out)) ctx
      (ctx_set 0 SrsTsPidApplyPAT 0 (ctx_set 0x1001 SrsTsPidApplyPMT 0 ctx))"
    using putc_pat [of 0 pat_out ctx]
    by (intro putc_psi) (simp_all add: pat_out_simps SrsTsPayloadPATProgram_new_def)
  then have enc: "putc (payload_encode (table_pkt 0 (SrsTsPayload_PAT pat_out)) (SrsTsPayload_PAT pat_out))
      (psi_bytes pat_out (pat_body pat_out)) ctx (ctx_set 0 SrsTsPidApplyPAT 0 (ctx_set 0x1001 SrsTsPidApplyPMT 0 ctx))"
    by (simp add: payload_encode_def [abs_def] table_pkt_def SrsTsPacket_new_def)
  show ?thesis
    using write_table [OF assms sz _ enc] c by (simp add: pat_block_def psi_bytes_def section_bytes_def pat_out_simps)
qed

definition pmt_out :: "u16 \<Rightarrow> (u8 \<times> u16) list \<Rightarrow> SrsTsPayloadPMT" where
  "pmt_out pcr is = SrsTsPayloadPMT_new\<lparr>psi_pointer_field := 0, psi_table_id := 0x02, psi_section_syntax_indicator := 1,
     psi_section_length := of_nat (13 + 5 * length is), pmt_program_number := 1, pmt_version_number := 0,
     pmt_current_next_indicator := 1, pmt_section_number := 0, pmt_last_section_number := 0, pmt_PCR_PID := pcr,
     pmt_infos_out := map (case_prod SrsTsPayloadPMTESInfo_new) is\<rparr>"

definition pmt_block :: "u16 \<Rightarrow> (u8 \<times> u16) list \<Rightarrow> u8 list" where
  "pmt_block pcr is = pkt_head True 0x1001 0 None @ psi_bytes (pmt_out pcr is) (pmt_body (pmt_out pcr is)) @
     replicate (184 - (17 + 5 * length is)) 0xFF"

lemmas pmt_new_defs = SrsTsPayloadPMT_new_def SrsTsPayloadPSI_new_def SrsTsPayloadPSI.defs

lemma pmt_out_simps:
  "pmt_infos_out (pmt_out pcr is) = map (case_prod SrsTsPayloadPMTESInfo_new) is"
  "pmt_program_info_desc (pmt_out pcr is) = []" "pmt_const1_value2 (pmt_out pcr is) = 0x0f"
  "psi_section_length (pmt_out pcr is) = of_nat (13 + 5 * length is)"
  by (simp_all add: pmt_out_def pmt_new_defs)

lemma length_pmt_body: "length (pmt_body (pmt_out pcr is)) = 9 + 5 * length is"
  using length_es_list [of "is"] by (simp add: pmt_body_def pmt_out_simps)

lemma pmt_section_length:
  assumes "length is \<le> 2"
  shows "uint (of_nat (13 + 5 * length is) :: u16) = int (13 + 5 * length is)"
    "psi_slv (pmt_out pcr is) AND 0x0FFF = of_nat (13 + 5 * length is)"
proof -
  have "length is = 0 \<or> length is = 1 \<or> length is = 2" using assms by linarith
  then show "uint (of_nat (13 + 5 * length is) :: u16) = int (13 + 5 * length is)"
    "psi_slv (pmt_out pcr is) AND 0x0FFF = of_nat (13 + 5 * length is)"
    by (auto simp: psi_slv_def pmt_out_def pmt_new_defs)
qed

lemma write_pmt:
  assumes "ctx_sync_byte ctx = 0x47" "length is \<le> 2"
  shows "write_psi wr m (table_pkt 0x1001 (SrsTsPayload_PMT ((pmt_out pcr is)\<lparr>psi_section_length := 0\<rparr>))) (ctx, w) =
    (let (r, w1) = wr w (pmt_block pcr is) in
     (r, (ctx_set 0x1001 SrsTsPidApplyPMT 0 (fold (\<lambda>(st, pid). apply_es st pid) is ctx), w1)))"
proof -
  let ?p = "pmt_out pcr is"
  let ?q = "SrsTsPayload_PMT (?p\<lparr>psi_section_length := 0\<rparr>)"
  let ?ctx = "ctx_set 0x1001 SrsTsPidApplyPMT 0 (fold (\<lambda>(st, pid). apply_es st pid) is ctx)"
  have f: "fold (\<lambda>i. apply_es (es_stream_type i) (es_elementary_PID i)) (map (case_prod SrsTsPayloadPMTESInfo_new) is) c =
      fold (\<lambda>(st, pid). apply_es st pid) is c" for c
    by (induction "is" arbitrary: c) (auto simp: SrsTsPayloadPMTESInfo_new_def)
  have "sum_list (map es_info_size (map (case_prod SrsTsPayloadPMTESInfo_new) is)) = 5 * int (length is)"
    by (induction "is") (auto simp: es_info_size_def SrsTsPayloadPMTESInfo_new_def)
  then have "pmt_psi_size (?p\<lparr>psi_section_length := 0\<rparr>) + 4 = int (13 + 5 * length is)"
    by (simp add: pmt_psi_size_def pmt_out_def pmt_new_defs)
  then have "payload_size True ?q = (int (17 + 5 * length is), SrsTsPayload_PMT ?p)"
    using pmt_section_length(1) [OF assms(2)] by (simp add: payload_size_def psi_size_def pmt_out_def)
  then have sz: "payload_size True ?q = (int (length (psi_bytes ?p (pmt_body ?p))), SrsTsPayload_PMT ?p)"
    by (simp add: psi_bytes_def section_bytes_def length_pmt_body)
  have "putc (psi_encode (pmt_psi_encode 0x1001) True ?p) (psi_bytes ?p (pmt_body ?p)) ctx ?ctx"
    using putc_pmt [of "0x1001" ?p ctx] pmt_section_length(1) [OF assms(2)]
    by (intro putc_psi) (simp_all add: pmt_out_simps length_pmt_body f)
  then have enc: "putc (payload_encode (table_pkt 0x1001 (SrsTsPayload_PMT ?p)) (SrsTsPayload_PMT ?p)) (psi_bytes ?p (pmt_body ?p)) ctx ?ctx"
    by (simp add: payload_encode_def [abs_def] table_pkt_def SrsTsPacket_new_def)
  show ?thesis
    using write_table [OF assms(1) sz _ enc] assms(2) by (simp add: pmt_block_def psi_bytes_def section_bytes_def length_pmt_body)
qed

lemma create_pmt_out:
  assumes "vs = 0x1b \<or> as = 0x0f \<or> as = 0x03 \<or> vs = 0x24"
  shows "create_pmt 1 0x1001 vpid vs apid as = Inr (table_pkt 0x1001 (SrsTsPayload_PMT
    ((pmt_out (if vs = 0x1b \<or> vs = 0x24 then vpid else apid) (es_list vpid vs apid as))\<lparr>psi_section_length := 0\<rparr>)))"
  using assms by (auto simp: create_pmt_def table_pkt_def pmt_out_def es_list_def pmt_new_defs Let_def)

section \<open>Decoding the tables\<close>

lemma table_block_decode:
  assumes blk: "blk = pkt_head True pid 0 None @ psi_bytes psi body @ r" and pid: "pid AND 0x1FFF = pid"
    and f: "pid = 0 \<and> f = pat_psi_decode \<or>
      pid \<noteq> 0 \<and> (\<exists>c. ctx_get pid ctx = Some c \<and> ch_apply c = SrsTsPidApplyPMT) \<and> f = pmt_psi_decode"
    and l: "psi_slv psi AND 0x0FFF = of_nat (length body + 4)" "length body < 1000"
    and dec: "\<And>packet b. pk_pid packet = pid \<Longrightarrow> buf_inv b \<Longrightarrow>
      remaining b = body @ be_bytes 4 (srs_crc32_mpegts (section_bytes psi body)) @ r \<Longrightarrow>
      f packet (of_nat (length body + 4)) b ctx = (Inr (advance (length body) b), ctx')"
  shows "ts_context_decode handler (SrsBuffer_new blk) ctx s = (srs_success, ctx', s)"
proof -
  let ?b = "SrsBuffer_new blk"
  let ?pk = "\<lparr>pk_payload_unit_start_indicator = True, pk_pid = pid, pk_adaption_field_control = 1, pk_continuity_counter = 0\<rparr>"
  have h: "buf_inv ?b" "remaining ?b = pkt_head True pid 0 None @ psi_bytes psi body @ r" by (simp_all add: blk)
  note b1 = pkt_head_decode [OF h pid]
  have "ts_packet_decode ?b ctx = psi_decode f ?pk (advance 4 ?b) ctx"
    using f unfolding ts_packet_decode_def b1(1) with_res_simps prod.case Let_def SrsTsPacket.select_convs by auto
  moreover obtain b' where "psi_decode f ?pk (advance 4 ?b) ctx = (Inr (None, b'), ctx')" "buf_empty b'"
    by (rule psi_bytes_decode [OF b1(2,3) _ l, where f = f and packet = ?pk and ctx = ctx and ctx' = ctx']) (use dec [of ?pk] in auto)
  moreover have "\<not> buf_empty ?b" by (simp add: buf_empty_remaining blk pkt_head_def)
  ultimately show ?thesis
    by (simp add: ts_context_decode.simps [of handler ?b] ts_context_decode.simps [of handler b'])
qed

lemma pat_block_decode:
  "ts_context_decode handler (SrsBuffer_new pat_block) ctx s =
    (srs_success, on_pmt_parsed (ctx_set 0 SrsTsPidApplyPAT 0 (ctx_set 0x1001 SrsTsPidApplyPMT 0 ctx)), s)"
proof (rule table_block_decode [OF pat_block_def, where f = pat_psi_decode])
  fix packet :: SrsTsPacket and b
  assume "pk_pid packet = 0" "buf_inv b" "remaining b = pat_body pat_out @
    be_bytes 4 (srs_crc32_mpegts (section_bytes pat_out (pat_body pat_out))) @ replicate 167 0xFF"
  then show "pat_psi_decode packet (of_nat (length (pat_body pat_out) + 4)) b ctx = (Inr (advance (length (pat_body pat_out)) b),
      on_pmt_parsed (ctx_set 0 SrsTsPidApplyPAT 0 (ctx_set 0x1001 SrsTsPidApplyPMT 0 ctx)))"
    using pat_body_decode [OF _ _ pat_out_simps(1)] by blast
qed (simp_all add: pat_out_simps)

lemma pmt_block_decode:
  assumes "ctx_get 0x1001 ctx = Some c" "ch_apply c = SrsTsPidApplyPMT" "length is \<le> 2" "\<forall>(st, pid) \<in> set is. pid AND 0x1FFF = pid"
  shows "ts_context_decode handler (SrsBuffer_new (pmt_block pcr is)) ctx s =
    (srs_success, ctx_set 0x1001 SrsTsPidApplyPMT 0 (fold (\<lambda>(st, pid). apply_es st pid) is ctx), s)"
proof (rule table_block_decode [OF pmt_block_def, where f = pmt_psi_decode])
  show "psi_slv (pmt_out pcr is) AND 0x0FFF = of_nat (length (pmt_body (pmt_out pcr is)) + 4)"
    using pmt_section_length(2) [OF assms(3)] by (simp add: length_pmt_body)
  fix packet :: SrsTsPacket and b
  assume "pk_pid packet = 0x1001" "buf_inv b" "remaining b = pmt_body (pmt_out pcr is) @
    be_bytes 4 (srs_crc32_mpegts (section_bytes (pmt_out pcr is) (pmt_body (pmt_out pcr is)))) @ replicate (184 - (17 + 5 * length is)) 0xFF"
  then show "pmt_psi_decode packet (of_nat (length (pmt_body (pmt_out pcr is)) + 4)) b ctx =
    (Inr (advance (length (pmt_body (pmt_out pcr is))) b),
     ctx_set 0x1001 SrsTsPidApplyPMT 0 (fold (\<lambda>(st, pid). apply_es st pid) is ctx))"
    using pmt_body_decode [OF _ _ pmt_out_simps(2,3,1) assms(4,3), where packet = packet and b = b] by simp
qed (use assms in \<open>simp_all add: length_pmt_body\<close>)

lemma length_pat_block: "length pat_block = 188"
  by (simp add: pat_block_def pkt_head_def psi_bytes_def section_bytes_def pat_out_simps)

lemma length_pmt_block: "length is \<le> 2 \<Longrightarrow> length (pmt_block pcr is) = 188"
  by (simp add: pmt_block_def pkt_head_def psi_bytes_def section_bytes_def length_pmt_body)

lemma ctx_get_set: "ctx_get q (ctx_set pid a st ctx) = (if q = pid then Some ((case ctx_get pid ctx of None \<Rightarrow> SrsTsChannel_new | Some c \<Rightarrow> c)
    \<lparr>ch_pid := pid, ch_apply := a, ch_stream := st\<rparr>) else ctx_get q ctx)"
  by (simp add: ctx_get_def ctx_set_def sm_find_put_app Let_def)

lemma ctx_get_on_pmt_parsed [simp]: "ctx_get q (on_pmt_parsed ctx) = ctx_get q ctx"
  by (simp add: ctx_get_def on_pmt_parsed_def)

lemma tables_roundtrip:
  assumes "ctx_sync_byte e = 0x47" "vs = 0x1b \<or> as = 0x0f \<or> as = 0x03 \<or> vs = 0x24" "vpid AND 0x1FFF = vpid" "apid AND 0x1FFF = apid"
  obtains ps where "encode_pat_pmt collect mem vpid vs apid as (e, w) =
      (srs_success, ((table_setup (es_list vpid vs apid as) (\<lambda>c. c) e)\<lparr>ctx_ready := True\<rparr>, w @ ps))"
    "\<forall>p \<in> set ps. length p = 188" "\<And>(handler :: u8 \<Rightarrow> SrsTsMessage \<Rightarrow> 's \<Rightarrow> 's outcome) s. decode_packets handler ps d s = (srs_success, table_setup (es_list vpid vs apid as) on_pmt_parsed d, s)"
proof -
  let ?is = "es_list vpid vs apid as" and ?pcr = "if vs = 0x1b \<or> vs = 0x24 then vpid else apid"
  let ?e = "ctx_set 0 SrsTsPidApplyPAT 0 (ctx_set 0x1001 SrsTsPidApplyPMT 0 e)"
  let ?d = "on_pmt_parsed (ctx_set 0 SrsTsPidApplyPAT 0 (ctx_set 0x1001 SrsTsPidApplyPMT 0 d))"
  have l: "length ?is \<le> 2" "\<forall>(st, pid) \<in> set ?is. pid AND 0x1FFF = pid" using assms(3,4) by (auto simp: es_list_def)
  have sync: "ctx_sync_byte ?e = 0x47" using assms(1) by (simp add: ctx_set_def Let_def)
  have "ctx_get 0x1001 ?d \<noteq> None" "ch_apply (the (ctx_get 0x1001 ?d)) = SrsTsPidApplyPMT" by (simp_all add: ctx_get_set)
  then obtain c where c: "ctx_get 0x1001 ?d = Some c" "ch_apply c = SrsTsPidApplyPMT" by auto
  show thesis
    by (rule that [of "[pat_block, pmt_block ?pcr ?is]"])
      (use assms(2) in \<open>simp_all add: encode_pat_pmt_def write_pat [OF assms(1)] create_pmt_out write_pmt [OF sync l(1)] collect_def
        pat_block_decode pmt_block_decode [OF c l] table_setup_def length_pat_block length_pmt_block [OF l(1)]\<close>)
qed

end
