(* ===== verification/Ts_Stream.thy ===== *)
theory Ts_Stream
  imports Ts_Tables
begin

text \<open>
  The encoder and the decoder of \<open>kernel/srs_kernel_ts.cpp\<close> together: the invariant that relates the two contexts, the round
  trip of a sequence of messages, and what a failing writer leads to.
\<close>

section \<open>Round trip of a stream\<close>

text \<open>A call of the encoder: the message and the codecs. The message has a payload, times of 33 bits, and
  one of the codecs is for it.\<close>

type_synonym ts_send = "SrsTsMessage \<times> u8 \<times> u8"

definition sendable :: "ts_send \<Rightarrow> bool" where
  "sendable = (\<lambda>(msg, vc, ac). msg_payload msg \<noteq> [] \<and> plain_sid (msg_sid msg) \<and>
     take_bit 33 (msg_dts msg) = msg_dts msg \<and> take_bit 33 (msg_pts msg) = msg_pts msg \<and>
     (if msg_is_audio msg then ac = 10 \<or> ac = 2 else vc = 7 \<or> vc = 12))"

definition send_stream :: "ts_send \<Rightarrow> u8 \<times> u16" where
  "send_stream = (\<lambda>(msg, vc, ac). if msg_is_audio msg then audio_stream ac else video_stream vc)"

primrec encode_all :: "(nat \<Rightarrow> nat \<Rightarrow> nat \<Rightarrow> u8) \<Rightarrow> ts_send list \<Rightarrow> SrsTsContext \<times> u8 list list \<Rightarrow> (SrsTsContext \<times> u8 list list) outcome" where
  "encode_all mem [] s = (srs_success, s)"
| "encode_all mem (x # xs) s =
     and_then (ts_encode collect (mem 0) (fst x) (fst (snd x)) (snd (snd x)) s) (encode_all (\<lambda>k. mem (Suc k)) xs)"

text \<open>What a receiver sees of a message.\<close>

definition media_of :: "u8 \<Rightarrow> SrsTsMessage \<Rightarrow> u8 \<times> u8 \<times> u64 \<times> u64 \<times> u8 list" where
  "media_of strm m = (strm, msg_sid m, msg_dts m, msg_pts m, msg_payload m)"

definition keep_media :: "u8 \<Rightarrow> SrsTsMessage \<Rightarrow> (u8 \<times> u8 \<times> u64 \<times> u64 \<times> u8 list) list \<Rightarrow> (u8 \<times> u8 \<times> u64 \<times> u64 \<times> u8 list) list outcome" where
  "keep_media strm m s = (srs_success, s @ [media_of strm m])"


text \<open>The receiver holds a message that is too long for the length field until the next message on the same PID
  begins. \<open>held\<close> are these messages; the stream type is the one that the PID has by then.\<close>

definition long :: "SrsTsMessage \<Rightarrow> bool" where
  "long msg \<longleftrightarrow> announced (msg_dts msg) (msg_pts msg) (length (msg_payload msg)) = 0"

primrec deliveries :: "(u16 \<rightharpoonup> SrsTsMessage) \<Rightarrow> ts_send list \<Rightarrow> (u8 \<times> u8 \<times> u64 \<times> u64 \<times> u8 list) list" where
  "deliveries held [] = []"
| "deliveries held (x # xs) =
     (let (strm, pid) = send_stream x in
      (case held pid of None \<Rightarrow> [] | Some m \<Rightarrow> [media_of strm m]) @
      (if long (fst x) then deliveries (held(pid \<mapsto> fst x)) xs
       else media_of strm (fst x) # deliveries (held(pid := None)) xs))"

lemma deliveries_short:
  "\<forall>x \<in> set xs. \<not> long (fst x) \<Longrightarrow> held = Map.empty \<Longrightarrow>
   deliveries held xs = map (\<lambda>x. media_of (fst (send_stream x)) (fst x)) xs"
  by (induction xs arbitrary: held) (auto simp: case_prod_beta Let_def fun_upd_idem)

text \<open>The channels of the receiver fit the codecs of the sender, and no other message is pending.\<close>

definition holds_at :: "u16 \<Rightarrow> SrsTsMessage option \<Rightarrow> SrsTsContext \<Rightarrow> SrsTsMessage option \<Rightarrow> bool" where
  "holds_at q h e mo \<longleftrightarrow> (case h of None \<Rightarrow> mo = None
     | Some y \<Rightarrow> \<exists>m. mo = Some m \<and> msg_PES_packet_length m = 0 \<and> msg_payload m \<noteq> [] \<and> msg_channel m = q \<and>
         ctx_get q e \<noteq> None \<and> last_counter q (msg_continuity_counter m) e \<and> (\<forall>strm. media_of strm m = media_of strm y))"

definition holds :: "(u16 \<rightharpoonup> SrsTsMessage) \<Rightarrow> SrsTsContext \<Rightarrow> SrsTsContext \<Rightarrow> bool" where
  "holds held e d \<longleftrightarrow> (\<forall>q c. ctx_get q d = Some c \<longrightarrow> holds_at q (held q) e (ch_msg c))"

definition carries :: "u8 \<times> u16 \<Rightarrow> SrsTsContext \<Rightarrow> SrsTsContext \<Rightarrow> bool" where
  "carries sp e d \<longleftrightarrow> fst sp \<noteq> 0 \<longrightarrow> ctx_get (snd sp) e \<noteq> None \<and>
     (\<exists>c. ctx_get (snd sp) d = Some c \<and> media_channel c \<and> ch_stream c = fst sp)"

definition in_step :: "(u16 \<rightharpoonup> SrsTsMessage) \<Rightarrow> SrsTsContext \<Rightarrow> SrsTsContext \<Rightarrow> bool" where
  "in_step held e d \<longleftrightarrow> ctx_sync_byte e = 0x47 \<and> holds held e d \<and> (\<forall>q. ctx_get q d = None \<longrightarrow> held q = None) \<and>
     carries (video_stream (ctx_vcodec e)) e d \<and> carries (audio_stream (ctx_acodec e)) e d \<and>
     (fst (video_stream (ctx_vcodec e)) \<noteq> 0 \<or> fst (audio_stream (ctx_acodec e)) \<noteq> 0 \<longrightarrow> ctx_ready e)"

lemma in_step_new: "in_step Map.empty SrsTsContext_new SrsTsContext_new"
  by (simp add: in_step_def SrsTsContext_new_def holds_def holds_at_def ctx_get_def carries_def video_stream_def audio_stream_def)

text \<open>Setting a PID keeps the counter and the pending message of its channel.\<close>

definition keeps_channel :: "SrsTsChannel option \<Rightarrow> SrsTsChannel option \<Rightarrow> bool" where
  "keeps_channel a b \<longleftrightarrow> (case a of
      None \<Rightarrow> (case b of None \<Rightarrow> True | Some ch \<Rightarrow> ch_msg ch = None)
    | Some ch \<Rightarrow> (case b of None \<Rightarrow> False
        | Some ch' \<Rightarrow> ch_msg ch' = ch_msg ch \<and> ch_continuity_counter ch' = ch_continuity_counter ch))"

definition keeps_channels :: "SrsTsContext \<Rightarrow> SrsTsContext \<Rightarrow> bool" where
  "keeps_channels c c' \<longleftrightarrow> (\<forall>q. keeps_channel (ctx_get q c) (ctx_get q c'))"

lemma keeps_channels_refl: "keeps_channels c c"
  by (simp add: keeps_channels_def keeps_channel_def split: option.splits)

lemma keeps_channels_set: "keeps_channels c c' \<Longrightarrow> keeps_channels c (ctx_set pid a st c')"
  unfolding keeps_channels_def
proof (intro allI)
  fix q
  assume "\<forall>q. keeps_channel (ctx_get q c) (ctx_get q c')"
  then have "keeps_channel (ctx_get q c) (ctx_get q c')" by blast
  then show "keeps_channel (ctx_get q c) (ctx_get q (ctx_set pid a st c'))"
    by (auto simp: keeps_channel_def ctx_get_set SrsTsChannel_new_def split: option.splits)
qed

lemma keeps_channels_es: "keeps_channels c c' \<Longrightarrow> keeps_channels c (fold (\<lambda>(st, pid). apply_es st pid) is c')"
proof (induction "is" arbitrary: c')
  case (Cons i "is")
  have "keeps_channels c (apply_es (fst i) (snd i) c')" using Cons.prems by (simp add: apply_es_def keeps_channels_set)
  then show ?case using Cons.IH by (simp add: case_prod_beta)
qed simp

lemma keeps_channels_tables: "keeps_channels c (table_setup is on_pmt_parsed c)" "keeps_channels c (table_setup is (\<lambda>c. c) c)"
proof -
  have "keeps_channels c (ctx_set 0 SrsTsPidApplyPAT 0 (ctx_set 0x1001 SrsTsPidApplyPMT 0 c))" (is "keeps_channels c ?c")
    by (intro keeps_channels_set keeps_channels_refl)
  moreover from this have "keeps_channels c (on_pmt_parsed ?c)" by (simp add: keeps_channels_def)
  ultimately show "keeps_channels c (table_setup is on_pmt_parsed c)" "keeps_channels c (table_setup is (\<lambda>c. c) c)"
    unfolding table_setup_def by (simp_all add: keeps_channels_set keeps_channels_es)
qed

lemma holds_keeps:
  assumes "holds held e d" "keeps_channels e e'" "keeps_channels d d'" "\<forall>q. ctx_get q d = None \<longrightarrow> held q = None"
  shows "holds held e' d'"
  unfolding holds_def
proof (intro allI impI)
  fix q c'
  assume c': "ctx_get q d' = Some c'"
  show "holds_at q (held q) e' (ch_msg c')"
  proof (cases "ctx_get q d")
    case None
    then show ?thesis
      using spec [OF assms(3) [unfolded keeps_channels_def], of q] assms(4) c' by (simp add: keeps_channel_def holds_at_def)
  next
    case (Some c)
    then have "ch_msg c' = ch_msg c" using spec [OF assms(3) [unfolded keeps_channels_def], of q] c' by (simp add: keeps_channel_def)
    moreover have "holds_at q (held q) e (ch_msg c)" using assms(1) Some by (simp add: holds_def)
    ultimately show ?thesis
      using spec [OF assms(2) [unfolded keeps_channels_def], of q]
      by (auto simp: holds_at_def keeps_channel_def last_counter_def split: option.splits)
  qed
qed

lemma video_audio_streams:
  "video_stream vc = (0, 0) \<or> video_stream vc = (0x1b, 0x100) \<or> video_stream vc = (0x24, 0x100)"
  "audio_stream ac = (0, 0) \<or> audio_stream ac = (0x0f, 0x101) \<or> audio_stream ac = (0x03, 0x102)"
  by (auto simp: video_stream_def audio_stream_def)

lemma table_setup_carries:
  assumes v: "video_stream vc = (vs, vpid)" and a: "audio_stream ac = (as, apid)"
  shows "carries (vs, vpid) (table_setup (es_list vpid vs apid as) (\<lambda>c. c) e) (table_setup (es_list vpid vs apid as) on_pmt_parsed d)"
    "carries (as, apid) (table_setup (es_list vpid vs apid as) (\<lambda>c. c) e) (table_setup (es_list vpid vs apid as) on_pmt_parsed d)"
  using video_audio_streams(1) [of vc] video_audio_streams(2) [of ac] unfolding v a
  by (elim disjE; simp add: carries_def table_setup_def es_list_def apply_es_def ctx_get_set media_channel_def)+

lemma table_setup_fields:
  "ctx_sync_byte (table_setup is (\<lambda>c. c) e) = ctx_sync_byte e" "ctx_vcodec (table_setup is (\<lambda>c. c) e) = ctx_vcodec e"
  "ctx_acodec (table_setup is (\<lambda>c. c) e) = ctx_acodec e"
proof -
  have f: "ctx_sync_byte (fold (\<lambda>(st, pid). apply_es st pid) is c) = ctx_sync_byte c \<and>
    ctx_vcodec (fold (\<lambda>(st, pid). apply_es st pid) is c) = ctx_vcodec c \<and> ctx_acodec (fold (\<lambda>(st, pid). apply_es st pid) is c) = ctx_acodec c" for c
    by (induction "is" arbitrary: c) (auto simp: apply_es_def ctx_set_def Let_def)
  then show "ctx_sync_byte (table_setup is (\<lambda>c. c) e) = ctx_sync_byte e" "ctx_vcodec (table_setup is (\<lambda>c. c) e) = ctx_vcodec e"
    "ctx_acodec (table_setup is (\<lambda>c. c) e) = ctx_acodec e" by (simp_all add: table_setup_def ctx_set_def Let_def)
qed

lemma decode_packets_append:
  "decode_packets h (xs @ ys) c s = (case decode_packets h xs c s of (Inl e, c1, s1) \<Rightarrow> (Inl e, c1, s1)
     | (Inr _, c1, s1) \<Rightarrow> decode_packets h ys c1 s1)"
  by (induction xs arbitrary: c s) (auto split: sum.splits prod.splits)


text \<open>The tables are written when a codec changes; afterwards both sides agree on the new codecs.\<close>

lemma refresh_in_step:
  assumes e: "in_step held e d" and v: "video_stream vc = (vs, vpid)" and a: "audio_stream ac = (as, apid)" and sa: "vs \<noteq> 0 \<or> as \<noteq> 0"
  obtains ps e' d' where "(if ctx_vcodec e \<noteq> vc \<or> ctx_acodec e \<noteq> ac
       then encode_pat_pmt collect mem vpid vs apid as (e\<lparr>ctx_vcodec := vc, ctx_acodec := ac\<rparr>, w) else (srs_success, (e, w))) =
      (srs_success, (e', w @ ps))" "\<forall>p \<in> set ps. length p = 188"
    "\<And>(handler :: u8 \<Rightarrow> SrsTsMessage \<Rightarrow> 's \<Rightarrow> 's outcome) s. decode_packets handler ps d s = (srs_success, d', s)"
    "in_step held e' d'" "ctx_vcodec e' = vc" "ctx_acodec e' = ac"
proof (cases "ctx_vcodec e \<noteq> vc \<or> ctx_acodec e \<noteq> ac")
  case True
  let ?e = "e\<lparr>ctx_vcodec := vc, ctx_acodec := ac\<rparr>"
  let ?is = "es_list vpid vs apid as"
  let ?e' = "(table_setup ?is (\<lambda>c. c) ?e)\<lparr>ctx_ready := True\<rparr>" and ?d' = "table_setup ?is on_pmt_parsed d"
  have s: "ctx_sync_byte ?e = 0x47" using e by (simp add: in_step_def)
  have c: "vs = 0x1b \<or> as = 0x0f \<or> as = 0x03 \<or> vs = 0x24" "vpid AND 0x1FFF = vpid" "apid AND 0x1FFF = apid"
    using sa video_audio_streams(1) [of vc] video_audio_streams(2) [of ac] v a by auto
  obtain ps where ps: "encode_pat_pmt collect mem vpid vs apid as (?e, w) = (srs_success, (?e', w @ ps))" "\<forall>p \<in> set ps. length p = 188"
      "\<And>(handler :: u8 \<Rightarrow> SrsTsMessage \<Rightarrow> 's \<Rightarrow> 's outcome) s. decode_packets handler ps d s = (srs_success, ?d', s)"
    using tables_roundtrip [OF s c] by metis
  have g: "ctx_get q ?e = ctx_get q e" "ctx_get q ?e' = ctx_get q (table_setup ?is (\<lambda>c. c) ?e)" for q by (simp_all add: ctx_get_def)
  have k: "keeps_channels e ?e'" using keeps_channels_tables(2) [of ?e ?is] by (simp add: keeps_channels_def g)
  have "holds held ?e' ?d'"
    using e by (intro holds_keeps [OF _ k keeps_channels_tables(1)]) (auto simp: in_step_def)
  moreover have "ctx_get q ?d' = None \<Longrightarrow> held q = None" for q
    using e spec [OF keeps_channels_tables(1) [of d ?is, unfolded keeps_channels_def], of q]
    by (auto simp: in_step_def keeps_channel_def split: option.splits)
  ultimately have "in_step held ?e' ?d'"
    using e v a table_setup_carries [OF v a, of ?e d] by (simp add: in_step_def table_setup_fields carries_def g)
  then show thesis using True ps by (intro that) (auto simp: table_setup_fields)
next
  case False
  then show thesis using e by (intro that [of e "[]" d]) auto
qed

lemma in_step_sent:
  assumes e: "in_step held e d" and s: "same_setup pid e e'" and d: "ctx_get pid d = Some cd"
    and h: "holds_at pid h e' mo"
  shows "in_step (held(pid := h)) e' (put_msg pid mo d)"
proof -
  have "holds (held(pid := h)) e' (put_msg pid mo d)"
    unfolding holds_def
  proof (intro allI impI)
    fix q c
    assume c: "ctx_get q (put_msg pid mo d) = Some c"
    show "holds_at q ((held(pid := h)) q) e' (ch_msg c)"
    proof (cases "q = pid")
      case True
      then show ?thesis using c d h by (auto simp: ctx_get_put_msg)
    next
      case False
      then have "ctx_get q d = Some c" and g: "ctx_get q e' = ctx_get q e" using c s by (auto simp: ctx_get_put_msg same_setup_def)
      then have "holds_at q (held q) e (ch_msg c)" using e by (simp add: in_step_def holds_def)
      then show ?thesis using False g by (auto simp: holds_at_def last_counter_def split: option.splits)
    qed
  qed
  moreover have "carries sp e d \<Longrightarrow> carries sp e' (put_msg pid mo d)" for sp
    using s d by (cases "snd sp = pid") (auto simp: carries_def ctx_get_put_msg same_setup_def media_channel_def)
  ultimately show ?thesis
    using e s d by (auto simp: in_step_def same_setup_def ctx_get_put_msg split: if_splits)
qed

lemma sent_message:
  assumes e: "in_step held e d" and x: "sendable (msg, vc, ac)" "ctx_vcodec e = vc" "ctx_acodec e = ac"
    and sp: "send_stream (msg, vc, ac) = (strm, pid)"
  obtains ps e' d' where "encode_pes collect mem msg pid strm pure_audio (e, w) = (srs_success, (e', w @ ps))"
    "\<forall>p \<in> set ps. length p = 188"
    "\<And>s. decode_packets keep_media ps d s = (srs_success, d', s @ (case held pid of None \<Rightarrow> [] | Some m \<Rightarrow> [media_of strm m]) @
       (if long msg then [] else [media_of strm msg]))"
    "in_step (held(pid := if long msg then Some msg else None)) e' d'"
proof -
  let ?m = "\<lambda>cc. started pid cc (msg_sid msg) (msg_dts msg) (msg_pts msg) (length (msg_payload msg)) (msg_payload msg)"
  define D where "D = (if held pid = None then d else put_msg pid None d)"
  have s: "strm \<in> {0x1b, 0x0f, 0x03, 0x24}" "pid AND 0x1FFF = pid" "pid \<noteq> 0"
    using x(1) sp by (auto simp: sendable_def send_stream_def video_stream_def audio_stream_def split: if_splits)
  have "carries (strm, pid) e d" and ready: "ctx_ready e" "ctx_sync_byte e = 0x47"
    using e x sp by (auto simp: in_step_def send_stream_def sendable_def video_stream_def audio_stream_def split: if_splits)
  then obtain ce cd where c: "ctx_get pid e = Some ce" "ctx_get pid d = Some cd" "media_channel cd" "ch_stream cd = strm"
    using s(1) by (auto simp: carries_def)
  have hold: "holds_at pid (held pid) e (ch_msg cd)" using e c(2) by (simp add: in_step_def holds_def)
  obtain cd' where c': "ctx_get pid D = Some cd'" "media_channel cd'" "ch_msg cd' = None" "ch_stream cd' = strm"
  proof (cases "held pid = None")
    case True
    then show thesis using c(2-4) hold by (intro that [of cd]) (auto simp: D_def holds_at_def)
  next
    case False
    then show thesis
      using c(2-4) by (intro that [of "cd\<lparr>ch_msg := None\<rparr>"]) (auto simp: D_def ctx_get_put_msg media_channel_def)
  qed
  have put: "put_msg pid x D = put_msg pid x d" for x by (simp add: D_def)
  have p: "plain_sid (msg_sid msg)" "msg_payload msg \<noteq> []" using x(1) by (auto simp: sendable_def)
  obtain ps e' cc where ps: "encode_pes collect mem msg pid strm pure_audio (e, w) = (srs_success, (e', w @ ps))"
      "same_setup pid e e'" "\<forall>p \<in> set ps. length p = 188" "last_counter pid cc e'" "opens pid (ch_continuity_counter ce) ps"
      "\<And>s. decode_packets keep_media ps D s = concludes keep_media strm (?m cc) D s"
    using encode_pes_roundtrip [OF p(1) s(2,3) p(2) s(1) c(1) ready(2,1) c'(1-3)] c'(4) by metis
  have m: "msg_PES_packet_length (?m cc) = 0 \<longleftrightarrow> long msg" "media_of st (?m cc) = media_of st msg" for st
    using x(1) by (simp_all add: sendable_def announced_u16 media_of_def started_def long_def)
  have dec: "decode_packets keep_media ps d s = concludes keep_media strm (?m cc) D
      (s @ (case held pid of None \<Rightarrow> [] | Some m \<Rightarrow> [media_of strm m]))" for s
  proof (cases "held pid")
    case None
    then show ?thesis using ps(6) [of s] by (simp add: D_def)
  next
    case (Some y)
    then obtain m where m: "ch_msg cd = Some m" "msg_PES_packet_length m = 0" "msg_payload m \<noteq> []" "msg_channel m = pid"
        "last_counter pid (msg_continuity_counter m) e" "\<And>strm. media_of strm m = media_of strm y"
      using hold by (auto simp: holds_at_def)
    have "(msg_continuity_counter m + 1) AND 0x0F = ch_continuity_counter ce AND 0x0F"
      using m(5) c(1) by (simp add: last_counter_def)
    from held_then_decode [OF s(2,3) c(2,3) m(1-3) this m(4) ps(5), of keep_media s] ps(6) m(6) Some c(4)
    show ?thesis by (simp add: keep_media_def media_of_def D_def)
  qed
  let ?d' = "put_msg pid (if long msg then Some (?m cc) else None) d"
  have "decode_packets keep_media ps d s = (srs_success, ?d', s @ (case held pid of None \<Rightarrow> [] | Some m \<Rightarrow> [media_of strm m]) @
       (if long msg then [] else [media_of strm msg]))" for s
    by (simp add: dec concludes_def delivers_def keep_media_def m(2) put announced_u16(2) long_def)
  moreover have "in_step (held(pid := if long msg then Some msg else None)) e' ?d'"
    using c(1) p(2) ps(2,4) m by (intro in_step_sent [OF e ps(2) c(2)]) (auto simp: holds_at_def same_setup_def)
  ultimately show thesis using ps(1,3) that by blast
qed

lemma ts_encode_in_step:
  assumes e: "in_step held e d" and x: "sendable (msg, vc, ac)" and sp: "send_stream (msg, vc, ac) = (strm, pid)"
  obtains ps e' d' where "ts_encode collect mem msg vc ac (e, w) = (srs_success, (e', w @ ps))" "\<forall>p \<in> set ps. length p = 188"
    "\<And>s. decode_packets keep_media ps d s = (srs_success, d', s @ (case held pid of None \<Rightarrow> [] | Some m \<Rightarrow> [media_of strm m]) @
       (if long msg then [] else [media_of strm msg]))"
    "in_step (held(pid := if long msg then Some msg else None)) e' d'"
proof -
  obtain vs vpid as apid where v: "video_stream vc = (vs, vpid)" and a: "audio_stream ac = (as, apid)" by fastforce
  have sa: "vs \<noteq> 0 \<or> as \<noteq> 0"
    using x v a by (auto simp: sendable_def video_stream_def audio_stream_def split: if_splits)
  obtain ps e1 d1 where 1: "(if ctx_vcodec e \<noteq> vc \<or> ctx_acodec e \<noteq> ac
       then encode_pat_pmt collect mem vpid vs apid as (e\<lparr>ctx_vcodec := vc, ctx_acodec := ac\<rparr>, w) else (srs_success, (e, w))) =
      (srs_success, (e1, w @ ps))" "\<forall>p \<in> set ps. length p = 188"
    "\<And>s. decode_packets keep_media ps d s = (srs_success, d1, s)" "in_step held e1 d1" "ctx_vcodec e1 = vc" "ctx_acodec e1 = ac"
    using refresh_in_step [OF e v a sa, where ?'s = "(u8 \<times> u8 \<times> u64 \<times> u64 \<times> u8 list) list"] by metis
  obtain qs e2 d2 where 2: "encode_pes collect (\<lambda>i. mem (i + 2)) msg pid strm (vs = 0) (e1, w @ ps) = (srs_success, (e2, (w @ ps) @ qs))"
    "\<forall>p \<in> set qs. length p = 188"
    "\<And>s. decode_packets keep_media qs d1 s = (srs_success, d2, s @ (case held pid of None \<Rightarrow> [] | Some m \<Rightarrow> [media_of strm m]) @
       (if long msg then [] else [media_of strm msg]))"
    "in_step (held(pid := if long msg then Some msg else None)) e2 d2"
    using sent_message [OF 1(4) x 1(5,6) sp] by metis
  have "ts_encode collect mem msg vc ac (e, w) = (srs_success, (e2, w @ ps @ qs))"
    using 1(1) 2(1) sa sp v a by (auto simp: ts_encode_def send_stream_def split: if_splits)
  then show thesis using 1(2,3) 2(2-) by (intro that [of e2 "ps @ qs" d2]) (auto simp: decode_packets_append)
qed

lemma encode_all_in_step:
  assumes "in_step held e d" "\<forall>x \<in> set xs. sendable x"
  shows "\<exists>ps e' d'. encode_all mem xs (e, w) = (srs_success, (e', w @ ps)) \<and> (\<forall>p \<in> set ps. length p = 188) \<and>
    decode_packets keep_media ps d s = (srs_success, d', s @ deliveries held xs)"
  using assms
proof (induction xs arbitrary: held e d w s mem)
  case Nil
  then show ?case by (intro exI [of _ "[]"]) auto
next
  case (Cons x xs)
  obtain msg vc ac where x: "x = (msg, vc, ac)" by (cases x)
  obtain strm pid where sp: "send_stream (msg, vc, ac) = (strm, pid)" by fastforce
  let ?h = "held(pid := if long msg then Some msg else None)"
  obtain ps e1 d1 where 1: "ts_encode collect (mem 0) msg vc ac (e, w) = (srs_success, (e1, w @ ps))" "\<forall>p \<in> set ps. length p = 188"
    "\<And>s. decode_packets keep_media ps d s = (srs_success, d1, s @ (case held pid of None \<Rightarrow> [] | Some m \<Rightarrow> [media_of strm m]) @
       (if long msg then [] else [media_of strm msg]))" "in_step ?h e1 d1"
    using ts_encode_in_step [OF Cons.prems(1) _ sp] Cons.prems(2) x by (metis list.set_intros(1))
  let ?s = "s @ (case held pid of None \<Rightarrow> [] | Some m \<Rightarrow> [media_of strm m]) @ (if long msg then [] else [media_of strm msg])"
  obtain qs e2 d2 where "encode_all (\<lambda>k. mem (Suc k)) xs (e1, w @ ps) = (srs_success, (e2, (w @ ps) @ qs))"
    "\<forall>p \<in> set qs. length p = 188" "decode_packets keep_media qs d1 ?s = (srs_success, d2, ?s @ deliveries ?h xs)"
    using Cons.IH [OF 1(4)] Cons.prems(2) by (metis list.set_intros(2))
  then show ?case
    using 1(1-3) sp x
    by (intro exI [of _ "ps @ qs"] exI [of _ e2] exI [of _ d2]) (auto simp: decode_packets_append)
qed

text \<open>
  C3. What the transport stream encoder writes for a sequence of messages is read back by the decoder: every packet
  has 188 bytes, encoding and decoding succeed whatever the contents of the fresh blocks and whenever the codecs
  change, and the handler gets the messages with their stream type, stream id, times and payload, in order. A message
  that is too long for the length field of its PES packet is delivered when the next message on its PID begins.
\<close>

theorem ts_stream_roundtrip:
  assumes "\<forall>x \<in> set xs. sendable x"
  shows "\<exists>ps e d. encode_all mem xs (SrsTsContext_new, []) = (srs_success, (e, ps)) \<and> (\<forall>p \<in> set ps. length p = 188) \<and>
    decode_packets keep_media ps SrsTsContext_new [] = (srs_success, d, deliveries Map.empty xs)"
  using encode_all_in_step [OF in_step_new assms, of mem "[]" "[]"] by auto

definition demo_sends :: "ts_send list" where
  "demo_sends =
     [((SrsTsMessage_new 0)\<lparr>msg_sid := 0xc0, msg_dts := 900, msg_pts := 900, msg_payload := replicate 200 0xAA\<rparr>, 7, 10),
      ((SrsTsMessage_new 0)\<lparr>msg_sid := 0xe0, msg_dts := 0x123456789, msg_pts := 0x123456790, msg_payload := [1, 2, 3]\<rparr>, 12, 10)]"

lemma demo_sends_ok: "\<forall>x \<in> set demo_sends. sendable x"
  by (simp add: demo_sends_def sendable_def plain_sid_def msg_is_audio_def SrsTsMessage_new_def)

theorem ts_stream_roundtrip_witness:
  "\<exists>ps e d. encode_all (\<lambda>_ _ _. 0x55) demo_sends (SrsTsContext_new, []) = (srs_success, (e, ps)) \<and>
     (\<forall>p \<in> set ps. length p = 188) \<and>
     decode_packets keep_media ps SrsTsContext_new [] = (srs_success, d,
       [(0x0f, 0xc0, 900, 900, replicate 200 0xAA), (0x24, 0xe0, 0x123456789, 0x123456790, [1, 2, 3])])"
proof -
  have "deliveries Map.empty demo_sends =
      [(0x0f, 0xc0, 900, 900, replicate 200 0xAA), (0x24, 0xe0, 0x123456789, 0x123456790, [1, 2, 3])]"
    by (simp add: demo_sends_def media_of_def send_stream_def long_def announced_def msg_is_audio_def
        audio_stream_def video_stream_def SrsTsMessage_new_def)
  then show ?thesis using ts_stream_roundtrip [OF demo_sends_ok, of "\<lambda>_ _ _. 0x55"] by simp
qed

section \<open>Failing writers\<close>

text \<open>The context is marked with the new codecs before the tables are written. When the write of the PAT fails, the
  channels of the new codecs are missing, and the tables are not written again.\<close>

lemma failed_pat:
  assumes e: "ctx_sync_byte e = 0x47" "ctx_vcodec e \<noteq> vc \<or> ctx_acodec e \<noteq> ac" and wr: "\<And>p. fst (wr w p) = Inl err"
    and st: "fst (video_stream vc) \<noteq> 0 \<or> fst (audio_stream ac) \<noteq> 0"
  shows "\<exists>w1. ts_encode wr mem msg vc ac (e, w) =
    (Inl err, (ctx_set 0 SrsTsPidApplyPAT 0 (ctx_set 0x1001 SrsTsPidApplyPMT 0 (e\<lparr>ctx_vcodec := vc, ctx_acodec := ac\<rparr>)), w1))"
proof -
  let ?e = "e\<lparr>ctx_vcodec := vc, ctx_acodec := ac\<rparr>"
  obtain vs vpid as apid where v: "video_stream vc = (vs, vpid)" and a: "audio_stream ac = (as, apid)" by fastforce
  have c: "vs = 0x1b \<or> as = 0x0f \<or> as = 0x03 \<or> vs = 0x24"
    using st v a video_audio_streams(1) [of vc] video_audio_streams(2) [of ac] by auto
  obtain w1 where "wr w pat_block = (Inl err, w1)" using wr [of pat_block] by (cases "wr w pat_block") auto
  moreover have "ctx_sync_byte ?e = 0x47" using e(1) by simp
  ultimately have "encode_pat_pmt wr mem vpid vs apid as (?e, w) =
      (Inl err, (ctx_set 0 SrsTsPidApplyPAT 0 (ctx_set 0x1001 SrsTsPidApplyPMT 0 ?e), w1))"
    using c by (simp add: encode_pat_pmt_def write_pat)
  then show ?thesis using e(2) st v a by (auto simp: ts_encode_def)
qed

text \<open>
  A failed write of the PAT at a change of the audio codec to MP3 makes a later message abort the process: the
  context stays ready and keeps the new codec, so the next MP3 message goes to a channel that was never set, and the
  assertion on the channel fails, although the writer works again.
\<close>

theorem failed_refresh_aborts:
  assumes "ctx_sync_byte e = 0x47" "ctx_ready e" "ctx_acodec e \<noteq> 2" "ctx_get 0x102 e = None"
    and "\<And>p. fst ((wr :: 'w stream_writer) w p) = Inl err" and "msg_is_audio msg" "msg_payload msg \<noteq> []"
  shows "\<exists>e1 w1. ts_encode wr mem msg vc 2 (e, w) = (Inl err, (e1, w1)) \<and>
    (\<forall>(wr' :: 'w stream_writer) mem' w2. ts_encode wr' mem' msg vc 2 (e1, w2) = (Inl ASSERT_FAILED, (e1, w2)))"
proof -
  let ?e = "ctx_set 0 SrsTsPidApplyPAT 0 (ctx_set 0x1001 SrsTsPidApplyPMT 0 (e\<lparr>ctx_vcodec := vc, ctx_acodec := 2\<rparr>))"
  have f: "ctx_ready ?e" "ctx_vcodec ?e = vc" "ctx_acodec ?e = 2" using assms(2) by (simp_all add: ctx_set_def Let_def)
  have "ctx_get 0x102 ?e = None" using assms(4) by (simp add: ctx_get_set) (simp add: ctx_get_def)
  then have "ts_encode wr' mem' msg vc 2 (?e, w2) = (Inl ASSERT_FAILED, (?e, w2))" for wr' :: "'w stream_writer" and mem' w2
    using f assms(6,7) by (simp add: ts_encode_def encode_pes_def audio_stream_def case_prod_beta)
  moreover obtain w1 where "ts_encode wr mem msg vc 2 (e, w) = (Inl err, (?e, w1))"
    using failed_pat [of e vc 2 wr w err mem msg] assms(1,3,5) by (auto simp: audio_stream_def)
  ultimately show ?thesis by blast
qed

definition aac_ready :: SrsTsContext where
  "aac_ready = (table_setup [(0x0f, 0x101)] (\<lambda>c. c) SrsTsContext_new)\<lparr>ctx_ready := True, ctx_acodec := 10\<rparr>"

lemma aac_ready_fields: "ctx_sync_byte aac_ready = 0x47" "ctx_ready aac_ready" "ctx_acodec aac_ready \<noteq> 2" "ctx_get 0x102 aac_ready = None"
proof -
  have "ctx_get q aac_ready = ctx_get q (table_setup [(0x0f, 0x101)] (\<lambda>c. c) SrsTsContext_new)" for q
    by (simp add: aac_ready_def ctx_get_def)
  moreover have "ctx_get 0x102 SrsTsContext_new = None" by (simp add: ctx_get_def SrsTsContext_new_def)
  ultimately show "ctx_get 0x102 aac_ready = None" by (simp add: table_setup_def apply_es_def ctx_get_set)
qed (simp_all add: aac_ready_def table_setup_fields, simp add: SrsTsContext_new_def)

theorem failed_refresh_aborts_witness:
  "\<exists>e1 w1. ts_encode (\<lambda>w p. (Inl ERROR_SYSTEM_IO_INVALID, w)) (\<lambda>_ _. 0)
      ((SrsTsMessage_new 0)\<lparr>msg_sid := 0xc0, msg_payload := [1]\<rparr>) 0 2 (aac_ready, ()) = (Inl ERROR_SYSTEM_IO_INVALID, (e1, w1)) \<and>
    ts_encode (\<lambda>w p. (srs_success, w)) (\<lambda>_ _. 0) ((SrsTsMessage_new 0)\<lparr>msg_sid := 0xc0, msg_payload := [1]\<rparr>) 0 2 (e1, ()) =
      (Inl ASSERT_FAILED, (e1, ()))"
  using failed_refresh_aborts [of aac_ready "\<lambda>w p. (Inl ERROR_SYSTEM_IO_INVALID, w)" "()" ERROR_SYSTEM_IO_INVALID
      "(SrsTsMessage_new 0)\<lparr>msg_sid := 0xc0, msg_payload := [1]\<rparr>" "\<lambda>_ _. 0" 0]
  by (auto simp: aac_ready_fields msg_is_audio_def SrsTsMessage_new_def)

end
