(* ===== verification/Ts_Mux_Props.thy ===== *)
theory Ts_Mux_Props
  imports Ts_Mux Ts_Stream Format_Props
begin

text \<open>
  What the transmuxer writes: the payload that the message cache builds, read back by the demuxers of the raw streams, the
  way of FLV packets through parser, cache and encoder to a receiver of the transport stream, the errors on this way, and
  the encrypted segments.
\<close>

section \<open>H.264 payloads\<close>

text \<open>The units of a message: the parameter sets go in front of the first IDR slice.\<close>

fun avc_units :: "u8 list list \<Rightarrow> u8 list list \<Rightarrow> u8 list list" where
  "avc_units sets [] = []"
| "avc_units sets (u # us) = (if hd u AND 0x1F = 5 then sets @ u # us else u # avc_units sets us)"

definition avc_sets :: "SrsVideoCodecConfig \<Rightarrow> u8 list list" where
  "avc_sets c = filter (\<lambda>u. u \<noteq> []) [sequenceParameterSetNALUnit c, pictureParameterSetNALUnit c]"

definition in_annexb :: "u8 list list \<Rightarrow> u8 list" where
  "in_annexb us = annexb_stream (map (Pair 1) us)"

lemma in_annexb_simps [simp]:
  "in_annexb [] = []" "in_annexb (u # us) = [0, 0, 0, 1] @ u @ in_annexb us" "in_annexb (us @ vs) = in_annexb us @ in_annexb vs"
proof -
  have s: "in_annexb (u # us) = [0, 0, 0, 1] @ u @ in_annexb us" for u us by (simp add: in_annexb_def annexb_code_def)
  show "in_annexb (u # us) = [0, 0, 0, 1] @ u @ in_annexb us" by (rule s)
  show "in_annexb [] = []" by (simp add: in_annexb_def)
  then show "in_annexb (us @ vs) = in_annexb us @ in_annexb vs" by (induction us) (simp_all add: s)
qed

lemma append_payload_simps [simp]:
  "append_payload [] m = m" "append_payload xs (append_payload ys m) = append_payload (ys @ xs) m"
  by (simp_all add: append_payload_def)

lemma insert_nalu_eq: "insert_nalu False u = append_payload (in_annexb [u])"
  by (rule ext) (simp add: insert_nalu_def srs_avc_insert_aud_def)

lemma cache_avc_samples_units:
  "[] \<notin> set us \<Longrightarrow> cache_avc_samples c has_sets False sent us m =
    (srs_success, append_payload (in_annexb (if has_sets \<or> sent then us else avc_units (avc_sets c) us)) m)"
proof (induction us arbitrary: sent m)
  case (Cons u us)
  then obtain x xs where "u = x # xs" by (cases u) auto
  with Cons show ?case by (auto simp: insert_nalu_eq Let_def avc_sets_def)
qed simp

lemma do_cache_avc_units:
  assumes "[] \<notin> set (pp_samples p)"
  shows "do_cache_avc c p m = (srs_success, append_payload (in_annexb ((if has_aud p then [] else [[0x09, 0xf0]]) @
    (if has_sps_pps p then pp_samples p else avc_units (avc_sets c) (pp_samples p)))) m)"
  using assms by (simp add: do_cache_avc_def cache_avc_samples_units insert_nalu_eq)

section \<open>AAC payloads\<close>

definition adts_payload :: "SrsAudioCodecConfig \<Rightarrow> u8 list \<Rightarrow> u8 list" where
  "adts_payload c d = adts_header c (of_nat (length d) + 7) @ d"

lemma cache_aac_samples_frames:
  "\<forall>d \<in> set ds. d \<noteq> [] \<and> length d \<le> 0x1fff \<Longrightarrow>
   cache_aac_samples c ds m = (srs_success, append_payload (concat (map (adts_payload c) ds)) m)"
  by (induction ds arbitrary: m) (auto simp: adts_payload_def)

text \<open>What the demuxer of ADTS reads in this header.\<close>

lemma bit_be_word_2:
  assumes "k < 16"
  shows "bit (be_word [x, y] :: u16) k \<longleftrightarrow> (if k < 8 then bit y k else bit x (k - 8))"
proof -
  have "k div 8 = 0 \<and> k mod 8 = k \<and> k < 8 \<or> k div 8 = 1 \<and> k mod 8 = k - 8 \<and> 8 \<le> k"
    using assms by (cases "k < 8") (auto simp: le_div_geq le_mod_geq)
  then show ?thesis using assms by (auto simp: be_word_def bit_le_word nth_Cons' simp del: le_word.simps)
qed

lemma bit_be_word_3:
  assumes "k < 24"
  shows "bit (be_word [x, y, z] :: u32) k \<longleftrightarrow> (if k < 8 then bit z k else if k < 16 then bit y (k - 8) else bit x (k - 16))"
proof -
  have "k div 8 = 0 \<and> k mod 8 = k \<and> k < 8 \<or> k div 8 = 1 \<and> k mod 8 = k - 8 \<and> 8 \<le> k \<and> k < 16 \<or>
      k div 8 = 2 \<and> k mod 8 = k - 16 \<and> 16 \<le> k"
    using assms by (cases "k < 8"; cases "k < 16") (auto simp: le_div_geq le_mod_geq)
  then show ?thesis using assms by (auto simp: be_word_def bit_le_word nth_Cons' simp del: le_word.simps)
qed

lemma all_bits: "\<forall>k \<in> {0, 1, 2, 3, 4, 5, 6, 7}. bit x k = bit y k \<Longrightarrow> x = y" for x y :: u8
proof (rule bit_word_eqI)
  fix k
  assume "\<forall>k \<in> {0, 1, 2, 3, 4, 5, 6, 7}. bit x k = bit y k" "k < LENGTH(8)"
  then show "bit x k = bit y k" by (cases k rule: nat.exhaust) (auto simp: less_Suc_eq numeral_eq_Suc)
qed

lemma all_bits_16: "\<forall>k \<in> {0, 1, 2, 3, 4, 5, 6, 7, 8, 9, 10, 11, 12, 13, 14, 15}. bit x k = bit y k \<Longrightarrow> x = y" for x y :: u16
proof (rule bit_word_eqI)
  fix k
  assume "\<forall>k \<in> {0, 1, 2, 3, 4, 5, 6, 7, 8, 9, 10, 11, 12, 13, 14, 15}. bit x k = bit y k" "k < LENGTH(16)"
  then show "bit x k = bit y k" by (cases k rule: nat.exhaust) (auto simp: less_Suc_eq numeral_eq_Suc)
qed

lemma small_bits:
  fixes x :: "'a::len word"
  assumes "x < 2 ^ n" "n \<le> k"
  shows "\<not> bit x k"
proof
  assume "bit x k"
  then have k: "bit (unat x) k" by (simp add: bit_unsigned_iff)
  have "0 < (2 ^ n :: 'a word)" using assms(1) by (rule le_less_trans [rotated]) simp
  then have "int (unat x) < int (2 ^ n)" using assms(1) by (simp add: word_less_def uint_2p)
  then have "unat x < 2 ^ n" by (simp only: of_nat_less_iff)
  also have "\<dots> \<le> 2 ^ k" using assms(2) by simp
  finally show False using k by (simp add: bit_nat_def)
qed

text \<open>The fields of the header, with the bits of the masks written out.\<close>

lemma adts_header_fields:
  fixes p i ch :: u8 and len :: u32
  assumes c: "c = adts_codec v
      (be_word [(push_bit 6 p AND 0xc0) OR (push_bit 2 i AND 0x3c) OR (drop_bit 2 ch AND 0x01),
        (push_bit 6 ch AND 0xc0) OR (ucast (drop_bit 11 len) AND 0x03)])
      (be_word [ucast (drop_bit 3 len AND 0xff), ucast (push_bit 5 len AND 0xe0) OR 0x1f, 0xfc])"
    and "i < 16" "ch < 8" "p < 4"
  shows "sampling_frequency_index c = i" "channel_configuration c = ch" "frame_length c = ucast (take_bit 13 len)"
    "aac_object c = srs_aac_ts2rtmp p"
proof -
  have i: "4 \<le> k \<Longrightarrow> \<not> bit i k" and ch: "3 \<le> k \<Longrightarrow> \<not> bit ch k" and p: "2 \<le> k \<Longrightarrow> \<not> bit p k"
 for k
    using assms(2-4) small_bits [of i 4 k] small_bits [of ch 3 k] small_bits [of p 2 k] by simp_all
  show "sampling_frequency_index c = i"
    by (rule all_bits) (use i in \<open>auto simp: c adts_codec_def Let_def bit_be_word_2 bit_simps\<close>)
  show "channel_configuration c = ch"
    by (rule all_bits) (use ch in \<open>auto simp: c adts_codec_def Let_def bit_be_word_2 bit_simps\<close>)
  show "frame_length c = ucast (take_bit 13 len)"
    by (rule all_bits_16) (auto simp: c adts_codec_def Let_def bit_be_word_2 bit_be_word_3 bit_simps)
  have "(ucast (drop_bit 14 (be_word [(push_bit 6 p AND 0xc0) OR (push_bit 2 i AND 0x3c) OR (drop_bit 2 ch AND 0x01),
        (push_bit 6 ch AND 0xc0) OR (ucast (drop_bit 11 len) AND 0x03)] :: u16) AND 0x03) :: u8) = p"
    by (rule all_bits) (use p in \<open>auto simp: bit_be_word_2 bit_simps\<close>)
  then show "aac_object c = srs_aac_ts2rtmp p" by (simp add: c adts_codec_def Let_def)
qed

text \<open>Reading \<open>n\<close> frames: data, object type, sampling frequency index and channel configuration.\<close>

fun adts_frames :: "nat \<Rightarrow> SrsBuffer \<Rightarrow> (u8 list \<times> u8 \<times> u8 \<times> u8) list res" where
  "adts_frames 0 b = Inr []"
| "adts_frames (Suc k) b = res_bind (adts_demux b) (\<lambda>(fr, b').
     case fr of None \<Rightarrow> Inr []
     | Some ((bs, n), c) \<Rightarrow> res_bind (adts_frames k b') (\<lambda>fs.
         Inr ((take (nat n) bs, aac_object c, sampling_frequency_index c, channel_configuration c) # fs)))"

definition adts_config :: "SrsAudioCodecConfig \<Rightarrow> bool" where
  "adts_config a \<longleftrightarrow> aac_sample_rate a < 16 \<and> aac_channels a < 8"

lemma take_bit_be_word: "length bs = n \<Longrightarrow> 8 * n \<le> LENGTH('a) \<Longrightarrow> take_bit (8 * n) (be_word bs :: 'a::len word) = be_word bs"
  by (metis be_word_be_bytes be_bytes_be_word)

lemma adts_payload_bytes:
  fixes len :: u32
  assumes a: "adts_config a"
  obtains sfiv abfv c where "adts_header a len = 0xff # 0xf9 # be_bytes 2 (sfiv :: u16) @ be_bytes 3 (abfv :: u32)"
    "c = adts_codec (0xf9 AND 0x0f) sfiv (take_bit 24 abfv)"
    "sampling_frequency_index c = aac_sample_rate a" "channel_configuration c = aac_channels a" "frame_length c = ucast (take_bit 13 len)"
    "aac_object c = srs_aac_ts2rtmp (srs_aac_rtmp2ts (aco_object a))"
proof -
  let ?p = "srs_aac_rtmp2ts (aco_object a)" and ?i = "aac_sample_rate a" and ?ch = "aac_channels a"
  let ?s = "be_word [(push_bit 6 ?p AND 0xc0) OR (push_bit 2 ?i AND 0x3c) OR (drop_bit 2 ?ch AND 0x01),
        (push_bit 6 ?ch AND 0xc0) OR (ucast (drop_bit 11 len) AND 0x03)] :: u16"
  let ?b = "be_word [ucast (drop_bit 3 len AND 0xff), ucast (push_bit 5 len AND 0xe0) OR 0x1f, 0xfc] :: u32"
  have p: "?p < 4" by (simp add: srs_aac_rtmp2ts_def)
  have b: "take_bit 24 ?b = ?b"
    using take_bit_be_word [of "[_, _, _]" 3, where ?'a = 32] by simp
  have f: "sampling_frequency_index c = ?i" "channel_configuration c = ?ch" "frame_length c = ucast (take_bit 13 len)"
      "aac_object c = srs_aac_ts2rtmp ?p" if "c = adts_codec (0xf9 AND 0x0f) ?s (take_bit 24 ?b)" for c
    using adts_header_fields [of c _ ?p ?i ?ch len] a that b p by (auto simp: adts_config_def)
  have "adts_header a len = 0xff # 0xf9 # be_bytes 2 ?s @ be_bytes 3 ?b"
    by (simp add: adts_header_def be_bytes_be_word)
  then show thesis using that f by blast
qed

lemma frame_size:
  assumes "length d \<le> 0x1fff"
  shows "sint (ucast (take_bit 13 (of_nat (length d) + 7 :: u32)) :: u16) = (int (length d) + 7) mod 0x2000"
proof -
  have "unat (of_nat (length d) + 7 :: u32) = length d + 7"
    using assms unat_of_nat [of "length d + 7", where ?'a = 32] by (simp add: take_bit_nat_eq_self)
  then have "unat (take_bit 13 (of_nat (length d) + 7 :: u32)) = (length d + 7) mod 0x2000"
    by (simp only: unsigned_take_bit_eq) (simp add: take_bit_eq_mod)
  moreover have "(length d + 7) mod 0x2000 < 0x2000" by simp
  ultimately have "unat (ucast (take_bit 13 (of_nat (length d) + 7 :: u32)) :: u16) = (length d + 7) mod 0x2000"
    by (simp add: unsigned_ucast_eq take_bit_nat_eq_self)
  then have "uint (ucast (take_bit 13 (of_nat (length d) + 7 :: u32)) :: u16) = (int (length d) + 7) mod 0x2000"
    by (simp add: uint_nat zmod_int)
  moreover have "(int (length d) + 7) mod 0x2000 < 0x2000" "0 \<le> (int (length d) + 7) mod 0x2000" by simp_all
  ultimately show ?thesis by (simp add: sint_uint signed_take_bit_int_eq_self)
qed

lemma adts_frames_payload:
  assumes "adts_config a" "\<forall>d \<in> set ds. length d \<le> 0x1ff8" "buf_inv b" "remaining b = concat (map (adts_payload a) ds) @ r"
  shows "adts_frames (length ds) b = Inr (map (\<lambda>d. (d, srs_aac_ts2rtmp (srs_aac_rtmp2ts (aco_object a)), aac_sample_rate a, aac_channels a)) ds)"
  using assms(2-4)
proof (induction ds arbitrary: b)
  case (Cons d ds)
  then have d: "length d \<le> 0x1ff8" by simp
  obtain sfiv abfv c where h: "adts_header a (of_nat (length d) + 7) = 0xff # 0xf9 # be_bytes 2 sfiv @ be_bytes 3 abfv"
    "c = adts_codec (0xf9 AND 0x0f) sfiv (take_bit 24 abfv)"
    "sampling_frequency_index c = aac_sample_rate a" "channel_configuration c = aac_channels a"
    "frame_length c = ucast (take_bit 13 (of_nat (length d) + 7 :: u32))" "aac_object c = srs_aac_ts2rtmp (srs_aac_rtmp2ts (aco_object a))"
    by (rule adts_payload_bytes [OF assms(1)])
  let ?r = "concat (map (adts_payload a) ds) @ r" and ?b = "advance (7 + length d) b"
  have rem: "remaining b = 0xff # 0xf9 # be_bytes 2 sfiv @ be_bytes 3 abfv @ d @ ?r" using Cons.prems(3) h(1) by (simp add: adts_payload_def [of a d])
  have "adts_demux b = Inr (Some ((d @ ?r, int (length d)), c), ?b)"
    by (rule adts_demux_frame [OF Cons.prems(2) rem _ _ h(2)]) (use frame_size [of d] d h(5) in simp_all)
  moreover have "buf_inv ?b" "remaining ?b = ?r"
    using advance_ok [OF Cons.prems(2), of "7 + length d"] rem by (simp_all add: drop_Cons' del: advance_simps)
  ultimately show ?case using Cons.IH [of ?b] Cons.prems(1) h(3,4,6) by simp
qed simp



text \<open>The length field has 13 bits. A sample of more than 0x1ff8 bytes is accepted, but its length does not fit.\<close>

lemma adts_long_frame_unreadable:
  assumes "adts_config a" "0x1ff8 < length d" "length d \<le> 0x1fff"
  shows "adts_demux (SrsBuffer_new (adts_payload a d)) = Inl ERROR_AAC_ADTS_HEADER"
proof -
  let ?b = "SrsBuffer_new (adts_payload a d)"
  obtain sfiv abfv c where h: "adts_header a (of_nat (length d) + 7) = 0xff # 0xf9 # be_bytes 2 sfiv @ be_bytes 3 abfv"
    "c = adts_codec (0xf9 AND 0x0f) sfiv (take_bit 24 abfv)"
    "frame_length c = ucast (take_bit 13 (of_nat (length d) + 7 :: u32))"
    by (rule adts_payload_bytes [OF assms(1)])
  have rem: "remaining ?b = 0xff # 0xf9 # be_bytes 2 sfiv @ be_bytes 3 abfv @ d" using h(1) by (simp add: adts_payload_def)
  note 1 = read_1_Cons [OF buf_inv_new rem]
  note 2 = read_1_Cons [OF 1(2,3)]
  note 3 = read_2_front [OF 2(2,3)]
  note 4 = read_3_front [OF 3(2,3)]
  have "(int (length d) + 7) mod 0x2000 = (int (length d) + 7 - 0x2000) mod 0x2000" by (rule minus_mod_self2 [symmetric])
  also have "\<dots> = int (length d) + 7 - 0x2000" by (rule mod_pos_pos_trivial) (use assms(2,3) in simp_all)
  finally have l: "sint (frame_length c) < 7" using frame_size [OF assms(3)] assms(3) h(3) by simp
  have "protection_absent c = 1" using h(2) by (simp add: adts_codec_def Let_def)
  moreover have "deref (remaining ?b) 0 = Inr 0xff" "deref (remaining ?b) 1 = Inr 0xf9"
    using rem by (simp_all add: deref_def)
  moreover have "pos (advance 7 ?b) - pos ?b = 7" by (simp add: pos_def advance_def)
  ultimately show ?thesis
    using 1 2 3 4 h rem l
    by (simp add: adts_demux_def srs_aac_startswith_adts_def require_remaining buf_empty_remaining Let_def eval_nat_numeral)
qed

section \<open>Errors\<close>

lemma cache_aac_samples_rejects:
  "\<forall>d \<in> set ds. d \<noteq> [] \<and> length d \<le> 0x1fff \<Longrightarrow> d = [] \<or> 0x1fff < length d \<Longrightarrow>
   cache_aac_samples c (ds @ d # r) m = (Inl ERROR_HLS_AAC_FRAME_LENGTH, append_payload (concat (map (adts_payload c) ds)) m)"
  by (induction ds arbitrary: m) (auto simp: adts_payload_def)

text \<open>
  A rejected audio packet is not forgotten: when one of its samples has an invalid length, the message stays in the
  cache with the time of the packet and the samples before the invalid one. The next packet is appended to it, so its
  samples are sent with the earlier time of the packet that was rejected.
\<close>

theorem rejected_audio_stays_cached:
  assumes "tsmc_audio c = None" "aco_id a = 10" "pp_samples p = ds @ d # r" "\<forall>x \<in> set ds. x \<noteq> [] \<and> length x \<le> 0x1fff"
    and "d = [] \<or> 0x1fff < length d" "\<forall>x \<in> set (pp_samples p'). x \<noteq> [] \<and> length x \<le> 0x1fff"
  shows "\<exists>c1 c2 m. cache_audio a p dts c = (Inl ERROR_HLS_AAC_FRAME_LENGTH, c1) \<and> cache_audio a p' dts' c1 = (srs_success, c2) \<and>
    tsmc_audio c2 = Some m \<and> msg_dts m = dts \<and> msg_pts m = dts \<and>
    msg_payload m = concat (map (adts_payload a) ds) @ concat (map (adts_payload a) (pp_samples p'))"
  using assms cache_aac_samples_rejects [OF assms(4,5), of a r]
  by (simp add: cache_audio_def do_cache_aac_def cache_aac_samples_frames append_payload_def SrsTsMessage_new_def Let_def)

theorem rejected_audio_stays_cached_witness:
  "\<exists>c1 c2 m. cache_audio (SrsAudioCodecConfig_new\<lparr>aco_id := 10\<rparr>) (SrsParsedAudioPacket_new\<lparr>pp_samples := [[7], []]\<rparr>) 90 SrsTsMessageCache_new =
      (Inl ERROR_HLS_AAC_FRAME_LENGTH, c1) \<and>
    cache_audio (SrsAudioCodecConfig_new\<lparr>aco_id := 10\<rparr>) (SrsParsedAudioPacket_new\<lparr>pp_samples := [[8]]\<rparr>) 1800 c1 = (srs_success, c2) \<and>
    tsmc_audio c2 = Some m \<and> msg_dts m = 90 \<and> length (msg_payload m) = 16"
  using rejected_audio_stays_cached [of SrsTsMessageCache_new "SrsAudioCodecConfig_new\<lparr>aco_id := 10\<rparr>"
      "SrsParsedAudioPacket_new\<lparr>pp_samples := [[7], []]\<rparr>" "[[7]]" "[]" "[]" "SrsParsedAudioPacket_new\<lparr>pp_samples := [[8]]\<rparr>" 90 1800]
  by (auto simp: SrsTsMessageCache_new_def adts_payload_def adts_header_def)

text \<open>An empty video packet before any other ends the process: the format has a codec since its initialisation, but no packet.\<close>

lemma empty_first_video_aborts:
  "fst (tmx_write_video wr mem vmem ts [] (tmx_initialize vmem (SrsTsTransmuxer_new w))) = Inl ASSERT_FAILED"
  by (simp add: tmx_write_video_def on_video_def tmx_initialize_def fmt_initialize_def SrsTsTransmuxer_new_def SrsFormat_new_def Let_def)

section \<open>Encrypted segments\<close>

primrec enc_write_all ::
    "'k aes_cbc \<Rightarrow> 'w stream_writer \<Rightarrow> u8 list list \<Rightarrow> ('k, 'w) SrsEncFileWriter \<Rightarrow> ('k, 'w) SrsEncFileWriter outcome" where
  "enc_write_all aes wr [] e = (srs_success, e)"
| "enc_write_all aes wr (p # ps) e = and_then (enc_write aes wr e p) (enc_write_all aes wr ps)"

text \<open>A file that takes every write.\<close>

definition append_file :: "u8 list stream_writer" where
  "append_file w bs = (srs_success, w @ bs)"

text \<open>Cipher block chaining: a text of whole blocks can be encrypted piece by piece.\<close>

definition cbc_law :: "'k aes_cbc \<Rightarrow> bool" where
  "cbc_law aes \<longleftrightarrow> (\<forall>k iv. aes k iv [] = ([], iv)) \<and>
     (\<forall>k iv xs ys. 16 dvd length xs \<longrightarrow>
        aes k iv (xs @ ys) = (let (c, iv1) = aes k iv xs; (d, iv2) = aes k iv1 ys in (c @ d, iv2)))"

text \<open>What has been written, \<open>x\<close>, is a whole number of blocks of four packets.\<close>

definition enc_inv :: "'k aes_cbc \<Rightarrow> 'k \<Rightarrow> u8 list \<Rightarrow> u8 list \<Rightarrow> ('k, u8 list) SrsEncFileWriter \<Rightarrow> bool" where
  "enc_inv aes k iv t e \<longleftrightarrow> (\<exists>x. t = x @ ef_buf e \<and> 752 dvd length x \<and> aes k iv x = (ef_file e, ef_iv e)) \<and>
     ef_key e = k \<and> length (ef_buf e) < 752 \<and> 188 dvd length (ef_buf e)"

lemma enc_write_inv:
  assumes law: "cbc_law aes" and e: "enc_inv aes k iv t e" and p: "length p = 188"
  shows "\<exists>e'. enc_write aes append_file e p = (srs_success, e') \<and> enc_inv aes k iv (t @ p) e'"
proof -
  obtain x where x: "t = x @ ef_buf e" "752 dvd length x" "aes k iv x = (ef_file e, ef_iv e)"
    and f: "ef_key e = k" "length (ef_buf e) < 752" "188 dvd length (ef_buf e)"
    using e by (auto simp: enc_inv_def)
  have "16 dvd length x" using x(2) by (rule dvd_trans [rotated]) simp
  then have step: "aes k iv (x @ y) = (let (c, iv1) = aes k iv x; (d, iv2) = aes k iv1 y in (c @ d, iv2))" for y
    using law by (simp add: cbc_law_def)
  show ?thesis
  proof (cases "length (ef_buf e) + 188 = 752")
    case True
    then have "752 dvd length x + (length (ef_buf e) + 188)" using x(2) by (simp only: dvd_add) simp
    then show ?thesis
      using True x f p step [of "ef_buf e @ p"]
      by (auto simp: enc_write_def HLS_AES_ENCRYPT_BLOCK_LENGTH_def enc_flush_def append_file_def enc_inv_def Let_def
          add.assoc split: prod.splits)
  next
    case False
    have "length (ef_buf e) + 188 < 752" using False f(2,3) by (auto elim!: dvdE)
    then show ?thesis
      using False x f p
      by (auto simp: enc_write_def HLS_AES_ENCRYPT_BLOCK_LENGTH_def enc_inv_def Let_def)
  qed
qed

lemma enc_write_all_inv:
  assumes "cbc_law aes" "enc_inv aes k iv t e" "\<forall>p \<in> set ps. length p = 188"
  shows "\<exists>e'. enc_write_all aes append_file ps e = (srs_success, e') \<and> enc_inv aes k iv (t @ concat ps) e'"
  using assms(2,3)
proof (induction ps arbitrary: t e)
  case (Cons p ps)
  obtain e1 where "enc_write aes append_file e p = (srs_success, e1)" "enc_inv aes k iv (t @ p) e1"
    using enc_write_inv [OF assms(1) Cons.prems(1), of p] Cons.prems(2) by auto
  then show ?case using Cons.IH [of "t @ p" e1] Cons.prems(2) by auto
qed auto

text \<open>The padding: as PKCS 7 has it, except that there is none after a whole number of blocks of four packets.\<close>

definition segment_padding :: "nat \<Rightarrow> u8 list" where
  "segment_padding n = (if 752 dvd n then [] else replicate (16 - n mod 16) (of_nat (16 - n mod 16)))"

text \<open>
  C34. An encrypted segment is the segment encrypted at once: whatever the number of packets, writing them one by one and
  closing the file gives the cipher text of all packets followed by the padding. The padding is that of PKCS 7 except when
  the number of packets is a multiple of four: then there is none, where PKCS 7 has a block of sixteen bytes.
\<close>

theorem encrypted_segment_one_shot:
  assumes "cbc_law aes" "\<forall>p \<in> set ps. length p = 188" "length iv = 16"
  shows "\<exists>e e'. config_cipher (\<lambda>_. Some k) key iv (SrsEncFileWriter_new k0 []) = (srs_success, e) \<and>
    enc_write_all aes append_file ps e = (srs_success, e') \<and>
    ef_file (enc_close aes append_file close_file e') = close_file (fst (aes k iv (concat ps @ segment_padding (length (concat ps)))))"
proof -
  let ?e = "(SrsEncFileWriter_new k0 [])\<lparr>ef_iv := iv, ef_key := k\<rparr>"
  have "enc_inv aes k iv [] ?e" using assms(1) by (simp add: enc_inv_def SrsEncFileWriter_new_def cbc_law_def)
  then obtain e' where e': "enc_write_all aes append_file ps ?e = (srs_success, e')" "enc_inv aes k iv (concat ps) e'"
    using enc_write_all_inv [OF assms(1) _ assms(2)] by fastforce
  then obtain x where x: "concat ps = x @ ef_buf e'" "752 dvd length x" "aes k iv x = (ef_file e', ef_iv e')"
    and f: "ef_key e' = k" "length (ef_buf e') < 752"
    by (auto simp: enc_inv_def)
  have d16: "16 dvd length x" using x(2) by (rule dvd_trans [rotated]) simp
  then have step: "aes k iv (x @ y) = (let (c, iv1) = aes k iv x; (d, iv2) = aes k iv1 y in (c @ d, iv2))" for y
    using assms(1) by (simp add: cbc_law_def)
  have m: "752 dvd length (concat ps) \<longleftrightarrow> ef_buf e' = []" "length (concat ps) mod 16 = length (ef_buf e') mod 16"
  proof -
    show "752 dvd length (concat ps) \<longleftrightarrow> ef_buf e' = []"
      using x(1,2) f(2) by (auto simp: dvd_add_right_iff dest: dvd_imp_le)
    show "length (concat ps) mod 16 = length (ef_buf e') mod 16"
      using x(1) d16 by (auto elim!: dvdE)
  qed
  have "ef_file (enc_close aes append_file close_file e') = close_file (fst (aes k iv (concat ps @ segment_padding (length (concat ps)))))"
    using m x(1,3) f(1) step [of "ef_buf e' @ segment_padding (length (concat ps))"]
    by (cases "ef_buf e' = []") (auto simp: enc_close_def enc_flush_def append_file_def segment_padding_def Let_def split: prod.splits)
  then show ?thesis using e'(1) assms(3) by (auto simp: config_cipher_def)
qed

theorem encrypted_segment_one_shot_witness:
  "\<exists>e e'. config_cipher (\<lambda>_. Some (7 :: u8)) [] (replicate 16 1) (SrsEncFileWriter_new 0 []) = (srs_success, e) \<and>
    enc_write_all (\<lambda>k iv bs. (map (\<lambda>b. b XOR k) bs, iv)) append_file [replicate 188 0x47] e = (srs_success, e') \<and>
    ef_file (enc_close (\<lambda>k iv bs. (map (\<lambda>b. b XOR k) bs, iv)) append_file (\<lambda>w. w) e') = replicate 188 0x40 @ replicate 4 3"
proof -
  have "cbc_law (\<lambda>k iv bs. (map (\<lambda>b. b XOR k) bs, iv))" by (simp add: cbc_law_def)
  from encrypted_segment_one_shot [OF this, of "[replicate 188 0x47]" "replicate 16 1" 7 "[]" 0 "\<lambda>w. w"]
  show ?thesis by (simp add: segment_padding_def)
qed
end
