(* ===== verification/Ts_Transmux.thy ===== *)
theory Ts_Transmux
  imports Ts_Mux_Props
begin

text \<open>
  The transmuxer from end to end: FLV packets, audio and video interleaved, pass through parser, message cache and encoder,
  and a receiver of the transport stream gets their payloads in Annex-B and ADTS form with their times.
\<close>

section \<open>FLV packets and what a receiver gets of them\<close>

text \<open>A video packet with one NAL unit, or an audio packet with one AAC frame, as the raw stream helpers pack them.\<close>

datatype flv_tag = VideoTag u32 u32 u8 "u8 list" | AudioTag u32 "u8 list"

fun tag_ok :: "flv_tag \<Rightarrow> bool" where
  "tag_ok (VideoTag dts cts ft u) \<longleftrightarrow> u \<noteq> [] \<and> length u < 2 ^ 31 \<and> ft < 8 \<and> ft \<noteq> 5 \<and> uint cts < 2 ^ 24 \<and>
     (uint dts + uint cts) * 90 < 2 ^ 33"
| "tag_ok (AudioTag dts d) \<longleftrightarrow> d \<noteq> [] \<and> length d \<le> 0x1fff \<and> uint dts * 90 < 2 ^ 33"

text \<open>The parser guesses the payload format at the first video frame.\<close>

fun guess_ok :: "flv_tag list \<Rightarrow> bool" where
  "guess_ok [] \<longleftrightarrow> True"
| "guess_ok (VideoTag dts cts ft u # xs) \<longleftrightarrow> \<not> (length u = 1 \<or> 256 \<le> length u \<and> length u < 512)"
| "guess_ok (AudioTag dts d # xs) \<longleftrightarrow> guess_ok xs"

fun flv_body :: "SrsRawAacStreamCodec \<Rightarrow> flv_tag \<Rightarrow> u8 list" where
  "flv_body c (VideoTag dts cts ft u) =
     (case avc_mux_ipb_frame (u, int (length u)) of Inl _ \<Rightarrow> [] | Inr v \<Rightarrow> mux_avc2flv v ft 1 dts (dts + cts))"
| "flv_body c (AudioTag dts d) =
     (case mux_aac2flv (d, int (length d)) (c\<lparr>aac_packet_type := 1\<rparr>) of Inl _ \<Rightarrow> [] | Inr v \<Rightarrow> v)"

type_synonym transmuxer = "u8 list list SrsTsTransmuxer"

fun write_tag :: "(nat \<Rightarrow> nat \<Rightarrow> u8) \<Rightarrow> SrsVideoCodecConfig \<Rightarrow> SrsRawAacStreamCodec \<Rightarrow> flv_tag \<Rightarrow> transmuxer \<Rightarrow> transmuxer outcome" where
  "write_tag mem vmem c (VideoTag dts cts ft u) t = tmx_write_video collect mem vmem (uint dts) (flv_body c (VideoTag dts cts ft u)) t"
| "write_tag mem vmem c (AudioTag dts d) t = tmx_write_audio collect mem (uint dts) (flv_body c (AudioTag dts d)) t"

primrec write_tags ::
    "(nat \<Rightarrow> nat \<Rightarrow> nat \<Rightarrow> u8) \<Rightarrow> SrsVideoCodecConfig \<Rightarrow> SrsRawAacStreamCodec \<Rightarrow> flv_tag list \<Rightarrow> transmuxer \<Rightarrow> transmuxer outcome" where
  "write_tags mem vmem c [] t = (srs_success, t)"
| "write_tags mem vmem c (x # xs) t = and_then (write_tag (mem 0) vmem c x t) (write_tags (\<lambda>k. mem (Suc k)) vmem c xs)"

text \<open>The message that the cache builds: an access unit delimiter in front of a frame that has none, the parameter sets
  in front of an IDR slice, an ADTS header in front of an AAC frame; times in units of 1/90000 second.\<close>

definition frame_units :: "u8 list list \<Rightarrow> u8 list \<Rightarrow> u8 list list" where
  "frame_units sets u = (if hd u AND 0x1F = 9 then [] else [[0x09, 0xf0]]) @ (if hd u AND 0x1F = 5 then sets else []) @ [u]"

definition codec_config :: "SrsRawAacStreamCodec \<Rightarrow> SrsAudioCodecConfig" where
  "codec_config c = SrsAudioCodecConfig_new\<lparr>aco_object := aac_object c, aac_sample_rate := sampling_frequency_index c,
     aac_channels := channel_configuration c\<rparr>"

fun tag_message :: "u8 list list \<Rightarrow> SrsRawAacStreamCodec \<Rightarrow> flv_tag \<Rightarrow> SrsTsMessage" where
  "tag_message sets c (VideoTag dts cts ft u) = (SrsTsMessage_new 0)\<lparr>msg_write_pcr := (ft = 1), msg_start_pts := ucast dts * 90,
     msg_dts := ucast dts * 90, msg_pts := ucast dts * 90 + ucast cts * 90, msg_sid := 0xe0, msg_payload := in_annexb (frame_units sets u)\<rparr>"
| "tag_message sets c (AudioTag dts d) = (SrsTsMessage_new 0)\<lparr>msg_write_pcr := False, msg_dts := ucast dts * 90,
     msg_pts := ucast dts * 90, msg_start_pts := ucast dts * 90, msg_sid := 0xc0, msg_payload := adts_payload (codec_config c) d\<rparr>"

definition tag_send :: "u8 list list \<Rightarrow> SrsRawAacStreamCodec \<Rightarrow> flv_tag \<Rightarrow> ts_send" where
  "tag_send sets c x = (tag_message sets c x, 7, 10)"

section \<open>One packet\<close>

lemma scaled_time:
  fixes dts :: u32
  assumes "uint dts * 90 < 2 ^ 33"
  shows "take_bit 33 (ucast dts * 90 :: u64) = ucast dts * 90" "(of_int (uint dts * 90) :: u64) = ucast dts * 90"
    "uint (ucast dts * 90 :: u64) = uint dts * 90"
proof -
  show "(of_int (uint dts * 90) :: u64) = ucast dts * 90" by simp
  show u: "uint (ucast dts * 90 :: u64) = uint dts * 90"
    using assms by (simp add: uint_mult_lem [THEN iffD1] unsigned_ucast_eq uint_word_ariths take_bit_int_eq_self)
  then have "uint (take_bit 33 (ucast dts * 90 :: u64)) = uint (ucast dts * 90 :: u64)"
    using assms by (simp add: unsigned_take_bit_eq take_bit_int_eq_self)
  then show "take_bit 33 (ucast dts * 90 :: u64) = ucast dts * 90" by (simp add: word_uint_eq_iff)
qed

lemma scaled_sum:
  fixes dts cts :: u32
  assumes "(uint dts + uint cts) * 90 < 2 ^ 33" "uint cts < 2 ^ 24"
  shows "take_bit 33 (ucast dts * 90 + ucast cts * 90 :: u64) = ucast dts * 90 + ucast cts * 90"
    "scast (cts * 90 :: u32) = (ucast cts * 90 :: u64)" "take_bit 24 cts = cts"
proof -
  note u = scaled_time(3) [OF order.strict_trans1 [OF _ assms(1)], of dts]
  show "take_bit 24 cts = cts"
    using assms(2) by (simp add: word_uint_eq_iff unsigned_take_bit_eq take_bit_int_eq_self)
  have c: "uint (cts * 90 :: u32) = uint cts * 90" using assms(2) by (simp add: uint_word_ariths)
  have "- (2 ^ 31) \<le> uint cts * 90" by (rule order_trans [of _ 0]) simp_all
  moreover have "uint cts * 90 < 2 ^ 31" using assms(2) by simp
  ultimately have s: "sint (cts * 90 :: u32) = uint cts * 90"
    using c by (simp add: sint_uint signed_take_bit_int_eq_self)
  have "scast (cts * 90 :: u32) = (of_int (sint (cts * 90 :: u32)) :: u64)" by (rule of_int_sint [symmetric])
  then show sc: "scast (cts * 90 :: u32) = (ucast cts * 90 :: u64)" by (simp add: s)
  have "of_int ((uint dts + uint cts) * 90) = (ucast dts * 90 + ucast cts * 90 :: u64)" by (simp add: algebra_simps)
  moreover have "take_bit 33 ((uint dts + uint cts) * 90) = (uint dts + uint cts) * 90"
    using assms(1) by (simp add: take_bit_int_eq_self)
  ultimately show "take_bit 33 (ucast dts * 90 + ucast cts * 90 :: u64) = ucast dts * 90 + ucast cts * 90"
    by (metis take_bit_of_int)
qed

lemma scaled_less: "(uint dts + uint cts) * 90 < 2 ^ 33 \<Longrightarrow> uint dts * 90 < 2 ^ 33" for dts cts :: u32
  by (rule order.strict_trans1 [of _ "(uint dts + uint cts) * 90"]) simp_all

text \<open>The codecs that the context writer may have when a message is sent: the one of the other medium is not yet known.\<close>

fun tag_codecs :: "flv_tag \<Rightarrow> u8 \<times> u8 \<Rightarrow> u8 \<times> u8" where
  "tag_codecs (VideoTag dts cts ft u) (vc, ac) = (7, ac)"
| "tag_codecs (AudioTag dts d) (vc, ac) = (vc, 10)"

lemma sendable_tag:
  assumes "tag_ok x"
  shows "sendable (tag_message sets c x, tag_codecs x va) \<and>
    send_stream (tag_message sets c x, tag_codecs x va) = send_stream (tag_send sets c x)"
proof (cases x)
  case (VideoTag dts cts ft u)
  then show ?thesis
    using assms scaled_time(1) [of dts, OF scaled_less [of dts cts]] scaled_sum(1) [of dts cts]
    by (cases va) (simp add: sendable_def plain_sid_def msg_is_audio_def frame_units_def send_stream_def tag_send_def)
next
  case (AudioTag dts d)
  then show ?thesis
    using assms scaled_time(1) [of dts]
    by (cases va) (simp add: sendable_def plain_sid_def msg_is_audio_def adts_payload_def adts_header_def send_stream_def tag_send_def)
qed

lemma tmx_encode_step:
  assumes "in_step held (tmx_context t) d" "tmx_tscw t = Some s" "sendable (msg, tscw_vcodec s, tscw_acodec s)"
    and "send_stream (msg, tscw_vcodec s, tscw_acodec s) = (strm, pid)"
  obtains ps e' d' where
    "tmx_encode collect mem (Some msg) t = (srs_success, t\<lparr>tmx_context := e', tmx_writer := tmx_writer t @ ps\<rparr>)"
    "\<forall>p \<in> set ps. length p = 188"
    "\<And>r. decode_packets keep_media ps d r = (srs_success, d', r @ (case held pid of None \<Rightarrow> [] | Some m \<Rightarrow> [media_of strm m]) @
       (if long msg then [] else [media_of strm msg]))"
    "in_step (held(pid := if long msg then Some msg else None)) e' d'"
proof -
  obtain ps e' d' where "ts_encode collect mem msg (tscw_vcodec s) (tscw_acodec s) (tmx_context t, tmx_writer t) =
      (srs_success, (e', tmx_writer t @ ps))" "\<forall>p \<in> set ps. length p = 188"
    "\<And>r. decode_packets keep_media ps d r = (srs_success, d', r @ (case held pid of None \<Rightarrow> [] | Some m \<Rightarrow> [media_of strm m]) @
       (if long msg then [] else [media_of strm msg]))"
    "in_step (held(pid := if long msg then Some msg else None)) e' d'"
    by (rule ts_encode_in_step [OF assms(1,3,4), where mem = mem and w = "tmx_writer t"]) (rule that)
  then show thesis using assms(2) by (intro that [of ps e' d']) (simp_all add: tmx_encode_def tscw_write_def)
qed

text \<open>The transmuxer between two packets, with the packets \<open>xs\<close> to come.\<close>

definition tmx_ready :: "u8 list list \<Rightarrow> SrsRawAacStreamCodec \<Rightarrow> flv_tag list \<Rightarrow> 'w SrsTsTransmuxer \<Rightarrow> bool" where
  "tmx_ready sets c xs t \<longleftrightarrow> tmx_tsmc t = SrsTsMessageCache_new \<and> tmx_tscw t \<noteq> None \<and> ready_for_flv (tmx_format t) \<and>
     (\<exists>v. fmt_vcodec (tmx_format t) = Some v \<and> avc_sets v = sets \<and> (payload_format v = SrsAvcPayloadFormatIbmf \<or> guess_ok xs)) \<and>
     (\<exists>a. fmt_acodec (tmx_format t) = Some a \<and> aac_agrees c a)"

lemma msg_new_payload [simp]: "msg_payload (SrsTsMessage_new n) = []"
  by (simp add: SrsTsMessage_new_def)

lemma write_video_cached:
  assumes t: "tmx_ready sets c (VideoTag dts cts ft u # xs) t" and x: "tag_ok (VideoTag dts cts ft u)" and tscw: "tmx_tscw t = Some s"
  obtains f where
    "tmx_write_video collect mem vmem (uint dts) (flv_body c (VideoTag dts cts ft u)) t =
      flush_video collect mem (t\<lparr>tmx_format := f, tmx_tscw := Some (s\<lparr>tscw_vcodec := 7\<rparr>),
        tmx_tsmc := \<lparr>tsmc_audio = None, tsmc_video = Some (tag_message sets c (VideoTag dts cts ft u))\<rparr>\<rparr>)"
    "\<And>ctx w. tmx_ready sets c xs (t\<lparr>tmx_format := f, tmx_tscw := Some (s\<lparr>tscw_vcodec := 7\<rparr>), tmx_context := ctx, tmx_writer := w\<rparr>)"
proof -
  obtain v a where v: "fmt_vcodec (tmx_format t) = Some v" "avc_sets v = sets"
      "payload_format v = SrsAvcPayloadFormatIbmf \<or> guess_ok (VideoTag dts cts ft u # xs)"
    and a: "fmt_acodec (tmx_format t) = Some a" "aac_agrees c a"
    and r: "ready_for_flv (tmx_format t)" "tmx_tsmc t = SrsTsMessageCache_new"
    using t by (auto simp: tmx_ready_def)
  have x': "u \<noteq> []" "length u < 2 ^ 31" "ft < 8" "ft \<noteq> 5" using x by simp_all
  obtain f' where f': "avc_mux_ipb_frame (u @ [], int (length u)) = Inr (be_bytes 4 (of_nat (length u) :: u32) @ u)"
    "on_video vmem (uint dts) (mux_avc2flv (be_bytes 4 (of_nat (length u) :: u32) @ u) ft 1 dts (dts + cts)) (tmx_format t) = (srs_success, f')"
    "parsed_as f' [u] ft (uint dts) (take_bit 24 (dts + cts - dts))" "ready_for_flv f'"
    "fmt_vcodec f' = Some (v\<lparr>vco_id := 7, payload_format := SrsAvcPayloadFormatIbmf\<rparr>)"
    "fmt_acodec f' = fmt_acodec (tmx_format t)"
    "\<exists>p. fmt_video f' = Some p \<and> (has_aud p \<longleftrightarrow> hd u AND 0x1F = 9) \<and> (has_sps_pps p \<longleftrightarrow> hd u AND 0x1F \<in> {7, 8})"
    by (rule frame_roundtrip [OF r(1) x' v(1), where r = "[]" and mem = vmem and ts = "uint dts" and dts = dts and pts = "dts + cts"])
      (use v(3) in auto)
  obtain p where p: "fmt_video f' = Some p" "pp_samples p = [u]" "pvp_frame_type p = ft" "pp_cts p = cts" "pvp_avc_packet_type p = 1"
    using f'(3) scaled_sum(3) [of dts cts] x by (auto simp: parsed_as_def)
  have q: "has_aud p \<longleftrightarrow> hd u AND 0x1F = 9" "has_sps_pps p \<longleftrightarrow> hd u AND 0x1F \<in> {7, 8}" using f'(7) p(1) by simp_all
  have s: "avc_sets (v\<lparr>vco_id := 7, payload_format := SrsAvcPayloadFormatIbmf\<rparr>) = sets" using v(2) by (simp add: avc_sets_def)
  show thesis
  proof (rule that [of f'])
    show "tmx_ready sets c xs (t\<lparr>tmx_format := f', tmx_tscw := Some (s\<lparr>tscw_vcodec := 7\<rparr>), tmx_context := ctx, tmx_writer := w\<rparr>)" for ctx w
      using f'(4-6) a r(2) s by (simp add: tmx_ready_def)
    show "tmx_write_video collect mem vmem (uint dts) (flv_body c (VideoTag dts cts ft u)) t =
      flush_video collect mem (t\<lparr>tmx_format := f', tmx_tscw := Some (s\<lparr>tscw_vcodec := 7\<rparr>),
        tmx_tsmc := \<lparr>tsmc_audio = None, tsmc_video = Some (tag_message sets c (VideoTag dts cts ft u))\<rparr>\<rparr>)"
      using f'(1,2,5) p q x'(1) x tscw r(2) s scaled_sum(2) [of dts cts]
      by (auto simp: tmx_write_video_def cache_video_def do_cache_avc_units SrsTsMessageCache_new_def Let_def append_payload_def frame_units_def)
  qed
qed

lemma adts_payload_agrees: "aac_agrees c a \<Longrightarrow> adts_payload a d = adts_payload (codec_config c) d"
  by (simp add: adts_payload_def adts_header_def aac_agrees_def codec_config_def)

lemma write_audio_cached:
  assumes c: "c = adts_codec v sfiv abfv" and t: "tmx_ready sets c (AudioTag dts d # xs) t" and x: "tag_ok (AudioTag dts d)"
    and tscw: "tmx_tscw t = Some s"
  obtains f where
    "tmx_write_audio collect mem (uint dts) (flv_body c (AudioTag dts d)) t =
      flush_audio collect mem (t\<lparr>tmx_format := f, tmx_tscw := Some (s\<lparr>tscw_acodec := 10\<rparr>),
        tmx_tsmc := \<lparr>tsmc_audio = Some (tag_message sets c (AudioTag dts d)), tsmc_video = None\<rparr>\<rparr>)"
    "\<And>ctx w. tmx_ready sets c xs (t\<lparr>tmx_format := f, tmx_tscw := Some (s\<lparr>tscw_acodec := 10\<rparr>), tmx_context := ctx, tmx_writer := w\<rparr>)"
proof -
  obtain a where a: "fmt_acodec (tmx_format t) = Some a" "aac_agrees c a" using t by (auto simp: tmx_ready_def)
  have d: "d \<noteq> []" "length d \<le> 0x1fff" using x by simp_all
  have body: "flv_body c (AudioTag dts d) = [aac_tag c, 1] @ d"
    using adts_codec_ranges [of v sfiv abfv, folded c] by (simp add: mux_aac2flv_def frame_string_def aac_tag_def)
  obtain f a2 p where f: "on_audio (uint dts) ([aac_tag c, 1] @ d) (tmx_format t) = (srs_success, f)" "fmt_acodec f = Some a2"
    "fmt_audio f = Some p" "aac_agrees c a2" "pp_samples p = [d]" "pp_dts p = uint dts"
    "aco_id a2 = 10" "pap_aac_packet_type p = 1" "fmt_vcodec f = fmt_vcodec (tmx_format t)" "try_annexb_first f = try_annexb_first (tmx_format t)"
    by (rule aac_frame_parsed [OF c a d(1), where ts = "uint dts"])
  have p: "adts_header a2 (of_nat (length d) + 7) @ d = adts_payload (codec_config c) d"
    using adts_payload_agrees [OF f(4), of d] by (simp add: adts_payload_def)
  show thesis
  proof (rule that [of f])
    show "tmx_ready sets c xs (t\<lparr>tmx_format := f, tmx_tscw := Some (s\<lparr>tscw_acodec := 10\<rparr>), tmx_context := ctx, tmx_writer := w\<rparr>)" for ctx w
      using t f(2,4,9) by (auto simp: tmx_ready_def ready_for_flv_def)
    have e: "tscw_acodec s = 10 \<Longrightarrow> s\<lparr>tscw_acodec := 10\<rparr> = s"
      "t\<lparr>tmx_format := f, tmx_tscw := Some s, tmx_tsmc := y\<rparr> = t\<lparr>tmx_format := f, tmx_tsmc := y\<rparr>" for y
      using tscw by simp_all
    show "tmx_write_audio collect mem (uint dts) (flv_body c (AudioTag dts d)) t =
      flush_audio collect mem (t\<lparr>tmx_format := f, tmx_tscw := Some (s\<lparr>tscw_acodec := 10\<rparr>),
        tmx_tsmc := \<lparr>tsmc_audio = Some (tag_message sets c (AudioTag dts d)), tsmc_video = None\<rparr>\<rparr>)"
      using f d p tscw t x unfolding body
      by (cases "tscw_acodec s = 10")
        (simp_all add: tmx_write_audio_def cache_audio_def do_cache_aac_def tmx_ready_def SrsTsMessageCache_new_def Let_def
          append_payload_def e)
  qed
qed

section \<open>Many packets\<close>

text \<open>What the receiver gets when one more message \<open>msg\<close> arrives at \<open>pid\<close>, and what it then holds.\<close>

definition arrives :: "(u16 \<rightharpoonup> SrsTsMessage) \<Rightarrow> u8 \<times> u16 \<Rightarrow> SrsTsMessage \<Rightarrow> (u8 \<times> u8 \<times> u64 \<times> u64 \<times> u8 list) list" where
  "arrives held sp msg = (case held (snd sp) of None \<Rightarrow> [] | Some m \<Rightarrow> [media_of (fst sp) m]) @
     (if long msg then [] else [media_of (fst sp) msg])"

definition holds_after :: "(u16 \<rightharpoonup> SrsTsMessage) \<Rightarrow> u8 \<times> u16 \<Rightarrow> SrsTsMessage \<Rightarrow> u16 \<rightharpoonup> SrsTsMessage" where
  "holds_after held sp msg = held(snd sp := if long msg then Some msg else None)"

lemma flush_cached:
  "tmx_tsmc t = \<lparr>tsmc_audio = a, tsmc_video = Some m\<rparr> \<Longrightarrow>
    flush_video wr mem t = and_then (tmx_encode wr mem (Some m) t) (\<lambda>t1. (srs_success, t1\<lparr>tmx_tsmc := \<lparr>tsmc_audio = a, tsmc_video = None\<rparr>\<rparr>))"
  "tmx_tsmc t = \<lparr>tsmc_audio = Some m, tsmc_video = v\<rparr> \<Longrightarrow>
    flush_audio wr mem t = and_then (tmx_encode wr mem (Some m) t) (\<lambda>t1. (srs_success, t1\<lparr>tmx_tsmc := \<lparr>tsmc_audio = None, tsmc_video = v\<rparr>\<rparr>))"
  by (auto simp: flush_video_def flush_audio_def tmx_encode_def and_then_def split: option.splits prod.splits sum.splits)

lemma write_tag_step:
  assumes c: "c = adts_codec v sfiv abfv" and t: "tmx_ready sets c (x # xs) t" and x: "tag_ok x"
    and e: "in_step held (tmx_context t) d"
  obtains ps t' d' where "write_tag mem vmem c x t = (srs_success, t')" "tmx_writer t' = tmx_writer t @ ps"
    "\<forall>p \<in> set ps. length p = 188" "tmx_ready sets c xs t'"
    "\<And>r. decode_packets keep_media ps d r = (srs_success, d', r @ arrives held (send_stream (tag_send sets c x)) (tag_message sets c x))"
    "in_step (holds_after held (send_stream (tag_send sets c x)) (tag_message sets c x)) (tmx_context t') d'"
proof -
  obtain s where s: "tmx_tscw t = Some s" using t by (auto simp: tmx_ready_def)
  let ?msg = "tag_message sets c x"
  obtain strm pid where sp: "send_stream (tag_send sets c x) = (strm, pid)" by fastforce
  note send = sendable_tag [OF x, of sets c "(tscw_vcodec s, tscw_acodec s)"]
  obtain f s' cache where w: "write_tag mem vmem c x t = and_then (tmx_encode collect mem (Some ?msg) (t\<lparr>tmx_format := f, tmx_tscw := Some s',
        tmx_tsmc := cache\<rparr>)) (\<lambda>t1. (srs_success, t1\<lparr>tmx_tsmc := \<lparr>tsmc_audio = None, tsmc_video = None\<rparr>\<rparr>))"
    "\<And>ctx w. tmx_ready sets c xs (t\<lparr>tmx_format := f, tmx_tscw := Some s', tmx_context := ctx, tmx_writer := w\<rparr>)"
    "(tscw_vcodec s', tscw_acodec s') = tag_codecs x (tscw_vcodec s, tscw_acodec s)"
  proof (cases x)
    case (VideoTag dts cts ft u)
    obtain f where "tmx_write_video collect mem vmem (uint dts) (flv_body c (VideoTag dts cts ft u)) t =
      flush_video collect mem (t\<lparr>tmx_format := f, tmx_tscw := Some (s\<lparr>tscw_vcodec := 7\<rparr>),
        tmx_tsmc := \<lparr>tsmc_audio = None, tsmc_video = Some (tag_message sets c (VideoTag dts cts ft u))\<rparr>\<rparr>)"
      "\<And>ctx w. tmx_ready sets c xs (t\<lparr>tmx_format := f, tmx_tscw := Some (s\<lparr>tscw_vcodec := 7\<rparr>), tmx_context := ctx, tmx_writer := w\<rparr>)"
      by (rule write_video_cached [OF t [unfolded VideoTag] x [unfolded VideoTag] s, where mem = mem and vmem = vmem]) (rule that)
    then show thesis using VideoTag
      by (intro that [of "\<lparr>tsmc_audio = None, tsmc_video = Some (tag_message sets c x)\<rparr>" "s\<lparr>tscw_vcodec := 7\<rparr>" f])
        (simp_all add: flush_cached)
  next
    case (AudioTag dts d)
    obtain f where "tmx_write_audio collect mem (uint dts) (flv_body c (AudioTag dts d)) t =
      flush_audio collect mem (t\<lparr>tmx_format := f, tmx_tscw := Some (s\<lparr>tscw_acodec := 10\<rparr>),
        tmx_tsmc := \<lparr>tsmc_audio = Some (tag_message sets c (AudioTag dts d)), tsmc_video = None\<rparr>\<rparr>)"
      "\<And>ctx w. tmx_ready sets c xs (t\<lparr>tmx_format := f, tmx_tscw := Some (s\<lparr>tscw_acodec := 10\<rparr>), tmx_context := ctx, tmx_writer := w\<rparr>)"
      by (rule write_audio_cached [OF c t [unfolded AudioTag] x [unfolded AudioTag] s, where mem = mem]) (rule that)
    then show thesis using AudioTag
      by (intro that [of "\<lparr>tsmc_audio = Some (tag_message sets c x), tsmc_video = None\<rparr>" "s\<lparr>tscw_acodec := 10\<rparr>" f])
        (simp_all add: flush_cached)
  qed
  let ?t = "t\<lparr>tmx_format := f, tmx_tscw := Some s', tmx_tsmc := cache\<rparr>"
  obtain ps e' d' where p: "tmx_encode collect mem (Some ?msg) ?t = (srs_success, ?t\<lparr>tmx_context := e', tmx_writer := tmx_writer ?t @ ps\<rparr>)"
    "\<forall>p \<in> set ps. length p = 188"
    "\<And>r. decode_packets keep_media ps d r = (srs_success, d', r @ (case held pid of None \<Rightarrow> [] | Some m \<Rightarrow> [media_of strm m]) @
       (if long ?msg then [] else [media_of strm ?msg]))"
    "in_step (held(pid := if long ?msg then Some ?msg else None)) e' d'"
    by (rule tmx_encode_step [of held ?t d s' ?msg strm pid mem]) (use e send w(3) sp in simp_all)
  let ?t' = "t\<lparr>tmx_format := f, tmx_tscw := Some s', tmx_context := e', tmx_writer := tmx_writer t @ ps\<rparr>"
  have "?t\<lparr>tmx_context := e', tmx_writer := tmx_writer t @ ps, tmx_tsmc := \<lparr>tsmc_audio = None, tsmc_video = None\<rparr>\<rparr> = ?t'"
    using t by (cases t) (simp add: tmx_ready_def SrsTsMessageCache_new_def)
  then have "write_tag mem vmem c x t = (srs_success, ?t')" using w(1) p(1) by simp
  then show thesis
    by (rule that [of ?t' ps d']) (use w(2) p(2-4) sp in \<open>simp_all add: arrives_def holds_after_def split: option.split\<close>)
qed

lemma write_tags_in_step:
  assumes "c = adts_codec v sfiv abfv" "tmx_ready sets c xs t" "\<forall>x \<in> set xs. tag_ok x" "in_step held (tmx_context t) d"
  shows "\<exists>ps t' d'. write_tags mem vmem c xs t = (srs_success, t') \<and> tmx_writer t' = tmx_writer t @ ps \<and>
    (\<forall>p \<in> set ps. length p = 188) \<and>
    decode_packets keep_media ps d r = (srs_success, d', r @ deliveries held (map (tag_send sets c) xs))"
  using assms(2-4)
proof (induction xs arbitrary: held t d r mem)
  case Nil
  then show ?case by (intro exI [of _ "[]"]) auto
next
  case (Cons x xs)
  let ?sp = "send_stream (tag_send sets c x)" and ?msg = "tag_message sets c x"
  obtain ps t1 d1 where 1: "write_tag (mem 0) vmem c x t = (srs_success, t1)" "tmx_writer t1 = tmx_writer t @ ps"
    "\<forall>p \<in> set ps. length p = 188" "tmx_ready sets c xs t1"
    "\<And>r. decode_packets keep_media ps d r = (srs_success, d1, r @ arrives held ?sp ?msg)"
    "in_step (holds_after held ?sp ?msg) (tmx_context t1) d1"
    by (rule write_tag_step [OF assms(1) Cons.prems(1) _ Cons.prems(3), where mem = "mem 0" and vmem = vmem], use Cons.prems(2) in simp) (rule that)
  obtain qs t2 d2 where 2: "write_tags (\<lambda>k. mem (Suc k)) vmem c xs t1 = (srs_success, t2)" "tmx_writer t2 = tmx_writer t1 @ qs"
    "\<forall>p \<in> set qs. length p = 188"
    "decode_packets keep_media qs d1 (r @ arrives held ?sp ?msg) =
      (srs_success, d2, (r @ arrives held ?sp ?msg) @ deliveries (holds_after held ?sp ?msg) (map (tag_send sets c) xs))"
    using Cons.IH [OF 1(4) _ 1(6)] Cons.prems(2) by (metis list.set_intros(2))
  have "arrives held ?sp ?msg @ deliveries (holds_after held ?sp ?msg) (map (tag_send sets c) xs) =
      deliveries held (map (tag_send sets c) (x # xs))"
    by (simp add: arrives_def holds_after_def tag_send_def Let_def case_prod_beta)
  then show ?case
    using 1(1-3,5) 2 by (intro exI [of _ "ps @ qs"] exI [of _ t2] exI [of _ d2]) (auto simp: decode_packets_append)
qed

section \<open>From the start\<close>

text \<open>A transmuxer that has been initialised and has got the two sequence headers.\<close>

definition started_transmuxer ::
    "(nat \<Rightarrow> nat \<Rightarrow> u8) \<Rightarrow> SrsVideoCodecConfig \<Rightarrow> u8 list \<Rightarrow> u8 list \<Rightarrow> SrsRawAacStreamCodec \<Rightarrow> transmuxer res" where
  "started_transmuxer mem vmem sps pps c =
     res_bind (avc_mux_sequence_header sps pps) (\<lambda>sh.
     res_bind (aac_mux_sequence_header c) (\<lambda>asc.
     res_bind (mux_aac2flv (asc, int (length asc)) (c\<lparr>aac_packet_type := 0\<rparr>)) (\<lambda>ah.
       (let t1 = snd (tmx_write_video collect mem vmem 0 (mux_avc2flv sh 1 0 0 0) (tmx_initialize vmem (SrsTsTransmuxer_new [])));
            (r, t2) = tmx_write_audio collect mem 0 ah t1
        in res_bind r (\<lambda>_. Inr t2)))))"

lemma started_ready:
  assumes sets: "4 \<le> length sps" "length sps < 65536" "pps \<noteq> []" "length pps < 65536"
    and c: "c = adts_codec v sfiv abfv" "aac_object c \<noteq> 0" "sampling_frequency_index c \<noteq> 15" and g: "guess_ok xs"
  obtains t where "started_transmuxer mem vmem sps pps c = Inr t" "tmx_ready [sps, pps] c xs t" "tmx_context t = SrsTsContext_new"
    "tmx_writer t = []"
proof -
  note rg = adts_codec_ranges [of v sfiv abfv, folded c(1)]
  let ?t0 = "tmx_initialize vmem (SrsTsTransmuxer_new []) :: transmuxer"
  have f0: "fmt_vcodec (tmx_format ?t0) = Some (SrsVideoCodecConfig_new vmem)"
    by (simp add: tmx_initialize_def fmt_initialize_def SrsTsTransmuxer_new_def SrsFormat_new_def Let_def)
  have p0: "payload_format (SrsVideoCodecConfig_new vmem) \<noteq> SrsAvcPayloadFormatAnnexb" by (simp add: SrsVideoCodecConfig_new_def)
  obtain sh w p where sh: "avc_mux_sequence_header sps pps = Inr sh"
    and w: "fmt_vcodec (snd (on_video vmem 0 (mux_avc2flv sh 1 0 0 0) (tmx_format ?t0))) = Some w"
      "sequenceParameterSetNALUnit w = sps" "pictureParameterSetNALUnit w = pps" "vco_id w = 7"
      "ready_for_flv (snd (on_video vmem 0 (mux_avc2flv sh 1 0 0 0) (tmx_format ?t0)))"
      "fmt_video (snd (on_video vmem 0 (mux_avc2flv sh 1 0 0 0) (tmx_format ?t0))) = Some p"
      "pvp_frame_type p = 1" "pvp_avc_packet_type p = 0"
    using avc_header_parsed [OF sets, of "tmx_format ?t0" vmem 0 0 0] f0 p0 by auto
  obtain r f1 where f1: "on_video vmem 0 (mux_avc2flv sh 1 0 0 0) (tmx_format ?t0) = (r, f1)" by fastforce
  obtain tscw where t1: "snd (tmx_write_video collect mem vmem 0 (mux_avc2flv sh 1 0 0 0) ?t0) = ?t0\<lparr>tmx_format := f1, tmx_tscw := Some tscw\<rparr>"
  proof -
    have s: "tmx_tscw ?t0 = Some (SrsTsContextWriter_new 16 0)"
      by (simp add: tmx_initialize_def SrsTsTransmuxer_new_def Let_def)
    show thesis
    proof (cases r)
      case (Inl e)
      have "?t0\<lparr>tmx_format := f1\<rparr> = ?t0\<lparr>tmx_format := f1, tmx_tscw := Some (SrsTsContextWriter_new 16 0)\<rparr>" using s by (cases ?t0) simp
      then show thesis using that f1 Inl by (simp add: tmx_write_video_def)
    next
      case (Inr u)
      then show thesis using that f1 w s by (simp add: tmx_write_video_def Let_def)
    qed
  qed
  obtain x y where asc: "aac_mux_sequence_header c = Inr [x, y]" "drop_bit 3 x AND 0x1f = aac_object c"
    "(push_bit 1 x AND 0x0e) OR (drop_bit 7 y AND 0x01) = sampling_frequency_index c"
    "drop_bit 3 y AND 0x0f = channel_configuration c"
    by (rule aac_sequence_header_ok [OF c])
  have ah: "mux_aac2flv ([x, y], int (length [x, y])) (c\<lparr>aac_packet_type := 0\<rparr>) = Inr ([aac_tag c, 0] @ [x, y])"
    using rg by (simp add: mux_aac2flv_def frame_string_def aac_tag_def)
  obtain f2 a where f2: "on_audio 0 ([aac_tag c, 0] @ [x, y]) f1 = (srs_success, f2)" "fmt_acodec f2 = Some a" "aac_agrees c a"
    "is_aac_sequence_header f2" "fmt_vcodec f2 = fmt_vcodec f1" "try_annexb_first f2 = try_annexb_first f1"
    "avc_parse_sps f2 = avc_parse_sps f1" "\<exists>p. fmt_audio f2 = Some p \<and> pap_aac_packet_type p = 0" "aco_id a = 10"
    by (rule aac_header_parsed [OF c(1,2) asc(2-4), of 0 f1]) (rule that)
  let ?t2 = "?t0\<lparr>tmx_format := f2, tmx_tscw := Some tscw\<rparr>"
  have "started_transmuxer mem vmem sps pps c = Inr ?t2"
    using sh asc(1) ah t1 f2 by (auto simp: started_transmuxer_def tmx_write_audio_def Let_def)
  moreover have "tmx_ready [sps, pps] c xs ?t2"
    using w f1 f2(2,3,5) g sets(1,3)
    by (auto simp: tmx_ready_def tmx_initialize_def SrsTsTransmuxer_new_def Let_def ready_for_flv_def avc_sets_def)
  ultimately show thesis
    by (rule that) (simp_all add: tmx_initialize_def SrsTsTransmuxer_new_def Let_def)
qed


definition demo_tags :: "flv_tag list" where
  "demo_tags = [VideoTag 40 0 1 (0x65 # replicate 10 7), AudioTag 46 [1, 2, 3], VideoTag 80 40 2 [0x41, 5]]"


end
