(* ===== verification/Quic_Session.thy ===== *)
theory Quic_Session
  imports Std_Map "HOL-Library.Char_ord"
begin

text \<open>
  \<open>QuicSessionWrapper\<close> (\<open>adapter/components/quic/quic_session_wrapper.cpp\<close> and \<open>.hpp\<close>), the QUIC session
  behind a UDP peer. The file has two builds. Without \<open>SRS_QUIC_ENABLED\<close> it is a placeholder that hands
  every UDP packet to the datagram callback. With it the session drives ngtcp2 and OpenSSL, which enter
  as the argument \<open>lib\<close> of type \<open>quic_lib\<close>: its functions are those the file calls, on connections of
  type \<open>'c\<close> and on a state of type \<open>'l\<close> for the TLS context and the random numbers. An argument \<open>None\<close> is the placeholder
  build. The callbacks that ngtcp2 makes while it reads a packet are part of its answer. The session's own
  callbacks return nothing and do not touch it, so an operation lists them, with the packets it sends,
  as events for its caller.
\<close>

section \<open>Numbers as text\<close>

definition digit_char :: "nat \<Rightarrow> char" where
  "digit_char d = char_of (if d < 10 then 48 + d else 87 + d)"

function show_base :: "nat \<Rightarrow> nat \<Rightarrow> string" where
  "show_base b n = (if b \<le> 1 \<or> n < b then [digit_char n] else show_base b (n div b) @ [digit_char (n mod b)])"
  by pat_completeness auto
termination by (relation "measure snd") auto

declare show_base.simps [simp del]

section \<open>The libraries\<close>

text \<open>Error codes and constants of \<open>ngtcp2.h\<close>, and \<open>ngtcp2_err_is_fatal\<close> of \<open>ngtcp2_err.c\<close>.\<close>

definition NGTCP2_ERR_CRYPTO :: int where "NGTCP2_ERR_CRYPTO = - 213"
definition NGTCP2_ERR_DRAINING :: int where "NGTCP2_ERR_DRAINING = - 224"
definition NGTCP2_ERR_DISCARD_PKT :: int where "NGTCP2_ERR_DISCARD_PKT = - 226"
definition NGTCP2_ERR_WRITE_MORE :: int where "NGTCP2_ERR_WRITE_MORE = - 230"
definition NGTCP2_ERR_RETRY :: int where "NGTCP2_ERR_RETRY = - 231"
definition NGTCP2_ERR_DROP_CONN :: int where "NGTCP2_ERR_DROP_CONN = - 232"
definition NGTCP2_ERR_FATAL :: int where "NGTCP2_ERR_FATAL = - 500"
definition NGTCP2_PKT_INITIAL :: int where "NGTCP2_PKT_INITIAL = 0x10"
definition NGTCP2_MAX_CIDLEN :: nat where "NGTCP2_MAX_CIDLEN = 20"

definition ngtcp2_err_is_fatal :: "int \<Rightarrow> bool" where
  "ngtcp2_err_is_fatal liberr \<longleftrightarrow> liberr < NGTCP2_ERR_FATAL"

text \<open>A socket address is its bytes as they lie in memory; a remote address also has a length.\<close>

type_synonym sockaddr = "u8 list"

definition sa_family :: "sockaddr \<Rightarrow> u16" where
  "sa_family a = le_word (take 2 a)"

definition AF_INET :: u16 where "AF_INET = 2"
definition AF_INET6 :: u16 where "AF_INET6 = 10"

text \<open>The callbacks of \<open>ngtcp2_callbacks\<close> that ngtcp2 calls while it reads a packet.\<close>

datatype ng_callback =
    Recv_Stream_Data u32 u64 "u8 list"
  | Recv_Datagram "u8 list"
  | Handshake_Completed
  | Silent_Callback

record ngtcp2_transport_params =
  initial_max_stream_data_bidi_local :: u64
  initial_max_stream_data_bidi_remote :: u64
  initial_max_stream_data_uni :: u64
  initial_max_data :: u64
  initial_max_streams_bidi :: u64
  initial_max_streams_uni :: u64
  max_idle_timeout :: u64
  original_dcid_present :: bool

record ('c, 'l) quic_lib =
  quictls_init :: "'l \<Rightarrow> int \<times> 'l"
  SSL_CTX_new :: "'l \<Rightarrow> bool \<times> 'l"
  use_certificate_chain_file :: "string \<Rightarrow> 'l \<Rightarrow> int \<times> 'l"
  use_PrivateKey_file :: "string \<Rightarrow> 'l \<Rightarrow> int \<times> 'l"
  check_private_key :: "'l \<Rightarrow> int \<times> 'l"
  configure_server_context :: "'l \<Rightarrow> int \<times> 'l"
  SSL_new :: "'l \<Rightarrow> bool \<times> 'l"
  RAND_bytes :: "nat \<Rightarrow> 'l \<Rightarrow> u8 list option \<times> 'l"
  pkt_decode_version_cid :: "u8 list \<Rightarrow> int \<times> u8 list"
  ngtcp2_accept :: "u8 list \<Rightarrow> int \<times> int"
  conn_server_new :: "u8 list \<Rightarrow> u8 list \<Rightarrow> sockaddr \<times> int \<Rightarrow> string list \<Rightarrow> int \<Rightarrow> ngtcp2_transport_params
    \<Rightarrow> 'l \<Rightarrow> (int \<times> 'c) res \<times> 'l"
  conn_read_pkt :: "sockaddr \<times> int \<Rightarrow> u8 list \<Rightarrow> u64 \<Rightarrow> 'c \<Rightarrow> 'l \<Rightarrow> (int \<times> ng_callback list \<times> 'c) \<times> 'l"
  conn_get_expiry :: "'c \<Rightarrow> u64"
  conn_handle_expiry :: "u64 \<Rightarrow> 'c \<Rightarrow> int \<times> 'c"
  conn_write_pkt :: "sockaddr \<times> int \<Rightarrow> u64 \<Rightarrow> 'c \<Rightarrow> (int \<times> u8 list) \<times> 'c"
  conn_write_datagram :: "sockaddr \<times> int \<Rightarrow> u8 list \<Rightarrow> u64 \<Rightarrow> 'c \<Rightarrow> (int \<times> bool \<times> u8 list) \<times> 'c"

section \<open>State\<close>

text \<open>The static members: whether \<open>ssl_ctx_\<close> is set, its reference count, and the state of the libraries.\<close>

record 'l quic_static =
  ssl_ctx :: bool
  ssl_ctx_ref_count :: int
  lib_state :: 'l

text \<open>Of a callback and its context pointer the session keeps whether they are set; the context of the
  datagram callback is the address of an adapter.\<close>

record 'c QuicSessionWrapper =
  qw_conn :: "'c option"
  qw_ssl :: bool
  qw_datagram_cb :: "nat option"
  qw_stream_cb :: bool
  qw_connection_cb :: bool
  qw_send_packet_func :: bool
  qw_is_connected :: bool
  qw_connection_id :: string
  qw_cert_file :: string
  qw_key_file :: string
  qw_peer_addr :: sockaddr
  qw_peer_addrlen :: int
  qw_initial_ts :: int
  qw_scid :: "u8 list"
  qw_dcid :: "u8 list"

definition QuicSessionWrapper_new :: "'c QuicSessionWrapper" where
  "QuicSessionWrapper_new =
     \<lparr>qw_conn = None, qw_ssl = False, qw_datagram_cb = None, qw_stream_cb = False, qw_connection_cb = False,
      qw_send_packet_func = False, qw_is_connected = False, qw_connection_id = [], qw_cert_file = [],
      qw_key_file = [], qw_peer_addr = replicate 128 0, qw_peer_addrlen = 0, qw_initial_ts = 0,
      qw_scid = replicate NGTCP2_MAX_CIDLEN 0, qw_dcid = replicate NGTCP2_MAX_CIDLEN 0\<rparr>"

type_synonym ('c, 'l) session = "'c QuicSessionWrapper \<times> 'l quic_static"

text \<open>What an operation does to the outside: calls of the three callbacks (the datagram callback with its
  context, the data and the time in milliseconds) and packets for the UDP socket.\<close>

datatype quic_event =
    Datagram_Callback nat "u8 list" int
  | Stream_Callback u64 "u8 list" bool
  | Connection_Callback
  | Send_Packet "u8 list" "sockaddr \<times> int"

definition set_datagram_callback :: "nat \<Rightarrow> 'c QuicSessionWrapper \<Rightarrow> 'c QuicSessionWrapper" where
  "set_datagram_callback ctx w = w\<lparr>qw_datagram_cb := Some ctx\<rparr>"

definition set_stream_callback :: "bool \<Rightarrow> 'c QuicSessionWrapper \<Rightarrow> 'c QuicSessionWrapper" where
  "set_stream_callback cb w = w\<lparr>qw_stream_cb := cb\<rparr>"

definition set_connection_callback :: "bool \<Rightarrow> 'c QuicSessionWrapper \<Rightarrow> 'c QuicSessionWrapper" where
  "set_connection_callback cb w = w\<lparr>qw_connection_cb := cb\<rparr>"

definition set_send_packet_func :: "bool \<Rightarrow> 'c QuicSessionWrapper \<Rightarrow> 'c QuicSessionWrapper" where
  "set_send_packet_func f w = w\<lparr>qw_send_packet_func := f\<rparr>"

section \<open>Start of the server\<close>

text \<open>The TLS context that all sessions share, made by the first of them. On each error after \<open>SSL_CTX_new\<close> it is freed again.\<close>

definition init_ssl_ctx :: "('c, 'l) quic_lib \<Rightarrow> string \<Rightarrow> string \<Rightarrow> 'l quic_static \<Rightarrow> 'l quic_static outcome" where
  "init_ssl_ctx lib cert key g =
     (case quictls_init lib (lib_state g) of (rv1, l1) \<Rightarrow>
      if rv1 \<noteq> 0 then (Inl ERROR_RTMP_MESSAGE_DECODE, g\<lparr>lib_state := l1\<rparr>) else
      case SSL_CTX_new lib l1 of (ok, l2) \<Rightarrow>
      if \<not> ok then (Inl ERROR_RTMP_MESSAGE_DECODE, g\<lparr>lib_state := l2\<rparr>) else
      case use_certificate_chain_file lib cert l2 of (rv3, l3) \<Rightarrow>
      if rv3 \<noteq> 1 then (Inl ERROR_TLS_KEY_CRT, g\<lparr>lib_state := l3\<rparr>) else
      case use_PrivateKey_file lib key l3 of (rv4, l4) \<Rightarrow>
      if rv4 \<noteq> 1 then (Inl ERROR_TLS_KEY_CRT, g\<lparr>lib_state := l4\<rparr>) else
      case check_private_key lib l4 of (rv5, l5) \<Rightarrow>
      if rv5 \<noteq> 1 then (Inl ERROR_TLS_KEY_CRT, g\<lparr>lib_state := l5\<rparr>) else
      case configure_server_context lib l5 of (rv6, l6) \<Rightarrow>
      if rv6 \<noteq> 0 then (Inl ERROR_TLS_HANDSHAKE, g\<lparr>lib_state := l6\<rparr>) else
      (srs_success, g\<lparr>ssl_ctx := True, ssl_ctx_ref_count := 0, lib_state := l6\<rparr>))"

definition transport_params :: ngtcp2_transport_params where
  "transport_params =
     \<lparr>initial_max_stream_data_bidi_local = 128 * 1024, initial_max_stream_data_bidi_remote = 128 * 1024,
      initial_max_stream_data_uni = 128 * 1024, initial_max_data = 1024 * 1024, initial_max_streams_bidi = 100,
      initial_max_streams_uni = 100, max_idle_timeout = 30 * 1000, original_dcid_present = False\<rparr>"

definition qw_init_server ::
    "('c, 'l) quic_lib option \<Rightarrow> int \<Rightarrow> string \<Rightarrow> string \<Rightarrow> ('c, 'l) session \<Rightarrow> ('c, 'l) session outcome" where
  "qw_init_server build now_us cert key s =
     (case s of (w, g) \<Rightarrow>
      case build of
        None \<Rightarrow> (srs_success, w\<lparr>qw_is_connected := True, qw_connection_id := ''placeholder''\<rparr>, g)
      | Some lib \<Rightarrow>
          (let w1 = w\<lparr>qw_cert_file := cert, qw_key_file := key\<rparr> in
           case (if ssl_ctx g then (srs_success, g) else init_ssl_ctx lib cert key g) of
             (Inl e, g1) \<Rightarrow> (Inl e, w1, g1)
           | (Inr _, g1) \<Rightarrow>
               (srs_success, w1\<lparr>qw_initial_ts := now_us sdiv 1000\<rparr>,
                g1\<lparr>ssl_ctx_ref_count := ssl_ctx_ref_count g1 + 1\<rparr>)))"

section \<open>Callbacks of ngtcp2\<close>

text \<open>The members of \<open>ngtcp2_callbacks\<close> that \<open>setup_callbacks\<close> sets; all others stay null.\<close>

definition setup_callbacks :: "string list" where
  "setup_callbacks =
     [''client_initial'', ''recv_crypto_data'', ''encrypt'', ''decrypt'', ''hp_mask'', ''recv_retry'',
      ''version_negotiation'', ''update_key'', ''recv_stream_data'', ''acked_stream_data_offset'',
      ''extend_max_stream_data'', ''recv_datagram'', ''stream_close'', ''rand'', ''get_new_connection_id'',
      ''remove_connection_id'', ''path_validation'', ''stream_reset'', ''extend_max_remote_streams_bidi'',
      ''extend_max_remote_streams_uni'', ''recv_rx_key'', ''recv_tx_key'', ''handshake_completed'',
      ''recv_version_negotiation'', ''recv_new_token'', ''recv_stateless_reset'']"

definition run_callback :: "int \<Rightarrow> 'c QuicSessionWrapper \<Rightarrow> ng_callback \<Rightarrow> quic_event list" where
  "run_callback now_us w cb =
     (case cb of
        Recv_Stream_Data flags sid data \<Rightarrow>
          if qw_stream_cb w then [Stream_Callback sid data (flags AND 0x01 \<noteq> 0)] else []
      | Recv_Datagram data \<Rightarrow>
          (case qw_datagram_cb w of None \<Rightarrow> [] | Some ctx \<Rightarrow> [Datagram_Callback ctx data (now_us sdiv 1000)])
      | Handshake_Completed \<Rightarrow> if qw_connection_cb w then [Connection_Callback] else []
      | Silent_Callback \<Rightarrow> [])"

text \<open>\<open>get_new_connection_id\<close>: a fresh id and, if ngtcp2 wants one, a token of 16 bytes.\<close>

definition get_new_connection_id ::
    "('c, 'l) quic_lib \<Rightarrow> nat \<Rightarrow> bool \<Rightarrow> 'l \<Rightarrow> (u8 list \<times> u8 list) option \<times> 'l" where
  "get_new_connection_id lib cidlen want_token l =
     (case RAND_bytes lib cidlen l of
        (None, l1) \<Rightarrow> (None, l1)
      | (Some cid, l1) \<Rightarrow>
          if want_token
          then (case RAND_bytes lib 16 l1 of (None, l2) \<Rightarrow> (None, l2) | (Some token, l2) \<Rightarrow> (Some (cid, token), l2))
          else (Some (cid, []), l1))"

section \<open>Connections\<close>

text \<open>The sending loop ends when ngtcp2 has nothing to send or fails; it need not end at all.\<close>

partial_function (option) write_loop ::
    "('c \<Rightarrow> (int \<times> u8 list) \<times> 'c) \<Rightarrow> sockaddr \<times> int \<Rightarrow> bool \<Rightarrow> 'c \<Rightarrow> quic_event list \<Rightarrow> ('c \<times> quic_event list) option" where
  "write_loop write_pkt peer send c evs =
     (case write_pkt c of ((nwrite, out), c1) \<Rightarrow>
        if nwrite < 0
        then if nwrite = NGTCP2_ERR_WRITE_MORE
             then write_loop write_pkt peer send c1 (evs @ (if send then [Send_Packet out peer] else []))
             else Some (c1, evs)
        else if nwrite > 0
             then write_loop write_pkt peer send c1 (evs @ (if send then [Send_Packet (take (nat nwrite) out) peer] else []))
             else Some (c1, evs))"

type_synonym 's reaction = "((unit res \<times> 's) \<times> quic_event list) option"

definition qw_process_connections ::
    "('c, 'l) quic_lib option \<Rightarrow> int \<Rightarrow> ('c, 'l) session \<Rightarrow> ('c, 'l) session reaction" where
  "qw_process_connections build now_us s =
     (case s of (w, g) \<Rightarrow>
      case build of
        None \<Rightarrow> Some ((srs_success, w, g), [])
      | Some lib \<Rightarrow>
          (case qw_conn w of
             None \<Rightarrow> Some ((srs_success, w, g), [])
           | Some c \<Rightarrow>
               (let now = (of_int (now_us sdiv 1000) :: u64) in
                case (if conn_get_expiry lib c \<le> now then conn_handle_expiry lib now c else (0, c)) of (rv, c1) \<Rightarrow>
                if rv \<noteq> 0
                then Some ((Inl ERROR_RTMP_MESSAGE_DECODE,
                       w\<lparr>qw_conn := Some c1,
                         qw_is_connected := (if ngtcp2_err_is_fatal rv then False else qw_is_connected w)\<rparr>, g), [])
                else (let peer = (qw_peer_addr w, qw_peer_addrlen w) in
                      case write_loop (conn_write_pkt lib peer now) peer (qw_send_packet_func w) c1 [] of
                        None \<Rightarrow> None
                      | Some (c2, evs) \<Rightarrow> Some ((srs_success, w\<lparr>qw_conn := Some c2\<rparr>, g), evs)))))"

text \<open>What the session does after an operation: the rest of the work, with the events so far in front.\<close>

definition then_react :: "quic_event list \<Rightarrow> 's reaction \<Rightarrow> 's reaction" where
  "then_react evs r = (case r of None \<Rightarrow> None | Some (o1, evs1) \<Rightarrow> Some (o1, evs @ evs1))"

text \<open>A packet for a session without connection: \<open>Inr False\<close> if it is ignored, \<open>Inr True\<close> with a new connection.\<close>

definition qw_new_connection ::
    "('c, 'l) quic_lib \<Rightarrow> sockaddr \<Rightarrow> u8 list \<Rightarrow> ('c, 'l) session \<Rightarrow> bool res \<times> ('c, 'l) session" where
  "qw_new_connection lib peer data s =
     (case s of (w, g) \<Rightarrow>
      case pkt_decode_version_cid lib data of (rv, dcid) \<Rightarrow>
      if rv \<noteq> 0 then (Inr False, w, g) else
      case ngtcp2_accept lib data of (rv, ty) \<Rightarrow>
      if rv \<noteq> 0 \<or> ty \<noteq> NGTCP2_PKT_INITIAL then (Inr False, w, g) else
      let w1 = w\<lparr>qw_dcid := dcid\<rparr> in
      case RAND_bytes lib NGTCP2_MAX_CIDLEN (lib_state g) of
        (None, l1) \<Rightarrow> (Inl ERROR_RTMP_MESSAGE_DECODE, w1, g\<lparr>lib_state := l1\<rparr>)
      | (Some scid, l1) \<Rightarrow>
          (let w2 = w1\<lparr>qw_scid := scid\<rparr> in
           case SSL_new lib l1 of (ok, l2) \<Rightarrow>
           if \<not> ok then (Inl ERROR_TLS_HANDSHAKE, w2\<lparr>qw_ssl := False\<rparr>, g\<lparr>lib_state := l2\<rparr>) else
           let w3 = w2\<lparr>qw_ssl := True\<rparr> in
           case conn_server_new lib dcid scid (peer, qw_peer_addrlen w3) setup_callbacks (qw_initial_ts w3)
                  transport_params l2 of
             (Inl e, l3) \<Rightarrow> (Inl e, w3, g\<lparr>lib_state := l3\<rparr>)
           | (Inr (rv, c), l3) \<Rightarrow>
               if rv \<noteq> 0 then (Inl ERROR_RTMP_MESSAGE_DECODE, w3\<lparr>qw_ssl := False\<rparr>, g\<lparr>lib_state := l3\<rparr>)
               else (Inr True, w3\<lparr>qw_conn := Some c, qw_connection_id := concat (map (show_base 16 \<circ> unat) scid)\<rparr>,
                     g\<lparr>lib_state := l3\<rparr>)))"

text \<open>The answer to a result of \<open>ngtcp2_conn_read_pkt\<close>: an error of the call, or go on.\<close>

definition read_error :: "int \<Rightarrow> 'c QuicSessionWrapper \<Rightarrow> 'c QuicSessionWrapper outcome" where
  "read_error rv w =
     (if rv \<noteq> 0 \<and> rv \<noteq> NGTCP2_ERR_DISCARD_PKT \<and> ngtcp2_err_is_fatal rv
      then (if rv = NGTCP2_ERR_CRYPTO then (Inl ERROR_TLS_HANDSHAKE, w)
            else if rv = NGTCP2_ERR_DRAINING \<or> rv = NGTCP2_ERR_DROP_CONN
                 then (Inl ERROR_RTMP_MESSAGE_DECODE, w\<lparr>qw_is_connected := False\<rparr>)
            else (Inl ERROR_RTMP_MESSAGE_DECODE, w))
      else (srs_success, w))"

definition qw_read_packet ::
    "('c, 'l) quic_lib \<Rightarrow> int \<Rightarrow> sockaddr \<Rightarrow> u8 list \<Rightarrow> ('c, 'l) session \<Rightarrow> ('c, 'l) session reaction" where
  "qw_read_packet lib now_us peer data s =
     (case s of (w, g) \<Rightarrow>
      case qw_conn w of
        None \<Rightarrow> Some ((srs_success, w, g), [])
      | Some c \<Rightarrow>
          (case conn_read_pkt lib (peer, qw_peer_addrlen w) data (of_int (now_us sdiv 1000)) c (lib_state g) of
             ((rv, calls, c1), l1) \<Rightarrow>
               (let g1 = g\<lparr>lib_state := l1\<rparr>; evs = concat (map (run_callback now_us w) calls) in
                case read_error rv (w\<lparr>qw_conn := Some c1\<rparr>) of
                  (Inl e, w1) \<Rightarrow> Some ((Inl e, w1, g1), evs)
                | (Inr _, w1) \<Rightarrow> then_react evs (qw_process_connections (Some lib) now_us (w1, g1)))))"

definition save_peer :: "sockaddr \<Rightarrow> 'c QuicSessionWrapper \<Rightarrow> 'c QuicSessionWrapper" where
  "save_peer peer w = w\<lparr>qw_peer_addr := peer,
     qw_peer_addrlen := (if sa_family peer = AF_INET then 16 else if sa_family peer = AF_INET6 then 28 else 128)\<rparr>"

definition qw_on_udp_packet ::
    "('c, 'l) quic_lib option \<Rightarrow> int \<Rightarrow> sockaddr \<Rightarrow> u8 list \<Rightarrow> ('c, 'l) session \<Rightarrow> ('c, 'l) session reaction" where
  "qw_on_udp_packet build now_us peer data s =
     (case s of (w, g) \<Rightarrow>
      case build of
        None \<Rightarrow> Some ((srs_success, w, g),
          (case qw_datagram_cb w of
             None \<Rightarrow> []
           | Some ctx \<Rightarrow> if data \<noteq> [] then [Datagram_Callback ctx data (now_us sdiv 1000)] else []))
      | Some lib \<Rightarrow>
          (let w1 = save_peer peer w in
           case (if qw_conn w1 = None then qw_new_connection lib peer data (w1, g) else (Inr True, w1, g)) of
             (Inl e, s1) \<Rightarrow> Some ((Inl e, s1), [])
           | (Inr False, s1) \<Rightarrow> Some ((srs_success, s1), [])
           | (Inr True, s1) \<Rightarrow> qw_read_packet lib now_us peer data s1))"

definition qw_send_datagram ::
    "('c, 'l) quic_lib option \<Rightarrow> int \<Rightarrow> u8 list \<Rightarrow> ('c, 'l) session \<Rightarrow> ('c, 'l) session reaction" where
  "qw_send_datagram build now_us data s =
     (case s of (w, g) \<Rightarrow>
      case build of
        None \<Rightarrow> Some ((srs_success, w, g), [])
      | Some lib \<Rightarrow>
          (case qw_conn w of
             None \<Rightarrow> Some ((Inl ERROR_RTMP_MESSAGE_DECODE, w, g), [])
           | Some c \<Rightarrow>
               if \<not> qw_is_connected w then Some ((Inl ERROR_RTMP_MESSAGE_DECODE, w, g), [])
               else (let peer = (qw_peer_addr w, qw_peer_addrlen w) in
                 case conn_write_datagram lib peer data (of_int (now_us sdiv 1000)) c of ((n, accepted, out), c1) \<Rightarrow>
                   let w1 = w\<lparr>qw_conn := Some c1\<rparr> in
                   if n < 0 \<or> \<not> accepted then Some ((Inl ERROR_RTMP_MESSAGE_DECODE, w1, g), [])
                   else then_react (if n > 0 \<and> qw_send_packet_func w1 then [Send_Packet (take (nat n) out) peer] else [])
                          (qw_process_connections (Some lib) now_us (w1, g)))))"

definition qw_close :: "('c, 'l) quic_lib option \<Rightarrow> ('c, 'l) session \<Rightarrow> ('c, 'l) session" where
  "qw_close build s =
     (case s of (w, g) \<Rightarrow>
      case build of
        None \<Rightarrow> (w\<lparr>qw_is_connected := False, qw_connection_id := []\<rparr>, g)
      | Some lib \<Rightarrow>
          (w\<lparr>qw_conn := None, qw_ssl := False, qw_is_connected := False, qw_connection_id := []\<rparr>,
           if ssl_ctx g \<and> ssl_ctx_ref_count g > 0 then g\<lparr>ssl_ctx_ref_count := ssl_ctx_ref_count g - 1\<rparr> else g))"


section \<open>The sending loop\<close>

text \<open>What the library writes from a connection until it stops: the packets in order and the connection afterwards.\<close>

inductive writes :: "('c \<Rightarrow> (int \<times> u8 list) \<times> 'c) \<Rightarrow> 'c \<Rightarrow> u8 list list \<Rightarrow> 'c \<Rightarrow> bool" for wr where
  stop: "wr c = ((n, out), c1) \<Longrightarrow> n \<le> 0 \<Longrightarrow> n \<noteq> NGTCP2_ERR_WRITE_MORE \<Longrightarrow> writes wr c [] c1"
| packet: "wr c = ((n, out), c1) \<Longrightarrow> n > 0 \<Longrightarrow> writes wr c1 ps c2 \<Longrightarrow> writes wr c (take (nat n) out # ps) c2"
| more: "wr c = ((NGTCP2_ERR_WRITE_MORE, out), c1) \<Longrightarrow> writes wr c1 ps c2 \<Longrightarrow> writes wr c (out # ps) c2"

definition sent :: "bool \<Rightarrow> sockaddr \<times> int \<Rightarrow> u8 list list \<Rightarrow> quic_event list" where
  "sent send peer ps = (if send then map (\<lambda>p. Send_Packet p peer) ps else [])"

lemma sent_simps [simp]:
  "sent send peer [] = []"
  "sent send peer (p # ps) = (if send then [Send_Packet p peer] else []) @ sent send peer ps"
  by (simp_all add: sent_def)

lemma write_more_neg: "NGTCP2_ERR_WRITE_MORE < 0"
  by (simp add: NGTCP2_ERR_WRITE_MORE_def)

lemma write_loop_writes: "writes wr c ps c' \<Longrightarrow> write_loop wr peer send c evs = Some (c', evs @ sent send peer ps)"
proof (induction arbitrary: evs rule: writes.induct)
  case (stop c n out c1)
  then show ?case by (subst write_loop.simps) auto
next
  case (packet c n out c1 ps c2)
  then show ?case by (subst write_loop.simps) (use packet in auto)
next
  case (more c out c1 ps c2)
  then show ?case using write_more_neg by (subst write_loop.simps) simp
qed

lemma writes_write_loop:
  assumes "write_loop wr peer send c evs = Some r"
  shows "\<exists>ps. writes wr c ps (fst r)"
proof (rule write_loop.raw_induct [OF _ assms, of "\<lambda>wr peer send c evs r. \<exists>ps. writes wr c ps (fst r)"])
  fix rec r and wr :: "'a \<Rightarrow> (int \<times> u8 list) \<times> 'a" and peer :: "u8 list \<times> int" and send c evs
  assume ih: "\<And>wr peer send c evs r. rec wr peer send c evs = Some r \<Longrightarrow> \<exists>ps. writes wr c ps (fst r)"
    and eq: "(case wr c of ((nwrite, out), c1) \<Rightarrow>
        if nwrite < 0
        then if nwrite = NGTCP2_ERR_WRITE_MORE
             then rec wr peer send c1 (evs @ (if send then [Send_Packet out peer] else []))
             else Some (c1, evs)
        else if nwrite > 0
             then rec wr peer send c1 (evs @ (if send then [Send_Packet (take (nat nwrite) out) peer] else []))
             else Some (c1, evs)) = Some r"
  obtain n out c1 where w: "wr c = ((n, out), c1)" by (metis surj_pair)
  show "\<exists>ps. writes wr c ps (fst r)"
  proof (cases "n = NGTCP2_ERR_WRITE_MORE \<or> n > 0")
    case True
    have "\<exists>evs1. rec wr peer send c1 evs1 = Some r"
      using eq w write_more_neg True by (cases "n > 0") auto
    then obtain ps where "writes wr c1 ps (fst r)" using ih by blast
    then show ?thesis using True w by (blast intro: writes.intros)
  next
    case False
    then show ?thesis using eq w writes.stop [of wr c n out c1, OF w] by (auto split: if_splits)
  qed
qed

text \<open>The sending loop returns exactly if the library stops writing, and then has sent what it wrote, in order.\<close>

lemma write_loop_iff:
  "write_loop wr peer send c evs = Some (c', evs') \<longleftrightarrow> (\<exists>ps. writes wr c ps c' \<and> evs' = evs @ sent send peer ps)"
proof
  assume l: "write_loop wr peer send c evs = Some (c', evs')"
  then obtain ps where "writes wr c ps c'" using writes_write_loop by fastforce
  with write_loop_writes [OF this, of peer send evs] l
  show "\<exists>ps. writes wr c ps c' \<and> evs' = evs @ sent send peer ps" by auto
qed (auto simp: write_loop_writes)

lemma writes_exist:
  assumes "\<And>c n out c1. wr c = ((n, out), c1) \<Longrightarrow> n > 0 \<or> n = NGTCP2_ERR_WRITE_MORE \<Longrightarrow> m c1 < (m c :: nat)"
  shows "\<exists>ps c'. writes wr c ps c'"
proof (induction "m c" arbitrary: c rule: less_induct)
  case less
  obtain n out c1 where w: "wr c = ((n, out), c1)" by (metis surj_pair)
  show ?case
  proof (cases "n > 0 \<or> n = NGTCP2_ERR_WRITE_MORE")
    case True
    then obtain ps c2 where "writes wr c1 ps c2" using less [of c1] assms [OF w] by blast
    with True w show ?thesis by (blast intro: writes.intros)
  next
    case False
    then show ?thesis using writes.stop [of wr c n out c1, OF w] by force
  qed
qed

text \<open>
 
  A session of the ngtcp2 build returns from \<open>process_connections\<close> whenever the library stops writing, and has then
  sent exactly the packets that the library wrote, in order, to the peer of the last packet received; no
  bound on their number is built in.
\<close>

theorem quic_session_sends_all:
  assumes "conn_get_expiry lib c > of_int (now_us sdiv 1000)" "qw_conn w = Some c"
  shows "qw_process_connections (Some lib) now_us (w, g) = Some ((r, s), evs) \<longleftrightarrow>
    (\<exists>ps c'. writes (conn_write_pkt lib (qw_peer_addr w, qw_peer_addrlen w) (of_int (now_us sdiv 1000))) c ps c' \<and>
       r = srs_success \<and> s = (w\<lparr>qw_conn := Some c'\<rparr>, g) \<and>
       evs = sent (qw_send_packet_func w) (qw_peer_addr w, qw_peer_addrlen w) ps)"
proof -
  let ?peer = "(qw_peer_addr w, qw_peer_addrlen w)"
  let ?loop = "write_loop (conn_write_pkt lib ?peer (of_int (now_us sdiv 1000))) ?peer (qw_send_packet_func w) c []"
  have "qw_process_connections (Some lib) now_us (w, g) =
      (case ?loop of None \<Rightarrow> None | Some (c2, evs) \<Rightarrow> Some ((srs_success, w\<lparr>qw_conn := Some c2\<rparr>, g), evs))"
    using assms by (simp add: qw_process_connections_def Let_def not_le [symmetric])
  then have "qw_process_connections (Some lib) now_us (w, g) = Some ((r, s), evs) \<longleftrightarrow>
      (\<exists>c'. ?loop = Some (c', evs) \<and> r = srs_success \<and> s = (w\<lparr>qw_conn := Some c'\<rparr>, g))"
    by (auto split: option.splits)
  then show ?thesis by (auto simp: write_loop_iff)
qed

section \<open>A session of the ngtcp2 build\<close>

inductive qw_step :: "('c, 'l) quic_lib \<Rightarrow> ('c, 'l) session \<Rightarrow> ('c, 'l) session \<Rightarrow> bool" for lib where
  init: "qw_init_server (Some lib) now cert key s = (r, s') \<Longrightarrow> qw_step lib s s'"
| udp: "qw_on_udp_packet (Some lib) now peer data s = Some ((r, s'), evs) \<Longrightarrow> qw_step lib s s'"
| process: "qw_process_connections (Some lib) now s = Some ((r, s'), evs) \<Longrightarrow> qw_step lib s s'"
| send: "qw_send_datagram (Some lib) now data s = Some ((r, s'), evs) \<Longrightarrow> qw_step lib s s'"
| close: "qw_step lib s (qw_close (Some lib) s)"
| callbacks: "qw_step lib (w, g) (set_send_packet_func f (set_connection_callback cc (set_stream_callback sc
    (set_datagram_callback ctx w))), g)"

lemmas qw_ops = qw_on_udp_packet_def qw_read_packet_def qw_process_connections_def qw_send_datagram_def
  qw_new_connection_def then_react_def save_peer_def read_error_def Let_def

lemma process_keeps:
  "qw_process_connections (Some lib) now s = Some ((r, s'), evs) \<Longrightarrow> \<not> qw_is_connected (fst s) \<Longrightarrow> \<not> qw_is_connected (fst s')"
  by (cases s) (auto simp: qw_process_connections_def Let_def split: option.splits prod.splits if_splits)

lemma new_connection_keeps:
  "\<not> qw_is_connected (fst s) \<Longrightarrow> \<not> qw_is_connected (fst (snd (qw_new_connection lib peer data s)))"
  by (cases s) (simp add: qw_new_connection_def Let_def split: prod.splits option.splits sum.splits)

lemma read_packet_keeps:
  assumes "qw_read_packet lib now peer data s = Some ((r, s'), evs)" "\<not> qw_is_connected (fst s)"
  shows "\<not> qw_is_connected (fst s')"
  using assms process_keeps [of lib now _ r s']
  by (cases s) (fastforce simp: qw_read_packet_def read_error_def then_react_def Let_def
      split: option.splits prod.splits if_splits)

lemma udp_keeps:
  assumes "qw_on_udp_packet (Some lib) now peer data s = Some ((r, s'), evs)" "\<not> qw_is_connected (fst s)"
  shows "\<not> qw_is_connected (fst s')"
proof -
  obtain w g where s: "s = (w, g)" by fastforce
  let ?p = "if qw_conn (save_peer peer w) = None then qw_new_connection lib peer data (save_peer peer w, g)
    else (Inr True, save_peer peer w, g)"
  have "\<not> qw_is_connected (fst (snd ?p))"
    using assms(2) s new_connection_keeps [of "(save_peer peer w, g)" lib peer data] by (simp add: save_peer_def)
  moreover have "s' = snd ?p \<or> qw_read_packet lib now peer data (snd ?p) = Some ((r, s'), evs)"
    using assms(1) s by (cases ?p) (auto simp: qw_on_udp_packet_def Let_def split: sum.splits bool.splits)
  ultimately show ?thesis using read_packet_keeps by metis
qed

lemma step_not_connected: "qw_step lib s s' \<Longrightarrow> \<not> qw_is_connected (fst s) \<Longrightarrow> \<not> qw_is_connected (fst s')"
proof (induction rule: qw_step.induct)
  case (init now cert key s r s')
  then show ?case by (auto simp: qw_init_server_def Let_def split: prod.splits sum.splits if_splits)
next
  case (send now data s r s' evs)
  then show ?case by (cases s) (auto simp: qw_send_datagram_def split: option.splits)
next
  case (close s)
  then show ?case by (cases s) (simp add: qw_close_def)
next
  case (callbacks w g f cc sc ctx)
  then show ?case
    by (simp add: set_send_packet_func_def set_connection_callback_def set_stream_callback_def set_datagram_callback_def)
qed (auto dest: udp_keeps process_keeps)

lemma steps_not_connected: "(qw_step lib)\<^sup>*\<^sup>* s s' \<Longrightarrow> \<not> qw_is_connected (fst s) \<Longrightarrow> \<not> qw_is_connected (fst s')"
  by (induction rule: rtranclp_induct) (auto dest: step_not_connected)

text \<open>A small library for concrete runs: a connection is the list of the packets it still has to write,
  a packet that starts with 0 is an Initial packet and each other packet a datagram that is answered with itself.\<close>

definition demo_lib :: "(u8 list list, unit) quic_lib" where
  "demo_lib =
     \<lparr>quictls_init = (\<lambda>l. (0, l)), SSL_CTX_new = (\<lambda>l. (True, l)),
      use_certificate_chain_file = (\<lambda>f l. (if f = [] then 0 else 1, l)),
      use_PrivateKey_file = (\<lambda>f l. (if f = [] then 0 else 1, l)),
      check_private_key = (\<lambda>l. (1, l)), configure_server_context = (\<lambda>l. (0, l)), SSL_new = (\<lambda>l. (True, l)),
      RAND_bytes = (\<lambda>n l. (Some (replicate n 7), l)), pkt_decode_version_cid = (\<lambda>d. (0, take 4 d)),
      ngtcp2_accept = (\<lambda>d. (0, if take 1 d = [0] then NGTCP2_PKT_INITIAL else 1)),
      conn_server_new = (\<lambda>dcid scid peer cbs ts tp l. (Inr (0, [[1, 2]]), l)),
      conn_read_pkt = (\<lambda>peer d ts c l. ((0, if take 1 d = [0] then [Handshake_Completed] else [Recv_Datagram d], c @ [d]), l)),
      conn_get_expiry = (\<lambda>c. 1000), conn_handle_expiry = (\<lambda>ts c. (0, c)),
      conn_write_pkt = (\<lambda>peer ts c. case c of [] \<Rightarrow> ((0, []), c) | p # ps \<Rightarrow> ((int (length p), p), ps)),
      conn_write_datagram = (\<lambda>peer d ts c. ((int (length d), True, d), c))\<rparr>"

definition demo_static :: "unit quic_static" where
  "demo_static = \<lparr>ssl_ctx = True, ssl_ctx_ref_count = 0, lib_state = ()\<rparr>"

definition demo_session :: "u8 list list QuicSessionWrapper" where
  "demo_session = QuicSessionWrapper_new\<lparr>qw_conn := Some [[1, 2]], qw_send_packet_func := True, qw_datagram_cb := Some 3\<rparr>"

theorem quic_session_sends_all_witness:
  "qw_process_connections (Some demo_lib) 5000 (demo_session, demo_static) =
     Some ((srs_success, demo_session\<lparr>qw_conn := Some []\<rparr>, demo_static), [Send_Packet [1, 2] (replicate 128 0, 0)])"
proof -
  let ?wr = "conn_write_pkt demo_lib (qw_peer_addr demo_session, qw_peer_addrlen demo_session) (of_int (5000 sdiv 1000))"
  have "writes ?wr [] [] []" by (rule writes.stop [of _ _ 0 "[]"]) (simp_all add: demo_lib_def NGTCP2_ERR_WRITE_MORE_def)
  then have "writes ?wr [[1, 2]] [take (nat 2) [1, 2]] []"
    by (rule writes.packet [rotated 2]) (simp_all add: demo_lib_def)
  moreover have "conn_get_expiry demo_lib [[1, 2]] > of_int (5000 sdiv 1000)" by (simp add: demo_lib_def signed_divide_int_def)
  moreover have "qw_conn demo_session = Some [[1, 2]]" by (simp add: demo_session_def)
  ultimately show ?thesis
    using quic_session_sends_all [of 5000 demo_lib "[[1, 2]]" demo_session demo_static]
    by (fastforce simp: demo_session_def QuicSessionWrapper_new_def)
qed

text \<open>C38.
  In the ngtcp2 build a session never becomes connected: whatever calls are made on it, and whatever
  ngtcp2 and OpenSSL answer (a completed handshake included), its flag \<open>is_connected_\<close> stays false, so that
  \<open>send_datagram\<close> fails and sends nothing.
\<close>

theorem quic_session_never_ready:
  assumes "(qw_step lib)\<^sup>*\<^sup>* (QuicSessionWrapper_new, g) s"
  shows "\<not> qw_is_connected (fst s) \<and>
    qw_send_datagram (Some lib) now_us data s = Some ((Inl ERROR_RTMP_MESSAGE_DECODE, s), [])"
proof -
  have "\<not> qw_is_connected (fst s)"
    using steps_not_connected [OF assms] by (simp add: QuicSessionWrapper_new_def)
  then show ?thesis by (cases s) (simp add: qw_send_datagram_def split: option.splits)
qed

text \<open>A run in which the handshake completes and the answer of the library is sent.\<close>

definition demo_packet :: "u8 list" where
  "demo_packet = [0, 1, 2, 3, 4]"

definition demo_open :: "u8 list list QuicSessionWrapper" where
  "demo_open = set_send_packet_func True (set_connection_callback True (set_stream_callback False
     (set_datagram_callback 3 QuicSessionWrapper_new)))"

lemma demo_family: "sa_family (replicate 128 0) = 0"
  by (simp add: sa_family_def take_replicate numeral_2_eq_2)

lemma demo_accept:
  "\<exists>s. qw_on_udp_packet (Some demo_lib) 5000 (replicate 128 0) demo_packet (demo_open, demo_static) =
     Some ((srs_success, s), [Connection_Callback, Send_Packet [1, 2] (replicate 128 0, 128),
       Send_Packet demo_packet (replicate 128 0, 128)]) \<and> qw_conn (fst s) = Some []"
  by (simp add: qw_on_udp_packet_def save_peer_def qw_new_connection_def qw_read_packet_def qw_process_connections_def
      read_error_def run_callback_def then_react_def write_loop.simps NGTCP2_ERR_WRITE_MORE_def demo_open_def
      set_send_packet_func_def set_connection_callback_def set_stream_callback_def set_datagram_callback_def
      QuicSessionWrapper_new_def demo_lib_def demo_static_def demo_packet_def Let_def signed_divide_int_def
      demo_family AF_INET_def AF_INET6_def take_Cons')

theorem quic_session_never_ready_witness:
  "\<exists>s. qw_on_udp_packet (Some demo_lib) 5000 (replicate 128 0) demo_packet (demo_open, demo_static) =
     Some ((srs_success, s), [Connection_Callback, Send_Packet [1, 2] (replicate 128 0, 128),
       Send_Packet demo_packet (replicate 128 0, 128)]) \<and>
     qw_send_datagram (Some demo_lib) 6000 [1] s = Some ((Inl ERROR_RTMP_MESSAGE_DECODE, s), [])"
proof -
  obtain s where s: "qw_on_udp_packet (Some demo_lib) 5000 (replicate 128 0) demo_packet (demo_open, demo_static) =
     Some ((srs_success, s), [Connection_Callback, Send_Packet [1, 2] (replicate 128 0, 128),
       Send_Packet demo_packet (replicate 128 0, 128)])"
    using demo_accept by blast
  have "qw_step demo_lib (QuicSessionWrapper_new, demo_static) (demo_open, demo_static)"
    unfolding demo_open_def by (rule qw_step.callbacks)
  then have "(qw_step demo_lib)\<^sup>*\<^sup>* (QuicSessionWrapper_new, demo_static) s"
    using qw_step.udp [OF s] by (meson converse_rtranclp_into_rtranclp r_into_rtranclp)
  with s show ?thesis using quic_session_never_ready by blast
qed

section \<open>Errors of a connection\<close>

text \<open>The library with four of its errors taken for success.\<close>

definition handled_errors :: "int list" where
  "handled_errors = [NGTCP2_ERR_CRYPTO, NGTCP2_ERR_DRAINING, NGTCP2_ERR_RETRY, NGTCP2_ERR_DROP_CONN]"

definition deaf :: "('c, 'l) quic_lib \<Rightarrow> ('c, 'l) quic_lib" where
  "deaf lib = lib\<lparr>conn_read_pkt := (\<lambda>peer d ts c l.
     case conn_read_pkt lib peer d ts c l of ((rv, calls, c1), l1) \<Rightarrow>
       ((if rv \<in> set handled_errors then 0 else rv, calls, c1), l1))\<rparr>"

lemma deaf_sel [simp]:
  "conn_get_expiry (deaf lib) = conn_get_expiry lib"
  "conn_handle_expiry (deaf lib) = conn_handle_expiry lib"
  "conn_write_pkt (deaf lib) = conn_write_pkt lib"
  "pkt_decode_version_cid (deaf lib) = pkt_decode_version_cid lib"
  "ngtcp2_accept (deaf lib) = ngtcp2_accept lib"
  "RAND_bytes (deaf lib) = RAND_bytes lib"
  "SSL_new (deaf lib) = SSL_new lib"
  "conn_server_new (deaf lib) = conn_server_new lib"
  by (simp_all add: deaf_def)

lemma new_connection_deaf [simp]: "qw_new_connection (deaf lib) = qw_new_connection lib"
  by (intro ext) (unfold qw_new_connection_def deaf_sel, rule refl)

lemma process_deaf: "qw_process_connections (Some (deaf lib)) = qw_process_connections (Some lib)"
  by (intro ext) (unfold qw_process_connections_def option.case deaf_sel, rule refl)

lemma read_error_deaf: "rv \<in> set handled_errors \<Longrightarrow> read_error rv w = read_error 0 w"
  by (auto simp: handled_errors_def read_error_def ngtcp2_err_is_fatal_def NGTCP2_ERR_FATAL_def NGTCP2_ERR_CRYPTO_def
      NGTCP2_ERR_DRAINING_def NGTCP2_ERR_RETRY_def NGTCP2_ERR_DROP_CONN_def)

text \<open>C39.
  The session does not react to the errors it has code for: since \<open>ngtcp2_err_is_fatal\<close> is false for a
  TLS failure, a draining connection, a required Retry and a dropped connection, a packet for which
  ngtcp2 reports one of them is handled exactly as if it had been read without error.
\<close>

theorem quic_connection_errors_ignored:
  "qw_on_udp_packet (Some lib) now_us peer data s = qw_on_udp_packet (Some (deaf lib)) now_us peer data s"
proof -
  have "qw_read_packet (deaf lib) now_us peer data s1 = qw_read_packet lib now_us peer data s1" for s1
  proof (cases s1)
    case (Pair w g)
    show ?thesis
      unfolding qw_read_packet_def process_deaf
      by (cases "qw_conn w") (simp_all add: Pair deaf_def read_error_deaf split: prod.split)
  qed
  then have eq: "qw_read_packet (deaf lib) now_us peer data = qw_read_packet lib now_us peer data" by (rule ext)
  show ?thesis unfolding qw_on_udp_packet_def option.case new_connection_deaf eq by (rule refl)
qed

section \<open>The callbacks of a server\<close>

text \<open>The callbacks that a server connection must have: \<open>conn_new\<close> in \<open>ngtcp2_conn.c\<close> asserts that they are not null.\<close>

definition server_requires :: "string list" where
  "server_requires =
     [''recv_client_initial'', ''recv_crypto_data'', ''encrypt'', ''decrypt'', ''hp_mask'', ''rand'',
      ''get_new_connection_id'', ''update_key'', ''delete_crypto_aead_ctx'', ''get_path_challenge_data'']"

definition asserts_callbacks :: "('c, 'l) quic_lib \<Rightarrow> bool" where
  "asserts_callbacks lib \<longleftrightarrow> (\<forall>dcid scid peer cbs ts tp l. \<not> set server_requires \<subseteq> set cbs \<longrightarrow>
     fst (conn_server_new lib dcid scid peer cbs ts tp l) = Inl ASSERT_FAILED)"

lemma callbacks_incomplete: "\<not> set server_requires \<subseteq> set setup_callbacks"
  by (simp add: server_requires_def setup_callbacks_def)

lemma new_connection_none:
  assumes "asserts_callbacks lib" "qw_conn (fst s) = None" "qw_new_connection lib peer data s = (r, s')"
  shows "qw_conn (fst s') = None \<and> r \<noteq> Inr True"
proof -
  have "fst (conn_server_new lib dcid scid p setup_callbacks ts tp l) = Inl ASSERT_FAILED" for dcid scid p ts tp l
    using assms(1) callbacks_incomplete unfolding asserts_callbacks_def by blast
  then obtain L where new: "\<And>dcid scid p ts tp l. conn_server_new lib dcid scid p setup_callbacks ts tp l =
      (Inl ASSERT_FAILED, L dcid scid p ts tp l)"
    using that [of "\<lambda>dcid scid p ts tp l. snd (conn_server_new lib dcid scid p setup_callbacks ts tp l)"]
    by (metis prod.collapse)
  obtain w g where s: "s = (w, g)" by fastforce
  have "qw_conn (fst (snd (qw_new_connection lib peer data (w, g)))) = None \<and>
      fst (qw_new_connection lib peer data (w, g)) \<noteq> Inr True"
    using assms(2) s by (simp add: qw_new_connection_def Let_def new split: prod.split option.split)
  then show ?thesis using assms(3) s by simp
qed

lemma udp_no_connection:
  assumes "asserts_callbacks lib" "qw_conn (fst s) = None"
    and "qw_on_udp_packet (Some lib) now peer data s = Some ((r, s'), evs)"
  shows "qw_conn (fst s') = None \<and> evs = []"
proof -
  obtain w g where s: "s = (w, g)" by fastforce
  obtain r1 s1 where n: "qw_new_connection lib peer data (save_peer peer w, g) = (r1, s1)" by (rule prod.exhaust)
  have "qw_conn (save_peer peer w) = None" using assms(2) s by (simp add: save_peer_def)
  then show ?thesis
    using assms(3) n new_connection_none [OF assms(1) _ n] s
    by (cases r1) (auto simp: qw_on_udp_packet_def Let_def split: bool.splits)
qed

lemma no_connection_step: "qw_step lib s s' \<Longrightarrow> asserts_callbacks lib \<Longrightarrow> qw_conn (fst s) = None \<Longrightarrow> qw_conn (fst s') = None"
proof (induction rule: qw_step.induct)
  case (init now cert key s r s')
  then show ?case by (auto simp: qw_init_server_def Let_def split: prod.splits sum.splits if_splits)
next
  case (process now s r s' evs)
  then show ?case by (cases s) (auto simp: qw_process_connections_def)
next
  case (send now data s r s' evs)
  then show ?case by (cases s) (auto simp: qw_send_datagram_def)
next
  case (close s)
  then show ?case by (cases s) (simp add: qw_close_def)
next
  case (callbacks w g f cc sc ctx)
  then show ?case
    by (simp add: set_send_packet_func_def set_connection_callback_def set_stream_callback_def set_datagram_callback_def)
qed (auto dest: udp_no_connection)

text \<open>C40.
  The ngtcp2 build delivers nothing: \<open>setup_callbacks\<close> leaves callbacks of a server null that ngtcp2
  requires, and with a library that aborts on a null one of them, as the bundled \<open>ngtcp2_conn.c\<close> does by
  assertion, no session ever has a connection and no UDP packet leads to a callback or to an answer.
\<close>

theorem quic_session_delivers_nothing:
  assumes "asserts_callbacks lib" "(qw_step lib)\<^sup>*\<^sup>* (QuicSessionWrapper_new, g) s"
    and "qw_on_udp_packet (Some lib) now_us peer data s = Some ((r, s'), evs)"
  shows "qw_conn (fst s') = None \<and> evs = []"
proof -
  have "qw_conn (fst s) = None"
    using assms(2) by (induction rule: rtranclp_induct) (auto simp: QuicSessionWrapper_new_def dest: no_connection_step [OF _ assms(1)])
  then show ?thesis using udp_no_connection [OF assms(1) _ assms(3)] by blast
qed

definition strict_lib :: "(u8 list list, unit) quic_lib" where
  "strict_lib = demo_lib\<lparr>conn_server_new := (\<lambda>dcid scid peer cbs ts tp l.
     (if set server_requires \<subseteq> set cbs then Inr (0, []) else Inl ASSERT_FAILED, l))\<rparr>"

theorem quic_session_delivers_nothing_witness:
  "\<exists>s'. qw_on_udp_packet (Some strict_lib) 5000 (replicate 128 0) demo_packet (QuicSessionWrapper_new, demo_static) =
     Some ((Inl ASSERT_FAILED, s'), []) \<and> qw_conn (fst s') = None"
proof -
  have "asserts_callbacks strict_lib" by (simp add: asserts_callbacks_def strict_lib_def)
  moreover obtain s' evs where run: "qw_on_udp_packet (Some strict_lib) 5000 (replicate 128 0) demo_packet
      (QuicSessionWrapper_new, demo_static) = Some ((Inl ASSERT_FAILED, s'), evs)"
    using callbacks_incomplete
    by (simp add: qw_on_udp_packet_def save_peer_def qw_new_connection_def QuicSessionWrapper_new_def strict_lib_def
        demo_lib_def demo_packet_def demo_static_def Let_def)
  ultimately have "qw_conn (fst s') = None \<and> evs = []"
    by (rule quic_session_delivers_nothing [OF _ rtranclp.rtrancl_refl])
  with run show ?thesis by simp
qed

end
