(* ===== verification/Udp_Handler.thy ===== *)
theory Udp_Handler
  imports Quic_Session Adapter_Core Adapter_Stats Ts_Handler
begin

text \<open>
  \<open>QuicUdpHandler\<close> (\<open>adapter/components/quic/quic_udp_handler.cpp\<close>): it gives each UDP peer an adapter and
  a QUIC session, hands them its packets and removes both after five minutes of silence. Adapters are
  objects behind a pointer, so the state has the heap of live adapters: an address is used once, and a
  use of a freed address ends with \<open>UNDEFINED_READ\<close> and is noted in the state. The methods of the adapter class are arguments, as is
  \<open>getnameinfo\<close>; the statistics manager is the singleton of \<open>Adapter_Stats\<close>. The two mutexes of the
  handler are held only inside of an operation and never locked twice.
\<close>

section \<open>Data\<close>

record Route =
  rt_vhost :: string
  rt_app :: string
  rt_stream :: string

text \<open>The methods of an adapter: each acts on the object and on the statistics; \<open>feed\<close> and the
  destructor need not return.\<close>

record 'a adapter_class =
  ad_start :: "AdapterInit \<Rightarrow> 'a \<times> AdapterStatsManager \<Rightarrow> ('a \<times> AdapterStatsManager) outcome"
  ad_feed :: "u8 list \<Rightarrow> 'a \<times> AdapterStatsManager \<Rightarrow> ('a \<times> AdapterStatsManager) outcome option"
  ad_parseFrame :: "'a \<times> AdapterStatsManager \<Rightarrow> ('a \<times> AdapterStatsManager) outcome"
  ad_close :: "'a \<times> AdapterStatsManager \<Rightarrow> ('a \<times> AdapterStatsManager) outcome"
  ad_delete :: "'a \<times> AdapterStatsManager \<Rightarrow> AdapterStatsManager option"

record ('a, 'c, 'l) udp_env =
  ue_build :: "('c, 'l) quic_lib option"
  ue_factories :: "'a factories"
  ue_class :: "'a adapter_class"
  ue_nameinfo :: "sockaddr \<Rightarrow> int \<Rightarrow> (string \<times> string) option"
  ue_now_us :: int
  ue_now_ns :: int

text \<open>The handler, and below it the parts of the process it reaches: the static packet counter, the heap of adapters
  with the next address, the statistics, the static members of the session class, and whether an adapter or a
  session was ever used that is gone.\<close>

record ('a, 'c, 'l) QuicUdpHandler =
  uh_protocol_name :: string
  uh_fixed_route :: Route
  uh_port_mapping :: "(int, Route) smap"
  uh_adapters :: "(string, nat) smap"
  uh_adapter_last_activity :: "(string, int) smap"
  uh_quic_sessions :: "(string, 'c QuicSessionWrapper) smap"
  uh_adapter_timeout_ms :: int
  uh_quic_cert_file :: string
  uh_quic_key_file :: string
  uh_packet_count :: u64
  uh_heap :: "nat \<Rightarrow> 'a option"
  uh_next :: nat
  uh_stats :: AdapterStatsManager
  uh_quic :: "'l quic_static"
  uh_dangling :: bool

definition QuicUdpHandler_new :: "string \<Rightarrow> AdapterStatsManager \<Rightarrow> 'l quic_static \<Rightarrow> ('a, 'c, 'l) QuicUdpHandler" where
  "QuicUdpHandler_new protocol_name stats g =
     \<lparr>uh_protocol_name = protocol_name,
      uh_fixed_route = \<lparr>rt_vhost = ''__defaultVhost__'', rt_app = ''live'', rt_stream = ''stream''\<rparr>,
      uh_port_mapping = [], uh_adapters = [], uh_adapter_last_activity = [], uh_quic_sessions = [],
      uh_adapter_timeout_ms = 300000, uh_quic_cert_file = [], uh_quic_key_file = [], uh_packet_count = 0,
      uh_heap = (\<lambda>p. None), uh_next = 0, uh_stats = stats, uh_quic = g,
      uh_dangling = False\<rparr>"

definition set_fixed_route :: "Route \<Rightarrow> ('a, 'c, 'l) QuicUdpHandler \<Rightarrow> ('a, 'c, 'l) QuicUdpHandler" where
  "set_fixed_route r h = h\<lparr>uh_fixed_route := r\<rparr>"

definition add_port_mapping :: "int \<Rightarrow> Route \<Rightarrow> ('a, 'c, 'l) QuicUdpHandler \<Rightarrow> ('a, 'c, 'l) QuicUdpHandler" where
  "add_port_mapping port r h = h\<lparr>uh_port_mapping := sm_put port r (uh_port_mapping h)\<rparr>"

definition set_quic_cert_files :: "string \<Rightarrow> string \<Rightarrow> ('a, 'c, 'l) QuicUdpHandler \<Rightarrow> ('a, 'c, 'l) QuicUdpHandler" where
  "set_quic_cert_files cert key h = h\<lparr>uh_quic_cert_file := cert, uh_quic_key_file := key\<rparr>"

section \<open>Adapters on the heap\<close>

definition on_adapter ::
    "('a \<times> AdapterStatsManager \<Rightarrow> ('a \<times> AdapterStatsManager) outcome) \<Rightarrow> nat \<Rightarrow> ('a, 'c, 'l) QuicUdpHandler
      \<Rightarrow> ('a, 'c, 'l) QuicUdpHandler outcome" where
  "on_adapter f p h =
     (case uh_heap h p of
        None \<Rightarrow> (Inl UNDEFINED_READ, h\<lparr>uh_dangling := True\<rparr>)
      | Some a \<Rightarrow> (case f (a, uh_stats h) of
          (r, a1, m) \<Rightarrow> (r, h\<lparr>uh_heap := (uh_heap h)(p := Some a1), uh_stats := m\<rparr>)))"

definition feed_adapter ::
    "'a adapter_class \<Rightarrow> u8 list \<Rightarrow> nat \<Rightarrow> ('a, 'c, 'l) QuicUdpHandler
      \<Rightarrow> ('a, 'c, 'l) QuicUdpHandler outcome option" where
  "feed_adapter cls data p h =
     (case uh_heap h p of
        None \<Rightarrow> Some (Inl UNDEFINED_READ, h\<lparr>uh_dangling := True\<rparr>)
      | Some a \<Rightarrow> (case ad_feed cls data (a, uh_stats h) of
          None \<Rightarrow> None
        | Some (r, a1, m) \<Rightarrow> Some (r, h\<lparr>uh_heap := (uh_heap h)(p := Some a1), uh_stats := m\<rparr>)))"

text \<open>\<open>delete adapter\<close>: the destructor, then the address is free for good.\<close>

definition delete_adapter ::
    "'a adapter_class \<Rightarrow> nat \<Rightarrow> ('a, 'c, 'l) QuicUdpHandler \<Rightarrow> ('a, 'c, 'l) QuicUdpHandler outcome" where
  "delete_adapter cls p h =
     (case uh_heap h p of
        None \<Rightarrow> (Inl UNDEFINED_READ, h\<lparr>uh_dangling := True\<rparr>)
      | Some a \<Rightarrow> (case ad_delete cls (a, uh_stats h) of
          None \<Rightarrow> (Inl DEADLOCK, h)
        | Some m \<Rightarrow> (srs_success, h\<lparr>uh_heap := (uh_heap h)(p := None), uh_stats := m\<rparr>)))"

text \<open>An error that the caller drops; an execution that ended stays ended.\<close>

definition dropped :: "'s outcome \<Rightarrow> 's outcome" where
  "dropped o1 = (case o1 of (Inl e, s) \<Rightarrow> (if crashes e then Inl e else srs_success, s) | (Inr _, s) \<Rightarrow> (srs_success, s))"

definition and_then_opt :: "'s outcome option \<Rightarrow> ('s \<Rightarrow> 's outcome option) \<Rightarrow> 's outcome option" where
  "and_then_opt p k = (case p of None \<Rightarrow> None | Some (Inl e, s) \<Rightarrow> Some (Inl e, s) | Some (Inr _, s) \<Rightarrow> k s)"

section \<open>Peers\<close>

text \<open>\<open>inet_ntop\<close> for \<open>AF_INET\<close>, and the connection id: every address is read as a \<open>sockaddr_in\<close>.\<close>

definition inet_ntop4 :: "u8 list \<Rightarrow> string" where
  "inet_ntop4 bs =
     (case map (show_base 10 \<circ> unat) bs of
        [a, b, c, d] \<Rightarrow> a @ ''.'' @ b @ ''.'' @ c @ ''.'' @ d
      | _ \<Rightarrow> [])"

definition get_connection_id :: "sockaddr \<Rightarrow> int \<Rightarrow> string" where
  "get_connection_id from fromlen =
     (if fromlen < 16 then []
      else inet_ntop4 (take 4 (drop 4 from)) @ '':'' @
           show_base 10 (unat (be_word (take 2 (drop 2 from)) :: u16)))"

definition get_route_for_port :: "int \<Rightarrow> ('a, 'c, 'l) QuicUdpHandler \<Rightarrow> Route" where
  "get_route_for_port port h = (case sm_find (uh_port_mapping h) port of Some r \<Rightarrow> r | None \<Rightarrow> uh_fixed_route h)"

text \<open>\<open>std::to_string\<close> for an \<open>int\<close>, and \<open>atoi\<close> as in glibc: \<open>strtol\<close>, which saturates, cut to 32 bits.\<close>

definition to_string :: "int \<Rightarrow> string" where
  "to_string n = (if n < 0 then CHR ''-'' # show_base 10 (nat (- n)) else show_base 10 (nat n))"

definition atoi :: "string \<Rightarrow> int" where
  "atoi s =
     (let t = dropWhile is_space s;
          neg = (t \<noteq> [] \<and> hd t = CHR ''-'');
          u = (if t \<noteq> [] \<and> (hd t = CHR ''-'' \<or> hd t = CHR ''+'') then tl t else t);
          v = (if neg then - read_digits 0 u else read_digits 0 u)
      in sint (of_int (max (- (2 ^ 63)) (min (2 ^ 63 - 1) v)) :: u32))"

section \<open>The adapter of a peer\<close>

definition now_ms :: "('a, 'c, 'l) udp_env \<Rightarrow> int" where
  "now_ms env = ue_now_us env sdiv 1000"

definition adapter_init :: "Route \<Rightarrow> string \<Rightarrow> string \<Rightarrow> int \<Rightarrow> AdapterInit" where
  "adapter_init route cid ip port =
     set_param ''client_port'' (to_string port) (set_param ''client_ip'' ip (set_param ''connection_id'' cid
       (AdapterInit_new (rt_vhost route) (rt_app route) (rt_stream route))))"

definition get_or_create_adapter ::
    "('a, 'c, 'l) udp_env \<Rightarrow> string \<Rightarrow> string \<Rightarrow> int \<Rightarrow> ('a, 'c, 'l) QuicUdpHandler
      \<Rightarrow> nat option res \<times> ('a, 'c, 'l) QuicUdpHandler" where
  "get_or_create_adapter env cid ip port h =
     (case sm_find (uh_adapters h) cid of
        Some p \<Rightarrow> (Inr (Some p), h\<lparr>uh_adapter_last_activity := sm_put cid (now_ms env) (uh_adapter_last_activity h)\<rparr>)
      | None \<Rightarrow>
          (case create (uh_protocol_name h) (ue_factories env) of
             None \<Rightarrow> (Inr None, h)
           | Some adapter \<Rightarrow>
               (let p = uh_next h;
                    h1 = h\<lparr>uh_heap := (uh_heap h)(p := Some adapter), uh_next := Suc p\<rparr>;
                    route = get_route_for_port port h1;
                    init = adapter_init route cid ip port
                in case on_adapter (ad_start (ue_class env) init) p h1 of
                     (Inl e, h2) \<Rightarrow>
                       if crashes e then (Inl e, h2)
                       else (case delete_adapter (ue_class env) p h2 of
                               (Inl e1, h3) \<Rightarrow> (Inl e1, h3)
                             | (Inr _, h3) \<Rightarrow> (Inr None, h3))
                   | (Inr _, h2) \<Rightarrow>
                       (let h3 = h2\<lparr>uh_adapters := sm_put cid p (uh_adapters h2),
                              uh_adapter_last_activity := sm_put cid (now_ms env) (uh_adapter_last_activity h2)\<rparr>
                        in case add_connection (ue_now_ns env) cid (uh_protocol_name h3) (ai_vhost init) (ai_app init)
                                  (ai_stream init) ip port (uh_stats h3) of
                             Inl e \<Rightarrow> (Inl e, h3)
                           | Inr m \<Rightarrow> (Inr (Some p), h3\<lparr>uh_stats := m\<rparr>)))))"

section \<open>The session of a peer\<close>

text \<open>The session knows the adapter by its address. When the start of the server fails the session is
  destroyed and the result is the null pointer.\<close>

definition get_or_create_quic_session ::
    "('a, 'c, 'l) udp_env \<Rightarrow> string \<Rightarrow> nat \<Rightarrow> ('a, 'c, 'l) QuicUdpHandler \<Rightarrow> bool \<times> ('a, 'c, 'l) QuicUdpHandler" where
  "get_or_create_quic_session env cid p h =
     (case sm_find (uh_quic_sessions h) cid of
        Some w \<Rightarrow> (True, h)
      | None \<Rightarrow>
          (let w = set_datagram_callback p QuicSessionWrapper_new;
               (cert, key) = (if uh_quic_cert_file h \<noteq> [] \<and> uh_quic_key_file h \<noteq> []
                              then (uh_quic_cert_file h, uh_quic_key_file h) else ([], []))
           in case qw_init_server (ue_build env) (ue_now_us env) cert key (w, uh_quic h) of
                (Inl e, w1, g1) \<Rightarrow> (False, h\<lparr>uh_quic := snd (qw_close (ue_build env) (w1, g1))\<rparr>)
              | (Inr _, w1, g1) \<Rightarrow>
                  (True, h\<lparr>uh_quic_sessions := sm_put cid w1 (uh_quic_sessions h), uh_quic := g1\<rparr>)))"

definition on_quic_datagram_received ::
    "'a adapter_class \<Rightarrow> nat \<Rightarrow> u8 list \<Rightarrow> ('a, 'c, 'l) QuicUdpHandler \<Rightarrow> ('a, 'c, 'l) QuicUdpHandler outcome option" where
  "on_quic_datagram_received cls ctx data h =
     (if data = [] then Some (srs_success, h)
      else (case feed_adapter cls data ctx h of
              None \<Rightarrow> None
            | Some (Inl e, h1) \<Rightarrow> Some (dropped (Inl e, h1))
            | Some (Inr _, h1) \<Rightarrow> Some (dropped (on_adapter (ad_parseFrame cls) ctx h1))))"

text \<open>The callbacks that a session made; the handler sets the datagram callback only.\<close>

fun deliver ::
    "'a adapter_class \<Rightarrow> quic_event list \<Rightarrow> ('a, 'c, 'l) QuicUdpHandler \<Rightarrow> ('a, 'c, 'l) QuicUdpHandler outcome option" where
  "deliver cls [] h = Some (srs_success, h)"
| "deliver cls (Datagram_Callback ctx data ts # evs) h =
     and_then_opt (on_quic_datagram_received cls ctx data h) (deliver cls evs)"
| "deliver cls (ev # evs) h = deliver cls evs h"

definition on_session ::
    "'a adapter_class \<Rightarrow> (('c, 'l) session \<Rightarrow> ('c, 'l) session reaction) \<Rightarrow> string \<Rightarrow> ('a, 'c, 'l) QuicUdpHandler
      \<Rightarrow> ('a, 'c, 'l) QuicUdpHandler outcome option" where
  "on_session cls f cid h =
     (case sm_find (uh_quic_sessions h) cid of
        None \<Rightarrow> Some (Inl UNDEFINED_READ, h\<lparr>uh_dangling := True\<rparr>)
      | Some w \<Rightarrow>
          (case f (w, uh_quic h) of
             None \<Rightarrow> None
           | Some ((r, w1, g1), evs) \<Rightarrow>
               and_then_opt
                 (deliver cls evs (h\<lparr>uh_quic_sessions := sm_put cid w1 (uh_quic_sessions h), uh_quic := g1\<rparr>))
                 (\<lambda>h2. Some (r, h2))))"

section \<open>Expiry\<close>

definition expired_ids :: "('a, 'c, 'l) udp_env \<Rightarrow> ('a, 'c, 'l) QuicUdpHandler \<Rightarrow> string list" where
  "expired_ids env h =
     map fst (filter (\<lambda>(i, last_activity). now_ms env - last_activity > uh_adapter_timeout_ms h) (uh_adapter_last_activity h))"

definition expire_adapter ::
    "'a adapter_class \<Rightarrow> string \<Rightarrow> ('a, 'c, 'l) QuicUdpHandler \<Rightarrow> ('a, 'c, 'l) QuicUdpHandler outcome" where
  "expire_adapter cls i h =
     (case sm_find (uh_adapters h) i of
        None \<Rightarrow> (srs_success, h)
      | Some p \<Rightarrow>
          and_then (dropped (on_adapter (ad_close cls) p h)) (\<lambda>h1.
          and_then (delete_adapter cls p h1) (\<lambda>h2.
            (let h3 = h2\<lparr>uh_adapters := sm_erase i (uh_adapters h2),
                        uh_adapter_last_activity := sm_erase i (uh_adapter_last_activity h2)\<rparr>
             in case remove_connection i (uh_stats h3) of
                  Inl e \<Rightarrow> (Inl e, h3)
                | Inr m \<Rightarrow> (srs_success, h3\<lparr>uh_stats := m\<rparr>)))))"

text \<open>The session is closed by the handler and once more by its destructor.\<close>

definition expire_session ::
    "('c, 'l) quic_lib option \<Rightarrow> string \<Rightarrow> ('a, 'c, 'l) QuicUdpHandler \<Rightarrow> ('a, 'c, 'l) QuicUdpHandler" where
  "expire_session build i h =
     (case sm_find (uh_quic_sessions h) i of
        None \<Rightarrow> h
      | Some w \<Rightarrow> h\<lparr>uh_quic := snd (qw_close build (qw_close build (w, uh_quic h))),
                    uh_quic_sessions := sm_erase i (uh_quic_sessions h)\<rparr>)"

definition expire_one ::
    "('a, 'c, 'l) udp_env \<Rightarrow> string \<Rightarrow> ('a, 'c, 'l) QuicUdpHandler \<Rightarrow> ('a, 'c, 'l) QuicUdpHandler outcome" where
  "expire_one env i h =
     and_then (expire_adapter (ue_class env) i h) (\<lambda>h1. (srs_success, expire_session (ue_build env) i h1))"

fun expire_all ::
    "('a, 'c, 'l) udp_env \<Rightarrow> string list \<Rightarrow> ('a, 'c, 'l) QuicUdpHandler \<Rightarrow> ('a, 'c, 'l) QuicUdpHandler outcome" where
  "expire_all env [] h = (srs_success, h)"
| "expire_all env (i # ids) h = and_then (expire_one env i h) (expire_all env ids)"

definition cleanup_expired_adapters ::
    "('a, 'c, 'l) udp_env \<Rightarrow> ('a, 'c, 'l) QuicUdpHandler \<Rightarrow> ('a, 'c, 'l) QuicUdpHandler outcome" where
  "cleanup_expired_adapters env h = expire_all env (expired_ids env h) h"

section \<open>Packets\<close>

text \<open>A packet for an adapter: through its session, or to \<open>feed\<close> when there is none.\<close>

definition hand_over ::
    "('a, 'c, 'l) udp_env \<Rightarrow> sockaddr \<Rightarrow> u8 list \<Rightarrow> string \<Rightarrow> nat \<Rightarrow> ('a, 'c, 'l) QuicUdpHandler
      \<Rightarrow> ('a, 'c, 'l) QuicUdpHandler outcome option" where
  "hand_over env from buf cid p h =
     (case get_or_create_quic_session env cid p h of
        (True, h1) \<Rightarrow>
          and_then_opt (on_session (ue_class env) (qw_on_udp_packet (ue_build env) (ue_now_us env) from buf) cid h1)
            (on_session (ue_class env) (qw_process_connections (ue_build env) (ue_now_us env)) cid)
      | (False, h1) \<Rightarrow>
          and_then_opt (feed_adapter (ue_class env) buf p h1)
            (\<lambda>h2. Some (on_adapter (ad_parseFrame (ue_class env)) p h2)))"

definition count_packet ::
    "('a, 'c, 'l) udp_env \<Rightarrow> ('a, 'c, 'l) QuicUdpHandler \<Rightarrow> ('a, 'c, 'l) QuicUdpHandler outcome" where
  "count_packet env h =
     (let h1 = h\<lparr>uh_packet_count := uh_packet_count h + 1\<rparr> in
      if uh_packet_count h1 mod 100 = 0 then cleanup_expired_adapters env h1 else (srs_success, h1))"

definition uh_on_udp_packet ::
    "('a, 'c, 'l) udp_env \<Rightarrow> sockaddr \<Rightarrow> int \<Rightarrow> u8 list \<Rightarrow> ('a, 'c, 'l) QuicUdpHandler
      \<Rightarrow> ('a, 'c, 'l) QuicUdpHandler outcome option" where
  "uh_on_udp_packet env from fromlen buf h =
     (if buf = [] then Some (srs_success, h)
      else (let cid = get_connection_id from fromlen in
        if cid = [] then Some (Inl ERROR_SYSTEM_IP_INVALID, h)
        else (case ue_nameinfo env from fromlen of
                None \<Rightarrow> Some (Inl ERROR_SYSTEM_IP_INVALID, h)
              | Some (client_ip, port_string) \<Rightarrow>
                  (case get_or_create_adapter env cid client_ip (atoi port_string) h of
                     (Inl e, h1) \<Rightarrow> Some (Inl e, h1)
                   | (Inr None, h1) \<Rightarrow> Some (Inl ERROR_RTMP_MESSAGE_CREATE, h1)
                   | (Inr (Some p), h1) \<Rightarrow>
                       and_then_opt (hand_over env from buf cid p h1) (\<lambda>h2. Some (count_packet env h2))))))"

text \<open>The destructor: the adapters first, in the order of their ids, then the sessions.\<close>

fun delete_adapters ::
    "'a adapter_class \<Rightarrow> nat list \<Rightarrow> ('a, 'c, 'l) QuicUdpHandler \<Rightarrow> ('a, 'c, 'l) QuicUdpHandler outcome" where
  "delete_adapters cls [] h = (srs_success, h)"
| "delete_adapters cls (p # ps) h = and_then (delete_adapter cls p h) (delete_adapters cls ps)"

definition QuicUdpHandler_delete ::
    "('a, 'c, 'l) udp_env \<Rightarrow> ('a, 'c, 'l) QuicUdpHandler \<Rightarrow> ('a, 'c, 'l) QuicUdpHandler outcome" where
  "QuicUdpHandler_delete env h =
     and_then (delete_adapters (ue_class env) (map snd (uh_adapters h)) h) (\<lambda>h1.
       (srs_success, h1\<lparr>uh_adapters := [], uh_quic_sessions := [],
          uh_quic := fold (\<lambda>w g. snd (qw_close (ue_build env) (w, g))) (map snd (uh_quic_sessions h1)) (uh_quic h1)\<rparr>))"

end
