(* ===== verification/Udp_Props.thy ===== *)
theory Udp_Props
  imports Udp_Handler
begin

text \<open>
  Properties of the UDP handler: which adapter and session objects exist and how they refer to each
  other, expiry, the ids of peers and the statistics of connections.
\<close>

section \<open>What the session operations leave alone\<close>

text \<open>The datagram callbacks of an operation go to the context of the session, which stays as it is.\<close>

definition to_context :: "nat option \<Rightarrow> quic_event \<Rightarrow> bool" where
  "to_context c ev = (case ev of Datagram_Callback ctx d t \<Rightarrow> c = Some ctx | _ \<Rightarrow> True)"

definition keeps_context :: "nat option \<Rightarrow> ('c, 'l) session reaction \<Rightarrow> bool" where
  "keeps_context c r = (case r of None \<Rightarrow> True
     | Some ((r1, s1), evs) \<Rightarrow> qw_datagram_cb (fst s1) = c \<and> list_all (to_context c) evs)"

lemma sent_context: "list_all (to_context c) (sent send peer ps)"
  by (auto simp: sent_def list_all_iff to_context_def)

lemma process_context: "qw_datagram_cb (fst s) = c \<Longrightarrow> keeps_context c (qw_process_connections build now s)"
  by (cases s) (auto simp: keeps_context_def qw_process_connections_def Let_def write_loop_iff sent_context
      split: option.splits prod.splits)

lemma then_react_context:
  "keeps_context c r \<Longrightarrow> list_all (to_context c) evs \<Longrightarrow> keeps_context c (then_react evs r)"
  by (auto simp: keeps_context_def then_react_def split: option.splits)

lemma run_callback_context: "list_all (to_context (qw_datagram_cb w)) (run_callback now w call)"
  by (simp add: run_callback_def to_context_def split: ng_callback.split option.split)

lemma run_callbacks_context: "list_all (to_context (qw_datagram_cb w)) (concat (map (run_callback now w) calls))"
  by (induction calls) (simp_all add: run_callback_context)

lemma new_connection_context:
  "qw_datagram_cb (fst (snd (qw_new_connection lib peer data s))) = qw_datagram_cb (fst s)"
  by (cases s) (simp add: qw_new_connection_def Let_def split: prod.splits option.splits sum.splits)

lemma read_error_context: "qw_datagram_cb (snd (read_error rv w)) = qw_datagram_cb w"
  by (simp add: read_error_def)

lemma read_packet_context:
  assumes "qw_datagram_cb (fst s) = c"
  shows "keeps_context c (qw_read_packet lib now peer data s)"
proof -
  obtain w g where s: "s = (w, g)" by fastforce
  show ?thesis
  proof (cases "qw_conn w")
    case None
    then show ?thesis using assms s by (simp add: qw_read_packet_def keeps_context_def)
  next
    case (Some conn)
    obtain rv calls c1 l1 where rd: "conn_read_pkt lib (peer, qw_peer_addrlen w) data (of_int (now sdiv 1000)) conn (lib_state g) =
        ((rv, calls, c1), l1)" by (metis surj_pair)
    obtain r1 w1 where er: "read_error rv (w\<lparr>qw_conn := Some c1\<rparr>) = (r1, w1)" by fastforce
    have "qw_datagram_cb w1 = c" using read_error_context [of rv "w\<lparr>qw_conn := Some c1\<rparr>"] er s assms by simp
    then show ?thesis
      using assms run_callbacks_context [of w now calls] process_context [of "(w1, g\<lparr>lib_state := l1\<rparr>)"]
      by (cases r1) (simp_all add: s qw_read_packet_def Some rd er Let_def then_react_context,
          simp add: keeps_context_def)
  qed
qed

lemma udp_context:
  assumes "qw_datagram_cb (fst s) = c"
  shows "keeps_context c (qw_on_udp_packet build now peer data s)"
proof -
  obtain w g where s: "s = (w, g)" by fastforce
  show ?thesis
  proof (cases build)
    case None
    then show ?thesis using assms s by (auto simp: qw_on_udp_packet_def keeps_context_def to_context_def split: option.splits)
  next
    case (Some lib)
    let ?w1 = "save_peer peer w"
    let ?p = "if qw_conn ?w1 = None then qw_new_connection lib peer data (?w1, g) else (Inr True, ?w1, g)"
    have "qw_datagram_cb (fst (snd ?p)) = c"
      using new_connection_context [of lib peer data "(?w1, g)"] assms s by (simp add: save_peer_def)
    moreover obtain r1 s1 where p: "?p = (r1, s1)" by (rule prod.exhaust)
    ultimately have s1: "qw_datagram_cb (fst s1) = c" by simp
    then show ?thesis
      using read_packet_context [OF s1, of lib now peer data]
      by (simp add: s Some qw_on_udp_packet_def Let_def p split: sum.split bool.split) (auto simp: keeps_context_def)
  qed
qed

lemma init_context: "qw_datagram_cb (fst (snd (qw_init_server build now cert key s))) = qw_datagram_cb (fst s)"
  by (cases s) (simp add: qw_init_server_def Let_def split: option.split prod.split sum.split)


section \<open>Objects\<close>

text \<open>Each peer with an adapter has one of its own that is alive and a time of last activity; a session belongs to
  a peer with an adapter and its callback leads to that adapter; no other adapter is alive.\<close>

definition uh_inv :: "('a, 'c, 'l) QuicUdpHandler \<Rightarrow> bool" where
  "uh_inv h \<longleftrightarrow> \<not> uh_dangling h \<and> sm_wf (uh_adapter_last_activity h) \<and>
     dom (sm_find (uh_adapter_last_activity h)) = dom (sm_find (uh_adapters h)) \<and>
     (\<forall>i w. sm_find (uh_quic_sessions h) i = Some w \<longrightarrow>
        (\<exists>p. qw_datagram_cb w = Some p \<and> sm_find (uh_adapters h) i = Some p)) \<and>
     (\<forall>i j p. sm_find (uh_adapters h) i = Some p \<longrightarrow> sm_find (uh_adapters h) j = Some p \<longrightarrow> i = j) \<and>
     dom (uh_heap h) = ran (sm_find (uh_adapters h)) \<and>
     (\<forall>p \<in> dom (uh_heap h). p < uh_next h)"

lemma uh_inv_new: "uh_inv (QuicUdpHandler_new name stats g)"
  by (simp add: uh_inv_def QuicUdpHandler_new_def sm_find_def)

lemma uh_inv_update [simp]:
  "uh_inv (h\<lparr>uh_fixed_route := r\<rparr>) = uh_inv h"
  "uh_inv (h\<lparr>uh_port_mapping := m\<rparr>) = uh_inv h"
  "uh_inv (h\<lparr>uh_quic_cert_file := f\<rparr>) = uh_inv h"
  "uh_inv (h\<lparr>uh_quic_key_file := f\<rparr>) = uh_inv h"
  "uh_inv (h\<lparr>uh_packet_count := n\<rparr>) = uh_inv h"
  "uh_inv (h\<lparr>uh_stats := st\<rparr>) = uh_inv h"
  "uh_inv (h\<lparr>uh_quic := q\<rparr>) = uh_inv h"
  by (simp_all add: uh_inv_def)

text \<open>An outcome that is safe: no use of a dead object, and the invariant holds unless the process has ended.\<close>

definition ended :: "'b res \<Rightarrow> bool" where
  "ended r \<longleftrightarrow> (case r of Inl e \<Rightarrow> crashes e | Inr _ \<Rightarrow> False)"

definition safe :: "'b res \<times> ('a, 'c, 'l) QuicUdpHandler \<Rightarrow> bool" where
  "safe o1 \<longleftrightarrow> \<not> uh_dangling (snd o1) \<and> (\<not> ended (fst o1) \<longrightarrow> uh_inv (snd o1))"

lemma uh_inv_safe: "uh_inv h \<Longrightarrow> safe (r, h)"
  unfolding safe_def uh_inv_def fst_conv snd_conv by blast

lemma safe_outcome_then: "safe p \<Longrightarrow> (\<And>s. uh_inv s \<Longrightarrow> safe (k s)) \<Longrightarrow> safe (and_then p k)"
  by (cases p; cases "fst p") (auto simp: safe_def ended_def)

definition safe_opt :: "('a, 'c, 'l) QuicUdpHandler outcome option \<Rightarrow> bool" where
  "safe_opt r \<longleftrightarrow> (\<forall>o1. r = Some o1 \<longrightarrow> safe o1)"

lemma safe_opt_then:
  assumes "safe_opt p" "\<And>s. p = Some (Inr (), s) \<Longrightarrow> uh_inv s \<Longrightarrow> safe_opt (k s)"
  shows "safe_opt (and_then_opt p k)"
proof (cases p)
  case (Some o1)
  then show ?thesis
    using assms by (cases o1; cases "fst o1") (auto simp: and_then_opt_def safe_opt_def safe_def ended_def)
qed (simp add: and_then_opt_def safe_opt_def)

text \<open>The objects a method of an adapter cannot change.\<close>

definition same_objects :: "('a, 'c, 'l) QuicUdpHandler \<Rightarrow> ('a, 'c, 'l) QuicUdpHandler \<Rightarrow> bool" where
  "same_objects h h' \<longleftrightarrow> uh_adapters h' = uh_adapters h \<and> uh_adapter_last_activity h' = uh_adapter_last_activity h \<and>
     uh_quic_sessions h' = uh_quic_sessions h \<and> dom (uh_heap h') = dom (uh_heap h) \<and> uh_next h' = uh_next h \<and>
     uh_dangling h' = uh_dangling h"

lemma same_objects_inv: "same_objects h h' \<Longrightarrow> uh_inv h' = uh_inv h"
  unfolding same_objects_def uh_inv_def by simp

lemma same_objects_trans: "same_objects h h' \<Longrightarrow> same_objects h' h'' \<Longrightarrow> same_objects h h''"
  by (simp add: same_objects_def)

lemma same_objects_refl: "same_objects h h"
  by (simp add: same_objects_def)

lemma on_adapter_same: "p \<in> dom (uh_heap h) \<Longrightarrow> same_objects h (snd (on_adapter f p h))"
  by (cases "f (the (uh_heap h p), uh_stats h)") (auto simp: on_adapter_def same_objects_def split: if_splits)

lemma feed_adapter_same: "p \<in> dom (uh_heap h) \<Longrightarrow> feed_adapter cls data p h = Some (r, h') \<Longrightarrow> same_objects h h'"
  by (auto simp: feed_adapter_def same_objects_def split: option.splits prod.splits if_splits)

lemma dropped_snd: "snd (dropped o1) = snd o1"
  by (simp add: dropped_def split: prod.split sum.split)

lemma datagram_same:
  assumes "p \<in> dom (uh_heap h)" "on_quic_datagram_received cls p data h = Some (r, h')"
  shows "same_objects h h'"
proof (cases "feed_adapter cls data p h")
  case None
  then show ?thesis using assms by (auto simp: on_quic_datagram_received_def same_objects_refl split: if_splits)
next
  case (Some o1)
  then obtain r1 h1 where f: "feed_adapter cls data p h = Some (r1, h1)" by (cases o1) auto
  have h1: "same_objects h h1" by (rule feed_adapter_same [OF assms(1) f])
  then have "p \<in> dom (uh_heap h1)" using assms(1) by (simp add: same_objects_def)
  then have "same_objects h (snd (on_adapter (ad_parseFrame cls) p h1))"
    by (rule same_objects_trans [OF h1 on_adapter_same])
  moreover have "h' = h \<or> h' = h1 \<or> h' = snd (on_adapter (ad_parseFrame cls) p h1)"
    using assms(2) f dropped_snd [of "on_adapter (ad_parseFrame cls) p h1"] dropped_snd [of "(r1, h1)"]
    by (cases r1) (auto simp: on_quic_datagram_received_def split: if_splits)
  ultimately show ?thesis using h1 same_objects_refl by auto
qed

lemma deliver_same:
  "list_all (to_context (Some p)) evs \<Longrightarrow> p \<in> dom (uh_heap h) \<Longrightarrow> deliver cls evs h = Some (r, h') \<Longrightarrow> same_objects h h'"
proof (induction cls evs h arbitrary: r h' rule: deliver.induct)
  case (2 cls ctx data ts evs h)
  then have ctx: "ctx = p" by (simp add: to_context_def)
  show ?case
  proof (cases "on_quic_datagram_received cls p data h")
    case None
    then show ?thesis using 2 ctx by (simp add: and_then_opt_def)
  next
    case (Some o1)
    then obtain r1 h1 where d: "on_quic_datagram_received cls p data h = Some (r1, h1)" by (cases o1) auto
    have h1: "same_objects h h1" by (rule datagram_same [OF 2(3) d])
    then have live: "p \<in> dom (uh_heap h1)" using 2(3) by (simp add: same_objects_def)
    show ?thesis
    proof (cases r1)
      case (Inl e)
      then show ?thesis using 2(4) d ctx h1 by (simp add: and_then_opt_def)
    next
      case (Inr u)
      then have "deliver cls evs h1 = Some (r, h')" using 2(4) d ctx by (simp add: and_then_opt_def)
      then have "same_objects h1 h'" using 2(1) [of h1] 2(2) live by auto
      with h1 show ?thesis by (rule same_objects_trans)
    qed
  qed
qed (simp_all add: same_objects_refl)

section \<open>The invariant is kept\<close>

lemma uh_inv_live: "uh_inv h \<Longrightarrow> sm_find (uh_adapters h) i = Some p \<Longrightarrow> p \<in> dom (uh_heap h)"
  by (auto simp: uh_inv_def ran_def)

lemma uh_inv_activity: "uh_inv h \<Longrightarrow> sm_find (uh_adapters h) i \<noteq> None \<Longrightarrow>
    uh_inv (h\<lparr>uh_adapter_last_activity := sm_put i t (uh_adapter_last_activity h)\<rparr>)"
  by (auto simp: uh_inv_def smap.find_put sm_wf_put)

text \<open>Deletion of an adapter that is not registered (any more).\<close>

lemma delete_adapter_out:
  "p \<in> dom (uh_heap h) \<Longrightarrow> delete_adapter cls p h = (Inl DEADLOCK, h) \<or>
    (\<exists>m. delete_adapter cls p h = (srs_success, h\<lparr>uh_heap := (uh_heap h)(p := None), uh_stats := m\<rparr>))"
  by (cases "ad_delete cls (the (uh_heap h p), uh_stats h)") (auto simp: delete_adapter_def)

text \<open>A heap with one more object, for an adapter in the making.\<close>

lemma fresh_address: "uh_inv h \<Longrightarrow> uh_heap h (uh_next h) = None \<and> uh_next h \<notin> ran (sm_find (uh_adapters h))"
  unfolding uh_inv_def by (metis domIff less_irrefl)

lemma register_inv:
  assumes "uh_inv h" "sm_find (uh_adapters h) i = None"
    and "same_objects (h\<lparr>uh_heap := (uh_heap h)(uh_next h := Some a), uh_next := Suc (uh_next h)\<rparr>) h2"
  shows "uh_inv (h2\<lparr>uh_adapters := sm_put i (uh_next h) (uh_adapters h2),
     uh_adapter_last_activity := sm_put i t (uh_adapter_last_activity h2)\<rparr>)"
proof -
  let ?p = "uh_next h"
  have find: "sm_find (sm_put i ?p (uh_adapters h2)) = (sm_find (uh_adapters h))(i \<mapsto> ?p)"
    "sm_find (sm_put i t (uh_adapter_last_activity h)) = (sm_find (uh_adapter_last_activity h))(i \<mapsto> t)"
    "uh_adapter_last_activity h2 = uh_adapter_last_activity h"
    "uh_quic_sessions h2 = uh_quic_sessions h" "uh_next h2 = Suc ?p" "uh_dangling h2 = uh_dangling h"
    "dom (uh_heap h2) = insert ?p (dom (uh_heap h))"
    using assms(3) by (auto simp: same_objects_def smap.find_put)
  have fresh: "sm_find (uh_adapters h) j \<noteq> Some ?p" for j
    using fresh_address [OF assms(1)] by (auto simp: ran_def)
  have no_session: "sm_find (uh_quic_sessions h) i = None"
    using assms(1,2) by (cases "sm_find (uh_quic_sessions h) i") (fastforce simp: uh_inv_def)+
  note inv = assms(1) [unfolded uh_inv_def]
  show ?thesis
    unfolding uh_inv_def
  proof (intro conjI allI impI ballI)
    fix j w
    assume "sm_find (uh_quic_sessions (h2\<lparr>uh_adapters := sm_put i ?p (uh_adapters h2),
      uh_adapter_last_activity := sm_put i t (uh_adapter_last_activity h2)\<rparr>)) j = Some w"
    then have "sm_find (uh_quic_sessions h) j = Some w" by (simp add: find)
    moreover from this no_session have "j \<noteq> i" by auto
    ultimately show "\<exists>p. qw_datagram_cb w = Some p \<and> sm_find (uh_adapters (h2\<lparr>uh_adapters := sm_put i ?p (uh_adapters h2),
      uh_adapter_last_activity := sm_put i t (uh_adapter_last_activity h2)\<rparr>)) j = Some p"
      using inv by (simp add: find)
  next
    fix j k q
    assume "sm_find (uh_adapters (h2\<lparr>uh_adapters := sm_put i ?p (uh_adapters h2),
        uh_adapter_last_activity := sm_put i t (uh_adapter_last_activity h2)\<rparr>)) j = Some q"
      "sm_find (uh_adapters (h2\<lparr>uh_adapters := sm_put i ?p (uh_adapters h2),
        uh_adapter_last_activity := sm_put i t (uh_adapter_last_activity h2)\<rparr>)) k = Some q"
    then show "j = k" using inv fresh by (auto simp: find split: if_splits)
  next
    fix q
    assume "q \<in> dom (uh_heap (h2\<lparr>uh_adapters := sm_put i ?p (uh_adapters h2),
      uh_adapter_last_activity := sm_put i t (uh_adapter_last_activity h2)\<rparr>))"
    then have "q \<in> dom (uh_heap h2)" by simp
    then have "q \<in> insert ?p (dom (uh_heap h))" by (simp only: find)
    then have "q < Suc ?p" using inv by (auto simp: less_Suc_eq)
    then show "q < uh_next (h2\<lparr>uh_adapters := sm_put i ?p (uh_adapters h2),
        uh_adapter_last_activity := sm_put i t (uh_adapter_last_activity h2)\<rparr>)"
      by (simp add: find)
  qed (use inv assms(2) in \<open>simp_all add: find sm_wf_put\<close>)
qed

lemma unregister_inv:
  assumes "uh_inv h" "same_objects (h\<lparr>uh_heap := (uh_heap h)(uh_next h := Some a), uh_next := Suc (uh_next h)\<rparr>) h2"
  shows "uh_inv (h2\<lparr>uh_heap := (uh_heap h2)(uh_next h := None), uh_stats := m\<rparr>)"
proof -
  have "dom ((uh_heap h2)(uh_next h := None)) = dom (uh_heap h)"
    using assms(2) fresh_address [OF assms(1)] by (auto simp: same_objects_def)
  moreover have "\<forall>q \<in> dom (uh_heap h). q < Suc (uh_next h)"
    using assms(1) unfolding uh_inv_def by (metis less_SucI)
  ultimately show ?thesis
    using assms by (simp add: uh_inv_def same_objects_def)
qed

lemma create_adapter_safe:
  assumes "uh_inv h"
  shows "safe (get_or_create_adapter env cid ip port h) \<and>
    (\<forall>p h'. get_or_create_adapter env cid ip port h = (Inr (Some p), h') \<longrightarrow> sm_find (uh_adapters h') cid = Some p)"
proof (cases "sm_find (uh_adapters h) cid")
  case (Some p)
  then show ?thesis using assms by (simp add: get_or_create_adapter_def uh_inv_safe uh_inv_activity)
next
  case None
  show ?thesis
  proof (cases "create (uh_protocol_name h) (ue_factories env)")
    case none: None
    then show ?thesis using assms None by (simp add: get_or_create_adapter_def uh_inv_safe)
  next
    case (Some a)
    let ?p = "uh_next h"
    let ?h1 = "h\<lparr>uh_heap := (uh_heap h)(?p := Some a), uh_next := Suc ?p\<rparr>"
    let ?init = "adapter_init (get_route_for_port port ?h1) cid ip port"
    obtain r h2 where st: "on_adapter (ad_start (ue_class env) ?init) ?p ?h1 = (r, h2)" by fastforce
    have same: "same_objects ?h1 h2" using on_adapter_same [of ?p ?h1 "ad_start (ue_class env) ?init"] st by simp
    then have ok: "\<not> uh_dangling h2" and live: "?p \<in> dom (uh_heap h2)"
      using assms by (auto simp: same_objects_def uh_inv_def)
    show ?thesis
    proof (cases r)
      case (Inl e)
      have "safe (Inr None, h3)" if "delete_adapter (ue_class env) ?p h2 = (Inr u, h3)" for u h3
        using delete_adapter_out [OF live, of "ue_class env"] that
        by (auto intro!: uh_inv_safe unregister_inv [OF assms same])
      moreover have "safe (Inl e1, h3)" if "delete_adapter (ue_class env) ?p h2 = (Inl e1, h3)" for e1 h3
        using delete_adapter_out [OF live, of "ue_class env"] that ok by (auto simp: safe_def ended_def crashes_def)
      moreover obtain r3 h3 where d: "delete_adapter (ue_class env) ?p h2 = (r3, h3)" by fastforce
      moreover have "get_or_create_adapter env cid ip port h = (if crashes e then (Inl e, h2)
          else (case r3 of Inl e1 \<Rightarrow> (Inl e1, h3) | Inr _ \<Rightarrow> (Inr None, h3)))"
        using None Some st Inl d by (simp add: get_or_create_adapter_def Let_def)
      moreover have "safe (Inl e, h2)" if "crashes e" for e :: srs_error
        using that ok by (simp add: safe_def ended_def)
      ultimately show ?thesis by (auto split: sum.split)
    next
      case (Inr u)
      let ?h3 = "h2\<lparr>uh_adapters := sm_put cid ?p (uh_adapters h2),
        uh_adapter_last_activity := sm_put cid (now_ms env) (uh_adapter_last_activity h2)\<rparr>"
      have "uh_inv ?h3" by (rule register_inv [OF assms None same])
      then show ?thesis
        using None Some st Inr
        by (auto simp: get_or_create_adapter_def Let_def uh_inv_safe smap.find_put split: sum.split)
    qed
  qed
qed

lemma put_session_inv:
  assumes "uh_inv h" "qw_datagram_cb w = Some p" "sm_find (uh_adapters h) i = Some p"
  shows "uh_inv (h\<lparr>uh_quic_sessions := sm_put i w (uh_quic_sessions h), uh_quic := g\<rparr>)"
  using assms by (simp add: uh_inv_def smap.find_put)

lemma create_session_inv:
  assumes "uh_inv h" "sm_find (uh_adapters h) cid = Some p"
    and "get_or_create_quic_session env cid p h = (got, h')"
  shows "uh_inv h' \<and> uh_adapters h' = uh_adapters h \<and> (got \<longrightarrow> sm_find (uh_quic_sessions h') cid \<noteq> None)"
proof (cases "sm_find (uh_quic_sessions h) cid")
  case (Some w)
  then show ?thesis using assms by (simp add: get_or_create_quic_session_def)
next
  case None
  let ?w = "set_datagram_callback p QuicSessionWrapper_new"
  obtain cert key where files: "(if uh_quic_cert_file h \<noteq> [] \<and> uh_quic_key_file h \<noteq> []
      then (uh_quic_cert_file h, uh_quic_key_file h) else ([], [])) = (cert, key)" by (rule prod.exhaust)
  obtain r w1 g1 where i: "qw_init_server (ue_build env) (ue_now_us env) cert key (?w, uh_quic h) = (r, w1, g1)"
    by (metis surj_pair)
  have "qw_datagram_cb w1 = Some p"
    using init_context [of "ue_build env" "ue_now_us env" cert key "(?w, uh_quic h)"] i by (simp add: set_datagram_callback_def)
  then show ?thesis
    using assms None i files put_session_inv [OF assms(1) _ assms(2)]
    by (cases r) (auto simp: get_or_create_quic_session_def Let_def smap.find_put)
qed

text \<open>An operation on the session of a peer.\<close>

lemma on_session_safe:
  assumes "uh_inv h" "sm_find (uh_quic_sessions h) cid \<noteq> None"
    and "\<And>s c. qw_datagram_cb (fst s) = c \<Longrightarrow> keeps_context c (f s)"
    and "on_session cls f cid h = Some (r, h')"
  shows "uh_inv h' \<and> uh_adapters h' = uh_adapters h \<and> sm_find (uh_quic_sessions h') cid \<noteq> None"
proof -
  obtain w where w: "sm_find (uh_quic_sessions h) cid = Some w" using assms(2) by blast
  then obtain p where p: "qw_datagram_cb w = Some p" "sm_find (uh_adapters h) cid = Some p"
    using assms(1) unfolding uh_inv_def by blast
  obtain r1 w1 g1 evs where f: "f (w, uh_quic h) = Some ((r1, w1, g1), evs)"
    using assms(4) w by (cases "f (w, uh_quic h)") (auto simp: on_session_def)
  have ctx: "qw_datagram_cb w1 = Some p" "list_all (to_context (Some p)) evs"
    using assms(3) [of "(w, uh_quic h)" "Some p"] p f by (simp_all add: keeps_context_def)
  let ?h1 = "h\<lparr>uh_quic_sessions := sm_put cid w1 (uh_quic_sessions h), uh_quic := g1\<rparr>"
  have inv: "uh_inv ?h1" by (rule put_session_inv [OF assms(1) ctx(1) p(2)])
  obtain r2 where d: "deliver cls evs ?h1 = Some (r2, h')"
    using assms(4) w f by (cases "deliver cls evs ?h1"; cases "fst (the (deliver cls evs ?h1))")
      (auto simp: on_session_def and_then_opt_def)
  have same: "same_objects ?h1 h'"
    by (rule deliver_same [OF ctx(2) _ d]) (use uh_inv_live [OF assms(1) p(2)] in simp)
  have "uh_inv h'" using same_objects_inv [OF same] inv by simp
  then show ?thesis using same by (simp add: same_objects_def smap.find_put)
qed

lemma hand_over_safe:
  assumes "uh_inv h" "sm_find (uh_adapters h) cid = Some p"
  shows "safe_opt (hand_over env from buf cid p h)"
proof -
  obtain got h1 where g: "get_or_create_quic_session env cid p h = (got, h1)" by fastforce
  note h1 = create_session_inv [OF assms g]
  have live: "p \<in> dom (uh_heap h1)" using h1 assms(2) by (metis uh_inv_live)
  show ?thesis
  proof (cases got)
    case True
    let ?f = "qw_on_udp_packet (ue_build env) (ue_now_us env) from buf"
    let ?g = "qw_process_connections (ue_build env) (ue_now_us env)"
    have "safe_opt (and_then_opt (on_session (ue_class env) ?f cid h1) (on_session (ue_class env) ?g cid))"
    proof (rule safe_opt_then)
      show "safe_opt (on_session (ue_class env) ?f cid h1)"
        using on_session_safe [of h1 cid ?f] h1 True udp_context by (fastforce simp: safe_opt_def intro: uh_inv_safe)
      fix s
      assume "on_session (ue_class env) ?f cid h1 = Some (srs_success, s)"
      then have "sm_find (uh_quic_sessions s) cid \<noteq> None" "uh_inv s"
        using on_session_safe [of h1 cid ?f] h1 True udp_context by blast+
      then show "safe_opt (on_session (ue_class env) ?g cid s)"
        using on_session_safe [of s cid ?g] process_context by (fastforce simp: safe_opt_def intro: uh_inv_safe)
    qed
    then show ?thesis using g True by (simp add: hand_over_def)
  next
    case False
    have fed: "same_objects h1 s" if "feed_adapter (ue_class env) buf p h1 = Some (r, s)" for r s
      by (rule feed_adapter_same [OF live that])
    have "safe_opt (and_then_opt (feed_adapter (ue_class env) buf p h1)
        (\<lambda>h2. Some (on_adapter (ad_parseFrame (ue_class env)) p h2)))"
    proof (rule safe_opt_then)
      show "safe_opt (feed_adapter (ue_class env) buf p h1)"
        using fed h1 by (auto simp: safe_opt_def same_objects_inv intro: uh_inv_safe)
      fix s
      assume "feed_adapter (ue_class env) buf p h1 = Some (srs_success, s)" "uh_inv s"
      moreover from this have "p \<in> dom (uh_heap s)" using fed live by (simp add: same_objects_def)
      ultimately have "uh_inv (snd (on_adapter (ad_parseFrame (ue_class env)) p s))"
        using on_adapter_same by (metis same_objects_inv)
      then show "safe_opt (Some (on_adapter (ad_parseFrame (ue_class env)) p s))"
        by (metis safe_opt_def option.inject prod.collapse uh_inv_safe)
    qed
    then show ?thesis using g False by (simp add: hand_over_def)
  qed
qed

text \<open>Expiry of a peer.\<close>

lemma unlink_inv:
  assumes "uh_inv h" "sm_find (uh_adapters h) i = Some p"
  shows "uh_inv (expire_session build i (h\<lparr>uh_heap := (uh_heap h)(p := None),
     uh_adapters := sm_erase i (uh_adapters h), uh_adapter_last_activity := sm_erase i (uh_adapter_last_activity h),
     uh_stats := m\<rparr>))"
proof -
  note inv = assms(1) [unfolded uh_inv_def]
  have own: "sm_find (uh_adapters h) j = Some p \<longleftrightarrow> j = i" for j using inv assms(2) by blast
  have rest: "ran ((sm_find (uh_adapters h))(i := None)) = ran (sm_find (uh_adapters h)) - {p}"
    unfolding ran_def using own assms(2) by (intro set_eqI iffI; clarsimp split: if_splits; metis option.inject)
  then have dom: "dom ((uh_heap h)(p := None)) = ran ((sm_find (uh_adapters h))(i := None))"
    using inv by simp
  have below: "\<forall>q \<in> ran ((sm_find (uh_adapters h))(i := None)). q < uh_next h"
    using inv rest by simp
  show ?thesis
  proof (cases "sm_find (uh_quic_sessions h) i")
    case None
    then show ?thesis
      using inv own dom below by (auto simp: uh_inv_def expire_session_def smap.find_erase sm_wf_erase)
  next
    case (Some w)
    then show ?thesis
      using inv own dom below by (auto simp: uh_inv_def expire_session_def smap.find_erase sm_wf_erase)
  qed
qed

lemma remove_connection_error: "remove_connection i m = Inl e \<Longrightarrow> e = DEADLOCK"
  by (auto simp: remove_connection_def asm_lock_def Let_def split: if_splits)

lemma add_connection_error: "add_connection now i proto v a s ip port m = Inl e \<Longrightarrow> e = DEADLOCK"
  by (auto simp: add_connection_def asm_lock_def Let_def split: if_splits)

lemma expire_one_safe:
  assumes "uh_inv h"
  shows "safe (expire_one env i h)"
proof (cases "sm_find (uh_adapters h) i")
  case None
  then have "sm_find (uh_quic_sessions h) i = None"
    using assms by (cases "sm_find (uh_quic_sessions h) i") (fastforce simp: uh_inv_def)+
  then show ?thesis
    using None assms by (simp add: expire_one_def expire_adapter_def expire_session_def uh_inv_safe)
next
  case (Some p)
  let ?o = "dropped (on_adapter (ad_close (ue_class env)) p h)"
  obtain r1 h1 where c: "?o = (r1, h1)" by fastforce
  have "same_objects h h1"
    using on_adapter_same [OF uh_inv_live [OF assms Some], of "ad_close (ue_class env)"] dropped_snd [of "on_adapter (ad_close (ue_class env)) p h"] c
    by simp
  then have h1: "uh_inv h1" "sm_find (uh_adapters h1) i = Some p"
    using assms Some same_objects_inv by (auto simp: same_objects_def)
  then have ok: "\<not> uh_dangling h1" by (simp add: uh_inv_def)
  have del: "safe (and_then (delete_adapter (ue_class env) p h1) (\<lambda>h2.
      and_then (let h3 = h2\<lparr>uh_adapters := sm_erase i (uh_adapters h2),
                      uh_adapter_last_activity := sm_erase i (uh_adapter_last_activity h2)\<rparr>
             in case remove_connection i (uh_stats h3) of
                  Inl e \<Rightarrow> (Inl e, h3)
                | Inr m \<Rightarrow> (srs_success, h3\<lparr>uh_stats := m\<rparr>)) (\<lambda>h4. (srs_success, expire_session (ue_build env) i h4))))"
    using delete_adapter_out [OF uh_inv_live [OF h1], of "ue_class env"]
  proof
    assume "delete_adapter (ue_class env) p h1 = (Inl DEADLOCK, h1)"
    then show ?thesis using ok by (simp add: safe_def ended_def crashes_def)
  next
    assume "\<exists>m. delete_adapter (ue_class env) p h1 = (srs_success, h1\<lparr>uh_heap := (uh_heap h1)(p := None), uh_stats := m\<rparr>)"
    then obtain m where d: "delete_adapter (ue_class env) p h1 =
        (srs_success, h1\<lparr>uh_heap := (uh_heap h1)(p := None), uh_stats := m\<rparr>)" ..
    show ?thesis
    proof (cases "remove_connection i m")
      case (Inl e)
      then show ?thesis using d ok remove_connection_error [OF Inl] by (simp add: safe_def ended_def crashes_def)
    next
      case (Inr m1)
      then show ?thesis using d unlink_inv [OF h1, of "ue_build env" m1] by (simp add: uh_inv_safe)
    qed
  qed
  show ?thesis
  proof (cases r1)
    case (Inl e)
    then have "crashes e" using c by (auto simp: dropped_def split: prod.splits sum.splits if_splits)
    then show ?thesis using c Inl Some ok by (simp add: expire_one_def expire_adapter_def safe_def ended_def)
  next
    case (Inr u)
    then show ?thesis
      using c Some del by (simp add: expire_one_def expire_adapter_def and_then_def case_prod_beta split: prod.splits sum.splits)
  qed
qed

lemma expire_all_safe: "uh_inv h \<Longrightarrow> safe (expire_all env ids h)"
  by (induction env ids h rule: expire_all.induct) (auto intro: safe_outcome_then expire_one_safe uh_inv_safe)

lemma count_packet_safe: "uh_inv h \<Longrightarrow> safe (count_packet env h)"
  by (simp add: count_packet_def Let_def cleanup_expired_adapters_def expire_all_safe uh_inv_safe)

lemma udp_packet_safe:
  assumes "uh_inv h"
  shows "safe_opt (uh_on_udp_packet env from fromlen buf h)"
proof -
  have "safe_opt (case get_or_create_adapter env cid ip port h of
      (Inl e, h1) \<Rightarrow> Some (Inl e, h1)
    | (Inr None, h1) \<Rightarrow> Some (Inl ERROR_RTMP_MESSAGE_CREATE, h1)
    | (Inr (Some p), h1) \<Rightarrow> and_then_opt (hand_over env from buf cid p h1) (\<lambda>h2. Some (count_packet env h2)))" for cid ip port
  proof -
    obtain r h1 where g: "get_or_create_adapter env cid ip port h = (r, h1)" by fastforce
    note h1 = create_adapter_safe [OF assms, of env cid ip port, unfolded g]
    show ?thesis
    proof (cases r)
      case (Inl e)
      then show ?thesis using g h1 by (auto simp: safe_opt_def safe_def ended_def)
    next
      case (Inr q)
      show ?thesis
      proof (cases q)
        case None
        then show ?thesis using g h1 Inr by (auto simp: safe_opt_def safe_def ended_def)
      next
        case (Some p)
        then have "uh_inv h1" "sm_find (uh_adapters h1) cid = Some p" using h1 Inr by (auto simp: safe_def ended_def)
        then have "safe_opt (and_then_opt (hand_over env from buf cid p h1) (\<lambda>h2. Some (count_packet env h2)))"
          by (intro safe_opt_then hand_over_safe) (auto simp: safe_opt_def intro: count_packet_safe)
        then show ?thesis using g Inr Some by simp
      qed
    qed
  qed
  then show ?thesis
    using assms uh_inv_safe
    by (auto simp: uh_on_udp_packet_def Let_def safe_opt_def [of "Some _"] split: option.split)
qed

section \<open>The handler in use\<close>

text \<open>The operations of the handler, as long as none of them ends the process.\<close>

inductive uh_step :: "('a, 'c, 'l) QuicUdpHandler \<Rightarrow> ('a, 'c, 'l) QuicUdpHandler \<Rightarrow> bool" where
  packet: "uh_on_udp_packet env from fromlen buf h = Some (r, h') \<Longrightarrow> \<not> ended r \<Longrightarrow> uh_step h h'"
| cleanup: "cleanup_expired_adapters env h = (r, h') \<Longrightarrow> \<not> ended r \<Longrightarrow> uh_step h h'"
| route: "uh_step h (set_fixed_route r h)"
| mapping: "uh_step h (add_port_mapping port r h)"
| certificate: "uh_step h (set_quic_cert_files cert key h)"

lemma uh_step_inv: "uh_step h h' \<Longrightarrow> uh_inv h \<Longrightarrow> uh_inv h'"
proof (induction rule: uh_step.induct)
  case (packet env "from" fromlen buf h r h')
  then show ?case using udp_packet_safe [of h env "from" fromlen buf] by (simp add: safe_opt_def safe_def)
next
  case (cleanup env h r h')
  then show ?case
    using expire_all_safe [of h env "expired_ids env h"] by (simp add: cleanup_expired_adapters_def safe_def)
qed (simp_all add: set_fixed_route_def add_port_mapping_def set_quic_cert_files_def)

lemma reachable_inv: "uh_step\<^sup>*\<^sup>* (QuicUdpHandler_new name stats g) h \<Longrightarrow> uh_inv h"
  by (induction rule: rtranclp_induct) (simp_all add: uh_inv_new uh_step_inv)

text \<open>An adapter that logs what it is fed, for concrete runs.\<close>

definition log_class :: "u8 list list adapter_class" where
  "log_class = \<lparr>ad_start = (\<lambda>i s. (srs_success, s)),
     ad_feed = (\<lambda>d (a, m). Some (if take 1 d = [9] then Inl ERROR_RTMP_MESSAGE_DECODE else srs_success, a @ [d], m)),
     ad_parseFrame = (\<lambda>s. (srs_success, s)), ad_close = (\<lambda>s. (srs_success, s)), ad_delete = (\<lambda>(a, m). Some m)\<rparr>"

definition log_env :: "int \<Rightarrow> (u8 list list, u8 list list, unit) udp_env" where
  "log_env now = \<lparr>ue_build = None, ue_factories = [(''log'', Some [])], ue_class = log_class,
     ue_nameinfo = (\<lambda>a n. Some (''10.0.0.1'', ''5000'')), ue_now_us = now, ue_now_ns = now * 1000\<rparr>"

definition log_peer :: "u8 list" where
  "log_peer = [2, 0, 0x13, 0x88, 10, 0, 0, 1] @ replicate 120 0"

definition log_handler :: "(u8 list list, u8 list list, unit) QuicUdpHandler" where
  "log_handler = QuicUdpHandler_new ''log'' (AdapterStatsManager_new 0) demo_static"

text \<open>C5.
  The handler never uses an adapter or a session that is gone, whatever packets arrive, whatever the
  adapters, the QUIC library and the clock do; after each call that does not end the process the live
  adapters are exactly the registered ones, each with a time of last activity, and each session
  belongs to a registered adapter and reports to it.
\<close>

theorem udp_handler_objects:
  assumes "uh_step\<^sup>*\<^sup>* (QuicUdpHandler_new name stats g) h"
    and "uh_on_udp_packet env from fromlen buf h = Some (r, h')"
  shows "\<not> uh_dangling h' \<and> (\<not> ended r \<longrightarrow>
     dom (uh_heap h') = ran (sm_find (uh_adapters h')) \<and>
     dom (sm_find (uh_adapter_last_activity h')) = dom (sm_find (uh_adapters h')) \<and>
     (\<forall>i w. sm_find (uh_quic_sessions h') i = Some w \<longrightarrow>
        (\<exists>p. qw_datagram_cb w = Some p \<and> sm_find (uh_adapters h') i = Some p)))"
  using udp_packet_safe [OF reachable_inv [OF assms(1)], of env "from" fromlen buf] assms(2)
  by (auto simp: safe_opt_def safe_def uh_inv_def)

lemma log_id: "get_connection_id log_peer 16 = ''10.0.0.1:5000''"
  by (simp add: get_connection_id_def log_peer_def inet_ntop4_def show_base.simps digit_char_def be_word_def char_of_def bit_0)

lemmas log_run_defs = uh_on_udp_packet_def log_id log_env_def log_class_def log_handler_def QuicUdpHandler_new_def
  get_or_create_adapter_def create_def sm_find_def on_adapter_def add_connection_def asm_lock_def
  AdapterStatsManager_new_def hand_over_def get_or_create_quic_session_def qw_init_server_def
  set_datagram_callback_def and_then_opt_def on_session_def qw_on_udp_packet_def qw_process_connections_def
  on_quic_datagram_received_def feed_adapter_def dropped_def count_packet_def now_ms_def Let_def
  cleanup_expired_adapters_def expired_ids_def expire_one_def expire_adapter_def expire_session_def
  delete_adapter_def remove_connection_def asm_unlock_def signed_divide_int_def sm_erase_def

lemma log_run:
  "\<exists>h. uh_on_udp_packet (log_env 0) log_peer 16 [1, 2] log_handler = Some (srs_success, h) \<and>
     uh_heap h 0 = Some [[1, 2]] \<and> sm_find (uh_adapters h) ''10.0.0.1:5000'' = Some 0 \<and>
     sm_find (uh_adapter_last_activity h) ''10.0.0.1:5000'' = Some 0 \<and> uh_adapter_timeout_ms h = 300000 \<and>
     fst (cleanup_expired_adapters (log_env 300001000) h) = srs_success"
  by (simp add: log_run_defs)

theorem udp_handler_objects_witness:
  "\<exists>h. uh_on_udp_packet (log_env 0) log_peer 16 [1, 2] log_handler = Some (srs_success, h) \<and>
     uh_heap h 0 = Some [[1, 2]] \<and> \<not> uh_dangling h \<and> dom (uh_heap h) = ran (sm_find (uh_adapters h))"
proof -
  obtain h where h: "uh_on_udp_packet (log_env 0) log_peer 16 [1, 2] log_handler = Some (srs_success, h)"
    "uh_heap h 0 = Some [[1, 2]]" using log_run by blast
  have "uh_step\<^sup>*\<^sup>* (QuicUdpHandler_new ''log'' (AdapterStatsManager_new 0) demo_static) log_handler"
    by (simp add: log_handler_def)
  from udp_handler_objects [OF this h(1)] h show ?thesis by (auto simp: ended_def)
qed

section \<open>Expiry\<close>

lemma expire_one_effect:
  assumes "uh_inv h" "expire_one env i h = (Inr u, h')"
  shows "sm_find (uh_adapters h') = (sm_find (uh_adapters h))(i := None) \<and>
    sm_find (uh_quic_sessions h') = (sm_find (uh_quic_sessions h))(i := None) \<and>
    (\<forall>j p. sm_find (uh_adapters h') j = Some p \<longrightarrow> uh_heap h' p = uh_heap h p)"
proof (cases "sm_find (uh_adapters h) i")
  case None
  then have "sm_find (uh_quic_sessions h) i = None"
    using assms(1) by (cases "sm_find (uh_quic_sessions h) i") (fastforce simp: uh_inv_def)+
  then show ?thesis
    using None assms by (auto simp: expire_one_def expire_adapter_def expire_session_def)
next
  case (Some p)
  let ?c = "on_adapter (ad_close (ue_class env)) p h"
  obtain h1 where c: "dropped ?c = (Inr (), h1)"
    using assms(2) Some by (cases "dropped ?c"; cases "fst (dropped ?c)") (auto simp: expire_one_def expire_adapter_def)
  have h1: "h1 = snd ?c" using dropped_snd [of ?c] c by simp
  have same: "same_objects h h1" unfolding h1 by (rule on_adapter_same [OF uh_inv_live [OF assms(1) Some]])
  have heap1: "uh_heap h1 q = uh_heap h q" if "q \<noteq> p" for q
    unfolding h1 using that by (simp add: on_adapter_def split: option.split prod.split)
  obtain h2 where d: "delete_adapter (ue_class env) p h1 = (Inr (), h2)"
    using assms(2) Some c
    by (cases "delete_adapter (ue_class env) p h1"; cases "fst (delete_adapter (ue_class env) p h1)")
      (auto simp: expire_one_def expire_adapter_def)
  then have h2: "uh_adapters h2 = uh_adapters h" "uh_quic_sessions h2 = uh_quic_sessions h"
      "q \<noteq> p \<Longrightarrow> uh_heap h2 q = uh_heap h q" for q
    using same heap1 by (auto simp: delete_adapter_def same_objects_def split: option.splits)
  obtain m where "remove_connection i (uh_stats h2) = Inr m"
    using assms(2) Some c d by (cases "remove_connection i (uh_stats h2)") (auto simp: expire_one_def expire_adapter_def Let_def)
  then have h': "h' = expire_session (ue_build env) i (h2\<lparr>uh_adapters := sm_erase i (uh_adapters h2),
      uh_adapter_last_activity := sm_erase i (uh_adapter_last_activity h2), uh_stats := m\<rparr>)"
    using assms(2) Some c d by (simp add: expire_one_def expire_adapter_def Let_def)
  have "q \<noteq> p" if "sm_find (uh_adapters h) j = Some q" "j \<noteq> i" for j q
    using that assms(1) Some unfolding uh_inv_def by blast
  then show ?thesis
    using h2 by (auto simp: h' expire_session_def smap.find_erase split: option.splits if_splits)
qed

lemma expire_all_effect:
  "uh_inv h \<Longrightarrow> expire_all env ids h = (Inr u, h') \<Longrightarrow>
     sm_find (uh_adapters h') = sm_find (uh_adapters h) |` (- set ids) \<and>
     sm_find (uh_quic_sessions h') = sm_find (uh_quic_sessions h) |` (- set ids) \<and>
     (\<forall>j p. sm_find (uh_adapters h') j = Some p \<longrightarrow> uh_heap h' p = uh_heap h p)"
proof (induction env ids h rule: expire_all.induct)
  case (2 env i ids h)
  obtain h1 where o: "expire_one env i h = (Inr (), h1)" and rest: "expire_all env ids h1 = (Inr u, h')"
    using 2(3) by (cases "expire_one env i h"; cases "fst (expire_one env i h)") auto
  have inv: "uh_inv h1" using expire_one_safe [OF 2(2), of env i] o by (simp add: safe_def ended_def)
  have ih: "sm_find (uh_adapters h') = sm_find (uh_adapters h1) |` (- set ids) \<and>
     sm_find (uh_quic_sessions h') = sm_find (uh_quic_sessions h1) |` (- set ids) \<and>
     (\<forall>j p. sm_find (uh_adapters h') j = Some p \<longrightarrow> uh_heap h' p = uh_heap h1 p)"
    using 2(1) inv rest by blast
  have keep: "f(i := None) |` (- set ids) = f |` (- set (i # ids))" for f :: "string \<Rightarrow> 'z option"
    by (auto simp: restrict_map_def)
  have "sm_find (uh_adapters h1) j = Some p" if "sm_find (uh_adapters h') j = Some p" for j p
    using that ih by (auto simp: restrict_map_def split: if_splits)
  moreover note eff = expire_one_effect [OF 2(2) o]
  moreover have "sm_find (uh_adapters h') = sm_find (uh_adapters h) |` (- set (i # ids))"
    "sm_find (uh_quic_sessions h') = sm_find (uh_quic_sessions h) |` (- set (i # ids))"
    unfolding keep [symmetric] using ih eff by (simp_all only:)
  ultimately show ?case using ih by metis
qed (simp add: restrict_map_def)

text \<open>The only errors of a cleanup are those that end the process.\<close>

definition crash_only :: "'s outcome \<Rightarrow> bool" where
  "crash_only o1 \<longleftrightarrow> isl (fst o1) \<longrightarrow> crashes (projl (fst o1))"

lemma crash_only_simps [simp]: "crash_only (Inl e, s) = crashes e" "crash_only (Inr u, s)"
  by (simp_all add: crash_only_def)

lemma crash_only_then: "crash_only p \<Longrightarrow> (\<And>s. crash_only (k s)) \<Longrightarrow> crash_only (and_then p k)"
  by (cases p; cases "fst p") auto

lemma crash_only_dropped: "crash_only (dropped o1)"
  by (cases o1; cases "fst o1") (auto simp: dropped_def crash_only_def)

lemma crash_only_delete: "crash_only (delete_adapter cls p h)"
  by (simp add: delete_adapter_def crashes_def split: option.split)

lemma crash_only_expire: "crash_only (expire_one env i h)"
  unfolding expire_one_def expire_adapter_def
  by (auto intro!: crash_only_then crash_only_dropped crash_only_delete
      simp: Let_def crashes_def dest: remove_connection_error split: option.split sum.split)

lemma crash_only_expire_all: "crash_only (expire_all env ids h)"
  by (induction env ids h rule: expire_all.induct) (auto intro!: crash_only_then crash_only_expire)

lemma expired_iff:
  assumes "uh_inv h"
  shows "i \<in> set (expired_ids env h) \<longleftrightarrow>
    (\<exists>t. sm_find (uh_adapter_last_activity h) i = Some t \<and> now_ms env - t > uh_adapter_timeout_ms h)"
proof -
  have "sm_wf (uh_adapter_last_activity h)" using assms by (simp add: uh_inv_def)
  then show ?thesis by (force simp: expired_ids_def sm_find_iff)
qed

text \<open>C35.
  A cleanup removes the adapters and sessions of exactly the peers that have been silent for longer than
  the time-out; the adapters of all other peers are neither moved nor changed.
\<close>

theorem cleanup_removes_expired:
  assumes "uh_step\<^sup>*\<^sup>* (QuicUdpHandler_new name stats g) h"
    and "cleanup_expired_adapters env h = (r, h')" "\<not> ended r"
    and "late = (\<exists>t. sm_find (uh_adapter_last_activity h) i = Some t \<and> now_ms env - t > uh_adapter_timeout_ms h)"
  shows "r = srs_success \<and>
    sm_find (uh_adapters h') i = (if late then None else sm_find (uh_adapters h) i) \<and>
    sm_find (uh_quic_sessions h') i = (if late then None else sm_find (uh_quic_sessions h) i) \<and>
    (\<forall>p. sm_find (uh_adapters h') i = Some p \<longrightarrow> uh_heap h' p = uh_heap h p)"
proof -
  note inv = reachable_inv [OF assms(1)]
  have o: "expire_all env (expired_ids env h) h = (r, h')" using assms(2) by (simp add: cleanup_expired_adapters_def)
  then obtain u where r: "r = Inr u"
    using assms(3) crash_only_expire_all [of env "expired_ids env h" h] by (cases r) (auto simp: ended_def)
  have "late \<longleftrightarrow> i \<in> set (expired_ids env h)" unfolding assms(4) expired_iff [OF inv] ..
  then show ?thesis
    using expire_all_effect [OF inv, of env "expired_ids env h" u h'] o r by (auto simp: restrict_map_def)
qed

theorem cleanup_removes_expired_witness:
  "\<exists>h h'. uh_on_udp_packet (log_env 0) log_peer 16 [1, 2] log_handler = Some (srs_success, h) \<and>
     sm_find (uh_adapters h) ''10.0.0.1:5000'' = Some 0 \<and>
     cleanup_expired_adapters (log_env 300001000) h = (srs_success, h') \<and>
     sm_find (uh_adapters h') ''10.0.0.1:5000'' = None"
proof -
  let ?i = "''10.0.0.1:5000''"
  obtain h where h: "uh_on_udp_packet (log_env 0) log_peer 16 [1, 2] log_handler = Some (srs_success, h)"
    "uh_heap h 0 = Some [[1, 2]]" "sm_find (uh_adapters h) ?i = Some 0" "sm_find (uh_adapter_last_activity h) ?i = Some 0"
    "uh_adapter_timeout_ms h = 300000" "fst (cleanup_expired_adapters (log_env 300001000) h) = srs_success"
    using log_run by blast
  have reach: "uh_step\<^sup>*\<^sup>* (QuicUdpHandler_new ''log'' (AdapterStatsManager_new 0) demo_static) h"
    using uh_step.packet [OF h(1)] by (simp add: log_handler_def ended_def r_into_rtranclp)
  have late: "\<exists>t. sm_find (uh_adapter_last_activity h) ?i = Some t \<and> now_ms (log_env 300001000) - t > uh_adapter_timeout_ms h"
    using h by (simp add: now_ms_def log_env_def signed_divide_int_def)
  obtain h' where c: "cleanup_expired_adapters (log_env 300001000) h = (srs_success, h')"
    using h(6) by (metis prod.collapse)
  from cleanup_removes_expired [OF reach c _ refl, of ?i] late h c show ?thesis by (auto simp: ended_def)
qed

end
