(* ===== verification/Udp_Peers.thy ===== *)
theory Udp_Peers
  imports Udp_Props MyProto Quic_Fec_Ts_Props
begin

text \<open>
  The peers of the UDP handler: the ids under which it keeps them, the numbers it passes as text, what
  its sessions do with packets in the two builds, and the count of connections with the two adapters.
\<close>

section \<open>Numbers as text\<close>

lemma digit_char_val: "d < 10 \<Longrightarrow> digit_val (digit_char d) = Some d"
  by (simp add: digit_val_def digit_char_def)

definition all_digits :: "string \<Rightarrow> bool" where
  "all_digits s \<longleftrightarrow> (\<forall>c \<in> set s. digit_val c \<noteq> None)"

lemma read_digits_snoc:
  "all_digits s \<Longrightarrow> d < 10 \<Longrightarrow> read_digits acc (s @ [digit_char d]) = 10 * read_digits acc s + int d"
  by (induction s arbitrary: acc) (auto simp: all_digits_def digit_char_val)

lemma show_base_digits: "all_digits (show_base 10 n)"
proof (induction "10 :: nat" n rule: show_base.induct)
  case (1 n)
  then show ?case
    by (subst show_base.simps) (auto simp: all_digits_def digit_char_val)
qed

lemma read_show: "read_digits 0 (show_base 10 n) = int n"
proof (induction "10 :: nat" n rule: show_base.induct)
  case (1 n)
  show ?case
  proof (cases "n < 10")
    case True
    then show ?thesis by (subst show_base.simps) (simp add: digit_char_val)
  next
    case False
    have "10 * int (n div 10) + int (n mod 10) = int n" by presburger
    with False show ?thesis
      using 1 by (subst show_base.simps) (simp add: read_digits_snoc show_base_digits)
  qed
qed

lemma show_base_inj: "show_base 10 m = show_base 10 n \<longleftrightarrow> m = n"
  by (metis read_show of_nat_eq_iff)

lemma show_base_Cons: "\<exists>c cs. show_base 10 n = c # cs \<and> digit_val c \<noteq> None"
proof -
  have "show_base 10 n \<noteq> []" by (subst show_base.simps) simp
  then show ?thesis using show_base_digits [of n] by (cases "show_base 10 n") (auto simp: all_digits_def)
qed

lemma digit_not_sign: "digit_val c \<noteq> None \<Longrightarrow> \<not> is_space c \<and> c \<noteq> CHR ''-'' \<and> c \<noteq> CHR ''+'' \<and> c \<noteq> CHR ''.'' \<and> c \<noteq> CHR '':''"
  by (auto simp: digit_val_def is_space_def Let_def)

lemma drop_spaces: "dropWhile is_space (to_string n) = to_string n"
proof -
  obtain c cs where "show_base 10 (nat \<bar>n\<bar>) = c # cs" "digit_val c \<noteq> None" using show_base_Cons by blast
  then show ?thesis
    using digit_not_sign [of c] by (cases "n < 0") (auto simp: to_string_def is_space_def abs_if)
qed

text \<open>The handler passes the port of a peer to the adapter as text; \<open>std::stoi\<close> reads it back.\<close>

lemma stoi_to_string:
  assumes "- (2 ^ 31) \<le> n" "n < 2 ^ 31"
  shows "stoi (to_string n) = Some n"
proof -
  obtain c cs where s: "show_base 10 (nat \<bar>n\<bar>) = c # cs" "digit_val c \<noteq> None" using show_base_Cons by blast
  note r = read_show [of "nat \<bar>n\<bar>", unfolded s(1)]
  show ?thesis
    using s(2) digit_not_sign [OF s(2)] assms r s(1)
    unfolding stoi_def drop_spaces
    by (cases "n < 0") (auto simp: to_string_def Let_def abs_if)
qed

lemma atoi_to_string:
  assumes "- (2 ^ 31) \<le> n" "n < 2 ^ 31"
  shows "atoi (to_string n) = n"
proof -
  obtain c cs where s: "show_base 10 (nat \<bar>n\<bar>) = c # cs" "digit_val c \<noteq> None" using show_base_Cons by blast
  note r = read_show [of "nat \<bar>n\<bar>", unfolded s(1)]
  have clamp: "max (- (2 ^ 63)) (min (2 ^ 63 - 1) n) = n" using assms by simp
  have "sint (of_int n :: u32) = n" using assms by (simp add: sint_sbintrunc' signed_take_bit_int_eq_self)
  then show ?thesis
    using s(2) digit_not_sign [OF s(2)] assms r s(1) clamp
    unfolding atoi_def drop_spaces
    by (cases "n < 0") (auto simp: to_string_def Let_def abs_if)
qed

section \<open>Connection ids\<close>

lemma split_first: "c \<notin> set x \<Longrightarrow> c \<notin> set y \<Longrightarrow> x @ c # r = y @ c # s \<longleftrightarrow> x = y \<and> r = s"
proof (induction x arbitrary: y)
  case Nil
  then show ?case by (cases y) auto
next
  case (Cons a x)
  then show ?case by (cases y) auto
qed

lemma no_dot: "CHR ''.'' \<notin> set (show_base 10 n)" "CHR '':'' \<notin> set (show_base 10 n)"
  using show_base_digits [of n] digit_not_sign unfolding all_digits_def by blast+

lemma length_4: "length xs = 4 \<Longrightarrow> \<exists>a b c d. xs = [a, b, c, d]"
  by (auto simp: numeral_eq_Suc length_Suc_conv)

lemma id_parts_eq:
  assumes "length xs = 4" "length ys = 4"
  shows "inet_ntop4 xs @ '':'' @ show_base 10 m = inet_ntop4 ys @ '':'' @ show_base 10 n \<longleftrightarrow> xs = ys \<and> m = n"
proof -
  obtain a b c d where xs: "xs = [a, b, c, d]" using length_4 [OF assms(1)] by blast
  obtain e f g h where ys: "ys = [e, f, g, h]" using length_4 [OF assms(2)] by blast
  show ?thesis
    by (simp add: xs ys inet_ntop4_def split_first no_dot show_base_inj word_unat_eq_iff)
qed

lemma be_word_port_inj:
  assumes "length xs = 2" "length ys = 2"
  shows "(be_word xs :: u16) = be_word ys \<longleftrightarrow> xs = ys"
proof -
  have "be_bytes 2 (be_word zs :: u16) = zs" if "length zs = 2" for zs
    by (rule be_bytes_be_word) (simp_all add: that)
  then show ?thesis using assms by metis
qed

text \<open>C37.
  The handler tells its peers apart by the bytes 2 to 7 of the socket address and by nothing else. For
  IPv4 these are port and address, so that each peer has an adapter of its own. For IPv6 they are port
  and flow label: two IPv6 hosts that send from the same port share one adapter and one session.
\<close>

theorem connection_id_peer:
  assumes "length a \<ge> 8" "length b \<ge> 8" "la \<ge> 16" "lb \<ge> 16"
  shows "get_connection_id a la = get_connection_id b lb \<longleftrightarrow> take 6 (drop 2 a) = take 6 (drop 2 b)"
proof -
  have split: "take 6 (drop 2 x) = take 2 (drop 2 x) @ take 4 (drop 4 x)" for x :: "u8 list"
    using take_append_drop_take [of 2 "drop 2 x" 4] by simp
  have "get_connection_id a la = get_connection_id b lb \<longleftrightarrow>
      take 4 (drop 4 a) = take 4 (drop 4 b) \<and> take 2 (drop 2 a) = take 2 (drop 2 b)"
    using assms by (simp add: get_connection_id_def id_parts_eq [unfolded append.simps] be_word_port_inj flip: word_unat_eq_iff)
  then show ?thesis using assms by (auto simp: split)
qed

theorem connection_id_peer_witness:
  "get_connection_id ([2, 0, 0x13, 0x88, 10, 0, 0, 1] @ replicate 120 0) 16 \<noteq>
     get_connection_id ([2, 0, 0x13, 0x88, 10, 0, 0, 2] @ replicate 120 0) 16 \<and>
   get_connection_id ([10, 0, 0x13, 0x88, 0, 0, 0, 0, 0x20, 0x01, 0x0d, 0xb8] @ replicate 115 0 @ [1]) 28 =
     get_connection_id ([10, 0, 0x13, 0x88, 0, 0, 0, 0, 0x20, 0x01, 0x0d, 0xb9] @ replicate 115 0 @ [2]) 28"
  using connection_id_peer [of "[2, 0, 0x13, 0x88, 10, 0, 0, 1] @ replicate 120 0" "[2, 0, 0x13, 0x88, 10, 0, 0, 2] @ replicate 120 0" 16 16]
    connection_id_peer [of "[10, 0, 0x13, 0x88, 0, 0, 0, 0, 0x20, 0x01, 0x0d, 0xb8] @ replicate 115 0 @ [1]"
      "[10, 0, 0x13, 0x88, 0, 0, 0, 0, 0x20, 0x01, 0x0d, 0xb9] @ replicate 115 0 @ [2]" 28 28]
  by simp

section \<open>Two builds\<close>

lemma deliver_hides: "deliver cls evs h = Some (r, h') \<Longrightarrow> r = srs_success \<or> ended r"
proof (induction cls evs h arbitrary: r h' rule: deliver.induct)
  case (2 cls ctx data ts evs h)
  have "r3 = srs_success \<or> ended r3" if "on_quic_datagram_received cls ctx data h = Some (r3, h3)" for r3 h3
    using that by (auto simp: on_quic_datagram_received_def dropped_def ended_def split: option.splits prod.splits sum.splits if_splits)
  then show ?case using 2
    by (auto simp: and_then_opt_def split: option.splits prod.splits sum.splits)
qed auto

lemma session_hides:
  assumes "on_session cls f cid h = Some (r, h')" "\<And>s x. f s = Some x \<Longrightarrow> fst (fst x) = srs_success"
    and "sm_find (uh_quic_sessions h) cid \<noteq> None"
  shows "r = srs_success \<or> ended r"
proof -
  obtain w where w: "sm_find (uh_quic_sessions h) cid = Some w" using assms(3) by blast
  obtain r1 w1 g1 evs where f: "f (w, uh_quic h) = Some ((r1, w1, g1), evs)"
    using assms(1) w by (cases "f (w, uh_quic h)") (auto simp: on_session_def)
  have r1: "r1 = srs_success" using assms(2) [OF f] by simp
  let ?h1 = "h\<lparr>uh_quic_sessions := sm_put cid w1 (uh_quic_sessions h), uh_quic := g1\<rparr>"
  obtain r2 h2 where d: "deliver cls evs ?h1 = Some (r2, h2)"
    using assms(1) w f by (cases "deliver cls evs ?h1") (auto simp: on_session_def and_then_opt_def)
  show ?thesis
    using assms(1) w f d r1 deliver_hides [OF d] by (cases r2) (auto simp: on_session_def and_then_opt_def ended_def)
qed

text \<open>
 
  In the placeholder build no error of an adapter gets out: a packet of a registered peer ends without error
  or ends the process, whatever \<open>feed\<close> and \<open>parseFrame\<close> return.
\<close>

theorem placeholder_hides_errors:
  assumes "uh_step\<^sup>*\<^sup>* (QuicUdpHandler_new name stats g) h" "sm_find (uh_adapters h) cid = Some p"
    and "ue_build env = None" "hand_over env from buf cid p h = Some (r, h')"
  shows "r = srs_success \<or> ended r"
proof -
  obtain got h1 where g: "get_or_create_quic_session env cid p h = (got, h1)" by fastforce
  have got: got using g assms(3) by (auto simp: get_or_create_quic_session_def qw_init_server_def Let_def split: option.splits prod.splits)
  then have s: "uh_inv h1" "sm_find (uh_quic_sessions h1) cid \<noteq> None"
    using create_session_inv [OF reachable_inv [OF assms(1)] assms(2) g] by blast+
  let ?f = "qw_on_udp_packet (ue_build env) (ue_now_us env) from buf"
  let ?g = "qw_process_connections (ue_build env) (ue_now_us env)"
  have fg: "\<And>s x. ?f s = Some x \<Longrightarrow> fst (fst x) = srs_success" "\<And>s x. ?g s = Some x \<Longrightarrow> fst (fst x) = srs_success"
    using assms(3) by (auto simp: qw_on_udp_packet_def qw_process_connections_def split: prod.splits)
  obtain r1 h2 where o: "on_session (ue_class env) ?f cid h1 = Some (r1, h2)"
    using assms(4) g got by (cases "on_session (ue_class env) ?f cid h1") (auto simp: hand_over_def and_then_opt_def)
  show ?thesis
  proof (cases r1)
    case (Inl e)
    then show ?thesis using session_hides [OF o fg(1) s(2)] assms(4) g got o by (simp add: hand_over_def and_then_opt_def)
  next
    case (Inr u)
    then have "on_session (ue_class env) ?g cid h2 = Some (r, h')"
      using assms(4) g got o by (simp add: hand_over_def and_then_opt_def)
    moreover have "sm_find (uh_quic_sessions h2) cid \<noteq> None"
      using on_session_safe [OF s udp_context o] by blast
    ultimately show ?thesis using session_hides fg(2) by blast
  qed
qed

lemma log_run_error:
  "\<exists>h h'. uh_on_udp_packet (log_env 0) log_peer 16 [1, 2] log_handler = Some (srs_success, h) \<and>
     sm_find (uh_adapters h) ''10.0.0.1:5000'' = Some 0 \<and>
     hand_over (log_env 1000) log_peer [9, 9] ''10.0.0.1:5000'' 0 h = Some (srs_success, h')"
  by (simp add: log_run_defs crashes_def)

theorem placeholder_hides_errors_witness:
  "\<exists>h r h'. uh_on_udp_packet (log_env 0) log_peer 16 [1, 2] log_handler = Some (srs_success, h) \<and>
     ad_feed log_class [9, 9] ([], AdapterStatsManager_new 0) =
       Some (Inl ERROR_RTMP_MESSAGE_DECODE, [[9, 9]], AdapterStatsManager_new 0) \<and>
     hand_over (log_env 1000) log_peer [9, 9] ''10.0.0.1:5000'' 0 h = Some (r, h') \<and> (r = srs_success \<or> ended r)"
proof -
  obtain h h' where h: "uh_on_udp_packet (log_env 0) log_peer 16 [1, 2] log_handler = Some (srs_success, h)"
    "sm_find (uh_adapters h) ''10.0.0.1:5000'' = Some 0"
    "hand_over (log_env 1000) log_peer [9, 9] ''10.0.0.1:5000'' 0 h = Some (srs_success, h')" using log_run_error by blast
  have "uh_step\<^sup>*\<^sup>* (QuicUdpHandler_new ''log'' (AdapterStatsManager_new 0) demo_static) h"
    using uh_step.packet [OF h(1)] by (simp add: log_handler_def ended_def r_into_rtranclp)
  from placeholder_hides_errors [OF this h(2) _ h(3)] h show ?thesis
    by (simp add: log_env_def log_class_def)
qed

definition refuses_no_file :: "('c, 'l) quic_lib \<Rightarrow> bool" where
  "refuses_no_file lib \<longleftrightarrow> (\<forall>l. fst (use_certificate_chain_file lib [] l) \<noteq> 1)"

lemma no_context: "refuses_no_file lib \<Longrightarrow> \<exists>e g'. init_ssl_ctx lib [] key g = (Inl e, g') \<and> ssl_ctx g' = ssl_ctx g"
  by (auto simp: init_ssl_ctx_def refuses_no_file_def split: prod.split) (metis fst_conv)+

text \<open>
  In the ngtcp2 build without configured certificate files, and no caller of the program sets them, QUIC is
  not used at all: with a TLS library that refuses an empty file name no session comes into being, and the
  bytes of every UDP packet go to \<open>feed\<close> as they are.
\<close>

theorem quic_without_certificate:
  assumes "ue_build env = Some lib" "refuses_no_file lib" "\<not> ssl_ctx (uh_quic h)"
    and "uh_quic_cert_file h = []" "sm_find (uh_quic_sessions h) cid = None"
  shows "\<exists>g. \<not> ssl_ctx g \<and> hand_over env from buf cid p h =
    and_then_opt (feed_adapter (ue_class env) buf p (h\<lparr>uh_quic := g\<rparr>))
      (\<lambda>h2. Some (on_adapter (ad_parseFrame (ue_class env)) p h2))"
proof -
  obtain e g' where i: "init_ssl_ctx lib [] [] (uh_quic h) = (Inl e, g')" "ssl_ctx g' = ssl_ctx (uh_quic h)"
    using no_context [OF assms(2), of "[]" "uh_quic h"] by blast
  then show ?thesis
    using assms by (intro exI [of _ g']) (simp add: hand_over_def get_or_create_quic_session_def qw_init_server_def qw_close_def Let_def)
qed

theorem quic_without_certificate_witness:
  "\<exists>g. \<not> ssl_ctx g \<and>
     hand_over ((log_env 0)\<lparr>ue_build := Some demo_lib\<rparr>) log_peer [1, 2] ''a'' 0
       (log_handler\<lparr>uh_quic := demo_static\<lparr>ssl_ctx := False\<rparr>\<rparr>) =
     and_then_opt (feed_adapter log_class [1, 2] 0 (log_handler\<lparr>uh_quic := g\<rparr>))
       (\<lambda>h2. Some (on_adapter (ad_parseFrame log_class) 0 h2))"
proof -
  have "refuses_no_file demo_lib" by (simp add: refuses_no_file_def demo_lib_def)
  moreover have "ue_class (log_env 0) = log_class" by (simp add: log_env_def)
  ultimately show ?thesis
    using quic_without_certificate [of "(log_env 0)\<lparr>ue_build := Some demo_lib\<rparr>" demo_lib
        "log_handler\<lparr>uh_quic := demo_static\<lparr>ssl_ctx := False\<rparr>\<rparr>" "''a''" log_peer "[1, 2]" 0]
    by (simp add: log_handler_def QuicUdpHandler_new_def)
qed

section \<open>The count of connections\<close>

text \<open>What the handler's adapters do with the statistics: a start registers the adapter under an id of its
  own, \<open>close\<close> and the destructor take that id out.\<close>

text \<open>The registered ids, the counter of active connections and the mutex.\<close>

lemma add_connection_effect:
  assumes "add_connection now i proto v ap s ip port m = Inr m1" "\<not> asm_locked m"
  shows "\<not> asm_locked m1 \<and> (\<exists>c. sm_find (asm_connections m1) = (sm_find (asm_connections m))(i \<mapsto> c)) \<and>
    active_connections (asm_global_stats m1) = active_connections (asm_global_stats m) + 1"
  using assms by (auto simp: add_connection_def asm_lock_def asm_unlock_def Let_def smap.find_put)

lemma remove_connection_effect:
  assumes "\<not> asm_locked m"
  shows "\<exists>m1. remove_connection i m = Inr m1 \<and> \<not> asm_locked m1 \<and>
    sm_find (asm_connections m1) = (sm_find (asm_connections m))(i := None) \<and>
    active_connections (asm_global_stats m1) = active_connections (asm_global_stats m) -
      (if sm_find (asm_connections m) i = None then 0 else 1)"
  using assms
  by (cases "sm_find (asm_connections m) i")
    (auto simp: remove_connection_def asm_lock_def asm_unlock_def Let_def smap.find_erase fun_upd_idem_iff)

text \<open>A new peer: its adapter has started with the route of the peer's port, then the peer was registered.\<close>

lemma new_peer:
  assumes "sm_find (uh_adapters h) cid = None" "get_or_create_adapter env cid ip port h = (Inr (Some p), h1)"
  obtains a0 u a m v ap s where "create (uh_protocol_name h) (ue_factories env) = Some a0"
    "ad_start (ue_class env) (adapter_init (get_route_for_port port h) cid ip port) (a0, uh_stats h) = (Inr u, a, m)"
    "uh_heap h1 p = Some a" "sm_find (uh_adapters h1) cid = Some p"
    "add_connection (ue_now_ns env) cid (uh_protocol_name h) v ap s ip port m = Inr (uh_stats h1)"
proof -
  obtain a0 where c: "create (uh_protocol_name h) (ue_factories env) = Some a0"
    using assms by (cases "create (uh_protocol_name h) (ue_factories env)") (auto simp: get_or_create_adapter_def)
  let ?init = "adapter_init (get_route_for_port port h) cid ip port"
  have route: "get_route_for_port port (h\<lparr>uh_heap := hp, uh_next := n\<rparr>) = get_route_for_port port h" for hp n
    by (simp add: get_route_for_port_def split: option.split)
  obtain r a m where st: "ad_start (ue_class env) ?init (a0, uh_stats h) = (r, a, m)" by (metis surj_pair)
  show thesis
  proof (cases r)
    case (Inl e)
    then show thesis
      using assms c st by (auto simp: get_or_create_adapter_def on_adapter_def Let_def route split: if_splits prod.splits sum.splits)
  next
    case (Inr u)
    then show thesis
      using assms c st that [of a0 u a m]
      by (auto simp: get_or_create_adapter_def on_adapter_def Let_def route smap.find_put split: sum.splits)
  qed
qed

locale registering_adapter =
  fixes cls :: "'a adapter_class" and own_id :: "'a \<Rightarrow> string"
  assumes start_registers: "ad_start cls init (a, m) = (Inr u, a1, m1) \<Longrightarrow>
      \<exists>now proto v ap s ip port. add_connection now (own_id a1) proto v ap s ip port m = Inr m1"
    and close_unregisters: "own_id a \<noteq> [] \<Longrightarrow> remove_connection (own_id a) m = Inr m1 \<Longrightarrow>
      \<exists>a1. ad_close cls (a, m) = (srs_success, a1, m1) \<and> own_id a1 = own_id a"
    and delete_unregisters: "own_id a \<noteq> [] \<Longrightarrow> remove_connection (own_id a) m = Inr m1 \<Longrightarrow> ad_delete cls (a, m) = Some m1"
begin

text \<open>A peer that comes and goes: the balance of the statistics.\<close>

lemma connection_balance:
  assumes "sm_find (uh_adapters h) cid = None" "\<not> asm_locked (uh_stats h)"
    and "ue_class env = cls" "get_or_create_adapter env cid ip port h = (Inr (Some p), h1)"
    and "uh_heap h1 p = Some a" "own_id a \<noteq> []"
    and "sm_find (asm_connections (uh_stats h)) cid = None" "sm_find (asm_connections (uh_stats h)) (own_id a) = None"
  shows "\<exists>h2. expire_adapter cls cid h1 = (srs_success, h2) \<and>
    sm_find (asm_connections (uh_stats h2)) = sm_find (asm_connections (uh_stats h)) \<and>
    active_connections (asm_global_stats (uh_stats h2)) =
      active_connections (asm_global_stats (uh_stats h)) + (if own_id a = cid then 1 else 0)"
proof -
  obtain a0 u a' m v ap s where new: "ad_start cls (adapter_init (get_route_for_port port h) cid ip port) (a0, uh_stats h) = (Inr u, a', m)"
    "uh_heap h1 p = Some a'" "sm_find (uh_adapters h1) cid = Some p"
    "add_connection (ue_now_ns env) cid (uh_protocol_name h) v ap s ip port m = Inr (uh_stats h1)"
    using new_peer [OF assms(1,4)] assms(3) by metis
  then have a': "a' = a" using assms(5) by simp
  let ?find = "\<lambda>m. sm_find (asm_connections m)" and ?active = "\<lambda>m. active_connections (asm_global_stats m)"
  obtain now proto v1 ap1 s1 ip1 port1 where "add_connection now (own_id a) proto v1 ap1 s1 ip1 port1 (uh_stats h) = Inr m"
    using start_registers [OF new(1)] a' by blast
  note m = add_connection_effect [OF this assms(2)]
  note h1 = add_connection_effect [OF new(4)] m
  obtain m2 where m2: "remove_connection (own_id a) (uh_stats h1) = Inr m2" "\<not> asm_locked m2"
    "?find m2 = (?find (uh_stats h1))(own_id a := None)" "?active m2 = ?active (uh_stats h1) - 1"
    using remove_connection_effect [of "uh_stats h1" "own_id a"] h1 by (auto split: if_splits)
  obtain a2 where a2: "ad_close cls (a, uh_stats h1) = (srs_success, a2, m2)" "own_id a2 = own_id a"
    using close_unregisters [OF assms(6) m2(1)] by blast
  obtain m3 where m3: "remove_connection (own_id a) m2 = Inr m3" "\<not> asm_locked m3" "?find m3 = ?find m2" "?active m3 = ?active m2"
    using remove_connection_effect [OF m2(2), of "own_id a"] m2(3) by auto
  have del: "ad_delete cls (a2, m2) = Some m3" using delete_unregisters [of a2] a2 m3(1) assms(6) by simp
  obtain m4 where m4: "remove_connection cid m3 = Inr m4" "?find m4 = (?find m3)(cid := None)"
    "?active m4 = ?active m3 - (if ?find m3 cid = None then 0 else 1)"
    using remove_connection_effect [OF m3(2), of cid] by blast
  have "expire_adapter cls cid h1 = (srs_success, h1\<lparr>uh_heap := (uh_heap h1)(p := None),
      uh_adapters := sm_erase cid (uh_adapters h1), uh_adapter_last_activity := sm_erase cid (uh_adapter_last_activity h1),
      uh_stats := m4\<rparr>)"
    using new(2,3) a' a2(1) del m4(1)
    by (simp add: expire_adapter_def on_adapter_def dropped_def delete_adapter_def Let_def)
  moreover have "?find m4 = ?find (uh_stats h)"
    using m4(2) m3(3) m2(3) h1 assms(7,8) by (auto simp: fun_eq_iff)
  moreover have "?active m4 = ?active (uh_stats h) + (if own_id a = cid then 1 else 0)"
    using m4(3) m3(3,4) m2(3,4) h1 by auto
  ultimately show ?thesis by simp
qed

end

section \<open>The adapters of the program\<close>

text \<open>A method of an adapter model, which has the statistics in its state, as a method on the shared ones.\<close>

definition with_stats ::
    "(AdapterStatsManager \<Rightarrow> 'a \<Rightarrow> 'a) \<Rightarrow> ('a \<Rightarrow> AdapterStatsManager) \<Rightarrow> ('a \<Rightarrow> 'a outcome) \<Rightarrow> 'a \<times> AdapterStatsManager
      \<Rightarrow> ('a \<times> AdapterStatsManager) outcome" where
  "with_stats put get f am = (case f (put (snd am) (fst am)) of (r, a) \<Rightarrow> (r, a, get a))"

definition by_close :: "('a \<times> AdapterStatsManager \<Rightarrow> ('a \<times> AdapterStatsManager) outcome) \<Rightarrow> 'a \<times> AdapterStatsManager
    \<Rightarrow> AdapterStatsManager option" where
  "by_close close am = (case close am of (Inl e, s) \<Rightarrow> None | (Inr u, a, m) \<Rightarrow> Some m)"

abbreviation mp_on :: "(MyProtoAdapter \<Rightarrow> MyProtoAdapter outcome) \<Rightarrow> MyProtoAdapter \<times> AdapterStatsManager
    \<Rightarrow> (MyProtoAdapter \<times> AdapterStatsManager) outcome" where
  "mp_on \<equiv> with_stats (\<lambda>m a. a\<lparr>mp_stats_manager := m\<rparr>) mp_stats_manager"

abbreviation q_on :: "(QuicFecTsAdapter \<Rightarrow> QuicFecTsAdapter outcome) \<Rightarrow> QuicFecTsAdapter \<times> AdapterStatsManager
    \<Rightarrow> (QuicFecTsAdapter \<times> AdapterStatsManager) outcome" where
  "q_on \<equiv> with_stats (\<lambda>m a. a\<lparr>th_stats := m\<rparr>) th_stats"

text \<open>Both destructors call \<open>close\<close>.\<close>

definition mp_class ::
    "live_source \<Rightarrow> (string \<Rightarrow> string \<Rightarrow> string \<Rightarrow> unit res) option \<Rightarrow> int \<Rightarrow> int \<Rightarrow> MyProtoAdapter adapter_class" where
  "mp_class on_frame fetch now_us now_ns =
     \<lparr>ad_start = (\<lambda>init. mp_on (mp_start fetch now_ns init)),
      ad_feed = (\<lambda>data (a, m). map_option (\<lambda>(r, a1). (r, a1, mp_stats_manager a1))
        (mp_feed on_frame now_us now_ns data (a\<lparr>mp_stats_manager := m\<rparr>))),
      ad_parseFrame = mp_on mp_parseFrame, ad_close = mp_on mp_close, ad_delete = by_close (mp_on mp_close)\<rparr>"

definition q_class :: "quic_env \<Rightarrow> QuicFecTsAdapter adapter_class" where
  "q_class env =
     \<lparr>ad_start = (\<lambda>init. q_on (q_start env init)), ad_feed = (\<lambda>data s. Some (q_on (q_feed env data) s)),
      ad_parseFrame = q_on q_parseFrame, ad_close = q_on q_close, ad_delete = by_close (q_on q_close)\<rparr>"

lemma on_stats_simps:
  "on_stats f st = (case f (mp_stats_manager st) of Inl e \<Rightarrow> (Inl e, st) | Inr m \<Rightarrow> (srs_success, st\<lparr>mp_stats_manager := m\<rparr>))"
  by (simp add: on_stats_def)

lemma mp_close_on:
  assumes "mp_connection_id a \<noteq> []" "remove_connection (mp_connection_id a) m = Inr m1"
  shows "\<exists>a1. mp_on mp_close (a, m) = (srs_success, a1, m1) \<and> mp_connection_id a1 = mp_connection_id a"
  using assms by (simp add: with_stats_def mp_close_def on_stats_def Let_def)

lemma q_close_on:
  assumes "th_connection_id a \<noteq> []" "remove_connection (th_connection_id a) m = Inr m1"
  shows "\<exists>a1. q_on q_close (a, m) = (srs_success, a1, m1) \<and> th_connection_id a1 = th_connection_id a"
  using assms by (simp add: with_stats_def q_close_def Let_def)

lemma by_close_eq: "close (a, m) = (srs_success, a1, m1) \<Longrightarrow> by_close close (a, m) = Some m1"
  by (simp add: by_close_def)

interpretation mp_reg: registering_adapter "mp_class on_frame fetch now_us now_ns" mp_connection_id
proof unfold_locales
  fix init a m u a1 m1
  assume "ad_start (mp_class on_frame fetch now_us now_ns) init (a, m) = (Inr u, a1, m1)"
  then show "\<exists>now proto v ap s ip port. add_connection now (mp_connection_id a1) proto v ap s ip port m = Inr m1"
    by (auto simp: mp_class_def with_stats_def mp_start_def on_stats_def Let_def split: prod.splits sum.splits) blast
next
  fix a :: MyProtoAdapter and m m1
  assume "mp_connection_id a \<noteq> []" "remove_connection (mp_connection_id a) m = Inr m1"
  note close = mp_close_on [OF this]
  then show "\<exists>a1. ad_close (mp_class on_frame fetch now_us now_ns) (a, m) = (srs_success, a1, m1) \<and>
      mp_connection_id a1 = mp_connection_id a" by (simp add: mp_class_def)
  from close show "ad_delete (mp_class on_frame fetch now_us now_ns) (a, m) = Some m1"
    by (auto simp: mp_class_def by_close_def)
qed

lemma q_start_registers:
  assumes "q_start env init st = (Inr u, st1)"
  shows "th_connection_id st1 = (if get_param ''connection_id'' [] init = [] then env_default_id env
      else get_param ''connection_id'' [] init) \<and>
    (\<exists>ip port. add_connection (env_now env) (th_connection_id st1) ''quic_fec_ts'' (ai_vhost init) (ai_app init)
       (ai_stream init) ip port (th_stats st) = Inr (th_stats st1))"
  using assms unfolding q_start_def Let_def with_res_def
  by (fastforce split: prod.splits sum.splits option.splits)

interpretation q_reg: registering_adapter "q_class env" th_connection_id
proof unfold_locales
  fix init a m u a1 m1
  assume "ad_start (q_class env) init (a, m) = (Inr u, a1, m1)"
  then show "\<exists>now proto v ap s ip port. add_connection now (th_connection_id a1) proto v ap s ip port m = Inr m1"
    using q_start_registers [of env init "a\<lparr>th_stats := m\<rparr>"]
    by (auto simp: q_class_def with_stats_def split: prod.splits) blast+
next
  fix a :: QuicFecTsAdapter and m m1
  assume "th_connection_id a \<noteq> []" "remove_connection (th_connection_id a) m = Inr m1"
  note close = q_close_on [OF this]
  then show "\<exists>a1. ad_close (q_class env) (a, m) = (srs_success, a1, m1) \<and> th_connection_id a1 = th_connection_id a"
    by (simp add: q_class_def)
  from close show "ad_delete (q_class env) (a, m) = Some m1"
    by (auto simp: q_class_def by_close_def)
qed

text \<open>The id of a new peer's QUIC adapter is the id under which the handler keeps it.\<close>

lemma adapter_init_id: "get_param ''connection_id'' [] (adapter_init route cid ip port) = cid"
  by (simp add: adapter_init_def get_param_def set_param_def smap.find_put)

text \<open>C36.
  Every peer of the FEC/TS adapter that comes and goes leaves the counter of active connections one too
  high: adapter and handler register the peer under the same id and each counts it, but only the first
  removal finds it and counts it down. The registered connections are as before.
\<close>

theorem quic_connections_leak:
  assumes "ue_class env = q_class qenv" "sm_find (uh_adapters h) cid = None" "cid \<noteq> []"
    and "\<not> asm_locked (uh_stats h)" "sm_find (asm_connections (uh_stats h)) cid = None"
    and "get_or_create_adapter env cid ip port h = (Inr (Some p), h1)"
  shows "\<exists>h2. expire_adapter (q_class qenv) cid h1 = (srs_success, h2) \<and>
    sm_find (asm_connections (uh_stats h2)) = sm_find (asm_connections (uh_stats h)) \<and>
    active_connections (asm_global_stats (uh_stats h2)) = active_connections (asm_global_stats (uh_stats h)) + 1"
proof -
  obtain a0 u a m where new: "uh_heap h1 p = Some a"
    "ad_start (q_class qenv) (adapter_init (get_route_for_port port h) cid ip port) (a0, uh_stats h) = (Inr u, a, m)"
    using new_peer [OF assms(2,6)] assms(1) by metis
  then have "th_connection_id a = cid"
    using q_start_registers [of qenv "adapter_init (get_route_for_port port h) cid ip port" "a0\<lparr>th_stats := uh_stats h\<rparr>"] assms(3)
    by (auto simp: q_class_def with_stats_def adapter_init_id split: prod.splits)
  then show ?thesis
    using q_reg.connection_balance [OF assms(2,4,1,6) new(1)] assms(3,5) by simp
qed

definition leak_handler :: "(QuicFecTsAdapter, u8 list list, unit) QuicUdpHandler" where
  "leak_handler = QuicUdpHandler_new ''quic_fec_ts'' (AdapterStatsManager_new 0) demo_static"

definition leak_env :: "(QuicFecTsAdapter, u8 list list, unit) udp_env" where
  "leak_env = \<lparr>ue_build = None, ue_factories = [(''quic_fec_ts'', Some (QuicFecTsAdapter_new 0 0 (AdapterStatsManager_new 0)))],
     ue_class = q_class demo_env, ue_nameinfo = (\<lambda>a n. None), ue_now_us = 0, ue_now_ns = 0\<rparr>"

lemma leak_start:
  "fst (q_start demo_env (adapter_init r ''c'' ''i'' 5) (QuicFecTsAdapter_new 0 0 (AdapterStatsManager_new 0))) = srs_success"
  by (simp add: q_start_def Let_def demo_env_def adapter_init_def set_param_def AdapterInit_new_def get_param_def get_int_param_def
      get_bool_param_def init_config_def config_network_def config_fec_def config_reorder_def config_limits_def check_def
      to_size_def QuicFecTsAdapter_new_def TsHandlerAdapter_new_def TsHandlerAdapter.extend_def br_initialize_def
      create_source_def FrameToSourceBridge_new_def add_connection_def asm_lock_def AdapterStatsManager_new_def sm_find_def)

lemma add_connection_ok: "\<not> asm_locked m \<Longrightarrow> \<exists>m1. add_connection now i proto v ap s ip port m = Inr m1"
  by (simp add: add_connection_def asm_lock_def Let_def)

lemma leak_create: "\<exists>p h1. get_or_create_adapter leak_env ''c'' ''i'' 5 leak_handler = (Inr (Some p), h1)"
proof -
  let ?q = "QuicFecTsAdapter_new 0 0 (AdapterStatsManager_new 0)"
  let ?init = "adapter_init (uh_fixed_route leak_handler) ''c'' ''i'' 5"
  have same: "?q\<lparr>th_stats := AdapterStatsManager_new 0\<rparr> = ?q"
    by (simp add: QuicFecTsAdapter_new_def TsHandlerAdapter_new_def TsHandlerAdapter.extend_def)
  obtain a where a: "q_start demo_env ?init ?q = (srs_success, a)"
    using leak_start [of "uh_fixed_route leak_handler"] by (metis prod.collapse)
  obtain ip port where "add_connection (env_now demo_env) (th_connection_id a) ''quic_fec_ts'' (ai_vhost ?init) (ai_app ?init)
      (ai_stream ?init) ip port (AdapterStatsManager_new 0) = Inr (th_stats a)"
    using q_start_registers [OF a] by (auto simp: QuicFecTsAdapter_new_def TsHandlerAdapter_new_def TsHandlerAdapter.extend_def)
  then have "\<not> asm_locked (th_stats a)"
    by (rule add_connection_effect [THEN conjunct1]) (simp add: AdapterStatsManager_new_def)
  then obtain m1 where m1: "add_connection 0 ''c'' ''quic_fec_ts'' (ai_vhost ?init) (ai_app ?init) (ai_stream ?init) ''i'' 5 (th_stats a) = Inr m1"
    using add_connection_ok by blast
  have h: "uh_adapters leak_handler = []" "uh_heap leak_handler = (\<lambda>p. None)" "uh_next leak_handler = 0"
    "uh_stats leak_handler = AdapterStatsManager_new 0" "uh_protocol_name leak_handler = ''quic_fec_ts''" "uh_port_mapping leak_handler = []"
    by (simp_all add: leak_handler_def QuicUdpHandler_new_def)
  show ?thesis
    using a m1 same
    by (simp add: get_or_create_adapter_def leak_env_def create_def sm_find_def on_adapter_def q_class_def with_stats_def
        get_route_for_port_def h Let_def)
qed

theorem quic_connections_leak_witness:
  "\<exists>p h1 h2. get_or_create_adapter leak_env ''c'' ''i'' 5 leak_handler = (Inr (Some p), h1) \<and>
     expire_adapter (q_class demo_env) ''c'' h1 = (srs_success, h2) \<and>
     sm_find (asm_connections (uh_stats h2)) = (\<lambda>_. None) \<and> active_connections (asm_global_stats (uh_stats h2)) = 1"
proof -
  obtain p h1 where g: "get_or_create_adapter leak_env ''c'' ''i'' 5 leak_handler = (Inr (Some p), h1)" using leak_create by blast
  have start: "ue_class leak_env = q_class demo_env" "sm_find (uh_adapters leak_handler) ''c'' = None" "''c'' \<noteq> []"
    "\<not> asm_locked (uh_stats leak_handler)" "sm_find (asm_connections (uh_stats leak_handler)) = (\<lambda>_. None)"
    "active_connections (asm_global_stats (uh_stats leak_handler)) = 0"
    by (simp_all add: leak_env_def leak_handler_def QuicUdpHandler_new_def AdapterStatsManager_new_def AdapterStats_new_def sm_find_def fun_eq_iff)
  then show ?thesis using quic_connections_leak [OF start(1-4) _ g] g by auto
qed

text \<open>With the framed protocol, whose adapter registers under an id of its own, the count comes out right.\<close>

lemma myproto_connections_balance:
  assumes "ue_class env = mp_class on_frame fetch now_us now_ns" "sm_find (uh_adapters h) cid = None"
    and "\<not> asm_locked (uh_stats h)" "sm_find (asm_connections (uh_stats h)) cid = None"
    and "get_or_create_adapter env cid ip port h = (Inr (Some p), h1)" "uh_heap h1 p = Some a"
    and "mp_connection_id a \<noteq> []" "mp_connection_id a \<noteq> cid"
    and "sm_find (asm_connections (uh_stats h)) (mp_connection_id a) = None"
  shows "\<exists>h2. expire_adapter (mp_class on_frame fetch now_us now_ns) cid h1 = (srs_success, h2) \<and>
    sm_find (asm_connections (uh_stats h2)) = sm_find (asm_connections (uh_stats h)) \<and>
    active_connections (asm_global_stats (uh_stats h2)) = active_connections (asm_global_stats (uh_stats h))"
  using mp_reg.connection_balance [OF assms(2,3,1,5,6,7,4,9)] assms(8) by simp

end
