(* ===== verification/Caster.thy ===== *)
theory Caster
  imports Udp_Peers
begin

text \<open>
  From the configuration to the handler: \<open>AdapterListener\<close> (\<open>adapter/core/adapter_listener.cpp\<close>), the
  receiving turn of \<open>SrsUdpListener\<close> (\<open>srs_app_listener.cpp\<close>) and the two casters
  \<open>SrsQuicFecTsCasterListener\<close> and \<open>SrsMyProtoCasterListener\<close> (\<open>srs_app_caster_quic_fec_ts.cpp\<close>,
  \<open>srs_app_caster_myproto.cpp\<close>). The address that stands for any interface and the start of the socket and
  its coroutine are arguments. At the end the route that a peer's adapter gets is traced back to the
  configuration.
\<close>

section \<open>UDP listener\<close>

record SrsUdpListener =
  ul_label :: string
  ul_ip :: string
  ul_port :: int
  ul_listening :: bool

definition SrsUdpListener_new :: SrsUdpListener where
  "SrsUdpListener_new = \<lparr>ul_label = ''UDP'', ul_ip = [], ul_port = 0, ul_listening = False\<rparr>"

definition ul_set_endpoint :: "string \<Rightarrow> int \<Rightarrow> SrsUdpListener \<Rightarrow> SrsUdpListener" where
  "ul_set_endpoint ip port ul = ul\<lparr>ul_ip := ip, ul_port := port\<rparr>"

definition ul_set_label :: "string \<Rightarrow> SrsUdpListener \<Rightarrow> SrsUdpListener" where
  "ul_set_label label ul = ul\<lparr>ul_label := label\<rparr>"

definition ul_listen :: "(string \<Rightarrow> int \<Rightarrow> unit res) \<Rightarrow> SrsUdpListener \<Rightarrow> SrsUdpListener outcome" where
  "ul_listen udp_start ul =
     (if ul_ip ul = [] \<or> ul_port ul = 0 then (srs_success, ul)
      else (case udp_start (ul_ip ul) (ul_port ul) of
              Inl e \<Rightarrow> (Inl e, ul\<lparr>ul_listening := False\<rparr>)
            | Inr _ \<Rightarrow> (srs_success, ul\<lparr>ul_listening := True\<rparr>)))"

text \<open>One turn of \<open>do_cycle\<close>: what \<open>srs_recvfrom\<close> delivered (\<open>None\<close> for an error), a check packet of a load
  balancer dropped, everything else to the handler.\<close>

definition health_check :: "u8 list \<Rightarrow> bool" where
  "health_check buf \<longleftrightarrow> length buf = 21 \<and> buf ! 0 = 0x48 \<and> buf ! 1 = 0x65 \<and> buf ! 2 = 0x61 \<and> buf ! 3 = 0x6c \<and>
     buf ! 19 = 0x63 \<and> buf ! 20 = 0x6b"

definition udp_do_cycle ::
    "('a, 'c, 'l) udp_env \<Rightarrow> (sockaddr \<times> int \<times> u8 list) option \<Rightarrow> ('a, 'c, 'l) QuicUdpHandler
      \<Rightarrow> ('a, 'c, 'l) QuicUdpHandler outcome option" where
  "udp_do_cycle env received h =
     (case received of
        None \<Rightarrow> Some (Inl ERROR_SOCKET_READ, h)
      | Some (from, nb_from, buf) \<Rightarrow>
          if buf = [] then Some (Inl ERROR_SOCKET_READ, h)
          else if health_check buf then Some (srs_success, h)
          else uh_on_udp_packet env from nb_from buf h)"

section \<open>AdapterListener\<close>

record ('a, 'c, 'l) AdapterListener =
  al_protocol_name :: string
  al_listener :: "SrsUdpListener option"
  al_handler :: "('a, 'c, 'l) QuicUdpHandler option"
  al_fixed_route :: Route
  al_port_mapping :: "(int, Route) smap"

definition AdapterListener_new ::
    "string \<Rightarrow> AdapterStatsManager \<Rightarrow> 'l quic_static \<Rightarrow> ('a, 'c, 'l) AdapterListener" where
  "AdapterListener_new protocol_name stats g =
     \<lparr>al_protocol_name = protocol_name, al_listener = None,
      al_handler = Some (QuicUdpHandler_new protocol_name stats g),
      al_fixed_route = \<lparr>rt_vhost = [], rt_app = [], rt_stream = []\<rparr>, al_port_mapping = []\<rparr>"

definition al_set_fixed_route :: "Route \<Rightarrow> ('a, 'c, 'l) AdapterListener \<Rightarrow> ('a, 'c, 'l) AdapterListener" where
  "al_set_fixed_route r al = al\<lparr>al_fixed_route := r, al_handler := map_option (set_fixed_route r) (al_handler al)\<rparr>"

definition al_add_port_mapping :: "int \<Rightarrow> Route \<Rightarrow> ('a, 'c, 'l) AdapterListener \<Rightarrow> ('a, 'c, 'l) AdapterListener" where
  "al_add_port_mapping port r al =
     al\<lparr>al_port_mapping := sm_put port r (al_port_mapping al),
        al_handler := map_option (add_port_mapping port r) (al_handler al)\<rparr>"

definition al_listen ::
    "string \<Rightarrow> (string \<Rightarrow> int \<Rightarrow> unit res) \<Rightarrow> string \<Rightarrow> int \<Rightarrow> ('a, 'c, 'l) AdapterListener
      \<Rightarrow> ('a, 'c, 'l) AdapterListener outcome" where
  "al_listen any_address udp_start ip port al =
     (case al_handler al of
        None \<Rightarrow> (Inl ERROR_SYSTEM_IO_INVALID, al)
      | Some h \<Rightarrow>
          (let bind_ip = (if ip = ''0.0.0.0'' then any_address else ip);
               ul = ul_set_label (al_protocol_name al) (ul_set_endpoint bind_ip port SrsUdpListener_new);
               h1 = fold (\<lambda>(p, r). add_port_mapping p r) (al_port_mapping al) (set_fixed_route (al_fixed_route al) h)
           in case ul_listen udp_start ul of
                (r, ul1) \<Rightarrow> (r, al\<lparr>al_listener := Some ul1, al_handler := Some h1\<rparr>)))"

text \<open>\<open>close\<close> stops the listener and destroys the handler.\<close>

definition al_close ::
    "('a, 'c, 'l) udp_env \<Rightarrow> ('a, 'c, 'l) AdapterListener \<Rightarrow> ('a, 'c, 'l) AdapterListener outcome" where
  "al_close env al =
     (case al_handler al of
        None \<Rightarrow> (srs_success, al\<lparr>al_listener := None\<rparr>)
      | Some h \<Rightarrow>
          (case QuicUdpHandler_delete env h of
             (Inl e, h1) \<Rightarrow> (Inl e, al\<lparr>al_listener := None, al_handler := Some h1\<rparr>)
           | (Inr _, h1) \<Rightarrow> (srs_success, al\<lparr>al_listener := None, al_handler := None\<rparr>)))"

section \<open>Configuration directives\<close>

datatype SrsConfDirective =
  Directive (dir_name: string) (dir_args: "string list") (dir_directives: "SrsConfDirective list")

definition conf_get :: "string \<Rightarrow> SrsConfDirective \<Rightarrow> SrsConfDirective option" where
  "conf_get name d = List.find (\<lambda>c. dir_name c = name) (dir_directives d)"

definition arg0 :: "SrsConfDirective \<Rightarrow> string" where
  "arg0 d = (if length (dir_args d) > 0 then dir_args d ! 0 else [])"

definition arg1 :: "SrsConfDirective \<Rightarrow> string" where
  "arg1 d = (if length (dir_args d) > 1 then dir_args d ! 1 else [])"

section \<open>Casters\<close>

record ('a, 'c, 'l) CasterListener =
  cl_listener :: "('a, 'c, 'l) AdapterListener option"
  cl_listen_ip :: string
  cl_listen_port :: int
  cl_output_url :: string
  cl_vhost :: string
  cl_app :: string
  cl_stream :: string

definition CasterListener_new :: "int \<Rightarrow> ('a, 'c, 'l) CasterListener" where
  "CasterListener_new port =
     \<lparr>cl_listener = None, cl_listen_ip = ''0.0.0.0'', cl_listen_port = port,
      cl_output_url = ''rtmp://127.0.0.1/live/stream'', cl_vhost = ''__defaultVhost__'', cl_app = ''live'',
      cl_stream = ''stream''\<rparr>"

definition SrsQuicFecTsCasterListener_new :: "('a, 'c, 'l) CasterListener" where
  "SrsQuicFecTsCasterListener_new = CasterListener_new 8443"

definition SrsMyProtoCasterListener_new :: "('a, 'c, 'l) CasterListener" where
  "SrsMyProtoCasterListener_new = CasterListener_new 9000"

text \<open>Host with port, application and stream of a URL, if it has them.\<close>

definition split_url :: "string \<Rightarrow> (string \<times> string \<times> string) option" where
  "split_url url =
     (case find_str ''://'' url of
        None \<Rightarrow> None
      | Some p \<Rightarrow>
          (let start = p + 3 in
           case find_char CHR ''/'' url start of
             None \<Rightarrow> None
           | Some slash1 \<Rightarrow>
               (case find_char CHR ''/'' url (slash1 + 1) of
                  None \<Rightarrow> None
                | Some slash2 \<Rightarrow>
                    Some (take (slash1 - start) (drop start url),
                          take (slash2 - slash1 - 1) (drop (slash1 + 1) url),
                          drop (slash2 + 1) url))))"

definition quic_parse_conf :: "SrsConfDirective \<Rightarrow> ('a, 'c, 'l) CasterListener \<Rightarrow> ('a, 'c, 'l) CasterListener outcome" where
  "quic_parse_conf conf c =
     (let c1 = (case conf_get ''listen'' conf of
          None \<Rightarrow> c
        | Some d \<Rightarrow>
            if dir_args d = [] then c
            else if length (dir_args d) = 1 then c\<lparr>cl_listen_ip := ''0.0.0.0'', cl_listen_port := atoi (arg0 d)\<rparr>
            else c\<lparr>cl_listen_ip := arg0 d, cl_listen_port := atoi (arg1 d)\<rparr>)
      in case conf_get ''output'' conf of
           None \<Rightarrow> (srs_success, c1)
         | Some d \<Rightarrow>
             if dir_args d = [] then (srs_success, c1)
             else (let c2 = c1\<lparr>cl_output_url := arg0 d\<rparr> in
               (srs_success, case split_url (cl_output_url c2) of
                  None \<Rightarrow> c2
                | Some (host_port, app, strm) \<Rightarrow>
                    c2\<lparr>cl_app := app, cl_stream := strm,
                       cl_vhost := (case find_char CHR '':'' host_port 0 of None \<Rightarrow> host_port | Some i \<Rightarrow> take i host_port)\<rparr>)))"

definition mp_parse_conf :: "SrsConfDirective \<Rightarrow> ('a, 'c, 'l) CasterListener \<Rightarrow> ('a, 'c, 'l) CasterListener outcome" where
  "mp_parse_conf conf c =
     (let c1 = (case conf_get ''listen'' conf of
          None \<Rightarrow> c
        | Some d \<Rightarrow>
            (let c0 = c\<lparr>cl_listen_ip := arg0 d\<rparr> in
             if length (dir_args d) > 1 then c0\<lparr>cl_listen_port := atoi (arg1 d)\<rparr> else c0))
      in case conf_get ''output'' conf of
           None \<Rightarrow> (srs_success, c1)
         | Some d \<Rightarrow>
             (let c2 = c1\<lparr>cl_output_url := arg0 d\<rparr> in
              case parse_output_url (cl_output_url c2) (cl_vhost c2, cl_app c2, cl_stream c2) of
                (vhost, app, strm) \<Rightarrow> (srs_success, c2\<lparr>cl_vhost := vhost, cl_app := app, cl_stream := strm\<rparr>)))"

definition cl_route :: "('a, 'c, 'l) CasterListener \<Rightarrow> Route" where
  "cl_route c = \<lparr>rt_vhost = cl_vhost c, rt_app = cl_app c, rt_stream = cl_stream c\<rparr>"

text \<open>A \<open>mapping\<close> block: the port of its last \<open>port\<close> item and the route it names.\<close>

definition mapping_item :: "SrsConfDirective \<Rightarrow> int \<times> Route \<Rightarrow> int \<times> Route" where
  "mapping_item item pr =
     (case pr of (p, r) \<Rightarrow>
      if dir_args item = [] then (p, r)
      else if dir_name item = ''port'' then (atoi (arg0 item), r)
      else if dir_name item = ''vhost'' then (p, r\<lparr>rt_vhost := arg0 item\<rparr>)
      else if dir_name item = ''app'' then (p, r\<lparr>rt_app := arg0 item\<rparr>)
      else if dir_name item = ''stream'' then (p, r\<lparr>rt_stream := arg0 item\<rparr>)
      else (p, r))"

definition read_mapping :: "Route \<Rightarrow> SrsConfDirective \<Rightarrow> int \<times> Route" where
  "read_mapping fixed child = fold mapping_item (dir_directives child) (0, fixed)"

definition add_mapping :: "Route \<Rightarrow> SrsConfDirective \<Rightarrow> ('a, 'c, 'l) AdapterListener \<Rightarrow> ('a, 'c, 'l) AdapterListener" where
  "add_mapping fixed child al =
     (if dir_name child = ''mapping''
      then (case read_mapping fixed child of (p, r) \<Rightarrow> if p > 0 then al_add_port_mapping p r al else al)
      else al)"

definition route_children :: "SrsConfDirective \<Rightarrow> SrsConfDirective list" where
  "route_children conf = (case conf_get ''route'' conf of None \<Rightarrow> [] | Some route \<Rightarrow> dir_directives route)"

text \<open>The part of \<open>listen\<close> that both casters share, after the configuration is parsed.\<close>

definition start_listener ::
    "string \<Rightarrow> string \<Rightarrow> (string \<Rightarrow> int \<Rightarrow> unit res) \<Rightarrow> AdapterStatsManager \<Rightarrow> 'l quic_static \<Rightarrow> SrsConfDirective
      \<Rightarrow> ('a, 'c, 'l) CasterListener \<Rightarrow> ('a, 'c, 'l) CasterListener outcome" where
  "start_listener name any_address udp_start stats g conf c =
     (let al = al_set_fixed_route (cl_route c) (AdapterListener_new name stats g);
          al1 = fold (add_mapping (cl_route c)) (route_children conf) al
      in case al_listen any_address udp_start (cl_listen_ip c) (cl_listen_port c) al1 of
           (r, al2) \<Rightarrow> (r, c\<lparr>cl_listener := Some al2\<rparr>))"

definition quic_fec_ts_listen ::
    "'a option \<Rightarrow> string \<Rightarrow> (string \<Rightarrow> int \<Rightarrow> unit res) \<Rightarrow> AdapterStatsManager \<Rightarrow> 'l quic_static \<Rightarrow> SrsConfDirective
      \<Rightarrow> ('a, 'c, 'l) CasterListener \<Rightarrow> 'a factories \<Rightarrow> unit res \<times> ('a, 'c, 'l) CasterListener \<times> 'a factories" where
  "quic_fec_ts_listen factory any_address udp_start stats g conf c fs =
     (let fs1 = register_factory ''quic_fec_ts'' factory fs in
      case and_then (quic_parse_conf conf c) (start_listener ''quic_fec_ts'' any_address udp_start stats g conf) of
        (r, c1) \<Rightarrow> (r, c1, fs1))"

definition myproto_listen ::
    "'a option \<Rightarrow> string \<Rightarrow> (string \<Rightarrow> int \<Rightarrow> unit res) \<Rightarrow> AdapterStatsManager \<Rightarrow> 'l quic_static \<Rightarrow> SrsConfDirective
      \<Rightarrow> ('a, 'c, 'l) CasterListener \<Rightarrow> 'a factories \<Rightarrow> unit res \<times> ('a, 'c, 'l) CasterListener \<times> 'a factories" where
  "myproto_listen factory any_address udp_start stats g conf c fs =
     (let fs1 = register_factory ''myproto'' factory fs in
      case and_then (mp_parse_conf conf c) (start_listener ''myproto'' any_address udp_start stats g conf) of
        (r, c1) \<Rightarrow> (r, c1, fs1))"

definition cl_delete :: "('a, 'c, 'l) udp_env \<Rightarrow> ('a, 'c, 'l) CasterListener \<Rightarrow> ('a, 'c, 'l) CasterListener outcome" where
  "cl_delete env c =
     (case cl_listener c of
        None \<Rightarrow> (srs_success, c)
      | Some al \<Rightarrow> (case al_close env al of (r, al1) \<Rightarrow> (r, c\<lparr>cl_listener := None\<rparr>)))"

section \<open>Routes\<close>

lemma split_url_output: "parse_output_url url old = (case split_url url of None \<Rightarrow> old | Some r \<Rightarrow> r)"
  by (simp add: parse_output_url_def split_url_def Let_def split: option.split)

lemma find_char_first: "c \<notin> set xs \<Longrightarrow> find_char c (xs @ c # ys) 0 = Some (length xs)"
  using find_char_at [of c xs "[]" 0 ys] by simp

text \<open>
 
  The two casters read an output URL with a port differently: from \<open>scheme://host:port/app/stream\<close> both take
  application and stream, but the vhost is the host for the FEC/TS caster and the host with its port
  for the framed protocol.
\<close>

theorem caster_vhost_of_url:
  assumes "conf_get ''output'' conf = Some d" "dir_args d = url # args"
    and "url = scheme @ ''://'' @ host @ '':'' @ port @ ''/'' @ ap @ ''/'' @ strm"
    and "CHR '':'' \<notin> set scheme" "CHR '':'' \<notin> set host" "CHR ''/'' \<notin> set host" "CHR ''/'' \<notin> set port" "CHR ''/'' \<notin> set ap"
  shows "cl_route (snd (quic_parse_conf conf c)) = \<lparr>rt_vhost = host, rt_app = ap, rt_stream = strm\<rparr> \<and>
    cl_route (snd (mp_parse_conf conf c)) = \<lparr>rt_vhost = host @ '':'' @ port, rt_app = ap, rt_stream = strm\<rparr>"
proof -
  have url: "parse_output_url url old = (host @ '':'' @ port, ap, strm)" for old
    using parse_url [OF assms(4), of "host @ '':'' @ port" ap strm old] assms(3,6-8) by simp
  then have "split_url url = Some (host @ '':'' @ port, ap, strm)"
    using split_url_output [of url "([], [], [])"] split_url_output [of url "(''x'', [], [])"] by (auto split: option.splits)
  moreover have "find_char CHR '':'' (host @ '':'' @ port) 0 = Some (length host)"
    using find_char_first [OF assms(5)] by simp
  moreover have "arg0 d = url" using assms(2) by (simp add: arg0_def)
  ultimately show ?thesis
    using assms(1,2) url by (simp add: quic_parse_conf_def mp_parse_conf_def cl_route_def Let_def)
qed

theorem caster_vhost_of_url_witness:
  "cl_route (snd (quic_parse_conf (Directive ''caster'' [] [Directive ''output'' [''rtmp://127.0.0.1:1935/live/s''] []])
      (SrsQuicFecTsCasterListener_new :: (nat, nat, nat) CasterListener))) =
     \<lparr>rt_vhost = ''127.0.0.1'', rt_app = ''live'', rt_stream = ''s''\<rparr> \<and>
   cl_route (snd (mp_parse_conf (Directive ''caster'' [] [Directive ''output'' [''rtmp://127.0.0.1:1935/live/s''] []])
      (SrsQuicFecTsCasterListener_new :: (nat, nat, nat) CasterListener))) =
     \<lparr>rt_vhost = ''127.0.0.1'' @ '':'' @ ''1935'', rt_app = ''live'', rt_stream = ''s''\<rparr>"
proof -
  let ?conf = "Directive ''caster'' [] [Directive ''output'' [''rtmp://127.0.0.1:1935/live/s''] []]"
  have "conf_get ''output'' ?conf = Some (Directive ''output'' [''rtmp://127.0.0.1:1935/live/s''] [])"
    by (simp add: conf_get_def)
  then show ?thesis
    by (rule caster_vhost_of_url [where scheme = "''rtmp''" and host = "''127.0.0.1''" and port = "''1935''"
          and ap = "''live''" and strm = "''s''" and args = "[]"]) simp_all
qed

text \<open>With one argument, \<open>listen\<close> is the port of the FEC/TS caster but the address of the other one.\<close>

lemma listen_one_argument:
  assumes "conf_get ''listen'' conf = Some (Directive ''listen'' [a] ds)" "conf_get ''output'' conf = None"
  shows "cl_listen_ip (snd (quic_parse_conf conf c)) = ''0.0.0.0''" "cl_listen_port (snd (quic_parse_conf conf c)) = atoi a"
    "cl_listen_ip (snd (mp_parse_conf conf c)) = a" "cl_listen_port (snd (mp_parse_conf conf c)) = cl_listen_port c"
  using assms by (simp_all add: quic_parse_conf_def mp_parse_conf_def arg0_def Let_def)

text \<open>What the configuration says about a port: the last mapping block for it, or the route of the output URL.\<close>

definition configured_route :: "Route \<Rightarrow> SrsConfDirective list \<Rightarrow> int \<Rightarrow> Route" where
  "configured_route fixed children port =
     (case List.find (\<lambda>(p, r). p = port) (rev (filter (\<lambda>(p, r). p > 0)
         (map (read_mapping fixed) (filter (\<lambda>d. dir_name d = ''mapping'') children)))) of
        Some (p, r) \<Rightarrow> r
      | None \<Rightarrow> fixed)"

text \<open>The route of a port as the maps of listener and handler give it.\<close>

definition map_route :: "Route \<Rightarrow> (int, Route) smap \<Rightarrow> int \<Rightarrow> Route" where
  "map_route fixed m port = (case sm_find m port of Some r \<Rightarrow> r | None \<Rightarrow> fixed)"

text \<open>Listener and handler have the same routes.\<close>

definition routes_agree :: "('a, 'c, 'l) AdapterListener \<Rightarrow> bool" where
  "routes_agree al \<longleftrightarrow> (\<exists>h. al_handler al = Some h \<and> sm_find (uh_port_mapping h) = sm_find (al_port_mapping al) \<and>
     sm_wf (al_port_mapping al))"

lemma agree_new: "routes_agree (AdapterListener_new name stats g)"
  by (simp add: routes_agree_def AdapterListener_new_def QuicUdpHandler_new_def)

lemma agree_fixed: "routes_agree al \<Longrightarrow> routes_agree (al_set_fixed_route r al)"
  by (auto simp: routes_agree_def al_set_fixed_route_def set_fixed_route_def)

lemma agree_mapping: "routes_agree al \<Longrightarrow> routes_agree (al_add_port_mapping p r al)"
  by (auto simp: routes_agree_def al_add_port_mapping_def add_port_mapping_def smap.find_put sm_wf_put)

lemma agree_mappings: "routes_agree al \<Longrightarrow> routes_agree (fold (add_mapping fixed) children al)"
  by (induction children arbitrary: al) (simp_all add: add_mapping_def agree_mapping split: prod.split)

lemma fold_mapping_fixed: "uh_fixed_route (fold (\<lambda>(p, r). add_port_mapping p r) m h) = uh_fixed_route h"
  by (induction m arbitrary: h) (auto simp: add_port_mapping_def)

lemma fold_mapping_find:
  "sm_wf m \<Longrightarrow> sm_find (uh_port_mapping (fold (\<lambda>(p, r). add_port_mapping p r) m h)) = sm_find (uh_port_mapping h) ++ sm_find m"
proof (induction m arbitrary: h)
  case (Cons e m)
  obtain p r where e: "e = (p, r)" by fastforce
  have m: "sm_wf m" "sm_find m p = None"
    using Cons(2) e by (auto simp: sm_wf_def sm_find_def map_of_eq_None_iff)
  have e_m: "sm_find (e # m) = (sm_find m)(p \<mapsto> r)" by (simp add: e sm_find_def)
  have swap: "f(p \<mapsto> r) ++ sm_find m = f ++ (sm_find m)(p \<mapsto> r)" for f
    using m(2) by (auto simp: map_add_def fun_eq_iff split: option.splits)
  have upd: "sm_find (uh_port_mapping (add_port_mapping p r h)) = (sm_find (uh_port_mapping h))(p \<mapsto> r)"
    by (simp add: add_port_mapping_def smap.find_put)
  note ih = Cons(1) [OF m(1), of "add_port_mapping p r h", unfolded upd]
  show ?case unfolding e_m swap [symmetric] unfolding e fold_simps prod.case by (rule ih)
qed (simp add: sm_find_def)

lemma listen_routes:
  assumes "routes_agree al" "al_listen any_address udp_start ip port al = (r, al1)"
  shows "\<exists>h. al_handler al1 = Some h \<and> (\<forall>q. get_route_for_port q h = map_route (al_fixed_route al) (al_port_mapping al) q)"
proof -
  obtain h where h: "al_handler al = Some h" "sm_find (uh_port_mapping h) = sm_find (al_port_mapping al)" "sm_wf (al_port_mapping al)"
    using assms(1) by (auto simp: routes_agree_def)
  let ?h1 = "fold (\<lambda>(p, r). add_port_mapping p r) (al_port_mapping al) (set_fixed_route (al_fixed_route al) h)"
  have "sm_find (uh_port_mapping ?h1) = sm_find (al_port_mapping al)"
    using h by (simp add: fold_mapping_find set_fixed_route_def map_add_def fun_eq_iff split: option.split)
  moreover have "uh_fixed_route ?h1 = al_fixed_route al" by (simp add: fold_mapping_fixed set_fixed_route_def)
  ultimately have "get_route_for_port q ?h1 = map_route (al_fixed_route al) (al_port_mapping al) q" for q
    by (simp only: get_route_for_port_def map_route_def)
  moreover have "al_handler al1 = Some ?h1" using assms(2) h(1) by (auto simp: al_listen_def Let_def split: prod.splits)
  ultimately show ?thesis by blast
qed

lemma mappings_fold:
  "al_port_mapping (fold (add_mapping fixed) children al) = fold (\<lambda>(p, r). sm_put p r)
     (filter (\<lambda>(p, r). p > 0) (map (read_mapping fixed) (filter (\<lambda>d. dir_name d = ''mapping'') children))) (al_port_mapping al)"
  by (induction children arbitrary: al) (auto simp: add_mapping_def al_add_port_mapping_def)

lemma mappings_fixed: "al_fixed_route (fold (add_mapping fixed) children al) = al_fixed_route al"
  by (induction children arbitrary: al) (auto simp: add_mapping_def al_add_port_mapping_def split: prod.splits)

lemma fold_put_find:
  "sm_find (fold (\<lambda>(p, r). sm_put p r) ms m) q =
     (case List.find (\<lambda>(p, r). p = q) (rev ms) of Some (p, r) \<Rightarrow> Some r | None \<Rightarrow> sm_find m q)"
  by (induction ms rule: rev_induct) (auto simp: smap.find_put split: option.split)

lemma start_listener_route:
  fixes c :: "('a, 'c, 'l) CasterListener"
  assumes "start_listener name any_address udp_start stats g conf c = (r, c1)"
  shows "\<exists>al h. cl_listener c1 = Some al \<and> al_handler al = Some h \<and> cl_route c1 = cl_route c \<and>
    (\<forall>q. get_route_for_port q h = configured_route (cl_route c) (route_children conf) q)"
proof -
  let ?al = "fold (add_mapping (cl_route c)) (route_children conf) (al_set_fixed_route (cl_route c) (AdapterListener_new name stats g))
    :: ('a, 'c, 'l) AdapterListener"
  obtain r1 al1 where l: "al_listen any_address udp_start (cl_listen_ip c) (cl_listen_port c) ?al = (r1, al1)" by fastforce
  have "routes_agree ?al" by (intro agree_mappings agree_fixed agree_new)
  then obtain h where h: "al_handler al1 = Some h" "\<forall>q. get_route_for_port q h = map_route (al_fixed_route ?al) (al_port_mapping ?al) q"
    using listen_routes [of ?al any_address udp_start _ _ r1 al1] l by blast
  have "map_route (al_fixed_route ?al) (al_port_mapping ?al) q = configured_route (cl_route c) (route_children conf) q" for q
    by (simp add: map_route_def mappings_fixed mappings_fold fold_put_find configured_route_def al_set_fixed_route_def
        AdapterListener_new_def split: option.split)
  moreover have "c1 = c\<lparr>cl_listener := Some al1\<rparr>" using assms l by (simp add: start_listener_def)
  ultimately show ?thesis using h by (auto simp: cl_route_def)
qed


definition route_conf :: SrsConfDirective where
  "route_conf = Directive ''stream_caster'' []
     [Directive ''listen'' [''9000''] [], Directive ''output'' [''rtmp://h:1935/live/s''] [],
      Directive ''route'' [] [Directive ''mapping'' [] [Directive ''port'' [''5000''] [], Directive ''app'' [''cam''] []]]]"

definition route_env :: "(u8 list list, u8 list list, unit) udp_env" where
  "route_env = (log_env 0)\<lparr>ue_factories := [(''quic_fec_ts'', Some [])]\<rparr>"

definition route_caster :: "(u8 list list, u8 list list, unit) CasterListener" where
  "route_caster = fst (snd (quic_fec_ts_listen (Some []) ''0.0.0.0'' (\<lambda>ip port. srs_success) (AdapterStatsManager_new 0)
     demo_static route_conf SrsQuicFecTsCasterListener_new []))"

lemmas route_conf_defs = route_conf_def conf_get_def arg0_def arg1_def route_children_def quic_parse_conf_def
  split_url_def find_char_def SrsQuicFecTsCasterListener_new_def CasterListener_new_def

lemma route_atoi: "atoi ''5000'' = 5000" "atoi ''9000'' = 9000"
  by (simp_all add: atoi_def is_space_def digit_val_def sint_sbintrunc' signed_take_bit_int_eq_self)

lemma route_parsed: "\<exists>c. quic_parse_conf route_conf (SrsQuicFecTsCasterListener_new :: (u8 list list, u8 list list, unit) CasterListener) =
    (srs_success, c) \<and> cl_route c = \<lparr>rt_vhost = ''h'', rt_app = ''live'', rt_stream = ''s''\<rparr> \<and>
    cl_listen_ip c = ''0.0.0.0'' \<and> cl_listen_port c = 9000"
  by (simp add: route_conf_defs route_atoi cl_route_def)

lemma route_listen: "\<exists>al h fs. quic_fec_ts_listen (Some []) ''0.0.0.0'' (\<lambda>ip port. srs_success) (AdapterStatsManager_new 0)
     demo_static route_conf SrsQuicFecTsCasterListener_new [] = (srs_success, route_caster, fs) \<and>
   cl_route route_caster = \<lparr>rt_vhost = ''h'', rt_app = ''live'', rt_stream = ''s''\<rparr> \<and>
   cl_listener route_caster = Some al \<and> al_handler al = Some h \<and>
   uh_adapters h = [] \<and> uh_protocol_name h = ''quic_fec_ts'' \<and> uh_stats h = AdapterStatsManager_new 0"
proof -
  obtain c where c: "quic_parse_conf route_conf (SrsQuicFecTsCasterListener_new :: (u8 list list, u8 list list, unit) CasterListener) =
    (srs_success, c)" "cl_route c = \<lparr>rt_vhost = ''h'', rt_app = ''live'', rt_stream = ''s''\<rparr>"
    "cl_listen_ip c = ''0.0.0.0''" "cl_listen_port c = 9000" using route_parsed by blast
  have ch: "route_children route_conf =
      [Directive ''mapping'' [] [Directive ''port'' [''5000''] [], Directive ''app'' [''cam''] []]]"
    by (simp add: route_conf_defs)
  show ?thesis
    using c(2) by (simp add: route_caster_def quic_fec_ts_listen_def c start_listener_def ch add_mapping_def read_mapping_def
        mapping_item_def arg0_def route_atoi al_add_port_mapping_def al_set_fixed_route_def AdapterListener_new_def
        al_listen_def ul_listen_def ul_set_label_def ul_set_endpoint_def SrsUdpListener_new_def add_port_mapping_def
        set_fixed_route_def QuicUdpHandler_new_def cl_route_def)
qed

lemma route_create:
  "uh_adapters h = [] \<Longrightarrow> uh_protocol_name h = ''quic_fec_ts'' \<Longrightarrow> uh_stats h = AdapterStatsManager_new 0 \<Longrightarrow>
    \<exists>h1. get_or_create_adapter route_env ''c'' ''i'' 5000 h = (Inr (Some (uh_next h)), h1)"
  by (simp add: get_or_create_adapter_def route_env_def log_env_def log_class_def create_def sm_find_def on_adapter_def
      add_connection_def asm_lock_def AdapterStatsManager_new_def Let_def)


text \<open>After \<open>close\<close> the listener cannot be used again: its handler is made by the constructor only.\<close>

lemma listen_after_close:
  "al_close env al = (srs_success, al1) \<Longrightarrow> al_listen any_address udp_start ip port al1 = (Inl ERROR_SYSTEM_IO_INVALID, al1)"
  by (auto simp: al_close_def al_listen_def split: option.splits prod.splits sum.splits)

end
