(* ===== verification/Spec2Isabelle.thy ===== *)
theory Spec2Isabelle
  imports Kernel_Bit_Buffer Fec_Group Reorder_Buffer Jitter_Buffer Frame_Bus MyProto_Props Quic_Fec_Ts_Props Hevc_Props Ts_Transmux Caster
begin

text \<open>
  A verification of the ingest adapter layer of the SRS media server
  (\<open>srs-source/trunk/src/app/adapter\<close>) and of the kernel and protocol code that it rests on. Paths below are
  relative to \<open>srs-source/trunk/src\<close>.

  \<^bold>\<open>The program.\<close> An adapter takes the bytes of one publisher and gives media packets to a live source of the
  server. Two adapters exist. \<open>MyProtoAdapter\<close> parses a framed byte stream into standard frames, which pass a frame
  bus with a jitter buffer. \<open>QuicFecTsAdapter\<close> takes datagrams that are either bare MPEG transport stream packets or
  blocks of forward error correction groups; lost blocks are repaired, the restored packets pass a reorder buffer, and the
  transport stream decoder of the kernel turns them into messages. A handler splits the messages into H.264, HEVC and
  AAC units and writes FLV packets. Both adapters reach the live source through \<open>FrameToSourceBridge\<close> and report to a
  statistics singleton. Adapters are made for UDP peers: a caster reads its configuration and starts an adapter listener,
  whose handler gives every peer an adapter and a QUIC session, passes the packets on and removes silent peers. The live source parses the FLV packets with \<open>SrsFormat\<close>.

  \<^bold>\<open>Theories and sources.\<close>
  \<^item> \<open>Srs_Prelude\<close>: machine integers, the error values, sequencing of fallible operations with and without state, byte order.
    \<open>Std_Map\<close>: \<open>std::map\<close> as a sorted association list, with the laws of an ordered map as a locale.
  \<^item> \<open>Kernel_Buffer\<close>, \<open>Kernel_Bit_Buffer\<close>: \<open>SrsBuffer\<close>, \<open>SrsMemoryBlock\<close> and \<open>SrsBitBuffer\<close> (\<open>kernel/srs_kernel_buffer.cpp\<close>).
  \<^item> \<open>Gf256\<close>, \<open>Fec_Solver\<close>, \<open>Fec_Group\<close>: the field \<open>GF(2^8)\<close>, the linear solver, \<open>FecGroupBuffer\<close> and
    \<open>FecRepairManager\<close> (\<open>app/adapter/components/fec/fec_group_buffer.cpp\<close>).
  \<^item> \<open>Reorder_Buffer\<close>, \<open>Jitter_Buffer\<close>, \<open>Frame_Bus\<close>, \<open>Parameter_Sets\<close>, \<open>Std_Frame\<close>: the other components under
    \<open>app/adapter/components\<close> and \<open>app/adapter/common/std_frame.hpp\<close>.
  \<^item> \<open>Adapter_Core\<close>, \<open>Adapter_Stats\<close>: adapter parameters, manager, bridge (\<open>app/adapter/core\<close>,
    \<open>components/frame/frame_to_source_bridge.cpp\<close>) and the statistics with their HTTP interface.
  \<^item> \<open>MyProto\<close>, \<open>MyProto_Props\<close>: \<open>app/adapter/adapters/myproto_adapter.cpp\<close>.
  \<^item> \<open>Raw_Stream\<close>: \<open>protocol/srs_protocol_raw_avc.cpp\<close>; \<open>Kernel_Codec\<close>: the codec structures of
    \<open>kernel/srs_kernel_codec.hpp\<close>; \<open>Kernel_Format\<close>, \<open>Format_Props\<close>: \<open>SrsFormat\<close>, and \<open>Kernel_Hevc\<close>, \<open>Hevc_Props\<close>: its HEVC
    parameter sets (\<open>kernel/srs_kernel_packet.cpp\<close>).
  \<^item> \<open>Ts_Crc\<close>, \<open>Kernel_Ts\<close>, \<open>Ts_Context\<close>: checksum and decoder of transport streams (\<open>kernel/srs_kernel_ts.cpp\<close>);
    \<open>Ts_Encode\<close> the encoder, with \<open>Ts_Encode_Props\<close> (the bytes it writes), \<open>Ts_Roundtrip\<close> and \<open>Ts_Tables\<close> (decoding of
    its PES packets and tables) and \<open>Ts_Stream\<close> (streams of messages); \<open>Ts_Mux\<close>, \<open>Ts_Mux_Props\<close>: message cache,
    transmuxer and encrypted segments; \<open>Ts_Transmux\<close>: the transmuxer from FLV packets to a receiver.
  \<^item> \<open>Ts_Handler\<close>, \<open>Ts_Handler_Props\<close>, \<open>Quic_Fec_Ts\<close>, \<open>Quic_Fec_Ts_Props\<close>:
    \<open>app/adapter/adapters/quic_fec_ts_adapter.cpp\<close>.
  \<^item> \<open>Quic_Session\<close>: \<open>app/adapter/components/quic/quic_session_wrapper.cpp\<close> in both builds; \<open>Udp_Handler\<close>, \<open>Udp_Props\<close>,
    \<open>Udp_Peers\<close>: \<open>quic_udp_handler.cpp\<close> beside it; \<open>Caster\<close>: \<open>app/adapter/core/adapter_listener.cpp\<close>, the UDP listener of
    \<open>app/srs_app_listener.cpp\<close> and the casters \<open>app/srs_app_caster_quic_fec_ts.cpp\<close> and \<open>srs_app_caster_myproto.cpp\<close>.

  \<^bold>\<open>Modelling.\<close> A class is a record and a method a function on it that returns the new record; an \<open>srs_error_t\<close> is a value
  of \<open>srs_error + 'a\<close>, and a state changed before an error stays changed. Four values of \<open>srs_error\<close> are no error
  objects: a failed assertion, an undefined read, an exception and a self-deadlock; they end the process. Fixed-width
  integers are words, so arithmetic wraps as in the code. Mutexes are the atomicity of the operations, except in
  \<open>Adapter_Stats\<close>, where a lock taken twice is a deadlock. Arguments stand for what is outside: clocks, the live source, file
  writers, AES, the contents of fresh memory and the value that the reorder buffer reads from an erased map node. The raw
  HEVC stream takes the parameter set parser as an argument; \<open>hevc_conf_of\<close> is the one of the code. Loops are recursive
  functions with termination proofs; the loops that can run for ever, in \<open>MyProtoAdapter::feed\<close> and in
  \<open>QuicSessionWrapper::process_connections\<close>, are a \<open>partial_function (option)\<close>, where \<open>None\<close> means that they do not return. No
  fuel is used. The adapters of the UDP handler live on a heap with addresses that are used once. ngtcp2, OpenSSL, the class of the
  adapters and \<open>getnameinfo\<close> are arguments there; sessions list their callbacks as events, which the handler carries out.

  \<^bold>\<open>Interfaces.\<close> \<open>ordered_map\<close> (\<open>std::map\<close>, interpreted on \<open>smap\<close>), \<open>byte_field\<close> (the field laws, interpreted on the table-driven
  arithmetic), \<open>prio_queue\<close> (\<open>std::priority_queue\<close>, interpreted on the queue of the jitter buffer),
  \<open>ts_message_handler\<close> (\<open>ISrsTsHandler\<close>, interpreted on the handler of \<open>QuicFecTsAdapter\<close> with three of its invariants) and
  \<open>registering_adapter\<close> (what the UDP handler's adapters do with the statistics, interpreted on both adapters).

  \<^bold>\<open>What is shown.\<close>
  \<^item> Kernel: reads stay in bounds and return what was written; Exp-Golomb codes and bit fields are read back.
  \<^item> FEC: the tables implement the field, the solver finds the unique solution, XOR repair returns the lost block, the
    manager stays bounded; repair of a single loss by the Reed-Solomon path returns a multiple of the parity block instead.
  \<^item> Reordering: packets come out in sequence for every order of arrival, and a lost one stops the output; the jitter
    buffer hands frames out in order; the bus conserves frames.
  \<^item> Formats: H.264 units, sequence headers and AAC frames survive muxing and parsing; when the guess of the payload format
    fails. An HEVC SPS is parsed to the values that were written; the parameter sets that end the server.
  \<^item> Transport streams: the checksum is the CRC-32 of MPEG-2; decoding terminates on every input; what the encoder writes, the
    decoder reads back, through codec changes and with any contents of fresh blocks; slices reach the parser unchanged; FLV
    packets pass through the transmuxer to a receiver; an encrypted segment is the encryption of the whole segment; the
    packets and write errors that end the server.
  \<^item> The adapters: delivery however the stream is cut, headers before frames on the whole path, bounded memory, monotone
    timestamps; the inputs on which they stall, diverge, misdetect the protocol or read out of bounds.
  \<^item> Peers: the handler never uses a dead adapter or session and keeps no others alive; the configured route reaches the adapter;
    expiry removes exactly the silent peers. The QUIC build: sessions never become connected, ignore the errors they have code
    for and deliver nothing with the bundled library; connections that are counted twice, peers that are taken for one.

  \<^bold>\<open>Not modelled.\<close> Sockets and coroutines; the parser of the configuration file; the rest of the server (RTMP, RTC, SRT, HTTP, HLS, MP4), which the adapters reach only through the
  live source; tests and third-party code.
\<close>

end
